(* ===== verification/Prelude.thy ===== *)
theory Prelude
  imports Complex_Main "HOL-Library.Word" "HOL-Library.Sublist"
begin

section \<open>Shared vocabulary of the model\<close>

text \<open>
  What every component of the model shares: the types that stand for Rust's own types, the
  string operations of \<open>std::str\<close> the sources use, \<open>serde_json::Value\<close>, the collections of
  named theorems and the generic lemmas on lists and maps.

  Rust's \<open>f64\<close> scores are exact rational numbers here. Every score constant of the sources
  (0.5, 1.5, 3.0, 3.5, 5.5, 8.0, \<dots>) is exactly representable in binary, and sums of such
  constants are exact in \<open>f64\<close>; rounding, NaN and the infinities of scores that come from a
  configuration file are not modelled.
  \<open>Instant\<close> and \<open>DateTime\<close> are integers (nanoseconds on Linux' signed monotonic clock),
  \<open>Duration\<close> is a natural number of nanoseconds.
  A \<open>String\<close> is its UTF-8 bytes, one \<open>char\<close> per byte, so \<open>length\<close> is \<open>str::len\<close>.
\<close>

type_synonym f64 = rat
type_synonym instant = int
type_synonym duration = nat
type_synonym uuid = "128 word"
type_synonym u16 = "16 word"
type_synonym u32 = "32 word"
type_synonym u64 = "64 word"

named_theorems model_defs \<open>definitions of the model that proofs unfold\<close>
named_theorems inv_intros \<open>preservation of component invariants\<close>

definition secs :: "nat \<Rightarrow> duration" where
  "secs n = n * 1000000000"

subsection \<open>Strings\<close>

fun split_on :: "char \<Rightarrow> string \<Rightarrow> string list" where
  "split_on c [] = [[]]"
| "split_on c (x # xs) =
     (if x = c then [] # split_on c xs
      else case split_on c xs of [] \<Rightarrow> [[x]] | seg # segs \<Rightarrow> (x # seg) # segs)"

fun str_contains :: "string \<Rightarrow> string \<Rightarrow> bool" where
  "str_contains [] needle = (needle = [])"
| "str_contains (x # xs) needle = (prefix needle (x # xs) \<or> str_contains xs needle)"

fun join :: "string \<Rightarrow> string list \<Rightarrow> string" where
  "join sep [] = []"
| "join sep [s] = s"
| "join sep (s # ss) = s @ sep @ join sep ss"

definition ascii_lower :: "char \<Rightarrow> char" where
  "ascii_lower c =
     (let n = of_char c :: nat in if 65 \<le> n \<and> n \<le> 90 then char_of (n + 32) else c)"

definition to_lowercase :: "string \<Rightarrow> string" where
  "to_lowercase s = map ascii_lower s"

definition is_space :: "char \<Rightarrow> bool" where
  "is_space c \<longleftrightarrow> (let n = of_char c :: nat in n = 32 \<or> (9 \<le> n \<and> n \<le> 13))"

definition trim :: "string \<Rightarrow> string" where
  "trim s = rev (dropWhile is_space (rev (dropWhile is_space s)))"

definition eq_ignore_ascii_case :: "string \<Rightarrow> string \<Rightarrow> bool" where
  "eq_ignore_ascii_case a b \<longleftrightarrow> to_lowercase a = to_lowercase b"

text \<open>\<open>rsplit_once\<close> at a character: what stands before and after its last occurrence.\<close>

definition rsplit_once :: "char \<Rightarrow> string \<Rightarrow> (string \<times> string) option" where
  "rsplit_once c s =
     (if c \<in> set s
      then (let tl = rev (takeWhile (\<lambda>x. x \<noteq> c) (rev s)) in Some (take (length s - length tl - 1) s, tl))
      else None)"

text \<open>\<open>split_once\<close> at the first occurrence of a text.\<close>

fun split_once :: "string \<Rightarrow> string \<Rightarrow> (string \<times> string) option" where
  "split_once sep [] = (if sep = [] then Some ([], []) else None)"
| "split_once sep (c # s) =
     (if prefix sep (c # s) then Some ([], drop (length sep) (c # s))
      else map_option (\<lambda>(a, b). (c # a, b)) (split_once sep s))"

lemma split_on_not_Nil [simp]: "split_on c s \<noteq> []"
  by (induction s) (auto split: list.splits)

lemma split_on_Cons_not_empty:
  "x \<noteq> c \<Longrightarrow> split_on c (x # xs) = (x # hd (split_on c xs)) # tl (split_on c xs)"
  by (cases "split_on c xs") auto

lemma split_on_no_sep: "seg \<in> set (split_on c s) \<Longrightarrow> c \<notin> set seg"
proof (induction s arbitrary: seg)
  case Nil
  then show ?case by simp
next
  case (Cons x xs)
  show ?case
  proof (cases "x = c")
    case True
    with Cons show ?thesis by auto
  next
    case False
    obtain h t where ht: "split_on c xs = h # t"
      by (cases "split_on c xs") auto
    with False Cons.prems have "seg = x # h \<or> seg \<in> set t" by auto
    moreover have "c \<notin> set h" "\<And>s. s \<in> set t \<Longrightarrow> c \<notin> set s"
      using Cons.IH ht by auto
    ultimately show ?thesis using False by auto
  qed
qed

lemma split_on_nosep: "c \<notin> set s \<Longrightarrow> split_on c s = [s]"
  by (induction s) auto

lemma split_on_sep: "c \<notin> set s \<Longrightarrow> split_on c (s @ c # t) = s # split_on c t"
  by (induction s) auto

lemma split_on_join: "ls \<noteq> [] \<Longrightarrow> list_all (\<lambda>l. c \<notin> set l) ls \<Longrightarrow> split_on c (join [c] ls) = ls"
  by (induction "[c]" ls rule: join.induct) (auto simp: split_on_nosep split_on_sep)

lemma join_split_on: "join [c] (split_on c s) = s"
proof (induction s)
  case Nil
  then show ?case by simp
next
  case (Cons x xs)
  obtain h t where ht: "split_on c xs = h # t"
    by (cases "split_on c xs") auto
  then show ?case using Cons by (cases t) auto
qed

lemma str_contains_iff: "str_contains s needle \<longleftrightarrow> (\<exists>a b. s = a @ needle @ b)"
proof (induction s)
  case Nil
  then show ?case by auto
next
  case (Cons x xs)
  have "(\<exists>a b. x # xs = a @ needle @ b) \<longleftrightarrow>
        prefix needle (x # xs) \<or> (\<exists>a b. xs = a @ needle @ b)"
    by (auto simp: prefix_def Cons_eq_append_conv)
  with Cons show ?case by simp
qed

lemma str_contains_refl [simp]: "str_contains s s"
  by (cases s) auto

lemma ascii_lower_idem [simp]: "ascii_lower (ascii_lower c) = ascii_lower c"
  by (auto simp: ascii_lower_def Let_def)

lemma to_lowercase_idem [simp]: "to_lowercase (to_lowercase s) = to_lowercase s"
  by (simp add: to_lowercase_def)

text \<open>Separating a key by a character neither part holds makes the prefix test exact.\<close>

lemma append_sep_inj:
  "c \<notin> set a \<Longrightarrow> c \<notin> set b \<Longrightarrow> a @ c # e = b @ c # d \<Longrightarrow> a = b"
proof (induction a arbitrary: b)
  case Nil
  then show ?case by (cases b) auto
next
  case (Cons x xs)
  then show ?case by (cases b) auto
qed

lemma prefix_sep_eq:
  assumes "c \<notin> set a" and "c \<notin> set b"
  shows "prefix (a @ [c]) (b @ c # d) \<longleftrightarrow> a = b"
proof
  assume "prefix (a @ [c]) (b @ c # d)"
  then obtain e where "a @ c # e = b @ c # d" by (auto simp: prefix_def)
  with assms show "a = b" by (rule append_sep_inj)
qed (simp add: prefix_def)

subsection \<open>Decimal rendering\<close>

definition digit :: "nat \<Rightarrow> char" where
  "digit n = (if n < 10 then char_of (48 + n) else char_of (87 + n))"

fun digits_base :: "nat \<Rightarrow> nat \<Rightarrow> string" where
  "digits_base b n =
     (if b < 2 \<or> n < b then [digit n] else digits_base b (n div b) @ [digit (n mod b)])"

declare digits_base.simps [simp del]

abbreviation digits_of_nat :: "nat \<Rightarrow> string" where
  "digits_of_nat \<equiv> digits_base 10"

definition string_of_int :: "int \<Rightarrow> string" where
  "string_of_int i = (if i < 0 then ''-'' @ digits_of_nat (nat (- i)) else digits_of_nat (nat i))"

definition round_half_even :: "rat \<Rightarrow> int" where
  "round_half_even q =
     (let f = \<lfloor>q\<rfloor>; r = q - of_int f
      in if r < 1 / 2 then f else if r > 1 / 2 then f + 1 else if even f then f else f + 1)"

text \<open>\<open>format!("{x:.1}")\<close>.\<close>

definition fmt_1 :: "f64 \<Rightarrow> string" where
  "fmt_1 q =
     (let n = nat (round_half_even (\<bar>q\<bar> * 10))
      in (if q < 0 then ''-'' else []) @ digits_of_nat (n div 10) @ ''.'' @ digits_of_nat (n mod 10))"

subsection \<open>JSON values\<close>

datatype json =
    JNull
  | JBool bool
  | JPosInt nat
  | JNegInt int
  | JFloat f64
  | JString string
  | JArray "json list"
  | JObject "(string \<times> json) list"

fun json_get :: "json \<Rightarrow> string \<Rightarrow> json option" where
  "json_get (JObject kvs) k = map_of kvs k"
| "json_get _ k = None"

fun as_str :: "json \<Rightarrow> string option" where
  "as_str (JString s) = Some s"
| "as_str _ = None"

fun as_bool :: "json \<Rightarrow> bool option" where
  "as_bool (JBool b) = Some b"
| "as_bool _ = None"

fun as_u64 :: "json \<Rightarrow> nat option" where
  "as_u64 (JPosInt n) = Some n"
| "as_u64 _ = None"

fun as_array :: "json \<Rightarrow> json list option" where
  "as_array (JArray xs) = Some xs"
| "as_array _ = None"

subsection \<open>Association lists as hash maps with an iteration order\<close>

definition assoc_remove :: "'k \<Rightarrow> ('k \<times> 'v) list \<Rightarrow> ('k \<times> 'v) list" where
  "assoc_remove k xs = filter (\<lambda>p. fst p \<noteq> k) xs"

fun assoc_insert :: "'k \<Rightarrow> 'v \<Rightarrow> ('k \<times> 'v) list \<Rightarrow> ('k \<times> 'v) list" where
  "assoc_insert k v [] = [(k, v)]"
| "assoc_insert k v (p # ps) = (if fst p = k then (k, v) # ps else p # assoc_insert k v ps)"

lemma map_of_assoc_insert [simp]: "map_of (assoc_insert k v xs) = (map_of xs)(k \<mapsto> v)"
  by (induction xs) (auto simp: fun_eq_iff)

lemma map_of_assoc_remove [simp]: "map_of (assoc_remove k xs) = (map_of xs)(k := None)"
  by (induction xs) (auto simp: assoc_remove_def fun_eq_iff)

lemma dom_assoc_insert [simp]: "fst ` set (assoc_insert k v xs) = insert k (fst ` set xs)"
  by (induction xs) auto

lemma length_assoc_insert:
  "length (assoc_insert k v xs) = (if k \<in> fst ` set xs then length xs else Suc (length xs))"
  by (induction xs) auto

lemma distinct_assoc_insert [simp]:
  "distinct (map fst xs) \<Longrightarrow> distinct (map fst (assoc_insert k v xs))"
  by (induction xs) (use dom_assoc_insert in \<open>fastforce simp: image_iff\<close>)+

lemma distinct_map_fst_filter [simp]:
  "distinct (map fst xs) \<Longrightarrow> distinct (map fst (filter P xs))"
  by (induction xs) auto

lemma distinct_assoc_remove [simp]:
  "distinct (map fst xs) \<Longrightarrow> distinct (map fst (assoc_remove k xs))"
  by (simp add: assoc_remove_def)

lemma map_of_filter_fst:
  "map_of (filter (\<lambda>p. P (fst p)) xs) k = (if P k then map_of xs k else None)"
  by (induction xs) auto

subsection \<open>Generic list lemmas\<close>

lemma map_filter_keys:
  assumes "\<And>p q. f p = Some q \<Longrightarrow> fst q = fst p"
  shows map_filter_keys_subset: "fst ` set (List.map_filter f xs) \<subseteq> fst ` set xs"
    and map_filter_keys_distinct:
      "distinct (map fst xs) \<Longrightarrow> distinct (map fst (List.map_filter f xs))"
proof -
  show sub: "fst ` set (List.map_filter f xs) \<subseteq> fst ` set xs" for xs
  proof (induction xs)
    case (Cons x xs)
    then show ?case by (cases "f x") (auto simp: map_filter_simps dest: assms)
  qed simp
  show "distinct (map fst xs) \<Longrightarrow> distinct (map fst (List.map_filter f xs))"
  proof (induction xs)
    case (Cons x xs)
    show ?case
    proof (cases "f x")
      case None
      with Cons show ?thesis by (simp add: map_filter_simps)
    next
      case (Some q)
      then have "fst q \<notin> fst ` set (List.map_filter f xs)"
        using assms Cons.prems sub [of xs] by auto
      with Some Cons show ?thesis by (simp add: map_filter_simps)
    qed
  qed (simp add: map_filter_simps)
qed

lemma sum_list_filter_append:
  "(\<Sum>x\<leftarrow>filter P (xs @ ys). f x) = (\<Sum>x\<leftarrow>filter P xs. f x) + ((\<Sum>x\<leftarrow>filter P ys. f x) :: 'a::monoid_add)"
  by (simp add: sum_list_addf)

lemma length_filter_mono:
  "(\<And>x. x \<in> set xs \<Longrightarrow> P x \<Longrightarrow> Q x) \<Longrightarrow> length (filter P xs) \<le> length (filter Q xs)"
  by (induction xs) auto

end
