(* ===== verification/Proxy_Types.thy ===== *)
theory Proxy_Types
  imports Prelude
begin

section \<open>The proxy's data types\<close>

text \<open>
  \<open>crates/grith-proxy/src/types.rs\<close> and \<open>path_resolution.rs\<close>: the tool call and its context,
  the filter result, the decision, the session scope key, and the accessors every filter reads a
  call through. \<open>std::fs::canonicalize\<close> reads the file system, so it is the parameter
  \<open>canonicalize\<close> of the definitions that resolve paths.
\<close>

subsection \<open>Enumerations\<close>

datatype session_scope_key = SessionScopeKey uuid

definition from_session_id :: "uuid \<Rightarrow> session_scope_key" where
  "from_session_id i = SessionScopeKey i"

fun as_uuid :: "session_scope_key \<Rightarrow> uuid" where
  "as_uuid (SessionScopeKey i) = i"

datatype call_outcome = Executed | ObservedOnly | Denied | KernelRefused

fun executed :: "call_outcome \<Rightarrow> bool" where
  "executed Executed = True"
| "executed ObservedOnly = True"
| "executed _ = False"

fun suppressed :: "call_outcome \<Rightarrow> bool" where
  "suppressed Denied = True"
| "suppressed KernelRefused = True"
| "suppressed _ = False"

datatype bind_protocol = Tcp | Udp

record listener_policy_match =
  allow_clamp :: bool
  lpm_desc :: string

datatype unix_socket_class = Privileged | Control

definition unix_socket_class_KEY :: string where
  "unix_socket_class_KEY = ''unix_socket_class''"

fun unix_socket_class_as_str :: "unix_socket_class \<Rightarrow> string" where
  "unix_socket_class_as_str Privileged = ''privileged''"
| "unix_socket_class_as_str Control = ''control''"

definition from_str_value :: "string \<Rightarrow> unix_socket_class option" where
  "from_str_value v =
     (if v = ''privileged'' then Some Privileged
      else if v = ''control'' then Some Control else None)"

record component_writability =
  cw_path :: string
  cw_owner_uid :: u32
  other_writable :: bool
  group_writable_non_root :: bool
  world_writable :: bool

record spawn_provenance_rec =
  canonical_path :: string
  sha256 :: string
  owner_uid :: u32
  owner_gid :: u32
  sp_mode :: u32
  component_writability_walk :: "component_writability list"
  matched_routine_root :: "string option"
  is_outbound_capable :: bool

datatype tool_call_type =
    FileRead string
  | FileWrite string string
  | FileAppend string
  | FileDelete string
  | DirList string
  | ShellExec string "string list"
  | HttpRequest string string
  | FileRename string string
  | FileLink string string bool
  | FileChmod string u32
  | DirCreate string
  | NetConnect string u16
  | NetListen string u16
  | ProcessSpawn string "string list"
  | DnsQuery string string
  | OwnershipChange string int int
  | FilesystemMutation string "string option" string "string option"
  | CrossProcessAccess string u32
  | NamespaceOp string u64
  | DbusMethodCall string "string option" "string option" "string option"

datatype taint_level = TaintNone | TaintLow | TaintMedium | TaintHigh

datatype queue_priority = PrioLow | PrioMedium | PrioHigh | PrioCritical

datatype severity = Notice | Warning | SevError | SevCritical

datatype proxy_action =
    Allow
  | Queue (priority: queue_priority)
  | Deny (deny_reason: string)

subsection \<open>The derived orders\<close>

fun severity_rank :: "severity \<Rightarrow> nat" where
  "severity_rank Notice = 0"
| "severity_rank Warning = 1"
| "severity_rank SevError = 2"
| "severity_rank SevCritical = 3"

fun priority_rank :: "queue_priority \<Rightarrow> nat" where
  "priority_rank PrioLow = 0"
| "priority_rank PrioMedium = 1"
| "priority_rank PrioHigh = 2"
| "priority_rank PrioCritical = 3"

lemma severity_rank_inj: "severity_rank a = severity_rank b \<longleftrightarrow> a = b"
  by (cases a; cases b) simp_all

lemma priority_rank_inj: "priority_rank a = priority_rank b \<longleftrightarrow> a = b"
  by (cases a; cases b) simp_all

instantiation severity :: linorder
begin

definition less_eq_severity :: "severity \<Rightarrow> severity \<Rightarrow> bool" where
  "less_eq_severity a b \<longleftrightarrow> severity_rank a \<le> severity_rank b"

definition less_severity :: "severity \<Rightarrow> severity \<Rightarrow> bool" where
  "less_severity a b \<longleftrightarrow> severity_rank a < severity_rank b"

instance
  by standard (auto simp: less_eq_severity_def less_severity_def severity_rank_inj)

end

instantiation queue_priority :: linorder
begin

definition less_eq_queue_priority :: "queue_priority \<Rightarrow> queue_priority \<Rightarrow> bool" where
  "less_eq_queue_priority a b \<longleftrightarrow> priority_rank a \<le> priority_rank b"

definition less_queue_priority :: "queue_priority \<Rightarrow> queue_priority \<Rightarrow> bool" where
  "less_queue_priority a b \<longleftrightarrow> priority_rank a < priority_rank b"

instance
  by standard (auto simp: less_eq_queue_priority_def less_queue_priority_def priority_rank_inj)

end

subsection \<open>Records\<close>

record filter_result =
  filter_name :: string
  fr_matched :: bool
  fr_score :: f64
  rule_id :: string
  fr_severity :: severity
  fr_message :: string
  metadata :: "string \<rightharpoonup> json"

record proxy_decision =
  action :: proxy_action
  composite_score :: f64
  filter_results :: "filter_result list"
  evaluation_time :: duration
  decision_reason :: string

record tool_call_context =
  ctx_id :: uuid
  ctx_timestamp :: instant
  plugin_id :: string
  call_type :: tool_call_type
  arguments :: json
  session_id :: uuid
  task_context :: "string option"
  call_sequence_number :: u64
  source_taint :: taint_level
  profile_name :: "string option"
  conversation_id :: "string option"
  session_scope :: "session_scope_key option"
  spawn_provenance :: "spawn_provenance_rec option"
  listener_policy :: "listener_policy_match option"
  ctx_bind_protocol :: "bind_protocol option"

text \<open>
  \<open>ToolCallContext::new\<close>; the fresh id and the clock reading are arguments.
\<close>

definition context_new ::
    "uuid \<Rightarrow> instant \<Rightarrow> string \<Rightarrow> tool_call_type \<Rightarrow> uuid \<Rightarrow> tool_call_context" where
  "context_new fresh now pid ct sid =
     \<lparr> ctx_id = fresh, ctx_timestamp = now, plugin_id = pid, call_type = ct, arguments = JNull,
       session_id = sid, task_context = None, call_sequence_number = 0,
       source_taint = TaintNone, profile_name = None, conversation_id = None,
       session_scope = Some (from_session_id sid), spawn_provenance = None,
       listener_policy = None, ctx_bind_protocol = None \<rparr>"

definition with_profile :: "tool_call_context \<Rightarrow> string \<Rightarrow> tool_call_context" where
  "with_profile ctx name = ctx\<lparr>profile_name := Some name\<rparr>"

definition ctx_unix_socket_class :: "tool_call_context \<Rightarrow> unix_socket_class option" where
  "ctx_unix_socket_class ctx =
     Option.bind (json_get (arguments ctx) unix_socket_class_KEY)
       (\<lambda>v. Option.bind (as_str v) from_str_value)"

definition with_session_scope :: "tool_call_context \<Rightarrow> session_scope_key \<Rightarrow> tool_call_context" where
  "with_session_scope ctx sc = ctx\<lparr>session_scope := Some sc\<rparr>"

text \<open>
  \<open>warn_missing_scope_once\<close> keeps a process-wide set of the pairs it has warned about; the
  result says whether this call logs. \<open>scope_or_warn\<close> threads that set.
\<close>

type_synonym warned = "(uuid \<times> string) list"

definition warn_missing_scope_once :: "warned \<Rightarrow> uuid \<Rightarrow> string \<Rightarrow> warned \<times> bool" where
  "warn_missing_scope_once seen sid fname =
     (if (sid, fname) \<in> set seen then (seen, False) else ((sid, fname) # seen, True))"

definition scope_or_warn ::
    "warned \<Rightarrow> tool_call_context \<Rightarrow> string \<Rightarrow> session_scope_key \<times> warned \<times> bool" where
  "scope_or_warn seen ctx fname =
     (case session_scope ctx of
        Some sc \<Rightarrow> (sc, seen, False)
      | None \<Rightarrow> (from_session_id (session_id ctx),
                 warn_missing_scope_once seen (session_id ctx) fname))"

text \<open>The scope itself does not depend on the warning set.\<close>

definition scope_of :: "tool_call_context \<Rightarrow> session_scope_key" where
  "scope_of ctx =
     (case session_scope ctx of Some sc \<Rightarrow> sc | None \<Rightarrow> from_session_id (session_id ctx))"

lemma fst_scope_or_warn [simp]: "fst (scope_or_warn seen ctx fname) = scope_of ctx"
  by (simp add: scope_or_warn_def scope_of_def split: option.split)

fun call_path :: "tool_call_type \<Rightarrow> string option" where
  "call_path (FileRead p) = Some p"
| "call_path (FileWrite p _) = Some p"
| "call_path (FileAppend p) = Some p"
| "call_path (FileDelete p) = Some p"
| "call_path (DirList p) = Some p"
| "call_path (FileChmod p _) = Some p"
| "call_path (DirCreate p) = Some p"
| "call_path (FileRename old _) = Some old"
| "call_path (FileLink target _ _) = Some target"
| "call_path (OwnershipChange target _ _) = Some target"
| "call_path (FilesystemMutation _ _ target _) = Some target"
| "call_path _ = None"

definition ctx_path :: "tool_call_context \<Rightarrow> string option" where
  "ctx_path ctx = call_path (call_type ctx)"

definition ctx_paths :: "tool_call_context \<Rightarrow> string list" where
  "ctx_paths ctx =
     (case call_type ctx of
        FileLink target link _ \<Rightarrow> [target, link]
      | _ \<Rightarrow> (case ctx_path ctx of None \<Rightarrow> [] | Some p \<Rightarrow> [p]))"

definition ctx_url :: "tool_call_context \<Rightarrow> string option" where
  "ctx_url ctx = (case call_type ctx of HttpRequest _ url \<Rightarrow> Some url | _ \<Rightarrow> None)"

definition ctx_command :: "tool_call_context \<Rightarrow> string option" where
  "ctx_command ctx =
     (case call_type ctx of
        ShellExec c _ \<Rightarrow> Some c
      | ProcessSpawn c _ \<Rightarrow> Some c
      | _ \<Rightarrow> None)"

definition command_line :: "string \<Rightarrow> string list \<Rightarrow> string" where
  "command_line c args = (if args = [] then c else c @ '' '' @ join '' '' args)"

definition full_command :: "tool_call_context \<Rightarrow> string option" where
  "full_command ctx =
     (case call_type ctx of
        ShellExec c args \<Rightarrow> Some (command_line c args)
      | ProcessSpawn c args \<Rightarrow> Some (command_line c args)
      | _ \<Rightarrow> None)"

definition ctx_address :: "tool_call_context \<Rightarrow> (string \<times> u16) option" where
  "ctx_address ctx =
     (case call_type ctx of
        NetConnect a p \<Rightarrow> Some (a, p)
      | NetListen a p \<Rightarrow> Some (a, p)
      | _ \<Rightarrow> None)"

subsection \<open>Results and decisions\<close>

definition no_match :: "string \<Rightarrow> filter_result" where
  "no_match name =
     \<lparr> filter_name = name, fr_matched = False, fr_score = 0, rule_id = [],
       fr_severity = Notice, fr_message = [], metadata = Map.empty \<rparr>"

definition matched :: "string \<Rightarrow> string \<Rightarrow> f64 \<Rightarrow> severity \<Rightarrow> string \<Rightarrow> filter_result" where
  "matched name rid sc sev msg =
     \<lparr> filter_name = name, fr_matched = True, fr_score = sc, rule_id = rid,
       fr_severity = sev, fr_message = msg, metadata = Map.empty \<rparr>"

definition decision_allow :: "f64 \<Rightarrow> filter_result list \<Rightarrow> duration \<Rightarrow> proxy_decision" where
  "decision_allow sc rs t =
     \<lparr> action = Allow, composite_score = sc, filter_results = rs, evaluation_time = t,
       decision_reason = ''Score '' @ fmt_1 sc @ '' below allow threshold'' \<rparr>"

definition queue_priority_for :: "f64 \<Rightarrow> queue_priority" where
  "queue_priority_for s =
     (if s \<ge> 7 then PrioCritical else if s \<ge> 11 / 2 then PrioHigh
      else if s \<ge> 4 then PrioMedium else PrioLow)"

definition decision_queue :: "f64 \<Rightarrow> filter_result list \<Rightarrow> duration \<Rightarrow> proxy_decision" where
  "decision_queue sc rs t =
     \<lparr> action = Queue (queue_priority_for sc), composite_score = sc, filter_results = rs,
       evaluation_time = t,
       decision_reason = ''Score '' @ fmt_1 sc @ '' in escalation zone'' \<rparr>"

definition decision_deny ::
    "f64 \<Rightarrow> filter_result list \<Rightarrow> string \<Rightarrow> duration \<Rightarrow> proxy_decision" where
  "decision_deny sc rs reason t =
     \<lparr> action = Deny reason, composite_score = sc, filter_results = rs, evaluation_time = t,
       decision_reason = reason \<rparr>"

definition is_allowed :: "proxy_decision \<Rightarrow> bool" where
  "is_allowed d \<longleftrightarrow> action d = Allow"

fun is_deny :: "proxy_action \<Rightarrow> bool" where
  "is_deny (Deny _) = True"
| "is_deny _ = False"

definition is_denied :: "proxy_decision \<Rightarrow> bool" where
  "is_denied d \<longleftrightarrow> is_deny (action d)"

lemma matched_simps [simp]:
  "filter_name (matched n r s v m) = n" "fr_matched (matched n r s v m)"
  "fr_score (matched n r s v m) = s" "rule_id (matched n r s v m) = r"
  "fr_severity (matched n r s v m) = v" "fr_message (matched n r s v m) = m"
  "metadata (matched n r s v m) = Map.empty"
  by (simp_all add: matched_def)

lemma no_match_simps [simp]:
  "filter_name (no_match n) = n" "\<not> fr_matched (no_match n)" "fr_score (no_match n) = 0"
  "rule_id (no_match n) = []" "metadata (no_match n) = Map.empty"
  by (simp_all add: no_match_def)

end
