(* ===== verification/Scoring.thy ===== *)
theory Scoring
  imports Proxy_Types
begin

section \<open>Score aggregation and routing\<close>

text \<open>
  \<open>crates/grith-proxy/src/scoring.rs\<close>: the sum of the matched scores, the thresholds, and the
  routing of a composite score to allow, queue or deny.
\<close>

definition SCORE_QUEUE_THRESHOLD :: f64 where "SCORE_QUEUE_THRESHOLD = 3"
definition SCORE_DENY_THRESHOLD :: f64 where "SCORE_DENY_THRESHOLD = 8"

definition severity_for :: "f64 \<Rightarrow> severity" where
  "severity_for s =
     (if s \<ge> SCORE_DENY_THRESHOLD then SevCritical
      else if s \<ge> 5 then SevError
      else if s \<ge> SCORE_QUEUE_THRESHOLD then Warning else Notice)"

record scoring_config =
  auto_allow_threshold :: f64
  auto_deny_threshold :: f64

definition scoring_default :: scoring_config where
  "scoring_default =
     \<lparr> auto_allow_threshold = SCORE_QUEUE_THRESHOLD, auto_deny_threshold = SCORE_DENY_THRESHOLD \<rparr>"

definition thresholds :: "scoring_config \<Rightarrow> f64 \<times> f64" where
  "thresholds c = (auto_allow_threshold c, auto_deny_threshold c)"

definition aggregate :: "filter_result list \<Rightarrow> f64" where
  "aggregate rs = (\<Sum>r\<leftarrow>filter fr_matched rs. fr_score r)"

definition build_deny_reason :: "filter_result list \<Rightarrow> string" where
  "build_deny_reason rs =
     (let triggers = map fr_message (filter (\<lambda>r. fr_matched r \<and> fr_score r > 0) rs)
      in if triggers = [] then ''Score exceeds auto-deny threshold'' else join ''; '' triggers)"

definition route_decision ::
    "f64 \<Rightarrow> filter_result list \<Rightarrow> f64 \<Rightarrow> f64 \<Rightarrow> duration \<Rightarrow> proxy_decision" where
  "route_decision sc rs allow_t deny_t t =
     (if sc > deny_t then decision_deny sc rs (build_deny_reason rs) t
      else if sc > allow_t then decision_queue sc rs t
      else decision_allow sc rs t)"

definition exceeds_deny :: "f64 \<Rightarrow> f64 \<Rightarrow> bool" where
  "exceeds_deny sc deny_t \<longleftrightarrow> sc > deny_t"

lemmas routing_defs =
  route_decision_def decision_allow_def decision_queue_def decision_deny_def

subsection \<open>Aggregation\<close>

lemma aggregate_Nil [simp]: "aggregate [] = 0"
  by (simp add: aggregate_def)

lemma aggregate_Cons: "aggregate (r # rs) = (if fr_matched r then fr_score r else 0) + aggregate rs"
  by (simp add: aggregate_def)

lemma aggregate_append [simp]: "aggregate (xs @ ys) = aggregate xs + aggregate ys"
  by (simp add: aggregate_def)

lemma aggregate_nonneg:
  "(\<And>r. r \<in> set rs \<Longrightarrow> fr_matched r \<Longrightarrow> 0 \<le> fr_score r) \<Longrightarrow> 0 \<le> aggregate rs"
  by (auto simp: aggregate_def intro!: sum_list_nonneg)

lemma aggregate_no_match [simp]: "aggregate (map (\<lambda>x. no_match (f x)) xs) = 0"
  by (induction xs) (auto simp: aggregate_Cons)

subsection \<open>Routing\<close>

lemma route_decision_fields [simp]:
  "composite_score (route_decision sc rs a d t) = sc"
  "filter_results (route_decision sc rs a d t) = rs"
  "evaluation_time (route_decision sc rs a d t) = t"
  by (simp_all add: routing_defs)

lemma is_denied_route [simp]: "is_denied (route_decision sc rs a d t) \<longleftrightarrow> sc > d"
  by (simp add: routing_defs is_denied_def)

lemma is_allowed_route [simp]:
  "is_allowed (route_decision sc rs a d t) \<longleftrightarrow> sc \<le> d \<and> sc \<le> a"
  by (auto simp: routing_defs is_allowed_def)

text \<open>How strict an action is.\<close>

fun strictness :: "proxy_action \<Rightarrow> nat" where
  "strictness Allow = 0"
| "strictness (Queue p) = Suc (priority_rank p)"
| "strictness (Deny _) = 5"

lemma queue_priority_mono: "s \<le> s' \<Longrightarrow> priority_rank (queue_priority_for s) \<le> priority_rank (queue_priority_for s')"
  by (simp add: queue_priority_for_def)

text \<open>
  Routing is monotone in the evidence: a higher composite score never leads to a laxer
  decision, and within the review band never to a lower review priority.
\<close>

theorem route_decision_monotone:
  assumes "s \<le> s'"
  shows "strictness (action (route_decision s rs a d t)) \<le> strictness (action (route_decision s' rs' a d t'))"
proof -
  have "Suc (priority_rank p) \<le> 5" for p by (cases p) simp_all
  with assms queue_priority_mono [OF assms] show ?thesis by (simp add: routing_defs)
qed

theorem route_decision_monotone_witness:
  "strictness (action (route_decision (7/2) [] 3 8 0)) \<le> strictness (action (route_decision 6 [] 3 8 1))"
  by (rule route_decision_monotone) simp

text \<open>
  The boundary scores: with the default thresholds a composite of exactly 3 is allowed and one
  of exactly 8 is queued, everything strictly between is queued, and everything above 8 is denied.
\<close>

theorem default_routing:
  "action (route_decision s rs (auto_allow_threshold scoring_default) (auto_deny_threshold scoring_default) t) =
     (if s \<le> 3 then Allow else if s \<le> 8 then Queue (queue_priority_for s) else Deny (build_deny_reason rs))"
  by (simp add: routing_defs scoring_default_def SCORE_QUEUE_THRESHOLD_def SCORE_DENY_THRESHOLD_def)

end
