(* ===== verification/Filters.thy ===== *)
theory Filters
  imports Scoring
begin

section \<open>The filter trait and registry\<close>

text \<open>
  \<open>crates/grith-proxy/src/filters/mod.rs\<close>. A filter keeps its mutable state behind a mutex; all
  filters of a proxy share one state of type \<open>'s\<close> here, of which each reads and writes its own
  part. \<open>evaluate\<close> may fail (\<open>Inl\<close> the error). The latency a metrics record is charged with
  is an argument.
\<close>

datatype filter_phase = Static | Pattern | Context

record 's security_filter =
  flt_name :: string
  flt_phase :: filter_phase
  flt_ready :: "'s \<Rightarrow> bool"
  flt_evaluate :: "tool_call_context \<Rightarrow> 's \<Rightarrow> (string + filter_result) \<times> 's"
  flt_evict :: "session_scope_key \<Rightarrow> 's \<Rightarrow> nat \<times> 's"
  flt_observe :: "tool_call_context \<Rightarrow> call_outcome \<Rightarrow> duration \<Rightarrow> 's \<Rightarrow> 's"

record filter_metrics =
  evaluation_count :: u64
  total_latency_nanos :: u64

definition metrics_new :: filter_metrics where
  "metrics_new = \<lparr> evaluation_count = 0, total_latency_nanos = 0 \<rparr>"

definition metrics_record :: "duration \<Rightarrow> filter_metrics \<Rightarrow> filter_metrics" where
  "metrics_record lat m =
     m\<lparr>evaluation_count := evaluation_count m + 1,
       total_latency_nanos := total_latency_nanos m + word_of_nat lat\<rparr>"

definition avg_latency_ms :: "filter_metrics \<Rightarrow> f64" where
  "avg_latency_ms m =
     (if evaluation_count m = 0 then 0
      else of_nat (unat (total_latency_nanos m)) / of_nat (unat (evaluation_count m)) / 1000000)"

record 's filter_registry =
  reg_filters :: "'s security_filter list"
  reg_metrics :: "string \<rightharpoonup> filter_metrics"

definition filter_registry_new :: "'s filter_registry" where
  "filter_registry_new = \<lparr> reg_filters = [], reg_metrics = Map.empty \<rparr>"

definition register :: "'s security_filter \<Rightarrow> 's filter_registry \<Rightarrow> 's filter_registry" where
  "register f reg =
     reg\<lparr>reg_metrics :=
           (case reg_metrics reg (flt_name f) of
              None \<Rightarrow> (reg_metrics reg)(flt_name f \<mapsto> metrics_new)
            | Some _ \<Rightarrow> reg_metrics reg),
         reg_filters := reg_filters reg @ [f]\<rparr>"

definition filters_for_phase :: "filter_phase \<Rightarrow> 's filter_registry \<Rightarrow> 's \<Rightarrow> 's security_filter list" where
  "filters_for_phase ph reg st = filter (\<lambda>f. flt_phase f = ph \<and> flt_ready f st) (reg_filters reg)"

definition filter_count :: "'s filter_registry \<Rightarrow> nat" where
  "filter_count reg = length (reg_filters reg)"

fun evict_filters :: "session_scope_key \<Rightarrow> 's security_filter list \<Rightarrow> 's \<Rightarrow> nat \<times> 's" where
  "evict_filters sc [] st = (0, st)"
| "evict_filters sc (f # fs) st =
     (let (n, st1) = flt_evict f sc st; (m, st2) = evict_filters sc fs st1 in (n + m, st2))"

definition registry_evict_session_state ::
    "session_scope_key \<Rightarrow> 's filter_registry \<Rightarrow> 's \<Rightarrow> nat \<times> 's" where
  "registry_evict_session_state sc reg st = evict_filters sc (reg_filters reg) st"

definition registry_observe_outcome ::
    "tool_call_context \<Rightarrow> call_outcome \<Rightarrow> duration \<Rightarrow> 's filter_registry \<Rightarrow> 's \<Rightarrow> 's" where
  "registry_observe_outcome ctx oc age reg st =
     fold (\<lambda>f. flt_observe f ctx oc age) (reg_filters reg) st"

text \<open>
  \<open>SecurityProxy::run_phase\<close>: the ready filters of the phase are fixed first, then evaluated in
  registration order (\<open>join_all\<close> polls its futures in order and keeps the order of the results).
  A filter that fails contributes a non-match.
\<close>

definition record_metrics ::
    "string \<Rightarrow> duration \<Rightarrow> (string \<rightharpoonup> filter_metrics) \<Rightarrow> (string \<rightharpoonup> filter_metrics)" where
  "record_metrics name lat ms =
     (case ms name of None \<Rightarrow> ms | Some m \<Rightarrow> ms(name \<mapsto> metrics_record lat m))"

fun run_filters ::
    "(string \<Rightarrow> duration) \<Rightarrow> tool_call_context \<Rightarrow> 's security_filter list \<Rightarrow>
     (string \<rightharpoonup> filter_metrics) \<Rightarrow> 's \<Rightarrow> filter_result list \<times> (string \<rightharpoonup> filter_metrics) \<times> 's" where
  "run_filters lat ctx [] ms st = ([], ms, st)"
| "run_filters lat ctx (f # fs) ms st =
     (let (outcome, st1) = flt_evaluate f ctx st;
          r = (case outcome of Inr r \<Rightarrow> r | Inl _ \<Rightarrow> no_match (flt_name f));
          ms1 = record_metrics (flt_name f) (lat (flt_name f)) ms;
          (rs, ms2, st2) = run_filters lat ctx fs ms1 st1
      in (r # rs, ms2, st2))"

definition run_phase ::
    "(string \<Rightarrow> duration) \<Rightarrow> filter_phase \<Rightarrow> tool_call_context \<Rightarrow> 's filter_registry \<Rightarrow> 's \<Rightarrow>
     filter_result list \<times> 's filter_registry \<times> 's" where
  "run_phase lat ph ctx reg st =
     (let (rs, ms, st') = run_filters lat ctx (filters_for_phase ph reg st) (reg_metrics reg) st
      in (rs, reg\<lparr>reg_metrics := ms\<rparr>, st'))"

subsection \<open>Running a phase\<close>

lemma run_phase_filters [simp]: "reg_filters (fst (snd (run_phase lat ph ctx reg st))) = reg_filters reg"
  by (simp add: run_phase_def split: prod.split)

text \<open>What every result of a run is: some filter's answer, or that filter's non-match.\<close>

lemma run_filters_results:
  "r \<in> set (fst (run_filters lat ctx fs ms st)) \<Longrightarrow>
   \<exists>f \<in> set fs. \<exists>st'. r = no_match (flt_name f) \<or> fst (flt_evaluate f ctx st') = Inr r"
proof (induction fs arbitrary: ms st)
  case Nil
  then show ?case by simp
next
  case (Cons f fs)
  obtain outcome st1 where e: "flt_evaluate f ctx st = (outcome, st1)" by fastforce
  let ?ms = "record_metrics (flt_name f) (lat (flt_name f)) ms"
  from Cons.prems e consider
      "r = (case outcome of Inr r \<Rightarrow> r | Inl _ \<Rightarrow> no_match (flt_name f))"
    | "r \<in> set (fst (run_filters lat ctx fs ?ms st1))"
    by (auto simp: Let_def split: prod.splits)
  then show ?case
  proof cases
    case 1
    with e show ?thesis by (cases outcome) (auto intro: exI [of _ st])
  next
    case 2
    then show ?thesis using Cons.IH by fastforce
  qed
qed

lemma run_phase_results:
  assumes "r \<in> set (fst (run_phase lat ph ctx reg st))"
  shows "\<exists>f \<in> set (reg_filters reg). flt_phase f = ph \<and>
           (\<exists>st'. r = no_match (flt_name f) \<or> fst (flt_evaluate f ctx st') = Inr r)"
proof -
  from assms have "r \<in> set (fst (run_filters lat ctx (filters_for_phase ph reg st) (reg_metrics reg) st))"
    by (simp add: run_phase_def split: prod.splits)
  then show ?thesis
    using run_filters_results by (fastforce simp: filters_for_phase_def)
qed

subsection \<open>The contract of a scoring filter\<close>

text \<open>
  What the pipeline relies on when it sums a filter's contribution: the result carries the filter's
  own name, and the score lies between 0 and the filter's ceiling. The lemmas below are what the
  engine and the documents derive from it.
\<close>

locale scoring_filter =
  fixes name :: string
    and eval :: "tool_call_context \<Rightarrow> 's \<Rightarrow> filter_result \<times> 's"
    and ceiling :: f64
  assumes result_name: "filter_name (fst (eval ctx st)) = name"
    and score_nonneg: "0 \<le> fr_score (fst (eval ctx st))"
    and score_ceiling: "fr_score (fst (eval ctx st)) \<le> ceiling"
begin

lemma ceiling_nonneg: "0 \<le> ceiling"
proof -
  obtain ctx st where "0 \<le> fr_score (fst (eval ctx st)) \<and> fr_score (fst (eval ctx st)) \<le> ceiling"
    using score_nonneg score_ceiling by blast
  then show ?thesis by linarith
qed

lemma contribution_bounds: "0 \<le> aggregate [fst (eval ctx st)] \<and> aggregate [fst (eval ctx st)] \<le> ceiling"
  using score_nonneg [of ctx st] score_ceiling [of ctx st] ceiling_nonneg by (simp add: aggregate_Cons)

lemma cannot_deny_alone:
  "ceiling \<le> deny_t \<Longrightarrow> \<not> is_denied (route_decision (aggregate [fst (eval ctx st)]) rs allow_t deny_t t)"
  using contribution_bounds [of ctx st] by simp

lemma cannot_escalate_alone:
  "ceiling \<le> allow_t \<Longrightarrow> ceiling \<le> deny_t \<Longrightarrow>
   is_allowed (route_decision (aggregate [fst (eval ctx st)]) rs allow_t deny_t t)"
  using contribution_bounds [of ctx st] by simp

end

end
