(* ===== verification/Meta_Rules.thy ===== *)
theory Meta_Rules
  imports Scoring
begin

section \<open>Composite meta-rules\<close>

text \<open>
  \<open>crates/grith-proxy/src/meta_rules.rs\<close>, with \<open>canonical_filter_name\<close> of \<open>filters/mod.rs\<close>,
  which the conditions go through.
\<close>

definition legacy_filter_names :: "(string \<times> string) list" where
  "legacy_filter_names =
     [(''operation_risk'', ''operation-risk''), (''path_match'', ''path-match''),
      (''sensitive_path_heuristic'', ''sensitive-path-heuristic''),
      (''secret_scan'', ''secret-scan''), (''egress_policy'', ''egress-policy''),
      (''dlp_gate'', ''dlp-gate''), (''session_containment'', ''session-containment''),
      (''rate_limit'', ''rate-limit''), (''egress_rate'', ''egress-rate'')]"

definition canonical_filter_name :: "string \<Rightarrow> string" where
  "canonical_filter_name name =
     (case map_of legacy_filter_names name of Some n \<Rightarrow> n | None \<Rightarrow> name)"

record meta_condition =
  cond_filter :: "string option"
  cond_rule_id :: "string option"
  cond_matched :: "bool option"
  cond_call_type :: "string option"
  path_contains :: "string option"
  taint_source :: "string option"
  metadata_flag :: "string option"

record meta_rule =
  mr_id :: string
  conditions :: "meta_condition list"
  score_override :: "f64 option"
  score_adjustment :: "f64 option"
  mr_message :: string

fun call_type_name :: "tool_call_type \<Rightarrow> string" where
  "call_type_name (FileRead _) = ''FileRead''"
| "call_type_name (FileWrite _ _) = ''FileWrite''"
| "call_type_name (FileAppend _) = ''FileAppend''"
| "call_type_name (FileDelete _) = ''FileDelete''"
| "call_type_name (DirList _) = ''DirList''"
| "call_type_name (ShellExec _ _) = ''ShellExec''"
| "call_type_name (HttpRequest _ _) = ''HttpRequest''"
| "call_type_name (FileRename _ _) = ''FileRename''"
| "call_type_name (FileLink _ _ _) = ''FileLink''"
| "call_type_name (FileChmod _ _) = ''FileChmod''"
| "call_type_name (DirCreate _) = ''DirCreate''"
| "call_type_name (NetConnect _ _) = ''NetConnect''"
| "call_type_name (NetListen _ _) = ''NetListen''"
| "call_type_name (ProcessSpawn _ _) = ''ProcessSpawn''"
| "call_type_name (DnsQuery _ _) = ''DnsQuery''"
| "call_type_name (OwnershipChange _ _ _) = ''OwnershipChange''"
| "call_type_name (FilesystemMutation _ _ _ _) = ''FilesystemMutation''"
| "call_type_name (CrossProcessAccess _ _) = ''CrossProcessAccess''"
| "call_type_name (NamespaceOp _ _) = ''NamespaceOp''"
| "call_type_name (DbusMethodCall _ _ _ _) = ''DbusMethodCall''"

definition is_none_or :: "('a \<Rightarrow> bool) \<Rightarrow> 'a option \<Rightarrow> bool" where
  "is_none_or P x = (case x of None \<Rightarrow> True | Some v \<Rightarrow> P v)"

definition filter_condition_holds :: "meta_condition \<Rightarrow> filter_result list \<Rightarrow> bool" where
  "filter_condition_holds c rs =
     is_none_or (\<lambda>fname.
       list_ex (\<lambda>r. filter_name r = canonical_filter_name fname \<and>
                    is_none_or (\<lambda>rid. rule_id r = rid) (cond_rule_id c) \<and>
                    is_none_or (\<lambda>m. fr_matched r = m) (cond_matched c)) rs)
       (cond_filter c)"

definition result_has_taint_source :: "string \<Rightarrow> filter_result \<Rightarrow> bool" where
  "result_has_taint_source expected r \<longleftrightarrow>
     (case Option.bind (metadata r ''active_taint_sources'') as_array of
        Some arr \<Rightarrow> list_ex (\<lambda>v. as_str v = Some expected) arr
      | None \<Rightarrow> False) \<or>
     Option.bind (metadata r ''taint_source_category'') as_str = Some expected"

definition taint_condition_holds :: "meta_condition \<Rightarrow> filter_result list \<Rightarrow> bool" where
  "taint_condition_holds c rs =
     is_none_or (\<lambda>expected.
       list_ex (result_has_taint_source expected) (filter (\<lambda>r. filter_name r = ''taint'') rs))
       (taint_source c)"

definition flag_condition_holds :: "meta_condition \<Rightarrow> filter_result list \<Rightarrow> bool" where
  "flag_condition_holds c rs =
     is_none_or (\<lambda>flag. list_ex (\<lambda>r. Option.bind (metadata r flag) as_bool = Some True) rs)
       (metadata_flag c)"

definition matches_condition ::
    "meta_condition \<Rightarrow> filter_result list \<Rightarrow> tool_call_context \<Rightarrow> bool" where
  "matches_condition c rs ctx =
     (if \<not> filter_condition_holds c rs then False
      else if \<not> is_none_or (\<lambda>expected. call_type_name (call_type ctx) = expected) (cond_call_type c)
      then False
      else if \<not> is_none_or (\<lambda>sub. case ctx_path ctx of Some p \<Rightarrow> str_contains p sub | None \<Rightarrow> False)
                  (path_contains c)
      then False
      else if \<not> taint_condition_holds c rs then False
      else flag_condition_holds c rs)"

definition matches_all_conditions ::
    "meta_rule \<Rightarrow> filter_result list \<Rightarrow> tool_call_context \<Rightarrow> bool" where
  "matches_all_conditions rule rs ctx = list_all (\<lambda>c. matches_condition c rs ctx) (conditions rule)"

text \<open>The loop over the rules, with its early return on an override.\<close>

fun meta_loop ::
    "f64 \<Rightarrow> meta_rule list \<Rightarrow> filter_result list \<Rightarrow> tool_call_context \<Rightarrow> f64" where
  "meta_loop adj [] rs ctx = adj"
| "meta_loop adj (rule # rules) rs ctx =
     (if matches_all_conditions rule rs ctx
      then case score_override rule of
             Some ov \<Rightarrow> ov - aggregate rs
           | None \<Rightarrow>
               (case score_adjustment rule of
                  Some a \<Rightarrow> meta_loop (adj + a) rules rs ctx
                | None \<Rightarrow> meta_loop adj rules rs ctx)
      else meta_loop adj rules rs ctx)"

definition meta_evaluate :: "meta_rule list \<Rightarrow> filter_result list \<Rightarrow> tool_call_context \<Rightarrow> f64" where
  "meta_evaluate rules rs ctx = meta_loop 0 rules rs ctx"

subsection \<open>Properties\<close>

definition fires_override :: "filter_result list \<Rightarrow> tool_call_context \<Rightarrow> meta_rule \<Rightarrow> bool" where
  "fires_override rs ctx rule \<longleftrightarrow>
     matches_all_conditions rule rs ctx \<and> score_override rule \<noteq> None"

definition adjustment_of :: "filter_result list \<Rightarrow> tool_call_context \<Rightarrow> meta_rule \<Rightarrow> f64" where
  "adjustment_of rs ctx rule =
     (if matches_all_conditions rule rs ctx
      then (case score_adjustment rule of Some a \<Rightarrow> a | None \<Rightarrow> 0) else 0)"

lemma meta_loop_no_override:
  "(\<And>rule. rule \<in> set rules \<Longrightarrow> \<not> fires_override rs ctx rule) \<Longrightarrow>
   meta_loop adj rules rs ctx = adj + (\<Sum>rule\<leftarrow>rules. adjustment_of rs ctx rule)"
  by (induction rules arbitrary: adj)
    (auto simp: fires_override_def adjustment_of_def split: option.split)

lemma meta_loop_override:
  "find (fires_override rs ctx) rules = Some rule \<Longrightarrow>
   meta_loop adj rules rs ctx = the (score_override rule) - aggregate rs"
  by (induction rules arbitrary: adj)
    (auto simp: fires_override_def split: if_splits option.splits)

text \<open>
  What the meta-rules do to the composite, completely: if a rule with an override fires, the
  composite becomes exactly the override of the first such rule, whatever the filters summed to and
  whatever other rules fire; otherwise every firing rule adds its adjustment.
\<close>

theorem meta_evaluate_composite:
  "aggregate rs + meta_evaluate rules rs ctx =
     (case find (fires_override rs ctx) rules of
        Some rule \<Rightarrow> the (score_override rule)
      | None \<Rightarrow> aggregate rs + (\<Sum>rule\<leftarrow>rules. adjustment_of rs ctx rule))"
proof (cases "find (fires_override rs ctx) rules")
  case None
  then have "\<And>rule. rule \<in> set rules \<Longrightarrow> \<not> fires_override rs ctx rule"
    by (simp add: find_None_iff)
  with None show ?thesis by (simp add: meta_evaluate_def meta_loop_no_override)
next
  case (Some rule)
  then show ?thesis by (simp add: meta_evaluate_def meta_loop_override)
qed

text \<open>
  A legacy snake-case filter name in a rule file selects the same results as the current
  kebab-case name: a rule written with either name fires on the same calls.
\<close>

theorem legacy_name_condition:
  assumes "(legacy, current) \<in> set legacy_filter_names"
  shows "matches_condition (c\<lparr>cond_filter := Some legacy\<rparr>) rs ctx =
         matches_condition (c\<lparr>cond_filter := Some current\<rparr>) rs ctx"
proof -
  have "list_all (\<lambda>(l, c). canonical_filter_name l = c \<and> canonical_filter_name c = c) legacy_filter_names"
    by code_simp
  with assms have "canonical_filter_name legacy = current \<and> canonical_filter_name current = current"
    by (auto simp: list_all_iff)
  then show ?thesis
    by (simp add: matches_condition_def filter_condition_holds_def taint_condition_holds_def
        flag_condition_holds_def is_none_or_def)
qed

theorem legacy_name_condition_witness:
  "matches_condition (\<lparr>cond_filter = Some ''path_match'', cond_rule_id = None, cond_matched = Some True,
      cond_call_type = None, path_contains = None, taint_source = None, metadata_flag = None\<rparr>)
      [matched ''path-match'' ''ssh-private-key'' 5 SevCritical ''key'']
      (context_new 1 0 ''supervisor:claude'' (FileRead ''/root/.ssh/id_rsa'') 2)"
  using legacy_name_condition [of "''path_match''" "''path-match''"
      "\<lparr>cond_filter = None, cond_rule_id = None, cond_matched = Some True, cond_call_type = None,
        path_contains = None, taint_source = None, metadata_flag = None\<rparr>"
      "[matched ''path-match'' ''ssh-private-key'' 5 SevCritical ''key'']"
      "context_new 1 0 ''supervisor:claude'' (FileRead ''/root/.ssh/id_rsa'') 2"]
  by (simp add: legacy_filter_names_def matches_condition_def filter_condition_holds_def
      is_none_or_def canonical_filter_name_def taint_condition_holds_def flag_condition_holds_def)

end
