(* ===== verification/Call_Types.thy ===== *)
theory Call_Types
  imports Proxy_Types
begin

section \<open>Grants, path resolution and rendering of tool calls\<close>

text \<open>
  The second half of \<open>types.rs\<close> (\<open>supports_session_grant\<close>, \<open>resolve_paths\<close>, \<open>Display\<close>, the DNS
  candidate array) and \<open>path_resolution.rs\<close>. \<open>Path::parent\<close>, \<open>Path::file_name\<close> and
  \<open>Path::join\<close> of the standard library are written out on strings; \<open>std::fs::canonicalize\<close> is
  the parameter \<open>canonicalize\<close> (\<open>None\<close> is its error), \<open>serde_json\<close> is the pair of parameters
  \<open>to_json\<close> and \<open>of_json\<close>.
\<close>

subsection \<open>Session grants\<close>

fun supports_session_grant :: "tool_call_type \<Rightarrow> bool" where
  "supports_session_grant (ShellExec _ _) = False"
| "supports_session_grant (HttpRequest _ _) = False"
| "supports_session_grant (DbusMethodCall _ _ _ _) = False"
| "supports_session_grant _ = True"

definition category_supports_session_grant :: "string \<Rightarrow> bool" where
  "category_supports_session_grant category \<longleftrightarrow>
     \<not> (category = ''ShellExec'' \<or> category = ''HttpRequest'' \<or> category = ''DbusMethodCall'')"

subsection \<open>Paths of the standard library\<close>

text \<open>The part of a path before its body: the root, or a leading current directory.\<close>

definition path_lead :: "string \<Rightarrow> string" where
  "path_lead p =
     (if prefix ''/'' p then ''/'' else if p = ''.'' \<or> prefix ''./'' p then ''.'' else [])"

definition path_body :: "string \<Rightarrow> string" where
  "path_body p = drop (length (path_lead p)) p"

text \<open>
  \<open>trim_right_rev\<close> works on the reversed body: it drops trailing separators and
  current-directory components.
\<close>

function trim_right_rev :: "string \<Rightarrow> string" where
  "trim_right_rev r =
     (if r = [] then []
      else let comp = takeWhile (\<lambda>c. c \<noteq> CHR ''/'') r; rest = dropWhile (\<lambda>c. c \<noteq> CHR ''/'') r
           in if comp = [] \<or> comp = ''.'' then trim_right_rev (drop 1 rest) else r)"
  by pat_completeness auto
termination
proof (relation "measure length", goal_cases)
  case 1
  then show ?case by simp
next
  case (2 r comp rest)
  have "length rest \<le> length r"
    using "2"(3) by (simp add: length_dropWhile_le)
  moreover have "rest = [] \<Longrightarrow> length (drop 1 rest) < length r"
    using "2"(1) by simp
  moreover have "rest \<noteq> [] \<Longrightarrow> length (drop 1 rest) < length rest"
    by (cases rest) simp_all
  ultimately show ?case by (cases rest) auto
qed

declare trim_right_rev.simps [simp del]

text \<open>\<open>(p.parent(), p.file_name())\<close> when both are \<open>Some\<close>, else \<open>None\<close>.\<close>

definition parent_and_name :: "string \<Rightarrow> (string \<times> string) option" where
  "parent_and_name p =
     (let r = trim_right_rev (rev (path_body p));
          name = rev (takeWhile (\<lambda>c. c \<noteq> CHR ''/'') r);
          rest = drop 1 (dropWhile (\<lambda>c. c \<noteq> CHR ''/'') r)
      in if r = [] \<or> name = ''..'' then None
         else Some (path_lead p @ rev (trim_right_rev rest), name))"

definition path_file_name :: "string \<Rightarrow> string option" where
  "path_file_name p = map_option snd (parent_and_name p)"

definition path_join :: "string \<Rightarrow> string \<Rightarrow> string" where
  "path_join dir name =
     (if dir = [] \<or> last dir = CHR ''/'' then dir @ name else dir @ ''/'' @ name)"

subsection \<open>\<open>path_resolution.rs\<close>\<close>

definition skip_resolution :: "string \<Rightarrow> bool" where
  "skip_resolution p \<longleftrightarrow> prefix ''/proc/'' p \<or> prefix ''/sys/'' p \<or> prefix ''/dev/'' p"

definition resolve_parent_only :: "(string \<Rightarrow> string option) \<Rightarrow> string \<Rightarrow> string" where
  "resolve_parent_only canonicalize p =
     (case parent_and_name p of
        Some (parent, name) \<Rightarrow>
          (case canonicalize parent of Some dir \<Rightarrow> path_join dir name | None \<Rightarrow> p)
      | None \<Rightarrow> p)"

definition resolve_follow :: "(string \<Rightarrow> string option) \<Rightarrow> string \<Rightarrow> string" where
  "resolve_follow canonicalize p =
     (if skip_resolution p then p
      else case canonicalize p of Some r \<Rightarrow> r | None \<Rightarrow> resolve_parent_only canonicalize p)"

definition resolve_nofollow :: "(string \<Rightarrow> string option) \<Rightarrow> string \<Rightarrow> string" where
  "resolve_nofollow canonicalize p =
     (if skip_resolution p then p else resolve_parent_only canonicalize p)"

fun resolve_paths :: "(string \<Rightarrow> string option) \<Rightarrow> tool_call_type \<Rightarrow> tool_call_type" where
  "resolve_paths cz (FileRead p) = FileRead (resolve_follow cz p)"
| "resolve_paths cz (FileWrite p h) = FileWrite (resolve_follow cz p) h"
| "resolve_paths cz (FileAppend p) = FileAppend (resolve_follow cz p)"
| "resolve_paths cz (DirList p) = DirList (resolve_follow cz p)"
| "resolve_paths cz (DirCreate p) = DirCreate (resolve_follow cz p)"
| "resolve_paths cz (FileChmod p m) = FileChmod (resolve_follow cz p) m"
| "resolve_paths cz (FileDelete p) = FileDelete (resolve_nofollow cz p)"
| "resolve_paths cz (FileRename old new) =
     FileRename (resolve_nofollow cz old) (resolve_nofollow cz new)"
| "resolve_paths cz (FileLink target link smb) =
     FileLink (resolve_follow cz target) (resolve_nofollow cz link) smb"
| "resolve_paths cz other = other"

subsection \<open>DNS candidate arrays\<close>

text \<open>
  \<open>serde_json::to_string\<close> of a string list cannot fail, so the fallback of
  \<open>format_dns_candidate_array\<close> is dead code and \<open>to_json\<close> is total.
\<close>

definition format_dns_candidate_array :: "(string list \<Rightarrow> string) \<Rightarrow> string list \<Rightarrow> string" where
  "format_dns_candidate_array to_json cs = to_json cs"

definition parse_dns_candidate_array ::
    "(string \<Rightarrow> string list option) \<Rightarrow> string \<Rightarrow> string list option" where
  "parse_dns_candidate_array of_json v =
     (if \<not> prefix ''['' v then None
      else case of_json v of
             None \<Rightarrow> None
           | Some cs \<Rightarrow> (if cs = [] then None else Some cs))"

subsection \<open>Rendering\<close>

fun display_call :: "tool_call_type \<Rightarrow> string" where
  "display_call (FileRead p) = ''FileRead('' @ p @ '')''"
| "display_call (FileWrite p _) = ''FileWrite('' @ p @ '')''"
| "display_call (FileAppend p) = ''FileAppend('' @ p @ '')''"
| "display_call (FileDelete p) = ''FileDelete('' @ p @ '')''"
| "display_call (DirList p) = ''DirList('' @ p @ '')''"
| "display_call (ShellExec c args) = ''ShellExec('' @ c @ '' '' @ join '' '' args @ '')''"
| "display_call (HttpRequest m url) = ''HttpRequest('' @ m @ '' '' @ url @ '')''"
| "display_call (FileRename old new) = ''FileRename('' @ old @ '' -> '' @ new @ '')''"
| "display_call (FileLink target link smb) =
     ''FileLink('' @ (if smb then ''symbolic'' else ''hard'') @ '' '' @ link @ '' -> '' @ target @ '')''"
| "display_call (FileChmod p mode) =
     ''FileChmod('' @ p @ '', '' @ digits_base 8 (unat mode) @ '')''"
| "display_call (DirCreate p) = ''DirCreate('' @ p @ '')''"
| "display_call (NetConnect a p) = ''NetConnect('' @ a @ '':'' @ digits_of_nat (unat p) @ '')''"
| "display_call (NetListen a p) = ''NetListen('' @ a @ '':'' @ digits_of_nat (unat p) @ '')''"
| "display_call (ProcessSpawn c args) = ''ProcessSpawn('' @ c @ '' '' @ join '' '' args @ '')''"
| "display_call (DnsQuery d q) = ''DnsQuery('' @ d @ '' '' @ q @ '')''"
| "display_call (OwnershipChange t u g) =
     ''OwnershipChange('' @ t @ '' uid='' @ string_of_int u @ '' gid='' @ string_of_int g @ '')''"
| "display_call (FilesystemMutation op src t fs) =
     ''FilesystemMutation('' @ op @ '' src='' @ (case src of None \<Rightarrow> [] | Some s \<Rightarrow> s)
       @ '' target='' @ t @ '' fstype='' @ (case fs of None \<Rightarrow> [] | Some s \<Rightarrow> s) @ '')''"
| "display_call (CrossProcessAccess op pid) =
     ''CrossProcessAccess('' @ op @ '' target_pid='' @ digits_of_nat (unat pid) @ '')''"
| "display_call (NamespaceOp sc fl) =
     ''NamespaceOp('' @ sc @ '' flags=0x'' @ digits_base 16 (unat fl) @ '')''"
| "display_call (DbusMethodCall sock d i m) =
     ''DbusMethodCall('' @ sock @ '' '' @ (case d of None \<Rightarrow> ''?'' | Some s \<Rightarrow> s) @ '' ''
       @ (case i of None \<Rightarrow> ''?'' | Some s \<Rightarrow> s) @ ''.''
       @ (case m of None \<Rightarrow> ''?'' | Some s \<Rightarrow> s) @ '')''"

fun display_severity :: "severity \<Rightarrow> string" where
  "display_severity Notice = ''notice''"
| "display_severity Warning = ''warning''"
| "display_severity SevError = ''error''"
| "display_severity SevCritical = ''critical''"

text \<open>The reviewer reads the category off the rendered call: the text before the parenthesis.\<close>

definition rendered_category :: "string \<Rightarrow> string" where
  "rendered_category s = takeWhile (\<lambda>c. c \<noteq> CHR ''('') s"

subsection \<open>Properties\<close>

lemma trim_right_rev_stop:
  assumes "name \<noteq> []" and "name \<noteq> ''.''" and "CHR ''/'' \<notin> set name"
  shows "trim_right_rev (rev name @ rest) = rev name @ rest \<or> (rest \<noteq> [] \<and> hd rest \<noteq> CHR ''/'')"
proof (cases "rest = [] \<or> hd rest = CHR ''/''")
  case True
  have tw: "takeWhile (\<lambda>c. c \<noteq> CHR ''/'') (rev name @ rest) = rev name"
    using assms(3) True by (cases rest) (auto simp: takeWhile_append)
  have "rev name \<noteq> ''.''" using assms(2) by (metis rev_rev_ident rev_singleton_conv)
  with tw assms(1) show ?thesis
    by (subst trim_right_rev.simps) (simp add: Let_def)
next
  case False
  then show ?thesis by simp
qed

lemma path_join_body:
  assumes "name \<noteq> []" and "name \<noteq> ''.''" and "CHR ''/'' \<notin> set name"
  shows "\<exists>rest. rev (path_body (path_join dir name)) = rev name @ rest \<and>
                (rest = [] \<or> hd rest = CHR ''/'')"
proof -
  have nl: "path_lead name = []"
    using assms by (auto simp: path_lead_def prefix_def)
  consider "dir = []" | "dir = ''/''" | d where "dir = d @ ''/''" "d \<noteq> []" | "dir \<noteq> []" "last dir \<noteq> CHR ''/''"
    by (metis append_Nil append_butlast_last_id)
  then show ?thesis
  proof cases
    case 1
    with nl show ?thesis by (simp add: path_join_def path_body_def)
  next
    case 2
    then show ?thesis by (simp add: path_join_def path_body_def path_lead_def)
  next
    case (3 d)
    then obtain k where "path_body (path_join dir name) = drop k (d @ ''/'' @ name)" "k \<le> length d"
      by (cases d) (auto simp: path_join_def path_body_def path_lead_def)
    then show ?thesis by simp
  next
    case 4
    then obtain k where "path_body (path_join dir name) = drop k (dir @ ''/'' @ name)" "k \<le> length dir"
      by (cases dir) (auto simp: path_join_def path_body_def path_lead_def)
    then show ?thesis by simp
  qed
qed

lemma parent_and_name_join:
  assumes "name \<noteq> []" and "name \<noteq> ''.''" and "name \<noteq> ''..''" and "CHR ''/'' \<notin> set name"
  shows "\<exists>par. parent_and_name (path_join dir name) = Some (par, name)"
proof -
  obtain rest where r: "rev (path_body (path_join dir name)) = rev name @ rest"
    and rest: "rest = [] \<or> hd rest = CHR ''/''"
    using path_join_body [OF assms(1,2,4)] by blast
  have t: "trim_right_rev (rev name @ rest) = rev name @ rest"
    using trim_right_rev_stop [OF assms(1,2,4), of rest] rest by auto
  have "takeWhile (\<lambda>c. c \<noteq> CHR ''/'') (rev name @ rest) = rev name"
    using assms(4) rest by (cases rest) (auto simp: takeWhile_append)
  with r t assms show ?thesis
    by (simp add: parent_and_name_def Let_def)
qed

lemma parent_and_name_valid:
  assumes "parent_and_name p = Some (par, name)"
  shows "name \<noteq> []" "name \<noteq> ''.''" "name \<noteq> ''..''" "CHR ''/'' \<notin> set name"
proof -
  let ?r = "trim_right_rev (rev (path_body p))"
  let ?c = "takeWhile (\<lambda>c. c \<noteq> CHR ''/'') ?r"
  from assms have ne: "?r \<noteq> []" and name: "name = rev ?c" and "name \<noteq> ''..''"
    by (auto simp: parent_and_name_def Let_def split: if_splits)
  then show "name \<noteq> ''..''" by simp
  have "trim_right_rev r \<noteq> [] \<Longrightarrow>
      takeWhile (\<lambda>c. c \<noteq> CHR ''/'') (trim_right_rev r) \<notin> {[], ''.''}" for r
  proof (induction r rule: trim_right_rev.induct)
    case (1 r)
    let ?comp = "takeWhile (\<lambda>c. c \<noteq> CHR ''/'') r"
    show ?case
    proof (cases "r = [] \<or> \<not> (?comp = [] \<or> ?comp = ''.'')")
      case True
      with "1.prems" show ?thesis
        by (auto simp: trim_right_rev.simps [of r] Let_def split: if_splits)
    next
      case False
      with "1.prems" "1.IH" [OF _ refl refl] show ?thesis
        by (simp add: trim_right_rev.simps [of r] Let_def)
    qed
  qed
  with ne have "?c \<notin> {[], ''.''}" by blast
  then show "name \<noteq> []" "name \<noteq> ''.''" using name by auto
  show "CHR ''/'' \<notin> set name" using name by (auto dest: set_takeWhileD)
qed

text \<open>
  The answer the prompt computes from the rendered category of a call is the answer for the
  call itself, for every call: the two independent tables cannot drift.
\<close>

theorem category_agrees_with_call:
  "category_supports_session_grant (rendered_category (display_call ct)) = supports_session_grant ct"
  by (cases ct) (simp_all add: rendered_category_def category_supports_session_grant_def)

text \<open>
  Resolution for operations that act on a link itself never replaces the final component:
  whatever the file system answers, the resolved path has the file name of the requested one, so a
  delete or rename of a link is never reported as one of the link's target.
\<close>

theorem nofollow_keeps_name:
  assumes "parent_and_name p = Some (par, name)"
  shows "\<exists>par'. parent_and_name (resolve_nofollow cz p) = Some (par', name)"
proof (cases "skip_resolution p \<or> cz par = None")
  case True
  with assms show ?thesis
    by (auto simp: resolve_nofollow_def resolve_parent_only_def)
next
  case False
  then obtain dir where "resolve_nofollow cz p = path_join dir name"
    using assms by (auto simp: resolve_nofollow_def resolve_parent_only_def)
  then show ?thesis
    using parent_and_name_join parent_and_name_valid [OF assms] by metis
qed

theorem nofollow_keeps_name_witness:
  "\<exists>par'. parent_and_name (resolve_nofollow (\<lambda>d. Some (''/home'' @ d)) ''/tmp/./x/'') = Some (par', ''x'')"
proof -
  have "parent_and_name ''/tmp/./x/'' = Some (''/tmp'', ''x'')" by code_simp
  then show ?thesis by (rule nofollow_keeps_name)
qed

text \<open>
  Every path policy must see is offered: the primary path is among the paths of a call, and a
  link creation offers both the target it exposes and the name it plants.
\<close>

theorem paths_complete:
  "set (ctx_paths ctx) =
     (case call_type ctx of FileLink target link _ \<Rightarrow> {target, link} | ct \<Rightarrow> set_option (call_path ct))"
  by (auto simp: ctx_paths_def ctx_path_def split: tool_call_type.split option.split)

end
