(* ===== verification/Session_State.thy ===== *)
theory Session_State
  imports Proxy_Types
begin

section \<open>Per-session proxy state\<close>

text \<open>
  \<open>crates/grith-proxy/src/session_state.rs\<close>. The registry hands out \<open>Arc<SessionState>\<close>, and a
  holder of such a reference can change the state after the registry has forgotten it. The model
  keeps that aliasing: a reference is an address into a store of states, the registry maps scopes
  to addresses, and every operation on a state goes through its address. The clock reading of
  \<open>Instant::now\<close> is an argument. Mutexes are never held across two operations here, so an
  operation is one step.
\<close>

datatype containment_reason =
    SensitiveAccessOutsideScope string string
  | Manual string

record session_pinned_inventory =
  inv_entries :: "(string \<times> string) list"
  total_scanned :: nat
  truncated :: bool

text \<open>\<open>collect\<close> into a \<open>HashMap\<close>: a later pair replaces an earlier one with the same key.\<close>

definition from_entries :: "(string \<times> string) list \<Rightarrow> session_pinned_inventory" where
  "from_entries es =
     (let m = fold (\<lambda>(p, h) acc. assoc_insert p h acc) es []
      in \<lparr> inv_entries = m, total_scanned = length m, truncated = False \<rparr>)"

definition inv_len :: "session_pinned_inventory \<Rightarrow> nat" where
  "inv_len i = length (inv_entries i)"

definition inv_is_empty :: "session_pinned_inventory \<Rightarrow> bool" where
  "inv_is_empty i \<longleftrightarrow> inv_entries i = []"

definition expected_hash :: "session_pinned_inventory \<Rightarrow> string \<Rightarrow> string option" where
  "expected_hash i p = map_of (inv_entries i) p"

definition inv_contains :: "session_pinned_inventory \<Rightarrow> string \<Rightarrow> string \<Rightarrow> bool" where
  "inv_contains i p h =
     (case map_of (inv_entries i) p of
        Some expected \<Rightarrow> eq_ignore_ascii_case expected h
      | None \<Rightarrow> False)"

record session_state =
  ss_scope :: session_scope_key
  containment_active :: bool
  containment_reason_slot :: "containment_reason option"
  last_seen :: instant
  pinned_inventory :: "session_pinned_inventory option"

definition state_new :: "session_scope_key \<Rightarrow> instant \<Rightarrow> session_state" where
  "state_new sc now =
     \<lparr> ss_scope = sc, containment_active = False, containment_reason_slot = None,
       last_seen = now, pinned_inventory = None \<rparr>"

definition set_pinned_inventory :: "session_pinned_inventory \<Rightarrow> session_state \<Rightarrow> session_state" where
  "set_pinned_inventory i s =
     (case pinned_inventory s of None \<Rightarrow> s\<lparr>pinned_inventory := Some i\<rparr> | Some _ \<Rightarrow> s)"

definition activate_containment :: "containment_reason \<Rightarrow> session_state \<Rightarrow> session_state" where
  "activate_containment r s =
     (if containment_active s then s
      else s\<lparr>containment_active := True, containment_reason_slot := Some r\<rparr>)"

definition touch :: "instant \<Rightarrow> session_state \<Rightarrow> session_state" where
  "touch now s = s\<lparr>last_seen := now\<rparr>"

subsection \<open>The registry\<close>

type_synonym arc = nat

record registry =
  sessions :: "(session_scope_key \<times> arc) list"
  state_store :: "arc \<rightharpoonup> session_state"
  next_arc :: arc

definition registry_fresh :: registry where
  "registry_fresh = \<lparr> sessions = [], state_store = Map.empty, next_arc = 0 \<rparr>"

definition update_at :: "arc \<Rightarrow> (session_state \<Rightarrow> session_state) \<Rightarrow> registry \<Rightarrow> registry" where
  "update_at a f reg =
     (case state_store reg a of
        None \<Rightarrow> reg
      | Some s \<Rightarrow> reg\<lparr>state_store := (state_store reg)(a \<mapsto> f s)\<rparr>)"

definition get_or_create :: "session_scope_key \<Rightarrow> instant \<Rightarrow> registry \<Rightarrow> arc \<times> registry" where
  "get_or_create sc now reg =
     (case map_of (sessions reg) sc of
        Some a \<Rightarrow> (a, update_at a (touch now) reg)
      | None \<Rightarrow>
          (let a = next_arc reg
           in (a, \<lparr> sessions = assoc_insert sc a (sessions reg),
                    state_store = (state_store reg)(a \<mapsto> touch now (state_new sc now)),
                    next_arc = Suc a \<rparr>)))"

definition registry_get :: "session_scope_key \<Rightarrow> registry \<Rightarrow> arc option" where
  "registry_get sc reg = map_of (sessions reg) sc"

definition state_of :: "session_scope_key \<Rightarrow> registry \<Rightarrow> session_state option" where
  "state_of sc reg = Option.bind (registry_get sc reg) (state_store reg)"

definition is_containment_active :: "session_scope_key \<Rightarrow> registry \<Rightarrow> bool" where
  "is_containment_active sc reg =
     (case state_of sc reg of Some s \<Rightarrow> containment_active s | None \<Rightarrow> False)"

definition registry_activate ::
    "session_scope_key \<Rightarrow> containment_reason \<Rightarrow> instant \<Rightarrow> registry \<Rightarrow> registry" where
  "registry_activate sc r now reg =
     (let (a, reg') = get_or_create sc now reg in update_at a (activate_containment r) reg')"

definition evict :: "session_scope_key \<Rightarrow> registry \<Rightarrow> bool \<times> registry" where
  "evict sc reg =
     (map_of (sessions reg) sc \<noteq> None, reg\<lparr>sessions := assoc_remove sc (sessions reg)\<rparr>)"

definition registry_len :: "registry \<Rightarrow> nat" where
  "registry_len reg = length (sessions reg)"

definition snapshot_stale :: "instant \<Rightarrow> registry \<Rightarrow> (session_scope_key \<times> instant) list" where
  "snapshot_stale cutoff reg =
     List.map_filter
       (\<lambda>(sc, a). case state_store reg a of
                    Some s \<Rightarrow> (if last_seen s < cutoff then Some (sc, last_seen s) else None)
                  | None \<Rightarrow> None)
       (sessions reg)"

lemma registry_activate_eq:
  "registry_activate sc r now reg =
     update_at (fst (get_or_create sc now reg)) (activate_containment r) (snd (get_or_create sc now reg))"
  by (simp add: registry_activate_def case_prod_beta)

subsection \<open>Well-formed registries\<close>

definition registry_wf :: "registry \<Rightarrow> bool" where
  "registry_wf reg \<longleftrightarrow>
     distinct (map fst (sessions reg)) \<and>
     dom (state_store reg) = {..<next_arc reg} \<and>
     (\<forall>sc a. map_of (sessions reg) sc = Some a \<longrightarrow>
        (\<exists>s. state_store reg a = Some s \<and> ss_scope s = sc)) \<and>
     (\<forall>a s. state_store reg a = Some s \<longrightarrow>
        (containment_active s \<longleftrightarrow> containment_reason_slot s \<noteq> None))"

definition keeps_scope :: "(session_state \<Rightarrow> session_state) \<Rightarrow> bool" where
  "keeps_scope f \<longleftrightarrow>
     (\<forall>s. ss_scope (f s) = ss_scope s \<and>
          ((containment_active s \<longleftrightarrow> containment_reason_slot s \<noteq> None) \<longrightarrow>
           (containment_active (f s) \<longleftrightarrow> containment_reason_slot (f s) \<noteq> None)))"

lemma keeps_scope_ops [simp]:
  "keeps_scope (touch now)" "keeps_scope (activate_containment r)"
  "keeps_scope (set_pinned_inventory i)"
  by (auto simp: keeps_scope_def touch_def activate_containment_def set_pinned_inventory_def
      split: option.splits)

lemma registry_wf_fresh [inv_intros]: "registry_wf registry_fresh"
  by (simp add: registry_wf_def registry_fresh_def)

lemma registry_wf_update_at [inv_intros]:
  assumes "registry_wf reg" and "keeps_scope f"
  shows "registry_wf (update_at a f reg)"
proof (cases "state_store reg a")
  case None
  with assms show ?thesis by (simp add: update_at_def)
next
  case (Some s)
  then have "a < next_arc reg" using assms(1) by (auto simp: registry_wf_def)
  then have "insert a {..<next_arc reg} = {..<next_arc reg}" by auto
  with assms Some show ?thesis
    by (auto simp: update_at_def registry_wf_def keeps_scope_def) (metis option.inject)
qed

lemma fresh_arc_unused: "registry_wf reg \<Longrightarrow> (sc, next_arc reg) \<notin> set (sessions reg)"
proof
  assume wf: "registry_wf reg" and "(sc, next_arc reg) \<in> set (sessions reg)"
  then have "map_of (sessions reg) sc = Some (next_arc reg)" by (simp add: registry_wf_def)
  with wf obtain s where "state_store reg (next_arc reg) = Some s" unfolding registry_wf_def by blast
  with wf show False by (auto simp: registry_wf_def)
qed

lemma registry_wf_get_or_create [inv_intros]:
  assumes wf: "registry_wf reg"
  shows "registry_wf (snd (get_or_create sc now reg))"
proof (cases "map_of (sessions reg) sc")
  case (Some a)
  with wf show ?thesis by (simp add: get_or_create_def registry_wf_update_at)
next
  case None
  have "\<And>sc' a. map_of (sessions reg) sc' = Some a \<Longrightarrow> a \<noteq> next_arc reg"
    using fresh_arc_unused [OF wf] by (metis map_of_SomeD)
  moreover have "dom (state_store reg) = {..<next_arc reg}" using wf by (simp add: registry_wf_def)
  ultimately show ?thesis
    using wf None
    by (auto simp: get_or_create_def registry_wf_def Let_def touch_def state_new_def lessThan_Suc)
qed

lemma registry_wf_activate [inv_intros]:
  "registry_wf reg \<Longrightarrow> registry_wf (registry_activate sc r now reg)"
  using registry_wf_get_or_create [of reg sc now]
  by (simp add: registry_activate_eq registry_wf_update_at)

lemma registry_wf_evict [inv_intros]: "registry_wf reg \<Longrightarrow> registry_wf (snd (evict sc reg))"
  by (auto simp: evict_def registry_wf_def)

subsection \<open>Runs of the registry\<close>

text \<open>
  What the daemon's threads do to the registry, one operation at a time. An operation on a state
  goes through a reference, which may be one the registry no longer maps to.
\<close>

datatype registry_op =
    OpGetOrCreate session_scope_key instant
  | OpActivateScope session_scope_key containment_reason instant
  | OpActivateArc arc containment_reason
  | OpSetInventoryArc arc session_pinned_inventory
  | OpEvict session_scope_key

fun registry_step :: "registry \<Rightarrow> registry_op \<Rightarrow> registry" where
  "registry_step reg (OpGetOrCreate sc now) = snd (get_or_create sc now reg)"
| "registry_step reg (OpActivateScope sc r now) = registry_activate sc r now reg"
| "registry_step reg (OpActivateArc a r) = update_at a (activate_containment r) reg"
| "registry_step reg (OpSetInventoryArc a i) = update_at a (set_pinned_inventory i) reg"
| "registry_step reg (OpEvict sc) = snd (evict sc reg)"

definition registry_run :: "registry \<Rightarrow> registry_op list \<Rightarrow> registry" where
  "registry_run = foldl registry_step"

lemma registry_run_simps [simp]:
  "registry_run reg [] = reg"
  "registry_run reg (op # ops) = registry_run (registry_step reg op) ops"
  by (simp_all add: registry_run_def)

lemma registry_wf_step [inv_intros]: "registry_wf reg \<Longrightarrow> registry_wf (registry_step reg op)"
  by (cases op) (auto intro: inv_intros)

lemma registry_wf_run [inv_intros]: "registry_wf reg \<Longrightarrow> registry_wf (registry_run reg ops)"
  by (induction ops arbitrary: reg) (auto intro: inv_intros)

text \<open>The operations no step may undo: a contained state keeps its first reason and its inventory.\<close>

definition state_extends :: "session_state \<Rightarrow> session_state \<Rightarrow> bool" where
  "state_extends s t \<longleftrightarrow>
     ss_scope t = ss_scope s \<and>
     (containment_active s \<longrightarrow>
        containment_active t \<and> containment_reason_slot t = containment_reason_slot s) \<and>
     (pinned_inventory s \<noteq> None \<longrightarrow> pinned_inventory t = pinned_inventory s)"

lemma state_extends_refl [simp]: "state_extends s s"
  by (simp add: state_extends_def)

lemma state_extends_trans: "state_extends s t \<Longrightarrow> state_extends t u \<Longrightarrow> state_extends s u"
  by (auto simp: state_extends_def)

lemma state_extends_ops [simp]:
  "state_extends s (touch now s)" "state_extends s (activate_containment r s)"
  "state_extends s (set_pinned_inventory i s)"
  by (auto simp: state_extends_def touch_def activate_containment_def set_pinned_inventory_def
      split: option.splits)

lemma update_at_extends:
  assumes "\<And>s. state_extends s (f s)" and "state_store reg a = Some s"
  shows "\<exists>t. state_store (update_at b f reg) a = Some t \<and> state_extends s t"
  using assms by (auto simp: update_at_def split: option.splits)

lemma update_at_sessions [simp]: "sessions (update_at a f reg) = sessions reg"
  by (simp add: update_at_def split: option.split)

lemma update_at_next_arc [simp]: "next_arc (update_at a f reg) = next_arc reg"
  by (simp add: update_at_def split: option.split)

lemma get_or_create_extends:
  assumes "registry_wf reg" and "state_store reg a = Some s"
  shows "\<exists>t. state_store (snd (get_or_create sc now reg)) a = Some t \<and> state_extends s t"
proof (cases "map_of (sessions reg) sc")
  case None
  have "a \<noteq> next_arc reg" using assms by (auto simp: registry_wf_def)
  with None assms show ?thesis by (simp add: get_or_create_def Let_def)
next
  case (Some b)
  then show ?thesis
    using update_at_extends [OF state_extends_ops(1) assms(2)] by (simp add: get_or_create_def)
qed

lemma get_or_create_maps:
  "map_of (sessions (snd (get_or_create sc now reg))) sc' =
     (if sc' = sc then Some (fst (get_or_create sc now reg)) else map_of (sessions reg) sc')"
  by (auto simp: get_or_create_def Let_def split: option.split)

lemma get_or_create_existing:
  "map_of (sessions reg) sc = Some a \<Longrightarrow> fst (get_or_create sc now reg) = a"
  by (simp add: get_or_create_def)

lemma registry_step_extends:
  assumes "registry_wf reg" and "state_store reg a = Some s"
  shows "\<exists>t. state_store (registry_step reg op) a = Some t \<and> state_extends s t"
proof (cases op)
  case (OpActivateScope sc r now)
  obtain t where t: "state_store (snd (get_or_create sc now reg)) a = Some t" "state_extends s t"
    using get_or_create_extends [OF assms] by blast
  obtain u where "state_store (registry_activate sc r now reg) a = Some u" "state_extends t u"
    using update_at_extends [of "activate_containment r", OF _ t(1)]
    by (auto simp: registry_activate_eq)
  with t(2) OpActivateScope show ?thesis using state_extends_trans by auto
qed (use assms in \<open>auto intro: get_or_create_extends update_at_extends simp: evict_def\<close>)

lemma registry_step_keeps_mapping:
  assumes "map_of (sessions reg) sc = Some a" and "op \<noteq> OpEvict sc"
  shows "map_of (sessions (registry_step reg op)) sc = Some a"
proof (cases op)
  case (OpGetOrCreate sc' now)
  with assms show ?thesis by (auto simp: get_or_create_maps get_or_create_existing)
next
  case (OpActivateScope sc' r now)
  have "sessions (registry_activate sc' r now reg) = sessions (snd (get_or_create sc' now reg))"
    by (simp add: registry_activate_eq)
  with assms OpActivateScope show ?thesis by (auto simp: get_or_create_maps get_or_create_existing)
qed (use assms in \<open>auto simp: evict_def\<close>)

lemma registry_run_extends:
  assumes "registry_wf reg" and "map_of (sessions reg) sc = Some a"
    and "state_store reg a = Some s" and "OpEvict sc \<notin> set ops"
  shows "\<exists>t. map_of (sessions (registry_run reg ops)) sc = Some a \<and>
             state_store (registry_run reg ops) a = Some t \<and> state_extends s t"
  using assms
proof (induction ops arbitrary: reg s)
  case Nil
  then show ?case by simp
next
  case (Cons op ops)
  obtain t where t: "state_store (registry_step reg op) a = Some t" "state_extends s t"
    using registry_step_extends [OF Cons.prems(1,3)] by blast
  have "map_of (sessions (registry_step reg op)) sc = Some a"
    using Cons.prems(2,4) by (intro registry_step_keeps_mapping) auto
  then obtain u where u: "map_of (sessions (registry_run (registry_step reg op) ops)) sc = Some a"
      "state_store (registry_run (registry_step reg op) ops) a = Some u" "state_extends t u"
    using Cons.IH [OF registry_wf_step [OF Cons.prems(1)] _ t(1)] Cons.prems(4) by auto
  with t(2) show ?case using state_extends_trans by auto
qed

text \<open>
  C31. Containment is sticky for the session's lifetime: once a scope is contained, no sequence of
  operations by any thread, through the registry or through references handed out earlier, lifts it
  or replaces the recorded first reason, short of evicting that very scope.
\<close>

theorem containment_sticky:
  assumes "registry_wf reg" and "is_containment_active sc reg" and "OpEvict sc \<notin> set ops"
  shows "is_containment_active sc (registry_run reg ops) \<and>
         map_option containment_reason_slot (state_of sc (registry_run reg ops)) =
         map_option containment_reason_slot (state_of sc reg)"
proof -
  obtain a s where as: "map_of (sessions reg) sc = Some a" "state_store reg a = Some s"
      "containment_active s"
    using assms(2)
    by (auto simp: is_containment_active_def state_of_def registry_get_def bind_eq_Some_conv
        split: option.splits)
  then show ?thesis
    using registry_run_extends [OF assms(1) as(1,2) assms(3)]
    by (auto simp: is_containment_active_def state_of_def registry_get_def state_extends_def)
qed

theorem containment_sticky_witness:
  "is_containment_active (SessionScopeKey 1)
     (registry_run (registry_run registry_fresh [OpActivateScope (SessionScopeKey 1) (Manual ''ops'') 5])
        [OpGetOrCreate (SessionScopeKey 2) 6, OpActivateArc 0 (Manual ''again''), OpEvict (SessionScopeKey 2)])"
proof -
  let ?reg = "registry_run registry_fresh [OpActivateScope (SessionScopeKey 1) (Manual ''ops'') 5]"
  have "registry_wf ?reg" by (intro inv_intros)
  moreover have "is_containment_active (SessionScopeKey 1) ?reg" by code_simp
  ultimately show ?thesis by (rule containment_sticky [THEN conjunct1]) simp
qed

text \<open>
  Evicting a scope ends its state for good: a session that later reuses the key starts
  uncontained, with no reason and no pinned inventory, and a reference handed out before the
  eviction cannot reach the new state.
\<close>

theorem evict_then_fresh:
  assumes "registry_wf reg" and "a < next_arc reg"
  shows "state_of sc (registry_step (snd (get_or_create sc now (snd (evict sc reg)))) (OpActivateArc a r))
         = Some (state_new sc now)"
  using assms
  by (simp add: state_of_def registry_get_def get_or_create_def evict_def Let_def touch_def
      state_new_def update_at_def split: option.split)

theorem evict_then_fresh_witness:
  "state_of (SessionScopeKey 1)
     (registry_step (snd (get_or_create (SessionScopeKey 1) 9
        (snd (evict (SessionScopeKey 1)
           (registry_run registry_fresh [OpActivateScope (SessionScopeKey 1) (Manual ''ops'') 5])))))
        (OpActivateArc 0 (Manual ''late'')))
   = Some (state_new (SessionScopeKey 1) 9)"
proof (rule evict_then_fresh)
  show "registry_wf (registry_run registry_fresh [OpActivateScope (SessionScopeKey 1) (Manual ''ops'') 5])"
    by (intro inv_intros)
  show "0 < next_arc (registry_run registry_fresh [OpActivateScope (SessionScopeKey 1) (Manual ''ops'') 5])"
    by code_simp
qed

text \<open>
  The stale-session sweep reports exactly the scopes whose last access is before the cutoff,
  each once, with that access time.
\<close>

theorem snapshot_stale_exact:
  assumes "registry_wf reg"
  shows "distinct (map fst (snapshot_stale cutoff reg)) \<and>
         ((sc, t) \<in> set (snapshot_stale cutoff reg) \<longleftrightarrow>
            (\<exists>s. state_of sc reg = Some s \<and> last_seen s = t \<and> t < cutoff))"
proof -
  define f where "f = (\<lambda>(sc :: session_scope_key, a). case state_store reg a of
      Some s \<Rightarrow> (if last_seen s < cutoff then Some (sc, last_seen s) else None) | None \<Rightarrow> None)"
  have eq: "snapshot_stale cutoff reg = List.map_filter f (sessions reg)"
    by (simp add: snapshot_stale_def f_def)
  have d: "distinct (map fst (sessions reg))" using assms by (simp add: registry_wf_def)
  have "fst q = fst p" if "f p = Some q" for p q
    using that by (cases p) (auto simp: f_def split: option.splits if_splits)
  with d have "distinct (map fst (snapshot_stale cutoff reg))"
    unfolding eq by (intro map_filter_keys_distinct)
  moreover have "(sc, t) \<in> set (snapshot_stale cutoff reg) \<longleftrightarrow>
      (\<exists>a. (sc, a) \<in> set (sessions reg) \<and> f (sc, a) = Some (sc, t))"
    unfolding eq List.map_filter_def
    by (force simp: f_def image_iff split: option.splits if_splits)
  ultimately show ?thesis
    using d by (auto simp: state_of_def registry_get_def f_def bind_eq_Some_conv
        split: option.splits if_splits)
qed

theorem snapshot_stale_exact_witness:
  "((SessionScopeKey 1, 5) \<in> set (snapshot_stale 7 (registry_run registry_fresh
      [OpGetOrCreate (SessionScopeKey 1) 5, OpGetOrCreate (SessionScopeKey 2) 8])))"
proof -
  let ?reg = "registry_run registry_fresh
      [OpGetOrCreate (SessionScopeKey 1) 5, OpGetOrCreate (SessionScopeKey 2) 8]"
  have wf: "registry_wf ?reg" by (intro inv_intros)
  have "\<exists>s. state_of (SessionScopeKey 1) ?reg = Some s \<and> last_seen s = 5 \<and> (5 :: int) < 7"
    by (simp add: state_of_def registry_get_def get_or_create_def registry_fresh_def touch_def
        state_new_def Let_def update_at_def)
  then show ?thesis using snapshot_stale_exact [OF wf, of 7 "SessionScopeKey 1" 5] by simp
qed

end
