(* ===== verification/Ssh_Connect.thy ===== *)
theory Ssh_Connect
  imports Call_Types Scoring Session_State
begin

section \<open>The review-band clamp for ssh connects\<close>

text \<open>
  \<open>crates/grith-proxy/src/ssh_connect.rs\<close>. Resolving \<open>/proc/<pid>/exe\<close> is the parameter
  \<open>canonical_exe_for_pid\<close> (\<open>None\<close> on any failure); the process-wide session registry is the
  argument \<open>sreg\<close>.
\<close>

definition SSH_CANONICAL_PATHS :: "string list" where
  "SSH_CANONICAL_PATHS = [''/usr/bin/ssh'', ''/usr/local/bin/ssh'', ''/bin/ssh'']"

definition BENIGN_CONTRIBUTORS :: "string list" where
  "BENIGN_CONTRIBUTORS =
     [''operation-risk'', ''taint'', ''session-containment'', ''egress-policy'', ''reputation'',
      ''egress-rate'']"

definition is_system_ssh_path :: "string \<Rightarrow> bool" where
  "is_system_ssh_path canonical \<longleftrightarrow>
     path_file_name canonical = Some ''ssh'' \<and> canonical \<in> set SSH_CANONICAL_PATHS"

definition is_trusted_ssh_exe :: "(nat \<Rightarrow> string option) \<Rightarrow> nat \<Rightarrow> bool" where
  "is_trusted_ssh_exe canonical_exe_for_pid pid =
     (case canonical_exe_for_pid pid of Some c \<Rightarrow> is_system_ssh_path c | None \<Rightarrow> False)"

definition is_trusted_ssh :: "registry \<Rightarrow> string \<Rightarrow> tool_call_context \<Rightarrow> bool" where
  "is_trusted_ssh sreg canonical ctx =
     (if is_system_ssh_path canonical then True
      else case session_scope ctx of
             None \<Rightarrow> False
           | Some sc \<Rightarrow>
               (case state_of sc sreg of
                  None \<Rightarrow> False
                | Some st \<Rightarrow>
                    (case pinned_inventory st of
                       None \<Rightarrow> False
                     | Some i \<Rightarrow> expected_hash i canonical \<noteq> None)))"

definition only_benign_contributors :: "filter_result list \<Rightarrow> bool" where
  "only_benign_contributors rs =
     list_all (\<lambda>r. filter_name r \<in> set BENIGN_CONTRIBUTORS)
       (filter (\<lambda>r. fr_matched r \<and> fr_score r > 0) rs)"

definition clamp_for_trusted_ssh ::
    "f64 \<Rightarrow> f64 \<Rightarrow> f64 \<Rightarrow> filter_result list \<Rightarrow> f64 option" where
  "clamp_for_trusted_ssh score allow_t deny_t rs =
     (if \<not> only_benign_contributors rs then None
      else let target = max (deny_t - 3 / 2) (allow_t + 1 / 2)
           in if target \<ge> score then None else Some target)"

fun is_net_connect :: "tool_call_type \<Rightarrow> bool" where
  "is_net_connect (NetConnect _ _) = True"
| "is_net_connect _ = False"

definition maybe_clamp_ssh_connect ::
    "(nat \<Rightarrow> string option) \<Rightarrow> registry \<Rightarrow> f64 \<Rightarrow> f64 \<Rightarrow> f64 \<Rightarrow> filter_result list \<Rightarrow>
     tool_call_context \<Rightarrow> f64 option" where
  "maybe_clamp_ssh_connect canonical_exe_for_pid sreg score allow_t deny_t rs ctx =
     (if score \<le> deny_t then None
      else if \<not> is_net_connect (call_type ctx) then None
      else if \<not> prefix ''supervisor:'' (plugin_id ctx) then None
      else case Option.bind (json_get (arguments ctx) ''pid'') as_u64 of
             None \<Rightarrow> None
           | Some pid \<Rightarrow>
               (case canonical_exe_for_pid pid of
                  None \<Rightarrow> None
                | Some canonical \<Rightarrow>
                    (if path_file_name canonical \<noteq> Some ''ssh'' then None
                     else if \<not> is_trusted_ssh sreg canonical ctx then None
                     else clamp_for_trusted_ssh score allow_t deny_t rs)))"

subsection \<open>Properties\<close>

lemma clamp_for_trusted_ssh_Some:
  "clamp_for_trusted_ssh score a d rs = Some c \<Longrightarrow>
   a < c \<and> c < score \<and> (d - a \<ge> 1 / 2 \<longrightarrow> c \<le> d) \<and> only_benign_contributors rs"
  by (auto simp: clamp_for_trusted_ssh_def Let_def max_def split: if_splits)

lemma maybe_clamp_Some:
  assumes "maybe_clamp_ssh_connect ex sreg score a d rs ctx = Some c"
  shows "clamp_for_trusted_ssh score a d rs = Some c" "d < score"
    "is_net_connect (call_type ctx)" "prefix ''supervisor:'' (plugin_id ctx)"
  using assms
  by (auto simp: maybe_clamp_ssh_connect_def split: if_splits option.splits)

text \<open>
  The clamp can only turn a silent deny into a prompt: whenever it fires, the unclamped call
  would have been denied and the clamped one is not allowed; and when the review band is at least
  half a point wide, the clamped call is queued for review.
\<close>

theorem clamp_lands_in_review_band:
  assumes "maybe_clamp_ssh_connect ex sreg score a d rs ctx = Some c"
  shows "is_denied (route_decision score rs a d t) \<and>
         \<not> is_allowed (route_decision c rs a d t) \<and>
         (d - a \<ge> 1 / 2 \<longrightarrow> action (route_decision c rs a d t) = Queue (queue_priority_for c))"
proof -
  have c: "a < c" "d - a \<ge> 1 / 2 \<longrightarrow> c \<le> d"
    using clamp_for_trusted_ssh_Some [OF maybe_clamp_Some(1) [OF assms]] by auto
  with maybe_clamp_Some(2) [OF assms] show ?thesis
    by (auto simp: routing_defs is_allowed_def is_denied_def)
qed

theorem clamp_lands_in_review_band_witness:
  "action (route_decision (13 / 2) [matched ''taint'' ''high-taint-network-sink'' (25/2) SevCritical ''sink''] 3 8 0)
     = Queue PrioHigh"
proof -
  let ?rs = "[matched ''taint'' ''high-taint-network-sink'' (25/2) SevCritical ''sink'']"
  let ?ctx = "(context_new 1 0 ''supervisor:claude'' (NetConnect ''host'' 22) 2)
                \<lparr>arguments := JObject [(''pid'', JPosInt 7)]\<rparr>"
  have "maybe_clamp_ssh_connect (\<lambda>_. Some ''/usr/bin/ssh'') registry_fresh (25/2) 3 8 ?rs ?ctx = Some (13/2)"
    by code_simp
  from clamp_lands_in_review_band [OF this, of 0] show ?thesis
    by (simp add: queue_priority_for_def)
qed

text \<open>
  The clamp is not forgeable and never hides real evidence: it fires only for a supervised
  connect by a process whose resolved executable is called ssh and is a system ssh or was pinned
  at session start, and only if every filter that scored is one a routine key-read and connect trips.
\<close>

theorem clamp_only_for_trusted_ssh:
  assumes "maybe_clamp_ssh_connect ex sreg score a d rs ctx = Some c"
  shows "prefix ''supervisor:'' (plugin_id ctx) \<and> is_net_connect (call_type ctx) \<and>
         (\<exists>pid canonical.
            Option.bind (json_get (arguments ctx) ''pid'') as_u64 = Some pid \<and>
            ex pid = Some canonical \<and> path_file_name canonical = Some ''ssh'' \<and>
            (canonical \<in> set SSH_CANONICAL_PATHS \<or>
             (\<exists>sc st i h. session_scope ctx = Some sc \<and> state_of sc sreg = Some st \<and>
                pinned_inventory st = Some i \<and> expected_hash i canonical = Some h))) \<and>
         (\<forall>r \<in> set rs. fr_matched r \<and> fr_score r > 0 \<longrightarrow> filter_name r \<in> set BENIGN_CONTRIBUTORS)"
proof -
  obtain pid canonical where id: "Option.bind (json_get (arguments ctx) ''pid'') as_u64 = Some pid"
      "ex pid = Some canonical" "path_file_name canonical = Some ''ssh''" "is_trusted_ssh sreg canonical ctx"
    using assms by (auto simp: maybe_clamp_ssh_connect_def split: if_splits option.splits)
  from id(4) have "canonical \<in> set SSH_CANONICAL_PATHS \<or>
      (\<exists>sc st i h. session_scope ctx = Some sc \<and> state_of sc sreg = Some st \<and>
         pinned_inventory st = Some i \<and> expected_hash i canonical = Some h)"
    by (auto simp: is_trusted_ssh_def is_system_ssh_path_def split: if_splits option.splits)
  moreover have "only_benign_contributors rs"
    using clamp_for_trusted_ssh_Some [OF maybe_clamp_Some(1) [OF assms]] by simp
  ultimately show ?thesis
    using id(1,2,3) maybe_clamp_Some(3,4) [OF assms]
    by (auto simp: only_benign_contributors_def list_all_iff)
qed

theorem clamp_only_for_trusted_ssh_witness:
  "\<exists>canonical. Some ''/usr/bin/ssh'' = Some canonical \<and> path_file_name canonical = Some ''ssh''"
proof -
  let ?ctx = "(context_new 1 0 ''supervisor:claude'' (NetConnect ''host'' 22) 2)
                \<lparr>arguments := JObject [(''pid'', JPosInt 7)]\<rparr>"
  have "maybe_clamp_ssh_connect (\<lambda>_. Some ''/usr/bin/ssh'') registry_fresh 9 3 8 [] ?ctx = Some (13/2)"
    by code_simp
  from clamp_only_for_trusted_ssh [OF this] show ?thesis by auto
qed

end
