(* ===== verification/Engine.thy ===== *)
theory Engine
  imports Filters Meta_Rules Ssh_Connect
begin

section \<open>The proxy pipeline\<close>

text \<open>
  \<open>crates/grith-proxy/src/engine.rs\<close>: \<open>SecurityProxy\<close> with its atomic counters (64-bit, wrapping
  as \<open>fetch_add\<close> does), the three phases with their early exits, the meta-rules, the ssh clamp and
  the recording of the decision. The filters' shared state is threaded beside the proxy.
\<close>

record 's security_proxy =
  proxy_registry :: "'s filter_registry"
  proxy_scoring :: scoring_config
  proxy_meta_rules :: "meta_rule list"
  call_count :: u64
  allow_count :: u64
  queue_count :: u64
  deny_count :: u64
  observed_count :: u64
  observed_executed :: u64
  observed_suppressed :: u64

definition proxy_new ::
    "'s filter_registry \<Rightarrow> scoring_config \<Rightarrow> meta_rule list \<Rightarrow> 's security_proxy" where
  "proxy_new reg sc rules =
     \<lparr> proxy_registry = reg, proxy_scoring = sc, proxy_meta_rules = rules,
       call_count = 0, allow_count = 0, queue_count = 0, deny_count = 0,
       observed_count = 0, observed_executed = 0, observed_suppressed = 0 \<rparr>"

text \<open>\<open>evict_session_state\<close> also evicts the scope from the session registry.\<close>

definition proxy_evict_session_state ::
    "session_scope_key \<Rightarrow> 's security_proxy \<Rightarrow> registry \<Rightarrow> 's \<Rightarrow> nat \<times> registry \<times> 's" where
  "proxy_evict_session_state sc p sreg st =
     (let (removed, st') = registry_evict_session_state sc (proxy_registry p) st
      in (removed, snd (evict sc sreg), st'))"

definition proxy_observe_outcome ::
    "tool_call_context \<Rightarrow> call_outcome \<Rightarrow> duration \<Rightarrow> 's security_proxy \<Rightarrow> 's \<Rightarrow>
     's security_proxy \<times> 's" where
  "proxy_observe_outcome ctx oc age p st =
     (let p1 = p\<lparr>observed_count := observed_count p + 1\<rparr>;
          p2 = (if executed oc then p1\<lparr>observed_executed := observed_executed p1 + 1\<rparr>
                else p1\<lparr>observed_suppressed := observed_suppressed p1 + 1\<rparr>)
      in (p2, registry_observe_outcome ctx oc age (proxy_registry p2) st))"

definition record_decision :: "proxy_decision \<Rightarrow> 's security_proxy \<Rightarrow> 's security_proxy" where
  "record_decision d p =
     (case action d of
        Allow \<Rightarrow> p\<lparr>allow_count := allow_count p + 1\<rparr>
      | Queue _ \<Rightarrow> p\<lparr>queue_count := queue_count p + 1\<rparr>
      | Deny _ \<Rightarrow> p\<lparr>deny_count := deny_count p + 1\<rparr>)"

definition proxy_run_phase ::
    "(string \<Rightarrow> duration) \<Rightarrow> filter_phase \<Rightarrow> tool_call_context \<Rightarrow> 's security_proxy \<Rightarrow> 's \<Rightarrow>
     filter_result list \<times> 's security_proxy \<times> 's" where
  "proxy_run_phase lat ph ctx p st =
     (let (rs, reg, st') = run_phase lat ph ctx (proxy_registry p) st
      in (rs, p\<lparr>proxy_registry := reg\<rparr>, st'))"

text \<open>The composite after all phases: meta-rules, then the ssh clamp.\<close>

definition final_score ::
    "(nat \<Rightarrow> string option) \<Rightarrow> registry \<Rightarrow> 's security_proxy \<Rightarrow> filter_result list \<Rightarrow>
     tool_call_context \<Rightarrow> f64" where
  "final_score exe sreg p rs ctx =
     (let (allow_t, deny_t) = thresholds (proxy_scoring p);
          score = aggregate rs + meta_evaluate (proxy_meta_rules p) rs ctx
      in case maybe_clamp_ssh_connect exe sreg score allow_t deny_t rs ctx of
           Some clamped \<Rightarrow> clamped
         | None \<Rightarrow> score)"

definition evaluate ::
    "(nat \<Rightarrow> string option) \<Rightarrow> registry \<Rightarrow> (string \<Rightarrow> duration) \<Rightarrow> duration \<Rightarrow> tool_call_context \<Rightarrow>
     's security_proxy \<Rightarrow> 's \<Rightarrow> proxy_decision \<times> 's security_proxy \<times> 's" where
  "evaluate exe sreg lat t ctx p0 st0 =
     (let p = p0\<lparr>call_count := call_count p0 + 1\<rparr>;
          (allow_t, deny_t) = thresholds (proxy_scoring p);
          (phase1, p1, st1) = proxy_run_phase lat Static ctx p st0;
          score = aggregate phase1
      in if exceeds_deny score deny_t
         then let d = route_decision score phase1 allow_t deny_t t in (d, record_decision d p1, st1)
         else
           let (phase2, p2, st2) = proxy_run_phase lat Pattern ctx p1 st1;
               results = phase1 @ phase2;
               score = aggregate results
           in if exceeds_deny score deny_t
              then let d = route_decision score results allow_t deny_t t in (d, record_decision d p2, st2)
              else
                let (phase3, p3, st3) = proxy_run_phase lat Context ctx p2 st2;
                    results = results @ phase3;
                    score = final_score exe sreg p3 results ctx;
                    d = route_decision score results allow_t deny_t t
                in (d, record_decision d p3, st3))"

subsection \<open>The pipeline without early exits\<close>

text \<open>All three phases, unconditionally: the reference the early exits are an optimisation of.\<close>

definition evaluate_all ::
    "(nat \<Rightarrow> string option) \<Rightarrow> registry \<Rightarrow> (string \<Rightarrow> duration) \<Rightarrow> duration \<Rightarrow> tool_call_context \<Rightarrow>
     's security_proxy \<Rightarrow> 's \<Rightarrow> proxy_decision" where
  "evaluate_all exe sreg lat t ctx p st =
     (let (allow_t, deny_t) = thresholds (proxy_scoring p);
          (phase1, p1, st1) = proxy_run_phase lat Static ctx p st;
          (phase2, p2, st2) = proxy_run_phase lat Pattern ctx p1 st1;
          (phase3, p3, st3) = proxy_run_phase lat Context ctx p2 st2;
          results = phase1 @ phase2 @ phase3
      in route_decision (final_score exe sreg p3 results ctx) results allow_t deny_t t)"

lemma proxy_run_phase_frame [simp]:
  "proxy_scoring (fst (snd (proxy_run_phase lat ph ctx p st))) = proxy_scoring p"
  "proxy_meta_rules (fst (snd (proxy_run_phase lat ph ctx p st))) = proxy_meta_rules p"
  "reg_filters (proxy_registry (fst (snd (proxy_run_phase lat ph ctx p st)))) = reg_filters (proxy_registry p)"
  "call_count (fst (snd (proxy_run_phase lat ph ctx p st))) = call_count p"
  "allow_count (fst (snd (proxy_run_phase lat ph ctx p st))) = allow_count p"
  "queue_count (fst (snd (proxy_run_phase lat ph ctx p st))) = queue_count p"
  "deny_count (fst (snd (proxy_run_phase lat ph ctx p st))) = deny_count p"
  "observed_count (fst (snd (proxy_run_phase lat ph ctx p st))) = observed_count p"
  "observed_executed (fst (snd (proxy_run_phase lat ph ctx p st))) = observed_executed p"
  "observed_suppressed (fst (snd (proxy_run_phase lat ph ctx p st))) = observed_suppressed p"
  by (simp_all add: proxy_run_phase_def run_phase_def split: prod.split)

lemma proxy_run_phase_cong:
  assumes "proxy_registry p = proxy_registry q"
  shows "fst (proxy_run_phase lat ph ctx p st) = fst (proxy_run_phase lat ph ctx q st)"
    and "snd (snd (proxy_run_phase lat ph ctx p st)) = snd (snd (proxy_run_phase lat ph ctx q st))"
    and "proxy_registry (fst (snd (proxy_run_phase lat ph ctx p st))) =
         proxy_registry (fst (snd (proxy_run_phase lat ph ctx q st)))"
  using assms by (simp_all add: proxy_run_phase_def split: prod.split)

lemma final_score_cong:
  "proxy_scoring p = proxy_scoring q \<Longrightarrow> proxy_meta_rules p = proxy_meta_rules q \<Longrightarrow>
   final_score exe sreg p rs ctx = final_score exe sreg q rs ctx"
  by (simp add: final_score_def)

text \<open>The results of the three phases, and the state between them.\<close>

definition phase1 :: "(string \<Rightarrow> duration) \<Rightarrow> tool_call_context \<Rightarrow> 's security_proxy \<Rightarrow> 's \<Rightarrow>
    filter_result list \<times> 's security_proxy \<times> 's" where
  "phase1 lat ctx p st = proxy_run_phase lat Static ctx p st"

definition phase2 :: "(string \<Rightarrow> duration) \<Rightarrow> tool_call_context \<Rightarrow> 's security_proxy \<Rightarrow> 's \<Rightarrow>
    filter_result list \<times> 's security_proxy \<times> 's" where
  "phase2 lat ctx p st =
     proxy_run_phase lat Pattern ctx (fst (snd (phase1 lat ctx p st))) (snd (snd (phase1 lat ctx p st)))"

definition phase3 :: "(string \<Rightarrow> duration) \<Rightarrow> tool_call_context \<Rightarrow> 's security_proxy \<Rightarrow> 's \<Rightarrow>
    filter_result list \<times> 's security_proxy \<times> 's" where
  "phase3 lat ctx p st =
     proxy_run_phase lat Context ctx (fst (snd (phase2 lat ctx p st))) (snd (snd (phase2 lat ctx p st)))"

abbreviation results12 where
  "results12 lat ctx p st \<equiv> fst (phase1 lat ctx p st) @ fst (phase2 lat ctx p st)"

abbreviation results123 where
  "results123 lat ctx p st \<equiv> results12 lat ctx p st @ fst (phase3 lat ctx p st)"

lemmas phase_defs = phase1_def phase2_def phase3_def

lemma phase_frame [simp]:
  "proxy_scoring (fst (snd (phase1 lat ctx p st))) = proxy_scoring p"
  "proxy_scoring (fst (snd (phase2 lat ctx p st))) = proxy_scoring p"
  "proxy_scoring (fst (snd (phase3 lat ctx p st))) = proxy_scoring p"
  "proxy_meta_rules (fst (snd (phase1 lat ctx p st))) = proxy_meta_rules p"
  "proxy_meta_rules (fst (snd (phase2 lat ctx p st))) = proxy_meta_rules p"
  "proxy_meta_rules (fst (snd (phase3 lat ctx p st))) = proxy_meta_rules p"
  "reg_filters (proxy_registry (fst (snd (phase1 lat ctx p st)))) = reg_filters (proxy_registry p)"
  "reg_filters (proxy_registry (fst (snd (phase2 lat ctx p st)))) = reg_filters (proxy_registry p)"
  by (simp_all add: phase_defs)

lemma phase_call_count [simp]:
  "fst (phase1 lat ctx (p\<lparr>call_count := c\<rparr>) st) = fst (phase1 lat ctx p st)"
  "fst (phase2 lat ctx (p\<lparr>call_count := c\<rparr>) st) = fst (phase2 lat ctx p st)"
  "fst (phase3 lat ctx (p\<lparr>call_count := c\<rparr>) st) = fst (phase3 lat ctx p st)"
proof -
  let ?q = "p\<lparr>call_count := c\<rparr>"
  have c1: "proxy_registry ?q = proxy_registry p" by simp
  note r1 = proxy_run_phase_cong [OF c1, of lat Static ctx st, folded phase1_def]
  show "fst (phase1 lat ctx ?q st) = fst (phase1 lat ctx p st)" by (rule r1(1))
  note r2 = proxy_run_phase_cong [OF r1(3), of lat Pattern ctx]
  show "fst (phase2 lat ctx ?q st) = fst (phase2 lat ctx p st)"
    by (simp add: phase2_def r1(2) r2(1))
  have c3: "proxy_registry (fst (snd (phase2 lat ctx ?q st))) = proxy_registry (fst (snd (phase2 lat ctx p st)))"
    by (simp add: phase2_def r1(2) r2(3))
  have "snd (snd (phase2 lat ctx ?q st)) = snd (snd (phase2 lat ctx p st))"
    by (simp add: phase2_def r1(2) r2(2))
  then show "fst (phase3 lat ctx ?q st) = fst (phase3 lat ctx p st)"
    by (simp add: phase3_def proxy_run_phase_cong(1) [OF c3])
qed

lemma evaluate_all_eq:
  "evaluate_all exe sreg lat t ctx p st =
     route_decision (final_score exe sreg p (results123 lat ctx p st) ctx) (results123 lat ctx p st)
       (auto_allow_threshold (proxy_scoring p)) (auto_deny_threshold (proxy_scoring p)) t"
  by (simp add: evaluate_all_def thresholds_def Let_def case_prod_beta phase_defs
      final_score_cong [of "fst (snd (phase3 lat ctx p st))" p, simplified, unfolded phase_defs])

lemma evaluate_by_phases:
  "fst (evaluate exe sreg lat t ctx p st) =
     (let a = auto_allow_threshold (proxy_scoring p); d = auto_deny_threshold (proxy_scoring p);
          r1 = fst (phase1 lat ctx p st); r12 = results12 lat ctx p st
      in if aggregate r1 > d then decision_deny (aggregate r1) r1 (build_deny_reason r1) t
         else if aggregate r12 > d then decision_deny (aggregate r12) r12 (build_deny_reason r12) t
         else evaluate_all exe sreg lat t ctx p st)"
proof -
  let ?q = "p\<lparr>call_count := call_count p + 1\<rparr>"
  have fs: "final_score exe sreg (fst (snd (phase3 lat ctx ?q st))) rs ctx = final_score exe sreg p rs ctx" for rs
    by (rule final_score_cong) simp_all
  have ev: "fst (evaluate exe sreg lat t ctx p st) =
      (let a = auto_allow_threshold (proxy_scoring p); d = auto_deny_threshold (proxy_scoring p);
           r1 = fst (phase1 lat ctx ?q st); r12 = results12 lat ctx ?q st; r123 = results123 lat ctx ?q st
       in if aggregate r1 > d then route_decision (aggregate r1) r1 a d t
          else if aggregate r12 > d then route_decision (aggregate r12) r12 a d t
          else route_decision (final_score exe sreg (fst (snd (phase3 lat ctx ?q st))) r123 ctx) r123 a d t)"
    by (simp add: evaluate_def thresholds_def exceeds_deny_def Let_def case_prod_beta phase_defs)
  show ?thesis
    unfolding ev fs phase_call_count evaluate_all_eq by (simp add: Let_def route_decision_def)
qed


subsection \<open>When the early exits change nothing\<close>

definition nonneg_filters :: "tool_call_context \<Rightarrow> 's security_proxy \<Rightarrow> bool" where
  "nonneg_filters ctx p \<longleftrightarrow>
     (\<forall>f \<in> set (reg_filters (proxy_registry p)). \<forall>st r.
        fst (flt_evaluate f ctx st) = Inr r \<longrightarrow> fr_matched r \<longrightarrow> 0 \<le> fr_score r)"

definition only_raising_rules :: "meta_rule list \<Rightarrow> bool" where
  "only_raising_rules rules \<longleftrightarrow>
     list_all (\<lambda>rule. score_override rule = None \<and>
        (case score_adjustment rule of None \<Rightarrow> True | Some a \<Rightarrow> 0 \<le> a)) rules"

lemma meta_evaluate_nonneg:
  assumes "only_raising_rules rules"
  shows "0 \<le> meta_evaluate rules rs ctx"
proof -
  have "find (fires_override rs ctx) rules = None"
    using assms by (auto simp: only_raising_rules_def list_all_iff find_None_iff fires_override_def)
  then have "meta_evaluate rules rs ctx = (\<Sum>rule\<leftarrow>rules. adjustment_of rs ctx rule)"
    by (simp add: meta_evaluate_def meta_loop_no_override find_None_iff)
  also have "0 \<le> \<dots>"
    using assms
    by (intro sum_list_nonneg)
      (auto simp: only_raising_rules_def list_all_iff adjustment_of_def split: option.splits)
  finally show ?thesis .
qed

lemma phase_aggregate_nonneg:
  assumes "nonneg_filters ctx p" and "reg_filters (proxy_registry q) = reg_filters (proxy_registry p)"
  shows "0 \<le> aggregate (fst (proxy_run_phase lat ph ctx q st))"
proof (rule aggregate_nonneg)
  fix r assume r: "r \<in> set (fst (proxy_run_phase lat ph ctx q st))" "fr_matched r"
  then have "r \<in> set (fst (run_phase lat ph ctx (proxy_registry q) st))"
    by (simp add: proxy_run_phase_def split: prod.splits)
  then obtain f st' where "f \<in> set (reg_filters (proxy_registry p))"
      "r = no_match (flt_name f) \<or> fst (flt_evaluate f ctx st') = Inr r"
    using run_phase_results assms(2) by metis
  with r(2) assms(1) show "0 \<le> fr_score r"
    by (auto simp: nonneg_filters_def)
qed

lemma final_score_ge_aggregate:
  assumes "only_raising_rules (proxy_meta_rules p)" and "\<not> is_net_connect (call_type ctx)"
  shows "aggregate rs \<le> final_score exe sreg p rs ctx"
  using meta_evaluate_nonneg [OF assms(1), of rs ctx] assms(2)
  by (simp add: final_score_def thresholds_def maybe_clamp_ssh_connect_def Let_def)

text \<open>
  C3. Where no filter scores below zero, no meta-rule lowers a score and the call is not a connect
  (the only calls the ssh clamp touches), the early exits are a pure optimisation: the pipeline
  denies exactly the calls the full evaluation denies, and agrees with it on everything else.
\<close>

theorem early_exit_sound:
  assumes "nonneg_filters ctx p" and "only_raising_rules (proxy_meta_rules p)"
    and "\<not> is_net_connect (call_type ctx)"
  shows "(is_denied (fst (evaluate exe sreg lat t ctx p st)) \<longleftrightarrow>
            is_denied (evaluate_all exe sreg lat t ctx p st)) \<and>
         (\<not> is_denied (fst (evaluate exe sreg lat t ctx p st)) \<longrightarrow>
            fst (evaluate exe sreg lat t ctx p st) = evaluate_all exe sreg lat t ctx p st)"
proof -
  let ?d = "auto_deny_threshold (proxy_scoring p)"
  have "0 \<le> aggregate (fst (phase2 lat ctx p st))" "0 \<le> aggregate (fst (phase3 lat ctx p st))"
    unfolding phase2_def phase3_def by (rule phase_aggregate_nonneg [OF assms(1)]; simp)+
  moreover have "aggregate (results123 lat ctx p st) \<le> final_score exe sreg p (results123 lat ctx p st) ctx"
    by (rule final_score_ge_aggregate [OF assms(2,3)])
  ultimately have
    "aggregate (fst (phase1 lat ctx p st)) \<le> aggregate (results12 lat ctx p st)"
    "aggregate (results12 lat ctx p st) \<le> final_score exe sreg p (results123 lat ctx p st) ctx"
    by simp_all
  then have "is_denied (fst (evaluate exe sreg lat t ctx p st)) \<longleftrightarrow>
           is_denied (evaluate_all exe sreg lat t ctx p st)"
    by (auto simp: evaluate_by_phases Let_def evaluate_all_eq is_denied_def decision_deny_def routing_defs)
  moreover have "\<not> is_denied (fst (evaluate exe sreg lat t ctx p st)) \<longrightarrow>
           fst (evaluate exe sreg lat t ctx p st) = evaluate_all exe sreg lat t ctx p st"
    by (auto simp: evaluate_by_phases Let_def is_denied_def decision_deny_def)
  ultimately show ?thesis by blast
qed

definition sample_filter :: "string \<Rightarrow> filter_phase \<Rightarrow> f64 \<Rightarrow> unit security_filter" where
  "sample_filter name ph sc =
     \<lparr> flt_name = name, flt_phase = ph, flt_ready = (\<lambda>_. True),
       flt_evaluate = (\<lambda>_ st. (Inr (matched name ''rule'' sc Warning ''m''), st)),
       flt_evict = (\<lambda>_ st. (0, st)), flt_observe = (\<lambda>_ _ _ st. st) \<rparr>"

definition sample_proxy :: "unit security_proxy" where
  "sample_proxy = proxy_new
     (register (sample_filter ''taint'' Context 2) (register (sample_filter ''secret-scan'' Pattern 7)
        (register (sample_filter ''path-match'' Static 4) filter_registry_new))) scoring_default []"

theorem early_exit_sound_witness:
  "is_denied (fst (evaluate (\<lambda>_. None) registry_fresh (\<lambda>_. 1) 9
      (context_new 1 0 ''agent'' (FileRead ''/x'') 2) sample_proxy ())) \<and>
   composite_score (fst (evaluate (\<lambda>_. None) registry_fresh (\<lambda>_. 1) 9
      (context_new 1 0 ''agent'' (FileRead ''/x'') 2) sample_proxy ())) = 11"
proof -
  let ?ctx = "context_new 1 0 ''agent'' (FileRead ''/x'') 2"
  have "nonneg_filters ?ctx sample_proxy"
    by (simp add: nonneg_filters_def sample_proxy_def proxy_new_def register_def filter_registry_new_def
        sample_filter_def)
  moreover have "only_raising_rules (proxy_meta_rules sample_proxy)"
    by (simp add: only_raising_rules_def sample_proxy_def proxy_new_def)
  moreover have "\<not> is_net_connect (call_type ?ctx)" by (simp add: context_new_def)
  ultimately have "is_denied (fst (evaluate (\<lambda>_. None) registry_fresh (\<lambda>_. 1) 9 ?ctx sample_proxy ()))
      = is_denied (evaluate_all (\<lambda>_. None) registry_fresh (\<lambda>_. 1) 9 ?ctx sample_proxy ())"
    by (rule early_exit_sound [THEN conjunct1])
  moreover have "is_denied (evaluate_all (\<lambda>_. None) registry_fresh (\<lambda>_. 1) 9 ?ctx sample_proxy ())"
    by code_simp
  moreover have "composite_score (fst (evaluate (\<lambda>_. None) registry_fresh (\<lambda>_. 1) 9 ?ctx sample_proxy ())) = 11"
    by code_simp
  ultimately show ?thesis by simp
qed

subsection \<open>Counters\<close>

datatype proxy_op =
    OpEvaluate tool_call_context duration
  | OpObserve tool_call_context call_outcome duration

fun proxy_step ::
    "(nat \<Rightarrow> string option) \<Rightarrow> registry \<Rightarrow> (string \<Rightarrow> duration) \<Rightarrow> proxy_op \<Rightarrow>
     's security_proxy \<times> 's \<Rightarrow> 's security_proxy \<times> 's" where
  "proxy_step exe sreg lat (OpEvaluate ctx t) (p, st) = snd (evaluate exe sreg lat t ctx p st)"
| "proxy_step exe sreg lat (OpObserve ctx oc age) (p, st) = proxy_observe_outcome ctx oc age p st"

definition counters_balanced :: "'s security_proxy \<Rightarrow> bool" where
  "counters_balanced p \<longleftrightarrow>
     call_count p = allow_count p + queue_count p + deny_count p \<and>
     observed_count p = observed_executed p + observed_suppressed p"

lemma record_decision_balanced:
  "call_count p = allow_count p + queue_count p + deny_count p + 1 \<Longrightarrow>
   observed_count p = observed_executed p + observed_suppressed p \<Longrightarrow>
   counters_balanced (record_decision d p)"
  by (simp add: counters_balanced_def record_decision_def split: proxy_action.split)

lemma phase_counters:
  "\<exists>reg. fst (snd (proxy_run_phase lat ph ctx p st)) = p\<lparr>proxy_registry := reg\<rparr>"
  by (auto simp: proxy_run_phase_def run_phase_def split: prod.split)

lemma evaluate_proxy:
  "\<exists>reg d. fst (snd (evaluate exe sreg lat t ctx p st)) =
     record_decision d (p\<lparr>call_count := call_count p + 1, proxy_registry := reg\<rparr>)"
proof -
  let ?q = "p\<lparr>call_count := call_count p + 1\<rparr>"
  obtain r1 where r1: "fst (snd (phase1 lat ctx ?q st)) = ?q\<lparr>proxy_registry := r1\<rparr>"
    unfolding phase1_def using phase_counters [of lat Static ctx ?q st] by (elim exE)
  obtain r2 where r2: "fst (snd (phase2 lat ctx ?q st)) = ?q\<lparr>proxy_registry := r2\<rparr>"
    using phase_counters [of lat Pattern ctx "?q\<lparr>proxy_registry := r1\<rparr>" "snd (snd (phase1 lat ctx ?q st))"]
    unfolding phase2_def r1 by auto
  obtain r3 where r3: "fst (snd (phase3 lat ctx ?q st)) = ?q\<lparr>proxy_registry := r3\<rparr>"
    using phase_counters [of lat Context ctx "?q\<lparr>proxy_registry := r2\<rparr>" "snd (snd (phase2 lat ctx ?q st))"]
    unfolding phase3_def r2 by auto
  have "\<exists>d. fst (snd (evaluate exe sreg lat t ctx p st)) = record_decision d (fst (snd (phase1 lat ctx ?q st))) \<or>
            fst (snd (evaluate exe sreg lat t ctx p st)) = record_decision d (fst (snd (phase2 lat ctx ?q st))) \<or>
            fst (snd (evaluate exe sreg lat t ctx p st)) = record_decision d (fst (snd (phase3 lat ctx ?q st)))"
    by (simp add: evaluate_def Let_def case_prod_beta phase_defs thresholds_def) blast
  then show ?thesis unfolding r1 r2 r3 by auto
qed

lemma proxy_step_balanced:
  assumes "counters_balanced (fst ps)"
  shows "counters_balanced (fst (proxy_step exe sreg lat op ps))"
proof (cases ps; cases op)
  fix p st ctx t assume eq: "ps = (p, st)" "op = OpEvaluate ctx t"
  obtain reg d where "fst (snd (evaluate exe sreg lat t ctx p st)) =
      record_decision d (p\<lparr>call_count := call_count p + 1, proxy_registry := reg\<rparr>)"
    using evaluate_proxy [of exe sreg lat t ctx p st] by (elim exE)
  moreover have "counters_balanced (record_decision d (p\<lparr>call_count := call_count p + 1, proxy_registry := reg\<rparr>))"
    by (rule record_decision_balanced) (use assms eq in \<open>simp_all add: counters_balanced_def\<close>)
  ultimately show ?thesis using eq by simp
next
  fix p st ctx oc age assume eq: "ps = (p, st)" "op = OpObserve ctx oc age"
  with assms show ?thesis
    by (simp add: proxy_observe_outcome_def counters_balanced_def Let_def)
qed

text \<open>
  The telemetry adds up: after any sequence of evaluations and reported outcomes on a new
  proxy, the calls are exactly the allowed, queued and denied ones together, and the observations
  exactly the executed and suppressed ones, in the wrapping 64-bit arithmetic of the counters.
\<close>

theorem proxy_counters_balanced:
  fixes st :: 's
  shows
  "counters_balanced (fst (fold (proxy_step exe sreg lat) ops (proxy_new reg sc rules, st)))"
proof -
  have "counters_balanced (fst ps) \<Longrightarrow> counters_balanced (fst (fold (proxy_step exe sreg lat) ops ps))"
    for ps :: "'s security_proxy \<times> 's"
  proof (induction ops arbitrary: ps)
    case (Cons op ops)
    from Cons.IH [OF proxy_step_balanced [OF Cons.prems]] show ?case by simp
  qed simp
  moreover have "counters_balanced (proxy_new reg sc rules)"
    by (simp add: counters_balanced_def proxy_new_def)
  ultimately show ?thesis by simp
qed

subsection \<open>Failing filters\<close>

lemma run_filters_all_fail:
  assumes "\<And>f. f \<in> set fs \<Longrightarrow> \<exists>e. \<forall>st. fst (flt_evaluate f ctx st) = Inl e"
  shows "aggregate (fst (run_filters lat ctx fs ms st)) = 0"
  using assms
proof (induction fs arbitrary: ms st)
  case Nil
  then show ?case by simp
next
  case (Cons f fs)
  obtain e st1 where e: "flt_evaluate f ctx st = (Inl e, st1)"
    using Cons.prems [of f] by (metis list.set_intros(1) prod.collapse)
  then show ?case
    using Cons.IH [of "record_metrics (flt_name f) (lat (flt_name f)) ms" st1] Cons.prems
    by (auto simp: Let_def aggregate_Cons split: prod.splits)
qed

text \<open>
  The pipeline fails open: a filter that returns an error contributes nothing, so when every
  filter fails and no meta-rule is configured, the call is allowed with a composite of zero
  (under any non-negative allow and deny thresholds).
\<close>

theorem all_filters_failing_allows:
  fixes p :: "'s security_proxy"
  assumes "\<forall>f \<in> set (reg_filters (proxy_registry p)). \<exists>e. \<forall>st. fst (flt_evaluate f ctx st) = Inl e"
    and "proxy_meta_rules p = []"
    and "0 \<le> auto_allow_threshold (proxy_scoring p)" and "0 \<le> auto_deny_threshold (proxy_scoring p)"
  shows "action (fst (evaluate exe sreg lat t ctx p st)) = Allow \<and>
         composite_score (fst (evaluate exe sreg lat t ctx p st)) = 0"
proof -
  have z: "aggregate (fst (proxy_run_phase lat ph ctx q st')) = 0"
    if "reg_filters (proxy_registry q) = reg_filters (proxy_registry p)"
    for ph and q :: "'s security_proxy" and st'
  proof -
    have "aggregate (fst (run_filters lat ctx (filters_for_phase ph (proxy_registry q) st')
        (reg_metrics (proxy_registry q)) st')) = 0"
      using assms(1) that by (intro run_filters_all_fail) (simp add: filters_for_phase_def)
    then show ?thesis by (simp add: proxy_run_phase_def run_phase_def case_prod_beta)
  qed
  have "aggregate (fst (phase1 lat ctx p st)) = 0" "aggregate (fst (phase2 lat ctx p st)) = 0"
       "aggregate (fst (phase3 lat ctx p st)) = 0"
    unfolding phase1_def phase2_def phase3_def by (rule z; simp)+
  then show ?thesis
    using assms(2-4)
    by (simp add: evaluate_by_phases Let_def evaluate_all_eq final_score_def thresholds_def
        meta_evaluate_def maybe_clamp_ssh_connect_def routing_defs)
qed

theorem all_filters_failing_allows_witness:
  "action (fst (evaluate (\<lambda>_. None) registry_fresh (\<lambda>_. 1) 9 (context_new 1 0 ''agent'' (FileRead ''/x'') 2)
     (proxy_new (register ((sample_filter ''taint'' Context 2)\<lparr>flt_evaluate := (\<lambda>_ st. (Inl ''boom'', st))\<rparr>)
        filter_registry_new) scoring_default []) ())) = Allow"
  by (rule all_filters_failing_allows [THEN conjunct1])
    (simp_all add: proxy_new_def register_def filter_registry_new_def sample_filter_def scoring_default_def
      SCORE_QUEUE_THRESHOLD_def SCORE_DENY_THRESHOLD_def)

end
