(* ===== verification/Digest_Queue.thy ===== *)
theory Digest_Queue
  imports Proxy_Types "HOL-Library.Multiset"
begin

section \<open>The review digest: items and the queue table\<close>

text \<open>
  \<open>crates/grith-digest/src/types.rs\<close> and \<open>queue.rs\<close>. The queue is one SQLite table; the model keeps
  its rows in insertion order with the column types of the schema and gives each SQL statement of
  the source its meaning on that list. Text encodings by other crates (RFC 3339 times, UUIDs, the
  JSON of the filter breakdown) are the fields of a record \<open>codecs\<close> that the operations take;
  \<open>codecs_ok T\<close> states what the code relies on for times in the range \<open>T\<close> (years of four digits):
  what was rendered parses back, and rendered times compare, as text, like the times. The clock is an argument. Rows of equal score are returned in insertion
  order, one of the orders SQL permits.
\<close>

datatype digest_status = Pending | Approved | StatusDenied | Expired | Escalated

fun display_status :: "digest_status \<Rightarrow> string" where
  "display_status Pending = ''pending''"
| "display_status Approved = ''approved''"
| "display_status StatusDenied = ''denied''"
| "display_status Expired = ''expired''"
| "display_status Escalated = ''escalated''"

definition from_str_lossy :: "string \<Rightarrow> digest_status" where
  "from_str_lossy s =
     (if s = ''approved'' then Approved else if s = ''denied'' then StatusDenied
      else if s = ''expired'' then Expired else if s = ''escalated'' then Escalated else Pending)"

datatype score_severity = ScoreLow | ScoreMedium | ScoreHigh | ScoreCritical

definition severity_from_score :: "f64 \<Rightarrow> score_severity" where
  "severity_from_score s =
     (if s \<ge> 7 then ScoreCritical else if s \<ge> 11 / 2 then ScoreHigh
      else if s \<ge> 4 then ScoreMedium else ScoreLow)"

record filter_breakdown_rec =
  fb_filter_name :: string
  fb_score :: f64
  fb_rule_id :: string
  fb_message :: string

record digest_item =
  di_id :: uuid
  di_created_at :: instant
  di_session_id :: "uuid option"
  di_tool_call_type :: string
  di_arguments_summary :: string
  di_decision_reason :: "string option"
  di_composite_score :: f64
  di_severity :: score_severity
  di_filter_breakdown :: "filter_breakdown_rec list"
  di_task_context :: "string option"
  di_plugin_id :: string
  di_status :: digest_status
  di_reviewed_at :: "instant option"
  di_review_action :: "string option"
  di_reviewer_notes :: "string option"
  di_informational_only :: bool
  di_escalated_at :: "instant option"
  di_escalated_by :: "string option"

definition human_summary :: "digest_item \<Rightarrow> string" where
  "human_summary i =
     (let act =
        (if di_tool_call_type i = ''FileRead'' then ''read a file''
         else if di_tool_call_type i = ''FileWrite'' then ''write to a file''
         else if di_tool_call_type i = ''FileAppend'' then ''append to a file''
         else if di_tool_call_type i = ''FileDelete'' then ''delete a file''
         else if di_tool_call_type i = ''DirList'' then ''list a directory''
         else if di_tool_call_type i = ''ShellExec'' then ''execute a shell command''
         else if di_tool_call_type i = ''HttpRequest'' then ''make an HTTP request''
         else ''perform an action'')
      in ''Agent attempted to '' @ act @ '': '' @ di_arguments_summary i)"

definition is_actionable :: "digest_item \<Rightarrow> bool" where
  "is_actionable i \<longleftrightarrow> (di_status i = Pending \<or> di_status i = Escalated) \<and> \<not> di_informational_only i"

subsection \<open>Review actions as stored\<close>

record scoped_allow_request =
  sar_directory :: string
  sar_read :: bool
  sar_write :: bool
  sar_delete :: bool
  sar_persist :: bool

record scoped_deny_request =
  sdr_directory :: string
  sdr_read :: bool
  sdr_write :: bool
  sdr_delete :: bool

datatype permission_review_action =
    PApprove
  | PDeny
  | PApproveAndLearn
  | PScopedAllow scoped_allow_request
  | PScopedDeny scoped_deny_request
  | PDenyAndTerminate

fun is_approved :: "permission_review_action \<Rightarrow> bool" where
  "is_approved PApprove = True"
| "is_approved PApproveAndLearn = True"
| "is_approved (PScopedAllow _) = True"
| "is_approved _ = False"

fun to_storage_value :: "(permission_review_action \<Rightarrow> string) \<Rightarrow> permission_review_action \<Rightarrow> string" where
  "to_storage_value to_json PApprove = ''approve''"
| "to_storage_value to_json PDeny = ''deny''"
| "to_storage_value to_json PApproveAndLearn = ''approve_and_learn''"
| "to_storage_value to_json PDenyAndTerminate = ''deny_and_terminate''"
| "to_storage_value to_json a = to_json a"

definition from_storage_value ::
    "(string \<Rightarrow> permission_review_action option) \<Rightarrow> string \<Rightarrow> permission_review_action option" where
  "from_storage_value of_json v =
     (if v = ''approve'' then Some PApprove
      else if v = ''deny'' then Some PDeny
      else if v = ''approve_and_learn'' then Some PApproveAndLearn
      else if v = ''deny_and_terminate'' then Some PDenyAndTerminate
      else of_json v)"

subsection \<open>The table\<close>

record codecs =
  render_time :: "instant \<Rightarrow> string"
  parse_time :: "string \<Rightarrow> instant option"
  render_uuid :: "uuid \<Rightarrow> string"
  parse_uuid :: "string \<Rightarrow> uuid option"
  render_breakdown :: "filter_breakdown_rec list \<Rightarrow> string"
  parse_breakdown :: "string \<Rightarrow> filter_breakdown_rec list option"

fun bytes_less :: "string \<Rightarrow> string \<Rightarrow> bool" where
  "bytes_less _ [] = False"
| "bytes_less [] (_ # _) = True"
| "bytes_less (x # xs) (y # ys) =
     ((of_char x :: nat) < of_char y \<or> (x = y \<and> bytes_less xs ys))"

definition codecs_ok :: "instant set \<Rightarrow> codecs \<Rightarrow> bool" where
  "codecs_ok T c \<longleftrightarrow>
     (\<forall>t \<in> T. parse_time c (render_time c t) = Some t) \<and>
     (\<forall>u. parse_uuid c (render_uuid c u) = Some u) \<and>
     (\<forall>s \<in> T. \<forall>t \<in> T. bytes_less (render_time c s) (render_time c t) \<longleftrightarrow> s < t)"

record digest_row =
  row_id :: string
  row_created_at :: string
  row_session_id :: "string option"
  row_tool_call_type :: string
  row_arguments_summary :: string
  row_decision_reason :: "string option"
  row_composite_score :: f64
  row_filter_breakdown :: string
  row_task_context :: "string option"
  row_plugin_id :: string
  row_status :: string
  row_reviewed_at :: "string option"
  row_review_action :: "string option"
  row_reviewer_notes :: "string option"
  row_informational_only :: int
  row_escalated_at :: "string option"
  row_escalated_by :: "string option"

type_synonym digest_table = "digest_row list"

datatype digest_error =
    Database string
  | Serialization string
  | NotFound string
  | InvalidAction string

definition item_to_row :: "codecs \<Rightarrow> digest_item \<Rightarrow> digest_row" where
  "item_to_row c i =
     \<lparr> row_id = render_uuid c (di_id i), row_created_at = render_time c (di_created_at i),
       row_session_id = map_option (render_uuid c) (di_session_id i),
       row_tool_call_type = di_tool_call_type i, row_arguments_summary = di_arguments_summary i,
       row_decision_reason = di_decision_reason i, row_composite_score = di_composite_score i,
       row_filter_breakdown = render_breakdown c (di_filter_breakdown i),
       row_task_context = di_task_context i, row_plugin_id = di_plugin_id i,
       row_status = display_status (di_status i), row_reviewed_at = None, row_review_action = None,
       row_reviewer_notes = None, row_informational_only = (if di_informational_only i then 1 else 0),
       row_escalated_at = None, row_escalated_by = None \<rparr>"

text \<open>The row is read back; a corrupt UUID or time falls back to nil and to the current time.\<close>

definition row_to_item :: "codecs \<Rightarrow> instant \<Rightarrow> digest_row \<Rightarrow> digest_error + digest_item" where
  "row_to_item c now r =
     (case parse_breakdown c (row_filter_breakdown r) of
        None \<Rightarrow> Inl (Serialization (row_filter_breakdown r))
      | Some fb \<Rightarrow>
          Inr \<lparr> di_id = (case parse_uuid c (row_id r) of Some u \<Rightarrow> u | None \<Rightarrow> 0),
                di_created_at = (case parse_time c (row_created_at r) of Some t \<Rightarrow> t | None \<Rightarrow> now),
                di_session_id = Option.bind (row_session_id r) (parse_uuid c),
                di_tool_call_type = row_tool_call_type r,
                di_arguments_summary = row_arguments_summary r,
                di_decision_reason = row_decision_reason r,
                di_composite_score = row_composite_score r,
                di_severity = severity_from_score (row_composite_score r),
                di_filter_breakdown = fb,
                di_task_context = row_task_context r,
                di_plugin_id = row_plugin_id r,
                di_status = from_str_lossy (row_status r),
                di_reviewed_at = Option.bind (row_reviewed_at r) (parse_time c),
                di_review_action = row_review_action r,
                di_reviewer_notes = row_reviewer_notes r,
                di_informational_only = (row_informational_only r \<noteq> 0),
                di_escalated_at = Option.bind (row_escalated_at r) (parse_time c),
                di_escalated_by = row_escalated_by r \<rparr>)"

subsection \<open>Queue operations\<close>

definition enqueue :: "codecs \<Rightarrow> digest_item \<Rightarrow> digest_table \<Rightarrow> digest_error + digest_table" where
  "enqueue c i tab =
     (if render_uuid c (di_id i) \<in> row_id ` set tab
      then Inl (Database ''UNIQUE constraint failed: digest_queue.id'')
      else Inr (tab @ [item_to_row c i]))"

fun rows_to_items :: "codecs \<Rightarrow> instant \<Rightarrow> digest_row list \<Rightarrow> digest_error + digest_item list" where
  "rows_to_items c now [] = Inr []"
| "rows_to_items c now (r # rs) =
     (case row_to_item c now r of
        Inl e \<Rightarrow> Inl e
      | Inr i \<Rightarrow> (case rows_to_items c now rs of Inl e \<Rightarrow> Inl e | Inr is \<Rightarrow> Inr (i # is)))"

definition select_by_status :: "string list \<Rightarrow> nat \<Rightarrow> nat \<Rightarrow> digest_table \<Rightarrow> digest_row list" where
  "select_by_status sts limit offset tab =
     take limit (drop offset
       (sort_key (\<lambda>r. - row_composite_score r) (filter (\<lambda>r. row_status r \<in> set sts) tab)))"

definition get_pending ::
    "codecs \<Rightarrow> instant \<Rightarrow> nat \<Rightarrow> nat \<Rightarrow> digest_table \<Rightarrow> digest_error + digest_item list" where
  "get_pending c now limit offset tab =
     rows_to_items c now (select_by_status [''pending''] limit offset tab)"

definition get_actionable ::
    "codecs \<Rightarrow> instant \<Rightarrow> nat \<Rightarrow> nat \<Rightarrow> digest_table \<Rightarrow> digest_error + digest_item list" where
  "get_actionable c now limit offset tab =
     rows_to_items c now (select_by_status [''pending'', ''escalated''] limit offset tab)"

definition get_by_id :: "codecs \<Rightarrow> instant \<Rightarrow> uuid \<Rightarrow> digest_table \<Rightarrow> digest_error + digest_item" where
  "get_by_id c now i tab =
     (case find (\<lambda>r. row_id r = render_uuid c i) tab of
        None \<Rightarrow> Inl (NotFound (render_uuid c i))
      | Some r \<Rightarrow> row_to_item c now r)"

definition count_pending :: "digest_table \<Rightarrow> nat" where
  "count_pending tab = length (filter (\<lambda>r. row_status r = ''pending'') tab)"

definition count_all :: "digest_table \<Rightarrow> nat" where
  "count_all tab = length tab"

definition count_escalated :: "digest_table \<Rightarrow> nat" where
  "count_escalated tab = length (filter (\<lambda>r. row_status r = ''escalated'') tab)"

definition count_actionable :: "digest_table \<Rightarrow> nat" where
  "count_actionable tab = length (filter (\<lambda>r. row_status r \<in> {''pending'', ''escalated''}) tab)"

definition update_where :: "(digest_row \<Rightarrow> bool) \<Rightarrow> (digest_row \<Rightarrow> digest_row) \<Rightarrow> digest_table \<Rightarrow> digest_table" where
  "update_where P f tab = map (\<lambda>r. if P r then f r else r) tab"

definition update_status ::
    "codecs \<Rightarrow> instant \<Rightarrow> uuid \<Rightarrow> digest_status \<Rightarrow> string option \<Rightarrow> string option \<Rightarrow> digest_table \<Rightarrow>
     digest_error + digest_table" where
  "update_status c now i s act notes tab =
     (if render_uuid c i \<notin> row_id ` set tab then Inl (NotFound (render_uuid c i))
      else Inr (update_where (\<lambda>r. row_id r = render_uuid c i)
             (\<lambda>r. r\<lparr>row_status := display_status s, row_reviewed_at := Some (render_time c now),
                     row_review_action := act, row_reviewer_notes := notes\<rparr>) tab))"

definition expire_before :: "codecs \<Rightarrow> instant \<Rightarrow> digest_table \<Rightarrow> nat \<times> digest_table" where
  "expire_before c cutoff tab =
     (let P = (\<lambda>r. row_status r = ''pending'' \<and> bytes_less (row_created_at r) (render_time c cutoff))
      in (length (filter P tab), update_where P (\<lambda>r. r\<lparr>row_status := ''expired''\<rparr>) tab))"

definition bulk_clear_pending :: "codecs \<Rightarrow> instant \<Rightarrow> digest_table \<Rightarrow> nat \<times> digest_table" where
  "bulk_clear_pending c now tab =
     (let P = (\<lambda>r. row_status r \<in> {''pending'', ''escalated''})
      in (length (filter P tab),
          update_where P (\<lambda>r. r\<lparr>row_status := ''expired'', row_reviewed_at := Some (render_time c now),
                                row_review_action := Some ''clear''\<rparr>) tab))"

definition update_escalation ::
    "codecs \<Rightarrow> instant \<Rightarrow> uuid \<Rightarrow> string option \<Rightarrow> digest_table \<Rightarrow> digest_error + digest_table" where
  "update_escalation c now i who tab =
     (if render_uuid c i \<notin> row_id ` set tab then Inl (NotFound (render_uuid c i))
      else Inr (update_where (\<lambda>r. row_id r = render_uuid c i)
             (\<lambda>r. r\<lparr>row_status := ''escalated'', row_escalated_at := Some (render_time c now),
                     row_escalated_by := who\<rparr>) tab))"

subsection \<open>Lemmas\<close>

lemma status_round_trip [simp]: "from_str_lossy (display_status s) = s"
  by (cases s) (simp_all add: from_str_lossy_def)

lemma display_status_inj [simp]: "display_status a = display_status b \<longleftrightarrow> a = b"
  by (metis status_round_trip)

lemma display_status_eqs [simp]:
  "display_status s = ''pending'' \<longleftrightarrow> s = Pending"
  "display_status s = ''escalated'' \<longleftrightarrow> s = Escalated"
  "display_status s = ''expired'' \<longleftrightarrow> s = Expired"
  by (cases s; simp)+

lemma render_uuid_inj: "codecs_ok T c \<Longrightarrow> render_uuid c i = render_uuid c j \<longleftrightarrow> i = j"
  by (metis codecs_ok_def option.inject)

lemma update_where_ids [simp]:
  "(\<And>r. row_id (f r) = row_id r) \<Longrightarrow> map row_id (update_where P f tab) = map row_id tab"
  by (auto simp: update_where_def)

lemma find_update_where:
  assumes "\<And>r. Q (f r) = Q r"
  shows "find Q (update_where P f tab) = map_option (\<lambda>r. if P r then f r else r) (find Q tab)"
  using assms by (induction tab) (auto simp: update_where_def)

lemma find_new_row:
  "render_uuid c i \<notin> row_id ` set tab \<Longrightarrow> row_id r = render_uuid c i \<Longrightarrow>
   find (\<lambda>r. row_id r = render_uuid c i) (tab @ [r]) = Some r"
  by (induction tab) auto

lemma row_to_item_of_item:
  assumes "codecs_ok T c" and "di_created_at i \<in> T"
    and "parse_breakdown c (render_breakdown c (di_filter_breakdown i)) = Some (di_filter_breakdown i)"
  shows "row_to_item c now (item_to_row c i) =
    Inr (i\<lparr>di_severity := severity_from_score (di_composite_score i), di_reviewed_at := None,
           di_review_action := None, di_reviewer_notes := None, di_escalated_at := None,
           di_escalated_by := None\<rparr>)"
proof -
  have "Option.bind (map_option (render_uuid c) x) (parse_uuid c) = x" for x
    using assms(1) by (cases x) (auto simp: codecs_ok_def)
  then show ?thesis
    using assms by (simp add: row_to_item_def item_to_row_def codecs_ok_def)
qed

subsection \<open>Concrete codecs\<close>

text \<open>
  Codecs that satisfy the contract: unary numerals, whose textual order is the order of the times.
\<close>

definition sample_render_time :: "instant \<Rightarrow> string" where
  "sample_render_time t =
     (if 0 \<le> t then CHR ''b'' # replicate (nat t) CHR ''a''
      else CHR ''a'' # replicate (nat (- t)) CHR ''a'' @ [CHR ''b''])"

definition sample_codecs :: codecs where
  "sample_codecs =
     \<lparr> render_time = sample_render_time,
       parse_time = (\<lambda>s. if s = [] then None
                          else Some (if hd s = CHR ''b'' then int (length s) - 1 else 2 - int (length s))),
       render_uuid = (\<lambda>u. replicate (unat u) CHR ''a''),
       parse_uuid = (\<lambda>s. Some (of_nat (length s))),
       render_breakdown = (\<lambda>_. ''[]''), parse_breakdown = (\<lambda>_. Some []) \<rparr>"

lemma render_time_sample [simp]: "render_time sample_codecs = sample_render_time"
  by (simp add: sample_codecs_def)

lemma bytes_less_replicate:
  "bytes_less (replicate m x) (replicate n x) \<longleftrightarrow> m < n"
  by (induction m arbitrary: n; case_tac n) auto

lemma bytes_less_replicate_end:
  "bytes_less (replicate m CHR ''a'' @ [CHR ''b'']) (replicate n CHR ''a'' @ [CHR ''b'']) \<longleftrightarrow> n < m"
  by (induction m arbitrary: n; case_tac n) auto

lemma sample_render_time_less:
  "bytes_less (sample_render_time s) (sample_render_time t) \<longleftrightarrow> s < t"
  by (auto simp: sample_render_time_def bytes_less_replicate bytes_less_replicate_end)

lemma sample_codecs_ok: "codecs_ok T sample_codecs"
  by (auto simp: codecs_ok_def sample_codecs_def sample_render_time_less)
     (auto simp: sample_render_time_def split: if_splits)

definition sample_item :: digest_item where
  "sample_item =
     \<lparr> di_id = 7, di_created_at = 5, di_session_id = Some 3, di_tool_call_type = ''FileRead'',
       di_arguments_summary = ''~/.ssh/id_rsa'', di_decision_reason = None, di_composite_score = 6,
       di_severity = ScoreLow, di_filter_breakdown = [], di_task_context = None, di_plugin_id = ''p'',
       di_status = Pending, di_reviewed_at = None, di_review_action = None, di_reviewer_notes = None,
       di_informational_only = False, di_escalated_at = None, di_escalated_by = None \<rparr>"

abbreviation sample_row :: digest_row where
  "sample_row \<equiv> item_to_row sample_codecs sample_item"

lemma sample_row_simps [simp]:
  "row_id sample_row = ''aaaaaaa''"
  "row_status sample_row = ''pending''"
  "row_composite_score sample_row = 6"
  "row_created_at sample_row = sample_render_time 5"
proof -
  have "replicate 7 CHR ''a'' = ''aaaaaaa''" by (simp add: numeral_eq_Suc)
  then show "row_id sample_row = ''aaaaaaa''"
    by (simp add: item_to_row_def sample_codecs_def sample_item_def)
qed (simp_all add: item_to_row_def sample_codecs_def sample_item_def)

lemma sample_enqueue: "enqueue sample_codecs sample_item [] = Inr [sample_row]"
  by (simp add: enqueue_def)

subsection \<open>Properties\<close>

text \<open>
  An item put in the queue is read back as it was put in: every field survives the text
  columns, the severity is that of the score, and the review and escalation fields start empty.
  The JSON of its own breakdown has to parse back, and its time to lie in the range \<open>T\<close>.
\<close>

theorem enqueue_get_by_id:
  assumes "codecs_ok T c" and "di_created_at i \<in> T"
    and "parse_breakdown c (render_breakdown c (di_filter_breakdown i)) = Some (di_filter_breakdown i)"
    and "enqueue c i tab = Inr tab'"
  shows "get_by_id c now (di_id i) tab' =
    Inr (i\<lparr>di_severity := severity_from_score (di_composite_score i), di_reviewed_at := None,
           di_review_action := None, di_reviewer_notes := None, di_escalated_at := None,
           di_escalated_by := None\<rparr>)"
proof -
  from assms(4) have new: "render_uuid c (di_id i) \<notin> row_id ` set tab" and tab': "tab' = tab @ [item_to_row c i]"
    by (auto simp: enqueue_def split: if_splits)
  have "find (\<lambda>r. row_id r = render_uuid c (di_id i)) tab' = Some (item_to_row c i)"
    unfolding tab' by (rule find_new_row [OF new]) (simp add: item_to_row_def)
  then show ?thesis by (simp add: get_by_id_def row_to_item_of_item [OF assms(1-3)])
qed

theorem enqueue_get_by_id_witness:
  "get_by_id sample_codecs 9 7 [sample_row] = Inr (sample_item\<lparr>di_severity := ScoreHigh\<rparr>)"
  using enqueue_get_by_id [OF sample_codecs_ok [of UNIV] _ _ sample_enqueue, of 9]
  by (simp add: sample_item_def sample_codecs_def severity_from_score_def)

text \<open>
  The review page is the top of the queue: pending rows come highest score first, each is
  pending, and no pending row beyond the page outranks one on it.
\<close>

theorem pending_page_is_top:
  "sorted (map (\<lambda>r. - row_composite_score r) (select_by_status [''pending''] n 0 tab)) \<and>
   mset (select_by_status [''pending''] n 0 tab) \<subseteq># mset (filter (\<lambda>r. row_status r = ''pending'') tab) \<and>
   length (select_by_status [''pending''] n 0 tab) = min n (count_pending tab) \<and>
   (\<forall>r \<in> set (select_by_status [''pending''] n 0 tab).
      \<forall>r' \<in># mset (filter (\<lambda>r. row_status r = ''pending'') tab) - mset (select_by_status [''pending''] n 0 tab).
        row_composite_score r' \<le> row_composite_score r)"
proof -
  define srt where "srt = sort_key (\<lambda>r. - row_composite_score r) (filter (\<lambda>r. row_status r = ''pending'') tab)"
  have page: "select_by_status [''pending''] n 0 tab = take n srt"
    by (simp add: select_by_status_def srt_def)
  have m: "mset srt = mset (filter (\<lambda>r. row_status r = ''pending'') tab)" by (simp add: srt_def)
  have sorted: "sorted (map (\<lambda>r. - row_composite_score r) srt)" by (simp add: srt_def)
  have rest: "mset (filter (\<lambda>r. row_status r = ''pending'') tab) - mset (take n srt) = mset (drop n srt)"
    unfolding m [symmetric] by (metis add_diff_cancel_left' append_take_drop_id mset_append)
  have "sorted (map (\<lambda>r. - row_composite_score r) (take n srt))"
    using sorted by (metis sorted_wrt_take take_map)
  moreover have "mset (take n srt) \<subseteq># mset (filter (\<lambda>r. row_status r = ''pending'') tab)"
    unfolding m [symmetric] by (metis append_take_drop_id mset_append mset_subset_eq_add_left)
  moreover have "length (take n srt) = min n (count_pending tab)"
    by (simp add: srt_def count_pending_def)
  moreover have "\<forall>r \<in> set (take n srt). \<forall>r' \<in> set (drop n srt). row_composite_score r' \<le> row_composite_score r"
  proof -
    have "sorted (map (\<lambda>r. - row_composite_score r) (take n srt @ drop n srt))" using sorted by simp
    then show ?thesis unfolding map_append sorted_append by auto
  qed
  ultimately show ?thesis unfolding page rest by simp
qed

theorem pending_page_is_top_witness:
  "length (select_by_status [''pending''] 1 0 [sample_row, sample_row\<lparr>row_composite_score := 7\<rparr>]) = 1"
  using pending_page_is_top [of 1 "[sample_row, sample_row\<lparr>row_composite_score := 7\<rparr>]"]
  by (simp add: count_pending_def)

text \<open>
  Expiry is exact: it turns exactly the pending rows created before the cutoff into expired
  ones, leaves every other row and every other column alone, and reports how many it expired.
\<close>

theorem expire_before_exact:
  assumes "codecs_ok T c" and "cutoff \<in> T" and "expire_before c cutoff tab = (n, tab')"
    and "\<forall>r \<in> set tab. \<exists>t \<in> T. row_created_at r = render_time c t"
  shows "tab' = map (\<lambda>r. if row_status r = ''pending'' \<and> (\<exists>t \<in> T. t < cutoff \<and> row_created_at r = render_time c t)
                        then r\<lparr>row_status := ''expired''\<rparr> else r) tab \<and>
         n = length (filter (\<lambda>r. row_status r = ''pending'' \<and> (\<exists>t \<in> T. t < cutoff \<and> row_created_at r = render_time c t)) tab)"
proof -
  have old: "bytes_less (row_created_at r) (render_time c cutoff) \<longleftrightarrow> (\<exists>t \<in> T. t < cutoff \<and> row_created_at r = render_time c t)"
    if "r \<in> set tab" for r
    using assms(1,2,4) that unfolding codecs_ok_def by metis
  then show ?thesis
    using assms(3) by (auto simp: expire_before_def Let_def update_where_def cong: filter_cong map_cong)
qed

theorem expire_before_exact_witness:
  "expire_before sample_codecs 6 [sample_row] = (1, [sample_row\<lparr>row_status := ''expired''\<rparr>])"
proof -
  obtain n tab where e: "expire_before sample_codecs 6 [sample_row] = (n, tab)"
    by (cases "expire_before sample_codecs 6 [sample_row]")
  have old: "\<exists>t \<in> UNIV. t < 6 \<and> row_created_at sample_row = render_time sample_codecs t"
    by (rule bexI [of _ 5]) simp_all
  with expire_before_exact [OF sample_codecs_ok _ e, of UNIV] e show ?thesis by auto
qed

text \<open>
  Dismissing all items leaves nothing to act on, counts what it dismissed, and touches no row
  that was already settled.
\<close>

theorem bulk_clear_settles_all:
  assumes "bulk_clear_pending c now tab = (n, tab')"
  shows "count_actionable tab' = 0 \<and> n = count_actionable tab \<and> map row_id tab' = map row_id tab \<and>
         (\<forall>k < length tab. row_status (tab ! k) \<notin> {''pending'', ''escalated''} \<longrightarrow> tab' ! k = tab ! k)"
proof -
  from assms have "n = count_actionable tab"
      "tab' = update_where (\<lambda>r. row_status r \<in> {''pending'', ''escalated''})
          (\<lambda>r. r\<lparr>row_status := ''expired'', row_reviewed_at := Some (render_time c now), row_review_action := Some ''clear''\<rparr>) tab"
    by (auto simp: bulk_clear_pending_def Let_def count_actionable_def)
  then show ?thesis
    by (auto simp: update_where_def count_actionable_def filter_empty_conv)
qed

theorem bulk_clear_settles_all_witness:
  "count_actionable (snd (bulk_clear_pending sample_codecs 9 [sample_row, sample_row\<lparr>row_status := ''denied''\<rparr>])) = 0 \<and>
   snd (bulk_clear_pending sample_codecs 9 [sample_row, sample_row\<lparr>row_status := ''denied''\<rparr>]) ! 1 =
     sample_row\<lparr>row_status := ''denied''\<rparr>"
  using bulk_clear_settles_all [OF surjective_pairing, of sample_codecs 9 "[sample_row, sample_row\<lparr>row_status := ''denied''\<rparr>]"]
  by auto

text \<open>
  A stored review action parses back to itself, the plain actions and the scoped ones, if the
  JSON of a scoped action parses back and is an object (never one of the plain words).
\<close>

theorem storage_value_round_trip:
  assumes "\<forall>a. of_json (to_json a) = Some a" and "\<forall>a. prefix ''{'' (to_json a)"
  shows "from_storage_value of_json (to_storage_value to_json a) = Some a"
proof (cases a)
  case (PScopedAllow s)
  have "prefix ''{'' (to_json (PScopedAllow s))" using assms(2) by blast
  then have "to_json (PScopedAllow s) \<notin> {''approve'', ''deny'', ''approve_and_learn'', ''deny_and_terminate''}"
    by (cases "to_json (PScopedAllow s)") auto
  with PScopedAllow assms(1) show ?thesis by (simp add: from_storage_value_def)
next
  case (PScopedDeny s)
  have "prefix ''{'' (to_json (PScopedDeny s))" using assms(2) by blast
  then have "to_json (PScopedDeny s) \<notin> {''approve'', ''deny'', ''approve_and_learn'', ''deny_and_terminate''}"
    by (cases "to_json (PScopedDeny s)") auto
  with PScopedDeny assms(1) show ?thesis by (simp add: from_storage_value_def)
qed (simp_all add: from_storage_value_def)

definition sample_to_json :: "permission_review_action \<Rightarrow> string" where
  "sample_to_json a = (case a of
      PScopedAllow r \<Rightarrow> ''{a'' @ map (\<lambda>b. if b then CHR ''t'' else CHR ''f'')
        [sar_read r, sar_write r, sar_delete r, sar_persist r] @ sar_directory r
    | PScopedDeny r \<Rightarrow> ''{d'' @ map (\<lambda>b. if b then CHR ''t'' else CHR ''f'')
        [sdr_read r, sdr_write r, sdr_delete r] @ sdr_directory r
    | PApprove \<Rightarrow> ''{0'' | PDeny \<Rightarrow> ''{1'' | PApproveAndLearn \<Rightarrow> ''{2'' | PDenyAndTerminate \<Rightarrow> ''{3'')"

definition sample_of_json :: "string \<Rightarrow> permission_review_action option" where
  "sample_of_json s =
     (if s = ''{0'' then Some PApprove else if s = ''{1'' then Some PDeny
      else if s = ''{2'' then Some PApproveAndLearn else if s = ''{3'' then Some PDenyAndTerminate
      else if take 2 s = ''{a'' then
        Some (PScopedAllow \<lparr> sar_directory = drop 6 s, sar_read = (s ! 2 = CHR ''t''), sar_write = (s ! 3 = CHR ''t''),
          sar_delete = (s ! 4 = CHR ''t''), sar_persist = (s ! 5 = CHR ''t'') \<rparr>)
      else if take 2 s = ''{d'' then
        Some (PScopedDeny \<lparr> sdr_directory = drop 5 s, sdr_read = (s ! 2 = CHR ''t''), sdr_write = (s ! 3 = CHR ''t''),
          sdr_delete = (s ! 4 = CHR ''t'') \<rparr>)
      else None)"

lemma sample_json_ok: "sample_of_json (sample_to_json a) = Some a" "prefix ''{'' (sample_to_json a)"
  by (auto simp: sample_to_json_def sample_of_json_def numeral_eq_Suc split: permission_review_action.splits)

theorem storage_value_round_trip_witness:
  "from_storage_value sample_of_json (to_storage_value sample_to_json
      (PScopedDeny \<lparr> sdr_directory = ''/etc'', sdr_read = True, sdr_write = True, sdr_delete = False \<rparr>)) =
    Some (PScopedDeny \<lparr> sdr_directory = ''/etc'', sdr_read = True, sdr_write = True, sdr_delete = False \<rparr>)"
  using storage_value_round_trip [of sample_of_json sample_to_json] sample_json_ok by blast

end
