(* ===== verification/Digest_Actions.thy ===== *)
theory Digest_Actions
  imports Digest_Queue
begin

section \<open>Reviewing the digest and delivering it\<close>

text \<open>
  \<open>crates/grith-digest/src/actions.rs\<close> (approve, deny, escalate and the other reviews),
  \<open>ReviewAction\<close> of \<open>types.rs\<close>, and the delivery loop of \<open>scheduler.rs\<close>. A review reads the item
  with one statement and writes it with another; \<open>digest_op\<close> runs whole operations one after the
  other, and the race between two reviewers is stated on the two statements themselves.
  The lifecycle of an item is the relation \<open>status_step\<close>, which every operation refines.
\<close>

datatype review_action =
    RApprove | RDeny | RApproveAndLearn | REscalate | RUnlockEgress | RDenyAndTerminate | RAllowAlways

fun display_review_action :: "review_action \<Rightarrow> string" where
  "display_review_action RApprove = ''approve''"
| "display_review_action RDeny = ''deny''"
| "display_review_action RApproveAndLearn = ''approve_and_learn''"
| "display_review_action REscalate = ''escalate''"
| "display_review_action RUnlockEgress = ''unlock_egress''"
| "display_review_action RDenyAndTerminate = ''deny_and_terminate''"
| "display_review_action RAllowAlways = ''allow_always''"

subsection \<open>Actions\<close>

definition validate_actionable ::
    "codecs \<Rightarrow> instant \<Rightarrow> uuid \<Rightarrow> digest_table \<Rightarrow> digest_error + unit" where
  "validate_actionable c now i tab =
     (case get_by_id c now i tab of
        Inl e \<Rightarrow> Inl e
      | Inr it \<Rightarrow>
          if di_status it \<noteq> Pending \<and> di_status it \<noteq> Escalated
          then Inl (InvalidAction (''item '' @ render_uuid c i @ '' is already '' @
                 display_status (di_status it) @ '' and cannot be reviewed''))
          else if di_informational_only it
          then Inl (InvalidAction (''item '' @ render_uuid c i @
                 '' is informational only (auto-denied) and cannot be approved''))
          else Inr ())"

definition validate_escalatable ::
    "codecs \<Rightarrow> instant \<Rightarrow> uuid \<Rightarrow> digest_table \<Rightarrow> digest_error + unit" where
  "validate_escalatable c now i tab =
     (case get_by_id c now i tab of
        Inl e \<Rightarrow> Inl e
      | Inr it \<Rightarrow>
          if di_status it \<noteq> Pending
          then Inl (InvalidAction (''item '' @ render_uuid c i @ '' is '' @
                 display_status (di_status it) @ '' and can only be escalated from pending status''))
          else if di_informational_only it
          then Inl (InvalidAction (''item '' @ render_uuid c i @
                 '' is informational only and cannot be escalated''))
          else Inr ())"

definition approve :: "codecs \<Rightarrow> instant \<Rightarrow> uuid \<Rightarrow> digest_table \<Rightarrow> digest_error + digest_table" where
  "approve c now i tab = (case validate_actionable c now i tab of
      Inl e \<Rightarrow> Inl e
    | Inr _ \<Rightarrow> update_status c now i Approved (Some ''approve'') None tab)"

definition deny :: "codecs \<Rightarrow> instant \<Rightarrow> uuid \<Rightarrow> digest_table \<Rightarrow> digest_error + digest_table" where
  "deny c now i tab = (case validate_actionable c now i tab of
      Inl e \<Rightarrow> Inl e
    | Inr _ \<Rightarrow> update_status c now i StatusDenied (Some ''deny'') None tab)"

definition approve_and_learn :: "codecs \<Rightarrow> instant \<Rightarrow> uuid \<Rightarrow> digest_table \<Rightarrow> digest_error + digest_table" where
  "approve_and_learn c now i tab = (case validate_actionable c now i tab of
      Inl e \<Rightarrow> Inl e
    | Inr _ \<Rightarrow> update_status c now i Approved (Some ''approve_and_learn'') None tab)"

definition add_notes ::
    "codecs \<Rightarrow> instant \<Rightarrow> uuid \<Rightarrow> string \<Rightarrow> digest_table \<Rightarrow> digest_error + digest_table" where
  "add_notes c now i notes tab = (case get_by_id c now i tab of
      Inl e \<Rightarrow> Inl e
    | Inr it \<Rightarrow> update_status c now i (di_status it) (di_review_action it) (Some notes) tab)"

definition escalate ::
    "codecs \<Rightarrow> instant \<Rightarrow> uuid \<Rightarrow> string option \<Rightarrow> digest_table \<Rightarrow> digest_error + digest_table" where
  "escalate c now i who tab = (case validate_escalatable c now i tab of
      Inl e \<Rightarrow> Inl e
    | Inr _ \<Rightarrow> update_escalation c now i who tab)"

definition unlock_egress :: "codecs \<Rightarrow> instant \<Rightarrow> uuid \<Rightarrow> digest_table \<Rightarrow> digest_error + digest_table" where
  "unlock_egress c now i tab = (case validate_actionable c now i tab of
      Inl e \<Rightarrow> Inl e
    | Inr _ \<Rightarrow> update_status c now i Approved (Some ''unlock_egress'') None tab)"

definition deny_and_terminate :: "codecs \<Rightarrow> instant \<Rightarrow> uuid \<Rightarrow> digest_table \<Rightarrow> digest_error + digest_table" where
  "deny_and_terminate c now i tab = (case validate_actionable c now i tab of
      Inl e \<Rightarrow> Inl e
    | Inr _ \<Rightarrow> update_status c now i StatusDenied (Some ''deny_and_terminate'') None tab)"

definition allow_always :: "codecs \<Rightarrow> instant \<Rightarrow> uuid \<Rightarrow> digest_table \<Rightarrow> digest_error + digest_table" where
  "allow_always c now i tab = (case validate_actionable c now i tab of
      Inl e \<Rightarrow> Inl e
    | Inr _ \<Rightarrow> update_status c now i Approved (Some ''allow_always'') None tab)"

fun review_outcome :: "review_action \<Rightarrow> (digest_status \<times> string) option" where
  "review_outcome RApprove = Some (Approved, ''approve'')"
| "review_outcome RDeny = Some (StatusDenied, ''deny'')"
| "review_outcome RApproveAndLearn = Some (Approved, ''approve_and_learn'')"
| "review_outcome REscalate = None"
| "review_outcome RUnlockEgress = Some (Approved, ''unlock_egress'')"
| "review_outcome RDenyAndTerminate = Some (StatusDenied, ''deny_and_terminate'')"
| "review_outcome RAllowAlways = Some (Approved, ''allow_always'')"

definition review ::
    "codecs \<Rightarrow> instant \<Rightarrow> uuid \<Rightarrow> review_action \<Rightarrow> string option \<Rightarrow> digest_table \<Rightarrow>
     digest_error + digest_table" where
  "review c now i act notes tab =
     (if act = REscalate then escalate c now i None tab
      else case validate_actionable c now i tab of
          Inl e \<Rightarrow> Inl e
        | Inr _ \<Rightarrow> (case review_outcome act of
              None \<Rightarrow> Inl (InvalidAction ''escalate should be handled before this point'')
            | Some (s, a) \<Rightarrow> update_status c now i s (Some a) notes tab))"

text \<open>The operations on the queue as a sum; an operation that fails leaves the table.\<close>

datatype digest_op =
    OpEnqueue digest_item
  | OpApprove uuid
  | OpDeny uuid
  | OpApproveAndLearn uuid
  | OpAddNotes uuid string
  | OpEscalate uuid "string option"
  | OpUnlockEgress uuid
  | OpDenyAndTerminate uuid
  | OpAllowAlways uuid
  | OpReview uuid review_action "string option"
  | OpExpireBefore instant
  | OpBulkClear

definition or_unchanged :: "digest_table \<Rightarrow> digest_error + digest_table \<Rightarrow> digest_table" where
  "or_unchanged tab r = (case r of Inl _ \<Rightarrow> tab | Inr tab' \<Rightarrow> tab')"

fun run_op :: "codecs \<Rightarrow> instant \<Rightarrow> digest_op \<Rightarrow> digest_table \<Rightarrow> digest_table" where
  "run_op c now (OpEnqueue i) tab = or_unchanged tab (enqueue c i tab)"
| "run_op c now (OpApprove i) tab = or_unchanged tab (approve c now i tab)"
| "run_op c now (OpDeny i) tab = or_unchanged tab (deny c now i tab)"
| "run_op c now (OpApproveAndLearn i) tab = or_unchanged tab (approve_and_learn c now i tab)"
| "run_op c now (OpAddNotes i n) tab = or_unchanged tab (add_notes c now i n tab)"
| "run_op c now (OpEscalate i w) tab = or_unchanged tab (escalate c now i w tab)"
| "run_op c now (OpUnlockEgress i) tab = or_unchanged tab (unlock_egress c now i tab)"
| "run_op c now (OpDenyAndTerminate i) tab = or_unchanged tab (deny_and_terminate c now i tab)"
| "run_op c now (OpAllowAlways i) tab = or_unchanged tab (allow_always c now i tab)"
| "run_op c now (OpReview i a n) tab = or_unchanged tab (review c now i a n tab)"
| "run_op c now (OpExpireBefore t) tab = snd (expire_before c t tab)"
| "run_op c now OpBulkClear tab = snd (bulk_clear_pending c now tab)"

fun run_ops :: "codecs \<Rightarrow> (instant \<times> digest_op) list \<Rightarrow> digest_table \<Rightarrow> digest_table" where
  "run_ops c [] tab = tab"
| "run_ops c ((now, op) # rest) tab = run_ops c rest (run_op c now op tab)"

subsection \<open>The lifecycle of an item\<close>

inductive status_step :: "bool \<Rightarrow> digest_status \<Rightarrow> digest_status \<Rightarrow> bool" for info where
  stay: "status_step info s s"
| settle: "\<not> info \<Longrightarrow> s \<in> {Pending, Escalated} \<Longrightarrow> t \<in> {Approved, StatusDenied} \<Longrightarrow> status_step info s t"
| escalated: "\<not> info \<Longrightarrow> status_step info Pending Escalated"
| expired: "status_step info Pending Expired"
| cleared: "status_step info Escalated Expired"

inductive_cases settled_stepE:
  "status_step info Approved t"
  "status_step info StatusDenied t"
  "status_step info Expired t"

inductive_cases informational_stepE: "status_step True s t"

definition settled :: "digest_status \<Rightarrow> bool" where
  "settled s \<longleftrightarrow> s \<in> {Approved, StatusDenied, Expired}"

definition row_of :: "string \<Rightarrow> digest_table \<Rightarrow> digest_row option" where
  "row_of k tab = find (\<lambda>r. row_id r = k) tab"

definition row_info :: "digest_row \<Rightarrow> bool" where
  "row_info r \<longleftrightarrow> row_informational_only r \<noteq> 0"

definition statuses_valid :: "digest_table \<Rightarrow> bool" where
  "statuses_valid tab \<longleftrightarrow> (\<forall>r \<in> set tab. row_status r \<in> range display_status)"

text \<open>One operation moves every row by a step of the lifecycle, and no row leaves the table.\<close>

definition table_step :: "digest_table \<Rightarrow> digest_table \<Rightarrow> bool" where
  "table_step tab tab' \<longleftrightarrow> statuses_valid tab' \<and>
     (\<forall>k r. row_of k tab = Some r \<longrightarrow> (\<exists>r'. row_of k tab' = Some r' \<and> row_info r' = row_info r \<and>
        status_step (row_info r) (from_str_lossy (row_status r)) (from_str_lossy (row_status r'))))"

lemma settled_step: "status_step info s t \<Longrightarrow> settled s \<Longrightarrow> t = s"
  by (auto simp: settled_def elim: settled_stepE)

lemma informational_step: "status_step True s t \<Longrightarrow> t \<noteq> s \<Longrightarrow> t = Expired"
  by (auto elim: informational_stepE)

lemma row_of_in: "row_of k tab = Some r \<Longrightarrow> r \<in> set tab \<and> row_id r = k"
  by (auto simp: row_of_def find_Some_iff in_set_conv_nth)

lemma row_of_none: "k \<notin> row_id ` set tab \<longleftrightarrow> row_of k tab = None"
  by (auto simp: row_of_def find_None_iff)

lemma row_of_update:
  "(\<And>r. row_id (f r) = row_id r) \<Longrightarrow>
   row_of k (update_where P f tab) = map_option (\<lambda>r. if P r then f r else r) (row_of k tab)"
  unfolding row_of_def by (rule find_update_where) simp

lemma row_of_append: "row_of k (tab @ [r]) = (case row_of k tab of None \<Rightarrow> if row_id r = k then Some r else None | Some x \<Rightarrow> Some x)"
  by (induction tab) (auto simp: row_of_def)

lemma table_step_refl: "statuses_valid tab \<Longrightarrow> table_step tab tab"
  by (auto simp: table_step_def stay)

lemma table_step_update:
  assumes "statuses_valid tab"
    and "\<And>r. row_id (f r) = row_id r" and "\<And>r. row_informational_only (f r) = row_informational_only r"
    and "\<And>r. r \<in> set tab \<Longrightarrow> P r \<Longrightarrow> row_status (f r) \<in> range display_status"
    and "\<And>k r. row_of k tab = Some r \<Longrightarrow> P r \<Longrightarrow>
           status_step (row_info r) (from_str_lossy (row_status r)) (from_str_lossy (row_status (f r)))"
  shows "table_step tab (update_where P f tab)"
proof -
  have "statuses_valid (update_where P f tab)"
    using assms(1,4) by (auto simp: statuses_valid_def update_where_def)
  then show ?thesis
    using assms(2,3,5) by (auto simp: table_step_def row_of_update row_info_def stay)
qed

lemma get_by_id_fields:
  assumes "get_by_id c now i tab = Inr it"
  obtains r where "row_of (render_uuid c i) tab = Some r" "di_status it = from_str_lossy (row_status r)"
    "di_informational_only it = row_info r" "di_review_action it = row_review_action r"
  using assms
  by (auto simp: get_by_id_def row_of_def row_to_item_def row_info_def split: option.splits)

lemma validate_actionableD:
  assumes "validate_actionable c now i tab = Inr u"
  obtains r where "row_of (render_uuid c i) tab = Some r" "\<not> row_info r"
    "from_str_lossy (row_status r) \<in> {Pending, Escalated}"
  using assms
  by (auto simp: validate_actionable_def split: sum.splits if_splits elim!: get_by_id_fields)

lemma validate_escalatableD:
  assumes "validate_escalatable c now i tab = Inr u"
  obtains r where "row_of (render_uuid c i) tab = Some r" "\<not> row_info r"
    "from_str_lossy (row_status r) = Pending"
  using assms
  by (auto simp: validate_escalatable_def split: sum.splits if_splits elim!: get_by_id_fields)

lemma same_key: "row_of k tab = Some r \<Longrightarrow> row_id r = j \<Longrightarrow> row_of j tab = Some r"
  using row_of_in by blast

lemma table_step_update_status:
  assumes "statuses_valid tab"
    and "\<And>r. row_of (render_uuid c i) tab = Some r \<Longrightarrow> status_step (row_info r) (from_str_lossy (row_status r)) s"
  shows "table_step tab (or_unchanged tab (update_status c now i s act notes tab))"
proof (cases "render_uuid c i \<in> row_id ` set tab")
  case True
  have "status_step (row_info r) (from_str_lossy (row_status r)) s"
    if "row_of k tab = Some r" "row_id r = render_uuid c i" for k r
    by (rule assms(2) [OF same_key [OF that]])
  with assms(1) True show ?thesis
    by (auto simp: update_status_def or_unchanged_def intro!: table_step_update)
qed (use assms(1) in \<open>simp add: update_status_def or_unchanged_def table_step_refl\<close>)

lemma table_step_review:
  assumes "statuses_valid tab" and "s \<in> {Approved, StatusDenied}"
  shows "table_step tab (or_unchanged tab (case validate_actionable c now i tab of Inl e \<Rightarrow> Inl e
           | Inr u \<Rightarrow> update_status c now i s act notes tab))"
proof (cases "validate_actionable c now i tab")
  case (Inl e)
  then show ?thesis using assms by (simp add: or_unchanged_def table_step_refl)
next
  case (Inr u)
  then obtain r where "row_of (render_uuid c i) tab = Some r" "\<not> row_info r"
      "from_str_lossy (row_status r) \<in> {Pending, Escalated}" by (rule validate_actionableD)
  then show ?thesis
    using assms Inr by (auto intro!: table_step_update_status settle)
qed

lemma table_step_escalate:
  assumes "statuses_valid tab"
  shows "table_step tab (or_unchanged tab (escalate c now i who tab))"
proof (cases "validate_escalatable c now i tab")
  case (Inl e)
  then show ?thesis using assms by (simp add: escalate_def or_unchanged_def table_step_refl)
next
  case (Inr u)
  then obtain r where r: "row_of (render_uuid c i) tab = Some r" "\<not> row_info r"
      "from_str_lossy (row_status r) = Pending" by (rule validate_escalatableD)
  have esc: "''escalated'' = display_status Escalated" by simp
  have mem: "render_uuid c i \<in> row_id ` set tab" using row_of_in [OF r(1)] by force
  have step: "status_step (row_info r') (from_str_lossy (row_status r')) (from_str_lossy ''escalated'')"
    if "row_of k tab = Some r'" "row_id r' = render_uuid c i" for k r'
    using same_key [OF that] r unfolding esc status_round_trip by (auto intro: status_step.escalated)
  have rng: "''escalated'' \<in> range display_status" by (metis esc rangeI)
  have "table_step tab (update_where (\<lambda>r. row_id r = render_uuid c i)
      (\<lambda>r. r\<lparr>row_status := ''escalated'', row_escalated_at := Some (render_time c now), row_escalated_by := who\<rparr>) tab)"
    by (rule table_step_update [OF assms]) (simp_all add: rng step)
  then show ?thesis using Inr mem by (simp add: escalate_def update_escalation_def or_unchanged_def)
qed

lemma table_step_add_notes:
  assumes "statuses_valid tab"
  shows "table_step tab (or_unchanged tab (add_notes c now i notes tab))"
proof (cases "get_by_id c now i tab")
  case (Inl e)
  then show ?thesis using assms by (simp add: add_notes_def or_unchanged_def table_step_refl)
next
  case (Inr it)
  then obtain r where "row_of (render_uuid c i) tab = Some r" "di_status it = from_str_lossy (row_status r)"
    by (rule get_by_id_fields)
  then show ?thesis
    using assms Inr by (auto simp: add_notes_def intro!: table_step_update_status stay)
qed

lemma table_step_enqueue:
  assumes "statuses_valid tab"
  shows "table_step tab (or_unchanged tab (enqueue c i tab))"
  using assms
  by (auto simp: enqueue_def or_unchanged_def table_step_def row_of_append statuses_valid_def item_to_row_def stay)

lemma table_step_expiry:
  assumes "statuses_valid tab" and "\<And>r. P r \<Longrightarrow> row_status r \<in> {''pending'', ''escalated''}"
    and "\<And>r. row_id (f r) = row_id r" and "\<And>r. row_informational_only (f r) = row_informational_only r"
    and "\<And>r. row_status (f r) = ''expired''"
  shows "table_step tab (update_where P f tab)"
proof (rule table_step_update [OF assms(1,3,4)])
  have e: "''expired'' = display_status Expired" by simp
  show "row_status (f r) \<in> range display_status" for r by (metis assms(5) e rangeI)
  show "status_step (row_info r) (from_str_lossy (row_status r)) (from_str_lossy (row_status (f r)))"
    if "P r" for r
    using assms(2) [OF that] unfolding assms(5)
    by (auto simp: from_str_lossy_def status_step.expired status_step.cleared)
qed

lemma table_step_run_op:
  assumes "statuses_valid tab"
  shows "table_step tab (run_op c now op tab)"
proof (cases op)
  case (OpReview i a n)
  then show ?thesis
    by (cases a) (simp_all add: review_def table_step_review table_step_escalate assms cong: sum.case_cong)
next
  case (OpExpireBefore t)
  then show ?thesis
    using assms by (auto simp: expire_before_def Let_def intro!: table_step_expiry)
next
  case OpBulkClear
  then show ?thesis
    using assms by (auto simp: bulk_clear_pending_def Let_def intro!: table_step_expiry)
qed (simp_all add: approve_def deny_def approve_and_learn_def unlock_egress_def deny_and_terminate_def
      allow_always_def table_step_review table_step_enqueue table_step_add_notes table_step_escalate assms)


lemma sample_statuses_valid: "statuses_valid [sample_row]"
  by (simp add: statuses_valid_def) (metis display_status.simps(1) rangeI)


lemma run_ops_step:
  assumes "statuses_valid tab" and "row_of k tab = Some r"
  shows "\<exists>r'. row_of k (run_ops c ops tab) = Some r' \<and> row_info r' = row_info r \<and>
    (status_step (row_info r))\<^sup>*\<^sup>* (from_str_lossy (row_status r)) (from_str_lossy (row_status r'))"
  using assms
proof (induction c ops tab arbitrary: r rule: run_ops.induct)
  case (1 c tab)
  then show ?case by simp
next
  case (2 c now op rest tab)
  have "table_step tab (run_op c now op tab)" by (rule table_step_run_op [OF 2(2)])
  then obtain r1 where r1: "statuses_valid (run_op c now op tab)" "row_of k (run_op c now op tab) = Some r1"
      "row_info r1 = row_info r"
      "status_step (row_info r) (from_str_lossy (row_status r)) (from_str_lossy (row_status r1))"
    using 2(3) by (auto simp: table_step_def)
  with "2.IH" [OF r1(1,2)] show ?case by (auto intro: converse_rtranclp_into_rtranclp)
qed

lemma settled_steps: "(status_step info)\<^sup>*\<^sup>* s t \<Longrightarrow> settled s \<Longrightarrow> t = s"
  by (induction rule: rtranclp_induct) (auto dest: settled_step)

lemma informational_steps: "(status_step True)\<^sup>*\<^sup>* s t \<Longrightarrow> t = s \<or> t = Expired"
  by (induction rule: rtranclp_induct) (auto dest: informational_step)



text \<open>
  A review reads and writes with two statements, and the write has no guard of its own: when
  another reviewer denies the item between the two, the first reviewer's approval still goes
  through and the denied item ends up approved.
\<close>

theorem approve_overwrites_concurrent_deny:
  assumes "validate_actionable c now i tab = Inr ()" and "deny c now' i tab = Inr tab1"
  shows "\<exists>r tab2 r'. row_of (render_uuid c i) tab1 = Some r \<and> row_status r = ''denied'' \<and>
    update_status c now'' i Approved (Some ''approve'') None tab1 = Inr tab2 \<and>
    row_of (render_uuid c i) tab2 = Some r' \<and> row_status r' = ''approved'' \<and>
    row_review_action r' = Some ''approve''"
proof -
  from assms(1) obtain r where r: "row_of (render_uuid c i) tab = Some r" by (rule validate_actionableD)
  then have mem: "render_uuid c i \<in> row_id ` set tab" and id: "row_id r = render_uuid c i"
    using row_of_in by force+
  from assms(2) have "update_status c now' i StatusDenied (Some ''deny'') None tab = Inr tab1"
    by (auto simp: deny_def split: sum.splits)
  with mem have tab1: "tab1 = update_where (\<lambda>r. row_id r = render_uuid c i)
      (\<lambda>r. r\<lparr>row_status := ''denied'', row_reviewed_at := Some (render_time c now'),
             row_review_action := Some ''deny'', row_reviewer_notes := None\<rparr>) tab"
    by (simp add: update_status_def)
  have r1: "row_of (render_uuid c i) tab1 = Some (r\<lparr>row_status := ''denied'', row_reviewed_at := Some (render_time c now'),
      row_review_action := Some ''deny'', row_reviewer_notes := None\<rparr>)"
    unfolding tab1 using r id by (subst row_of_update) auto
  then have mem1: "render_uuid c i \<in> row_id ` set tab1" by (metis row_of_none option.distinct(1))
  from r1 id show ?thesis
    unfolding update_status_def by (auto simp: mem1 row_of_update)
qed

lemma sample_validate: "validate_actionable sample_codecs 9 7 [sample_row] = Inr ()"
proof -
  have "get_by_id sample_codecs 9 7 [sample_row] = row_to_item sample_codecs 9 sample_row"
    by (simp add: get_by_id_def item_to_row_def sample_item_def sample_codecs_def)
  also have "\<dots> = Inr (sample_item\<lparr>di_severity := ScoreHigh\<rparr>)"
    by (subst row_to_item_of_item [OF sample_codecs_ok [of UNIV]])
       (simp_all add: sample_item_def sample_codecs_def severity_from_score_def)
  finally show ?thesis by (simp add: validate_actionable_def sample_item_def)
qed

theorem approve_overwrites_concurrent_deny_witness:
  "\<exists>tab1 tab2 r'. deny sample_codecs 9 7 [sample_row] = Inr tab1 \<and>
    update_status sample_codecs 9 7 Approved (Some ''approve'') None tab1 = Inr tab2 \<and>
    row_of (render_uuid sample_codecs 7) tab2 = Some r' \<and> row_status r' = ''approved''"
proof -
  have "render_uuid sample_codecs 7 \<in> row_id ` set [sample_row]"
    by (simp add: item_to_row_def sample_item_def)
  then obtain tab1 where d: "deny sample_codecs 9 7 [sample_row] = Inr tab1"
    by (auto simp: deny_def sample_validate update_status_def)
  from approve_overwrites_concurrent_deny [OF sample_validate d, of 9] d show ?thesis by blast
qed

end
