(* ===== verification/Digest_Scheduler.thy ===== *)
theory Digest_Scheduler
  imports Digest_Queue
begin

section \<open>The digest delivery loop\<close>

text \<open>
  \<open>crates/grith-digest/src/scheduler.rs\<close>. One turn of the \<open>tokio::select!\<close> loop is
  \<open>scheduler_turn\<close>: it takes the event that woke the loop, the clock readings of the branch and of
  the idle check, and the table as each of the two reads finds it (other tasks write to the queue
  in between). It returns the batches handed to the delivery channel and the next loop state, or
  None when the loop ends. What a channel does with a batch is outside; the loop only logs its
  errors.
\<close>

record scheduler_config =
  active_interval :: duration
  idle_interval :: duration
  idle_timeout :: duration
  max_queue_size :: nat

definition scheduler_config_default :: scheduler_config where
  "scheduler_config_default =
     \<lparr> active_interval = secs (30 * 60), idle_interval = secs (24 * 60 * 60),
       idle_timeout = secs (60 * 60), max_queue_size = 100 \<rparr>"

datatype scheduler_event = Slept | ActivityNotified | ImmediateNotified | ShutdownNotified

record loop_state =
  last_activity_at :: instant
  idle :: bool

definition deliver_pending ::
    "scheduler_config \<Rightarrow> codecs \<Rightarrow> instant \<Rightarrow> digest_table \<Rightarrow> digest_item list list \<times> bool" where
  "deliver_pending cfg c now tab =
     (case get_pending c now (max_queue_size cfg) 0 tab of
        Inr is \<Rightarrow> if is \<noteq> [] then ([is], True) else ([], False)
      | Inl _ \<Rightarrow> ([], False))"

definition should_force_delivery :: "scheduler_config \<Rightarrow> digest_table \<Rightarrow> bool" where
  "should_force_delivery cfg tab \<longleftrightarrow> max_queue_size cfg \<le> count_pending tab"

definition wait_interval :: "scheduler_config \<Rightarrow> loop_state \<Rightarrow> duration" where
  "wait_interval cfg st = (if idle st then idle_interval cfg else active_interval cfg)"

fun branch ::
    "scheduler_config \<Rightarrow> codecs \<Rightarrow> scheduler_event \<Rightarrow> instant \<Rightarrow> digest_table \<Rightarrow> loop_state \<Rightarrow>
     digest_item list list \<times> loop_state option" where
  "branch cfg c Slept now tab st =
     (case deliver_pending cfg c now tab of (out, delivered) \<Rightarrow>
        (out, Some (if delivered then \<lparr>last_activity_at = now, idle = False\<rparr> else st)))"
| "branch cfg c ActivityNotified now tab st =
     (fst (deliver_pending cfg c now tab), Some \<lparr>last_activity_at = now, idle = False\<rparr>)"
| "branch cfg c ImmediateNotified now tab st = (fst (deliver_pending cfg c now tab), Some st)"
| "branch cfg c ShutdownNotified now tab st = (fst (deliver_pending cfg c now tab), None)"

definition idle_check :: "scheduler_config \<Rightarrow> instant \<Rightarrow> loop_state \<Rightarrow> loop_state" where
  "idle_check cfg now st =
     (if \<not> idle st \<and> int (idle_timeout cfg) \<le> now - last_activity_at st then st\<lparr>idle := True\<rparr> else st)"

definition scheduler_turn ::
    "scheduler_config \<Rightarrow> codecs \<Rightarrow> scheduler_event \<Rightarrow> instant \<Rightarrow> digest_table \<Rightarrow> instant \<Rightarrow> digest_table \<Rightarrow>
     loop_state \<Rightarrow> digest_item list list \<times> loop_state option" where
  "scheduler_turn cfg c ev t1 tab1 t2 tab2 st =
     (case branch cfg c ev t1 tab1 st of
        (out, None) \<Rightarrow> (out, None)
      | (out, Some st1) \<Rightarrow>
          (out @ (if max_queue_size cfg \<le> count_pending tab2 then fst (deliver_pending cfg c t2 tab2) else []),
           Some (idle_check cfg t2 st1)))"

text \<open>Runs of the loop: the inputs of each turn, the batches in order, and whether it still runs.\<close>

fun run_scheduler ::
    "scheduler_config \<Rightarrow> codecs \<Rightarrow> (scheduler_event \<times> instant \<times> digest_table \<times> instant \<times> digest_table) list \<Rightarrow>
     loop_state \<Rightarrow> digest_item list list \<times> loop_state option" where
  "run_scheduler cfg c [] st = ([], Some st)"
| "run_scheduler cfg c ((ev, t1, tab1, t2, tab2) # turns) st =
     (case scheduler_turn cfg c ev t1 tab1 t2 tab2 st of
        (out, None) \<Rightarrow> (out, None)
      | (out, Some st') \<Rightarrow> (case run_scheduler cfg c turns st' of (out', r) \<Rightarrow> (out @ out', r)))"

subsection \<open>Lemmas\<close>

lemma row_to_item_fields:
  "row_to_item c now r = Inr i \<Longrightarrow>
   di_composite_score i = row_composite_score r \<and> di_status i = from_str_lossy (row_status r)"
  by (auto simp: row_to_item_def split: option.splits)

lemma rows_to_items_Inr:
  "rows_to_items c now rs = Inr is \<Longrightarrow> list_all2 (\<lambda>r i. row_to_item c now r = Inr i) rs is"
  by (induction rs arbitrary: "is") (auto split: sum.splits)

lemma select_status: "r \<in> set (select_by_status sts n k tab) \<Longrightarrow> row_status r \<in> set sts"
  by (auto simp: select_by_status_def dest!: in_set_takeD in_set_dropD)

lemma select_length: "length (select_by_status [''pending''] n 0 tab) = min n (count_pending tab)"
  by (simp add: select_by_status_def count_pending_def)

lemma rows_to_items_total:
  "\<forall>r \<in> set rs. parse_breakdown c (row_filter_breakdown r) \<noteq> None \<Longrightarrow> \<exists>is. rows_to_items c now rs = Inr is"
proof (induction rs)
  case (Cons r rs)
  then obtain fb "is" where "parse_breakdown c (row_filter_breakdown r) = Some fb" "rows_to_items c now rs = Inr is"
    by auto
  then show ?case by (simp add: row_to_item_def)
qed simp

text \<open>What a delivered batch looks like.\<close>

definition good_batch :: "scheduler_config \<Rightarrow> digest_item list \<Rightarrow> bool" where
  "good_batch cfg b \<longleftrightarrow> b \<noteq> [] \<and> length b \<le> max_queue_size cfg \<and>
     (\<forall>i \<in> set b. di_status i = Pending) \<and> sorted (map (\<lambda>i. - di_composite_score i) b)"

lemma deliver_pending_good: "b \<in> set (fst (deliver_pending cfg c now tab)) \<Longrightarrow> good_batch cfg b"
proof -
  assume "b \<in> set (fst (deliver_pending cfg c now tab))"
  then have ne: "b \<noteq> []" and
      items: "rows_to_items c now (select_by_status [''pending''] (max_queue_size cfg) 0 tab) = Inr b"
    by (auto simp: deliver_pending_def get_pending_def split: sum.splits if_splits)
  let ?page = "select_by_status [''pending''] (max_queue_size cfg) 0 tab"
  have rows: "list_all2 (\<lambda>r i. di_composite_score i = row_composite_score r \<and>
      di_status i = from_str_lossy (row_status r)) ?page b"
    using rows_to_items_Inr [OF items] by (rule list_all2_mono) (rule row_to_item_fields)
  have len: "length b = length ?page" using rows by (simp add: list_all2_lengthD)
  have "di_status (b ! k) = Pending" if "k < length b" for k
  proof -
    have "row_status (?page ! k) = ''pending''" using select_status [OF nth_mem, of k "[''pending'']" "max_queue_size cfg" 0 tab] that len by simp
    with rows that len show ?thesis by (simp add: list_all2_conv_all_nth from_str_lossy_def)
  qed
  then have "\<forall>i \<in> set b. di_status i = Pending" by (metis in_set_conv_nth)
  moreover have "map (\<lambda>i. - di_composite_score i) b = map (\<lambda>r. - row_composite_score r) ?page"
    using rows by (auto simp: list_all2_conv_all_nth intro: nth_equalityI)
  then have "sorted (map (\<lambda>i. - di_composite_score i) b)"
    by (simp add: select_by_status_def take_map [symmetric] sorted_wrt_take)
  ultimately show ?thesis using ne len by (simp add: good_batch_def select_length)
qed

lemma branch_out: "fst (branch cfg c ev now tab st) = fst (deliver_pending cfg c now tab)"
  by (cases ev) (auto split: prod.splits)

lemma turn_good:
  assumes "b \<in> set (fst (scheduler_turn cfg c ev t1 tab1 t2 tab2 st))"
  shows "good_batch cfg b"
proof -
  have "b \<in> set (fst (branch cfg c ev t1 tab1 st)) \<or> b \<in> set (fst (deliver_pending cfg c t2 tab2))"
    using assms by (auto simp: scheduler_turn_def split: prod.splits option.splits if_splits)
  then show ?thesis unfolding branch_out by (auto intro: deliver_pending_good)
qed

lemma run_good: "b \<in> set (fst (run_scheduler cfg c turns st)) \<Longrightarrow> good_batch cfg b"
proof (induction cfg c turns st rule: run_scheduler.induct)
  case (2 cfg c ev t1 tab1 t2 tab2 turns st)
  show ?case
  proof (cases "b \<in> set (fst (scheduler_turn cfg c ev t1 tab1 t2 tab2 st))")
    case True
    then show ?thesis by (rule turn_good)
  next
    case False
    with 2 show ?thesis by (auto split: prod.splits option.splits)
  qed
qed simp

lemma deliver_pending_full:
  assumes "\<forall>r \<in> set tab. parse_breakdown c (row_filter_breakdown r) \<noteq> None"
    and "0 < max_queue_size cfg" and "max_queue_size cfg \<le> count_pending tab"
  shows "\<exists>b. fst (deliver_pending cfg c now tab) = [b] \<and> length b = max_queue_size cfg"
proof -
  have "set (select_by_status [''pending''] (max_queue_size cfg) 0 tab) \<subseteq> set tab"
    by (auto simp: select_by_status_def dest!: in_set_takeD)
  then obtain b where b: "rows_to_items c now (select_by_status [''pending''] (max_queue_size cfg) 0 tab) = Inr b"
    using rows_to_items_total [of "select_by_status [''pending''] (max_queue_size cfg) 0 tab" c now] assms(1) by auto
  then have "length b = max_queue_size cfg"
    using list_all2_lengthD [OF rows_to_items_Inr [OF b]] assms(3) by (simp add: select_length)
  with b assms(2) show ?thesis by (auto simp: deliver_pending_def get_pending_def)
qed

text \<open>
  Every batch the delivery loop hands out, over any run, is non-empty, holds at most
  \<open>max_queue_size\<close> items, holds pending items only, and lists the highest scores first.
\<close>

theorem scheduler_batches_good:
  "list_all (\<lambda>b. b \<noteq> [] \<and> length b \<le> max_queue_size cfg \<and> list_all (\<lambda>i. di_status i = Pending) b \<and>
      sorted (map (\<lambda>i. - di_composite_score i) b)) (fst (run_scheduler cfg c turns st))"
  using run_good [of _ cfg c turns st] by (auto simp: list_all_iff good_batch_def)

text \<open>
  Overflow is not left waiting: in a turn that does not shut the loop down and ends with at
  least \<open>max_queue_size\<close> pending items, the last batch delivered is full, provided the stored
  breakdowns still parse.
\<close>

theorem scheduler_delivers_on_overflow:
  assumes "ev \<noteq> ShutdownNotified" and "should_force_delivery cfg tab2" and "0 < max_queue_size cfg"
    and "\<forall>r \<in> set tab2. parse_breakdown c (row_filter_breakdown r) \<noteq> None"
  shows "\<exists>out b. fst (scheduler_turn cfg c ev t1 tab1 t2 tab2 st) = out @ [b] \<and> length b = max_queue_size cfg"
proof -
  obtain b where b: "fst (deliver_pending cfg c t2 tab2) = [b]" "length b = max_queue_size cfg"
    using deliver_pending_full [OF assms(4,3)] assms(2) by (auto simp: should_force_delivery_def)
  obtain st1 where "snd (branch cfg c ev t1 tab1 st) = Some st1"
    using assms(1) by (cases ev; cases "deliver_pending cfg c t1 tab1") auto
  with b assms(2) show ?thesis
    by (auto simp: scheduler_turn_def should_force_delivery_def split: prod.splits)
qed

theorem scheduler_delivers_on_overflow_witness:
  "\<exists>out b. fst (scheduler_turn (scheduler_config_default\<lparr>max_queue_size := 1\<rparr>) sample_codecs ImmediateNotified
      3 [] 4 [sample_row] \<lparr>last_activity_at = 0, idle = True\<rparr>) = out @ [b] \<and> length b = 1"
proof -
  have "should_force_delivery (scheduler_config_default\<lparr>max_queue_size := 1\<rparr>) [sample_row]"
    by (simp add: should_force_delivery_def count_pending_def)
  moreover have "\<forall>r \<in> set [sample_row]. parse_breakdown sample_codecs (row_filter_breakdown r) \<noteq> None"
    by (simp add: sample_codecs_def)
  ultimately show ?thesis
    using scheduler_delivers_on_overflow [of ImmediateNotified "scheduler_config_default\<lparr>max_queue_size := 1\<rparr>"
      "[sample_row]" sample_codecs] by simp
qed

text \<open>
  Mode switches are the documented ones: a turn enters idle mode exactly when the last
  activity it knows of is \<open>idle_timeout\<close> old at the idle check, an activity notice and
  a delivered tick restart that clock, an idle tick with nothing to deliver stays idle, and the
  loop only ends on shutdown.
\<close>

theorem scheduler_mode_switches:
  "(snd (scheduler_turn cfg c ev t1 tab1 t2 tab2 st) = None \<longleftrightarrow> ev = ShutdownNotified) \<and>
    (\<not> idle st \<longrightarrow> ev = ImmediateNotified \<longrightarrow>
       snd (scheduler_turn cfg c ev t1 tab1 t2 tab2 st) =
         Some (st\<lparr>idle := (int (idle_timeout cfg) \<le> t2 - last_activity_at st)\<rparr>)) \<and>
    (ev = ActivityNotified \<longrightarrow>
       snd (scheduler_turn cfg c ev t1 tab1 t2 tab2 st) =
         Some \<lparr>last_activity_at = t1, idle = (int (idle_timeout cfg) \<le> t2 - t1)\<rparr>) \<and>
    (ev = Slept \<longrightarrow> fst (branch cfg c ev t1 tab1 st) \<noteq> [] \<longrightarrow>
       snd (scheduler_turn cfg c ev t1 tab1 t2 tab2 st) =
         Some \<lparr>last_activity_at = t1, idle = (int (idle_timeout cfg) \<le> t2 - t1)\<rparr>) \<and>
    (ev = Slept \<longrightarrow> idle st \<longrightarrow> fst (branch cfg c ev t1 tab1 st) = [] \<longrightarrow>
       snd (scheduler_turn cfg c ev t1 tab1 t2 tab2 st) = Some st)"
  by (cases ev) (auto simp: scheduler_turn_def idle_check_def deliver_pending_def split: prod.splits sum.splits if_splits)

theorem scheduler_mode_switches_witness:
  "snd (scheduler_turn scheduler_config_default sample_codecs ActivityNotified 3 [] 4 []
      \<lparr>last_activity_at = 0, idle = True\<rparr>) = Some \<lparr>last_activity_at = 3, idle = False\<rparr>"
  using scheduler_mode_switches [of scheduler_config_default sample_codecs ActivityNotified 3 "[]" 4 "[]"
    "\<lparr>last_activity_at = 0, idle = True\<rparr>"]
  by (simp add: scheduler_config_default_def secs_def)

end
