(* ===== verification/Rate_Limit_Filter.thy ===== *)
theory Rate_Limit_Filter
  imports Filters
begin

section \<open>The rate-limit filter\<close>

text \<open>
  \<open>crates/grith-proxy/src/filters/rate_limit.rs\<close>. The windows are a hash map from
  \<open>"<scope uuid>\0<category>"\<close> to the instants of the calls; the model keeps it as an association
  list. The rendering of a UUID is an argument; the properties assume of it that different UUIDs
  have different renderings and that none holds a NUL byte. Counts are \<open>u32\<close> and wrap as the
  cast does. \<open>(max as f64 * 0.8) as u32\<close> is \<open>4 * max div 5\<close>: the rounding of 0.8 is smaller than
  half a unit in the last place of the product, so multiples of five come out exact and every
  other product keeps its integer part.
\<close>

record rate_limit =
  max_per_minute :: u32
  burst_threshold :: u32

type_synonym rate_windows = "(string \<times> instant list) list"

record rate_limit_filter =
  rl_limits :: "string \<rightharpoonup> rate_limit"
  risk_gated_burst :: bool

definition rate_limit_new :: "(string \<rightharpoonup> rate_limit) \<Rightarrow> rate_limit_filter \<times> rate_windows" where
  "rate_limit_new ls = (\<lparr> rl_limits = ls, risk_gated_burst = False \<rparr>, [])"

definition with_risk_gated_burst :: "rate_limit_filter \<Rightarrow> bool \<Rightarrow> rate_limit_filter" where
  "with_risk_gated_burst flt enabled = flt\<lparr>risk_gated_burst := enabled\<rparr>"

definition is_burst_risk_relevant :: "tool_call_context \<Rightarrow> bool" where
  "is_burst_risk_relevant ctx \<longleftrightarrow>
     source_taint ctx \<noteq> TaintNone \<or>
     (case call_type ctx of
        NetConnect _ _ \<Rightarrow> True
      | HttpRequest _ _ \<Rightarrow> True
      | ProcessSpawn _ _ \<Rightarrow> (case spawn_provenance ctx of Some p \<Rightarrow> is_outbound_capable p | None \<Rightarrow> False)
      | _ \<Rightarrow> False)"

definition default_rate_limits :: "string \<rightharpoonup> rate_limit" where
  "default_rate_limits =
     [''file_read'' \<mapsto> \<lparr> max_per_minute = 60, burst_threshold = 15 \<rparr>,
      ''file_write'' \<mapsto> \<lparr> max_per_minute = 30, burst_threshold = 10 \<rparr>,
      ''file_append'' \<mapsto> \<lparr> max_per_minute = 30, burst_threshold = 10 \<rparr>,
      ''file_delete'' \<mapsto> \<lparr> max_per_minute = 20, burst_threshold = 5 \<rparr>,
      ''dir_list'' \<mapsto> \<lparr> max_per_minute = 60, burst_threshold = 15 \<rparr>,
      ''shell_exec'' \<mapsto> \<lparr> max_per_minute = 20, burst_threshold = 5 \<rparr>,
      ''http_request'' \<mapsto> \<lparr> max_per_minute = 60, burst_threshold = 15 \<rparr>]"

definition rate_limit_with_defaults :: "rate_limit_filter \<times> rate_windows" where
  "rate_limit_with_defaults = rate_limit_new default_rate_limits"

definition window_key :: "(uuid \<Rightarrow> string) \<Rightarrow> tool_call_context \<Rightarrow> string \<Rightarrow> string" where
  "window_key ustr ctx category = ustr (as_uuid (scope_of ctx)) @ CHR 0x00 # category"

fun classify_call :: "tool_call_type \<Rightarrow> string" where
  "classify_call (FileRead _) = ''file_read''"
| "classify_call (FileWrite _ _) = ''file_write''"
| "classify_call (FileAppend _) = ''file_append''"
| "classify_call (FileDelete _) = ''file_delete''"
| "classify_call (DirList _) = ''dir_list''"
| "classify_call (ShellExec _ _) = ''shell_exec''"
| "classify_call (HttpRequest _ _) = ''http_request''"
| "classify_call (FileRename _ _) = ''file_rename''"
| "classify_call (FileLink _ _ _) = ''file_link''"
| "classify_call (FileChmod _ _) = ''file_chmod''"
| "classify_call (DirCreate _) = ''dir_create''"
| "classify_call (NetConnect _ _) = ''net_connect''"
| "classify_call (NetListen _ _) = ''net_listen''"
| "classify_call (ProcessSpawn _ _) = ''process_spawn''"
| "classify_call (DnsQuery _ _) = ''dns_query''"
| "classify_call (OwnershipChange _ _ _) = ''ownership_change''"
| "classify_call (FilesystemMutation _ _ _ _) = ''filesystem_mutation''"
| "classify_call (CrossProcessAccess _ _) = ''cross_process_access''"
| "classify_call (NamespaceOp _ _) = ''namespace_op''"
| "classify_call (DbusMethodCall _ _ _ _) = ''dbus_method_call''"

definition window_of :: "string \<Rightarrow> rate_windows \<Rightarrow> instant list" where
  "window_of k ws = (case map_of ws k of Some ts \<Rightarrow> ts | None \<Rightarrow> [])"

definition record_and_count :: "string \<Rightarrow> instant \<Rightarrow> rate_windows \<Rightarrow> (u32 \<times> u32) \<times> rate_windows" where
  "record_and_count k now ws =
     (let ts = filter (\<lambda>t. now - int (secs 60) \<le> t) (window_of k ws @ [now])
      in ((of_nat (length ts), of_nat (length (filter (\<lambda>t. now - int (secs 5) \<le> t) ts))),
          assoc_insert k ts ws))"

abbreviation show_u32 :: "u32 \<Rightarrow> string" where
  "show_u32 n \<equiv> digits_of_nat (unat n)"

definition quoted :: "string \<Rightarrow> string" where
  "quoted s = CHR 0x27 # s @ [CHR 0x27]"

text \<open>The verdict on the two counts, most severe rule first.\<close>

definition rate_verdict :: "rate_limit \<Rightarrow> string \<Rightarrow> u32 \<Rightarrow> u32 \<Rightarrow> filter_result" where
  "rate_verdict l category minute_count burst_count =
     (if burst_count \<ge> burst_threshold l then
        matched ''rate-limit'' ''burst-detected'' 3 SevError
          (''Burst detected: '' @ show_u32 burst_count @ '' '' @ quoted category @ '' calls in 5s (threshold: '' @
           show_u32 (burst_threshold l) @ '')'')
      else if minute_count > max_per_minute l then
        matched ''rate-limit'' ''rate-exceeded'' 2 Warning
          (''Rate exceeded: '' @ show_u32 minute_count @ '' '' @ quoted category @ '' calls/min (limit: '' @
           show_u32 (max_per_minute l) @ '')'')
      else if minute_count > of_nat (4 * unat (max_per_minute l) div 5) then
        matched ''rate-limit'' ''rate-approaching'' 1 Notice
          (''Approaching rate limit: '' @ show_u32 minute_count @ '' '' @ quoted category @ '' calls/min (limit: '' @
           show_u32 (max_per_minute l) @ '')'')
      else no_match ''rate-limit'')"

definition rate_evaluate_at ::
    "(uuid \<Rightarrow> string) \<Rightarrow> rate_limit_filter \<Rightarrow> instant \<Rightarrow> tool_call_context \<Rightarrow> rate_windows \<Rightarrow>
     filter_result \<times> rate_windows" where
  "rate_evaluate_at ustr flt now ctx ws =
     (let category = classify_call (call_type ctx)
      in case rl_limits flt category of
           None \<Rightarrow> (no_match ''rate-limit'', ws)
         | Some l \<Rightarrow>
             if risk_gated_burst flt \<and> \<not> is_burst_risk_relevant ctx then (no_match ''rate-limit'', ws)
             else (case record_and_count (window_key ustr ctx category) now ws of
                     ((minute_count, burst_count), ws') \<Rightarrow>
                       (rate_verdict l category minute_count burst_count, ws')))"

definition rate_evict_session_state ::
    "(uuid \<Rightarrow> string) \<Rightarrow> session_scope_key \<Rightarrow> rate_windows \<Rightarrow> nat \<times> rate_windows" where
  "rate_evict_session_state ustr sc ws =
     (let ws' = filter (\<lambda>p. \<not> prefix (ustr (as_uuid sc) @ [CHR 0x00]) (fst p)) ws
      in (length ws - length ws', ws'))"

text \<open>The filter as the registry holds it, on a proxy state of which it reads and writes its windows.\<close>

definition rate_security_filter ::
    "(uuid \<Rightarrow> string) \<Rightarrow> rate_limit_filter \<Rightarrow> instant \<Rightarrow> rate_windows security_filter" where
  "rate_security_filter ustr flt now =
     \<lparr> flt_name = ''rate-limit'', flt_phase = Context, flt_ready = (\<lambda>_. True),
       flt_evaluate = (\<lambda>ctx ws. case rate_evaluate_at ustr flt now ctx ws of (r, ws') \<Rightarrow> (Inr r, ws')),
       flt_evict = rate_evict_session_state ustr,
       flt_observe = (\<lambda>_ _ _ ws. ws) \<rparr>"

subsection \<open>The contract of a scoring filter\<close>

lemma rate_verdict_bounds [simp]:
  "filter_name (rate_verdict l c m b) = ''rate-limit''"
  "0 \<le> fr_score (rate_verdict l c m b)"
  "fr_score (rate_verdict l c m b) \<le> 3"
  by (simp_all add: rate_verdict_def matched_def no_match_def)

lemma rate_evaluate_at_cases:
  "fst (rate_evaluate_at ustr flt now ctx ws) = no_match ''rate-limit'' \<or>
   (\<exists>l m b. fst (rate_evaluate_at ustr flt now ctx ws) = rate_verdict l (classify_call (call_type ctx)) m b)"
  by (auto simp: rate_evaluate_at_def Let_def record_and_count_def split: option.splits)

lemma no_match_fields [simp]:
  "filter_name (no_match n) = n" "fr_score (no_match n) = 0" "\<not> fr_matched (no_match n)"
  by (simp_all add: no_match_def)

interpretation rl: scoring_filter "''rate-limit''" "rate_evaluate_at ustr flt now" 3 for ustr flt now
proof
  fix ctx :: tool_call_context and st :: rate_windows
  show "filter_name (fst (rate_evaluate_at ustr flt now ctx st)) = ''rate-limit''"
    "0 \<le> fr_score (fst (rate_evaluate_at ustr flt now ctx st))"
    "fr_score (fst (rate_evaluate_at ustr flt now ctx st)) \<le> 3"
    using rate_evaluate_at_cases [of ustr flt now ctx st] by auto
qed

text \<open>
  Rate limiting alone never stops a call under the default thresholds: even a detected burst
  contributes 3.0, which is the auto-allow threshold itself, and a score at the threshold is allowed.
\<close>

theorem rate_limit_alone_is_allowed:
  "is_allowed (route_decision (aggregate [fst (rate_evaluate_at ustr flt now ctx ws)]) rs
     (auto_allow_threshold scoring_default) (auto_deny_threshold scoring_default) t)"
  by (rule rl.cannot_escalate_alone) (simp_all add: scoring_default_def SCORE_QUEUE_THRESHOLD_def SCORE_DENY_THRESHOLD_def)

subsection \<open>Windows\<close>

lemma classify_no_nul [simp]: "CHR 0x00 \<notin> set (classify_call c)"
  by (cases c) simp_all

lemma window_of_insert [simp]: "window_of k (assoc_insert j v ws) = (if k = j then v else window_of k ws)"
  by (simp add: window_of_def)

lemma rate_evaluate_at_window:
  "k \<noteq> window_key ustr ctx (classify_call (call_type ctx)) \<Longrightarrow>
   window_of k (snd (rate_evaluate_at ustr flt now ctx ws)) = window_of k ws"
  by (auto simp: rate_evaluate_at_def Let_def record_and_count_def split: option.splits)

lemma rate_evaluate_at_local:
  "window_of (window_key ustr ctx (classify_call (call_type ctx))) ws =
   window_of (window_key ustr ctx (classify_call (call_type ctx))) ws' \<Longrightarrow>
   fst (rate_evaluate_at ustr flt now ctx ws) = fst (rate_evaluate_at ustr flt now ctx ws')"
  by (simp add: rate_evaluate_at_def Let_def record_and_count_def split: option.splits)

definition uuid_text_ok :: "(uuid \<Rightarrow> string) \<Rightarrow> bool" where
  "uuid_text_ok ustr \<longleftrightarrow> inj ustr \<and> (\<forall>u. CHR 0x00 \<notin> set (ustr u))"

lemma window_key_scope:
  "uuid_text_ok ustr \<Longrightarrow> window_key ustr ctx c = window_key ustr ctx' c' \<Longrightarrow> scope_of ctx = scope_of ctx'"
  unfolding uuid_text_ok_def window_key_def
  by (metis append_sep_inj as_uuid.elims as_uuid.simps injD)

text \<open>UUIDs rendered in unary satisfy the hypothesis.\<close>

definition unary_uuid :: "uuid \<Rightarrow> string" where
  "unary_uuid u = replicate (unat u) CHR ''u''"

lemma unary_uuid_ok: "uuid_text_ok unary_uuid"
  by (auto simp: uuid_text_ok_def unary_uuid_def inj_def replicate_eq_replicate word_unat_eq_iff)

definition rate_calls ::
    "(uuid \<Rightarrow> string) \<Rightarrow> rate_limit_filter \<Rightarrow> (instant \<times> tool_call_context) list \<Rightarrow> rate_windows \<Rightarrow> rate_windows" where
  "rate_calls ustr flt calls ws = fold (\<lambda>(now, ctx) ws. snd (rate_evaluate_at ustr flt now ctx ws)) calls ws"

lemma rate_calls_window:
  "uuid_text_ok ustr \<Longrightarrow> \<forall>(now, ctx') \<in> set calls. scope_of ctx' \<noteq> scope_of ctx \<Longrightarrow>
   window_of (window_key ustr ctx c) (rate_calls ustr flt calls ws) = window_of (window_key ustr ctx c) ws"
proof (induction calls arbitrary: ws)
  case (Cons call calls)
  obtain now ctx' where call: "call = (now, ctx')" by fastforce
  have "window_of (window_key ustr ctx c) (snd (rate_evaluate_at ustr flt now ctx' ws)) =
        window_of (window_key ustr ctx c) ws"
  proof (rule rate_evaluate_at_window)
    have "scope_of ctx \<noteq> scope_of ctx'" using Cons.prems(2) call by auto
    then show "window_key ustr ctx c \<noteq> window_key ustr ctx' (classify_call (call_type ctx'))"
      by (rule contrapos_nn) (rule window_key_scope [OF Cons.prems(1)])
  qed
  with Cons call show ?case by (simp add: rate_calls_def)
qed (simp add: rate_calls_def)

definition history_verdict :: "rate_limit \<Rightarrow> string \<Rightarrow> instant list \<Rightarrow> instant \<Rightarrow> filter_result" where
  "history_verdict l c ts now =
     rate_verdict l c
       (of_nat (length (filter (\<lambda>t. now - int (secs 60) \<le> t) (ts @ [now]))))
       (of_nat (length (filter (\<lambda>t. now - int (secs 5) \<le> t) (ts @ [now]))))"

lemma filter_window_mono:
  "b \<le> (a :: int) \<Longrightarrow> filter (\<lambda>t. a \<le> t) (filter (\<lambda>t. b \<le> t) ts) = filter (\<lambda>t. a \<le> t) ts"
  by (auto intro: filter_cong)

lemma secs_5_60: "int (secs 5) \<le> int (secs 60)"
  by (simp add: secs_def)

definition prunes :: "instant list \<Rightarrow> instant list \<Rightarrow> instant \<Rightarrow> bool" where
  "prunes w ts now \<longleftrightarrow> filter (\<lambda>t. now - int (secs 60) \<le> t) w = filter (\<lambda>t. now - int (secs 60) \<le> t) ts"

lemma prunes_later: "prunes w ts now \<Longrightarrow> now \<le> now' \<Longrightarrow> prunes w ts now'"
  unfolding prunes_def
  by (metis (no_types, lifting) diff_right_mono filter_window_mono)

lemma rate_evaluate_history:
  assumes "rl_limits flt (classify_call (call_type ctx)) = Some l"
    and "risk_gated_burst flt \<longrightarrow> is_burst_risk_relevant ctx"
    and "prunes (window_of (window_key ustr ctx (classify_call (call_type ctx))) ws) ts now"
  shows "fst (rate_evaluate_at ustr flt now ctx ws) = history_verdict l (classify_call (call_type ctx)) ts now"
    and "prunes (window_of (window_key ustr ctx (classify_call (call_type ctx)))
           (snd (rate_evaluate_at ustr flt now ctx ws))) (ts @ [now]) now"
proof -
  let ?w = "window_of (window_key ustr ctx (classify_call (call_type ctx))) ws"
  let ?f = "\<lambda>n ts. filter (\<lambda>t. now - int (secs n) \<le> t) ts"
  have f5: "?f 5 ?w = ?f 5 ts"
    using assms(3) secs_5_60 filter_window_mono [of "now - int (secs 60)" "now - int (secs 5)"]
    unfolding prunes_def by (metis diff_left_mono)
  have idem: "?f 5 (?f 60 xs) = ?f 5 xs" for xs
    using secs_5_60 by (intro filter_window_mono) linarith
  have eval: "rate_evaluate_at ustr flt now ctx ws =
     (case record_and_count (window_key ustr ctx (classify_call (call_type ctx))) now ws of
        ((m, b), ws') \<Rightarrow> (rate_verdict l (classify_call (call_type ctx)) m b, ws'))"
    using assms(1,2) by (auto simp: rate_evaluate_at_def Let_def)
  show "fst (rate_evaluate_at ustr flt now ctx ws) = history_verdict l (classify_call (call_type ctx)) ts now"
    using assms(3) f5 idem [of "?w @ [now]"]
    by (simp add: eval record_and_count_def history_verdict_def prunes_def)
  show "prunes (window_of (window_key ustr ctx (classify_call (call_type ctx)))
           (snd (rate_evaluate_at ustr flt now ctx ws))) (ts @ [now]) now"
    using assms(3) by (simp add: eval record_and_count_def prunes_def)
qed

text \<open>The calls the filter records in a window: limited category, and past the risk gate.\<close>

definition recorded :: "rate_limit_filter \<Rightarrow> tool_call_context \<Rightarrow> bool" where
  "recorded flt ctx \<longleftrightarrow> rl_limits flt (classify_call (call_type ctx)) \<noteq> None \<and>
     (risk_gated_burst flt \<longrightarrow> is_burst_risk_relevant ctx)"

abbreviation own_key :: "(uuid \<Rightarrow> string) \<Rightarrow> tool_call_context \<Rightarrow> string" where
  "own_key ustr ctx \<equiv> window_key ustr ctx (classify_call (call_type ctx))"

definition call_history ::
    "(uuid \<Rightarrow> string) \<Rightarrow> rate_limit_filter \<Rightarrow> string \<Rightarrow> (instant \<times> tool_call_context) list \<Rightarrow> instant list" where
  "call_history ustr flt k calls = map fst (filter (\<lambda>(t, c). recorded flt c \<and> own_key ustr c = k) calls)"

lemma rate_evaluate_not_recorded:
  "\<not> recorded flt ctx \<Longrightarrow> snd (rate_evaluate_at ustr flt now ctx ws) = ws"
  by (auto simp: recorded_def rate_evaluate_at_def Let_def split: option.splits)

lemma rate_evaluate_prunes:
  assumes "prunes (window_of k ws) hist t"
  shows "prunes (window_of k (snd (rate_evaluate_at ustr flt t c ws))) (hist @ call_history ustr flt k [(t, c)]) t"
proof (cases "recorded flt c \<and> own_key ustr c = k")
  case True
  then obtain l where l: "rl_limits flt (classify_call (call_type c)) = Some l"
      and gate: "risk_gated_burst flt \<longrightarrow> is_burst_risk_relevant c"
    by (auto simp: recorded_def)
  have "prunes (window_of (own_key ustr c) ws) hist t" using assms True by simp
  from rate_evaluate_history(2) [OF l gate this] True show ?thesis by (simp add: call_history_def)
next
  case False
  then have "window_of k (snd (rate_evaluate_at ustr flt t c ws)) = window_of k ws"
    by (metis rate_evaluate_not_recorded rate_evaluate_at_window)
  moreover have "call_history ustr flt k [(t, c)] = []" using False by (simp add: call_history_def)
  ultimately show ?thesis using assms by simp
qed

lemma rate_calls_history:
  "prunes (window_of k ws) hist t0 \<Longrightarrow> sorted (t0 # map fst calls @ [now]) \<Longrightarrow>
   prunes (window_of k (rate_calls ustr flt calls ws)) (hist @ call_history ustr flt k calls) now"
proof (induction calls arbitrary: ws hist t0)
  case Nil
  then show ?case by (auto simp: rate_calls_def call_history_def intro: prunes_later)
next
  case (Cons call calls)
  obtain t c where call: "call = (t, c)" by fastforce
  have "prunes (window_of k ws) hist t"
    using Cons.prems call by (auto intro: prunes_later)
  from rate_evaluate_prunes [OF this, of ustr flt c] Cons.prems(2) call
  have "prunes (window_of k (rate_calls ustr flt calls (snd (rate_evaluate_at ustr flt t c ws))))
      ((hist @ call_history ustr flt k [(t, c)]) @ call_history ustr flt k calls) now"
    by (intro Cons.IH [where ?t0.0 = t]) simp_all
  then show ?case by (auto simp: call rate_calls_def call_history_def split: if_splits)
qed

abbreviation sample_call :: "nat \<Rightarrow> tool_call_context" where
  "sample_call n \<equiv> context_new 0 0 ''p'' (HttpRequest ''GET'' ''http://a/'') (of_nat n)"

lemma sample_limit:
  "rl_limits (fst rate_limit_with_defaults) (classify_call (call_type (sample_call n))) =
     Some \<lparr> max_per_minute = 60, burst_threshold = 15 \<rparr>"
  "\<not> risk_gated_burst (fst rate_limit_with_defaults)"
  by (simp_all add: rate_limit_with_defaults_def rate_limit_new_def default_rate_limits_def context_new_def)

text \<open>
  Sessions do not share a rate budget: whatever calls of other scopes are evaluated before
  it, a call gets the verdict it would have got without them.
\<close>

theorem rate_sessions_isolated:
  assumes "uuid_text_ok ustr" and "\<forall>(now', ctx') \<in> set calls. scope_of ctx' \<noteq> scope_of ctx"
  shows "fst (rate_evaluate_at ustr flt now ctx (rate_calls ustr flt calls ws)) =
         fst (rate_evaluate_at ustr flt now ctx ws)"
  by (intro rate_evaluate_at_local rate_calls_window assms)

theorem rate_sessions_isolated_witness:
  "fst (rate_evaluate_at unary_uuid (fst rate_limit_with_defaults) 5 (sample_call 1)
     (rate_calls unary_uuid (fst rate_limit_with_defaults) (replicate 20 (4, sample_call 2)) [])) =
   no_match ''rate-limit''"
proof -
  have "\<forall>(now', ctx') \<in> set (replicate 20 (4, sample_call 2)). scope_of ctx' \<noteq> scope_of (sample_call 1)"
    by (simp add: context_new_def scope_of_def from_session_id_def)
  from rate_sessions_isolated [OF unary_uuid_ok this]
  have "fst (rate_evaluate_at unary_uuid (fst rate_limit_with_defaults) 5 (sample_call 1)
     (rate_calls unary_uuid (fst rate_limit_with_defaults) (replicate 20 (4, sample_call 2)) [])) =
    fst (rate_evaluate_at unary_uuid (fst rate_limit_with_defaults) 5 (sample_call 1) [])" .
  moreover have "fst (rate_evaluate_at unary_uuid (fst rate_limit_with_defaults) 5 (sample_call 1) []) =
      history_verdict \<lparr> max_per_minute = 60, burst_threshold = 15 \<rparr> (classify_call (call_type (sample_call 1))) [] 5"
    by (rule rate_evaluate_history(1) [OF sample_limit(1)]) (simp_all add: sample_limit prunes_def window_of_def)
  ultimately show ?thesis
    by (simp add: history_verdict_def rate_verdict_def secs_def word_le_nat_alt word_less_nat_alt)
qed

text \<open>
  Pruning loses nothing and nothing leaks in: after any sequence of calls, of any sessions and
  categories, at times that do not run backwards, the verdict on a call is the one computed from
  the whole history of its own window, counting the recorded calls of the last minute and of the
  last five seconds.
\<close>

theorem rate_limit_counts_history:
  assumes "rl_limits flt (classify_call (call_type ctx)) = Some l"
    and "risk_gated_burst flt \<longrightarrow> is_burst_risk_relevant ctx"
    and "sorted (map fst calls @ [now])"
  shows "fst (rate_evaluate_at ustr flt now ctx (rate_calls ustr flt calls [])) =
         history_verdict l (classify_call (call_type ctx)) (call_history ustr flt (own_key ustr ctx) calls) now"
proof -
  define t0 where "t0 = hd (map fst calls @ [now])"
  have "sorted (t0 # map fst calls @ [now])" using assms(3) by (cases calls) (auto simp: t0_def)
  then have "prunes (window_of (own_key ustr ctx) (rate_calls ustr flt calls []))
      ([] @ call_history ustr flt (own_key ustr ctx) calls) now"
    by (intro rate_calls_history [where ?t0.0 = t0]) (simp_all add: prunes_def window_of_def)
  then show ?thesis using rate_evaluate_history(1) [OF assms(1,2)] by simp
qed

theorem rate_limit_counts_history_witness:
  "rule_id (fst (rate_evaluate_at unary_uuid (fst rate_limit_with_defaults) 4 (sample_call 1)
     (rate_calls unary_uuid (fst rate_limit_with_defaults) (replicate 14 (3, sample_call 1)) []))) = ''burst-detected''"
proof -
  have "history_verdict \<lparr> max_per_minute = 60, burst_threshold = 15 \<rparr> c (replicate 14 3) 4 =
      rate_verdict \<lparr> max_per_minute = 60, burst_threshold = 15 \<rparr> c 15 15" for c
    by (simp add: history_verdict_def filter_replicate secs_def)
  moreover have "call_history unary_uuid (fst rate_limit_with_defaults) (own_key unary_uuid (sample_call 1))
      (replicate 14 (3, sample_call 1)) = replicate 14 3"
    using sample_limit(1) [of 1] by (simp add: call_history_def filter_replicate recorded_def sample_limit(2))
  ultimately show ?thesis
    using rate_limit_counts_history [OF sample_limit(1), of 1 "replicate 14 (3, sample_call 1)" 4 unary_uuid]
    by (simp add: sample_limit sorted_append rate_verdict_def matched_def)
qed

text \<open>
  Ending a session drops exactly its windows: after the eviction every window of the scope is
  empty, every window of another scope is as before, and the count returned is the number of
  windows dropped.
\<close>

theorem rate_evict_exact:
  assumes "uuid_text_ok ustr" and "rate_evict_session_state ustr sc ws = (n, ws')"
    and "CHR 0x00 \<notin> set c"
  shows "(scope_of ctx = sc \<longrightarrow> window_of (window_key ustr ctx c) ws' = []) \<and>
         (scope_of ctx \<noteq> sc \<longrightarrow> window_of (window_key ustr ctx c) ws' = window_of (window_key ustr ctx c) ws) \<and>
         length ws = n + length ws'"
proof -
  from assms(2) have ws': "ws' = filter (\<lambda>p. \<not> prefix (ustr (as_uuid sc) @ [CHR 0x00]) (fst p)) ws"
    and n: "n = length ws - length ws'"
    by (auto simp: rate_evict_session_state_def Let_def)
  have "prefix (ustr (as_uuid sc) @ [CHR 0x00]) (window_key ustr ctx c) \<longleftrightarrow> scope_of ctx = sc"
    using assms(1) prefix_sep_eq [of "CHR 0x00" "ustr (as_uuid sc)" "ustr (as_uuid (scope_of ctx))" c]
    unfolding uuid_text_ok_def window_key_def
    by (metis as_uuid.elims as_uuid.simps injD)
  moreover have "length ws' \<le> length ws" unfolding ws' by (rule length_filter_le)
  ultimately show ?thesis
    unfolding n
    by (auto simp: ws' window_of_def map_of_filter_fst [where P = "\<lambda>k. \<not> prefix (ustr (as_uuid sc) @ [CHR 0x00]) k"])
qed

theorem rate_evict_exact_witness:
  "window_of (window_key unary_uuid (sample_call 1) ''http_request'')
     (snd (rate_evict_session_state unary_uuid (SessionScopeKey 1)
        [(window_key unary_uuid (sample_call 1) ''http_request'', [1, 2])])) = []"
proof -
  have "scope_of (sample_call 1) = SessionScopeKey 1"
    by (simp add: context_new_def scope_of_def from_session_id_def)
  moreover have "CHR 0x00 \<notin> set ''http_request''" by simp
  ultimately show ?thesis
    using rate_evict_exact [OF unary_uuid_ok surjective_pairing, of "''http_request''" "sample_call 1" "SessionScopeKey 1"]
    by blast
qed

end
