(* ===== verification/Ip_Addr.thy ===== *)
theory Ip_Addr
  imports Prelude
begin

section \<open>IP addresses\<close>

text \<open>
  \<open>std::net::IpAddr\<close> as the filters use it: the parser of Rust's standard library (read an IPv4
  address, else an IPv6 address with at most one \<open>::\<close> and an optional IPv4 tail, and demand the end
  of the input), the predicates on the parsed address, and the two classifications of bind
  addresses of \<open>crates/grith-proxy/src/filters/egress_policy.rs\<close>. An IPv4 address is its four
  octets, an IPv6 address its eight 16-bit segments.
\<close>

datatype ip_addr = V4 "int list" | V6 "int list"

definition digit_value :: "char \<Rightarrow> int option" where
  "digit_value c =
     (let n = of_char c :: int
      in if 48 \<le> n \<and> n \<le> 57 then Some (n - 48)
         else if 97 \<le> n \<and> n \<le> 102 then Some (n - 87)
         else if 65 \<le> n \<and> n \<le> 70 then Some (n - 55)
         else None)"

definition is_digit :: "int \<Rightarrow> char \<Rightarrow> bool" where
  "is_digit radix c \<longleftrightarrow> (case digit_value c of Some d \<Rightarrow> d < radix | None \<Rightarrow> False)"

definition number_value :: "int \<Rightarrow> string \<Rightarrow> int" where
  "number_value radix ds = foldl (\<lambda>a c. a * radix + (case digit_value c of Some d \<Rightarrow> d | None \<Rightarrow> 0)) 0 ds"

text \<open>\<open>from_str_radix\<close> and \<open>parse\<close> for an unsigned type with the given largest value.\<close>

definition from_str_radix :: "int \<Rightarrow> int \<Rightarrow> string \<Rightarrow> int option" where
  "from_str_radix radix bound s =
     (let ds = (case s of CHR ''+'' # rest \<Rightarrow> rest | _ \<Rightarrow> s)
      in if ds \<noteq> [] \<and> list_all (is_digit radix) ds \<and> number_value radix ds \<le> bound then Some (number_value radix ds) else None)"

definition read_number :: "int \<Rightarrow> nat \<Rightarrow> bool \<Rightarrow> int \<Rightarrow> string \<Rightarrow> (int \<times> string) option" where
  "read_number radix max_digits zero_prefix bound s =
     (let ds = takeWhile (is_digit radix) s
      in if ds = [] \<or> length ds > max_digits \<or> number_value radix ds > bound \<or>
            (\<not> zero_prefix \<and> hd ds = CHR ''0'' \<and> length ds > 1)
         then None else Some (number_value radix ds, drop (length ds) s))"

definition read_char :: "char \<Rightarrow> string \<Rightarrow> string option" where
  "read_char c s = (case s of [] \<Rightarrow> None | x # xs \<Rightarrow> if x = c then Some xs else None)"

definition read_octet :: "string \<Rightarrow> (int \<times> string) option" where
  "read_octet = read_number 10 3 False 255"

definition read_ipv4 :: "string \<Rightarrow> (int list \<times> string) option" where
  "read_ipv4 s =
     (case read_octet s of None \<Rightarrow> None | Some (a, s) \<Rightarrow>
      case Option.bind (read_char CHR ''.'' s) read_octet of None \<Rightarrow> None | Some (b, s) \<Rightarrow>
      case Option.bind (read_char CHR ''.'' s) read_octet of None \<Rightarrow> None | Some (c, s) \<Rightarrow>
      case Option.bind (read_char CHR ''.'' s) read_octet of None \<Rightarrow> None | Some (d, s) \<Rightarrow>
        Some ([a, b, c, d], s))"

definition read_separated :: "bool \<Rightarrow> (string \<Rightarrow> 'a option) \<Rightarrow> string \<Rightarrow> 'a option" where
  "read_separated first p s = (if first then p s else Option.bind (read_char CHR '':'' s) p)"

text \<open>\<open>read_groups\<close> fills the free slots; the boolean result says that an IPv4 tail was read.\<close>

fun read_groups :: "nat \<Rightarrow> bool \<Rightarrow> string \<Rightarrow> int list \<times> bool \<times> string" where
  "read_groups 0 first s = ([], False, s)"
| "read_groups (Suc slots) first s =
     (case (if slots > 0 then read_separated first read_ipv4 s else None) of
        Some ([a, b, c, d], s') \<Rightarrow> ([a * 256 + b, c * 256 + d], True, s')
      | _ \<Rightarrow>
         (case read_separated first (read_number 16 4 True 65535) s of
            None \<Rightarrow> ([], False, s)
          | Some (g, s') \<Rightarrow>
              (case read_groups slots False s' of (gs, v4, s'') \<Rightarrow> (g # gs, v4, s''))))"

definition read_ipv6 :: "string \<Rightarrow> (int list \<times> string) option" where
  "read_ipv6 s =
     (case read_groups 8 True s of (hd_gs, hd_v4, s1) \<Rightarrow>
        if length hd_gs = 8 then Some (hd_gs, s1)
        else if hd_v4 then None
        else case Option.bind (read_char CHR '':'' s1) (read_char CHR '':'') of
            None \<Rightarrow> None
          | Some s2 \<Rightarrow>
              (case read_groups (7 - length hd_gs) True s2 of (tl_gs, _, s3) \<Rightarrow>
                 Some (hd_gs @ replicate (8 - length hd_gs - length tl_gs) 0 @ tl_gs, s3)))"

definition parse_ip :: "string \<Rightarrow> ip_addr option" where
  "parse_ip s =
     (case read_ipv4 s of
        Some (v4, rest) \<Rightarrow> if rest = [] then Some (V4 v4) else None
      | None \<Rightarrow> (case read_ipv6 s of
          Some (v6, rest) \<Rightarrow> if rest = [] then Some (V6 v6) else None
        | None \<Rightarrow> None))"

fun ip_is_loopback :: "ip_addr \<Rightarrow> bool" where
  "ip_is_loopback (V4 os) = (os \<noteq> [] \<and> hd os = 127)"
| "ip_is_loopback (V6 gs) = (gs = [0, 0, 0, 0, 0, 0, 0, 1])"

fun ip_is_unspecified :: "ip_addr \<Rightarrow> bool" where
  "ip_is_unspecified (V4 os) = (os = [0, 0, 0, 0])"
| "ip_is_unspecified (V6 gs) = (gs = [0, 0, 0, 0, 0, 0, 0, 0])"

fun to_ipv4_mapped :: "ip_addr \<Rightarrow> ip_addr option" where
  "to_ipv4_mapped (V6 [g0, g1, g2, g3, g4, g5, a, b]) =
     (if [g0, g1, g2, g3, g4, g5] = [0, 0, 0, 0, 0, 65535] then Some (V4 [a div 256, a mod 256, b div 256, b mod 256]) else None)"
| "to_ipv4_mapped _ = None"

definition is_loopback_bind_address :: "string \<Rightarrow> bool" where
  "is_loopback_bind_address addr \<longleftrightarrow>
     eq_ignore_ascii_case addr ''localhost'' \<or>
     (case parse_ip addr of
        None \<Rightarrow> False
      | Some ip \<Rightarrow> ip_is_loopback ip \<or>
          (case to_ipv4_mapped ip of Some v4 \<Rightarrow> ip_is_loopback v4 | None \<Rightarrow> False))"

definition is_wildcard_bind_address :: "string \<Rightarrow> bool" where
  "is_wildcard_bind_address addr \<longleftrightarrow>
     (case parse_ip addr of
        None \<Rightarrow> False
      | Some ip \<Rightarrow> ip_is_unspecified ip \<or>
          (case to_ipv4_mapped ip of Some v4 \<Rightarrow> ip_is_unspecified v4 | None \<Rightarrow> False))"

subsection \<open>Samples of the parser\<close>

lemma parse_ip_samples:
  "parse_ip ''127.0.0.1'' = Some (V4 [127, 0, 0, 1])"
  "parse_ip ''0:0:0:0:0:0:0:0001'' = Some (V6 [0, 0, 0, 0, 0, 0, 0, 1])"
  "parse_ip ''::ffff:10.0.0.1'' = Some (V6 [0, 0, 0, 0, 0, 65535, 2560, 1])"
  "parse_ip ''fe80::1'' = Some (V6 [65152, 0, 0, 0, 0, 0, 0, 1])"
  "parse_ip ''01.2.3.4'' = None"
  "parse_ip ''1.2.3.256'' = None"
  "parse_ip ''1::2::3'' = None"
  "parse_ip ''not-an-ip'' = None"
  by code_simp+

lemma loopback_samples:
  "is_loopback_bind_address ''LOCALHOST''"
  "is_loopback_bind_address ''0:0:0:0:0:0:0:1''"
  "is_loopback_bind_address ''::ffff:127.0.0.1''"
  "\<not> is_loopback_bind_address ''0.0.0.0''"
  "\<not> is_loopback_bind_address ''::ffff:0.0.0.0''"
  "\<not> is_loopback_bind_address ''not-an-ip''"
  by code_simp+

text \<open>No address is both loopback and wildcard.\<close>

lemma mapped_loopback_not_unspecified:
  "to_ipv4_mapped ip = Some v4 \<Longrightarrow> \<not> ip_is_loopback ip \<and> \<not> ip_is_unspecified ip \<and>
     \<not> (ip_is_loopback v4 \<and> ip_is_unspecified v4)"
  by (cases ip rule: to_ipv4_mapped.cases) (auto split: if_splits)

lemma loopback_wildcard_disjoint_ip:
  "\<not> (ip_is_loopback ip \<and> ip_is_unspecified ip)"
  by (cases ip) auto


lemma ascii_lower_l:
  assumes "ascii_lower x = CHR ''l''"
  shows "(of_char x :: nat) \<in> {76, 108}"
proof (cases "65 \<le> (of_char x :: nat) \<and> (of_char x :: nat) \<le> 90")
  case True
  with assms have "of_char (char_of (of_char x + 32 :: nat) :: char) = (of_char CHR ''l'' :: nat)"
    by (simp add: ascii_lower_def Let_def)
  then have "((of_char x :: nat) + 32) mod 256 = 108" by simp
  with True show ?thesis by simp
next
  case False
  with assms show ?thesis by (auto simp: ascii_lower_def Let_def)
qed

lemma localhost_no_ip:
  assumes "eq_ignore_ascii_case addr ''localhost''"
  shows "parse_ip addr = None"
proof -
  have "map ascii_lower addr = ''localhost''"
    using assms by (simp add: eq_ignore_ascii_case_def to_lowercase_def ascii_lower_def)
  then obtain x xs where addr: "addr = x # xs" and x: "ascii_lower x = CHR ''l''" by (cases addr) auto
  have n: "(of_char x :: int) \<in> {76, 108}"
    using ascii_lower_l [OF x] of_nat_of_char [of x, where 'a = int] by auto
  then have "digit_value x = None" and "x \<noteq> CHR '':''" by (auto simp: digit_value_def Let_def)
  then have rn: "read_number r m z b addr = None" for r m z b
    by (simp add: addr read_number_def is_digit_def)
  have rc: "read_char CHR '':'' addr = None"
    using \<open>x \<noteq> CHR '':''\<close> by (simp add: addr read_char_def)
  have "read_groups (Suc 7) True addr = ([], False, addr)"
    unfolding read_groups.simps by (simp add: rn read_ipv4_def read_octet_def read_separated_def)
  then show ?thesis
    using rc by (simp add: parse_ip_def rn read_ipv4_def read_octet_def read_ipv6_def)
qed

text \<open>
  No bind address is classified both as loopback, which needs no review, and as wildcard,
  which exposes every interface.
\<close>

theorem loopback_wildcard_disjoint: "\<not> (is_loopback_bind_address addr \<and> is_wildcard_bind_address addr)"
proof (cases "parse_ip addr")
  case None
  then show ?thesis by (simp add: is_wildcard_bind_address_def)
next
  case (Some ip)
  then have "\<not> eq_ignore_ascii_case addr ''localhost''" using localhost_no_ip by fastforce
  with Some show ?thesis
    using mapped_loopback_not_unspecified [of ip] loopback_wildcard_disjoint_ip [of ip]
    by (auto simp: is_loopback_bind_address_def is_wildcard_bind_address_def split: option.splits)
qed

end
