(* ===== verification/Session_Containment.thy ===== *)
theory Session_Containment
  imports Filters Ip_Addr
begin

section \<open>The session-containment filter\<close>

text \<open>
  \<open>crates/grith-proxy/src/filters/session_containment.rs\<close>: after a session reads a sensitive file
  or makes a tainted call, its outbound calls are scored for a while. The tracker's hash map is an
  association list. Every operation takes the clock reading.
\<close>

record session_containment_config =
  scc_enabled :: bool
  containment_window_seconds :: u64
  scc_sensitive_sources :: "string list"
  scc_outbound_command_tokens :: "string list"
  scc_network_score :: f64
  scc_process_score :: f64
  scc_shell_score :: f64

definition session_containment_default :: session_containment_config where
  "session_containment_default =
     \<lparr> scc_enabled = True, containment_window_seconds = 600,
       scc_sensitive_sources =
         [''.env'', ''.ssh'', ''.aws'', ''.gnupg'', ''.kube/config'', ''id_rsa'', ''id_ed25519'',
          ''credentials'', ''secrets'', ''passwd'', ''shadow'', ''keychain''],
       scc_outbound_command_tokens =
         [''curl '', ''wget '', ''nc '', ''netcat '', ''scp '', ''ftp '', ''sftp '', ''nslookup '', '' dig ''],
       scc_network_score = 7 / 2, scc_process_score = 4, scc_shell_score = 7 / 2 \<rparr>"

record containment_tracker =
  contained_sessions :: "(uuid \<times> instant) list"
  containment_window :: duration

definition tracker_new :: "duration \<Rightarrow> containment_tracker" where
  "tracker_new w = \<lparr> contained_sessions = [], containment_window = w \<rparr>"

definition tracker_with_defaults :: containment_tracker where
  "tracker_with_defaults = tracker_new (secs 600)"

definition tracker_register :: "uuid \<Rightarrow> instant \<Rightarrow> containment_tracker \<Rightarrow> containment_tracker" where
  "tracker_register sid now tr = tr\<lparr>contained_sessions := assoc_insert sid now (contained_sessions tr)\<rparr>"

definition tracker_unregister :: "uuid \<Rightarrow> containment_tracker \<Rightarrow> bool \<times> containment_tracker" where
  "tracker_unregister sid tr =
     (map_of (contained_sessions tr) sid \<noteq> None,
      tr\<lparr>contained_sessions := assoc_remove sid (contained_sessions tr)\<rparr>)"

definition as_secs :: "duration \<Rightarrow> nat" where
  "as_secs d = d div 1000000000"

definition active_remaining_seconds ::
    "uuid \<Rightarrow> instant \<Rightarrow> containment_tracker \<Rightarrow> nat option \<times> containment_tracker" where
  "active_remaining_seconds sid now tr =
     (case map_of (contained_sessions tr) sid of
        None \<Rightarrow> (None, tr)
      | Some armed_at \<Rightarrow>
          (let elapsed = nat (now - armed_at)
           in if elapsed > containment_window tr
              then (None, tr\<lparr>contained_sessions := assoc_remove sid (contained_sessions tr)\<rparr>)
              else (Some (as_secs (containment_window tr - elapsed)), tr)))"

definition list_active :: "instant \<Rightarrow> containment_tracker \<Rightarrow> (uuid \<times> nat) list \<times> containment_tracker" where
  "list_active now tr =
     (let live = (\<lambda>(i, armed_at). nat (now - armed_at) \<le> containment_window tr)
      in (map (\<lambda>(i, armed_at). (i, as_secs (containment_window tr - nat (now - armed_at))))
            (filter live (contained_sessions tr)),
          tr\<lparr>contained_sessions :=
            fold (\<lambda>(i, _). assoc_remove i) (filter (\<lambda>p. \<not> live p) (contained_sessions tr)) (contained_sessions tr)\<rparr>))"

definition LOCAL_DESTINATION_SCORE :: f64 where
  "LOCAL_DESTINATION_SCORE = 2"

record session_containment_filter =
  scf_sensitive_sources :: "string list"
  scf_outbound_command_tokens :: "string list"
  scf_network_score :: f64
  scf_process_score :: f64
  scf_shell_score :: f64

definition normalize :: "string list \<Rightarrow> string list" where
  "normalize vs = filter (\<lambda>v. v \<noteq> []) (map (\<lambda>v. to_lowercase (trim v)) vs)"

definition containment_from_config ::
    "session_containment_config \<Rightarrow> session_containment_filter \<times> containment_tracker" where
  "containment_from_config c =
     (\<lparr> scf_sensitive_sources = normalize (scc_sensitive_sources c),
        scf_outbound_command_tokens = normalize (scc_outbound_command_tokens c),
        scf_network_score = scc_network_score c, scf_process_score = scc_process_score c,
        scf_shell_score = scc_shell_score c \<rparr>,
      tracker_new (secs (unat (containment_window_seconds c))))"

definition containment_with_defaults :: "session_containment_filter \<times> containment_tracker" where
  "containment_with_defaults = containment_from_config session_containment_default"

definition is_sensitive_source :: "session_containment_filter \<Rightarrow> string \<Rightarrow> bool" where
  "is_sensitive_source flt path =
     (let lowered = to_lowercase path;
          segs = split_on CHR ''/'' lowered;
          basename = last segs;
          stem = hd (split_on CHR ''.'' basename)
      in list_ex (\<lambda>needle.
           if CHR ''/'' \<in> set needle then lowered = needle \<or> suffix (CHR ''/'' # needle) lowered
           else if prefix ''.'' needle then needle \<in> set segs \<or> prefix needle basename
           else needle \<in> set segs \<or> stem = needle) (scf_sensitive_sources flt))"

definition looks_outbound_command :: "session_containment_filter \<Rightarrow> string \<Rightarrow> bool" where
  "looks_outbound_command flt cmd =
     list_ex (str_contains (to_lowercase cmd)) (scf_outbound_command_tokens flt)"

definition spawn_is_outbound_capable :: "session_containment_filter \<Rightarrow> tool_call_context \<Rightarrow> bool" where
  "spawn_is_outbound_capable flt ctx =
     (case spawn_provenance ctx of
        Some p \<Rightarrow> is_outbound_capable p
      | None \<Rightarrow> (case full_command ctx of Some cmd \<Rightarrow> looks_outbound_command flt cmd | None \<Rightarrow> False))"

definition mk_message :: "nat \<Rightarrow> string \<Rightarrow> string" where
  "mk_message remaining kind =
     ''Session containment active ('' @ digits_of_nat remaining @ ''s remaining): '' @ kind @ '' requires review''"

definition containment_match :: "string \<Rightarrow> f64 \<Rightarrow> string \<Rightarrow> filter_result" where
  "containment_match rule score msg = matched ''session-containment'' rule score (severity_for score) msg"

text \<open>The \<open>match\<close> on the call of a contained session.\<close>

definition contained_result ::
    "session_containment_filter \<Rightarrow> tool_call_context \<Rightarrow> nat \<Rightarrow> filter_result" where
  "contained_result flt ctx remaining =
     (case call_type ctx of
        NetConnect address _ \<Rightarrow>
          if ctx_unix_socket_class ctx = Some Control
          then containment_match ''contained-local-ipc-egress'' LOCAL_DESTINATION_SCORE
                 (mk_message remaining ''local control-injection IPC'')
          else if is_loopback_bind_address address
          then containment_match ''contained-loopback-egress'' LOCAL_DESTINATION_SCORE
                 (mk_message remaining ''loopback service'')
          else containment_match ''contained-network-egress'' (scf_network_score flt)
                 (mk_message remaining ''network egress'')
      | HttpRequest _ _ \<Rightarrow>
          containment_match ''contained-network-egress'' (scf_network_score flt)
            (mk_message remaining ''network egress'')
      | ProcessSpawn _ _ \<Rightarrow>
          if spawn_is_outbound_capable flt ctx
          then containment_match ''contained-process-egress'' (scf_process_score flt)
                 (mk_message remaining ''outbound-capable process spawn'')
          else no_match ''session-containment''
      | ShellExec _ _ \<Rightarrow>
          (case full_command ctx of
             Some full \<Rightarrow>
               if looks_outbound_command flt full
               then containment_match ''contained-shell-egress'' (scf_shell_score flt)
                      (mk_message remaining ''shell outbound operation'')
               else no_match ''session-containment''
           | None \<Rightarrow> no_match ''session-containment'')
      | _ \<Rightarrow> no_match ''session-containment'')"

definition reads_sensitive :: "session_containment_filter \<Rightarrow> tool_call_context \<Rightarrow> bool" where
  "reads_sensitive flt ctx =
     (case call_type ctx of FileRead path \<Rightarrow> is_sensitive_source flt path | _ \<Rightarrow> False)"

definition containment_evaluate_at ::
    "session_containment_filter \<Rightarrow> instant \<Rightarrow> tool_call_context \<Rightarrow> containment_tracker \<Rightarrow>
     filter_result \<times> containment_tracker" where
  "containment_evaluate_at flt now ctx tr =
     (if reads_sensitive flt ctx
      then (no_match ''session-containment'', tracker_register (session_id ctx) now tr)
      else
        (let tr1 = (if source_taint ctx \<noteq> TaintNone then tracker_register (session_id ctx) now tr else tr)
         in case active_remaining_seconds (session_id ctx) now tr1 of
              (None, tr2) \<Rightarrow> (no_match ''session-containment'', tr2)
            | (Some remaining, tr2) \<Rightarrow> (contained_result flt ctx remaining, tr2)))"

definition containment_security_filter ::
    "session_containment_filter \<Rightarrow> instant \<Rightarrow> containment_tracker security_filter" where
  "containment_security_filter flt now =
     \<lparr> flt_name = ''session-containment'', flt_phase = Context, flt_ready = (\<lambda>_. True),
       flt_evaluate = (\<lambda>ctx tr. case containment_evaluate_at flt now ctx tr of (r, tr') \<Rightarrow> (Inr r, tr')),
       flt_evict = (\<lambda>_ tr. (0, tr)), flt_observe = (\<lambda>_ _ _ tr. tr) \<rparr>"

subsection \<open>The contract of a scoring filter\<close>

lemma containment_match_simps [simp]:
  "filter_name (containment_match r s m) = ''session-containment''"
  "fr_score (containment_match r s m) = s"
  "rule_id (containment_match r s m) = r"
  "fr_matched (containment_match r s m)"
  "filter_name (no_match n) = n"
  "fr_score (no_match n) = 0"
  by (simp_all add: containment_match_def matched_def no_match_def)

lemma default_scores [simp]:
  "scf_network_score (fst containment_with_defaults) = 7 / 2"
  "scf_process_score (fst containment_with_defaults) = 4"
  "scf_shell_score (fst containment_with_defaults) = 7 / 2"
  by (simp_all add: containment_with_defaults_def containment_from_config_def session_containment_default_def)

lemma contained_result_bounds:
  "filter_name (contained_result flt ctx n) = ''session-containment''"
  "0 \<le> fr_score (contained_result (fst containment_with_defaults) ctx n)"
  "fr_score (contained_result (fst containment_with_defaults) ctx n) \<le> 4"
  by (simp_all add: contained_result_def LOCAL_DESTINATION_SCORE_def split: tool_call_type.splits option.splits)

lemma containment_evaluate_cases:
  "fst (containment_evaluate_at flt now ctx tr) = no_match ''session-containment'' \<or>
   (\<exists>n. fst (containment_evaluate_at flt now ctx tr) = contained_result flt ctx n)"
  by (auto simp: containment_evaluate_at_def Let_def split: prod.splits option.splits)

interpretation sc: scoring_filter "''session-containment''"
    "containment_evaluate_at (fst containment_with_defaults) now" 4 for now
proof
  fix ctx :: tool_call_context and st :: containment_tracker
  let ?r = "fst (containment_evaluate_at (fst containment_with_defaults) now ctx st)"
  show "filter_name ?r = ''session-containment''" "0 \<le> fr_score ?r" "fr_score ?r \<le> 4"
    using containment_evaluate_cases [of "fst containment_with_defaults" now ctx st]
    by (auto simp: contained_result_bounds)
qed

text \<open>
  Containment cannot reach auto-deny by itself: when a call is denied under the default
  thresholds, the other filters' results alone sum to more than 4.0, and for a network call to
  more than 4.5, so never just the net-connect baseline (0.5) with an unknown destination (3.5).
\<close>

theorem containment_never_denies_alone:
  assumes "is_denied (route_decision
      (aggregate (fst (containment_evaluate_at (fst containment_with_defaults) now ctx tr) # others)) rs
      (auto_allow_threshold scoring_default) (auto_deny_threshold scoring_default) t)"
  shows "aggregate others > 4 \<and>
    ((\<exists>a p. call_type ctx = NetConnect a p) \<or> (\<exists>m u. call_type ctx = HttpRequest m u) \<longrightarrow> aggregate others > 9 / 2)"
proof -
  let ?r = "fst (containment_evaluate_at (fst containment_with_defaults) now ctx tr)"
  have sum: "aggregate [?r] + aggregate others > 8"
    using assms aggregate_append [of "[?r]" others]
    by (simp add: scoring_default_def SCORE_DENY_THRESHOLD_def)
  moreover have "aggregate [?r] \<le> 4" using sc.contribution_bounds [of now ctx tr] by blast
  moreover have "aggregate [?r] \<le> 7 / 2"
    if "(\<exists>a p. call_type ctx = NetConnect a p) \<or> (\<exists>m u. call_type ctx = HttpRequest m u)"
    using containment_evaluate_cases [of "fst containment_with_defaults" now ctx tr] that
    by (auto simp: aggregate_Cons contained_result_def LOCAL_DESTINATION_SCORE_def)
  ultimately show ?thesis by fastforce
qed

definition tainted_get :: tool_call_context where
  "tainted_get = (context_new 0 0 ''p'' (HttpRequest ''GET'' ''http://a/'') 1)\<lparr>source_taint := TaintHigh\<rparr>"

lemma tainted_get_simps [simp]:
  "call_type tainted_get = HttpRequest ''GET'' ''http://a/''"
  "source_taint tainted_get = TaintHigh"
  "session_id tainted_get = 1"
  by (simp_all add: tainted_get_def context_new_def)

theorem containment_never_denies_alone_witness:
  "aggregate [matched ''x'' ''y'' 5 SevError []] > 9 / 2"
  using containment_never_denies_alone [of 0 tainted_get tracker_with_defaults "[matched ''x'' ''y'' 5 SevError []]"]
  by (simp add: containment_evaluate_at_def reads_sensitive_def tracker_register_def active_remaining_seconds_def
      contained_result_def aggregate_Cons matched_def containment_match_def scoring_default_def SCORE_DENY_THRESHOLD_def)

subsection \<open>The window\<close>

lemma register_simps [simp]:
  "map_of (contained_sessions (tracker_register i now tr)) = (map_of (contained_sessions tr))(i \<mapsto> now)"
  "containment_window (tracker_register i now tr) = containment_window tr"
  by (simp_all add: tracker_register_def)

lemma active_remaining_spec:
  "fst (active_remaining_seconds i now tr) =
     (case map_of (contained_sessions tr) i of
        Some t \<Rightarrow> if nat (now - t) \<le> containment_window tr then Some (as_secs (containment_window tr - nat (now - t))) else None
      | None \<Rightarrow> None)"
  by (auto simp: active_remaining_seconds_def Let_def split: option.splits)

lemma active_remaining_tracker:
  "containment_window (snd (active_remaining_seconds i now tr)) = containment_window tr"
  "map_of (contained_sessions (snd (active_remaining_seconds i now tr))) j =
     (if j = i \<and> fst (active_remaining_seconds i now tr) = None then None else map_of (contained_sessions tr) j)"
  by (auto simp: active_remaining_seconds_def Let_def split: option.splits)

lemma containment_evaluate_tracker:
  "containment_window (snd (containment_evaluate_at flt now ctx tr)) = containment_window tr"
  "j \<noteq> session_id ctx \<Longrightarrow>
     map_of (contained_sessions (snd (containment_evaluate_at flt now ctx tr))) j = map_of (contained_sessions tr) j"
  by (auto simp: containment_evaluate_at_def Let_def active_remaining_seconds_def split: option.splits)

definition containment_calls ::
    "session_containment_filter \<Rightarrow> (instant \<times> tool_call_context) list \<Rightarrow> containment_tracker \<Rightarrow> containment_tracker" where
  "containment_calls flt calls tr = fold (\<lambda>(now, ctx) tr. snd (containment_evaluate_at flt now ctx tr)) calls tr"

text \<open>Armed no earlier than \<open>t0\<close>: kept by every call up to the end of the window.\<close>

definition armed_since :: "uuid \<Rightarrow> instant \<Rightarrow> duration \<Rightarrow> containment_tracker \<Rightarrow> bool" where
  "armed_since i t0 w tr \<longleftrightarrow> containment_window tr = w \<and> (\<exists>t \<ge> t0. map_of (contained_sessions tr) i = Some t)"

lemma armed_since_evaluate:
  assumes "armed_since i t0 w tr" and "t0 \<le> now" and "now \<le> t0 + int w"
  shows "armed_since i t0 w (snd (containment_evaluate_at flt now ctx tr))"
proof (cases "session_id ctx = i")
  case False
  with assms(1) show ?thesis by (auto simp: armed_since_def containment_evaluate_tracker)
next
  case True
  with assms show ?thesis
    by (auto simp: armed_since_def containment_evaluate_at_def Let_def active_remaining_seconds_def)
qed

lemma armed_since_calls:
  "armed_since i t0 w tr \<Longrightarrow> \<forall>(now, ctx) \<in> set calls. t0 \<le> now \<and> now \<le> t0 + int w \<Longrightarrow>
   armed_since i t0 w (containment_calls flt calls tr)"
proof (induction calls arbitrary: tr)
  case (Cons call calls)
  obtain now ctx where call: "call = (now, ctx)" by fastforce
  have "armed_since i t0 w (snd (containment_evaluate_at flt now ctx tr))"
    using Cons.prems call by (intro armed_since_evaluate) auto
  then have "armed_since i t0 w (containment_calls flt calls (snd (containment_evaluate_at flt now ctx tr)))"
    using Cons.prems(2) by (intro Cons.IH) auto
  then show ?case by (simp add: call containment_calls_def)
qed (simp add: containment_calls_def)

text \<open>
  C39. Containment holds for its whole window: once a session has read a sensitive source or made
  a tainted call, no sequence of further calls, of any session, lifts it before the window is over,
  and an HTTP request of that session is still scored then.
\<close>

theorem containment_holds_for_window:
  assumes "reads_sensitive flt ctx0 \<or> source_taint ctx0 \<noteq> TaintNone"
    and "\<forall>(t, c) \<in> set calls. t0 \<le> t \<and> t \<le> t0 + int (containment_window tr)"
    and "call_type ctx = HttpRequest m u" and "session_id ctx = session_id ctx0"
    and "t0 \<le> now" and "now \<le> t0 + int (containment_window tr)"
  shows "rule_id (fst (containment_evaluate_at flt now ctx
           (containment_calls flt calls (snd (containment_evaluate_at flt t0 ctx0 tr))))) = ''contained-network-egress'' \<and>
         fr_score (fst (containment_evaluate_at flt now ctx
           (containment_calls flt calls (snd (containment_evaluate_at flt t0 ctx0 tr))))) = scf_network_score flt"
proof -
  have "armed_since (session_id ctx0) t0 (containment_window tr) (snd (containment_evaluate_at flt t0 ctx0 tr))"
    using assms(1) by (auto simp: armed_since_def containment_evaluate_at_def Let_def active_remaining_seconds_def)
  then have "armed_since (session_id ctx) t0 (containment_window tr)
      (containment_calls flt calls (snd (containment_evaluate_at flt t0 ctx0 tr)))"
    using armed_since_calls assms(2,4) by simp
  then show ?thesis
    using assms(3,5,6)
    by (auto simp: armed_since_def containment_evaluate_at_def reads_sensitive_def Let_def
        active_remaining_seconds_def contained_result_def)
qed

theorem containment_holds_for_window_witness:
  "rule_id (fst (containment_evaluate_at (fst containment_with_defaults) 5 (tainted_get\<lparr>source_taint := TaintNone\<rparr>)
     (snd (containment_evaluate_at (fst containment_with_defaults) 3 tainted_get tracker_with_defaults)))) =
   ''contained-network-egress''"
  using containment_holds_for_window [of "fst containment_with_defaults" tainted_get "[]" 3 tracker_with_defaults
      "tainted_get\<lparr>source_taint := TaintNone\<rparr>" "''GET''" "''http://a/''" 5]
  by (simp add: containment_calls_def tracker_with_defaults_def tracker_new_def secs_def)

lemma fold_assoc_remove:
  "fold (\<lambda>(i, _). assoc_remove i) ps xs = filter (\<lambda>p. fst p \<notin> fst ` set ps) xs"
  by (induction ps arbitrary: xs) (auto simp: assoc_remove_def intro: filter_cong)

text \<open>
  What the dashboard lists is what the filter enforces: a session is listed with its remaining
  seconds exactly when the filter would treat it as contained with those seconds, and the listing
  drops exactly the lapsed sessions.
\<close>

theorem list_active_agrees:
  assumes "distinct (map fst (contained_sessions tr))"
  shows "((i, s) \<in> set (fst (list_active now tr)) \<longleftrightarrow> fst (active_remaining_seconds i now tr) = Some s) \<and>
    map_of (contained_sessions (snd (list_active now tr))) i =
      (if fst (active_remaining_seconds i now tr) = None then None else map_of (contained_sessions tr) i)"
proof -
  let ?dead = "filter (\<lambda>p. \<not> (\<lambda>(i, armed_at). nat (now - armed_at) \<le> containment_window tr) p) (contained_sessions tr)"
  have mem: "(i, t) \<in> set (contained_sessions tr) \<longleftrightarrow> map_of (contained_sessions tr) i = Some t" for t
    using assms by simp
  have dead: "i \<in> fst ` set ?dead \<longleftrightarrow> (\<exists>t. map_of (contained_sessions tr) i = Some t \<and> \<not> nat (now - t) \<le> containment_window tr)"
    using mem by (force simp: image_iff)
  have "map_of (filter (\<lambda>p. fst p \<notin> fst ` set ?dead) (contained_sessions tr)) i =
      (if i \<notin> fst ` set ?dead then map_of (contained_sessions tr) i else None)"
    by (rule map_of_filter_fst)
  with dead mem show ?thesis
    unfolding list_active_def Let_def fold_assoc_remove active_remaining_spec
    by (auto simp: image_iff split: option.splits)
qed

theorem list_active_agrees_witness:
  "(1, 600) \<in> set (fst (list_active 3 (tracker_register 1 3 tracker_with_defaults)))"
proof -
  have "distinct (map fst (contained_sessions (tracker_register 1 3 tracker_with_defaults)))"
    by (simp add: tracker_register_def tracker_with_defaults_def tracker_new_def)
  from list_active_agrees [OF this, of 1 600 3] show ?thesis
    by (simp add: active_remaining_spec tracker_with_defaults_def tracker_new_def secs_def as_secs_def)
qed

lemma default_tokens:
  "scf_outbound_command_tokens (fst containment_with_defaults) =
     [''curl'', ''wget'', ''nc'', ''netcat'', ''scp'', ''ftp'', ''sftp'', ''nslookup'', ''dig'']"
proof -
  have "normalize [''curl '', ''wget '', ''nc '', ''netcat '', ''scp '', ''ftp '', ''sftp '', ''nslookup '', '' dig ''] =
    [''curl'', ''wget'', ''nc'', ''netcat'', ''scp'', ''ftp'', ''sftp'', ''nslookup'', ''dig'']"
    by code_simp
  then show ?thesis
    by (simp add: containment_with_defaults_def containment_from_config_def session_containment_default_def)
qed

lemma default_sources:
  "scf_sensitive_sources (fst containment_with_defaults) = scc_sensitive_sources session_containment_default"
proof -
  have "normalize (scc_sensitive_sources session_containment_default) =
      scc_sensitive_sources session_containment_default"
    unfolding session_containment_default_def session_containment_config.simps by code_simp
  then show ?thesis by (simp add: containment_with_defaults_def containment_from_config_def)
qed

text \<open>
  The configured tokens lose the blanks that delimit them: \<open>normalize\<close> trims them, so
  \<open>"nc "\<close> becomes the bare substring \<open>nc\<close> and \<open>" dig "\<close> the substring \<open>dig\<close>, and commands
  that merely embed them (\<open>make bench\<close>, \<open>sha256 digest\<close>) count as outbound.
\<close>

theorem default_tokens_are_bare_substrings:
  "scf_outbound_command_tokens (fst containment_with_defaults) =
     [''curl'', ''wget'', ''nc'', ''netcat'', ''scp'', ''ftp'', ''sftp'', ''nslookup'', ''dig''] \<and>
   looks_outbound_command (fst containment_with_defaults) ''make bench'' \<and>
   looks_outbound_command (fst containment_with_defaults) ''sha256 digest'' \<and>
   \<not> looks_outbound_command (fst containment_with_defaults) ''cargo test''"
  unfolding looks_outbound_command_def default_tokens by code_simp

lemma sensitive_source_samples:
  "is_sensitive_source (fst containment_with_defaults) ''/home/u/.ssh/id_rsa''"
  "is_sensitive_source (fst containment_with_defaults) ''/app/.env.local''"
  "is_sensitive_source (fst containment_with_defaults) ''/app/config/secrets.yaml''"
  "\<not> is_sensitive_source (fst containment_with_defaults) ''/src/secret_scan.rs''"
  "\<not> is_sensitive_source (fst containment_with_defaults) ''/src/credentials_helper.rs''"
  unfolding is_sensitive_source_def default_sources session_containment_default_def session_containment_config.simps
  by code_simp+

end
