(* ===== verification/Allowlist.thy ===== *)
theory Allowlist
  imports Scoring
begin

section \<open>The allowlist filter\<close>

text \<open>
  \<open>crates/grith-proxy/src/filters/allowlist.rs\<close>: operator rules on paths, commands and network
  targets. The filter has no state.
\<close>

record list_entry =
  le_pattern :: string
  le_plugins :: "string list"

record allowlist_config =
  al_allow :: "list_entry list"
  al_deny :: "list_entry list"

definition path_matches :: "string \<Rightarrow> string \<Rightarrow> bool" where
  "path_matches path pattern =
     (if pattern = ''*'' then True
      else if prefix ''*'' pattern then
        (let sfx = tl pattern
         in if suffix ''*'' sfx then str_contains path (butlast sfx) else suffix sfx path)
      else if suffix ''*'' pattern then prefix (butlast pattern) path
      else path = pattern \<or> suffix pattern path)"

definition plugin_matches :: "string \<Rightarrow> string list \<Rightarrow> bool" where
  "plugin_matches pid plugins = (plugins = [] \<or> list_ex (\<lambda>p. p = pid \<or> p = ''*'') plugins)"

definition or_opt :: "'a option \<Rightarrow> 'a option \<Rightarrow> 'a option" where
  "or_opt a b = (case a of Some x \<Rightarrow> Some x | None \<Rightarrow> b)"

definition net_target :: "tool_call_context \<Rightarrow> string option" where
  "net_target ctx = map_option (\<lambda>(addr, port). addr @ '':'' @ digits_of_nat (unat port)) (ctx_address ctx)"

definition single_target :: "tool_call_context \<Rightarrow> string" where
  "single_target ctx =
     (case or_opt (or_opt (or_opt (ctx_path ctx) (ctx_url ctx)) (full_command ctx)) (net_target ctx) of
        Some t \<Rightarrow> t | None \<Rightarrow> [])"

definition allowlist_targets :: "tool_call_context \<Rightarrow> string list" where
  "allowlist_targets ctx = (if ctx_paths ctx = [] then [single_target ctx] else ctx_paths ctx)"

definition entry_matches :: "tool_call_context \<Rightarrow> list_entry \<Rightarrow> bool" where
  "entry_matches ctx e \<longleftrightarrow>
     plugin_matches (plugin_id ctx) (le_plugins e) \<and>
     list_ex (\<lambda>t. path_matches t (le_pattern e)) (allowlist_targets ctx)"

definition allowlist_evaluate :: "allowlist_config \<Rightarrow> tool_call_context \<Rightarrow> filter_result" where
  "allowlist_evaluate cfg ctx =
     (case find (entry_matches ctx) (al_deny cfg) of
        Some e \<Rightarrow> matched ''allowlist'' ''deny-list'' 3 SevError (''Path matches denylist: '' @ le_pattern e)
      | None \<Rightarrow>
         (case find (entry_matches ctx) (al_allow cfg) of
            Some e \<Rightarrow> matched ''allowlist'' ''allow-list'' (- 1) Notice (''Path matches allowlist: '' @ le_pattern e)
          | None \<Rightarrow> no_match ''allowlist''))"

subsection \<open>Lemmas\<close>

lemma list_ex_find: "list_ex P es \<longleftrightarrow> find P es \<noteq> None"
  by (auto simp: find_None_iff list_ex_iff)

text \<open>What each kind of pattern means.\<close>

lemma path_matches_any: "path_matches p ''*''"
  by (simp add: path_matches_def)

lemma path_matches_suffix: "s \<noteq> [] \<Longrightarrow> last s \<noteq> CHR ''*'' \<Longrightarrow> path_matches p (CHR ''*'' # s) = suffix s p"
  by (auto simp: path_matches_def suffix_def)

lemma path_matches_contains: "path_matches p (CHR ''*'' # s @ ''*'') = str_contains p s"
  by (simp add: path_matches_def)

lemma path_matches_prefix: "s \<noteq> [] \<Longrightarrow> hd s \<noteq> CHR ''*'' \<Longrightarrow> path_matches p (s @ ''*'') = prefix s p"
proof -
  assume "s \<noteq> []" "hd s \<noteq> CHR ''*''"
  moreover have "suffix ''*'' (s @ ''*'')" by (simp add: suffix_def)
  ultimately show ?thesis by (cases s) (simp_all add: path_matches_def)
qed

text \<open>
  The verdict of the allowlist filter: a matching denylist entry always wins and scores +3.0,
  else a matching allowlist entry scores -1.0, else the filter does not match. A path of the call
  that matches any entry of its plugin counts, whichever path of the call it is.
\<close>

theorem allowlist_verdict:
  "if list_ex (entry_matches ctx) (al_deny cfg)
   then rule_id (allowlist_evaluate cfg ctx) = ''deny-list'' \<and> fr_matched (allowlist_evaluate cfg ctx) \<and>
        fr_score (allowlist_evaluate cfg ctx) = 3
   else if list_ex (entry_matches ctx) (al_allow cfg)
   then rule_id (allowlist_evaluate cfg ctx) = ''allow-list'' \<and> fr_matched (allowlist_evaluate cfg ctx) \<and>
        fr_score (allowlist_evaluate cfg ctx) = -1
   else allowlist_evaluate cfg ctx = no_match ''allowlist''"
  by (cases "find (entry_matches ctx) (al_deny cfg)"; cases "find (entry_matches ctx) (al_allow cfg)")
     (simp_all add: allowlist_evaluate_def matched_def list_ex_find)

text \<open>
  A link cannot be planted at a denylisted name: creating a link is scored by the denylist
  when either its target or its new name matches an entry for the plugin.
\<close>

theorem denylist_covers_both_link_ends:
  assumes "call_type ctx = FileLink target name hard" and "e \<in> set (al_deny cfg)"
    and "plugin_matches (plugin_id ctx) (le_plugins e)"
    and "path_matches target (le_pattern e) \<or> path_matches name (le_pattern e)"
  shows "rule_id (allowlist_evaluate cfg ctx) = ''deny-list''"
proof -
  have "entry_matches ctx e"
    using assms(1,3,4) by (auto simp: entry_matches_def allowlist_targets_def ctx_paths_def)
  then have "find (entry_matches ctx) (al_deny cfg) \<noteq> None"
    using assms(2) by (auto simp: find_None_iff)
  then show ?thesis by (auto simp: allowlist_evaluate_def matched_def)
qed

theorem denylist_covers_both_link_ends_witness:
  "rule_id (allowlist_evaluate \<lparr> al_allow = [], al_deny = [\<lparr> le_pattern = ''.env'', le_plugins = [] \<rparr>] \<rparr>
     (context_new 0 0 ''p'' (FileLink ''/tmp/x'' ''/app/.env'' False) 1)) = ''deny-list''"
  using denylist_covers_both_link_ends [of "context_new 0 0 ''p'' (FileLink ''/tmp/x'' ''/app/.env'' False) 1"
      "''/tmp/x''" "''/app/.env''" False "\<lparr> le_pattern = ''.env'', le_plugins = [] \<rparr>"
      "\<lparr> al_allow = [], al_deny = [\<lparr> le_pattern = ''.env'', le_plugins = [] \<rparr>] \<rparr>"]
  by (simp add: context_new_def plugin_matches_def path_matches_def suffix_def)

text \<open>
  A denylist entry does not deny: on its own it scores 3.0, the auto-allow threshold itself,
  so under the default thresholds a call that only the denylist objects to is allowed.
\<close>

theorem denylist_alone_is_allowed:
  "is_allowed (route_decision (aggregate [allowlist_evaluate cfg ctx]) rs
     (auto_allow_threshold scoring_default) (auto_deny_threshold scoring_default) t)"
  by (auto simp: allowlist_evaluate_def aggregate_Cons matched_def no_match_def scoring_default_def
      SCORE_QUEUE_THRESHOLD_def SCORE_DENY_THRESHOLD_def split: option.splits)

end
