(* ===== verification/Sliding_Window.thy ===== *)
theory Sliding_Window
  imports Prelude
begin

section \<open>Sliding-window limiters\<close>

text \<open>
  The two limiters of the system that admit at most so many events per window:
  \<open>BucketLimiter\<close> and \<open>ApiRateLimiter\<close> of \<open>crates/grith-server/src/rate_limit.rs\<close>, and
  \<open>RateLimiter\<close> of \<open>crates/grith-notify/src/rate_limiter.rs\<close>. Both are instances of the locale
  \<open>sliding_window\<close>, in which the admission bound and the meaning of the retry time are proved once.
  The clock reading is an argument; \<open>Inl d\<close> is \<open>Err(d)\<close>.
\<close>

type_synonym verdict = "duration + unit"

definition live :: "duration \<Rightarrow> instant \<Rightarrow> instant \<Rightarrow> bool" where
  "live w now t \<longleftrightarrow> nat (now - t) < w"

fun admitted :: "(instant \<Rightarrow> 's \<Rightarrow> verdict \<times> 's) \<Rightarrow> instant list \<Rightarrow> 's \<Rightarrow> instant list" where
  "admitted admit [] s = []"
| "admitted admit (t # ts) s =
     (case admit t s of
        (Inr _, s') \<Rightarrow> t # admitted admit ts s'
      | (Inl _, s') \<Rightarrow> admitted admit ts s')"

locale sliding_window =
  fixes admit :: "instant \<Rightarrow> 's \<Rightarrow> verdict \<times> 's"
    and log :: "'s \<Rightarrow> instant list"
    and limit :: nat
    and width :: duration
  assumes accepts: "length (filter (live width now) (log s)) < limit \<Longrightarrow> fst (admit now s) = Inr ()"
    and accepted: "admit now s = (Inr u, s') \<Longrightarrow>
          length (filter (live width now) (log s)) < limit \<and> log s' = filter (live width now) (log s) @ [now]"
    and rejected: "admit now s = (Inl d, s') \<Longrightarrow>
          filter (live width now) (log s') = filter (live width now) (log s) \<and>
          (limit = 0 \<or> log s' \<noteq> [] \<and> log s' = filter (live width now) (log s) \<and> limit \<le> length (log s') \<and>
             d = width - nat (now - hd (log s')))"
begin

lemma live_mono: "now \<le> now' \<Longrightarrow> live width now' t \<Longrightarrow> live width now t"
  by (simp add: live_def)

lemma live_filter: "now \<le> now' \<Longrightarrow>
    filter (live width now') (filter (live width now) ts) = filter (live width now') ts"
  using live_mono by (auto intro: filter_cong)

lemma live_agree:
  "now \<le> now' \<Longrightarrow> filter (live width now) xs = filter (live width now) ys \<Longrightarrow>
   filter (live width now') xs = filter (live width now') ys"
  by (metis live_filter)

text \<open>The bound, with the events admitted so far as an accumulator.\<close>

definition bounded :: "instant list \<Rightarrow> bool" where
  "bounded acc \<longleftrightarrow> (\<forall>t. length (filter (\<lambda>a. a \<le> t \<and> live width t a) acc) \<le> limit)"

lemma bounded_snoc:
  assumes "bounded acc" and "\<forall>a \<in> set acc. a \<le> now" and "length (filter (live width now) acc) < limit"
  shows "bounded (acc @ [now])"
  unfolding bounded_def
proof
  fix t
  show "length (filter (\<lambda>a. a \<le> t \<and> live width t a) (acc @ [now])) \<le> limit"
  proof (cases "now \<le> t")
    case True
    have "length (filter (\<lambda>a. a \<le> t \<and> live width t a) acc) \<le> length (filter (live width now) acc)"
      by (rule length_filter_mono) (use live_mono [OF True] in blast)
    then have "length (filter (\<lambda>a. a \<le> t \<and> live width t a) acc) < limit" using assms(3) by linarith
    then show ?thesis by simp
  next
    case False
    then show ?thesis using assms(1) by (simp add: bounded_def)
  qed
qed

lemma admitted_bounded_acc:
  "bounded acc \<Longrightarrow> \<forall>a \<in> set acc. a \<le> t0 \<Longrightarrow> filter (live width t0) (log s) = filter (live width t0) acc \<Longrightarrow>
   sorted (t0 # ts) \<Longrightarrow> bounded (acc @ admitted admit ts s)"
proof (induction ts arbitrary: acc t0 s)
  case (Cons t ts)
  have le: "t0 \<le> t" "sorted (t # ts)" using Cons.prems by auto
  have acc: "\<forall>a \<in> set acc. a \<le> t" using Cons.prems(2) le by fastforce
  have agree: "filter (live width t) (log s) = filter (live width t) acc"
    using live_agree [OF le(1) Cons.prems(3)] .
  obtain r s' where step: "admit t s = (r, s')" by fastforce
  show ?case
  proof (cases r)
    case (Inr u)
    with step have "length (filter (live width t) (log s)) < limit"
        and log: "log s' = filter (live width t) (log s) @ [t]"
      using accepted by auto
    then have "bounded (acc @ [t])" using Cons.prems(1) acc agree by (intro bounded_snoc) simp_all
    then have "bounded ((acc @ [t]) @ admitted admit ts s')"
      by (rule Cons.IH [where ?t0.0 = t]) (use acc le log agree in auto)
    with step Inr show ?thesis by simp
  next
    case (Inl d)
    with step have "filter (live width t) (log s') = filter (live width t) acc"
      using rejected agree by auto
    then have "bounded (acc @ admitted admit ts s')"
      by (rule Cons.IH [OF Cons.prems(1) acc _ le(2)])
    with step Inl show ?thesis by simp
  qed
qed simp

lemma admitted_bounded:
  assumes "log s = []" and "sorted ts"
  shows "length (filter (\<lambda>a. a \<le> t \<and> live width t a) (admitted admit ts s)) \<le> limit"
proof (cases ts)
  case (Cons t1 rest)
  have "bounded ([] @ admitted admit ts s)"
    using assms Cons by (intro admitted_bounded_acc [where ?t0.0 = t1]) (auto simp: bounded_def)
  then show ?thesis by (simp add: bounded_def)
qed simp

text \<open>A state whose log is full at most and in order, as every reachable one is.\<close>

definition proper :: "instant \<Rightarrow> 's \<Rightarrow> bool" where
  "proper now s \<longleftrightarrow> sorted (log s) \<and> length (log s) \<le> limit \<and> (\<forall>t \<in> set (log s). t \<le> now)"

lemma proper_admit:
  assumes "proper t0 s" and "t0 \<le> now" and "0 < limit"
  shows "proper now (snd (admit now s))"
proof (cases "admit now s")
  case (Pair r s')
  have old: "sorted (filter (live width now) (log s))" "length (filter (live width now) (log s)) \<le> limit"
      "\<forall>t \<in> set (log s). t \<le> now"
    using assms order_trans [OF length_filter_le [of "live width now" "log s"]]
    by (auto simp: proper_def sorted_wrt_filter intro: order_trans)
  show ?thesis
  proof (cases r)
    case (Inr u)
    then have "length (filter (live width now) (log s)) < limit" "log s' = filter (live width now) (log s) @ [now]"
      using accepted Pair by auto
    with old Pair show ?thesis by (simp add: proper_def sorted_append)
  next
    case (Inl d)
    then have "log s' = filter (live width now) (log s)" using rejected Pair assms(3) by auto
    with old Pair show ?thesis by (simp add: proper_def)
  qed
qed

lemma retry_after_bounds_and_works:
  assumes "proper now s" and "0 < limit" and "admit now s = (Inl d, s')"
  shows "0 < d \<and> d \<le> width \<and> fst (admit (now + int d) s') = Inr ()"
proof -
  from rejected [OF assms(3)] assms(2) have ne: "log s' \<noteq> []" and log: "log s' = filter (live width now) (log s)"
      and d: "d = width - nat (now - hd (log s'))"
    by auto
  have hd: "live width now (hd (log s'))" "hd (log s') \<le> now"
    using ne log assms(1) hd_in_set [OF ne] by (auto simp: proper_def)
  then have pos: "0 < d" and le: "d \<le> width" using d by (simp_all add: live_def)
  have "now + int d - hd (log s') = int width" using hd pos d by (simp add: live_def)
  then have dead: "\<not> live width (now + int d) (hd (log s'))" by (simp add: live_def)
  have "filter (live width (now + int d)) (log s') = filter (live width (now + int d)) (tl (log s'))"
    using ne dead by (cases "log s'") auto
  then have "length (filter (live width (now + int d)) (log s')) \<le> length (tl (log s'))"
    by (metis length_filter_le)
  also have "\<dots> < limit"
  proof -
    have "length (log s') \<le> limit"
      using log assms(1) order_trans [OF length_filter_le [of "live width now" "log s"]] by (simp add: proper_def)
    then show ?thesis using ne by (cases "log s'") auto
  qed
  finally have "fst (admit (now + int d) s') = Inr ()" by (rule accepts)
  with pos le show ?thesis by blast
qed

end

subsection \<open>The API limiter\<close>

datatype rate_limit_bucket = General | Write | ProxyTest | Ipc

record bucket_limiter =
  max_rps :: u32
  bl_window :: duration
  timestamps :: "instant list"

definition bucket_new :: "u32 \<Rightarrow> bucket_limiter" where
  "bucket_new m = \<lparr> max_rps = m, bl_window = secs 1, timestamps = [] \<rparr>"

definition bucket_check :: "instant \<Rightarrow> bucket_limiter \<Rightarrow> verdict \<times> bucket_limiter" where
  "bucket_check now b =
     (if max_rps b = 0 then (Inl (bl_window b), b)
      else
        (let ts = filter (\<lambda>t. t > now - int (bl_window b)) (timestamps b)
         in if length ts \<ge> unat (max_rps b)
            then (Inl (bl_window b - nat (now - ts ! 0)), b\<lparr>timestamps := ts\<rparr>)
            else (Inr (), b\<lparr>timestamps := ts @ [now]\<rparr>)))"

record api_rate_limiter =
  api_enabled :: bool
  api_buckets :: "rate_limit_bucket \<rightharpoonup> bucket_limiter"

definition api_new :: "u32 \<Rightarrow> u32 \<Rightarrow> u32 \<Rightarrow> u32 \<Rightarrow> api_rate_limiter" where
  "api_new general_rps write_rps proxy_test_rps ipc_rps =
     \<lparr> api_enabled = True,
       api_buckets = [General \<mapsto> bucket_new general_rps, Write \<mapsto> bucket_new write_rps,
                      ProxyTest \<mapsto> bucket_new proxy_test_rps, Ipc \<mapsto> bucket_new ipc_rps] \<rparr>"

definition api_disabled :: api_rate_limiter where
  "api_disabled = \<lparr> api_enabled = False, api_buckets = Map.empty \<rparr>"

definition api_check :: "rate_limit_bucket \<Rightarrow> instant \<Rightarrow> api_rate_limiter \<Rightarrow> verdict \<times> api_rate_limiter" where
  "api_check k now l =
     (if \<not> api_enabled l then (Inr (), l)
      else case api_buckets l k of
          None \<Rightarrow> (Inr (), l)
        | Some b \<Rightarrow> (case bucket_check now b of (r, b') \<Rightarrow> (r, l\<lparr>api_buckets := (api_buckets l)(k \<mapsto> b')\<rparr>)))"

text \<open>The middleware: the request goes on, or the answer is 429 with the seconds to wait.\<close>

datatype response = RunNext | TooManyRequests (retry_after_seconds: nat)

definition api_middleware :: "rate_limit_bucket \<Rightarrow> instant \<Rightarrow> api_rate_limiter \<Rightarrow> response \<times> api_rate_limiter" where
  "api_middleware k now l =
     (case api_check k now l of
        (Inr _, l') \<Rightarrow> (RunNext, l')
      | (Inl d, l') \<Rightarrow> (TooManyRequests (max 1 ((d + 999999999) div 1000000000)), l'))"

subsection \<open>The notification limiter\<close>

record rate_limiter =
  rlm_max_per_window :: u32
  rlm_window_duration :: duration
  quiet_hours :: "(nat \<times> nat) option"

type_synonym channel_windows = "string \<rightharpoonup> instant list"

definition rate_limiter_new :: "u32 \<Rightarrow> duration \<Rightarrow> rate_limiter" where
  "rate_limiter_new m w = \<lparr> rlm_max_per_window = m, rlm_window_duration = w, quiet_hours = None \<rparr>"

definition rate_limiter_default :: rate_limiter where
  "rate_limiter_default = rate_limiter_new 60 (secs 3600)"

definition set_quiet_hours :: "nat \<Rightarrow> nat \<Rightarrow> rate_limiter \<Rightarrow> rate_limiter" where
  "set_quiet_hours s e l = l\<lparr>quiet_hours := Some (s, e)\<rparr>"

definition channel_window :: "string \<Rightarrow> channel_windows \<Rightarrow> instant list" where
  "channel_window ch ws = (case ws ch of Some ts \<Rightarrow> ts | None \<Rightarrow> [])"

definition notify_check :: "rate_limiter \<Rightarrow> string \<Rightarrow> instant \<Rightarrow> channel_windows \<Rightarrow> verdict \<times> channel_windows" where
  "notify_check l ch now ws =
     (let ts = filter (\<lambda>t. nat (now - t) < rlm_window_duration l) (channel_window ch ws);
          ws' = ws(ch \<mapsto> ts)
      in if length ts \<ge> unat (rlm_max_per_window l)
         then (case ts of
                 oldest # _ \<Rightarrow> (Inl (rlm_window_duration l - nat (now - oldest)), ws')
               | [] \<Rightarrow> (Inr (), ws'))
         else (Inr (), ws'))"

definition notify_record :: "string \<Rightarrow> instant \<Rightarrow> channel_windows \<Rightarrow> channel_windows" where
  "notify_record ch now ws = ws(ch \<mapsto> channel_window ch ws @ [now])"

definition check_and_record :: "rate_limiter \<Rightarrow> string \<Rightarrow> instant \<Rightarrow> channel_windows \<Rightarrow> verdict \<times> channel_windows" where
  "check_and_record l ch now ws =
     (let ts = filter (\<lambda>t. nat (now - t) < rlm_window_duration l) (channel_window ch ws)
      in if length ts \<ge> unat (rlm_max_per_window l) \<and> ts \<noteq> []
         then (Inl (rlm_window_duration l - nat (now - hd ts)), ws(ch \<mapsto> ts))
         else (Inr (), ws(ch \<mapsto> ts @ [now])))"

definition is_quiet_hours :: "rate_limiter \<Rightarrow> nat \<Rightarrow> bool" where
  "is_quiet_hours l hour =
     (case quiet_hours l of
        None \<Rightarrow> False
      | Some (s, e) \<Rightarrow> if s \<le> e then hour \<ge> s \<and> hour < e else hour \<ge> s \<or> hour < e)"

definition notify_reset :: "string \<Rightarrow> channel_windows \<Rightarrow> channel_windows" where
  "notify_reset ch ws = ws(ch := None)"

definition notify_reset_all :: "channel_windows \<Rightarrow> channel_windows" where
  "notify_reset_all ws = Map.empty"

subsection \<open>Both are sliding windows\<close>

definition bucket_admit :: "u32 \<Rightarrow> instant \<Rightarrow> instant list \<Rightarrow> verdict \<times> instant list" where
  "bucket_admit m now ts =
     (case bucket_check now \<lparr> max_rps = m, bl_window = secs 1, timestamps = ts \<rparr> of (r, b) \<Rightarrow> (r, timestamps b))"

lemma bucket_live: "(<) (now - int (secs 1)) = live (secs 1) now"
  by (auto simp: live_def secs_def fun_eq_iff)

lemma unat_pos: "(m :: u32) \<noteq> 0 \<Longrightarrow> 0 < unat m"
  by (simp add: unat_gt_0)

lemma bucket_admit_rejected:
  assumes "bucket_admit m now s = (Inl d, s')"
  shows "if m = 0 then s' = s
    else s' \<noteq> [] \<and> s' = filter (live (secs 1) now) s \<and> unat m \<le> length s' \<and> d = secs 1 - nat (now - hd s')"
proof (cases "m = 0")
  case False
  with assms have s': "s' = filter (live (secs 1) now) s" "unat m \<le> length s'" "d = secs 1 - nat (now - s' ! 0)"
    by (auto simp: bucket_admit_def bucket_check_def Let_def bucket_live simp del: One_nat_def split: if_splits)
  moreover have "s' \<noteq> []" using unat_pos [OF False] s'(2) by auto
  ultimately show ?thesis using False by (simp add: hd_conv_nth)
qed (use assms in \<open>simp add: bucket_admit_def bucket_check_def\<close>)

interpretation bucket: sliding_window "bucket_admit m" id "unat m" "secs 1" for m
proof
  fix now :: instant and s s' :: "instant list" and u :: unit and d :: duration
  let ?ts = "filter (live (secs 1) now) s"
  show "length (filter (live (secs 1) now) (id s)) < unat m \<Longrightarrow> fst (bucket_admit m now s) = Inr ()"
    by (auto simp: bucket_admit_def bucket_check_def Let_def bucket_live simp del: One_nat_def)
  show "bucket_admit m now s = (Inr u, s') \<Longrightarrow>
      length (filter (live (secs 1) now) (id s)) < unat m \<and> id s' = filter (live (secs 1) now) (id s) @ [now]"
    by (auto simp: bucket_admit_def bucket_check_def Let_def bucket_live simp del: One_nat_def split: if_splits)
  show "bucket_admit m now s = (Inl d, s') \<Longrightarrow>
      filter (live (secs 1) now) (id s') = filter (live (secs 1) now) (id s) \<and>
      (unat m = 0 \<or> id s' \<noteq> [] \<and> id s' = filter (live (secs 1) now) (id s) \<and> unat m \<le> length (id s') \<and>
         d = secs 1 - nat (now - hd (id s')))"
    using bucket_admit_rejected [of m now s d s'] by (cases "m = 0") auto
qed

text \<open>A limit of zero still lets one notification through per window, hence the \<open>max 1\<close>.\<close>

interpretation channel: sliding_window "check_and_record l ch" "channel_window ch"
    "max 1 (unat (rlm_max_per_window l))" "rlm_window_duration l" for l ch
proof
  fix now :: instant and s s' :: channel_windows and u :: unit and d :: duration
  show "length (filter (live (rlm_window_duration l) now) (channel_window ch s)) < max 1 (unat (rlm_max_per_window l)) \<Longrightarrow>
      fst (check_and_record l ch now s) = Inr ()"
    by (cases "filter (live (rlm_window_duration l) now) (channel_window ch s)")
       (auto simp: check_and_record_def Let_def live_def [abs_def])
  show "check_and_record l ch now s = (Inr u, s') \<Longrightarrow>
      length (filter (live (rlm_window_duration l) now) (channel_window ch s)) < max 1 (unat (rlm_max_per_window l)) \<and>
      channel_window ch s' = filter (live (rlm_window_duration l) now) (channel_window ch s) @ [now]"
    by (auto simp: check_and_record_def Let_def live_def [abs_def] channel_window_def split: if_splits)
  show "check_and_record l ch now s = (Inl d, s') \<Longrightarrow>
      filter (live (rlm_window_duration l) now) (channel_window ch s') = filter (live (rlm_window_duration l) now) (channel_window ch s) \<and>
      (max 1 (unat (rlm_max_per_window l)) = 0 \<or>
       channel_window ch s' \<noteq> [] \<and> channel_window ch s' = filter (live (rlm_window_duration l) now) (channel_window ch s) \<and>
       max 1 (unat (rlm_max_per_window l)) \<le> length (channel_window ch s') \<and>
       d = rlm_window_duration l - nat (now - hd (channel_window ch s')))"
    by (auto simp: check_and_record_def Let_def live_def [abs_def] channel_window_def Suc_le_eq split: if_splits)
qed

subsection \<open>Properties\<close>

text \<open>
  The API limiter never admits more than \<open>max_rps\<close> requests to a bucket within any one
  second, wherever the second starts, for requests at times that do not run backwards.
\<close>

theorem bucket_admits_at_most_max_rps:
  assumes "sorted ts"
  shows "length (filter (\<lambda>a. t - int (secs 1) < a \<and> a \<le> t) (admitted (bucket_admit m) ts [])) \<le> unat m"
proof -
  have "(\<lambda>a. t - int (secs 1) < a \<and> a \<le> t) = (\<lambda>a. a \<le> t \<and> live (secs 1) t a)"
    by (auto simp: live_def secs_def fun_eq_iff)
  then show ?thesis using bucket.admitted_bounded [of "[]" ts t m] assms by simp
qed

theorem bucket_admits_at_most_max_rps_witness:
  "length (filter (\<lambda>a. 5 - int (secs 1) < a \<and> a \<le> 5) (admitted (bucket_admit 2) [1, 2, 3, 4] [])) \<le> 2"
  using bucket_admits_at_most_max_rps [of "[1, 2, 3, 4]" 5 2] by simp

text \<open>
  The retry time is right: when a bucket with a positive limit rejects a request, the time
  returned is positive and at most a second, and the same request made after exactly that time is
  admitted. The hypothesis is the state every run of the limiter keeps: at most \<open>max_rps\<close>
  timestamps, in order, none in the future.
\<close>

theorem bucket_retry_after_works:
  assumes "sorted ts" and "length ts \<le> unat m" and "\<forall>t \<in> set ts. t \<le> now" and "m \<noteq> 0"
    and "bucket_check now \<lparr> max_rps = m, bl_window = secs 1, timestamps = ts \<rparr> = (Inl d, b)"
  shows "0 < d \<and> d \<le> secs 1 \<and> fst (bucket_check (now + int d) b) = Inr ()"
proof -
  have b: "b = \<lparr> max_rps = m, bl_window = secs 1, timestamps = timestamps b \<rparr>"
    using assms(4,5) by (auto simp: bucket_check_def Let_def split: if_splits)
  have "bucket_admit m now ts = (Inl d, timestamps b)" using assms(5) by (simp add: bucket_admit_def)
  from bucket.retry_after_bounds_and_works [OF _ _ this] assms(1-4) unat_pos
  have "0 < d \<and> d \<le> secs 1 \<and> fst (bucket_admit m (now + int d) (timestamps b)) = Inr ()"
    by (simp add: bucket.proper_def)
  moreover have "fst (bucket_admit m (now + int d) (timestamps b)) = fst (bucket_check (now + int d) b)"
    by (subst (2) b) (simp add: bucket_admit_def split: prod.split)
  ultimately show ?thesis by simp
qed

theorem bucket_retry_after_works_witness:
  "fst (bucket_check 1000000005 \<lparr> max_rps = 1, bl_window = secs 1, timestamps = [5] \<rparr>) = Inr ()"
proof -
  have "bucket_check 7 \<lparr> max_rps = 1, bl_window = secs 1, timestamps = [5] \<rparr> =
      (Inl 999999998, \<lparr> max_rps = 1, bl_window = secs 1, timestamps = [5] \<rparr>)"
    by (simp add: bucket_check_def secs_def)
  from bucket_retry_after_works [OF _ _ _ _ this] show ?thesis by simp
qed

definition api_ok :: "api_rate_limiter \<Rightarrow> bool" where
  "api_ok l \<longleftrightarrow> (\<forall>k b. api_buckets l k = Some b \<longrightarrow> bl_window b = secs 1)"

lemma bucket_check_window: "bl_window (snd (bucket_check now b)) = bl_window b"
  by (simp add: bucket_check_def Let_def)

lemma bucket_check_delay: "fst (bucket_check now b) = Inl d \<Longrightarrow> d \<le> bl_window b"
  by (auto simp: bucket_check_def Let_def split: if_splits)

text \<open>
  A rejected API request is told to come back in exactly one second, and buckets do not
  influence one another.
\<close>

theorem api_middleware_retry_is_one_second:
  assumes "api_ok l" and "api_middleware k now l = (r, l')"
  shows "r \<in> {RunNext, TooManyRequests 1} \<and> api_ok l' \<and>
    (\<forall>k'. k' \<noteq> k \<longrightarrow> api_buckets l' k' = api_buckets l k')"
proof (cases "api_enabled l \<and> api_buckets l k \<noteq> None")
  case False
  with assms show ?thesis by (auto simp: api_middleware_def api_check_def split: if_splits)
next
  case True
  then obtain b where b: "api_buckets l k = Some b" "api_enabled l" by auto
  obtain v b' where v: "bucket_check now b = (v, b')" by fastforce
  have w: "bl_window b = secs 1" "bl_window b' = secs 1"
    using assms(1) b bucket_check_window [of now b] v by (auto simp: api_ok_def)
  then have "max 1 ((d + 999999999) div 1000000000) = 1" if "v = Inl d" for d
    using bucket_check_delay [of now b d] v that by (simp add: secs_def)
  with assms b v w show ?thesis
    by (auto simp: api_middleware_def api_check_def api_ok_def split: sum.splits if_splits)
qed

lemma api_new_ok: "api_ok (api_new g w p i)"
  by (auto simp: api_ok_def api_new_def bucket_new_def split: if_splits)

theorem api_middleware_retry_is_one_second_witness:
  "fst (api_middleware Write 3 (api_new 0 0 0 0)) \<in> {RunNext, TooManyRequests 1}"
  using api_middleware_retry_is_one_second [OF api_new_ok [of 0 0 0 0] surjective_pairing, of Write 3] by blast

text \<open>
  A notification channel gets at most \<open>max_per_window\<close> sends within any window, except that a
  limit of zero still lets one send through per window.
\<close>

theorem channel_admits_at_most_max:
  assumes "sorted ts"
  shows "length (filter (\<lambda>a. a \<le> t \<and> nat (t - a) < rlm_window_duration l) (admitted (check_and_record l ch) ts Map.empty))
         \<le> max 1 (unat (rlm_max_per_window l))"
proof -
  have "(\<lambda>a. a \<le> t \<and> nat (t - a) < rlm_window_duration l) = (\<lambda>a. a \<le> t \<and> live (rlm_window_duration l) t a)"
    by (simp add: live_def)
  then show ?thesis
    using channel.admitted_bounded [of ch Map.empty ts t l] assms by (simp add: channel_window_def)
qed

theorem channel_admits_at_most_max_witness:
  "admitted (check_and_record (rate_limiter_new 0 5) ''slack'') [1, 2, 3] Map.empty = [1] \<and>
   length (filter (\<lambda>a. a \<le> 3 \<and> nat (3 - a) < rlm_window_duration (rate_limiter_new 0 5))
     (admitted (check_and_record (rate_limiter_new 0 5) ''slack'') [1, 2, 3] Map.empty)) \<le> 1"
proof
  show "admitted (check_and_record (rate_limiter_new 0 5) ''slack'') [1, 2, 3] Map.empty = [1]"
    by (simp add: check_and_record_def rate_limiter_new_def channel_window_def)
  show "length (filter (\<lambda>a. a \<le> 3 \<and> nat (3 - a) < rlm_window_duration (rate_limiter_new 0 5))
     (admitted (check_and_record (rate_limiter_new 0 5) ''slack'') [1, 2, 3] Map.empty)) \<le> 1"
    using channel_admits_at_most_max [of "[1, 2, 3]" 3 "rate_limiter_new 0 5" "''slack''"]
    by (simp add: rate_limiter_new_def)
qed

text \<open>
  Quiet hours are the hours from \<open>start\<close> up to but not including \<open>end\<close> around the clock,
  whether or not they wrap past midnight; equal bounds mean none.
\<close>

theorem quiet_hours_circular:
  assumes "s < 24" and "e < 24" and "hour < 24"
  shows "is_quiet_hours (set_quiet_hours s e l) hour \<longleftrightarrow> (hour + 24 - s) mod 24 < (e + 24 - s) mod 24"
proof (cases "s \<le> e")
  case True
  then have "(e + 24 - s) mod 24 = e - s" using assms by (simp add: le_mod_geq)
  moreover have "(hour + 24 - s) mod 24 = (if s \<le> hour then hour - s else hour + 24 - s)"
    using assms by (simp add: le_mod_geq)
  ultimately show ?thesis using True assms by (auto simp: is_quiet_hours_def set_quiet_hours_def)
next
  case False
  then have "(e + 24 - s) mod 24 = e + 24 - s" using assms by simp
  moreover have "(hour + 24 - s) mod 24 = (if s \<le> hour then hour - s else hour + 24 - s)"
    using assms by (simp add: le_mod_geq)
  ultimately show ?thesis using False assms by (auto simp: is_quiet_hours_def set_quiet_hours_def)
qed

theorem quiet_hours_circular_witness:
  "is_quiet_hours (set_quiet_hours 22 6 rate_limiter_default) 3"
  using quiet_hours_circular [of 22 6 3 rate_limiter_default] by simp

end
