(* ===== verification/Process_Tree.thy ===== *)
theory Process_Tree
  imports Prelude
begin

section \<open>The supervised process tree and the freezer\<close>

text \<open>
  \<open>crates/grith-supervisor/src/process_tree.rs\<close> and \<open>freezer.rs\<close>. The hash map of processes is an
  association list (its order is one iteration order the map may have). The search for descendants
  is a worklist loop that ends only if the parent links have no cycle, so it is a
  \<open>partial_function (option)\<close> and not returning is None. Whether a signal is delivered is decided
  by an argument \<open>kill\<close>, the error text of the system call if it fails.
\<close>

datatype process_state = Running | Frozen | Exited

record process_info =
  pi_pid :: u32
  pi_parent_pid :: u32
  pi_command :: string
  pi_args :: "string list"
  pi_state :: process_state

record process_tree =
  root_pid :: u32
  processes :: "(u32 \<times> process_info) list"

datatype supervisor_error =
    ProcessTreeError string
  | FreezeError string

definition show_pid :: "u32 \<Rightarrow> string" where
  "show_pid p = digits_of_nat (unat p)"

definition tree_new :: "u32 \<Rightarrow> string \<Rightarrow> process_tree" where
  "tree_new rpid cmd =
     \<lparr> root_pid = rpid,
       processes = [(rpid, \<lparr> pi_pid = rpid, pi_parent_pid = 0, pi_command = cmd, pi_args = [], pi_state = Running \<rparr>)] \<rparr>"

definition add_child :: "u32 \<Rightarrow> u32 \<Rightarrow> string \<Rightarrow> process_tree \<Rightarrow> (supervisor_error + unit) \<times> process_tree" where
  "add_child parent child cmd t =
     (if map_of (processes t) parent = None
      then (Inl (ProcessTreeError (''parent pid '' @ show_pid parent @ '' not found in tree'')), t)
      else (Inr (), t\<lparr>processes := assoc_insert child
              \<lparr> pi_pid = child, pi_parent_pid = parent, pi_command = cmd, pi_args = [], pi_state = Running \<rparr>
              (processes t)\<rparr>))"

definition update_command :: "u32 \<Rightarrow> string \<Rightarrow> string list \<Rightarrow> process_tree \<Rightarrow> process_tree" where
  "update_command pid cmd as t =
     (case map_of (processes t) pid of
        None \<Rightarrow> t
      | Some i \<Rightarrow> t\<lparr>processes := assoc_insert pid (i\<lparr>pi_command := cmd, pi_args := as\<rparr>) (processes t)\<rparr>)"

definition update_state :: "u32 \<Rightarrow> process_state \<Rightarrow> process_tree \<Rightarrow> (supervisor_error + unit) \<times> process_tree" where
  "update_state pid s t =
     (case map_of (processes t) pid of
        None \<Rightarrow> (Inl (ProcessTreeError (''pid '' @ show_pid pid @ '' not found in tree'')), t)
      | Some i \<Rightarrow> (Inr (), t\<lparr>processes := assoc_insert pid (i\<lparr>pi_state := s\<rparr>) (processes t)\<rparr>))"

definition children_of :: "(u32 \<times> process_info) list \<Rightarrow> u32 \<Rightarrow> u32 list" where
  "children_of ps pid = map pi_pid (filter (\<lambda>i. pi_parent_pid i = pid) (map snd ps))"

text \<open>The worklist: the head of the list is the top of the stack.\<close>

partial_function (option) descend ::
    "(u32 \<times> process_info) list \<Rightarrow> u32 list \<Rightarrow> u32 list \<Rightarrow> u32 list option" where
  "descend ps stack result =
     (case stack of
        [] \<Rightarrow> Some result
      | current # rest \<Rightarrow>
          descend ps (rev (children_of ps current) @ rest) (result @ children_of ps current))"

definition descendants_of :: "u32 \<Rightarrow> process_tree \<Rightarrow> (supervisor_error + u32 list) option" where
  "descendants_of pid t =
     (if map_of (processes t) pid = None
      then Some (Inl (ProcessTreeError (''pid '' @ show_pid pid @ '' not found in tree'')))
      else map_option Inr (descend (processes t) [pid] []))"

fun flip_states ::
    "process_state \<Rightarrow> process_state \<Rightarrow> u32 list \<Rightarrow> (u32 \<times> process_info) list \<Rightarrow>
     u32 list \<times> (u32 \<times> process_info) list" where
  "flip_states src dst [] ps = ([], ps)"
| "flip_states src dst (d # ds) ps =
     (case map_of ps d of
        Some i \<Rightarrow>
          if pi_state i = src
          then (case flip_states src dst ds (assoc_insert d (i\<lparr>pi_state := dst\<rparr>) ps) of (acc, ps') \<Rightarrow> (d # acc, ps'))
          else flip_states src dst ds ps
      | None \<Rightarrow> flip_states src dst ds ps)"

definition flip_tree ::
    "process_state \<Rightarrow> process_state \<Rightarrow> u32 \<Rightarrow> process_tree \<Rightarrow> ((supervisor_error + u32 list) \<times> process_tree) option" where
  "flip_tree src dst pid t =
     (case descendants_of pid t of
        None \<Rightarrow> None
      | Some (Inl e) \<Rightarrow> Some (Inl e, t)
      | Some (Inr ds) \<Rightarrow>
          (case flip_states src dst (ds @ [pid]) (processes t) of
             (acc, ps) \<Rightarrow> Some (Inr acc, t\<lparr>processes := ps\<rparr>)))"

definition freeze_tree :: "u32 \<Rightarrow> process_tree \<Rightarrow> ((supervisor_error + u32 list) \<times> process_tree) option" where
  "freeze_tree = flip_tree Running Frozen"

definition thaw_tree :: "u32 \<Rightarrow> process_tree \<Rightarrow> ((supervisor_error + u32 list) \<times> process_tree) option" where
  "thaw_tree = flip_tree Frozen Running"

definition remove_exited :: "process_tree \<Rightarrow> nat \<times> process_tree" where
  "remove_exited t =
     (let ps = filter (\<lambda>p. pi_state (snd p) \<noteq> Exited) (processes t)
      in (length (processes t) - length ps, t\<lparr>processes := ps\<rparr>))"

definition all_pids :: "process_tree \<Rightarrow> u32 list" where
  "all_pids t = map fst (processes t)"

definition tree_is_frozen :: "u32 \<Rightarrow> process_tree \<Rightarrow> bool" where
  "tree_is_frozen pid t = (case map_of (processes t) pid of Some i \<Rightarrow> pi_state i = Frozen | None \<Rightarrow> False)"

definition tree_get :: "u32 \<Rightarrow> process_tree \<Rightarrow> process_info option" where
  "tree_get pid t = map_of (processes t) pid"

subsection \<open>Freezer\<close>

record freezer =
  frozen_pids :: "u32 list"
  freeze_timeout :: duration

definition freezer_new :: "duration \<Rightarrow> freezer" where
  "freezer_new d = \<lparr> frozen_pids = [], freeze_timeout = d \<rparr>"

type_synonym kill = "u32 \<Rightarrow> string option"

definition fz_freeze :: "kill \<Rightarrow> u32 \<Rightarrow> freezer \<Rightarrow> (supervisor_error + unit) \<times> freezer" where
  "fz_freeze kill pid f =
     (if pid \<in> set (frozen_pids f) then (Inr (), f)
      else case kill pid of
          Some e \<Rightarrow> (Inl (FreezeError (''failed to SIGSTOP pid '' @ show_pid pid @ '': '' @ e)), f)
        | None \<Rightarrow> (Inr (), f\<lparr>frozen_pids := frozen_pids f @ [pid]\<rparr>))"

fun fz_freeze_tree :: "kill \<Rightarrow> u32 list \<Rightarrow> freezer \<Rightarrow> (supervisor_error + unit) \<times> freezer" where
  "fz_freeze_tree kill [] f = (Inr (), f)"
| "fz_freeze_tree kill (pid # pids) f =
     (case fz_freeze kill pid f of
        (Inl e, f') \<Rightarrow> (Inl e, f')
      | (Inr _, f') \<Rightarrow> fz_freeze_tree kill pids f')"

definition fz_thaw :: "kill \<Rightarrow> u32 \<Rightarrow> freezer \<Rightarrow> (supervisor_error + unit) \<times> freezer" where
  "fz_thaw kill pid f =
     (if pid \<notin> set (frozen_pids f) then (Inr (), f)
      else case kill pid of
          Some e \<Rightarrow> (Inl (FreezeError (''failed to SIGCONT pid '' @ show_pid pid @ '': '' @ e)), f)
        | None \<Rightarrow> (Inr (), f\<lparr>frozen_pids := removeAll pid (frozen_pids f)\<rparr>))"

fun thaw_each :: "kill \<Rightarrow> u32 list \<Rightarrow> supervisor_error option \<Rightarrow> freezer \<Rightarrow> supervisor_error option \<times> freezer" where
  "thaw_each kill [] first_err f = (first_err, f)"
| "thaw_each kill (pid # pids) first_err f =
     (case fz_thaw kill pid f of
        (Inl e, f') \<Rightarrow> thaw_each kill pids (case first_err of None \<Rightarrow> Some e | Some e0 \<Rightarrow> Some e0) f'
      | (Inr _, f') \<Rightarrow> thaw_each kill pids first_err f')"

definition fz_thaw_all :: "kill \<Rightarrow> freezer \<Rightarrow> (supervisor_error + unit) \<times> freezer" where
  "fz_thaw_all kill f =
     (case thaw_each kill (frozen_pids f) None f of
        (Some e, f') \<Rightarrow> (Inl e, f')
      | (None, f') \<Rightarrow> (Inr (), f'))"

definition fz_is_frozen :: "u32 \<Rightarrow> freezer \<Rightarrow> bool" where
  "fz_is_frozen pid f \<longleftrightarrow> pid \<in> set (frozen_pids f)"

definition frozen_count :: "freezer \<Rightarrow> nat" where
  "frozen_count f = length (frozen_pids f)"

subsection \<open>The parent relation\<close>

definition parents :: "(u32 \<times> process_info) list \<Rightarrow> (u32 \<times> u32) set" where
  "parents ps = (\<lambda>i. (pi_pid i, pi_parent_pid i)) ` snd ` set ps"

definition keys_ok :: "(u32 \<times> process_info) list \<Rightarrow> bool" where
  "keys_ok ps \<longleftrightarrow> distinct (map fst ps) \<and> (\<forall>p \<in> set ps. pi_pid (snd p) = fst p)"

definition tree_ok :: "process_tree \<Rightarrow> bool" where
  "tree_ok t \<longleftrightarrow> keys_ok (processes t) \<and> acyclic (parents (processes t))"

lemma set_children_of: "set (children_of ps pid) = {c. (c, pid) \<in> parents ps}"
  by (force simp: children_of_def parents_def)

lemma finite_parents: "finite (parents ps)"
  by (simp add: parents_def)

lemma wf_parents: "acyclic (parents ps) \<Longrightarrow> wf (parents ps)"
  by (simp add: finite_parents finite_acyclic_wf)

lemma descend_Nil [simp]: "descend ps [] result = Some result"
  by (subst descend.simps) simp

lemma descend_Cons:
  "descend ps (x # rest) result = descend ps (rev (children_of ps x) @ rest) (result @ children_of ps x)"
  by (subst descend.simps) simp

text \<open>Processing a stack entry ends, and appends exactly its descendants.\<close>

definition processed :: "(u32 \<times> process_info) list \<Rightarrow> u32 \<Rightarrow> bool" where
  "processed ps x \<longleftrightarrow> (\<exists>r. set r = {d. (d, x) \<in> (parents ps)\<^sup>+} \<and>
     (\<forall>rest result. descend ps (x # rest) result = descend ps rest (result @ r)))"

lemma processed_list:
  "\<forall>x \<in> set xs. processed ps x \<Longrightarrow>
   \<exists>r. set r = (\<Union>x \<in> set xs. {d. (d, x) \<in> (parents ps)\<^sup>+}) \<and>
     (\<forall>rest result. descend ps (xs @ rest) result = descend ps rest (result @ r))"
proof (induction xs)
  case Nil
  then show ?case by (intro exI [of _ "[]"]) simp
next
  case (Cons x xs)
  then obtain r1 where r1: "set r1 = {d. (d, x) \<in> (parents ps)\<^sup>+}"
      "\<forall>rest result. descend ps (x # rest) result = descend ps rest (result @ r1)"
    by (auto simp: processed_def)
  obtain r2 where r2: "set r2 = (\<Union>x \<in> set xs. {d. (d, x) \<in> (parents ps)\<^sup>+})"
      "\<forall>rest result. descend ps (xs @ rest) result = descend ps rest (result @ r2)"
    using Cons by auto
  show ?case
    by (intro exI [of _ "r1 @ r2"]) (use r1 r2 in simp)
qed

lemma descendants_split:
  "{d. (d, x) \<in> r\<^sup>+} = {c. (c, x) \<in> r} \<union> (\<Union>c \<in> {c. (c, x) \<in> r}. {d. (d, c) \<in> r\<^sup>+})"
  by (auto elim: tranclE intro: trancl_into_trancl)

lemma all_processed:
  assumes "acyclic (parents ps)"
  shows "processed ps x"
  using wf_parents [OF assms]
proof (induction x rule: wf_induct_rule)
  case (less x)
  let ?ch = "children_of ps x"
  have "\<forall>c \<in> set (rev ?ch). processed ps c" using less by (simp add: set_children_of)
  from processed_list [OF this]
  obtain r where r: "set r = (\<Union>c \<in> set (rev ?ch). {d. (d, c) \<in> (parents ps)\<^sup>+})"
      "\<forall>rest result. descend ps (rev ?ch @ rest) result = descend ps rest (result @ r)"
    by (elim exE conjE)
  have "set (?ch @ r) = {d. (d, x) \<in> (parents ps)\<^sup>+}"
    unfolding set_append r(1) set_rev set_children_of by (rule descendants_split [symmetric])
  then show ?case
    unfolding processed_def
    by (intro exI [of _ "?ch @ r"]) (use r(2) in \<open>simp add: descend_Cons\<close>)
qed

lemma descend_terminates:
  assumes "acyclic (parents ps)"
  shows "\<exists>r. descend ps [x] [] = Some r \<and> set r = {d. (d, x) \<in> (parents ps)\<^sup>+}"
  using all_processed [OF assms, of x] by (auto simp: processed_def)

subsection \<open>Flipping states\<close>

definition flip :: "process_state \<Rightarrow> process_state \<Rightarrow> process_info \<Rightarrow> process_info" where
  "flip src dst i = (if pi_state i = src then i\<lparr>pi_state := dst\<rparr> else i)"

lemma flip_hit: "pi_state i = src \<Longrightarrow> flip src dst i = i\<lparr>pi_state := dst\<rparr>"
  by (simp add: flip_def)

lemma flip_miss: "pi_state i \<noteq> src \<Longrightarrow> flip src dst i = i"
  by (simp add: flip_def)

lemma flip_idem: "src \<noteq> dst \<Longrightarrow> flip src dst (flip src dst i) = flip src dst i"
  by (simp add: flip_def)

lemma flip_states_map:
  "src \<noteq> dst \<Longrightarrow>
   map_of (snd (flip_states src dst ds ps)) k =
     (if k \<in> set ds then map_option (flip src dst) (map_of ps k) else map_of ps k)"
proof (induction src dst ds ps rule: flip_states.induct)
  case (2 src dst d ds ps)
  show ?case
  proof (cases "map_of ps d")
    case None
    with 2 show ?thesis by auto
  next
    case (Some i)
    show ?thesis
    proof (cases "pi_state i = src")
      case True
      with "2.IH"(2) [OF Some True 2(4)] Some 2(4) show ?thesis
        by (auto simp: flip_hit flip_miss split: prod.splits)
    next
      case False
      with 2 Some show ?thesis by (auto simp: flip_miss)
    qed
  qed
qed simp

lemma flip_states_acc:
  "src \<noteq> dst \<Longrightarrow>
   set (fst (flip_states src dst ds ps)) = {d \<in> set ds. \<exists>i. map_of ps d = Some i \<and> pi_state i = src} \<and>
   distinct (fst (flip_states src dst ds ps))"
proof (induction src dst ds ps rule: flip_states.induct)
  case (2 src dst d ds ps)
  show ?case
  proof (cases "map_of ps d")
    case None
    with 2 show ?thesis by auto
  next
    case (Some i)
    show ?thesis
    proof (cases "pi_state i = src")
      case True
      obtain acc ps' where e: "flip_states src dst ds (assoc_insert d (i\<lparr>pi_state := dst\<rparr>) ps) = (acc, ps')"
        by fastforce
      with "2.IH"(2) [OF Some True 2(4)]
      have acc: "set acc = {k \<in> set ds. k \<noteq> d \<and> (\<exists>j. map_of ps k = Some j \<and> pi_state j = src)}" "distinct acc"
        using 2(4) by (auto split: if_splits)
      have "flip_states src dst (d # ds) ps = (d # acc, ps')" using Some True e by simp
      with acc Some True show ?thesis by auto
    next
      case False
      with 2 Some show ?thesis by auto
    qed
  qed
qed simp

subsection \<open>Preservation\<close>

definition subtree :: "u32 \<Rightarrow> process_tree \<Rightarrow> u32 set" where
  "subtree pid t = {d. (d, pid) \<in> (parents (processes t))\<^sup>*}"

lemma keys_ok_parents:
  "keys_ok ps \<Longrightarrow> parents ps = {(k, p). \<exists>i. map_of ps k = Some i \<and> pi_parent_pid i = p}"
proof -
  assume k: "keys_ok ps"
  have "parents ps = {(k, p). \<exists>i. (k, i) \<in> set ps \<and> pi_parent_pid i = p}"
    using k unfolding keys_ok_def parents_def by force
  then show ?thesis using k by (simp add: keys_ok_def)
qed

lemma keys_ok_insert: "keys_ok ps \<Longrightarrow> pi_pid i = k \<Longrightarrow> keys_ok (assoc_insert k i ps)"
proof (induction ps)
  case (Cons p ps)
  have "fst ` set (assoc_insert k i ps) = insert k (fst ` set ps)" by simp
  with Cons show ?case by (auto simp: keys_ok_def image_iff)
qed (simp add: keys_ok_def)

lemma keys_ok_pid: "keys_ok ps \<Longrightarrow> map_of ps k = Some i \<Longrightarrow> pi_pid i = k"
  unfolding keys_ok_def by (auto dest: map_of_SomeD)

lemma keys_ok_flip: "keys_ok ps \<Longrightarrow> keys_ok (snd (flip_states src dst ds ps))"
proof (induction src dst ds ps rule: flip_states.induct)
  case (2 src dst d ds ps)
  show ?case
  proof (cases "map_of ps d")
    case (Some i)
    have "keys_ok (assoc_insert d (i\<lparr>pi_state := dst\<rparr>) ps)"
      using 2(4) keys_ok_pid [OF 2(4) Some] by (intro keys_ok_insert) simp_all
    with 2 Some show ?thesis by (auto split: prod.splits)
  qed (use 2 in auto)
qed simp

lemma parents_cong:
  assumes "keys_ok ps" and "keys_ok ps'"
    and "\<And>k. map_option pi_parent_pid (map_of ps' k) = map_option pi_parent_pid (map_of ps k)"
  shows "parents ps' = parents ps"
proof -
  have eq: "(\<exists>i. map_of qs k = Some i \<and> pi_parent_pid i = p) \<longleftrightarrow> map_option pi_parent_pid (map_of qs k) = Some p"
    for qs :: "(u32 \<times> process_info) list" and k p
    by (cases "map_of qs k") auto
  show ?thesis
    unfolding keys_ok_parents [OF assms(1)] keys_ok_parents [OF assms(2)] eq assms(3) by (rule refl)
qed

lemma flip_parent [simp]: "pi_parent_pid (flip src dst i) = pi_parent_pid i"
  by (simp add: flip_def)

lemma parents_flip:
  assumes "keys_ok ps" and "src \<noteq> dst"
  shows "parents (snd (flip_states src dst ds ps)) = parents ps"
  by (rule parents_cong [OF assms(1) keys_ok_flip [OF assms(1)]])
     (simp add: flip_states_map [OF assms(2)] option.map_comp comp_def)

lemma subtree_split: "subtree pid t = insert pid {d. (d, pid) \<in> (parents (processes t))\<^sup>+}"
  by (auto simp: subtree_def rtrancl_eq_or_trancl)

lemma flip_tree_result:
  assumes "tree_ok t" and "map_of (processes t) pid \<noteq> None" and "src \<noteq> dst"
  shows "\<exists>acc ps. flip_tree src dst pid t = Some (Inr acc, t\<lparr>processes := ps\<rparr>) \<and>
    (\<forall>k. map_of ps k = (if k \<in> subtree pid t then map_option (flip src dst) (map_of (processes t) k)
                       else map_of (processes t) k)) \<and>
    set acc = {k \<in> subtree pid t. \<exists>i. map_of (processes t) k = Some i \<and> pi_state i = src} \<and>
    distinct acc \<and> tree_ok (t\<lparr>processes := ps\<rparr>) \<and> parents ps = parents (processes t)"
proof -
  from assms(1) have k: "keys_ok (processes t)" and a: "acyclic (parents (processes t))"
    by (simp_all add: tree_ok_def)
  obtain ds where ds: "descend (processes t) [pid] [] = Some ds" "set ds = {d. (d, pid) \<in> (parents (processes t))\<^sup>+}"
    using descend_terminates [OF a] by blast
  have sub: "set (ds @ [pid]) = subtree pid t" using ds(2) by (simp add: subtree_split)
  obtain acc ps where f: "flip_states src dst (ds @ [pid]) (processes t) = (acc, ps)" by fastforce
  have "flip_tree src dst pid t = Some (Inr acc, t\<lparr>processes := ps\<rparr>)"
    using assms(2) ds(1) f by (simp add: flip_tree_def descendants_of_def)
  moreover have "tree_ok (t\<lparr>processes := ps\<rparr>)" "parents ps = parents (processes t)"
    using keys_ok_flip [OF k, of src dst "ds @ [pid]"] parents_flip [OF k assms(3), of "ds @ [pid]"] a f
    by (simp_all add: tree_ok_def)
  moreover have "map_of ps k = (if k \<in> subtree pid t then map_option (flip src dst) (map_of (processes t) k)
                       else map_of (processes t) k)" for k
    using flip_states_map [OF assms(3), of "ds @ [pid]" "processes t" k] f by (simp only: sub snd_conv)
  moreover have "set acc = {k \<in> subtree pid t. \<exists>i. map_of (processes t) k = Some i \<and> pi_state i = src} \<and> distinct acc"
    using flip_states_acc [OF assms(3), of "ds @ [pid]" "processes t"] f by (simp only: sub fst_conv)
  ultimately show ?thesis by blast
qed

subsection \<open>Properties of the tree\<close>

text \<open>A sample tree: 1 forks 2, 2 forks 3.\<close>

definition sample_tree :: process_tree where
  "sample_tree = snd (add_child 2 3 ''git'' (snd (add_child 1 2 ''node'' (tree_new 1 ''agent''))))"

lemma sample_tree_eq:
  "sample_tree = \<lparr> root_pid = 1, processes =
     [(1, \<lparr> pi_pid = 1, pi_parent_pid = 0, pi_command = ''agent'', pi_args = [], pi_state = Running \<rparr>),
      (2, \<lparr> pi_pid = 2, pi_parent_pid = 1, pi_command = ''node'', pi_args = [], pi_state = Running \<rparr>),
      (3, \<lparr> pi_pid = 3, pi_parent_pid = 2, pi_command = ''git'', pi_args = [], pi_state = Running \<rparr>)] \<rparr>"
  by (simp add: sample_tree_def add_child_def tree_new_def)

text \<open>What keeps the links acyclic: a new pid that no tracked process has or names as its parent.\<close>

definition fresh_pid :: "u32 \<Rightarrow> u32 \<Rightarrow> process_tree \<Rightarrow> bool" where
  "fresh_pid parent child t \<longleftrightarrow> child \<noteq> parent \<and>
     list_all (\<lambda>(k, i). k \<noteq> child \<and> pi_parent_pid i \<noteq> child) (processes t)"

lemma tree_ok_new: "r \<noteq> 0 \<Longrightarrow> tree_ok (tree_new r cmd)"
proof -
  assume "r \<noteq> 0"
  then have "acyclic {(r, 0 :: u32)}" by (simp add: acyclic_insert) (simp add: acyclic_def)
  then show ?thesis by (simp add: tree_ok_def tree_new_def keys_ok_def parents_def)
qed

lemma tree_ok_add_child:
  assumes "tree_ok t" and "fresh_pid parent child t"
  shows "tree_ok (snd (add_child parent child cmd t))"
proof (cases "map_of (processes t) parent = None")
  case True
  with assms show ?thesis by (simp add: add_child_def)
next
  case False
  let ?i = "\<lparr> pi_pid = child, pi_parent_pid = parent, pi_command = cmd, pi_args = [], pi_state = Running \<rparr>"
  let ?ps = "assoc_insert child ?i (processes t)"
  from assms(1) have k: "keys_ok (processes t)" and a: "acyclic (parents (processes t))"
    by (simp_all add: tree_ok_def)
  have k': "keys_ok ?ps" using k by (rule keys_ok_insert) simp
  have none: "map_of (processes t) child = None"
    using assms(2) by (auto simp: fresh_pid_def list_all_iff map_of_eq_None_iff)
  then have par: "parents ?ps = insert (child, parent) (parents (processes t))"
    unfolding keys_ok_parents [OF k] keys_ok_parents [OF k'] by (auto split: if_splits)
  have "(parent, child) \<notin> (parents (processes t))\<^sup>*"
  proof
    assume "(parent, child) \<in> (parents (processes t))\<^sup>*"
    then obtain z where "(z, child) \<in> parents (processes t)"
      using assms(2) by (auto simp: fresh_pid_def elim: rtranclE)
    then show False using assms(2) by (auto simp: parents_def fresh_pid_def list_all_iff)
  qed
  with a par have "acyclic (parents ?ps)" by (simp add: acyclic_insert)
  moreover have "snd (add_child parent child cmd t) = t\<lparr>processes := ?ps\<rparr>"
    using False by (auto simp: add_child_def)
  ultimately show ?thesis using k' by (simp add: tree_ok_def)
qed

lemma sample_tree_ok: "tree_ok sample_tree"
  unfolding sample_tree_def
  by (intro tree_ok_add_child tree_ok_new)
     (simp_all add: fresh_pid_def add_child_def tree_new_def)

text \<open>
  C32. Freezing a tracked process ends and freezes its whole subtree: every running process that
  descends from it, and itself, becomes frozen and is reported once; exited and frozen ones and all
  processes outside the subtree are untouched. This needs parent links without a cycle.
\<close>

theorem freeze_tree_exact:
  assumes "tree_ok t" and "tree_get pid t \<noteq> None"
  shows "\<exists>fz t'. freeze_tree pid t = Some (Inr fz, t') \<and> tree_ok t' \<and> distinct fz \<and>
    set fz = {k \<in> subtree pid t. \<exists>i. tree_get k t = Some i \<and> pi_state i = Running} \<and>
    (\<forall>k. tree_get k t' = (if k \<in> set fz then map_option (\<lambda>i. i\<lparr>pi_state := Frozen\<rparr>) (tree_get k t) else tree_get k t))"
proof -
  have ne: "Running \<noteq> Frozen" by simp
  have tracked: "map_of (processes t) pid \<noteq> None" using assms(2) by (simp add: tree_get_def)
  from flip_tree_result [OF assms(1) tracked ne]
  obtain acc ps where f: "flip_tree Running Frozen pid t = Some (Inr acc, t\<lparr>processes := ps\<rparr>)"
    "\<forall>k. map_of ps k = (if k \<in> subtree pid t then map_option (flip Running Frozen) (map_of (processes t) k) else map_of (processes t) k)"
    "set acc = {k \<in> subtree pid t. \<exists>i. map_of (processes t) k = Some i \<and> pi_state i = Running}"
    "distinct acc" "tree_ok (t\<lparr>processes := ps\<rparr>)"
    by blast
  have fin: "map_of ps k = (if k \<in> set acc then map_option (\<lambda>i. i\<lparr>pi_state := Frozen\<rparr>) (map_of (processes t) k) else map_of (processes t) k)" for k
    using f(2,3) by (cases "map_of (processes t) k") (auto simp: flip_hit flip_miss)
  show ?thesis
  proof (intro exI conjI allI)
    show "freeze_tree pid t = Some (Inr acc, t\<lparr>processes := ps\<rparr>)" using f(1) by (simp add: freeze_tree_def)
    show "tree_ok (t\<lparr>processes := ps\<rparr>)" "distinct acc" by (fact f)+
    show "set acc = {k \<in> subtree pid t. \<exists>i. tree_get k t = Some i \<and> pi_state i = Running}"
      using f(3) by (simp add: tree_get_def)
    show "tree_get k (t\<lparr>processes := ps\<rparr>) =
        (if k \<in> set acc then map_option (\<lambda>i. i\<lparr>pi_state := Frozen\<rparr>) (tree_get k t) else tree_get k t)" for k
      using fin [of k] by (simp add: tree_get_def)
  qed
qed

theorem freeze_tree_exact_witness:
  "\<exists>fz t'. freeze_tree 2 sample_tree = Some (Inr fz, t') \<and> tree_ok t'"
  using freeze_tree_exact [OF sample_tree_ok, of 2] by (auto simp: tree_get_def sample_tree_eq)

text \<open>
  Thawing undoes freezing: when no process of the subtree was frozen before, freezing and then
  thawing it returns, reports the same processes and leaves every process as it was.
\<close>

theorem freeze_thaw_round_trip:
  assumes "tree_ok t" and "tree_get pid t \<noteq> None"
    and "\<forall>k \<in> subtree pid t. \<not> tree_is_frozen k t"
  shows "\<exists>fz t1 th t2. freeze_tree pid t = Some (Inr fz, t1) \<and> thaw_tree pid t1 = Some (Inr th, t2) \<and>
    set th = set fz \<and> (\<forall>k. tree_get k t2 = tree_get k t)"
proof -
  have ne: "Running \<noteq> Frozen" "Frozen \<noteq> Running" by simp_all
  have tracked: "map_of (processes t) pid \<noteq> None" using assms(2) by (simp add: tree_get_def)
  from flip_tree_result [OF assms(1) tracked ne(1)]
  obtain fz ps where f: "flip_tree Running Frozen pid t = Some (Inr fz, t\<lparr>processes := ps\<rparr>)"
    "\<forall>k. map_of ps k = (if k \<in> subtree pid t then map_option (flip Running Frozen) (map_of (processes t) k) else map_of (processes t) k)"
    "set fz = {k \<in> subtree pid t. \<exists>i. map_of (processes t) k = Some i \<and> pi_state i = Running}"
    "tree_ok (t\<lparr>processes := ps\<rparr>)" "parents ps = parents (processes t)"
    by blast
  have sub: "subtree pid (t\<lparr>processes := ps\<rparr>) = subtree pid t" using f(5) by (simp add: subtree_def)
  have "map_of (processes (t\<lparr>processes := ps\<rparr>)) pid \<noteq> None" using f(2) assms(2) by (simp add: tree_get_def)
  from flip_tree_result [OF f(4) this ne(2)]
  obtain th ps2 where g: "flip_tree Frozen Running pid (t\<lparr>processes := ps\<rparr>) = Some (Inr th, t\<lparr>processes := ps2\<rparr>)"
    "\<forall>k. map_of ps2 k = (if k \<in> subtree pid t then map_option (flip Frozen Running) (map_of ps k) else map_of ps k)"
    "set th = {k \<in> subtree pid t. \<exists>i. map_of ps k = Some i \<and> pi_state i = Frozen}"
    by (auto simp: sub)
  have thawed: "\<not> (k \<in> subtree pid t \<and> map_of (processes t) k = Some i \<and> pi_state i = Frozen)" for k i
    using assms(3) by (auto simp: tree_is_frozen_def)
  have restored: "map_of ps2 k = map_of (processes t) k" for k
  proof (cases "map_of (processes t) k")
    case (Some i)
    have "flip Frozen Running (flip Running Frozen i) = i" if "k \<in> subtree pid t"
      using thawed [of k i] that Some by (cases "pi_state i") (auto simp: flip_def)
    with Some f(2) g(2) show ?thesis by simp
  qed (use f(2) g(2) in simp)
  have "set th = set fz"
  proof -
    have "(\<exists>i. map_of ps k = Some i \<and> pi_state i = Frozen) \<longleftrightarrow> (\<exists>i. map_of (processes t) k = Some i \<and> pi_state i = Running)"
      if "k \<in> subtree pid t" for k
      using f(2) thawed [of k] that by (cases "map_of (processes t) k") (auto simp: flip_def split: if_splits)
    then show ?thesis using f(3) g(3) by auto
  qed
  with f(1) g(1) restored show ?thesis by (auto simp: freeze_tree_def thaw_tree_def tree_get_def)
qed

lemma sample_not_frozen: "\<not> tree_is_frozen k sample_tree"
  by (simp add: tree_is_frozen_def sample_tree_eq)

theorem freeze_thaw_round_trip_witness:
  "\<exists>fz t1 th t2. freeze_tree 1 sample_tree = Some (Inr fz, t1) \<and> thaw_tree 1 t1 = Some (Inr th, t2) \<and>
    tree_get 3 t2 = tree_get 3 sample_tree"
proof -
  have g: "tree_get 1 sample_tree \<noteq> None" by (simp add: tree_get_def sample_tree_eq)
  from freeze_thaw_round_trip [OF sample_tree_ok g] sample_not_frozen show ?thesis by blast
qed

subsection \<open>Reachable trees\<close>

inductive supervised :: "process_tree \<Rightarrow> bool" where
  start: "r \<noteq> 0 \<Longrightarrow> supervised (tree_new r cmd)"
| fork: "supervised t \<Longrightarrow> fresh_pid parent child t \<Longrightarrow> supervised (snd (add_child parent child cmd t))"
| exec: "supervised t \<Longrightarrow> supervised (update_command pid cmd as t)"
| state: "supervised t \<Longrightarrow> supervised (snd (update_state pid s t))"
| freeze: "supervised t \<Longrightarrow> freeze_tree pid t = Some (r, t') \<Longrightarrow> supervised t'"
| thaw: "supervised t \<Longrightarrow> thaw_tree pid t = Some (r, t') \<Longrightarrow> supervised t'"
| reap: "supervised t \<Longrightarrow> supervised (snd (remove_exited t))"

lemma tree_ok_replace:
  assumes "tree_ok t" and "map_of (processes t) pid = Some i"
    and "pi_pid i' = pi_pid i" and "pi_parent_pid i' = pi_parent_pid i"
  shows "tree_ok (t\<lparr>processes := assoc_insert pid i' (processes t)\<rparr>)"
proof -
  from assms(1) have k: "keys_ok (processes t)" by (simp add: tree_ok_def)
  have k': "keys_ok (assoc_insert pid i' (processes t))"
    using keys_ok_pid [OF k assms(2)] assms(3) by (intro keys_ok_insert [OF k]) simp
  have "parents (assoc_insert pid i' (processes t)) = parents (processes t)"
    by (rule parents_cong [OF k k']) (use assms(2,4) in simp)
  with k' assms(1) show ?thesis by (simp add: tree_ok_def)
qed

lemma tree_ok_remove_exited: "tree_ok t \<Longrightarrow> tree_ok (snd (remove_exited t))"
  unfolding tree_ok_def remove_exited_def Let_def
  by (auto simp: keys_ok_def parents_def intro: acyclic_subset)

lemma tree_ok_flip:
  assumes "tree_ok t" and "src \<noteq> dst" and "flip_tree src dst pid t = Some (r, t')"
  shows "tree_ok t'"
proof (cases "map_of (processes t) pid = None")
  case True
  with assms show ?thesis by (auto simp: flip_tree_def descendants_of_def)
next
  case False
  from flip_tree_result [OF assms(1) False assms(2)] assms(3) show ?thesis by auto
qed

lemma supervised_ok: "supervised t \<Longrightarrow> tree_ok t"
proof (induction rule: supervised.induct)
  case (exec t pid cmd as)
  then show ?case
    by (cases "map_of (processes t) pid") (auto simp: update_command_def intro: tree_ok_replace)
next
  case (state t pid s)
  then show ?case
    by (cases "map_of (processes t) pid") (auto simp: update_state_def intro: tree_ok_replace)
next
  case (freeze t pid r t')
  then show ?case using tree_ok_flip [of t Running Frozen pid] by (simp add: freeze_tree_def)
next
  case (thaw t pid r t')
  then show ?case using tree_ok_flip [of t Frozen Running pid] by (simp add: thaw_tree_def)
qed (simp_all add: tree_ok_new tree_ok_add_child tree_ok_remove_exited)

lemma flip_tree_returns: "tree_ok t \<Longrightarrow> flip_tree src dst pid t \<noteq> None"
  using descend_terminates [of "processes t" pid]
  by (auto simp: flip_tree_def descendants_of_def tree_ok_def split: prod.splits)

text \<open>
  C33. As long as every forked pid is new to the tree (neither tracked nor named as a parent), the
  parent links stay acyclic through forks, execs, state changes, freezes, thaws and reaps, and
  freezing or thawing any pid returns.
\<close>

theorem supervised_tree_freezes:
  assumes "supervised t"
  shows "tree_ok t \<and> freeze_tree pid t \<noteq> None \<and> thaw_tree pid t \<noteq> None"
  using supervised_ok [OF assms] flip_tree_returns [of t] by (simp add: freeze_tree_def thaw_tree_def)

lemma supervised_sample: "supervised sample_tree"
  unfolding sample_tree_def
  by (intro supervised.fork supervised.start) (simp_all add: fresh_pid_def add_child_def tree_new_def)

theorem supervised_tree_freezes_witness: "freeze_tree 1 sample_tree \<noteq> None"
  using supervised_tree_freezes [OF supervised_sample] by blast

subsection \<open>Where it goes wrong: exited parents and reused pids\<close>

definition reaped_tree :: process_tree where
  "reaped_tree = snd (remove_exited (snd (update_state 2 Exited sample_tree)))"

definition reused_tree :: process_tree where
  "reused_tree = snd (add_child 3 2 ''sh'' reaped_tree)"

lemma reaped_tree_eq:
  "reaped_tree = \<lparr> root_pid = 1, processes =
     [(1, \<lparr> pi_pid = 1, pi_parent_pid = 0, pi_command = ''agent'', pi_args = [], pi_state = Running \<rparr>),
      (3, \<lparr> pi_pid = 3, pi_parent_pid = 2, pi_command = ''git'', pi_args = [], pi_state = Running \<rparr>)] \<rparr>"
  by (simp add: reaped_tree_def remove_exited_def update_state_def sample_tree_eq)

lemma reused_tree_eq:
  "reused_tree = \<lparr> root_pid = 1, processes =
     [(1, \<lparr> pi_pid = 1, pi_parent_pid = 0, pi_command = ''agent'', pi_args = [], pi_state = Running \<rparr>),
      (3, \<lparr> pi_pid = 3, pi_parent_pid = 2, pi_command = ''git'', pi_args = [], pi_state = Running \<rparr>),
      (2, \<lparr> pi_pid = 2, pi_parent_pid = 3, pi_command = ''sh'', pi_args = [], pi_state = Running \<rparr>)] \<rparr>"
  by (simp add: reused_tree_def reaped_tree_eq add_child_def)

text \<open>
  A process whose parent has exited escapes the freeze: with 1 the parent of 2 and 2 of 3,
  once 2 has exited and been reaped, freezing the root freezes only the root and 3 keeps running.
\<close>

theorem orphans_escape_freeze:
  "\<exists>t'. freeze_tree 1 reaped_tree = Some (Inr [1], t') \<and>
     map_option pi_state (tree_get 3 t') = Some Running \<and> root_pid t' = 1"
proof -
  have ch: "children_of (processes reaped_tree) 1 = []" by (simp add: children_of_def reaped_tree_eq)
  have "descend (processes reaped_tree) [1] [] = Some []" by (simp add: descend_Cons ch)
  then show ?thesis
    by (simp add: freeze_tree_def flip_tree_def descendants_of_def reaped_tree_eq tree_get_def)
qed

lemma descend_cycle:
  assumes "descend ps stack result = Some r"
  shows "ps = processes reused_tree \<longrightarrow> 2 \<notin> set stack \<and> 3 \<notin> set stack"
proof (rule descend.raw_induct [OF _ assms])
  fix f :: "(u32 \<times> process_info) list \<Rightarrow> u32 list \<Rightarrow> u32 list \<Rightarrow> u32 list option" and ps stack result r
  assume IH: "\<And>ps stack result r. f ps stack result = Some r \<Longrightarrow>
      ps = processes reused_tree \<longrightarrow> 2 \<notin> set stack \<and> 3 \<notin> set stack"
    and eq: "(case stack of [] \<Rightarrow> Some result
      | x # rest \<Rightarrow> f ps (rev (children_of ps x) @ rest) (result @ children_of ps x)) = Some r"
  show "ps = processes reused_tree \<longrightarrow> 2 \<notin> set stack \<and> 3 \<notin> set stack"
  proof
    assume ps: "ps = processes reused_tree"
    have ch: "children_of ps 2 = [3]" "children_of ps 3 = [2]"
      by (simp_all add: ps children_of_def reused_tree_eq)
    show "2 \<notin> set stack \<and> 3 \<notin> set stack"
    proof (cases stack)
      case (Cons x rest)
      with eq have "f ps (rev (children_of ps x) @ rest) (result @ children_of ps x) = Some r" by simp
      from IH [OF this] ps have "2 \<notin> set (children_of ps x @ rest) \<and> 3 \<notin> set (children_of ps x @ rest)" by simp
      with ch Cons show ?thesis by auto
    qed simp
  qed
qed

text \<open>
  A reused pid can close a cycle of parents, and then freezing never returns: when 3 forks a
  child that gets the pid of its exited parent 2, the search for the descendants of 3 runs forever.
\<close>

theorem pid_reuse_freeze_diverges: "freeze_tree 3 reused_tree = None"
proof -
  have "descend (processes reused_tree) [3] [] = None"
    using descend_cycle [of "processes reused_tree" "[3]" "[]"] by (cases "descend (processes reused_tree) [3] []") auto
  then show ?thesis
    by (simp add: freeze_tree_def flip_tree_def descendants_of_def) (simp add: reused_tree_eq)
qed

subsection \<open>Properties of the freezer\<close>

lemma thaw_each_spec:
  "distinct pids \<Longrightarrow> set pids \<subseteq> set (frozen_pids f) \<Longrightarrow>
   frozen_pids (snd (thaw_each kill pids e f)) = filter (\<lambda>p. p \<in> set pids \<longrightarrow> kill p \<noteq> None) (frozen_pids f) \<and>
   freeze_timeout (snd (thaw_each kill pids e f)) = freeze_timeout f \<and>
   (fst (thaw_each kill pids e f) = None \<longleftrightarrow> e = None \<and> (\<forall>p \<in> set pids. kill p = None))"
proof (induction pids arbitrary: e f)
  case (Cons p ps)
  show ?case
  proof (cases "kill p")
    case None
    let ?f = "f\<lparr>frozen_pids := removeAll p (frozen_pids f)\<rparr>"
    have step: "thaw_each kill (p # ps) e f = thaw_each kill ps e ?f"
      using Cons.prems None by (simp add: fz_thaw_def)
    have "set ps \<subseteq> set (frozen_pids ?f)" using Cons.prems by auto
    with Cons None have IH: "frozen_pids (snd (thaw_each kill ps e ?f)) =
        filter (\<lambda>q. q \<in> set ps \<longrightarrow> kill q \<noteq> None) (removeAll p (frozen_pids f))"
        "freeze_timeout (snd (thaw_each kill ps e ?f)) = freeze_timeout f"
        "fst (thaw_each kill ps e ?f) = None \<longleftrightarrow> e = None \<and> (\<forall>p \<in> set ps. kill p = None)"
      by simp_all
    show ?thesis unfolding step IH
      using None by (auto simp: removeAll_filter_not_eq intro: filter_cong)
  next
    case (Some msg)
    with Cons.prems Cons.IH show ?thesis by (auto simp: fz_thaw_def split: option.splits intro: filter_cong)
  qed
qed simp

text \<open>
  Thawing everything tries every frozen process: afterwards exactly those whose SIGCONT failed
  are still recorded as frozen, and the result is an error exactly when some signal failed.
\<close>

theorem thaw_all_exact:
  assumes "distinct (frozen_pids f)"
  shows "set (frozen_pids (snd (fz_thaw_all kill f))) = {p \<in> set (frozen_pids f). kill p \<noteq> None} \<and>
    (fst (fz_thaw_all kill f) = Inr () \<longleftrightarrow> (\<forall>p \<in> set (frozen_pids f). kill p = None))"
proof -
  obtain e f' where t: "thaw_each kill (frozen_pids f) None f = (e, f')" by fastforce
  from thaw_each_spec [OF assms subset_refl, of kill None] t
  have "frozen_pids f' = filter (\<lambda>p. p \<in> set (frozen_pids f) \<longrightarrow> kill p \<noteq> None) (frozen_pids f)"
      "e = None \<longleftrightarrow> (\<forall>p \<in> set (frozen_pids f). kill p = None)"
    by simp_all
  with t show ?thesis by (auto simp: fz_thaw_all_def split: option.splits)
qed

theorem thaw_all_exact_witness:
  "set (frozen_pids (snd (fz_thaw_all (\<lambda>p. if p = 4 then Some ''ESRCH'' else None)
     \<lparr> frozen_pids = [3, 4, 5], freeze_timeout = 0 \<rparr>))) = {4}"
proof -
  have "distinct (frozen_pids \<lparr> frozen_pids = [3, 4, 5 :: u32], freeze_timeout = 0 \<rparr>)" by simp
  from thaw_all_exact [OF this, of "\<lambda>p. if p = 4 then Some ''ESRCH'' else None"] show ?thesis by auto
qed

text \<open>
  Freezing a list of processes stops at the first one that cannot be stopped: those before it
  are frozen and stay so, those after it are not touched, and the result is success exactly when
  all of them are frozen in the end. No process is recorded twice.
\<close>

theorem freezer_freeze_tree_exact:
  assumes "distinct (frozen_pids f)"
  shows "distinct (frozen_pids (snd (fz_freeze_tree kill pids f))) \<and>
    set (frozen_pids (snd (fz_freeze_tree kill pids f))) =
      set (frozen_pids f) \<union> set (takeWhile (\<lambda>p. p \<in> set (frozen_pids f) \<or> kill p = None) pids) \<and>
    (fst (fz_freeze_tree kill pids f) = Inr () \<longleftrightarrow>
      set pids \<subseteq> set (frozen_pids (snd (fz_freeze_tree kill pids f))))"
  using assms
proof (induction pids arbitrary: f)
  case (Cons p ps)
  consider (already) "p \<in> set (frozen_pids f)" | (stopped) "p \<notin> set (frozen_pids f)" "kill p = None"
    | (failed) msg where "p \<notin> set (frozen_pids f)" "kill p = Some msg"
    by (cases "kill p") auto
  then show ?case
  proof cases
    case already
    with Cons show ?thesis by (simp add: fz_freeze_def insert_absorb)
  next
    case stopped
    let ?f = "f\<lparr>frozen_pids := frozen_pids f @ [p]\<rparr>"
    have "takeWhile (\<lambda>q. q \<in> set (frozen_pids ?f) \<or> kill q = None) ps =
        takeWhile (\<lambda>q. q \<in> set (frozen_pids f) \<or> kill q = None) ps"
      using stopped by (intro takeWhile_cong) auto
    with stopped Cons.IH [of ?f] Cons.prems show ?thesis by (simp add: fz_freeze_def)
  next
    case failed
    with Cons.prems show ?thesis by (simp add: fz_freeze_def)
  qed
qed simp

theorem freezer_freeze_tree_exact_witness:
  "set (frozen_pids (snd (fz_freeze_tree (\<lambda>p. if p = 4 then Some ''ESRCH'' else None) [3, 4, 5] (freezer_new 0)))) = {3}"
proof -
  have "distinct (frozen_pids (freezer_new 0))" by (simp add: freezer_new_def)
  from freezer_freeze_tree_exact [OF this, of "\<lambda>p. if p = 4 then Some ''ESRCH'' else None" "[3, 4, 5]"]
  show ?thesis by (simp add: freezer_new_def)
qed

end
