(* ===== verification/Notification.thy ===== *)
theory Notification
  imports Digest_Actions
begin

section \<open>Notification types, licence gate and callback nonces\<close>

text \<open>
  \<open>crates/grith-digest/src/notification.rs\<close>: plan tiers and the feature gate, the events and
  errors of the notification subsystem, the interface of a channel, and the store of one-time
  callback nonces. A channel talks to an outside service, so its answers are function fields of its
  record. The random nonce and the clock are arguments. The contract of the nonce store is the
  locale \<open>one_time_tokens\<close>.
\<close>

datatype plan_tier = Community | Pro | Enterprise

fun tier_rank :: "plan_tier \<Rightarrow> nat" where
  "tier_rank Community = 0"
| "tier_rank Pro = 1"
| "tier_rank Enterprise = 2"

lemma tier_rank_inj: "tier_rank a = tier_rank b \<longleftrightarrow> a = b"
  by (cases a; cases b) simp_all

instantiation plan_tier :: linorder
begin

definition less_eq_plan_tier :: "plan_tier \<Rightarrow> plan_tier \<Rightarrow> bool" where
  "less_eq_plan_tier a b \<longleftrightarrow> tier_rank a \<le> tier_rank b"

definition less_plan_tier :: "plan_tier \<Rightarrow> plan_tier \<Rightarrow> bool" where
  "less_plan_tier a b \<longleftrightarrow> tier_rank a < tier_rank b"

instance
  by standard (auto simp: less_eq_plan_tier_def less_plan_tier_def tier_rank_inj)

end

definition tier_from_str_lossy :: "string \<Rightarrow> plan_tier" where
  "tier_from_str_lossy s =
     (let l = to_lowercase s
      in if l = ''pro'' then Pro else if l = ''enterprise'' then Enterprise else Community)"

fun display_tier :: "plan_tier \<Rightarrow> string" where
  "display_tier Community = ''community''"
| "display_tier Pro = ''pro''"
| "display_tier Enterprise = ''enterprise''"

record feature_gate =
  fg_tier :: plan_tier
  fg_seats :: u32

definition fg_allows :: "feature_gate \<Rightarrow> string \<Rightarrow> bool" where
  "fg_allows g feature =
     (if feature \<in> {''proxy'', ''audit'', ''digest'', ''supervisor'', ''filters'', ''cli'', ''dashboard''} then True
      else if feature \<in> {''notification_channels'', ''usage_analytics'', ''cloud_sync'', ''policy_editor''} then fg_tier g \<ge> Pro
      else if feature \<in> {''pagerduty'', ''opsgenie''} then fg_tier g \<ge> Enterprise
      else False)"

definition max_sessions :: "feature_gate \<Rightarrow> nat" where
  "max_sessions g = (case fg_tier g of Community \<Rightarrow> 2 | Pro \<Rightarrow> 64 | Enterprise \<Rightarrow> 64)"

definition feature_list :: "feature_gate \<Rightarrow> (string \<times> bool) list" where
  "feature_list g =
     map (\<lambda>f. (f, fg_allows g f))
       [''proxy'', ''audit'', ''digest'', ''supervisor'', ''filters'', ''cli'', ''dashboard'',
        ''notification_channels'', ''usage_analytics'', ''cloud_sync'', ''policy_editor'',
        ''pagerduty'', ''opsgenie'']"

datatype refresh_failure_kind = Transient | Revoked | Unauthorized | Protocol

fun refresh_failure_as_str :: "refresh_failure_kind \<Rightarrow> string" where
  "refresh_failure_as_str Transient = ''transient''"
| "refresh_failure_as_str Revoked = ''revoked''"
| "refresh_failure_as_str Unauthorized = ''unauthorized''"
| "refresh_failure_as_str Protocol = ''protocol''"

datatype notification_error =
    TierRestriction string plan_tier
  | ChannelDisabled string
  | ChannelNotConfigured string
  | ChannelUnhealthy string string
  | InvalidNonce
  | ItemNotActionable uuid
  | RateLimited string duration
  | DeliveryFailed string string
  | HttpError string
  | NSerialization string
  | OtherError string

record notify_result =
  nr_external_id :: "string option"
  nr_delivered :: bool

record channel_health =
  chh_connected :: bool
  chh_latency_ms :: "u64 option"
  chh_error :: "string option"

record callback_payload =
  cb_item_id :: uuid
  cb_action :: review_action
  cb_reviewer :: string
  cb_notes :: "string option"
  cb_nonce :: string
  cb_channel_id :: string
  cb_user_id :: "int option"

record channel =
  chn_id :: string
  chn_display_name :: string
  chn_required_tier :: plan_tier
  chn_interactive :: bool
  chn_notify :: "digest_item \<Rightarrow> string option \<Rightarrow> notification_error + notify_result"
  chn_resolution :: "digest_item \<Rightarrow> notification_error + unit"
  chn_escalation :: "digest_item \<Rightarrow> notification_error + unit"
  chn_callback :: "callback_payload \<Rightarrow> notification_error + review_action option"
  chn_health :: "notification_error + channel_health"

datatype notification_event =
    Sent uuid string "string option" instant
  | Delivered uuid string instant
  | Failed uuid string string instant
  | InteractiveResponse uuid string review_action string instant

subsection \<open>The nonce store\<close>

record nonce_entry =
  ne_item_id :: uuid
  ne_channel_id :: string
  ne_created_at :: instant
  ne_ttl :: duration
  ne_consumed :: bool

record nonce_store =
  ns_entries :: "string \<rightharpoonup> nonce_entry"
  default_ttl :: duration

definition nonce_store_new :: "duration \<Rightarrow> nonce_store" where
  "nonce_store_new ttl = \<lparr> ns_entries = Map.empty, default_ttl = ttl \<rparr>"

text \<open>The first sixteen characters of the random UUID are the nonce.\<close>

definition generate_with_ttl ::
    "string \<Rightarrow> uuid \<Rightarrow> string \<Rightarrow> duration \<Rightarrow> instant \<Rightarrow> nonce_store \<Rightarrow> string \<times> nonce_store" where
  "generate_with_ttl random item ch ttl now s =
     (let nonce = take 16 random
      in (nonce, s\<lparr>ns_entries := (ns_entries s)(nonce \<mapsto>
            \<lparr> ne_item_id = item, ne_channel_id = ch, ne_created_at = now, ne_ttl = ttl, ne_consumed = False \<rparr>)\<rparr>))"

definition generate :: "string \<Rightarrow> uuid \<Rightarrow> string \<Rightarrow> instant \<Rightarrow> nonce_store \<Rightarrow> string \<times> nonce_store" where
  "generate random item ch now s = generate_with_ttl random item ch (default_ttl s) now s"

definition validate_and_consume ::
    "uuid \<Rightarrow> string \<Rightarrow> string \<Rightarrow> instant \<Rightarrow> nonce_store \<Rightarrow> bool \<times> nonce_store" where
  "validate_and_consume item nonce ch now s =
     (case ns_entries s nonce of
        Some e \<Rightarrow>
          if ne_consumed e then (False, s)
          else if ne_item_id e \<noteq> item then (False, s)
          else if ne_channel_id e \<noteq> ch then (False, s)
          else if nat (now - ne_created_at e) > ne_ttl e then (False, s)
          else (True, s\<lparr>ns_entries := (ns_entries s)(nonce \<mapsto> e\<lparr>ne_consumed := True\<rparr>)\<rparr>)
      | None \<Rightarrow> (False, s))"

definition nonce_cleanup :: "instant \<Rightarrow> nonce_store \<Rightarrow> nonce_store" where
  "nonce_cleanup now s =
     s\<lparr>ns_entries := (\<lambda>n. case ns_entries s n of
          Some e \<Rightarrow> if \<not> ne_consumed e \<and> nat (now - ne_created_at e) \<le> ne_ttl e then Some e else None
        | None \<Rightarrow> None)\<rparr>"

subsection \<open>One-time tokens\<close>

text \<open>
  The contract: a token can be redeemed only while it is redeemable for what it was issued for;
  redeeming spends it; and nothing but issuing it anew makes a token redeemable. \<open>'b\<close> is what a
  token is bound to, \<open>'o\<close> stands for the operations that issue other tokens or reclaim memory.
\<close>

datatype ('t, 'b, 'o) token_op = Redeem 't 'b instant | Other 'o

locale one_time_tokens =
  fixes redeem :: "'t \<Rightarrow> 'b \<Rightarrow> instant \<Rightarrow> 's \<Rightarrow> bool \<times> 's"
    and other :: "'o \<Rightarrow> 's \<Rightarrow> 's"
    and issues :: "'o \<Rightarrow> 't option"
    and redeemable :: "'s \<Rightarrow> 't \<Rightarrow> 'b \<Rightarrow> bool"
  assumes redeem_only: "fst (redeem t b now s) \<Longrightarrow> redeemable s t b"
    and redeem_spends: "fst (redeem t b now s) \<Longrightarrow> \<not> redeemable (snd (redeem t b now s)) t b'"
    and redeem_keeps: "redeemable (snd (redeem t b now s)) t' b' \<Longrightarrow> redeemable s t' b'"
    and other_keeps: "issues x \<noteq> Some t \<Longrightarrow> redeemable (other x s) t b \<Longrightarrow> redeemable s t b"
begin

fun run_tokens :: "('t, 'b, 'o) token_op list \<Rightarrow> 's \<Rightarrow> ('t \<times> 'b) list" where
  "run_tokens [] s = []"
| "run_tokens (Redeem t b now # ops) s =
     (case redeem t b now s of (ok, s') \<Rightarrow> (if ok then [(t, b)] else []) @ run_tokens ops s')"
| "run_tokens (Other x # ops) s = run_tokens ops (other x s)"

lemma never_redeemable:
  "(\<And>b. \<not> redeemable s t b) \<Longrightarrow> \<forall>x. Other x \<in> set ops \<longrightarrow> issues x \<noteq> Some t \<Longrightarrow>
   filter (\<lambda>p. fst p = t) (run_tokens ops s) = []"
proof (induction ops s rule: run_tokens.induct)
  case (2 t' b now ops s)
  obtain ok s' where r: "redeem t' b now s = (ok, s')" by fastforce
  have "t' \<noteq> t" if ok using redeem_only [of t' b now s] that 2(2) r by auto
  moreover have "\<not> redeemable s' t b" for b using redeem_keeps [of t' _ now s t b] 2(2) r by (metis snd_conv)
  then have "filter (\<lambda>p. fst p = t) (run_tokens ops s') = []" using 2(1) [OF r [symmetric]] 2(3) by auto
  ultimately show ?case using r by auto
next
  case (3 x ops s)
  have "\<not> redeemable (other x s) t b" for b using other_keeps [of x t s b] 3(2,3) by auto
  with 3 show ?case by auto
qed simp

lemma redeemed_at_most_once:
  "\<forall>x. Other x \<in> set ops \<longrightarrow> issues x \<noteq> Some t \<Longrightarrow>
   length (filter (\<lambda>p. fst p = t) (run_tokens ops s)) \<le> 1"
proof (induction ops s rule: run_tokens.induct)
  case (2 t' b now ops s)
  obtain ok s' where r: "redeem t' b now s = (ok, s')" by fastforce
  have IH: "length (filter (\<lambda>p. fst p = t) (run_tokens ops s')) \<le> 1"
    using 2(1) [OF r [symmetric]] 2(2) by auto
  show ?case
  proof (cases "ok \<and> t' = t")
    case True
    then have "\<not> redeemable s' t b'" for b' using redeem_spends [of t b now s b'] r by auto
    then have "filter (\<lambda>p. fst p = t) (run_tokens ops s') = []"
      using 2(2) by (intro never_redeemable) auto
    with True r show ?thesis by simp
  next
    case False
    with IH r show ?thesis by auto
  qed
next
  case (3 x ops s)
  then show ?case by auto
qed simp

lemma redeemed_was_redeemable:
  "p \<in> set (run_tokens ops s) \<Longrightarrow> \<forall>x. Other x \<in> set ops \<longrightarrow> issues x \<noteq> Some (fst p) \<Longrightarrow>
   redeemable s (fst p) (snd p)"
proof (induction ops s rule: run_tokens.induct)
  case (2 t' b now ops s)
  obtain ok s' where r: "redeem t' b now s = (ok, s')" by fastforce
  consider "ok" "p = (t', b)" | "p \<in> set (run_tokens ops s')" using 2(2) r by (auto split: if_splits)
  then show ?case
  proof cases
    case 1
    then show ?thesis using redeem_only [of t' b now s] r by simp
  next
    case 2
    then have "redeemable s' (fst p) (snd p)" using "2.IH" [OF r [symmetric]] "2.prems" by auto
    then show ?thesis using redeem_keeps [of t' b now s "fst p" "snd p"] r by simp
  qed
next
  case (3 x ops s)
  then have "redeemable (other x s) (fst p) (snd p)" by auto
  with 3(3) show ?case using other_keeps [of x "fst p" s "snd p"] by auto
qed simp

end

datatype store_op = Generate string uuid string duration instant | Cleanup instant

fun store_other :: "store_op \<Rightarrow> nonce_store \<Rightarrow> nonce_store" where
  "store_other (Generate random item ch ttl now) s = snd (generate_with_ttl random item ch ttl now s)"
| "store_other (Cleanup now) s = nonce_cleanup now s"

fun store_issues :: "store_op \<Rightarrow> string option" where
  "store_issues (Generate random item ch ttl now) = Some (take 16 random)"
| "store_issues (Cleanup now) = None"

definition unspent :: "nonce_store \<Rightarrow> string \<Rightarrow> uuid \<times> string \<Rightarrow> bool" where
  "unspent s n b \<longleftrightarrow> (\<exists>e. ns_entries s n = Some e \<and> \<not> ne_consumed e \<and> (ne_item_id e, ne_channel_id e) = b)"

definition store_redeem :: "string \<Rightarrow> uuid \<times> string \<Rightarrow> instant \<Rightarrow> nonce_store \<Rightarrow> bool \<times> nonce_store" where
  "store_redeem n b now s = validate_and_consume (fst b) n (snd b) now s"

interpretation nonces: one_time_tokens store_redeem store_other store_issues unspent
proof
  fix t :: string and b b' :: "uuid \<times> string" and now :: instant and s :: nonce_store and t' :: string and x :: store_op
  show "fst (store_redeem t b now s) \<Longrightarrow> unspent s t b"
    by (auto simp: store_redeem_def validate_and_consume_def unspent_def split: option.splits if_splits)
  show "fst (store_redeem t b now s) \<Longrightarrow> \<not> unspent (snd (store_redeem t b now s)) t b'"
    by (auto simp: store_redeem_def validate_and_consume_def unspent_def split: option.splits if_splits)
  show "unspent (snd (store_redeem t b now s)) t' b' \<Longrightarrow> unspent s t' b'"
    by (auto simp: store_redeem_def validate_and_consume_def unspent_def split: option.splits if_splits)
  show "store_issues x \<noteq> Some t \<Longrightarrow> unspent (store_other x s) t b \<Longrightarrow> unspent s t b"
    by (cases x) (auto simp: generate_with_ttl_def nonce_cleanup_def unspent_def Let_def split: option.splits if_splits)
qed

subsection \<open>Properties\<close>

text \<open>The nonces accepted along a run of operations on the store.\<close>

definition accepted_nonces ::
    "(string, uuid \<times> string, store_op) token_op list \<Rightarrow> nonce_store \<Rightarrow> (string \<times> uuid \<times> string) list" where
  "accepted_nonces ops s = nonces.run_tokens ops s"

lemma accepted_nonces_simps [simp]:
  "accepted_nonces [] s = []"
  "accepted_nonces (Redeem n b now # ops) s =
     (if fst (validate_and_consume (fst b) n (snd b) now s) then [(n, b)] else []) @
     accepted_nonces ops (snd (validate_and_consume (fst b) n (snd b) now s))"
  "accepted_nonces (Other x # ops) s = accepted_nonces ops (store_other x s)"
  by (simp_all add: accepted_nonces_def store_redeem_def split: prod.splits)

text \<open>
  A callback nonce works once: along any sequence of validations, issues of other nonces and
  cleanups, a nonce is accepted at most one time, and only for the item and the channel it was
  issued for.
\<close>

theorem nonce_accepted_at_most_once:
  assumes "\<forall>x. Other x \<in> set ops \<longrightarrow> store_issues x \<noteq> Some n"
  shows "length (filter (\<lambda>p. fst p = n) (accepted_nonces ops s)) \<le> 1 \<and>
    (\<forall>b. (n, b) \<in> set (accepted_nonces ops s) \<longrightarrow>
       (\<exists>e. ns_entries s n = Some e \<and> \<not> ne_consumed e \<and> (ne_item_id e, ne_channel_id e) = b))"
  using nonces.redeemed_at_most_once [OF assms, of s] nonces.redeemed_was_redeemable [of "(n, _)" ops s] assms
  by (auto simp: accepted_nonces_def unspent_def)

theorem nonce_accepted_at_most_once_witness:
  "accepted_nonces [Redeem ''n'' (1, ''slack'') 3, Other (Cleanup 4), Redeem ''n'' (1, ''slack'') 5]
     (snd (generate ''n'' 1 ''slack'' 0 (nonce_store_new 9))) = [(''n'', 1, ''slack'')] \<and>
   length (filter (\<lambda>p. fst p = ''n'') (accepted_nonces
     [Redeem ''n'' (1, ''slack'') 3, Other (Cleanup 4), Redeem ''n'' (1, ''slack'') 5]
     (snd (generate ''n'' 1 ''slack'' 0 (nonce_store_new 9))))) \<le> 1"
proof
  show "accepted_nonces [Redeem ''n'' (1, ''slack'') 3, Other (Cleanup 4), Redeem ''n'' (1, ''slack'') 5]
     (snd (generate ''n'' 1 ''slack'' 0 (nonce_store_new 9))) = [(''n'', 1, ''slack'')]"
    by (simp add: generate_def generate_with_ttl_def nonce_store_new_def validate_and_consume_def nonce_cleanup_def Let_def)
  show "length (filter (\<lambda>p. fst p = ''n'') (accepted_nonces
     [Redeem ''n'' (1, ''slack'') 3, Other (Cleanup 4), Redeem ''n'' (1, ''slack'') 5]
     (snd (generate ''n'' 1 ''slack'' 0 (nonce_store_new 9))))) \<le> 1"
    by (rule nonce_accepted_at_most_once [THEN conjunct1]) auto
qed

text \<open>
  A nonce is usable for its whole life: validated with the item and channel it was issued for, no
  later than its time to live, it is accepted.
\<close>

lemma nonce_accepted_in_time:
  assumes "nat (now - t0) \<le> default_ttl s"
  shows "fst (validate_and_consume item (fst (generate random item ch t0 s)) ch now (snd (generate random item ch t0 s)))"
  using assms by (simp add: generate_def generate_with_ttl_def validate_and_consume_def Let_def)

text \<open>A higher tier never loses a feature or a session.\<close>

lemma feature_gate_monotone:
  "fg_tier g \<le> fg_tier h \<Longrightarrow> (fg_allows g f \<longrightarrow> fg_allows h f) \<and> max_sessions g \<le> max_sessions h"
  by (cases "fg_tier g"; cases "fg_tier h")
     (auto simp: fg_allows_def max_sessions_def less_eq_plan_tier_def)

lemma tier_round_trip: "tier_from_str_lossy (display_tier t) = t"
proof -
  have "to_lowercase ''community'' = ''community''" "to_lowercase ''pro'' = ''pro''"
      "to_lowercase ''enterprise'' = ''enterprise''"
    by code_simp+
  then show ?thesis by (cases t) (simp_all add: tier_from_str_lossy_def)
qed

end
