(* ===== verification/Notify_Parts.thy ===== *)
theory Notify_Parts
  imports Notification Sliding_Window "HOL-Library.Char_ord" "HOL-Library.List_Lexorder"
begin

section \<open>The parts of the notification dispatcher\<close>

text \<open>
  \<open>crates/grith-notify/src/\<close>: \<open>batcher.rs\<close>, \<open>tracker.rs\<close>, \<open>routing.rs\<close> and \<open>registry.rs\<close>.
  Strings are ordered by their bytes, as Rust's \<open>sort\<close> orders them.
\<close>

subsection \<open>Batcher\<close>

record batch_entry =
  be_item :: digest_item
  be_queued_at :: instant

record batcher =
  bt_pending :: "batch_entry list"
  bt_window :: duration
  bt_max_batch_size :: nat

definition batcher_new :: "duration \<Rightarrow> nat \<Rightarrow> batcher" where
  "batcher_new w n = \<lparr> bt_pending = [], bt_window = w, bt_max_batch_size = n \<rparr>"

definition batcher_default :: batcher where
  "batcher_default = batcher_new (secs 300) 10"

definition batch_add :: "digest_item \<Rightarrow> instant \<Rightarrow> batcher \<Rightarrow> bool \<times> batcher" where
  "batch_add i now b =
     (let p = bt_pending b @ [\<lparr> be_item = i, be_queued_at = now \<rparr>]
      in (length p \<ge> bt_max_batch_size b, b\<lparr>bt_pending := p\<rparr>))"

definition flush_ready :: "instant \<Rightarrow> batcher \<Rightarrow> digest_item list \<times> batcher" where
  "flush_ready now b =
     (let should_flush = (case bt_pending b of [] \<Rightarrow> False | e # _ \<Rightarrow> now - be_queued_at e \<ge> int (bt_window b))
      in if should_flush \<or> length (bt_pending b) \<ge> bt_max_batch_size b
         then (map be_item (bt_pending b), b\<lparr>bt_pending := []\<rparr>)
         else ([], b))"

definition flush_all :: "batcher \<Rightarrow> digest_item list \<times> batcher" where
  "flush_all b = (map be_item (bt_pending b), b\<lparr>bt_pending := []\<rparr>)"

definition pending_count :: "batcher \<Rightarrow> nat" where
  "pending_count b = length (bt_pending b)"

definition batch_remove :: "uuid \<Rightarrow> batcher \<Rightarrow> bool \<times> batcher" where
  "batch_remove i b =
     (let p = filter (\<lambda>e. di_id (be_item e) \<noteq> i) (bt_pending b)
      in (length p < length (bt_pending b), b\<lparr>bt_pending := p\<rparr>))"

subsection \<open>Tracker\<close>

record channel_delivery =
  cd_channel_id :: string
  cd_external_id :: "string option"
  cd_sent_at :: instant
  cd_delivered :: bool
  cd_error :: "string option"

record delivery_tracker =
  dt_deliveries :: "(uuid \<times> channel_delivery list) list"
  dt_events :: "notification_event list"
  dt_max_events :: nat

definition tracker_fresh :: "nat \<Rightarrow> delivery_tracker" where
  "tracker_fresh n = \<lparr> dt_deliveries = [], dt_events = [], dt_max_events = n \<rparr>"

definition tracker_default :: delivery_tracker where
  "tracker_default = tracker_fresh 1000"

definition push_event :: "notification_event \<Rightarrow> delivery_tracker \<Rightarrow> delivery_tracker" where
  "push_event e t =
     t\<lparr>dt_events := (if length (dt_events t) \<ge> dt_max_events t then tl (dt_events t) else dt_events t) @ [e]\<rparr>"

definition get_deliveries :: "uuid \<Rightarrow> delivery_tracker \<Rightarrow> channel_delivery list" where
  "get_deliveries i t = (case map_of (dt_deliveries t) i of Some ds \<Rightarrow> ds | None \<Rightarrow> [])"

definition push_delivery :: "uuid \<Rightarrow> channel_delivery \<Rightarrow> delivery_tracker \<Rightarrow> delivery_tracker" where
  "push_delivery i d t = t\<lparr>dt_deliveries := assoc_insert i (get_deliveries i t @ [d]) (dt_deliveries t)\<rparr>"

definition record_sent :: "uuid \<Rightarrow> string \<Rightarrow> string option \<Rightarrow> instant \<Rightarrow> delivery_tracker \<Rightarrow> delivery_tracker" where
  "record_sent i ch ext now t =
     push_event (Sent i ch ext now)
       (push_delivery i \<lparr> cd_channel_id = ch, cd_external_id = ext, cd_sent_at = now, cd_delivered = True, cd_error = None \<rparr> t)"

definition record_failed :: "uuid \<Rightarrow> string \<Rightarrow> string \<Rightarrow> instant \<Rightarrow> delivery_tracker \<Rightarrow> delivery_tracker" where
  "record_failed i ch err now t =
     push_event (Failed i ch err now)
       (push_delivery i \<lparr> cd_channel_id = ch, cd_external_id = None, cd_sent_at = now, cd_delivered = False, cd_error = Some err \<rparr> t)"

definition record_interactive_response ::
    "uuid \<Rightarrow> string \<Rightarrow> review_action \<Rightarrow> string \<Rightarrow> instant \<Rightarrow> delivery_tracker \<Rightarrow> delivery_tracker" where
  "record_interactive_response i ch act who now t = push_event (InteractiveResponse i ch act who now) t"

definition sent_channels :: "uuid \<Rightarrow> delivery_tracker \<Rightarrow> string list" where
  "sent_channels i t = map cd_channel_id (filter cd_delivered (get_deliveries i t))"

definition recent_events :: "nat \<Rightarrow> delivery_tracker \<Rightarrow> notification_event list" where
  "recent_events limit t = drop (length (dt_events t) - limit) (dt_events t)"

definition cleanup_before :: "instant \<Rightarrow> delivery_tracker \<Rightarrow> delivery_tracker" where
  "cleanup_before cutoff t =
     t\<lparr>dt_deliveries := filter (\<lambda>(_, ds). list_ex (\<lambda>d. cd_sent_at d \<ge> cutoff) ds) (dt_deliveries t)\<rparr>"

subsection \<open>Routing\<close>

record routing_engine =
  severity_routes :: "score_severity \<rightharpoonup> string list"
  escalation_channels :: "string list"
  filter_overrides :: "string \<rightharpoonup> string list"

definition routing_new :: routing_engine where
  "routing_new = \<lparr> severity_routes = Map.empty, escalation_channels = [], filter_overrides = Map.empty \<rparr>"

definition severity_of_key :: "string \<Rightarrow> score_severity option" where
  "severity_of_key k =
     (let l = to_lowercase k
      in if l = ''low'' then Some ScoreLow else if l = ''medium'' then Some ScoreMedium
         else if l = ''high'' then Some ScoreHigh else if l = ''critical'' then Some ScoreCritical else None)"

definition routing_from_config ::
    "(string \<times> string list) list \<Rightarrow> string list \<Rightarrow> (string \<rightharpoonup> string list) \<Rightarrow> routing_engine" where
  "routing_from_config routes esc overrides =
     \<lparr> severity_routes =
         fold (\<lambda>(k, v) m. case severity_of_key k of Some s \<Rightarrow> m(s \<mapsto> v) | None \<Rightarrow> m) routes Map.empty,
       escalation_channels = esc, filter_overrides = overrides \<rparr>"

definition set_severity_route :: "score_severity \<Rightarrow> string list \<Rightarrow> routing_engine \<Rightarrow> routing_engine" where
  "set_severity_route s chs r = r\<lparr>severity_routes := (severity_routes r)(s \<mapsto> chs)\<rparr>"

definition set_escalation_channels :: "string list \<Rightarrow> routing_engine \<Rightarrow> routing_engine" where
  "set_escalation_channels chs r = r\<lparr>escalation_channels := chs\<rparr>"

definition add_filter_override :: "string \<Rightarrow> string list \<Rightarrow> routing_engine \<Rightarrow> routing_engine" where
  "add_filter_override f chs r = r\<lparr>filter_overrides := (filter_overrides r)(f \<mapsto> chs)\<rparr>"

definition routes_for :: "('k \<rightharpoonup> string list) \<Rightarrow> 'k \<Rightarrow> string list" where
  "routes_for m k = (case m k of Some chs \<Rightarrow> chs | None \<Rightarrow> [])"

definition resolve :: "score_severity \<Rightarrow> string list \<Rightarrow> routing_engine \<Rightarrow> string list" where
  "resolve sev names r =
     (let chs = routes_for (severity_routes r) sev @ concat (map (routes_for (filter_overrides r)) names);
          chs = (if chs = [] then routes_for (severity_routes r) ScoreLow else chs)
      in sort (remdups chs))"

definition resolve_escalation :: "routing_engine \<Rightarrow> string list" where
  "resolve_escalation r = escalation_channels r"

definition routing_default :: routing_engine where
  "routing_default =
     set_escalation_channels [''websocket'', ''desktop'']
       (set_severity_route ScoreCritical [''websocket'', ''desktop'']
         (set_severity_route ScoreHigh [''websocket'', ''desktop'']
           (set_severity_route ScoreMedium [''websocket'', ''desktop'']
             (set_severity_route ScoreLow [''websocket''] routing_new))))"

subsection \<open>Registry\<close>

datatype notify_error =
    NotificationErr notification_error
  | ChannelNotFound string

record channel_registry =
  cr_channels :: "(string \<times> channel) list"
  cr_enabled :: "(string \<times> bool) list"

definition channel_registry_new :: channel_registry where
  "channel_registry_new = \<lparr> cr_channels = [], cr_enabled = [] \<rparr>"

definition cr_register :: "channel \<Rightarrow> bool \<Rightarrow> channel_registry \<Rightarrow> channel_registry" where
  "cr_register c en r =
     r\<lparr>cr_enabled := assoc_insert (chn_id c) en (cr_enabled r),
       cr_channels := assoc_insert (chn_id c) c (cr_channels r)\<rparr>"

definition cr_get :: "string \<Rightarrow> channel_registry \<Rightarrow> channel option" where
  "cr_get i r = map_of (cr_channels r) i"

definition is_enabled :: "string \<Rightarrow> channel_registry \<Rightarrow> bool" where
  "is_enabled i r = (case map_of (cr_enabled r) i of Some b \<Rightarrow> b | None \<Rightarrow> False)"

definition get_enabled :: "string \<Rightarrow> channel_registry \<Rightarrow> notify_error + channel" where
  "get_enabled i r =
     (case map_of (cr_channels r) i of
        None \<Rightarrow> Inl (ChannelNotFound i)
      | Some c \<Rightarrow> if is_enabled i r then Inr c else Inl (NotificationErr (ChannelDisabled i)))"

definition set_enabled :: "string \<Rightarrow> bool \<Rightarrow> channel_registry \<Rightarrow> channel_registry" where
  "set_enabled i en r = r\<lparr>cr_enabled := assoc_insert i en (cr_enabled r)\<rparr>"

definition channel_ids :: "channel_registry \<Rightarrow> string list" where
  "channel_ids r = map fst (cr_channels r)"

definition enabled_channel_ids :: "channel_registry \<Rightarrow> string list" where
  "enabled_channel_ids r = filter (\<lambda>i. is_enabled i r) (map fst (cr_channels r))"

definition available_channel_ids :: "plan_tier \<Rightarrow> channel_registry \<Rightarrow> string list" where
  "available_channel_ids tier r =
     map fst (filter (\<lambda>(i, c). is_enabled i r \<and> chn_required_tier c \<le> tier) (cr_channels r))"

record channel_info =
  ci_id :: string
  ci_display_name :: string
  ci_required_tier :: plan_tier
  ci_supports_interactive :: bool
  ci_enabled :: bool
  ci_health :: "channel_health option"

definition list_channels :: "plan_tier \<Rightarrow> channel_registry \<Rightarrow> channel_info list" where
  "list_channels tier r =
     sort_key ci_id (map (\<lambda>(i, c).
       \<lparr> ci_id = i, ci_display_name = chn_display_name c, ci_required_tier = chn_required_tier c,
         ci_supports_interactive = chn_interactive c,
         ci_enabled = (is_enabled i r \<and> chn_required_tier c \<le> tier),
         ci_health = (case chn_health c of Inr h \<Rightarrow> Some h | Inl _ \<Rightarrow> None) \<rparr>) (cr_channels r))"

subsection \<open>Lemmas\<close>

lemma get_enabled_Inr: "get_enabled i r = Inr c \<longleftrightarrow> cr_get i r = Some c \<and> is_enabled i r"
  by (auto simp: get_enabled_def cr_get_def split: option.splits)

lemma resolve_distinct [simp]: "distinct (resolve sev names r)"
  by (simp add: resolve_def Let_def)

lemma resolve_sorted [simp]: "sorted (resolve sev names r)"
  by (simp add: resolve_def Let_def)

lemma resolve_set:
  "set (resolve sev names r) =
     (let chs = set (routes_for (severity_routes r) sev) \<union> (\<Union>n \<in> set names. set (routes_for (filter_overrides r) n))
      in if chs = {} then set (routes_for (severity_routes r) ScoreLow) else chs)"
  by (auto simp: resolve_def Let_def)

lemma available_ids_iff:
  "distinct (map fst (cr_channels r)) \<Longrightarrow>
   i \<in> set (available_channel_ids tier r) \<longleftrightarrow> (\<exists>c. get_enabled i r = Inr c \<and> chn_required_tier c \<le> tier)"
  by (force simp: available_channel_ids_def get_enabled_Inr cr_get_def image_iff)

lemma push_event_bound:
  "length (dt_events t) \<le> max 1 (dt_max_events t) \<Longrightarrow>
   length (dt_events (push_event e t)) \<le> max 1 (dt_max_events t)"
  by (auto simp: push_event_def)

lemma get_deliveries_push [simp]:
  "get_deliveries j (push_delivery i d t) = (if j = i then get_deliveries i t @ [d] else get_deliveries j t)"
  by (simp add: push_delivery_def get_deliveries_def)

lemma get_deliveries_event [simp]: "get_deliveries j (push_event e t) = get_deliveries j t"
  by (simp add: push_event_def get_deliveries_def)

lemma sent_channels_simps [simp]:
  "sent_channels j (record_sent i ch ext now t) = (if j = i then sent_channels i t @ [ch] else sent_channels j t)"
  "sent_channels j (record_failed i ch err now t) = sent_channels j t"
  by (simp_all add: sent_channels_def record_sent_def record_failed_def)

subsection \<open>Nothing is lost in the batcher\<close>

datatype batch_op = BAdd digest_item instant | BFlushReady instant | BFlushAll | BRemove uuid

text \<open>The items handed out and the items removed unsent, along a run.\<close>

fun run_batcher :: "batch_op list \<Rightarrow> batcher \<Rightarrow> digest_item list \<times> digest_item list \<times> batcher" where
  "run_batcher [] b = ([], [], b)"
| "run_batcher (BAdd i now # ops) b = run_batcher ops (snd (batch_add i now b))"
| "run_batcher (BFlushReady now # ops) b =
     (case run_batcher ops (snd (flush_ready now b)) of (out, rem, b') \<Rightarrow> (fst (flush_ready now b) @ out, rem, b'))"
| "run_batcher (BFlushAll # ops) b =
     (case run_batcher ops (snd (flush_all b)) of (out, rem, b') \<Rightarrow> (fst (flush_all b) @ out, rem, b'))"
| "run_batcher (BRemove i # ops) b =
     (case run_batcher ops (snd (batch_remove i b)) of
        (out, rem, b') \<Rightarrow> (out, filter (\<lambda>x. di_id x = i) (map be_item (bt_pending b)) @ rem, b'))"

fun added :: "batch_op list \<Rightarrow> digest_item list" where
  "added [] = []"
| "added (BAdd i _ # ops) = i # added ops"
| "added (_ # ops) = added ops"

lemma flush_ready_conserves:
  "fst (flush_ready now b) @ map be_item (bt_pending (snd (flush_ready now b))) = map be_item (bt_pending b)"
  by (simp add: flush_ready_def Let_def)

lemma mset_split: "mset xs = mset (filter P xs) + mset (filter (\<lambda>x. \<not> P x) xs)"
  by (induction xs) auto

text \<open>
  The batcher neither loses nor duplicates: along any run every item added is, as often as it
  was added, handed out by a flush, removed because it was resolved, or still pending.
\<close>

theorem batcher_conserves:
  "case run_batcher ops b of (out, removed, b') \<Rightarrow>
     mset (map be_item (bt_pending b)) + mset (added ops) =
     mset out + mset removed + mset (map be_item (bt_pending b'))"
proof (induction ops b rule: run_batcher.induct)
  case (2 i now ops b)
  then show ?case by (auto simp: batch_add_def Let_def split: prod.splits)
next
  case (3 now ops b)
  have "mset (map be_item (bt_pending b)) =
      mset (fst (flush_ready now b)) + mset (map be_item (bt_pending (snd (flush_ready now b))))"
    by (metis flush_ready_conserves mset_append)
  with 3 show ?case by (auto split: prod.splits)
next
  case (4 ops b)
  then show ?case by (auto simp: flush_all_def split: prod.splits)
next
  case (5 i ops b)
  have "mset (map be_item (bt_pending b)) = mset (filter (\<lambda>x. di_id x = i) (map be_item (bt_pending b))) +
      mset (map be_item (bt_pending (snd (batch_remove i b))))"
    by (subst mset_split [of _ "\<lambda>x. di_id x = i"]) (simp add: batch_remove_def Let_def filter_map comp_def)
  moreover obtain out rem b' where run: "run_batcher ops (snd (batch_remove i b)) = (out, rem, b')"
    by (cases "run_batcher ops (snd (batch_remove i b))")
  ultimately have "mset (map be_item (bt_pending b)) + mset (added ops) =
      mset (filter (\<lambda>x. di_id x = i) (map be_item (bt_pending b))) +
      (mset (map be_item (bt_pending (snd (batch_remove i b)))) + mset (added ops))"
    by (simp only: add.assoc)
  also have "\<dots> = mset (filter (\<lambda>x. di_id x = i) (map be_item (bt_pending b))) +
      (mset out + mset rem + mset (map be_item (bt_pending b')))"
    using 5 run by (simp only: prod.case)
  finally show ?case using run by (simp add: ac_simps)
qed simp

end
