(* ===== verification/Dispatcher.thy ===== *)
theory Dispatcher
  imports Notify_Parts
begin

section \<open>The notification dispatcher\<close>

text \<open>
  \<open>crates/grith-notify/src/dispatcher.rs\<close>: routing, gating, rate limiting and tracking of
  notifications, interactive callbacks that review digest items, and one tick of each background
  loop. The dispatcher's state holds the shared parts by value; \<open>dp_wire\<close> is the sequence of
  messages handed to channels, kept for the properties. The environment supplies what other crates
  compute: random nonces (\<open>ev_random n\<close> is the \<open>n\<close>-th draw), text encodings, and the rendering of
  a duration. Every operation takes the clock reading it uses.
\<close>

fun severity_level :: "score_severity \<Rightarrow> nat" where
  "severity_level ScoreLow = 0"
| "severity_level ScoreMedium = 1"
| "severity_level ScoreHigh = 2"
| "severity_level ScoreCritical = 3"

datatype wire =
    WRequest string uuid "string option"
  | WResolution string uuid
  | WEscalation string uuid

record env =
  ev_codecs :: codecs
  ev_random :: "nat \<Rightarrow> string"
  ev_show_duration :: "duration \<Rightarrow> string"

record dispatcher =
  dp_registry :: channel_registry
  dp_routing :: routing_engine
  dp_tracker :: delivery_tracker
  dp_limiter :: rate_limiter
  dp_windows :: channel_windows
  dp_batcher :: batcher
  dp_nonces :: nonce_store
  dp_drawn :: nat
  dp_tier :: plan_tier
  dp_queue :: digest_table
  dp_escalate_timeout :: duration
  dp_escalate_min :: score_severity
  dp_remote_delay :: duration
  dp_wire :: "wire list"

definition dispatcher_new ::
    "channel_registry \<Rightarrow> routing_engine \<Rightarrow> nonce_store \<Rightarrow> plan_tier \<Rightarrow> digest_table \<Rightarrow> rate_limiter \<Rightarrow>
     batcher \<Rightarrow> duration \<Rightarrow> score_severity \<Rightarrow> dispatcher" where
  "dispatcher_new reg rt ns tier q rlim bt timeout min_sev =
     \<lparr> dp_registry = reg, dp_routing = rt, dp_tracker = tracker_default, dp_limiter = rlim,
       dp_windows = Map.empty, dp_batcher = bt, dp_nonces = ns, dp_drawn = 0, dp_tier = tier, dp_queue = q,
       dp_escalate_timeout = timeout, dp_escalate_min = min_sev, dp_remote_delay = secs 15, dp_wire = [] \<rparr>"

definition with_remote_delay :: "duration \<Rightarrow> dispatcher \<Rightarrow> dispatcher" where
  "with_remote_delay d dp = dp\<lparr>dp_remote_delay := d\<rparr>"

definition set_plan_tier :: "plan_tier \<Rightarrow> dispatcher \<Rightarrow> dispatcher" where
  "set_plan_tier t dp = dp\<lparr>dp_tier := t\<rparr>"

definition register_channel :: "channel \<Rightarrow> bool \<Rightarrow> dispatcher \<Rightarrow> dispatcher" where
  "register_channel c en dp = dp\<lparr>dp_registry := cr_register c en (dp_registry dp)\<rparr>"

text \<open>\<open>Display\<close> of the notification errors.\<close>

fun display_error :: "env \<Rightarrow> notification_error \<Rightarrow> string" where
  "display_error ev (TierRestriction c t) = ''channel '' @ c @ '' is not available on the '' @ display_tier t @ '' plan tier''"
| "display_error ev (ChannelDisabled c) = ''channel '' @ c @ '' is not enabled''"
| "display_error ev (ChannelNotConfigured c) = ''channel '' @ c @ '' is not configured''"
| "display_error ev (ChannelUnhealthy c e) = ''channel '' @ c @ '' is not healthy: '' @ e"
| "display_error ev InvalidNonce = ''callback nonce is invalid or expired''"
| "display_error ev (ItemNotActionable i) = ''callback item '' @ render_uuid (ev_codecs ev) i @ '' is no longer actionable''"
| "display_error ev (RateLimited c d) = ''rate limited on channel '' @ c @ '': next allowed in '' @ ev_show_duration ev d"
| "display_error ev (DeliveryFailed c e) = ''delivery failed on channel '' @ c @ '': '' @ e"
| "display_error ev (HttpError e) = ''http error: '' @ e"
| "display_error ev (NSerialization e) = ''serialization error: '' @ e"
| "display_error ev (OtherError e) = e"

definition should_batch_permission_request :: "digest_item \<Rightarrow> dispatcher \<Rightarrow> bool" where
  "should_batch_permission_request i dp \<longleftrightarrow>
     bt_window (dp_batcher dp) > 0 \<and> severity_level (di_severity i) \<le> severity_level ScoreMedium"

subsection \<open>Sending a request\<close>

definition draw_nonce :: "env \<Rightarrow> instant \<Rightarrow> uuid \<Rightarrow> string \<Rightarrow> dispatcher \<Rightarrow> string \<times> dispatcher" where
  "draw_nonce ev now i ch dp =
     (case generate (ev_random ev (dp_drawn dp)) i ch now (dp_nonces dp) of
        (n, ns) \<Rightarrow> (n, dp\<lparr>dp_nonces := ns, dp_drawn := dp_drawn dp + 1\<rparr>))"

definition send_request :: "env \<Rightarrow> instant \<Rightarrow> digest_item \<Rightarrow> string \<Rightarrow> channel \<Rightarrow> dispatcher \<Rightarrow> dispatcher" where
  "send_request ev now i ch c dp =
     (let (nonce, dp1) =
            (if chn_interactive c
             then (case draw_nonce ev now (di_id i) ch dp of (n, dp') \<Rightarrow> (Some n, dp'))
             else (None, dp));
          dp2 = dp1\<lparr>dp_wire := dp_wire dp1 @ [WRequest ch (di_id i) nonce]\<rparr>
      in case chn_notify c i nonce of
           Inr res \<Rightarrow>
             dp2\<lparr>dp_windows := notify_record ch now (dp_windows dp2),
                 dp_tracker := record_sent (di_id i) ch (nr_external_id res) now (dp_tracker dp2)\<rparr>
         | Inl e \<Rightarrow>
             dp2\<lparr>dp_tracker := record_failed (di_id i) ch (display_error ev e) now (dp_tracker dp2)\<rparr>)"

definition dispatch_one :: "env \<Rightarrow> instant \<Rightarrow> digest_item \<Rightarrow> string \<Rightarrow> dispatcher \<Rightarrow> dispatcher" where
  "dispatch_one ev now i ch dp =
     (case get_enabled ch (dp_registry dp) of
        Inl _ \<Rightarrow> dp
      | Inr c \<Rightarrow>
          if chn_required_tier c > dp_tier dp then dp
          else (case notify_check (dp_limiter dp) ch now (dp_windows dp) of
              (Inl wait, ws) \<Rightarrow>
                dp\<lparr>dp_windows := ws,
                   dp_tracker := record_failed (di_id i) ch
                     (''rate limited, next allowed in '' @ digits_of_nat (wait div 1000000000) @ ''s'') now (dp_tracker dp)\<rparr>
            | (Inr _, ws) \<Rightarrow> send_request ev now i ch c (dp\<lparr>dp_windows := ws\<rparr>)))"

definition dispatch_permission_request_now :: "env \<Rightarrow> instant \<Rightarrow> digest_item \<Rightarrow> dispatcher \<Rightarrow> dispatcher" where
  "dispatch_permission_request_now ev now i dp =
     fold (dispatch_one ev now i)
       (resolve (di_severity i) (map fb_filter_name (di_filter_breakdown i)) (dp_routing dp)) dp"

definition notify_permission_request :: "env \<Rightarrow> instant \<Rightarrow> nat \<Rightarrow> digest_item \<Rightarrow> dispatcher \<Rightarrow> dispatcher" where
  "notify_permission_request ev now hour i dp =
     (if is_quiet_hours (dp_limiter dp) hour \<and> severity_level (di_severity i) < severity_level ScoreCritical then dp
      else if should_batch_permission_request i dp then
        (case batch_add i now (dp_batcher dp) of
           (flush_now, b) \<Rightarrow>
             if \<not> flush_now then dp\<lparr>dp_batcher := b\<rparr>
             else (case flush_all b of
                     (items, b') \<Rightarrow> fold (dispatch_permission_request_now ev now) items (dp\<lparr>dp_batcher := b'\<rparr>)))
      else dispatch_permission_request_now ev now i dp)"

subsection \<open>Resolution and escalation\<close>

definition resolve_one :: "uuid \<Rightarrow> string \<Rightarrow> dispatcher \<Rightarrow> dispatcher" where
  "resolve_one i ch dp =
     (case get_enabled ch (dp_registry dp) of
        Inr c \<Rightarrow> dp\<lparr>dp_wire := dp_wire dp @ [WResolution ch i]\<rparr>
      | Inl _ \<Rightarrow> dp)"

definition notify_resolution :: "digest_item \<Rightarrow> dispatcher \<Rightarrow> dispatcher" where
  "notify_resolution i dp =
     (let dp1 = dp\<lparr>dp_batcher := snd (batch_remove (di_id i) (dp_batcher dp))\<rparr>
      in fold (resolve_one (di_id i)) (sent_channels (di_id i) (dp_tracker dp1)) dp1)"

definition escalate_one :: "digest_item \<Rightarrow> string \<Rightarrow> dispatcher \<Rightarrow> dispatcher" where
  "escalate_one i ch dp =
     (case get_enabled ch (dp_registry dp) of
        Inr c \<Rightarrow> if chn_required_tier c > dp_tier dp then dp
                 else dp\<lparr>dp_wire := dp_wire dp @ [WEscalation ch (di_id i)]\<rparr>
      | Inl _ \<Rightarrow> dp)"

definition notify_escalation :: "digest_item \<Rightarrow> dispatcher \<Rightarrow> dispatcher" where
  "notify_escalation i dp = fold (escalate_one i) (resolve_escalation (dp_routing dp)) dp"

subsection \<open>Callbacks\<close>

definition apply_action ::
    "codecs \<Rightarrow> instant \<Rightarrow> callback_payload \<Rightarrow> review_action \<Rightarrow> digest_table \<Rightarrow> digest_error + digest_table" where
  "apply_action c now p act tab =
     (case act of
        RApprove \<Rightarrow> approve c now (cb_item_id p) tab
      | RDeny \<Rightarrow> deny c now (cb_item_id p) tab
      | RApproveAndLearn \<Rightarrow> approve_and_learn c now (cb_item_id p) tab
      | REscalate \<Rightarrow> escalate c now (cb_item_id p) (Some (cb_reviewer p)) tab
      | _ \<Rightarrow> review c now (cb_item_id p) act (cb_notes p) tab)"

definition handle_callback ::
    "env \<Rightarrow> instant \<Rightarrow> callback_payload \<Rightarrow> dispatcher \<Rightarrow> (notify_error + review_action option) \<times> dispatcher" where
  "handle_callback ev now p dp =
     (case get_enabled (cb_channel_id p) (dp_registry dp) of
        Inl e \<Rightarrow> (Inl e, dp)
      | Inr c \<Rightarrow>
         (case validate_and_consume (cb_item_id p) (cb_nonce p) (cb_channel_id p) now (dp_nonces dp) of
            (False, ns) \<Rightarrow> (Inl (NotificationErr InvalidNonce), dp\<lparr>dp_nonces := ns\<rparr>)
          | (True, ns) \<Rightarrow>
             (let dp1 = dp\<lparr>dp_nonces := ns\<rparr>
              in case chn_callback c p of
                   Inl e \<Rightarrow> (Inl (NotificationErr e), dp1)
                 | Inr None \<Rightarrow> (Inr None, dp1)
                 | Inr (Some act) \<Rightarrow>
                    (case apply_action (ev_codecs ev) now p act (dp_queue dp1) of
                       Inl _ \<Rightarrow> (Inl (NotificationErr (ItemNotActionable (cb_item_id p))), dp1)
                     | Inr tab \<Rightarrow>
                        (let dp2 = dp1\<lparr>dp_queue := tab,
                               dp_tracker := record_interactive_response (cb_item_id p) (cb_channel_id p) act
                                 (cb_reviewer p) now (dp_tracker dp1)\<rparr>;
                             dp3 = (case get_by_id (ev_codecs ev) now (cb_item_id p) (dp_queue dp2) of
                                      Inr it \<Rightarrow> notify_resolution it dp2
                                    | Inl _ \<Rightarrow> dp2)
                         in (Inr (Some act), dp3))))))"

subsection \<open>Ticks of the background loops\<close>

definition scan_pending_item :: "env \<Rightarrow> instant \<Rightarrow> digest_item \<Rightarrow> uuid list \<times> dispatcher \<Rightarrow> uuid list \<times> dispatcher" where
  "scan_pending_item ev now i s =
     (case s of (announced, dp) \<Rightarrow>
        if di_informational_only i \<or> di_id i \<in> set announced then (announced, dp)
        else if sent_channels (di_id i) (dp_tracker dp) \<noteq> [] then (announced @ [di_id i], dp)
        else if now - di_created_at i < int (dp_remote_delay dp) then (announced, dp)
        else (announced @ [di_id i], dispatch_permission_request_now ev now i dp))"

definition resolve_announced :: "env \<Rightarrow> instant \<Rightarrow> uuid \<Rightarrow> dispatcher \<Rightarrow> dispatcher" where
  "resolve_announced ev now i dp =
     (case get_by_id (ev_codecs ev) now i (dp_queue dp) of
        Inr it \<Rightarrow> notify_resolution it dp
      | Inl _ \<Rightarrow> dp)"

definition scan_tick :: "env \<Rightarrow> instant \<Rightarrow> uuid list \<times> dispatcher \<Rightarrow> uuid list \<times> dispatcher" where
  "scan_tick ev now s =
     (case s of (announced, dp) \<Rightarrow>
        (case get_pending (ev_codecs ev) now 200 0 (dp_queue dp) of
           Inl _ \<Rightarrow> (announced, dp)
         | Inr pending \<Rightarrow>
            (let ids = map di_id pending;
                 dp1 = fold (resolve_announced ev now) (filter (\<lambda>i. i \<notin> set ids) announced) dp;
                 (announced2, dp2) = fold (scan_pending_item ev now) pending (filter (\<lambda>i. i \<in> set ids) announced, dp1)
             in (filter (\<lambda>i. i \<in> set ids) announced2, dp2))))"

definition nonce_cleanup_tick :: "instant \<Rightarrow> dispatcher \<Rightarrow> dispatcher" where
  "nonce_cleanup_tick now dp = dp\<lparr>dp_nonces := nonce_cleanup now (dp_nonces dp)\<rparr>"

definition qualifies_for_escalation :: "instant \<Rightarrow> dispatcher \<Rightarrow> digest_item \<Rightarrow> bool" where
  "qualifies_for_escalation now dp i \<longleftrightarrow>
     di_status i = Pending \<and> \<not> di_informational_only i \<and>
     severity_level (di_severity i) \<ge> severity_level (dp_escalate_min dp) \<and>
     now - di_created_at i \<ge> int (dp_escalate_timeout dp)"

fun escalate_items :: "codecs \<Rightarrow> instant \<Rightarrow> digest_item list \<Rightarrow> digest_table \<Rightarrow> digest_item list \<times> digest_table" where
  "escalate_items c now [] tab = ([], tab)"
| "escalate_items c now (i # is) tab =
     (case escalate c now (di_id i) (Some ''auto-escalation'') tab of
        Inr tab1 \<Rightarrow>
          (case escalate_items c now is tab1 of (out, tab2) \<Rightarrow>
             ((case get_by_id c now (di_id i) tab1 of Inr it \<Rightarrow> [it] | Inl _ \<Rightarrow> []) @ out, tab2))
      | Inl _ \<Rightarrow> escalate_items c now is tab)"

definition auto_escalate_one :: "digest_item \<Rightarrow> string \<Rightarrow> dispatcher \<Rightarrow> dispatcher" where
  "auto_escalate_one i ch dp =
     (case cr_get ch (dp_registry dp) of
        Some c \<Rightarrow> if chn_required_tier c > dp_tier dp then dp
                  else dp\<lparr>dp_wire := dp_wire dp @ [WEscalation ch (di_id i)]\<rparr>
      | None \<Rightarrow> dp)"

definition auto_escalation_tick :: "env \<Rightarrow> instant \<Rightarrow> dispatcher \<Rightarrow> dispatcher" where
  "auto_escalation_tick ev now dp =
     (case get_actionable (ev_codecs ev) now 100 0 (dp_queue dp) of
        Inl _ \<Rightarrow> dp
      | Inr items \<Rightarrow>
         (case escalate_items (ev_codecs ev) now (filter (qualifies_for_escalation now dp) items) (dp_queue dp) of
            (escalated, tab) \<Rightarrow>
              fold (\<lambda>i. fold (auto_escalate_one i) (resolve_escalation (dp_routing dp))) escalated
                (dp\<lparr>dp_queue := tab\<rparr>)))"

text \<open>
  The flush loop sends like \<open>dispatch_one\<close>, except that a rate-limited channel is skipped without
  a record.
\<close>

definition flush_one :: "env \<Rightarrow> instant \<Rightarrow> digest_item \<Rightarrow> string \<Rightarrow> dispatcher \<Rightarrow> dispatcher" where
  "flush_one ev now i ch dp =
     (case get_enabled ch (dp_registry dp) of
        Inl _ \<Rightarrow> dp
      | Inr c \<Rightarrow>
          if chn_required_tier c > dp_tier dp then dp
          else (case notify_check (dp_limiter dp) ch now (dp_windows dp) of
              (Inl _, ws) \<Rightarrow> dp\<lparr>dp_windows := ws\<rparr>
            | (Inr _, ws) \<Rightarrow> send_request ev now i ch c (dp\<lparr>dp_windows := ws\<rparr>)))"

definition flush_tick :: "env \<Rightarrow> instant \<Rightarrow> dispatcher \<Rightarrow> dispatcher" where
  "flush_tick ev now dp =
     (case flush_ready now (dp_batcher dp) of
        (items, b) \<Rightarrow>
          fold (\<lambda>i. fold (flush_one ev now i)
              (resolve (di_severity i) (map fb_filter_name (di_filter_breakdown i)) (dp_routing dp)))
            items (dp\<lparr>dp_batcher := b\<rparr>))"

definition flush_shutdown :: "dispatcher \<Rightarrow> dispatcher" where
  "flush_shutdown dp = dp\<lparr>dp_batcher := snd (flush_all (dp_batcher dp))\<rparr>"

subsection \<open>What the operations leave alone\<close>

definition same_gates :: "dispatcher \<Rightarrow> dispatcher \<Rightarrow> bool" where
  "same_gates dp dp' \<longleftrightarrow> dp_registry dp' = dp_registry dp \<and> dp_routing dp' = dp_routing dp \<and>
     dp_tier dp' = dp_tier dp \<and> dp_limiter dp' = dp_limiter dp \<and> dp_queue dp' = dp_queue dp"

lemma same_gates_refl [simp]: "same_gates dp dp"
  by (simp add: same_gates_def)

lemma same_gates_trans: "same_gates a b \<Longrightarrow> same_gates b c \<Longrightarrow> same_gates a c"
  by (simp add: same_gates_def)

lemma same_gates_fold: "(\<And>x dp. same_gates dp (f x dp)) \<Longrightarrow> same_gates dp (fold f xs dp)"
proof (induction xs arbitrary: dp)
  case (Cons x xs)
  then show ?case using same_gates_trans by fastforce
qed simp

lemma same_gates_send: "same_gates dp (send_request ev now i ch c dp)"
  by (simp add: send_request_def draw_nonce_def same_gates_def Let_def split: prod.splits sum.splits)

lemma same_gates_dispatch_one: "same_gates dp (dispatch_one ev now i ch dp)"
proof -
  have "same_gates dp (dp\<lparr>dp_windows := ws\<rparr>)" for ws by (simp add: same_gates_def)
  then have "same_gates dp (send_request ev now i ch c (dp\<lparr>dp_windows := ws\<rparr>))" for c ws
    using same_gates_send same_gates_trans by blast
  then show ?thesis by (auto simp: dispatch_one_def same_gates_def split: sum.splits prod.splits)
qed

lemma same_gates_resolution: "same_gates dp (notify_resolution i dp)"
proof -
  have "same_gates dp (dp\<lparr>dp_batcher := b\<rparr>)" for b by (simp add: same_gates_def)
  moreover have "same_gates dp' (fold (resolve_one (di_id i)) chs dp')" for dp' chs
    by (rule same_gates_fold) (simp add: resolve_one_def same_gates_def split: sum.splits)
  ultimately show ?thesis unfolding notify_resolution_def Let_def using same_gates_trans by blast
qed

subsection \<open>Who gets a request\<close>

definition authorised :: "dispatcher \<Rightarrow> uuid \<Rightarrow> wire \<Rightarrow> bool" where
  "authorised dp i w \<longleftrightarrow> (\<exists>ch nonce c. w = WRequest ch i nonce \<and> get_enabled ch (dp_registry dp) = Inr c \<and>
     chn_required_tier c \<le> dp_tier dp \<and> (nonce \<noteq> None \<longleftrightarrow> chn_interactive c))"

lemma send_request_wire:
  "\<exists>nonce. dp_wire (send_request ev now i ch c dp) = dp_wire dp @ [WRequest ch (di_id i) nonce] \<and>
     (nonce \<noteq> None \<longleftrightarrow> chn_interactive c)"
  by (auto simp: send_request_def draw_nonce_def Let_def split: prod.splits sum.splits)

fun wire_channel :: "wire \<Rightarrow> string" where
  "wire_channel (WRequest ch _ _) = ch"
| "wire_channel (WResolution ch _) = ch"
| "wire_channel (WEscalation ch _) = ch"

lemma dispatch_one_wire:
  "\<exists>ws. dp_wire (dispatch_one ev now i ch dp) = dp_wire dp @ ws \<and> (ws = [] \<or>
     (\<exists>w. ws = [w] \<and> wire_channel w = ch \<and> authorised dp (di_id i) w))"
proof (cases "get_enabled ch (dp_registry dp)")
  case (Inr c)
  show ?thesis
  proof (cases "chn_required_tier c > dp_tier dp")
    case False
    obtain r ws where r: "notify_check (dp_limiter dp) ch now (dp_windows dp) = (r, ws)" by fastforce
    obtain nonce where
      "dp_wire (send_request ev now i ch c (dp\<lparr>dp_windows := ws\<rparr>)) = dp_wire dp @ [WRequest ch (di_id i) nonce]"
      "nonce \<noteq> None \<longleftrightarrow> chn_interactive c"
      using send_request_wire [of ev now i ch c "dp\<lparr>dp_windows := ws\<rparr>"] by auto
    with Inr False r show ?thesis
      by (cases r) (auto simp: dispatch_one_def authorised_def)
  qed (simp add: dispatch_one_def Inr)
qed (simp add: dispatch_one_def)

lemma authorised_gates: "same_gates dp dp' \<Longrightarrow> authorised dp' i w \<longleftrightarrow> authorised dp i w"
  by (simp add: authorised_def same_gates_def)

lemma dispatch_list_wire:
  "distinct chs \<Longrightarrow> \<exists>ws. dp_wire (fold (dispatch_one ev now i) chs dp) = dp_wire dp @ ws \<and>
     (\<forall>w \<in> set ws. authorised dp (di_id i) w) \<and> distinct (map wire_channel ws) \<and> wire_channel ` set ws \<subseteq> set chs"
proof (induction chs arbitrary: dp)
  case (Cons ch chs)
  let ?dp = "dispatch_one ev now i ch dp"
  obtain w1 where w1: "dp_wire ?dp = dp_wire dp @ w1"
      "w1 = [] \<or> (\<exists>w. w1 = [w] \<and> wire_channel w = ch \<and> authorised dp (di_id i) w)"
    using dispatch_one_wire [of ev now i ch dp] by blast
  obtain w2 where w2: "dp_wire (fold (dispatch_one ev now i) chs ?dp) = dp_wire ?dp @ w2"
      "\<forall>w \<in> set w2. authorised dp (di_id i) w" "distinct (map wire_channel w2)" "wire_channel ` set w2 \<subseteq> set chs"
    using Cons.IH [of ?dp] Cons.prems authorised_gates [OF same_gates_dispatch_one] by auto
  show ?case
    by (intro exI [of _ "w1 @ w2"]) (use w1 w2 Cons.prems in auto)
qed simp

text \<open>
  A permission request goes only to channels it may go to: every message of a dispatch is a
  request for the item, to a routed channel that is registered, enabled and within the plan tier,
  at most one per channel, and carries a callback nonce exactly when the channel is interactive.
\<close>

theorem dispatch_only_to_authorised_channels:
  "\<exists>ws. dp_wire (dispatch_permission_request_now ev now i dp) = dp_wire dp @ ws \<and>
     list_all (\<lambda>w. \<exists>ch nonce c. w = WRequest ch (di_id i) nonce \<and> get_enabled ch (dp_registry dp) = Inr c \<and>
        chn_required_tier c \<le> dp_tier dp \<and> (nonce \<noteq> None \<longleftrightarrow> chn_interactive c)) ws \<and>
     distinct (map wire_channel ws) \<and>
     wire_channel ` set ws \<subseteq> set (resolve (di_severity i) (map fb_filter_name (di_filter_breakdown i)) (dp_routing dp))"
  unfolding dispatch_permission_request_now_def
  using dispatch_list_wire [OF resolve_distinct [of "di_severity i" "map fb_filter_name (di_filter_breakdown i)" "dp_routing dp"],
      of ev now i dp]
  by (auto simp: list_all_iff authorised_def)

subsection \<open>Callbacks\<close>

lemma handle_callback_queue:
  assumes "handle_callback ev now p dp = (r, dp')" and "dp_queue dp' \<noteq> dp_queue dp"
  obtains c e act where "get_enabled (cb_channel_id p) (dp_registry dp) = Inr c"
    "ns_entries (dp_nonces dp) (cb_nonce p) = Some e" "\<not> ne_consumed e"
    "ne_item_id e = cb_item_id p" "ne_channel_id e = cb_channel_id p" "nat (now - ne_created_at e) \<le> ne_ttl e"
    "chn_callback c p = Inr (Some act)" "r = Inr (Some act)"
    "apply_action (ev_codecs ev) now p act (dp_queue dp) = Inr (dp_queue dp')"
proof -
  obtain c where c: "get_enabled (cb_channel_id p) (dp_registry dp) = Inr c"
    using assms by (auto simp: handle_callback_def split: sum.splits)
  obtain ok ns where v: "validate_and_consume (cb_item_id p) (cb_nonce p) (cb_channel_id p) now (dp_nonces dp) = (ok, ns)"
    by fastforce
  have ok: ok using assms c v by (cases ok) (auto simp: handle_callback_def)
  obtain act where act: "chn_callback c p = Inr (Some act)"
    using assms c v ok by (auto simp: handle_callback_def Let_def split: sum.splits option.splits)
  obtain tab where tab: "apply_action (ev_codecs ev) now p act (dp_queue dp) = Inr tab"
    using assms c v ok act by (auto simp: handle_callback_def Let_def split: sum.splits)
  have "dp_queue dp' = tab \<and> r = Inr (Some act)"
    using assms(1) c v ok act tab same_gates_resolution
    by (auto simp: handle_callback_def Let_def same_gates_def split: sum.splits)
  moreover obtain e where "ns_entries (dp_nonces dp) (cb_nonce p) = Some e" "\<not> ne_consumed e"
    "ne_item_id e = cb_item_id p" "ne_channel_id e = cb_channel_id p" "nat (now - ne_created_at e) \<le> ne_ttl e"
    using v ok by (auto simp: validate_and_consume_def split: option.splits if_splits)
  ultimately show thesis using that c act tab by blast
qed

text \<open>
  No review without proof: a callback changes the digest queue only if its channel is
  registered and enabled, its nonce was issued for that very item and channel, is unspent and not
  expired, and the channel itself vouched for the action that is then applied.
\<close>

theorem callback_needs_valid_nonce:
  assumes "handle_callback ev now p dp = (r, dp')" and "dp_queue dp' \<noteq> dp_queue dp"
  shows "\<exists>c e act. get_enabled (cb_channel_id p) (dp_registry dp) = Inr c \<and>
    ns_entries (dp_nonces dp) (cb_nonce p) = Some e \<and> \<not> ne_consumed e \<and>
    ne_item_id e = cb_item_id p \<and> ne_channel_id e = cb_channel_id p \<and>
    nat (now - ne_created_at e) \<le> ne_ttl e \<and>
    chn_callback c p = Inr (Some act) \<and> r = Inr (Some act) \<and>
    apply_action (ev_codecs ev) now p act (dp_queue dp) = Inr (dp_queue dp')"
  using assms by (rule handle_callback_queue) blast

subsection \<open>A spent nonce stays spent\<close>

definition spent :: "env \<Rightarrow> string \<Rightarrow> dispatcher \<Rightarrow> bool" where
  "spent ev n dp \<longleftrightarrow> (\<forall>b. \<not> unspent (dp_nonces dp) n b) \<and> (\<forall>k \<ge> dp_drawn dp. take 16 (ev_random ev k) \<noteq> n)"

lemma spent_frame [simp]:
  "spent ev n (dp\<lparr>dp_wire := w\<rparr>) = spent ev n dp"
  "spent ev n (dp\<lparr>dp_windows := ws\<rparr>) = spent ev n dp"
  "spent ev n (dp\<lparr>dp_tracker := t\<rparr>) = spent ev n dp"
  "spent ev n (dp\<lparr>dp_batcher := b\<rparr>) = spent ev n dp"
  "spent ev n (dp\<lparr>dp_queue := q\<rparr>) = spent ev n dp"
  by (simp_all add: spent_def)

lemma spent_fold: "(\<And>x dp. spent ev n dp \<Longrightarrow> spent ev n (f x dp)) \<Longrightarrow> spent ev n dp \<Longrightarrow> spent ev n (fold f xs dp)"
  by (induction xs arbitrary: dp) auto

lemma spent_draw: "spent ev n dp \<Longrightarrow> spent ev n (snd (draw_nonce ev now i ch dp))"
  by (auto simp: draw_nonce_def generate_def generate_with_ttl_def spent_def unspent_def Let_def split: if_splits)

lemma spent_send [inv_intros]: "spent ev n dp \<Longrightarrow> spent ev n (send_request ev now i ch c dp)"
  using spent_draw [of ev n dp now "di_id i" ch]
  by (auto simp: send_request_def Let_def split: prod.splits sum.splits)

lemma spent_dispatch_one [inv_intros]: "spent ev n dp \<Longrightarrow> spent ev n (dispatch_one ev now i ch dp)"
  by (auto simp: dispatch_one_def intro: spent_send split: sum.splits prod.splits)

lemma spent_flush_one [inv_intros]: "spent ev n dp \<Longrightarrow> spent ev n (flush_one ev now i ch dp)"
  by (auto simp: flush_one_def intro: spent_send split: sum.splits prod.splits)

lemma spent_dispatch [inv_intros]: "spent ev n dp \<Longrightarrow> spent ev n (dispatch_permission_request_now ev now i dp)"
  unfolding dispatch_permission_request_now_def by (rule spent_fold) (auto intro: spent_dispatch_one)

lemma spent_resolution [inv_intros]: "spent ev n dp \<Longrightarrow> spent ev n (notify_resolution i dp)"
  unfolding notify_resolution_def Let_def
  by (rule spent_fold) (auto simp: resolve_one_def split: sum.splits)

lemma spent_request [inv_intros]: "spent ev n dp \<Longrightarrow> spent ev n (notify_permission_request ev now hour i dp)"
  by (auto simp: notify_permission_request_def intro: spent_dispatch spent_fold split: prod.splits)

lemma spent_escalation [inv_intros]: "spent ev n dp \<Longrightarrow> spent ev n (notify_escalation i dp)"
  unfolding notify_escalation_def by (rule spent_fold) (auto simp: escalate_one_def split: sum.splits)

lemma spent_scan_item:
  "spent ev n (snd s) \<Longrightarrow> spent ev n (snd (scan_pending_item ev now i s))"
  by (auto simp: scan_pending_item_def intro: spent_dispatch split: prod.splits)

lemma spent_scan_items:
  "spent ev n (snd s) \<Longrightarrow> spent ev n (snd (fold (scan_pending_item ev now) is s))"
proof (induction "is" arbitrary: s)
  case (Cons i "is")
  from Cons.IH [OF spent_scan_item [OF Cons.prems]] show ?case by simp
qed simp

lemma spent_scan [inv_intros]: "spent ev n (snd s) \<Longrightarrow> spent ev n (snd (scan_tick ev now s))"
proof (cases s)
  case (Pair announced dp)
  assume "spent ev n (snd s)"
  then have res: "spent ev n (fold (resolve_announced ev now) xs dp)" for xs
    by (intro spent_fold) (auto simp: Pair resolve_announced_def intro: spent_resolution split: sum.splits)
  have "spent ev n (snd (fold (scan_pending_item ev now) pend (ann, fold (resolve_announced ev now) xs dp)))" for pend ann xs
    by (rule spent_scan_items) (simp add: res)
  then show ?thesis
    using \<open>spent ev n (snd s)\<close> by (simp add: Pair scan_tick_def Let_def case_prod_beta split: sum.splits)
qed

lemma spent_cleanup [inv_intros]: "spent ev n dp \<Longrightarrow> spent ev n (nonce_cleanup_tick now dp)"
  by (auto simp: nonce_cleanup_tick_def nonce_cleanup_def spent_def unspent_def split: option.splits if_splits)

lemma spent_auto_escalation [inv_intros]: "spent ev n dp \<Longrightarrow> spent ev n (auto_escalation_tick ev now dp)"
  by (auto simp: auto_escalation_tick_def auto_escalate_one_def intro!: spent_fold split: sum.splits prod.splits option.splits)

lemma spent_flush [inv_intros]: "spent ev n dp \<Longrightarrow> spent ev n (flush_tick ev now dp)"
  by (auto simp: flush_tick_def intro!: spent_fold spent_flush_one split: prod.splits)

lemma spent_validate:
  "spent ev n dp \<Longrightarrow> spent ev n (dp\<lparr>dp_nonces := snd (validate_and_consume i m ch now (dp_nonces dp))\<rparr>)"
  using nonces.redeem_keeps [of m "(i, ch)" now "dp_nonces dp" n]
  by (auto simp: spent_def store_redeem_def)

lemma spent_callback [inv_intros]: "spent ev n dp \<Longrightarrow> spent ev n (snd (handle_callback ev now p dp))"
proof -
  assume sp: "spent ev n dp"
  obtain ok ns where v: "validate_and_consume (cb_item_id p) (cb_nonce p) (cb_channel_id p) now (dp_nonces dp) = (ok, ns)"
    by fastforce
  have "spent ev n (dp\<lparr>dp_nonces := ns\<rparr>)"
    using spent_validate [OF sp, of "cb_item_id p" "cb_nonce p" "cb_channel_id p" now] v by simp
  with sp v show ?thesis
    by (cases ok) (auto simp: handle_callback_def Let_def intro!: spent_resolution split: sum.splits option.splits)
qed

datatype dispatcher_op =
    DRequest nat digest_item
  | DCallback callback_payload
  | DResolution digest_item
  | DEscalation digest_item
  | DScan
  | DCleanup
  | DAutoEscalate
  | DFlush
  | DShutdown
  | DQueue digest_op

fun dispatcher_step ::
    "env \<Rightarrow> instant \<Rightarrow> dispatcher_op \<Rightarrow> uuid list \<times> dispatcher \<Rightarrow> uuid list \<times> dispatcher" where
  "dispatcher_step ev now (DRequest hour i) (a, dp) = (a, notify_permission_request ev now hour i dp)"
| "dispatcher_step ev now (DCallback p) (a, dp) = (a, snd (handle_callback ev now p dp))"
| "dispatcher_step ev now (DResolution i) (a, dp) = (a, notify_resolution i dp)"
| "dispatcher_step ev now (DEscalation i) (a, dp) = (a, notify_escalation i dp)"
| "dispatcher_step ev now DScan (a, dp) = scan_tick ev now (a, dp)"
| "dispatcher_step ev now DCleanup (a, dp) = (a, nonce_cleanup_tick now dp)"
| "dispatcher_step ev now DAutoEscalate (a, dp) = (a, auto_escalation_tick ev now dp)"
| "dispatcher_step ev now DFlush (a, dp) = (a, flush_tick ev now dp)"
| "dispatcher_step ev now DShutdown (a, dp) = (a, flush_shutdown dp)"
| "dispatcher_step ev now (DQueue op) (a, dp) = (a, dp\<lparr>dp_queue := run_op (ev_codecs ev) now op (dp_queue dp)\<rparr>)"

definition run_dispatcher ::
    "env \<Rightarrow> (instant \<times> dispatcher_op) list \<Rightarrow> uuid list \<times> dispatcher \<Rightarrow> uuid list \<times> dispatcher" where
  "run_dispatcher ev ops s = fold (\<lambda>(now, op). dispatcher_step ev now op) ops s"

lemma spent_step: "spent ev n (snd s) \<Longrightarrow> spent ev n (snd (dispatcher_step ev now op s))"
  by (cases s; cases op) (auto simp: flush_shutdown_def intro: inv_intros spent_scan [of ev n "(_, _)", simplified])

lemma spent_run: "spent ev n (snd s) \<Longrightarrow> spent ev n (snd (run_dispatcher ev ops s))"
proof (induction ops arbitrary: s)
  case (Cons x ops)
  obtain now op where x: "x = (now, op)" by fastforce
  from Cons.IH [OF spent_step [OF Cons.prems, of now op]] show ?case by (simp add: x run_dispatcher_def)
qed (simp add: run_dispatcher_def)

lemma callback_spends:
  assumes "handle_callback ev now p dp = (r, dp')" and "dp_queue dp' \<noteq> dp_queue dp"
    and "\<forall>k \<ge> dp_drawn dp. take 16 (ev_random ev k) \<noteq> cb_nonce p"
  shows "spent ev (cb_nonce p) dp'"
proof -
  obtain c e act where h: "get_enabled (cb_channel_id p) (dp_registry dp) = Inr c"
    "ns_entries (dp_nonces dp) (cb_nonce p) = Some e" "\<not> ne_consumed e"
    "ne_item_id e = cb_item_id p" "ne_channel_id e = cb_channel_id p" "nat (now - ne_created_at e) \<le> ne_ttl e"
    "chn_callback c p = Inr (Some act)" "r = Inr (Some act)"
    "apply_action (ev_codecs ev) now p act (dp_queue dp) = Inr (dp_queue dp')"
    using handle_callback_queue [OF assms(1,2)] by metis
  let ?ns = "(dp_nonces dp)\<lparr>ns_entries := (ns_entries (dp_nonces dp))(cb_nonce p \<mapsto> e\<lparr>ne_consumed := True\<rparr>)\<rparr>"
  have "validate_and_consume (cb_item_id p) (cb_nonce p) (cb_channel_id p) now (dp_nonces dp) = (True, ?ns)"
    using h(2-6) by (simp add: validate_and_consume_def)
  moreover have "spent ev (cb_nonce p) (dp\<lparr>dp_nonces := ?ns\<rparr>)"
    using assms(3) by (auto simp: spent_def unspent_def)
  ultimately have "spent ev (cb_nonce p) (snd (handle_callback ev now p dp))"
    using h(1,7,9) by (auto simp: handle_callback_def Let_def intro!: spent_resolution split: sum.splits)
  then show ?thesis using assms(1) by simp
qed

lemma spent_no_review:
  assumes "spent ev (cb_nonce p) dp"
  shows "dp_queue (snd (handle_callback ev now p dp)) = dp_queue dp"
proof (rule ccontr)
  assume ne: "\<not> ?thesis"
  obtain r dp' where h: "handle_callback ev now p dp = (r, dp')" by fastforce
  with ne have "dp_queue dp' \<noteq> dp_queue dp" by simp
  from handle_callback_queue [OF h this] assms show False
    by (auto simp: spent_def unspent_def)
qed

text \<open>
  C34. A callback cannot be replayed: after a callback has reviewed an item, no callback that
  carries the same nonce changes the queue again, for any item, channel or action, whatever
  requests, reviews, scans, cleanups and flushes happen in between, as long as the random source
  does not draw that nonce again.
\<close>

theorem callback_not_replayable:
  assumes "handle_callback ev now p dp = (r, dp1)" and "dp_queue dp1 \<noteq> dp_queue dp"
    and "\<forall>k \<ge> dp_drawn dp. take 16 (ev_random ev k) \<noteq> cb_nonce p"
    and "cb_nonce q = cb_nonce p"
  shows "dp_queue (snd (handle_callback ev now' q (snd (run_dispatcher ev ops (announced, dp1))))) =
         dp_queue (snd (run_dispatcher ev ops (announced, dp1)))"
proof (rule spent_no_review)
  have "spent ev (cb_nonce p) (snd (announced, dp1))" using callback_spends [OF assms(1-3)] by simp
  then show "spent ev (cb_nonce q) (snd (run_dispatcher ev ops (announced, dp1)))"
    unfolding assms(4) by (rule spent_run)
qed

subsection \<open>A concrete dispatcher\<close>

definition sample_env :: env where
  "sample_env = \<lparr> ev_codecs = sample_codecs, ev_random = (\<lambda>n. replicate n CHR ''x''), ev_show_duration = (\<lambda>_. []) \<rparr>"

definition sample_channel :: "bool \<Rightarrow> channel" where
  "sample_channel iact =
     \<lparr> chn_id = ''websocket'', chn_display_name = ''Dashboard'', chn_required_tier = Community, chn_interactive = iact,
       chn_notify = (\<lambda>_ _. Inr \<lparr> nr_external_id = None, nr_delivered = True \<rparr>),
       chn_resolution = (\<lambda>_. Inr ()), chn_escalation = (\<lambda>_. Inr ()), chn_callback = (\<lambda>p. Inr (Some (cb_action p))),
       chn_health = Inr \<lparr> chh_connected = True, chh_latency_ms = None, chh_error = None \<rparr> \<rparr>"

definition sample_dispatcher :: "bool \<Rightarrow> bool \<Rightarrow> digest_table \<Rightarrow> dispatcher" where
  "sample_dispatcher iact enabled q =
     dispatcher_new (cr_register (sample_channel iact) enabled channel_registry_new) routing_default
       (snd (generate ''tok'' 7 ''websocket'' 0 (nonce_store_new 9))) Community q
       (set_quiet_hours 0 8 rate_limiter_default) batcher_default (secs 60) ScoreHigh"

lemma sample_dispatcher_simps [simp]:
  "dp_queue (sample_dispatcher iact en q) = q"
  "dp_wire (sample_dispatcher iact en q) = []"
  "dp_tier (sample_dispatcher iact en q) = Community"
  "dp_routing (sample_dispatcher iact en q) = routing_default"
  "dp_drawn (sample_dispatcher iact en q) = 0"
  "dp_windows (sample_dispatcher iact en q) = Map.empty"
  "dp_limiter (sample_dispatcher iact en q) = set_quiet_hours 0 8 rate_limiter_default"
  "dp_tracker (sample_dispatcher iact en q) = tracker_default"
  "dp_remote_delay (sample_dispatcher iact en q) = secs 15"
  "dp_escalate_timeout (sample_dispatcher iact en q) = secs 60"
  "dp_escalate_min (sample_dispatcher iact en q) = ScoreHigh"
  "get_enabled ''websocket'' (dp_registry (sample_dispatcher iact True q)) = Inr (sample_channel iact)"
  "get_enabled ''websocket'' (dp_registry (sample_dispatcher iact False q)) = Inl (NotificationErr (ChannelDisabled ''websocket''))"
  "get_enabled ''desktop'' (dp_registry (sample_dispatcher iact en q)) = Inl (ChannelNotFound ''desktop'')"
  "cr_get ''websocket'' (dp_registry (sample_dispatcher iact en q)) = Some (sample_channel iact)"
  "cr_get ''desktop'' (dp_registry (sample_dispatcher iact en q)) = None"
  by (simp_all add: sample_dispatcher_def dispatcher_new_def get_enabled_def cr_get_def cr_register_def is_enabled_def
      channel_registry_new_def sample_channel_def)

definition sample_read :: "digest_status \<Rightarrow> digest_item" where
  "sample_read st = sample_item\<lparr>di_severity := ScoreHigh, di_status := st\<rparr>"

lemma sample_read_simps [simp]:
  "di_id (sample_read st) = 7" "di_severity (sample_read st) = ScoreHigh" "di_status (sample_read st) = st"
  "di_created_at (sample_read st) = 5" "di_informational_only (sample_read st) = False"
  "di_filter_breakdown (sample_read st) = []"
  by (simp_all add: sample_read_def sample_item_def)

lemma row_of_sample: "row_id (sample_row\<lparr>row_status := st\<rparr>) = render_uuid sample_codecs 7"
  by (simp add: item_to_row_def sample_item_def)

lemma row_to_item_sample:
  "row_to_item sample_codecs now (sample_row\<lparr>row_status := display_status st\<rparr>) = Inr (sample_read st)"
  by (simp add: row_to_item_def item_to_row_def sample_item_def sample_codecs_def sample_read_def
      severity_from_score_def sample_render_time_def)

lemma get_by_id_sample:
  "get_by_id sample_codecs now 7 [sample_row\<lparr>row_status := display_status st\<rparr>] = Inr (sample_read st)"
  using row_of_sample row_to_item_sample by (simp add: get_by_id_def)

lemma get_page_sample:
  "get_pending sample_codecs now (Suc n) 0 [sample_row\<lparr>row_status := display_status st\<rparr>] =
     Inr (if st = Pending then [sample_read st] else [])"
  "get_actionable sample_codecs now (Suc n) 0 [sample_row\<lparr>row_status := display_status st\<rparr>] =
     Inr (if st = Pending \<or> st = Escalated then [sample_read st] else [])"
  using row_to_item_sample [of now Pending] row_to_item_sample [of now Escalated]
  by (auto simp: get_pending_def get_actionable_def select_by_status_def)

lemma sample_row_pending: "sample_row\<lparr>row_status := ''pending''\<rparr> = sample_row"
  by (simp add: item_to_row_def sample_item_def)

lemma routes_sample:
  "resolve ScoreHigh [] routing_default = [''desktop'', ''websocket'']"
  "resolve_escalation routing_default = [''websocket'', ''desktop'']"
  by code_simp+

text \<open>
  Quiet hours hold only on one path: the same item, in the same state of the dispatcher, is
  suppressed when it is announced through \<open>notify_permission_request\<close> during quiet hours, and is
  sent to the channel by the daemon's scan of the queue, which never looks at the hour.
\<close>

theorem scan_ignores_quiet_hours:
  "is_quiet_hours (dp_limiter (sample_dispatcher False True [sample_row])) 3 \<and>
   dp_wire (notify_permission_request sample_env 20000000000 3 (sample_read Pending)
     (sample_dispatcher False True [sample_row])) = [] \<and>
   dp_wire (snd (scan_tick sample_env 20000000000 ([], sample_dispatcher False True [sample_row]))) =
     [WRequest ''websocket'' 7 None]"
proof (intro conjI)
  let ?dp = "sample_dispatcher False True [sample_row]"
  show quiet: "is_quiet_hours (dp_limiter ?dp) 3" by (simp add: is_quiet_hours_def set_quiet_hours_def)
  then show "dp_wire (notify_permission_request sample_env 20000000000 3 (sample_read Pending) ?dp) = []"
    by (simp add: notify_permission_request_def)
  have page: "get_pending sample_codecs 20000000000 200 0 [sample_row] = Inr [sample_read Pending]"
    using get_page_sample(1) [of 20000000000 199 Pending] by (simp add: sample_row_pending)
  have "dp_wire (dispatch_permission_request_now sample_env 20000000000 (sample_read Pending) ?dp) = [WRequest ''websocket'' 7 None]"
    by (simp add: dispatch_permission_request_now_def routes_sample dispatch_one_def send_request_def
        sample_channel_def notify_check_def channel_window_def set_quiet_hours_def rate_limiter_default_def
        rate_limiter_new_def)
  then show "dp_wire (snd (scan_tick sample_env 20000000000 ([], ?dp))) = [WRequest ''websocket'' 7 None]"
    by (simp add: scan_tick_def sample_env_def page scan_pending_item_def sent_channels_def get_deliveries_def
        tracker_default_def tracker_fresh_def secs_def)
qed

text \<open>
  Escalation is reported as resolution: an announced item that a reviewer or the timeout
  escalates is no longer pending, so the next scan tells its channels that it has been resolved,
  although it still waits for a decision.
\<close>

theorem escalated_item_announced_as_resolved:
  "dp_wire (snd (scan_tick sample_env 9 ([7],
      (sample_dispatcher True True [sample_row\<lparr>row_status := ''escalated''\<rparr>])
        \<lparr>dp_tracker := record_sent 7 ''websocket'' None 1 tracker_default\<rparr>))) = [WResolution ''websocket'' 7] \<and>
   (case get_by_id sample_codecs 9 7 [sample_row\<lparr>row_status := ''escalated''\<rparr>] of Inr it \<Rightarrow> is_actionable it | Inl _ \<Rightarrow> False)"
proof
  let ?q = "[sample_row\<lparr>row_status := ''escalated''\<rparr>]"
  let ?t = "record_sent 7 ''websocket'' None 1 tracker_default"
  let ?dp = "(sample_dispatcher True True ?q)\<lparr>dp_tracker := ?t\<rparr>"
  have it: "get_by_id sample_codecs 9 7 ?q = Inr (sample_read Escalated)"
    using get_by_id_sample [of 9 Escalated] by simp
  then show "case get_by_id sample_codecs 9 7 ?q of Inr it \<Rightarrow> is_actionable it | Inl _ \<Rightarrow> False"
    by (simp add: is_actionable_def)
  have page: "get_pending sample_codecs 9 200 0 ?q = Inr []"
    using get_page_sample(1) [of 9 199 Escalated] by simp
  have none: "sent_channels 7 tracker_default = []"
    by (simp add: sent_channels_def get_deliveries_def tracker_default_def tracker_fresh_def)
  have "dp_wire (notify_resolution (sample_read Escalated) ?dp) = [WResolution ''websocket'' 7]"
    by (simp add: notify_resolution_def none resolve_one_def Let_def)
  then show "dp_wire (snd (scan_tick sample_env 9 ([7], ?dp))) = [WResolution ''websocket'' 7]"
    by (simp add: scan_tick_def sample_env_def page resolve_announced_def it)
qed

definition sample_payload :: callback_payload where
  "sample_payload = \<lparr> cb_item_id = 7, cb_action = RDeny, cb_reviewer = ''alice'', cb_notes = None,
     cb_nonce = ''tok'', cb_channel_id = ''websocket'', cb_user_id = None \<rparr>"

lemma sample_deny:
  "\<exists>tab. deny sample_codecs 9 7 [sample_row] = Inr tab \<and> tab \<noteq> [sample_row]"
proof -
  have "render_uuid sample_codecs 7 = row_id sample_row" "row_status sample_row = ''pending''"
    by (simp_all add: item_to_row_def sample_item_def)
  then show ?thesis
    by (auto simp: deny_def sample_validate update_status_def update_where_def dest!: arg_cong [of _ _ row_status])
qed

lemma sample_callback:
  obtains dp' where
    "handle_callback sample_env 9 sample_payload (sample_dispatcher True True [sample_row]) = (Inr (Some RDeny), dp')"
    "dp_queue dp' \<noteq> [sample_row]"
proof -
  let ?dp = "sample_dispatcher True True [sample_row]"
  obtain tab where tab: "deny sample_codecs 9 7 [sample_row] = Inr tab" "tab \<noteq> [sample_row]"
    using sample_deny by blast
  have "fst (validate_and_consume 7 ''tok'' ''websocket'' 9 (dp_nonces ?dp))"
    by (simp add: sample_dispatcher_def dispatcher_new_def generate_def generate_with_ttl_def nonce_store_new_def
        validate_and_consume_def Let_def)
  then obtain ns where v: "validate_and_consume 7 ''tok'' ''websocket'' 9 (dp_nonces ?dp) = (True, ns)"
    by (cases "validate_and_consume 7 ''tok'' ''websocket'' 9 (dp_nonces ?dp)") simp
  have "\<exists>dp'. handle_callback sample_env 9 sample_payload ?dp = (Inr (Some RDeny), dp') \<and> dp_queue dp' = tab"
    using v tab(1) same_gates_resolution
    by (simp add: handle_callback_def sample_payload_def sample_channel_def sample_env_def apply_action_def Let_def
        same_gates_def split: sum.splits)
  with tab(2) that show thesis by blast
qed

theorem callback_needs_valid_nonce_witness:
  "\<exists>e. ns_entries (dp_nonces (sample_dispatcher True True [sample_row])) ''tok'' = Some e \<and>
     ne_item_id e = 7 \<and> ne_channel_id e = ''websocket''"
proof (rule sample_callback)
  fix dp'
  assume h: "handle_callback sample_env 9 sample_payload (sample_dispatcher True True [sample_row]) = (Inr (Some RDeny), dp')"
    and "dp_queue dp' \<noteq> [sample_row]"
  then have "dp_queue dp' \<noteq> dp_queue (sample_dispatcher True True [sample_row])" by simp
  from callback_needs_valid_nonce [OF h this] show ?thesis
    by (auto simp: sample_payload_def)
qed

theorem callback_not_replayable_witness:
  "\<exists>dp1. fst (handle_callback sample_env 9 sample_payload (sample_dispatcher True True [sample_row])) = Inr (Some RDeny) \<and>
     snd (handle_callback sample_env 9 sample_payload (sample_dispatcher True True [sample_row])) = dp1 \<and>
     dp_queue dp1 \<noteq> [sample_row] \<and>
     dp_queue (snd (handle_callback sample_env 11 (sample_payload\<lparr>cb_action := RApprove\<rparr>)
       (snd (run_dispatcher sample_env [(10, DCleanup), (10, DScan)] ([], dp1))))) =
     dp_queue (snd (run_dispatcher sample_env [(10, DCleanup), (10, DScan)] ([], dp1)))"
proof (rule sample_callback)
  let ?dp = "sample_dispatcher True True [sample_row]"
  fix dp'
  assume h: "handle_callback sample_env 9 sample_payload ?dp = (Inr (Some RDeny), dp')" and q: "dp_queue dp' \<noteq> [sample_row]"
  from q have ch: "dp_queue dp' \<noteq> dp_queue ?dp" by simp
  have fresh: "take 16 (ev_random sample_env k) \<noteq> ''tok''" for k
    by (cases "min 16 k") (auto simp: sample_env_def)
  then have "\<forall>k \<ge> dp_drawn ?dp. take 16 (ev_random sample_env k) \<noteq> cb_nonce sample_payload"
    by (simp add: sample_payload_def)
  from callback_not_replayable [OF h ch this, of "sample_payload\<lparr>cb_action := RApprove\<rparr>"] h q
  show ?thesis by (simp add: sample_payload_def)
qed

lemma sample_escalates:
  "\<exists>it tab. escalate_items sample_codecs now [sample_read Pending] [sample_row] = ([it], tab) \<and> di_id it = 7"
proof -
  let ?r = "sample_row\<lparr>row_status := ''escalated'', row_escalated_at := Some (render_time sample_codecs now),
     row_escalated_by := Some ''auto-escalation''\<rparr>"
  have "get_by_id sample_codecs now 7 [sample_row] = Inr (sample_read Pending)"
    using get_by_id_sample [of now Pending] by (simp add: sample_row_pending)
  then have "escalate sample_codecs now 7 (Some ''auto-escalation'') [sample_row] = Inr [?r]"
    by (simp add: escalate_def validate_escalatable_def update_escalation_def update_where_def row_of_sample
        item_to_row_def sample_item_def)
  moreover obtain it where "row_to_item sample_codecs now ?r = Inr it" "di_id it = 7"
    by (simp add: row_to_item_def item_to_row_def sample_item_def sample_codecs_def sample_render_time_def)
  then have "get_by_id sample_codecs now 7 [?r] = Inr it" "di_id it = 7"
    using row_of_sample by (simp_all add: get_by_id_def)
  ultimately show ?thesis by simp
qed

text \<open>
  A disabled channel still hears of timed-out items: the timeout loop looks a channel up
  without asking whether it is enabled, so it sends an escalation where the manual
  \<open>notify_escalation\<close> of the same item sends nothing.
\<close>

theorem auto_escalation_reaches_disabled_channel:
  "dp_wire (notify_escalation (sample_read Escalated) (sample_dispatcher True False [sample_row])) = [] \<and>
   dp_wire (auto_escalation_tick sample_env 60000000005 (sample_dispatcher True False [sample_row])) =
     [WEscalation ''websocket'' 7]"
proof
  let ?dp = "sample_dispatcher True False [sample_row]"
  show "dp_wire (notify_escalation (sample_read Escalated) ?dp) = []"
    by (simp add: notify_escalation_def routes_sample escalate_one_def)
  have page: "get_actionable sample_codecs 60000000005 100 0 [sample_row] = Inr [sample_read Pending]"
    using get_page_sample(2) [of 60000000005 99 Pending] by (simp add: sample_row_pending)
  have q: "qualifies_for_escalation 60000000005 ?dp (sample_read Pending)"
    by (simp add: qualifies_for_escalation_def secs_def)
  obtain it tab where esc: "escalate_items sample_codecs 60000000005 [sample_read Pending] [sample_row] = ([it], tab)" "di_id it = 7"
    using sample_escalates by blast
  show "dp_wire (auto_escalation_tick sample_env 60000000005 ?dp) = [WEscalation ''websocket'' 7]"
    by (simp add: auto_escalation_tick_def sample_env_def page q esc routes_sample auto_escalate_one_def
        sample_channel_def del: escalate_items.simps)
qed

end
