(* ===== verification/Framing.thy ===== *)
theory Framing
  imports Prelude
begin

section \<open>Messages in a byte stream\<close>

text \<open>
  A decoder that is fed a stream in pieces parses complete messages off the front of its buffer
  and keeps the rest. \<open>framed parse buf ms rest\<close> says that \<open>buf\<close> starts with the messages \<open>ms\<close> and
  goes on with \<open>rest\<close>. The locale states what a parser must promise for this to be independent of
  the pieces: a message that was read stays the same when more bytes arrive, and it takes up some
  bytes of the buffer.
\<close>

inductive framed :: "('b list \<Rightarrow> 'e + ('m \<times> nat) option) \<Rightarrow> 'b list \<Rightarrow> 'm list \<Rightarrow> 'b list \<Rightarrow> bool"
  for parse where
  stop: "framed parse buf [] buf"
| step: "parse buf = Inr (Some (m, len)) \<Longrightarrow> framed parse (drop len buf) ms rest \<Longrightarrow> framed parse buf (m # ms) rest"

inductive_cases framed_NilE [elim!]: "framed parse buf [] rest"
inductive_cases framed_ConsE [elim!]: "framed parse buf (m # ms) rest"

lemma framed_append:
  "framed parse a ms r \<Longrightarrow> framed parse r ms' r' \<Longrightarrow> framed parse a (ms @ ms') r'"
  by (induction rule: framed.induct) (auto intro: framed.intros)

text \<open>Two readings of the same bytes agree as far as both go.\<close>

lemma framed_agree:
  "framed parse a ms r \<Longrightarrow> framed parse a ms' r' \<Longrightarrow>
   (\<exists>zs. ms' = ms @ zs \<and> framed parse r zs r') \<or> (\<exists>zs. ms = ms' @ zs \<and> framed parse r' zs r)"
proof (induction arbitrary: ms' rule: framed.induct)
  case (step buf m len ms rest)
  show ?case
  proof (cases ms')
    case Nil
    with step.prems have "r' = buf" by auto
    moreover have "framed parse buf (m # ms) rest" using step.hyps by (rule framed.step)
    ultimately show ?thesis by (simp add: Nil)
  next
    case (Cons m' ms'')
    with step.prems step.hyps(1) have "m' = m" "framed parse (drop len buf) ms'' r'" by auto
    with step.IH [OF this(2)] Cons show ?thesis by auto
  qed
qed auto

text \<open>A reading that stopped because the next message is incomplete is the longest one.\<close>

lemma framed_maximal:
  assumes "framed parse a ms r" and "parse r = Inr None" and "framed parse a ms' r'"
  shows "prefix ms' ms"
  using framed_agree [OF assms(1,3)] assms(2) by (auto elim: framed.cases)

locale stream_decoder =
  fixes parse :: "'b list \<Rightarrow> 'e + ('m \<times> nat) option"
  assumes parse_append: "parse buf = Inr (Some r) \<Longrightarrow> parse (buf @ ext) = Inr (Some r)"
    and parse_len: "parse buf = Inr (Some (m, len)) \<Longrightarrow> 0 < len \<and> len \<le> length buf"
begin

lemma framed_extend: "framed parse buf ms rest \<Longrightarrow> framed parse (buf @ ext) ms (rest @ ext)"
proof (induction rule: framed.induct)
  case (step buf m len ms rest)
  then have "parse (buf @ ext) = Inr (Some (m, len))" "len \<le> length buf"
    using parse_append parse_len by blast+
  with step.IH show ?case by (auto intro!: framed.step)
qed (rule framed.stop)

lemma framed_suffix: "framed parse buf ms rest \<Longrightarrow> suffix rest buf"
proof (induction rule: framed.induct)
  case (step buf m len ms rest)
  then show ?case using suffix_drop suffix_order.trans by blast
qed simp

lemma framed_length: "framed parse buf ms rest \<Longrightarrow> length ms + length rest \<le> length buf"
proof (induction rule: framed.induct)
  case (step buf m len ms rest)
  then show ?case using parse_len [OF step.hyps(1)] by auto
qed simp

text \<open>
  Feeding: a buffer holding what is left of the stream, extended and read again, is what is left
  of the longer stream.
\<close>

lemma framed_feed:
  assumes "framed parse stream ms buf" and "framed parse (buf @ ext) ms' rest"
  shows "framed parse (stream @ ext) (ms @ ms') rest"
  using framed_append [OF framed_extend [OF assms(1)] assms(2)] .

end

end
