(* ===== verification/Byte_Reader.thy ===== *)
theory Byte_Reader
  imports Prelude
begin

section \<open>Reading byte slices\<close>

text \<open>
  What the decoders of the sources use of \<open>&[u8]\<close>. A byte is a \<open>char\<close>, HOL's type of 8-bit values,
  so a byte string and a \<open>String\<close> are the same lists; an offset is a natural number.
\<close>

definition checked_add :: "nat \<Rightarrow> nat \<Rightarrow> nat option" where
  "checked_add a b = (if a + b < 2 ^ 64 then Some (a + b) else None)"

text \<open>\<open>buf.get(a..b)\<close> and \<open>buf.get(i)\<close>.\<close>

definition get_range :: "string \<Rightarrow> nat \<Rightarrow> nat \<Rightarrow> string option" where
  "get_range buf a b = (if a \<le> b \<and> b \<le> length buf then Some (take (b - a) (drop a buf)) else None)"

definition get_byte :: "string \<Rightarrow> nat \<Rightarrow> char option" where
  "get_byte buf i = (if i < length buf then Some (buf ! i) else None)"

text \<open>The value of a byte string in network order.\<close>

definition be_value :: "string \<Rightarrow> nat" where
  "be_value bs = foldl (\<lambda>v b. 256 * v + of_char b) 0 bs"

lemma get_range_append: "get_range buf a b = Some bs \<Longrightarrow> get_range (buf @ ext) a b = Some bs"
  by (auto simp: get_range_def split: if_splits)

lemma get_byte_append: "get_byte buf i = Some b \<Longrightarrow> get_byte (buf @ ext) i = Some b"
  by (auto simp: get_byte_def nth_append split: if_splits)

lemma get_range_Some:
  "get_range buf a b = Some bs \<longleftrightarrow> a \<le> b \<and> b \<le> length buf \<and> bs = take (b - a) (drop a buf)"
  by (auto simp: get_range_def)

lemma get_byte_Some: "get_byte buf i = Some b \<longleftrightarrow> i < length buf \<and> b = buf ! i"
  by (auto simp: get_byte_def)

text \<open>A read sees the bytes of its range only.\<close>

lemma get_range_local:
  assumes "a < b" and same: "\<And>i. a \<le> i \<Longrightarrow> i < b \<Longrightarrow> get_byte buf' i = get_byte buf i"
  shows "get_range buf' a b = get_range buf a b"
proof -
  have "get_byte buf' (b - 1) = get_byte buf (b - 1)" using assms by simp
  then have ends: "b \<le> length buf' \<longleftrightarrow> b \<le> length buf" using assms(1) by (auto simp: get_byte_def split: if_splits)
  show ?thesis
  proof (cases "b \<le> length buf")
    case True
    then have len: "b \<le> length buf'" using ends by simp
    have "take (b - a) (drop a buf') = take (b - a) (drop a buf)"
    proof (rule nth_equalityI)
      fix i assume "i < length (take (b - a) (drop a buf'))"
      then show "take (b - a) (drop a buf') ! i = take (b - a) (drop a buf) ! i"
        using same [of "a + i"] True len by (auto simp: get_byte_def split: if_splits)
    qed (use len True in simp)
    then show ?thesis using True len by (simp add: get_range_def)
  next
    case False
    with ends show ?thesis by (simp add: get_range_def)
  qed
qed

end
