(* ===== verification/Dbus_Wire.thy ===== *)
theory Dbus_Wire
  imports Framing Byte_Reader
begin

section \<open>Decoding what a traced process writes to a D-Bus socket\<close>

text \<open>
  \<open>crates/grith-supervisor/src/dbus/wire.rs\<close>. The input is chosen by the traced process. A byte
  is a \<open>char\<close>, HOL's type of 8-bit values, so a byte string and a \<open>String\<close> are the same lists; an
  offset is a natural number and every \<open>checked_add\<close> tests it against the 64-bit \<open>usize\<close>.
  A \<open>Result\<close> is a sum with the error on the left.
\<close>

definition MAX_MESSAGE_LEN :: nat where "MAX_MESSAGE_LEN = 262144"
definition MAX_HEADER_FIELDS :: nat where "MAX_HEADER_FIELDS = 64"
definition MAX_MESSAGES_PER_CALL :: nat where "MAX_MESSAGES_PER_CALL = 64"
definition MAX_FIELD_STR :: nat where "MAX_FIELD_STR = 255"
definition FIXED_HEADER_LEN :: nat where "FIXED_HEADER_LEN = 16"
definition BEGIN_LINE :: string where "BEGIN_LINE = ''BEGIN'' @ [CHR 0x0D, CHR 0x0A]"
definition MAX_AUTH_LEN :: nat where "MAX_AUTH_LEN = 4096"

lemmas wire_consts = MAX_MESSAGE_LEN_def MAX_HEADER_FIELDS_def MAX_MESSAGES_PER_CALL_def MAX_FIELD_STR_def
  FIXED_HEADER_LEN_def MAX_AUTH_LEN_def

datatype wire_error = Malformed string | MessageTooLarge | AuthTooLong

fun wire_error_tag :: "wire_error \<Rightarrow> string" where
  "wire_error_tag (Malformed what) = what"
| "wire_error_tag MessageTooLarge = ''message-too-large''"
| "wire_error_tag AuthTooLong = ''auth-too-long''"

datatype message_type = MethodCall | MethodReturn | ErrorReply | Signal | OtherType char

definition message_type_from_code :: "char \<Rightarrow> message_type" where
  "message_type_from_code code =
     (if code = CHR 0x01 then MethodCall
      else if code = CHR 0x02 then MethodReturn
      else if code = CHR 0x03 then ErrorReply
      else if code = CHR 0x04 then Signal
      else OtherType code)"

record dbus_message =
  dm_msg_type :: "message_type option"
  dm_destination :: "string option"
  dm_path :: "string option"
  dm_interface :: "string option"
  dm_member :: "string option"
  dm_signature :: "string option"
  dm_body_first_string :: "string option"

definition dbus_message_default :: dbus_message where
  "dbus_message_default =
     \<lparr> dm_msg_type = None, dm_destination = None, dm_path = None, dm_interface = None, dm_member = None,
       dm_signature = None, dm_body_first_string = None \<rparr>"

text \<open>\<open>describe\<close>; the arrow between the names is three bytes of UTF-8.\<close>

definition arrow :: string where
  "arrow = '' '' @ [CHR 0xE2, CHR 0x86, CHR 0x92] @ '' ''"

definition describe :: "dbus_message \<Rightarrow> string" where
  "describe m =
     (let dest = (case dm_destination m of Some d \<Rightarrow> d | None \<Rightarrow> ''(no destination)'')
      in case (dm_interface m, dm_member m) of
           (Some iface, Some member) \<Rightarrow> dest @ arrow @ iface @ ''.'' @ member
         | (None, Some member) \<Rightarrow> dest @ arrow @ member
         | (Some iface, None) \<Rightarrow> dest @ arrow @ iface
         | (None, None) \<Rightarrow> dest)"

datatype wire_phase = Auth | Messages

record decoded =
  dc_messages :: "dbus_message list"
  dc_consumed :: nat
  dc_phase :: wire_phase

subsection \<open>The handshake\<close>

fun position :: "('a \<Rightarrow> bool) \<Rightarrow> 'a list \<Rightarrow> nat option" where
  "position P [] = None"
| "position P (x # xs) = (if P x then Some 0 else map_option Suc (position P xs))"

definition strip_nul :: "string \<Rightarrow> string" where
  "strip_nul line = (case line of c # rest \<Rightarrow> if c = CHR 0x00 then rest else line | [] \<Rightarrow> [])"

text \<open>The loop over the lines: \<open>line_start\<close> is the offset of what is left of the buffer.\<close>

function begin_from :: "nat \<Rightarrow> string \<Rightarrow> nat option" where
  "begin_from line_start rest =
     (case position (\<lambda>b. b = CHR 0x0A) rest of
        None \<Rightarrow> None
      | Some rel \<Rightarrow>
          if strip_nul (take (rel + 1) rest) = BEGIN_LINE then Some (line_start + rel + 1)
          else begin_from (line_start + rel + 1) (drop (rel + 1) rest))"
  by pat_completeness auto
termination
proof (relation "measure (\<lambda>(_, rest). length rest)")
  fix line_start rel :: nat and rest :: string
  assume "position (\<lambda>b. b = CHR 0x0A) rest = Some rel"
  then have "rest \<noteq> []" by auto
  then show "((line_start + rel + 1, drop (rel + 1) rest), line_start, rest) \<in> measure (\<lambda>(_, rest). length rest)"
    by simp
qed simp

declare begin_from.simps [simp del]

definition find_begin :: "string \<Rightarrow> wire_error + nat option" where
  "find_begin buf =
     (case begin_from 0 buf of
        Some e \<Rightarrow> Inr (Some e)
      | None \<Rightarrow> if length buf > MAX_AUTH_LEN then Inl AuthTooLong else Inr None)"

subsection \<open>Readers\<close>

definition from_le_bytes :: "string \<Rightarrow> u32" where
  "from_le_bytes bs = foldr (\<lambda>b acc. of_char b + 256 * acc) bs 0"

definition from_be_bytes :: "string \<Rightarrow> u32" where
  "from_be_bytes bs = from_le_bytes (rev bs)"

definition read_u32 :: "string \<Rightarrow> nat \<Rightarrow> bool \<Rightarrow> wire_error + u32" where
  "read_u32 buf off little_endian =
     (case checked_add off 4 of
        None \<Rightarrow> Inl (Malformed ''u32-offset-overflow'')
      | Some e \<Rightarrow>
          (case get_range buf off e of
             None \<Rightarrow> Inl (Malformed ''u32-out-of-bounds'')
           | Some bs \<Rightarrow> Inr (if little_endian then from_le_bytes bs else from_be_bytes bs)))"

text \<open>For a power of two, clearing the low bits rounds down to a multiple.\<close>

definition align_up :: "nat \<Rightarrow> nat \<Rightarrow> wire_error + nat" where
  "align_up off align =
     (case checked_add off (align - 1) of
        None \<Rightarrow> Inl (Malformed ''align-overflow'')
      | Some v \<Rightarrow> Inr (v div align * align))"

text \<open>\<open>std::str::from_utf8\<close>: the well-formed byte sequences of Unicode, table 3-7.\<close>

definition in_bytes :: "nat \<Rightarrow> nat \<Rightarrow> char \<Rightarrow> bool" where
  "in_bytes lo hi b \<longleftrightarrow> lo \<le> (of_char b :: nat) \<and> (of_char b :: nat) \<le> hi"

definition utf8_second :: "char \<Rightarrow> char \<Rightarrow> bool" where
  "utf8_second b0 b1 =
     (if b0 = CHR 0xE0 then in_bytes 0xA0 0xBF b1
      else if b0 = CHR 0xED then in_bytes 0x80 0x9F b1
      else if b0 = CHR 0xF0 then in_bytes 0x90 0xBF b1
      else if b0 = CHR 0xF4 then in_bytes 0x80 0x8F b1
      else in_bytes 0x80 0xBF b1)"

fun utf8_valid :: "string \<Rightarrow> bool" where
  "utf8_valid [] = True"
| "utf8_valid (b0 # bs) =
     (if in_bytes 0x00 0x7F b0 then utf8_valid bs
      else if in_bytes 0xC2 0xDF b0 then
        (case bs of b1 # rest \<Rightarrow> in_bytes 0x80 0xBF b1 \<and> utf8_valid rest | _ \<Rightarrow> False)
      else if in_bytes 0xE0 0xEF b0 then
        (case bs of b1 # b2 # rest \<Rightarrow> utf8_second b0 b1 \<and> in_bytes 0x80 0xBF b2 \<and> utf8_valid rest | _ \<Rightarrow> False)
      else if in_bytes 0xF0 0xF4 b0 then
        (case bs of b1 # b2 # b3 # rest \<Rightarrow>
           utf8_second b0 b1 \<and> in_bytes 0x80 0xBF b2 \<and> in_bytes 0x80 0xBF b3 \<and> utf8_valid rest | _ \<Rightarrow> False)
      else False)"

definition read_string_len :: "string \<Rightarrow> nat \<Rightarrow> bool \<Rightarrow> nat \<Rightarrow> wire_error + nat \<times> nat" where
  "read_string_len buf off little_endian len_bytes =
     (if len_bytes = 4 then
        (case align_up off 4 of
           Inl e \<Rightarrow> Inl e
         | Inr off1 \<Rightarrow>
             (case read_u32 buf off1 little_endian of Inl e \<Rightarrow> Inl e | Inr n \<Rightarrow> Inr (unat n, off1 + 4)))
      else
        (case get_byte buf off of
           None \<Rightarrow> Inl (Malformed ''strlen-out-of-bounds'')
         | Some b \<Rightarrow> Inr (of_char b, off + 1)))"

definition read_string :: "string \<Rightarrow> nat \<Rightarrow> bool \<Rightarrow> nat \<Rightarrow> wire_error + string \<times> nat" where
  "read_string buf off little_endian len_bytes =
     (case read_string_len buf off little_endian len_bytes of
        Inl e \<Rightarrow> Inl e
      | Inr (len, after_len) \<Rightarrow>
          if len > MAX_FIELD_STR then Inl (Malformed ''string-too-long'')
          else (case checked_add after_len len of
              None \<Rightarrow> Inl (Malformed ''string-offset-overflow'')
            | Some e \<Rightarrow>
               (case get_range buf after_len e of
                  None \<Rightarrow> Inl (Malformed ''string-out-of-bounds'')
                | Some bs \<Rightarrow>
                    if get_byte buf e \<noteq> Some (CHR 0x00) then Inl (Malformed ''string-not-nul-terminated'')
                    else if \<not> utf8_valid bs then Inl (Malformed ''string-not-utf8'')
                    else Inr (bs, e + 1))))"

definition skip_fixed :: "string \<Rightarrow> nat \<Rightarrow> nat \<Rightarrow> nat \<Rightarrow> wire_error + nat" where
  "skip_fixed buf off align sz =
     (case align_up off align of
        Inl e \<Rightarrow> Inl e
      | Inr start \<Rightarrow>
          (case checked_add start sz of
             None \<Rightarrow> Inl (Malformed ''fixed-offset-overflow'')
           | Some e \<Rightarrow> if e > length buf then Inl (Malformed ''fixed-out-of-bounds'') else Inr e))"

definition skip_simple_value :: "string \<Rightarrow> nat \<Rightarrow> bool \<Rightarrow> char \<Rightarrow> wire_error + nat" where
  "skip_simple_value buf off little_endian sig =
     (if sig = CHR ''y'' then skip_fixed buf off 1 1
      else if sig \<in> set ''bui'' then skip_fixed buf off 4 4
      else if sig \<in> set ''nq'' then skip_fixed buf off 2 2
      else if sig \<in> set ''xtd'' then skip_fixed buf off 8 8
      else if sig = CHR ''h'' then skip_fixed buf off 4 4
      else if sig \<in> set ''so'' then
        (case read_string buf off little_endian 4 of Inl e \<Rightarrow> Inl e | Inr (_, n) \<Rightarrow> Inr n)
      else if sig = CHR ''g'' then
        (case read_string buf off little_endian 1 of Inl e \<Rightarrow> Inl e | Inr (_, n) \<Rightarrow> Inr n)
      else Inl (Malformed ''unsupported-variant-type''))"

subsection \<open>Messages\<close>

definition set_string_field :: "char \<Rightarrow> string \<Rightarrow> dbus_message \<Rightarrow> dbus_message" where
  "set_string_field code v out =
     (if code = CHR 0x01 then out\<lparr>dm_path := Some v\<rparr>
      else if code = CHR 0x02 then out\<lparr>dm_interface := Some v\<rparr>
      else if code = CHR 0x03 then out\<lparr>dm_member := Some v\<rparr>
      else out\<lparr>dm_destination := Some v\<rparr>)"

text \<open>One entry of the header array, from its (aligned) field code on.\<close>

definition read_field :: "string \<Rightarrow> nat \<Rightarrow> bool \<Rightarrow> dbus_message \<Rightarrow> wire_error + nat \<times> dbus_message" where
  "read_field buf off little_endian out =
     (case get_byte buf off of
        None \<Rightarrow> Inl (Malformed ''field-code-out-of-bounds'')
      | Some code \<Rightarrow>
         (case read_string buf (off + 1) little_endian 1 of
            Inl e \<Rightarrow> Inl e
          | Inr ([sig], after_sig) \<Rightarrow>
              if (code = CHR 0x01 \<and> sig = CHR ''o'') \<or> (code \<in> {CHR 0x02, CHR 0x03, CHR 0x06} \<and> sig = CHR ''s'')
              then (case read_string buf after_sig little_endian 4 of
                      Inl e \<Rightarrow> Inl e
                    | Inr (v, n) \<Rightarrow> Inr (n, set_string_field code v out))
              else if code = CHR 0x08 \<and> sig = CHR ''g''
              then (case read_string buf after_sig little_endian 1 of
                      Inl e \<Rightarrow> Inl e
                    | Inr (v, n) \<Rightarrow> Inr (n, out\<lparr>dm_signature := Some v\<rparr>))
              else (case skip_simple_value buf after_sig little_endian sig of
                      Inl e \<Rightarrow> Inl e
                    | Inr n \<Rightarrow> Inr (n, out))
          | Inr _ \<Rightarrow> Inl (Malformed ''multi-char-variant-signature'')))"

function read_header_fields ::
    "string \<Rightarrow> nat \<Rightarrow> nat \<Rightarrow> bool \<Rightarrow> nat \<Rightarrow> dbus_message \<Rightarrow> wire_error + dbus_message" where
  "read_header_fields buf off fin little_endian seen out =
     (if \<not> off < fin then Inr out
      else if seen + 1 > MAX_HEADER_FIELDS then Inl (Malformed ''too-many-header-fields'')
      else (case align_up off 8 of
          Inl e \<Rightarrow> Inl e
        | Inr off1 \<Rightarrow>
            if off1 \<ge> fin then Inr out
            else (case read_field buf off1 little_endian out of
                Inl e \<Rightarrow> Inl e
              | Inr (n, out1) \<Rightarrow>
                  if n \<le> off1 then Inl (Malformed ''field-made-no-progress'')
                  else read_header_fields buf n fin little_endian (seen + 1) out1)))"
  by pat_completeness auto
termination by (relation "measure (\<lambda>(_, _, _, _, seen, _). MAX_HEADER_FIELDS - seen)") auto

declare read_header_fields.simps [simp del]

definition endianness :: "char \<Rightarrow> bool option" where
  "endianness b = (if b = CHR ''l'' then Some True else if b = CHR ''B'' then Some False else None)"

definition decode_body_first :: "string \<Rightarrow> nat \<Rightarrow> bool \<Rightarrow> nat \<Rightarrow> nat \<Rightarrow> dbus_message \<Rightarrow> dbus_message" where
  "decode_body_first buf tot little_endian body_start body_len m =
     (if body_len > 0 \<and> (case dm_signature m of Some (c # _) \<Rightarrow> c = CHR ''s'' | _ \<Rightarrow> False)
      then m\<lparr>dm_body_first_string :=
             (case read_string (take tot buf) body_start little_endian 4 of Inr (v, _) \<Rightarrow> Some v | Inl _ \<Rightarrow> None)\<rparr>
      else m)"

text \<open>The part of \<open>read_message\<close> after the lengths: \<open>fin\<close> ends the header array.\<close>

definition read_sized :: "string \<Rightarrow> bool \<Rightarrow> nat \<Rightarrow> nat \<Rightarrow> wire_error + (dbus_message \<times> nat) option" where
  "read_sized buf little_endian body_len fin =
     (case align_up fin 8 of
        Inl e \<Rightarrow> Inl e
      | Inr body_start \<Rightarrow>
         (case checked_add body_start body_len of
            None \<Rightarrow> Inl (Malformed ''total-len-overflow'')
          | Some tot \<Rightarrow>
              if tot > MAX_MESSAGE_LEN then Inl MessageTooLarge
              else if length buf < tot then Inr None
              else (case read_header_fields buf FIXED_HEADER_LEN fin little_endian 0
                       (dbus_message_default\<lparr>dm_msg_type := Some (message_type_from_code (buf ! 1))\<rparr>) of
                  Inl e \<Rightarrow> Inl e
                | Inr m \<Rightarrow> Inr (Some (decode_body_first buf tot little_endian body_start body_len m, tot)))))"

definition read_message :: "string \<Rightarrow> wire_error + (dbus_message \<times> nat) option" where
  "read_message buf =
     (if length buf < FIXED_HEADER_LEN then Inr None
      else (case endianness (buf ! 0) of
          None \<Rightarrow> Inl (Malformed ''bad-endianness-flag'')
        | Some little_endian \<Rightarrow>
            if buf ! 3 \<noteq> CHR 0x01 then Inl (Malformed ''bad-protocol-version'')
            else (case read_u32 buf 4 little_endian of
                Inl e \<Rightarrow> Inl e
              | Inr body_len \<Rightarrow>
                 (case read_u32 buf 12 little_endian of
                    Inl e \<Rightarrow> Inl e
                  | Inr fields_len \<Rightarrow>
                     (case checked_add FIXED_HEADER_LEN (unat fields_len) of
                        None \<Rightarrow> Inl (Malformed ''fields-len-overflow'')
                      | Some fin \<Rightarrow> read_sized buf little_endian (unat body_len) fin)))))"

function decode_loop :: "string \<Rightarrow> nat \<Rightarrow> dbus_message list \<Rightarrow> wire_error + dbus_message list \<times> nat" where
  "decode_loop buf off msgs =
     (case read_message (drop off buf) of
        Inl e \<Rightarrow> Inl e
      | Inr None \<Rightarrow> Inr (msgs, off)
      | Inr (Some (m, len)) \<Rightarrow>
          if length msgs + 1 > MAX_MESSAGES_PER_CALL then Inl (Malformed ''too-many-messages'')
          else decode_loop buf (off + len) (msgs @ [m]))"
  by pat_completeness auto
termination by (relation "measure (\<lambda>(_, _, msgs). MAX_MESSAGES_PER_CALL - length msgs)") auto

declare decode_loop.simps [simp del]

definition decode :: "string \<Rightarrow> wire_phase \<Rightarrow> wire_error + decoded" where
  "decode buf phase =
     (case (if phase = Auth then find_begin buf else Inr (Some 0)) of
        Inl e \<Rightarrow> Inl e
      | Inr None \<Rightarrow> Inr \<lparr> dc_messages = [], dc_consumed = 0, dc_phase = phase \<rparr>
      | Inr (Some off) \<Rightarrow>
          (case decode_loop buf off [] of
             Inl e \<Rightarrow> Inl e
           | Inr (msgs, consumed) \<Rightarrow> Inr \<lparr> dc_messages = msgs, dc_consumed = consumed, dc_phase = Messages \<rparr>))"

subsection \<open>More bytes never change what was read\<close>

text \<open>
  Every reader only looks at bytes inside the buffer, so a successful result stays the same when
  the buffer grows. An error may turn into a success: the missing bytes may arrive.
\<close>

lemma read_u32_append: "read_u32 buf off le = Inr n \<Longrightarrow> read_u32 (buf @ ext) off le = Inr n"
  by (auto simp: read_u32_def dest: get_range_append [where ext = ext] split: option.splits)

lemma read_string_len_append:
  "read_string_len buf off le k = Inr r \<Longrightarrow> read_string_len (buf @ ext) off le k = Inr r"
  by (auto simp: read_string_len_def dest: read_u32_append [where ext = ext] get_byte_append [where ext = ext]
      split: if_splits sum.splits option.splits)

lemma read_string_Inr:
  "read_string buf off le k = Inr (v, n) \<longleftrightarrow>
     (\<exists>len after_len e. read_string_len buf off le k = Inr (len, after_len) \<and> len \<le> MAX_FIELD_STR \<and>
        checked_add after_len len = Some e \<and> get_range buf after_len e = Some v \<and>
        get_byte buf e = Some (CHR 0x00) \<and> utf8_valid v \<and> n = e + 1)"
  by (auto simp: read_string_def split: sum.splits option.splits)

lemma read_string_append: "read_string buf off le k = Inr r \<Longrightarrow> read_string (buf @ ext) off le k = Inr r"
proof (cases r)
  case (Pair v n)
  assume "read_string buf off le k = Inr r"
  with Pair show ?thesis
    using read_string_len_append get_range_append get_byte_append unfolding Pair read_string_Inr by metis
qed

lemma skip_fixed_append: "skip_fixed buf off a k = Inr n \<Longrightarrow> skip_fixed (buf @ ext) off a k = Inr n"
  by (auto simp: skip_fixed_def split: if_splits sum.splits option.splits)

lemma skip_string_append:
  "(case read_string buf off le k of Inl e \<Rightarrow> Inl e | Inr (v, n) \<Rightarrow> Inr n) = Inr n \<Longrightarrow>
   (case read_string (buf @ ext) off le k of Inl e \<Rightarrow> Inl e | Inr (v, n) \<Rightarrow> Inr n) = Inr n"
  by (auto dest: read_string_append [where ext = ext] split: sum.splits)

lemma skip_simple_value_append:
  "skip_simple_value buf off le sig = Inr n \<Longrightarrow> skip_simple_value (buf @ ext) off le sig = Inr n"
  unfolding skip_simple_value_def
  by (simp only: skip_fixed_append skip_string_append split: if_split_asm cong: if_cong) simp_all

lemma read_field_append:
  assumes "read_field buf off le out = Inr r"
  shows "read_field (buf @ ext) off le out = Inr r"
proof -
  obtain code where code: "get_byte buf off = Some code"
    using assms by (cases "get_byte buf off") (simp_all add: read_field_def)
  obtain sig after_sig where sig: "read_string buf (off + 1) le 1 = Inr ([sig], after_sig)"
    using assms by (auto simp: read_field_def code split: sum.splits list.splits)
  note code' = get_byte_append [OF code, of ext] and sig' = read_string_append [OF sig, of ext]
  let ?vals = "(code = CHR 0x01 \<and> sig = CHR ''o'') \<or> (code \<in> {CHR 0x02, CHR 0x03, CHR 0x06} \<and> sig = CHR ''s'')"
  consider (string) ?vals | (signature) "\<not> ?vals" "code = CHR 0x08 \<and> sig = CHR ''g''"
    | (skip) "\<not> ?vals" "\<not> (code = CHR 0x08 \<and> sig = CHR ''g'')" by blast
  then show ?thesis
  proof cases
    case string
    with assms show ?thesis unfolding read_field_def code code' sig sig'
      by (auto dest: read_string_append [where ext = ext] simp del: insert_iff split: sum.splits prod.splits)
  next
    case signature
    with assms show ?thesis unfolding read_field_def code code' sig sig'
      by (auto dest: read_string_append [where ext = ext] simp del: insert_iff split: sum.splits prod.splits)
  next
    case skip
    with assms show ?thesis unfolding read_field_def code code' sig sig'
      by (auto dest: skip_simple_value_append [where ext = ext] simp del: insert_iff split: sum.splits prod.splits)
  qed
qed

lemma read_header_fields_Inr:
  "read_header_fields buf off fin le seen out = Inr m \<longleftrightarrow>
     (if off < fin then
        seen < MAX_HEADER_FIELDS \<and> (\<exists>off1. align_up off 8 = Inr off1 \<and>
          (if fin \<le> off1 then m = out
           else \<exists>n out1. read_field buf off1 le out = Inr (n, out1) \<and> off1 < n \<and>
             read_header_fields buf n fin le (seen + 1) out1 = Inr m))
      else m = out)"
  by (subst read_header_fields.simps) (auto simp: not_le split: sum.splits)

lemma read_header_fields_append:
  "read_header_fields buf off fin le seen out = Inr m \<Longrightarrow>
   read_header_fields (buf @ ext) off fin le seen out = Inr m"
proof (induction buf off fin le seen out rule: read_header_fields.induct)
  case (1 buf off fin le seen out)
  show ?case
  proof (cases "off < fin")
    case True
    then obtain off1 where off1: "seen < MAX_HEADER_FIELDS" "align_up off 8 = Inr off1"
      using "1.prems" unfolding read_header_fields_Inr [of buf off] by auto
    show ?thesis
    proof (cases "fin \<le> off1")
      case False
      then obtain n out1 where n: "read_field buf off1 le out = Inr (n, out1)" "off1 < n"
          "read_header_fields buf n fin le (seen + 1) out1 = Inr m"
        using "1.prems" True off1 unfolding read_header_fields_Inr [of buf off] by auto
      have "read_header_fields (buf @ ext) n fin le (seen + 1) out1 = Inr m"
        by (rule "1.IH" [OF _ _ off1(2) _ n(1) refl _ n(3)]) (use True off1 False n(2) in auto)
      with True off1 False n(2) read_field_append [OF n(1)] show ?thesis
        unfolding read_header_fields_Inr [of "buf @ ext" off] by auto
    qed (use "1.prems" True off1 in \<open>simp add: read_header_fields_Inr [of _ off]\<close>)
  qed (use "1.prems" in \<open>simp add: read_header_fields_Inr [of _ off]\<close>)
qed

lemma align_up_ge:
  assumes "align_up off a = Inr v" and "0 < a"
  shows "off \<le> v"
proof -
  have "v = (off + (a - 1)) div a * a"
    using assms(1) by (simp add: align_up_def checked_add_def split: option.splits if_splits)
  moreover have "(off + (a - 1)) mod a < a" using assms(2) by simp
  ultimately show ?thesis using div_mult_mod_eq [of "off + (a - 1)" a] assms(2) by linarith
qed

lemma read_sized_Some:
  "read_sized buf le body_len fin = Inr (Some (m, tot)) \<longleftrightarrow>
     (\<exists>body_start m0. align_up fin 8 = Inr body_start \<and> checked_add body_start body_len = Some tot \<and>
        tot \<le> MAX_MESSAGE_LEN \<and> tot \<le> length buf \<and>
        read_header_fields buf FIXED_HEADER_LEN fin le 0
          (dbus_message_default\<lparr>dm_msg_type := Some (message_type_from_code (buf ! 1))\<rparr>) = Inr m0 \<and>
        m = decode_body_first buf tot le body_start body_len m0)"
  by (auto simp: read_sized_def not_less split: sum.splits option.splits)

lemma read_message_Some:
  "read_message buf = Inr (Some (m, tot)) \<longleftrightarrow>
     FIXED_HEADER_LEN \<le> length buf \<and> buf ! 3 = CHR 0x01 \<and>
     (\<exists>le body_len fields_len fin. endianness (buf ! 0) = Some le \<and> read_u32 buf 4 le = Inr body_len \<and>
        read_u32 buf 12 le = Inr fields_len \<and> checked_add FIXED_HEADER_LEN (unat fields_len) = Some fin \<and>
        read_sized buf le (unat body_len) fin = Inr (Some (m, tot)))"
  by (auto simp: read_message_def not_less split: sum.splits option.splits)

lemma read_message_append:
  assumes "read_message buf = Inr (Some r)"
  shows "read_message (buf @ ext) = Inr (Some r)"
proof -
  obtain m tot where r: "r = (m, tot)" by fastforce
  obtain le body_len fields_len fin where h: "FIXED_HEADER_LEN \<le> length buf" "buf ! 3 = CHR 0x01"
      "endianness (buf ! 0) = Some le" "read_u32 buf 4 le = Inr body_len" "read_u32 buf 12 le = Inr fields_len"
      "checked_add FIXED_HEADER_LEN (unat fields_len) = Some fin"
      "read_sized buf le (unat body_len) fin = Inr (Some (m, tot))"
    using assms unfolding r read_message_Some by blast
  then obtain bs m0 where z: "align_up fin 8 = Inr bs" "checked_add bs (unat body_len) = Some tot"
      "tot \<le> MAX_MESSAGE_LEN" "tot \<le> length buf"
      "read_header_fields buf FIXED_HEADER_LEN fin le 0
          (dbus_message_default\<lparr>dm_msg_type := Some (message_type_from_code (buf ! 1))\<rparr>) = Inr m0"
      "m = decode_body_first buf tot le bs (unat body_len) m0"
    unfolding read_sized_Some by blast
  have nth: "(buf @ ext) ! i = buf ! i" if "i < 16" for i
    using h(1) that by (simp add: nth_append FIXED_HEADER_LEN_def)
  have "decode_body_first (buf @ ext) tot le bs (unat body_len) m0 = m"
    using z(4,6) by (simp add: decode_body_first_def)
  with z have "read_sized (buf @ ext) le (unat body_len) fin = Inr (Some (m, tot))"
    unfolding read_sized_Some using read_header_fields_append [OF z(5), of ext] nth [of 1] by auto
  with h show ?thesis
    unfolding r read_message_Some
    using read_u32_append [OF h(4), of ext] read_u32_append [OF h(5), of ext] nth [of 0] nth [of 3] by auto
qed

lemma read_message_len:
  assumes "read_message buf = Inr (Some (m, tot))"
  shows "16 \<le> tot \<and> tot \<le> length buf \<and> tot \<le> MAX_MESSAGE_LEN"
proof -
  obtain le body_len fields_len fin where "checked_add FIXED_HEADER_LEN (unat (fields_len :: u32)) = Some fin"
      "read_sized buf le body_len fin = Inr (Some (m, tot))"
    using assms unfolding read_message_Some by blast
  moreover from this(2) obtain bs where "align_up fin 8 = Inr bs" "checked_add bs body_len = Some tot"
      "tot \<le> MAX_MESSAGE_LEN" "tot \<le> length buf"
    unfolding read_sized_Some by blast
  ultimately show ?thesis
    using align_up_ge [of fin 8 bs] by (auto simp: checked_add_def FIXED_HEADER_LEN_def split: if_splits)
qed

interpretation bus: stream_decoder read_message
proof
  fix buf ext :: string and r
  assume "read_message buf = Inr (Some r)"
  then show "read_message (buf @ ext) = Inr (Some r)" by (rule read_message_append)
next
  fix buf :: string and m len
  assume "read_message buf = Inr (Some (m, len))"
  from read_message_len [OF this] show "0 < len \<and> len \<le> length buf" by simp
qed

subsection \<open>Decoding a buffer\<close>

lemma decode_loop_framed:
  "decode_loop buf off msgs = Inr (msgs', consumed) \<Longrightarrow> off \<le> length buf \<Longrightarrow>
   \<exists>ms. msgs' = msgs @ ms \<and> framed read_message (drop off buf) ms (drop consumed buf) \<and>
     read_message (drop consumed buf) = Inr None \<and> off + 16 * length ms \<le> consumed \<and> consumed \<le> length buf \<and>
     (length msgs \<le> MAX_MESSAGES_PER_CALL \<longrightarrow> length msgs' \<le> MAX_MESSAGES_PER_CALL)"
proof (induction buf off msgs rule: decode_loop.induct)
  case (1 buf off msgs)
  show ?case
  proof (cases "read_message (drop off buf)")
    case (Inr r)
    show ?thesis
    proof (cases r)
      case None
      with Inr "1.prems" show ?thesis
        by (simp add: decode_loop.simps [of buf off]) (blast intro: framed.stop)
    next
      case (Some p)
      obtain m len where p: "p = (m, len)" by fastforce
      note rd = Inr [unfolded Some p]
      then have len: "16 \<le> len" "off + len \<le> length buf"
        using read_message_len [OF rd] "1.prems"(2) by auto
      have few: "\<not> length msgs + 1 > MAX_MESSAGES_PER_CALL"
        using "1.prems"(1) rd by (auto simp: decode_loop.simps [of buf off] split: if_splits)
      have rec: "decode_loop buf (off + len) (msgs @ [m]) = Inr (msgs', consumed)"
        using "1.prems"(1) rd few by (simp add: decode_loop.simps [of buf off])
      obtain ms where ms: "msgs' = (msgs @ [m]) @ ms" "framed read_message (drop (off + len) buf) ms (drop consumed buf)"
          "read_message (drop consumed buf) = Inr None" "off + len + 16 * length ms \<le> consumed" "consumed \<le> length buf"
          "length msgs' \<le> MAX_MESSAGES_PER_CALL"
        using "1.IH" [OF rd refl refl few rec len(2)] few by auto
      have "framed read_message (drop off buf) (m # ms) (drop consumed buf)"
        using rd ms(2) by (intro framed.step [where m = m and len = len]) (simp_all add: add.commute [of len off])
      with ms len show ?thesis by (intro exI [of _ "m # ms"]) auto
    qed
  qed (use "1.prems" in \<open>simp add: decode_loop.simps [of buf off]\<close>)
qed

lemma position_append: "position P xs = Some k \<Longrightarrow> position P (xs @ ys) = Some k"
  by (induction xs arbitrary: k) (auto split: if_splits)

lemma position_less: "position P xs = Some k \<Longrightarrow> k < length xs"
  by (induction xs arbitrary: k) (auto split: if_splits)

lemma begin_from_append: "begin_from k buf = Some e \<Longrightarrow> begin_from k (buf @ ext) = Some e"
proof (induction k buf rule: begin_from.induct)
  case (1 k rest)
  obtain rel where rel: "position (\<lambda>b. b = CHR 0x0A) rest = Some rel"
    using "1.prems" by (cases "position (\<lambda>b. b = CHR 0x0A) rest") (simp_all add: begin_from.simps [of k rest])
  note here = begin_from.simps [of k "rest @ ext"] begin_from.simps [of k rest] position_append [OF rel]
    Suc_leI [OF position_less [OF rel]]
  show ?case
  proof (cases "strip_nul (take (rel + 1) rest) = BEGIN_LINE")
    case False
    with "1.prems" rel have "begin_from (k + rel + 1) (drop (rel + 1) rest) = Some e"
      by (simp add: begin_from.simps [of k rest])
    with "1.IH" [OF rel False] False rel show ?thesis by (simp add: here)
  next
    case True
    with "1.prems" rel show ?thesis by (simp add: here)
  qed
qed

lemma begin_from_range: "begin_from k buf = Some e \<Longrightarrow> k < e \<and> e \<le> k + length buf"
proof (induction k buf rule: begin_from.induct)
  case (1 k rest)
  obtain rel where rel: "position (\<lambda>b. b = CHR 0x0A) rest = Some rel"
    using "1.prems" by (cases "position (\<lambda>b. b = CHR 0x0A) rest") (simp_all add: begin_from.simps [of k rest])
  then show ?case
    using "1.prems" "1.IH" [OF rel] position_less [OF rel]
    by (auto simp: begin_from.simps [of k rest] split: if_splits)
qed

lemma decode_cases:
  assumes "decode buf ph = Inr d"
  obtains (handshake) "ph = Auth" "begin_from 0 buf = None"
      "d = \<lparr> dc_messages = [], dc_consumed = 0, dc_phase = Auth \<rparr>"
    | (messages) off where "ph = Auth \<longrightarrow> begin_from 0 buf = Some off" "ph = Messages \<longrightarrow> off = 0"
      "off \<le> length buf" "decode_loop buf off [] = Inr (dc_messages d, dc_consumed d)" "dc_phase d = Messages"
proof (cases ph)
  case Auth
  with assms handshake messages show thesis
    by (auto simp: decode_def find_begin_def dest: begin_from_range split: option.splits sum.splits if_splits)
next
  case Messages
  with assms messages show thesis
    by (auto simp: decode_def split: sum.splits)
qed

text \<open>
  Decoding what the traced process wrote is bounded by what it wrote: at most sixty-four messages
  come out, each took at least the sixteen bytes of a fixed header, nothing past the end of the
  buffer counts as consumed, and nothing is decoded before the handshake has ended.
\<close>

theorem decode_bounded:
  assumes "decode buf ph = Inr d"
  shows "length (dc_messages d) \<le> 64 \<and> 16 * length (dc_messages d) \<le> dc_consumed d \<and>
    dc_consumed d \<le> length buf \<and> (dc_phase d = Auth \<longrightarrow> dc_messages d = [] \<and> dc_consumed d = 0)"
  using assms
proof (cases rule: decode_cases)
  case (messages off)
  from decode_loop_framed [OF messages(4,3)] messages(5) show ?thesis
    by (auto simp: MAX_MESSAGES_PER_CALL_def)
qed simp

end
