(* ===== verification/Dbus_Policy.thy ===== *)
theory Dbus_Policy
  imports Dbus_Wire
begin

section \<open>Which D-Bus calls need no review\<close>

text \<open>
  \<open>crates/grith-supervisor/src/dbus/policy.rs\<close>: the table of calls that cannot make a peer act for
  the traced process, and the verdict on one decoded message.
\<close>

datatype dbus_verdict = DbusAllow | DbusEscalate string

definition universal_read_only :: "string \<Rightarrow> string \<Rightarrow> bool" where
  "universal_read_only interface member =
     (if interface = ''org.freedesktop.DBus.Introspectable'' then member = ''Introspect''
      else if interface = ''org.freedesktop.DBus.Peer'' then member \<in> set [''Ping'', ''GetMachineId'']
      else if interface = ''org.freedesktop.DBus.Properties'' then member \<in> set [''Get'', ''GetAll'']
      else if interface = ''org.freedesktop.DBus.ObjectManager'' then member = ''GetManagedObjects''
      else if interface = ''org.gtk.vfs.MountTracker''
      then member \<in> set [''ListMountableInfo'', ''LookupMount'', ''ListMounts'', ''ListMounts2'']
      else False)"

definition BUS_DAEMON_METHODS :: "string list" where
  "BUS_DAEMON_METHODS =
     [''Hello'', ''RequestName'', ''ReleaseName'', ''GetNameOwner'', ''NameHasOwner'', ''ListNames'',
      ''ListActivatableNames'', ''ListQueuedOwners'', ''AddMatch'', ''RemoveMatch'', ''GetId'',
      ''GetConnectionUnixUser'', ''GetConnectionUnixProcessID'', ''GetConnectionCredentials'']"

definition SECRET_SERVICE_INTERFACES :: "string list" where
  "SECRET_SERVICE_INTERFACES =
     [''org.freedesktop.Secret.Service'', ''org.freedesktop.Secret.Collection'', ''org.freedesktop.Secret.Item'',
      ''org.freedesktop.Secret.Session'', ''org.freedesktop.Secret.Prompt'']"

definition destination_allows :: "string \<Rightarrow> string \<Rightarrow> string \<Rightarrow> bool" where
  "destination_allows destination interface member =
     (if destination = ''org.freedesktop.DBus''
      then interface = ''org.freedesktop.DBus'' \<and> member \<in> set BUS_DAEMON_METHODS
      else if destination = ''org.freedesktop.secrets'' then interface \<in> set SECRET_SERVICE_INTERFACES
      else if destination = ''org.freedesktop.Notifications''
      then interface = ''org.freedesktop.Notifications'' \<and> member \<in> set [''GetCapabilities'', ''GetServerInformation'']
      else if destination \<in> set [''org.freedesktop.ScreenSaver'', ''org.gnome.ScreenSaver'']
      then member = ''GetActive'' \<and> interface \<in> set [''org.freedesktop.ScreenSaver'', ''org.gnome.ScreenSaver'']
      else if destination = ''org.freedesktop.portal.Desktop'' then
        (if interface = ''org.freedesktop.portal.Settings'' then member \<in> set [''Read'', ''ReadAll'']
         else if interface = ''org.freedesktop.portal.Secret'' then member = ''RetrieveSecret''
         else if interface = ''org.freedesktop.host.portal.Registry'' then member = ''Register''
         else False)
      else if destination = ''org.freedesktop.systemd1''
      then interface = ''org.freedesktop.systemd1.Manager'' \<and> member = ''GetUnit''
      else False)"

definition is_scope_only_transient_unit :: "dbus_message \<Rightarrow> bool" where
  "is_scope_only_transient_unit m \<longleftrightarrow>
     dm_destination m = Some ''org.freedesktop.systemd1'' \<and>
     dm_interface m = Some ''org.freedesktop.systemd1.Manager'' \<and>
     dm_member m = Some ''StartTransientUnit'' \<and>
     (case dm_body_first_string m of Some unit \<Rightarrow> suffix ''.scope'' unit | None \<Rightarrow> False)"

definition classify :: "dbus_message \<Rightarrow> dbus_verdict" where
  "classify m =
     (let gate =
        (case (dm_destination m, dm_member m) of
           (Some destination, Some member) \<Rightarrow>
             (case dm_interface m of
                None \<Rightarrow> DbusEscalate (describe m)
              | Some interface \<Rightarrow>
                  if universal_read_only interface member \<or> destination_allows destination interface member then DbusAllow
                  else if is_scope_only_transient_unit m then DbusAllow
                  else DbusEscalate (describe m))
         | _ \<Rightarrow> DbusEscalate (describe m))
      in case dm_msg_type m of
           Some MethodReturn \<Rightarrow> DbusAllow
         | Some ErrorReply \<Rightarrow> DbusAllow
         | Some Signal \<Rightarrow> DbusAllow
         | Some MethodCall \<Rightarrow> gate
         | Some (OtherType _) \<Rightarrow> DbusEscalate (''unrecognised D-Bus message ('' @ describe m @ '')'')
         | None \<Rightarrow> DbusEscalate (''unrecognised D-Bus message ('' @ describe m @ '')''))"

subsection \<open>What can pass without review\<close>

lemma classify_call:
  assumes "dm_msg_type m = Some MethodCall"
  shows "classify m = DbusAllow \<longleftrightarrow>
    (\<exists>destination interface member. dm_destination m = Some destination \<and> dm_interface m = Some interface \<and>
       dm_member m = Some member \<and>
       (universal_read_only interface member \<or> destination_allows destination interface member \<or>
        is_scope_only_transient_unit m))"
  using assms by (auto simp: classify_def Let_def split: option.splits)

text \<open>
  The interfaces of the services that can run a command for the caller, on any destination: the
  service managers, the portal's launchers, bus activation and property writes.
\<close>

definition delegating :: "dbus_message \<Rightarrow> bool" where
  "delegating m \<longleftrightarrow>
     (case (dm_interface m, dm_member m) of
        (Some interface, Some member) \<Rightarrow>
          (interface = ''org.freedesktop.systemd1.Manager'' \<and>
             member \<in> {''StartUnit'', ''RestartUnit'', ''LoadUnit'', ''EnableUnitFiles'', ''SetEnvironment''}) \<or>
          (interface = ''org.freedesktop.systemd1.Manager'' \<and> member = ''StartTransientUnit'' \<and>
             \<not> is_scope_only_transient_unit m) \<or>
          (interface = ''org.freedesktop.DBus'' \<and> member \<in> {''StartServiceByName'', ''UpdateActivationEnvironment''}) \<or>
          (interface = ''org.freedesktop.DBus.Properties'' \<and> member = ''Set'') \<or>
          interface \<in> {''org.freedesktop.portal.Flatpak'', ''org.freedesktop.portal.OpenURI'',
            ''org.freedesktop.login1.Manager'', ''org.freedesktop.PolicyKit1.Authority''}
      | _ \<Rightarrow> True)"

lemma destination_allows_cases:
  "destination_allows destination interface member \<Longrightarrow>
     (interface = ''org.freedesktop.DBus'' \<and> member \<in> set BUS_DAEMON_METHODS) \<or>
     interface \<in> set SECRET_SERVICE_INTERFACES \<or>
     interface \<in> {''org.freedesktop.Notifications'', ''org.freedesktop.ScreenSaver'', ''org.gnome.ScreenSaver'',
        ''org.freedesktop.portal.Settings'', ''org.freedesktop.portal.Secret'', ''org.freedesktop.host.portal.Registry''} \<or>
     (interface = ''org.freedesktop.systemd1.Manager'' \<and> member = ''GetUnit'')"
  by (simp add: destination_allows_def split: if_split_asm) (elim conjE disjE; simp)

text \<open>
  No escape passes unseen: a method call that could make a peer act for the traced process -
  starting, loading or enabling a unit, a transient unit that is not a scope, bus activation, a
  property write, the portal's launchers, the login and authorisation managers, or a call whose
  interface or member is missing - escalates, whatever it is addressed to.
\<close>

theorem delegating_calls_escalate:
  assumes "dm_msg_type m = Some MethodCall" and "delegating m"
  shows "\<exists>d. classify m = DbusEscalate d"
proof -
  have "classify m \<noteq> DbusAllow"
  proof
    assume "classify m = DbusAllow"
    then obtain destination interface member where h: "dm_destination m = Some destination"
        "dm_interface m = Some interface" "dm_member m = Some member"
        "universal_read_only interface member \<or> destination_allows destination interface member \<or>
         is_scope_only_transient_unit m"
      using classify_call [OF assms(1)] by blast
    have "\<not> universal_read_only interface member"
      using assms(2) h(2,3) by (auto simp: delegating_def universal_read_only_def)
    moreover have "\<not> destination_allows destination interface member"
    proof
      assume "destination_allows destination interface member"
      then show False
        using assms(2) h(2,3) destination_allows_cases [of destination interface member]
        by (auto simp: delegating_def BUS_DAEMON_METHODS_def SECRET_SERVICE_INTERFACES_def)
    qed
    moreover have "\<not> is_scope_only_transient_unit m"
      using assms(2) h(2,3) by (auto simp: delegating_def is_scope_only_transient_unit_def)
    ultimately show False using h(4) by blast
  qed
  then show ?thesis by (cases "classify m") auto
qed

definition start_unit_call :: "string \<Rightarrow> dbus_message" where
  "start_unit_call unit =
     dbus_message_default\<lparr>dm_msg_type := Some MethodCall, dm_destination := Some ''org.freedesktop.systemd1'',
       dm_interface := Some ''org.freedesktop.systemd1.Manager'', dm_member := Some ''StartTransientUnit'',
       dm_body_first_string := Some unit\<rparr>"

theorem delegating_calls_escalate_witness:
  "(\<exists>d. classify (start_unit_call ''run-1.service'') = DbusEscalate d) \<and> classify (start_unit_call ''run-1.scope'') = DbusAllow"
proof
  have "dm_msg_type (start_unit_call ''run-1.service'') = Some MethodCall" "delegating (start_unit_call ''run-1.service'')"
    by (simp_all add: start_unit_call_def delegating_def is_scope_only_transient_unit_def suffix_to_prefix)
  from delegating_calls_escalate [OF this] show "\<exists>d. classify (start_unit_call ''run-1.service'') = DbusEscalate d" .
  have "is_scope_only_transient_unit (start_unit_call ''run-1.scope'')"
    by (simp add: start_unit_call_def is_scope_only_transient_unit_def suffix_to_prefix)
  then show "classify (start_unit_call ''run-1.scope'') = DbusAllow"
    by (simp add: classify_def start_unit_call_def)
qed

end
