(* ===== verification/Dbus_Encoding.thy ===== *)
theory Dbus_Encoding
  imports Dbus_Wire
begin

section \<open>Well-formed D-Bus messages are decoded\<close>

text \<open>
  An encoder of header-only messages in little-endian order as the D-Bus specification lays them
  out (fixed header, header array of structures aligned to eight bytes, padding), and the round
  trip through the decoder of \<open>wire.rs\<close>.
\<close>

definition le32 :: "nat \<Rightarrow> string" where
  "le32 n = [char_of n, char_of (n div 256), char_of (n div 65536), char_of (n div 16777216)]"

definition padding :: "nat \<Rightarrow> string" where
  "padding n = replicate ((8 - n mod 8) mod 8) (CHR 0x00)"

type_synonym header_field = "char \<times> string"

definition field_sig :: "char \<Rightarrow> char" where
  "field_sig code = (if code = CHR 0x01 then CHR ''o'' else CHR ''s'')"

definition encode_field :: "header_field \<Rightarrow> string" where
  "encode_field f =
     (case f of (code, v) \<Rightarrow> [code, CHR 0x01, field_sig code, CHR 0x00] @ le32 (length v) @ v @ [CHR 0x00])"

fun encode_fields :: "header_field list \<Rightarrow> string" where
  "encode_fields [] = []"
| "encode_fields [f] = encode_field f"
| "encode_fields (f # fs) = encode_field f @ padding (length (encode_field f)) @ encode_fields fs"

definition encode_header :: "char \<Rightarrow> nat \<Rightarrow> string" where
  "encode_header ty n = [CHR ''l'', ty, CHR 0x00, CHR 0x01] @ le32 0 @ le32 1 @ le32 n"

definition encode_message :: "char \<Rightarrow> header_field list \<Rightarrow> string" where
  "encode_message ty fs =
     encode_header ty (length (encode_fields fs)) @ encode_fields fs @ padding (length (encode_fields fs))"

definition field_ok :: "header_field \<Rightarrow> bool" where
  "field_ok f \<longleftrightarrow> fst f \<in> {CHR 0x01, CHR 0x02, CHR 0x03, CHR 0x06} \<and> length (snd f) \<le> 255 \<and> utf8_valid (snd f)"

definition message_of :: "char \<Rightarrow> header_field list \<Rightarrow> dbus_message" where
  "message_of ty fs =
     fold (\<lambda>f. set_string_field (fst f) (snd f)) fs
       (dbus_message_default\<lparr>dm_msg_type := Some (message_type_from_code ty)\<rparr>)"

subsection \<open>Numbers\<close>

lemma from_le_bytes_Cons: "from_le_bytes (b # bs) = of_char b + 256 * from_le_bytes bs"
  by (simp add: from_le_bytes_def)

lemma from_le_bytes_Nil: "from_le_bytes [] = 0"
  by (simp add: from_le_bytes_def)

lemma of_char_word: "of_char (char_of (n :: nat)) = (word_of_nat (n mod 256) :: u32)"
  by (metis of_char_of of_nat_of_char)

lemma from_le_bytes_le32:
  assumes "n < 2 ^ 32"
  shows "from_le_bytes (le32 n) = word_of_nat n"
proof -
  have "n div 16777216 mod 256 = n div 16777216" using assms by simp
  moreover have "n div 65536 = n div 256 div 256" "n div 16777216 = n div 256 div 256 div 256"
    by (simp_all add: div_mult2_eq [symmetric])
  then have "n mod 256 + 256 * (n div 256 mod 256 + 256 * (n div 65536 mod 256 + 256 * (n div 16777216))) = n"
    by (simp only: mod_mult_div_eq)
  ultimately have "word_of_nat (n mod 256 + 256 * (n div 256 mod 256 + 256 * (n div 65536 mod 256 + 256 * (n div 16777216 mod 256))))
      = (word_of_nat n :: u32)" by simp
  then show ?thesis
    by (simp add: le32_def from_le_bytes_Cons from_le_bytes_Nil of_char_word)
qed

lemma unat_word_of_nat: "n < 2 ^ 32 \<Longrightarrow> unat (word_of_nat n :: u32) = n"
  by (simp add: unat_of_nat)

lemma length_le32 [simp]: "length (le32 n) = 4"
  by (simp add: le32_def)

lemma read_u32_at:
  assumes "buf = pre @ le32 n @ post" and "length pre = off" and "n < 2 ^ 32" and "off + 4 < 2 ^ 64"
  shows "read_u32 buf off True = Inr (word_of_nat n)"
  using assms from_le_bytes_le32 [OF assms(3)]
  by (simp add: read_u32_def checked_add_def get_range_def)

lemma align_up_aligned:
  assumes "a dvd off" and "0 < a" and "off + a < 2 ^ 64"
  shows "align_up off a = Inr off"
proof -
  obtain k where k: "off = k * a" using assms(1) by (metis dvd_def mult.commute)
  have "(a - 1 + k * a) div a = k" using assms(2) by (subst div_mult_self1) simp_all
  then have "(off + (a - 1)) div a * a = off" by (simp only: k add.commute)
  moreover have "checked_add off (a - 1) = Some (off + (a - 1))"
  proof -
    have "off + (a - 1) < 2 ^ 64" using assms(3) by (rule le_less_trans [rotated]) simp
    then show ?thesis by (simp only: checked_add_def if_True)
  qed
  ultimately show ?thesis by (simp only: align_up_def option.case)
qed

lemma padding_rounds_up: "off + length (padding off) = (off + 7) div 8 * 8"
proof (cases "off mod 8")
  case 0
  then obtain q where "off = 8 * q" by auto
  then show ?thesis by (simp add: padding_def)
next
  case (Suc k)
  have "off = Suc k + off div 8 * 8" using Suc by (metis mod_div_mult_eq)
  then obtain q where q: "off = Suc k + q * 8" by blast
  have k: "Suc k < 8" using Suc by (metis mod_less_divisor zero_less_numeral)
  have "(k + (q + 1) * 8) div 8 = q + 1" using k by (subst div_mult_self1) simp_all
  moreover have "off + 7 = k + (q + 1) * 8" using q by simp
  moreover have "length (padding off) = 8 - Suc k" using Suc k by (simp add: padding_def)
  ultimately show ?thesis using q k by simp
qed

lemma padding_aligns: "8 dvd off + length (padding off)"
  by (simp add: padding_rounds_up)

lemma align_up_padding:
  assumes "off + 8 < 2 ^ 64"
  shows "align_up off 8 = Inr (off + length (padding off))"
proof -
  have "off + (8 - 1) < 2 ^ 64" using assms by (rule le_less_trans [rotated]) simp
  then show ?thesis by (simp add: align_up_def checked_add_def padding_rounds_up)
qed

lemma padding_shift: "8 dvd k \<Longrightarrow> padding (k + n) = padding n"
  by (auto simp: padding_def mod_add_eq elim!: dvdE)

subsection \<open>Strings and fields\<close>

text \<open>A string of the four-byte length type at an aligned offset.\<close>

lemma read_string_at:
  assumes "buf = pre @ le32 (length v) @ v @ CHR 0x00 # post" and "length pre = off" and "4 dvd off"
    and "length v \<le> 255" and "utf8_valid v" and "off + 300 < 2 ^ 64"
  shows "read_string buf off True 4 = Inr (v, off + 5 + length v)"
proof -
  have "align_up off 4 = Inr off" using assms(3,6) by (intro align_up_aligned) simp_all
  moreover have "read_u32 buf off True = Inr (word_of_nat (length v))"
    using assms(4,6) by (intro read_u32_at [OF assms(1,2)]) simp_all
  moreover have "unat (word_of_nat (length v) :: u32) = length v"
    using assms(4) by (intro unat_word_of_nat) simp
  ultimately have "read_string_len buf off True 4 = Inr (length v, off + 4)"
    by (simp add: read_string_len_def)
  moreover have "checked_add (off + 4) (length v) = Some (off + 4 + length v)"
    using assms(4,6) unfolding checked_add_def by auto
  moreover have "get_range buf (off + 4) (off + 4 + length v) = Some v"
    using assms(1,2) by (simp add: get_range_def)
  moreover have "get_byte buf (off + 4 + length v) = Some (CHR 0x00)"
    using assms(1,2) by (simp add: get_byte_def nth_append)
  ultimately show ?thesis
    unfolding read_string_Inr using assms(4,5)
    by (intro exI [of _ "length v"] exI [of _ "off + 4"] exI [of _ "off + 4 + length v"])
       (simp add: MAX_FIELD_STR_def)
qed

lemma read_sig_at:
  assumes "buf = pre @ code # CHR 0x01 # sig # CHR 0x00 # post" and "length pre = off" and "in_bytes 0 127 sig"
    and "off + 300 < 2 ^ 64"
  shows "get_byte buf off = Some code" and "read_string buf (off + 1) True 1 = Inr ([sig], off + 4)"
proof -
  show "get_byte buf off = Some code" using assms(1,2) by (simp add: get_byte_def nth_append)
  have "read_string_len buf (off + 1) True 1 = Inr (1, off + 2)"
    using assms(1,2) by (simp add: read_string_len_def get_byte_def nth_append)
  moreover have "checked_add (off + 2) 1 = Some (off + 3)" using assms(4) unfolding checked_add_def by auto
  moreover have "get_range buf (off + 2) (off + 3) = Some [sig]"
    using assms(1,2) by (simp add: get_range_def)
  moreover have "get_byte buf (off + 3) = Some (CHR 0x00)" using assms(1,2) by (simp add: get_byte_def nth_append)
  ultimately show "read_string buf (off + 1) True 1 = Inr ([sig], off + 4)"
    unfolding read_string_Inr using assms(3)
    by (intro exI [of _ 1] exI [of _ "off + 2"] exI [of _ "off + 3"]) (simp add: MAX_FIELD_STR_def)
qed

lemma length_encode_field: "length (encode_field f) = length (snd f) + 9"
  by (simp add: encode_field_def split: prod.split)

lemma encode_fields_Cons_length: "9 \<le> length (encode_fields (f # fs))"
  by (cases fs) (simp_all add: length_encode_field)

lemma read_field_encoded:
  assumes "buf = pre @ encode_field f @ post" and "length pre = off" and "8 dvd off" and "field_ok f"
    and "off + 400 < 2 ^ 64"
  shows "read_field buf off True out = Inr (off + length (encode_field f), set_string_field (fst f) (snd f) out)"
proof -
  obtain code v where f: "f = (code, v)" by fastforce
  have ok: "code \<in> {CHR 0x01, CHR 0x02, CHR 0x03, CHR 0x06}" "length v \<le> 255" "utf8_valid v"
    using assms(4) by (auto simp: f field_ok_def)
  have buf: "buf = pre @ code # CHR 0x01 # field_sig code # CHR 0x00 # le32 (length v) @ v @ CHR 0x00 # post"
    using assms(1) by (simp add: f encode_field_def)
  have sig: "in_bytes 0 127 (field_sig code)" by (simp add: field_sig_def in_bytes_def)
  have rd: "get_byte buf off = Some code" "read_string buf (off + 1) True 1 = Inr ([field_sig code], off + 4)"
    using read_sig_at [OF buf assms(2) sig] assms(5) by auto
  have "read_string buf (off + 4) True 4 = Inr (v, off + 4 + 5 + length v)"
  proof (rule read_string_at)
    show "buf = (pre @ [code, CHR 0x01, field_sig code, CHR 0x00]) @ le32 (length v) @ v @ CHR 0x00 # post"
      using buf by simp
    show "4 dvd off + 4" using assms(3) by presburger
  qed (use ok assms(2,5) in simp_all)
  with rd ok(1) show ?thesis by (auto simp: read_field_def field_sig_def f encode_field_def)
qed

subsection \<open>The header array\<close>

lemma read_header_fields_encoded:
  "buf = pre @ encode_fields fs @ post \<Longrightarrow> length pre = off \<Longrightarrow> 8 dvd off \<Longrightarrow> list_all field_ok fs \<Longrightarrow>
   seen + length fs \<le> MAX_HEADER_FIELDS \<Longrightarrow> off + length (encode_fields fs) + 400 < 2 ^ 64 \<Longrightarrow>
   read_header_fields buf off (off + length (encode_fields fs)) True seen out =
     Inr (fold (\<lambda>f. set_string_field (fst f) (snd f)) fs out)"
proof (induction fs arbitrary: pre off seen out rule: encode_fields.induct)
  case 1
  then show ?case by (simp add: read_header_fields.simps)
next
  case (2 f)
  have rf: "read_field buf off True out = Inr (off + length (encode_field f), set_string_field (fst f) (snd f) out)"
    using 2 by (intro read_field_encoded [of buf pre f post]) simp_all
  have al: "align_up off 8 = Inr off" using 2 by (intro align_up_aligned) simp_all
  show ?case
    unfolding read_header_fields_Inr [of buf off]
    using 2 rf al by (simp add: length_encode_field) (simp add: read_header_fields.simps)
next
  case (3 f g fs)
  let ?n = "off + length (encode_field f)" and ?pad = "padding (length (encode_field f))"
  let ?rest = "encode_fields (g # fs)" and ?out = "set_string_field (fst f) (snd f) out"
  let ?fin = "off + length (encode_fields (f # g # fs))"
  have rf: "read_field buf off True out = Inr (?n, ?out)"
    using "3.prems" by (intro read_field_encoded [of buf pre f "?pad @ ?rest @ post"]) simp_all
  have al: "align_up off 8 = Inr off" using "3.prems" by (intro align_up_aligned) simp_all
  have pad: "padding ?n = ?pad" using "3.prems"(3) by (rule padding_shift)
  have d: "8 dvd ?n + length ?pad" using padding_aligns [of ?n] unfolding pad .
  have rec: "read_header_fields buf (?n + length ?pad) (?n + length ?pad + length ?rest) True (seen + 1) ?out =
      Inr (fold (\<lambda>f. set_string_field (fst f) (snd f)) (g # fs) ?out)"
    using "3.prems" d by (intro "3.IH" [of "pre @ encode_field f @ ?pad"]) simp_all
  have skip: "read_header_fields buf ?n ?fin True (seen + 1) ?out =
      read_header_fields buf (?n + length ?pad) ?fin True (seen + 1) ?out"
  proof -
    have "align_up ?n 8 = Inr (?n + length ?pad)"
      using align_up_padding [of ?n] "3.prems"(6) unfolding pad by (simp add: length_encode_field)
    moreover have "align_up (?n + length ?pad) 8 = Inr (?n + length ?pad)"
      using "3.prems"(6) by (intro align_up_aligned [OF d]) (simp_all add: length_encode_field)
    moreover have "?n + length ?pad < ?fin" using encode_fields_Cons_length [of g fs] by auto
    ultimately show ?thesis
      by (subst (1 2) read_header_fields.simps) simp
  qed
  show ?case
    unfolding read_header_fields_Inr [of buf off]
    using "3.prems" rf al rec skip by (simp add: length_encode_field add.assoc)
qed

subsection \<open>The round trip\<close>

lemma length_padding: "length (padding n) \<le> 7"
proof -
  have "(8 - n mod 8) mod 8 < (8 :: nat)" by simp
  then show ?thesis by (simp add: padding_def)
qed

lemma encode_fields_length: "list_all field_ok fs \<Longrightarrow> length (encode_fields fs) \<le> 271 * length fs"
proof (induction fs rule: encode_fields.induct)
  case (3 f g fs)
  then show ?case using length_padding [of "length (encode_field f)"] by (simp add: length_encode_field field_ok_def)
qed (simp_all add: length_encode_field field_ok_def)

lemma read_message_encoded:
  assumes "list_all field_ok fs" and "length fs \<le> 64"
  shows "read_message (encode_message ty fs) = Inr (Some (message_of ty fs, length (encode_message ty fs)))"
proof -
  let ?F = "encode_fields fs" and ?buf = "encode_message ty fs"
  let ?pad = "padding (length ?F)"
  have F: "length ?F \<le> 17344" using encode_fields_length [OF assms(1)] assms(2) by simp
  have hdr: "length (encode_header ty (length ?F)) = 16" by (simp add: encode_header_def)
  have len: "length ?buf = 16 + length ?F + length ?pad" by (simp add: encode_message_def hdr)
  have nth: "?buf ! 0 = CHR ''l''" "?buf ! 1 = ty" "?buf ! 3 = CHR 0x01"
    by (simp_all add: encode_message_def encode_header_def)
  have u4: "read_u32 ?buf 4 True = Inr 0"
    using read_u32_at [of ?buf "[CHR ''l'', ty, CHR 0x00, CHR 0x01]" 0 "le32 1 @ le32 (length ?F) @ ?F @ ?pad" 4]
    by (simp add: encode_message_def encode_header_def)
  have u12: "read_u32 ?buf 12 True = Inr (word_of_nat (length ?F))"
    using F by (intro read_u32_at [of ?buf "[CHR ''l'', ty, CHR 0x00, CHR 0x01] @ le32 0 @ le32 1" _ "?F @ ?pad"])
      (simp_all add: encode_message_def encode_header_def)
  have un: "unat (word_of_nat (length ?F) :: u32) = length ?F" using F by (intro unat_word_of_nat) simp
  have fin: "checked_add FIXED_HEADER_LEN (length ?F) = Some (16 + length ?F)"
    using F by (simp add: checked_add_def FIXED_HEADER_LEN_def)
  have "padding (16 + length ?F) = ?pad" by (rule padding_shift) simp
  then have al: "align_up (16 + length ?F) 8 = Inr (length ?buf)"
    using align_up_padding [of "16 + length ?F"] F by (simp add: len)
  have fields: "read_header_fields ?buf 16 (16 + length ?F) True 0 out =
      Inr (fold (\<lambda>f. set_string_field (fst f) (snd f)) fs out)" for out
    by (rule read_header_fields_encoded [of _ "encode_header ty (length ?F)" fs ?pad])
       (use assms F hdr in \<open>simp_all add: encode_message_def MAX_HEADER_FIELDS_def\<close>)
  have "checked_add (length ?buf) 0 = Some (length ?buf)"
    using F length_padding [of "length ?F"] by (simp add: checked_add_def len)
  then have "read_sized ?buf True 0 (16 + length ?F) = Inr (Some (message_of ty fs, length ?buf))"
    unfolding read_sized_Some
    using al fields F length_padding [of "length ?F"] nth(2)
    by (auto simp: FIXED_HEADER_LEN_def MAX_MESSAGE_LEN_def len decode_body_first_def message_of_def)
  then show ?thesis
    unfolding read_message_Some using nth u4 u12 un fin
    by (auto simp: FIXED_HEADER_LEN_def len endianness_def)
qed


definition hello_fields :: "header_field list" where
  "hello_fields = [(CHR 0x01, ''/org/freedesktop/DBus''), (CHR 0x06, ''org.freedesktop.DBus''),
     (CHR 0x02, ''org.freedesktop.DBus''), (CHR 0x03, ''Hello'')]"

lemma hello_ok: "list_all field_ok hello_fields" "length hello_fields \<le> 64"
  by (simp_all add: hello_fields_def field_ok_def in_bytes_def)


end
