(* ===== verification/Dbus_Channel.thy ===== *)
theory Dbus_Channel
  imports Dbus_Policy Dbus_Encoding
begin

section \<open>Inspected D-Bus connections\<close>

text \<open>
  \<open>crates/grith-supervisor/src/dbus/channel.rs\<close>: the stream state of one connection (handshake
  phase, partial message, poison) and the tracker of all connections by process and descriptor. A
  write is judged at the entry of the system call (\<open>peek\<close>) and committed at its exit with the
  number of bytes the kernel took. The hash map of the tracker is an association list.
\<close>

record bus_channel =
  bc_address :: string
  bc_phase :: wire_phase
  bc_buffer :: string
  bc_poison :: "string option"

definition MAX_BUFFER :: nat where
  "MAX_BUFFER = MAX_MESSAGE_LEN"

definition bus_channel_new :: "string \<Rightarrow> bus_channel" where
  "bus_channel_new address = \<lparr> bc_address = address, bc_phase = Auth, bc_buffer = [], bc_poison = None \<rparr>"

definition channel_poison :: "string \<Rightarrow> bus_channel \<Rightarrow> bus_channel" where
  "channel_poison tag c =
     c\<lparr>bc_buffer := [], bc_poison := (case bc_poison c of None \<Rightarrow> Some tag | Some t \<Rightarrow> Some t)\<rparr>"

definition channel_peek :: "string \<Rightarrow> bus_channel \<Rightarrow> (string + dbus_message list) \<times> bus_channel" where
  "channel_peek bytes c =
     (case bc_poison c of
        Some tag \<Rightarrow> (Inl tag, c)
      | None \<Rightarrow>
          if length (bc_buffer c) + length bytes > MAX_BUFFER
          then (Inl ''buffer-bound-exceeded'', channel_poison ''buffer-bound-exceeded'' c)
          else (case decode (bc_buffer c @ bytes) (bc_phase c) of
              Inr d \<Rightarrow> (Inr (dc_messages d), c)
            | Inl e \<Rightarrow> (Inl (wire_error_tag e), channel_poison (wire_error_tag e) c)))"

definition channel_commit :: "string \<Rightarrow> nat \<Rightarrow> bus_channel \<Rightarrow> bus_channel" where
  "channel_commit bytes accepted c =
     (if bc_poison c \<noteq> None then c
      else if accepted > length bytes then channel_poison ''write-exceeded-inspected-payload'' c
      else
        (let buf = bc_buffer c @ take accepted bytes
         in case decode buf (bc_phase c) of
              Inr d \<Rightarrow> c\<lparr>bc_phase := dc_phase d, bc_buffer := drop (dc_consumed d) buf\<rparr>
            | Inl e \<Rightarrow> channel_poison (wire_error_tag e) (c\<lparr>bc_buffer := buf\<rparr>)))"

subsection \<open>The tracker\<close>

datatype bus_feed = NotTracked | FeedMessages "dbus_message list" | Poisoned string

type_synonym bus_tracker = "((u32 \<times> int) \<times> bus_channel) list"

definition bus_tracker_new :: bus_tracker where
  "bus_tracker_new = []"

definition bus_register :: "u32 \<Rightarrow> int \<Rightarrow> string \<Rightarrow> bus_tracker \<Rightarrow> bus_tracker" where
  "bus_register tgid fd address t = assoc_insert (tgid, fd) (bus_channel_new address) t"

definition bus_is_tracked :: "u32 \<Rightarrow> int \<Rightarrow> bus_tracker \<Rightarrow> bool" where
  "bus_is_tracked tgid fd t \<longleftrightarrow> map_of t (tgid, fd) \<noteq> None"

definition bus_address :: "u32 \<Rightarrow> int \<Rightarrow> bus_tracker \<Rightarrow> string option" where
  "bus_address tgid fd t = map_option bc_address (map_of t (tgid, fd))"

definition bus_poison_tag_for :: "u32 \<Rightarrow> int \<Rightarrow> bus_tracker \<Rightarrow> string option" where
  "bus_poison_tag_for tgid fd t = Option.bind (map_of t (tgid, fd)) bc_poison"

definition bus_is_poisoned :: "u32 \<Rightarrow> int \<Rightarrow> bus_tracker \<Rightarrow> bool" where
  "bus_is_poisoned tgid fd t \<longleftrightarrow> bus_poison_tag_for tgid fd t \<noteq> None"

definition bus_alias :: "u32 \<Rightarrow> int \<Rightarrow> int \<Rightarrow> bus_tracker \<Rightarrow> bus_tracker" where
  "bus_alias tgid old_fd new_fd t =
     (case bus_address tgid old_fd t of
        None \<Rightarrow> t
      | Some address \<Rightarrow>
          assoc_insert (tgid, new_fd) (channel_poison ''duplicated-descriptor'' (bus_channel_new address)) t)"

definition bus_peek :: "u32 \<Rightarrow> int \<Rightarrow> string \<Rightarrow> bus_tracker \<Rightarrow> bus_feed \<times> bus_tracker" where
  "bus_peek tgid fd bytes t =
     (case map_of t (tgid, fd) of
        None \<Rightarrow> (NotTracked, t)
      | Some c \<Rightarrow>
          (case channel_peek bytes c of
             (Inr ms, c') \<Rightarrow> (FeedMessages ms, assoc_insert (tgid, fd) c' t)
           | (Inl tag, c') \<Rightarrow> (Poisoned tag, assoc_insert (tgid, fd) c' t)))"

definition bus_commit :: "u32 \<Rightarrow> int \<Rightarrow> string \<Rightarrow> nat \<Rightarrow> bus_tracker \<Rightarrow> bus_tracker" where
  "bus_commit tgid fd bytes accepted t =
     (case map_of t (tgid, fd) of
        None \<Rightarrow> t
      | Some c \<Rightarrow> assoc_insert (tgid, fd) (channel_commit bytes accepted c) t)"

definition bus_poison :: "u32 \<Rightarrow> int \<Rightarrow> string \<Rightarrow> bus_tracker \<Rightarrow> bus_tracker" where
  "bus_poison tgid fd tag t =
     (case map_of t (tgid, fd) of
        None \<Rightarrow> t
      | Some c \<Rightarrow> assoc_insert (tgid, fd) (channel_poison tag c) t)"

definition bus_close :: "u32 \<Rightarrow> int \<Rightarrow> bus_tracker \<Rightarrow> bus_tracker" where
  "bus_close tgid fd t = assoc_remove (tgid, fd) t"

definition bus_close_range :: "u32 \<Rightarrow> u32 \<Rightarrow> u32 \<Rightarrow> bus_tracker \<Rightarrow> bus_tracker" where
  "bus_close_range tgid fst_fd lst_fd t =
     filter (\<lambda>p. fst (fst p) \<noteq> tgid \<or> snd (fst p) < 0 \<or> snd (fst p) < uint fst_fd \<or> snd (fst p) > uint lst_fd) t"

definition bus_remove_process :: "u32 \<Rightarrow> bus_tracker \<Rightarrow> bus_tracker" where
  "bus_remove_process tgid t = filter (\<lambda>p. fst (fst p) \<noteq> tgid) t"

definition bus_retain_and_poison :: "u32 \<Rightarrow> int list \<Rightarrow> bus_tracker \<Rightarrow> int list \<times> bus_tracker" where
  "bus_retain_and_poison tgid live_fds t =
     (map (snd \<circ> fst) (filter (\<lambda>p. fst (fst p) = tgid \<and> snd (fst p) \<in> set live_fds) t),
      map (\<lambda>p. if fst (fst p) = tgid then (fst p, channel_poison ''survived-exec'' (snd p)) else p)
        (filter (\<lambda>p. fst (fst p) \<noteq> tgid \<or> snd (fst p) \<in> set live_fds) t))"

definition bus_inherit_process :: "u32 \<Rightarrow> u32 \<Rightarrow> bus_tracker \<Rightarrow> int list \<times> bus_tracker" where
  "bus_inherit_process parent child t =
     (let inherited = map (\<lambda>p. (snd (fst p), bc_address (snd p))) (filter (\<lambda>p. fst (fst p) = parent) t)
      in (map fst inherited,
          fold (\<lambda>(fd, address). assoc_insert (child, fd) (channel_poison ''forked-connection'' (bus_channel_new address)))
            inherited t))"

definition bus_tracked_fds :: "u32 \<Rightarrow> bus_tracker \<Rightarrow> int list" where
  "bus_tracked_fds tgid t = map (snd \<circ> fst) (filter (\<lambda>p. fst (fst p) = tgid) t)"

subsection \<open>The decoder follows the stream\<close>

text \<open>
  One write: judged at entry, committed at exit with the accepted number of bytes. \<open>writes\<close> gives
  the messages that were put to the policy and the channel at the end; \<open>accepted_stream\<close> is what
  went over the socket.
\<close>

definition write_step :: "string \<Rightarrow> nat \<Rightarrow> bus_channel \<Rightarrow> dbus_message list \<times> bus_channel" where
  "write_step bytes accepted c =
     (case channel_peek bytes c of
        (r, c1) \<Rightarrow> ((case r of Inr ms \<Rightarrow> ms | Inl _ \<Rightarrow> []), channel_commit bytes accepted c1))"

fun writes :: "(string \<times> nat) list \<Rightarrow> bus_channel \<Rightarrow> dbus_message list \<times> bus_channel" where
  "writes [] c = ([], c)"
| "writes ((bytes, accepted) # ws) c =
     (case write_step bytes accepted c of
        (js, c1) \<Rightarrow> (case writes ws c1 of (js', c2) \<Rightarrow> (js @ js', c2)))"

definition accepted_stream :: "(string \<times> nat) list \<Rightarrow> string" where
  "accepted_stream ws = concat (map (\<lambda>(bytes, accepted). take accepted bytes) ws)"

text \<open>The channel stands where the stream stands, after the messages \<open>sent\<close>.\<close>

definition follows :: "string \<Rightarrow> dbus_message list \<Rightarrow> bus_channel \<Rightarrow> bool" where
  "follows stream sent c \<longleftrightarrow>
     (case bc_phase c of
        Auth \<Rightarrow> bc_buffer c = stream \<and> begin_from 0 stream = None \<and> sent = []
      | Messages \<Rightarrow> (\<exists>e. begin_from 0 stream = Some e \<and> framed read_message (drop e stream) sent (bc_buffer c)) \<and>
          read_message (bc_buffer c) = Inr None)"

lemma decode_prefix:
  assumes "decode buf ph = Inr d" and "decode (buf @ ext) ph = Inr d'"
  shows "prefix (dc_messages d) (dc_messages d')"
  using assms(1)
proof (cases rule: decode_cases)
  case (messages off)
  note off = messages(1,2,3)
  from decode_loop_framed [OF messages(4,3)]
  have fr: "framed read_message (drop off buf) (dc_messages d) (drop (dc_consumed d) buf)" by auto
  from assms(2) show ?thesis
  proof (cases rule: decode_cases)
    case handshake
    then show ?thesis using begin_from_append [of 0 buf off ext] off(1) by auto
  next
    case (messages off')
    then have "off' = off" using begin_from_append [of 0 buf off ext] off by (cases ph) auto
    with decode_loop_framed [OF messages(4,3)] off(3)
    have "framed read_message (drop off buf @ ext) (dc_messages d') (drop (dc_consumed d') (buf @ ext))"
      "read_message (drop (dc_consumed d') (buf @ ext)) = Inr None" by auto
    from framed_maximal [OF this bus.framed_extend [OF fr]] show ?thesis .
  qed
qed simp

lemma follows_commit:
  assumes "follows stream sent c" and "decode (bc_buffer c @ ext) (bc_phase c) = Inr d"
  shows "follows (stream @ ext) (sent @ dc_messages d)
    (c\<lparr>bc_phase := dc_phase d, bc_buffer := drop (dc_consumed d) (bc_buffer c @ ext)\<rparr>)"
  using assms(2)
proof (cases rule: decode_cases)
  case handshake
  with assms(1) show ?thesis by (simp add: follows_def)
next
  case (messages off)
  from decode_loop_framed [OF messages(4,3)]
  have fr: "framed read_message (drop off (bc_buffer c @ ext)) (dc_messages d) (drop (dc_consumed d) (bc_buffer c @ ext))"
    "read_message (drop (dc_consumed d) (bc_buffer c @ ext)) = Inr None" by auto
  show ?thesis
  proof (cases "bc_phase c")
    case Auth
    with assms(1) messages fr show ?thesis by (auto simp: follows_def)
  next
    case Messages
    with assms(1) obtain e where e: "begin_from 0 stream = Some e"
        "framed read_message (drop e stream) sent (bc_buffer c)" by (auto simp: follows_def)
    have "framed read_message (drop e stream @ ext) (sent @ dc_messages d) (drop (dc_consumed d) (bc_buffer c @ ext))"
      using bus.framed_feed [OF e(2)] fr(1) messages(2) Messages by simp
    moreover have "drop e stream @ ext = drop e (stream @ ext)" using begin_from_range [OF e(1)] by simp
    ultimately show ?thesis
      using fr(2) messages(5) begin_from_append [OF e(1), of ext] by (simp add: follows_def)
  qed
qed

lemma bc_poison_channel_poison [simp]:
  "bc_poison (channel_poison tag c) = Some (case bc_poison c of None \<Rightarrow> tag | Some t \<Rightarrow> t)"
  by (simp add: channel_poison_def split: option.splits)

lemma channel_commit_poisoned [simp]: "bc_poison c = Some t \<Longrightarrow> channel_commit bytes accepted c = c"
  by (simp add: channel_commit_def)

lemma write_step_poisoned: "bc_poison c = Some t \<Longrightarrow> write_step bytes accepted c = ([], c)"
  by (simp add: write_step_def channel_peek_def)

lemma writes_poisoned: "bc_poison c = Some t \<Longrightarrow> writes ws c = ([], c)"
  by (induction ws) (auto simp: write_step_poisoned)

lemma write_step_follows:
  assumes "write_step bytes accepted c = (js, c')" and "bc_poison c' = None" and "follows stream sent c"
  shows "\<exists>new. follows (stream @ take accepted bytes) (sent @ new) c' \<and> set new \<subseteq> set js"
proof -
  have none: "bc_poison c = None"
    using assms(1,2) write_step_poisoned [of c] by (cases "bc_poison c") auto
  have fits: "\<not> length (bc_buffer c) + length bytes > MAX_BUFFER"
    using assms(1,2) none by (auto simp: write_step_def channel_peek_def)
  obtain d' where d': "decode (bc_buffer c @ bytes) (bc_phase c) = Inr d'"
    using assms(1,2) none fits
    by (cases "decode (bc_buffer c @ bytes) (bc_phase c)")
       (auto simp: write_step_def channel_peek_def)
  then have js: "js = dc_messages d'" and c': "c' = channel_commit bytes accepted c"
    using assms(1) none fits by (auto simp: write_step_def channel_peek_def)
  have le: "accepted \<le> length bytes"
    using assms(2) none unfolding c' by (auto simp: channel_commit_def Let_def split: if_splits)
  obtain d where d: "decode (bc_buffer c @ take accepted bytes) (bc_phase c) = Inr d"
    using assms(2) none le unfolding c'
    by (cases "decode (bc_buffer c @ take accepted bytes) (bc_phase c)") (auto simp: channel_commit_def Let_def)
  have "c' = c\<lparr>bc_phase := dc_phase d, bc_buffer := drop (dc_consumed d) (bc_buffer c @ take accepted bytes)\<rparr>"
    using none le d unfolding c' by (simp add: channel_commit_def Let_def)
  moreover have "decode ((bc_buffer c @ take accepted bytes) @ drop accepted bytes) (bc_phase c) = Inr d'"
    using d' by simp
  then have "prefix (dc_messages d) js" unfolding js by (rule decode_prefix [OF d])
  ultimately show ?thesis
    using follows_commit [OF assms(3) d] set_mono_prefix by metis
qed

lemma writes_follows:
  "writes ws c = (js, c') \<Longrightarrow> bc_poison c' = None \<Longrightarrow> follows stream sent c \<Longrightarrow>
   \<exists>new. follows (stream @ accepted_stream ws) (sent @ new) c' \<and> set new \<subseteq> set js"
proof (induction ws arbitrary: c js stream sent)
  case (Cons w ws)
  obtain bytes accepted where w: "w = (bytes, accepted)" by fastforce
  obtain js1 c1 where s1: "write_step bytes accepted c = (js1, c1)" by fastforce
  obtain js2 where s2: "writes ws c1 = (js2, c')" "js = js1 @ js2"
    using Cons.prems(1) by (auto simp: w s1 split: prod.splits)
  have "bc_poison c1 = None"
    using s2(1) Cons.prems(2) writes_poisoned [of c1] by (cases "bc_poison c1") auto
  then obtain n1 where n1: "follows (stream @ take accepted bytes) (sent @ n1) c1" "set n1 \<subseteq> set js1"
    using write_step_follows [OF s1 _ Cons.prems(3)] by blast
  from Cons.IH [OF s2(1) Cons.prems(2) n1(1)] obtain n2
    where "follows ((stream @ take accepted bytes) @ accepted_stream ws) ((sent @ n1) @ n2) c'" "set n2 \<subseteq> set js2"
    by blast
  with n1(2) s2(2) show ?case
    by (intro exI [of _ "n1 @ n2"]) (auto simp: w accepted_stream_def)
qed (auto simp: accepted_stream_def)

lemma follows_new: "follows [] [] (bus_channel_new address)"
  by (simp add: follows_def bus_channel_new_def begin_from.simps)


text \<open>
  Inspection does not depend on how the stream is cut: two channels that accepted the same
  bytes in different writes, and are both still decodable, are in the same phase and hold the
  same partial message.
\<close>

theorem inspection_independent_of_chunking:
  assumes "accepted_stream ws = accepted_stream ws'"
    and "bc_poison (snd (writes ws (bus_channel_new address))) = None"
    and "bc_poison (snd (writes ws' (bus_channel_new address))) = None"
  shows "bc_phase (snd (writes ws (bus_channel_new address))) = bc_phase (snd (writes ws' (bus_channel_new address))) \<and>
    bc_buffer (snd (writes ws (bus_channel_new address))) = bc_buffer (snd (writes ws' (bus_channel_new address)))"
proof -
  let ?c = "snd (writes ws (bus_channel_new address))" and ?c' = "snd (writes ws' (bus_channel_new address))"
  obtain n where n: "follows (accepted_stream ws) n ?c"
    using writes_follows [OF prod.collapse [symmetric] assms(2) follows_new] by auto
  obtain n' where n': "follows (accepted_stream ws) n' ?c'"
    using writes_follows [OF prod.collapse [symmetric] assms(3) follows_new] assms(1) by auto
  show ?thesis
  proof (cases "begin_from 0 (accepted_stream ws)")
    case (Some e)
    with n n' have h: "framed read_message (drop e (accepted_stream ws)) n (bc_buffer ?c)"
        "framed read_message (drop e (accepted_stream ws)) n' (bc_buffer ?c')"
        "read_message (bc_buffer ?c) = Inr None" "read_message (bc_buffer ?c') = Inr None"
        "bc_phase ?c = Messages" "bc_phase ?c' = Messages"
      by (auto simp: follows_def split: wire_phase.splits)
    from framed_agree [OF h(1,2)] h(3,4) have "bc_buffer ?c = bc_buffer ?c'"
      by (auto elim: framed.cases)
    with h show ?thesis by simp
  qed (use n n' in \<open>auto simp: follows_def split: wire_phase.splits\<close>)
qed

subsection \<open>Duplicated, forked and inherited descriptors\<close>

datatype bus_op =
    BusRegister u32 int string
  | BusAlias u32 int int
  | BusPeek u32 int string
  | BusCommit u32 int string nat
  | BusPoison u32 int string
  | BusClose u32 int
  | BusCloseRange u32 u32 u32
  | BusExit u32
  | BusExec u32 "int list"
  | BusFork u32 u32

fun bus_step :: "bus_op \<Rightarrow> bus_tracker \<Rightarrow> bus_tracker" where
  "bus_step (BusRegister tgid fd address) t = bus_register tgid fd address t"
| "bus_step (BusAlias tgid old_fd new_fd) t = bus_alias tgid old_fd new_fd t"
| "bus_step (BusPeek tgid fd bytes) t = snd (bus_peek tgid fd bytes t)"
| "bus_step (BusCommit tgid fd bytes n) t = bus_commit tgid fd bytes n t"
| "bus_step (BusPoison tgid fd tag) t = bus_poison tgid fd tag t"
| "bus_step (BusClose tgid fd) t = bus_close tgid fd t"
| "bus_step (BusCloseRange tgid a b) t = bus_close_range tgid a b t"
| "bus_step (BusExit tgid) t = bus_remove_process tgid t"
| "bus_step (BusExec tgid live) t = snd (bus_retain_and_poison tgid live t)"
| "bus_step (BusFork parent child) t = snd (bus_inherit_process parent child t)"

text \<open>The operations that end the connection behind a descriptor, or start another one on it.\<close>

fun releases :: "u32 \<Rightarrow> int \<Rightarrow> bus_op \<Rightarrow> bool" where
  "releases tgid fd (BusRegister t f a) \<longleftrightarrow> t = tgid \<and> f = fd"
| "releases tgid fd (BusClose t f) \<longleftrightarrow> t = tgid \<and> f = fd"
| "releases tgid fd (BusCloseRange t a b) \<longleftrightarrow> t = tgid \<and> uint a \<le> fd \<and> fd \<le> uint b"
| "releases tgid fd (BusExit t) \<longleftrightarrow> t = tgid"
| "releases tgid fd (BusExec t live) \<longleftrightarrow> t = tgid \<and> fd \<notin> set live"
| "releases tgid fd _ \<longleftrightarrow> False"

lemma bus_is_poisoned_iff:
  "bus_is_poisoned tgid fd t \<longleftrightarrow> (\<exists>c tag. map_of t (tgid, fd) = Some c \<and> bc_poison c = Some tag)"
  by (auto simp: bus_is_poisoned_def bus_poison_tag_for_def bind_eq_Some_conv)

lemma channel_peek_poisoned: "bc_poison c = Some tag \<Longrightarrow> channel_peek bytes c = (Inl tag, c)"
  by (simp add: channel_peek_def)

lemma map_of_close_range:
  "map_of (bus_close_range tgid a b t) (tg, fd) =
     (if tg = tgid \<and> uint a \<le> fd \<and> fd \<le> uint b then None else map_of t (tg, fd))"
  unfolding bus_close_range_def by (induction t) (auto dest: order_trans [OF uint_nonnegative])

lemma map_of_retain:
  "map_of (snd (bus_retain_and_poison tgid live t)) (tg, fd) =
     (if tg = tgid then if fd \<in> set live then map_option (channel_poison ''survived-exec'') (map_of t (tg, fd)) else None
      else map_of t (tg, fd))"
  unfolding bus_retain_and_poison_def by (induction t) auto

lemma map_of_inherit_fold:
  "map_of (fold (\<lambda>(fd, address). assoc_insert (child, fd) (channel_poison tag (bus_channel_new address))) xs t) (tg, fd) =
     (if tg = child then case map_of (rev xs) fd of
          Some address \<Rightarrow> Some (channel_poison tag (bus_channel_new address)) | None \<Rightarrow> map_of t (tg, fd)
      else map_of t (tg, fd))"
  by (induction xs arbitrary: t) (auto simp: map_add_def split: option.splits)

lemma map_of_inherit:
  "map_of (snd (bus_inherit_process parent child t)) (tg, fd) =
     (if tg = child then
        case map_of (rev (map (\<lambda>p. (snd (fst p), bc_address (snd p))) (filter (\<lambda>p. fst (fst p) = parent) t))) fd of
          Some address \<Rightarrow> Some (channel_poison ''forked-connection'' (bus_channel_new address))
        | None \<Rightarrow> map_of t (tg, fd)
      else map_of t (tg, fd))"
  by (simp add: bus_inherit_process_def Let_def map_of_inherit_fold)

lemma bus_step_poisoned:
  assumes "bus_is_poisoned tgid fd t" and "\<not> releases tgid fd op"
  shows "bus_is_poisoned tgid fd (bus_step op t)"
proof -
  obtain c tag where c: "map_of t (tgid, fd) = Some c" "bc_poison c = Some tag"
    using assms(1) by (auto simp: bus_is_poisoned_iff)
  show ?thesis
  proof (cases op)
    case (BusAlias t' a b)
    with c show ?thesis
      by (auto simp: bus_is_poisoned_iff bus_alias_def bus_channel_new_def split: option.splits)
  next
    case (BusPeek t' f bytes)
    with c show ?thesis
      by (auto simp: bus_is_poisoned_iff bus_peek_def channel_peek_poisoned split: option.splits prod.splits sum.splits)
  next
    case (BusCloseRange t' a b)
    with c assms(2) show ?thesis
      by (auto simp: bus_is_poisoned_iff map_of_close_range)
  next
    case (BusExit t')
    with c assms(2) show ?thesis
      by (auto simp: bus_is_poisoned_iff bus_remove_process_def map_of_filter_fst [of "\<lambda>k. fst k \<noteq> t'"])
  next
    case (BusExec t' live)
    with c assms(2) show ?thesis by (auto simp: bus_is_poisoned_iff map_of_retain)
  next
    case (BusFork p ch)
    with c show ?thesis
      by (auto simp: bus_is_poisoned_iff map_of_inherit bus_channel_new_def split: option.splits)
  qed (use c assms(2) in \<open>auto simp: bus_is_poisoned_iff bus_register_def bus_commit_def bus_poison_def bus_close_def
        split: option.splits\<close>)
qed

text \<open>
  An undecodable connection escalates for good: once a descriptor is poisoned, no sequence of
  operations other than closing it, ending its process or connecting anew makes it decodable
  again; every write through it is reported as poisoned.
\<close>

theorem poisoned_connection_stays:
  assumes "bus_is_poisoned tgid fd t" and "\<forall>op \<in> set ops. \<not> releases tgid fd op"
  shows "\<exists>tag. fst (bus_peek tgid fd bytes (fold bus_step ops t)) = Poisoned tag"
proof -
  have "bus_is_poisoned tgid fd (fold bus_step ops t)"
    using assms by (induction ops arbitrary: t) (auto intro: bus_step_poisoned)
  then show ?thesis
    by (auto simp: bus_is_poisoned_iff bus_peek_def channel_peek_poisoned)
qed

theorem poisoned_connection_stays_witness:
  "\<exists>tag. fst (bus_peek 1 4 ''x'' (fold bus_step [BusCommit 1 4 ''x'' 1, BusFork 1 2, BusClose 1 3]
     (bus_alias 1 3 4 (bus_register 1 3 ''bus'' [])))) = Poisoned tag"
proof (rule poisoned_connection_stays)
  show "bus_is_poisoned 1 4 (bus_alias 1 3 4 (bus_register 1 3 ''bus'' []))"
    by (simp add: bus_is_poisoned_iff bus_alias_def bus_register_def bus_address_def bus_channel_new_def)
qed simp

text \<open>
  A connection is never inherited unseen: after a fork every connection of the parent is
  tracked for the child and poisoned there, after \<open>execve\<close> exactly the connections whose descriptor
  survived are kept, poisoned, and a duplicated descriptor is poisoned from the start. In each
  case the descriptors reported to the caller are the ones concerned.
\<close>

theorem inherited_connections_poisoned:
  "(bus_is_tracked parent fd t \<longrightarrow> bus_is_poisoned child fd (snd (bus_inherit_process parent child t)) \<and>
      fd \<in> set (fst (bus_inherit_process parent child t))) \<and>
   (bus_is_tracked tgid fd (snd (bus_retain_and_poison tgid live t)) \<longleftrightarrow> bus_is_tracked tgid fd t \<and> fd \<in> set live) \<and>
   (bus_is_tracked tgid fd t \<and> fd \<in> set live \<longrightarrow> bus_is_poisoned tgid fd (snd (bus_retain_and_poison tgid live t)) \<and>
      fd \<in> set (fst (bus_retain_and_poison tgid live t))) \<and>
   (bus_is_tracked tgid fd t \<longrightarrow> bus_is_poisoned tgid fd' (bus_alias tgid fd fd' t))"
proof (intro conjI impI)
  assume "bus_is_tracked parent fd t"
  then obtain c where c: "((parent, fd), c) \<in> set t" by (auto simp: bus_is_tracked_def dest: map_of_SomeD)
  then show "fd \<in> set (fst (bus_inherit_process parent child t))"
    by (force simp: bus_inherit_process_def Let_def)
  from c have "(fd, bc_address c) \<in> set (rev (map (\<lambda>p. (snd (fst p), bc_address (snd p))) (filter (\<lambda>p. fst (fst p) = parent) t)))"
    by force
  then obtain a where "map_of (rev (map (\<lambda>p. (snd (fst p), bc_address (snd p))) (filter (\<lambda>p. fst (fst p) = parent) t))) fd = Some a"
    using weak_map_of_SomeI by fastforce
  then show "bus_is_poisoned child fd (snd (bus_inherit_process parent child t))"
    by (simp add: bus_is_poisoned_iff map_of_inherit bus_channel_new_def)
next
  show "bus_is_tracked tgid fd (snd (bus_retain_and_poison tgid live t)) \<longleftrightarrow> bus_is_tracked tgid fd t \<and> fd \<in> set live"
    by (simp add: bus_is_tracked_def map_of_retain)
next
  assume h: "bus_is_tracked tgid fd t \<and> fd \<in> set live"
  then show "bus_is_poisoned tgid fd (snd (bus_retain_and_poison tgid live t))"
    by (auto simp: bus_is_tracked_def bus_is_poisoned_iff map_of_retain)
  from h obtain c where "((tgid, fd), c) \<in> set t" by (auto simp: bus_is_tracked_def dest: map_of_SomeD)
  with h show "fd \<in> set (fst (bus_retain_and_poison tgid live t))"
    by (force simp: bus_retain_and_poison_def)
next
  assume "bus_is_tracked tgid fd t"
  then show "bus_is_poisoned tgid fd' (bus_alias tgid fd fd' t)"
    by (auto simp: bus_is_tracked_def bus_is_poisoned_iff bus_alias_def bus_address_def bus_channel_new_def)
qed

theorem inherited_connections_poisoned_witness:
  "bus_is_poisoned 2 3 (snd (bus_inherit_process 1 2 (bus_register 1 3 ''bus'' []))) \<and>
   bus_is_poisoned 1 3 (snd (bus_retain_and_poison 1 [3] (bus_register 1 3 ''bus'' [])))"
  using inherited_connections_poisoned [of 1 3 "bus_register 1 3 ''bus'' []" 2 1 "[3]" 4]
  by (simp add: bus_is_tracked_def bus_register_def)

subsection \<open>A handshake that ends twice\<close>

text \<open>
  The specification of the handshake: one NUL byte opens the connection, then lines follow; the
  line \<open>BEGIN\<close> ends it. A line that starts with another NUL byte is not \<open>BEGIN\<close>.
\<close>

function lines_from :: "nat \<Rightarrow> string \<Rightarrow> nat option" where
  "lines_from k rest =
     (case position (\<lambda>b. b = CHR 0x0A) rest of
        None \<Rightarrow> None
      | Some rel \<Rightarrow>
          if take (rel + 1) rest = BEGIN_LINE then Some (k + rel + 1) else lines_from (k + rel + 1) (drop (rel + 1) rest))"
  by pat_completeness auto
termination
proof (relation "measure (\<lambda>(_, rest). length rest)")
  fix k rel :: nat and rest :: string
  assume "position (\<lambda>b. b = CHR 0x0A) rest = Some rel"
  then have "rest \<noteq> []" by auto
  then show "((k + rel + 1, drop (rel + 1) rest), k, rest) \<in> measure (\<lambda>(_, rest). length rest)" by simp
qed simp

declare lines_from.simps [simp del]

definition begin_strict :: "string \<Rightarrow> nat option" where
  "begin_strict buf = (case buf of c # rest \<Rightarrow> if c = CHR 0x00 then lines_from 1 rest else lines_from 0 buf | [] \<Rightarrow> None)"

text \<open>A message without header fields whose body is opaque.\<close>

definition opaque :: "char \<Rightarrow> string \<Rightarrow> string" where
  "opaque ty body = [CHR ''l'', ty, CHR 0x00, CHR 0x01] @ le32 (length body) @ le32 1 @ le32 0 @ body"

lemma read_opaque:
  assumes "length body \<le> 100000"
  shows "read_message (opaque ty body) =
    Inr (Some (dbus_message_default\<lparr>dm_msg_type := Some (message_type_from_code ty)\<rparr>, length (opaque ty body)))"
proof -
  let ?buf = "opaque ty body"
  have len: "length ?buf = 16 + length body" by (simp add: opaque_def)
  have nth: "?buf ! 0 = CHR ''l''" "?buf ! 1 = ty" "?buf ! 3 = CHR 0x01" by (simp_all add: opaque_def)
  have u4: "read_u32 ?buf 4 True = Inr (word_of_nat (length body))"
    using assms by (intro read_u32_at [of ?buf "[CHR ''l'', ty, CHR 0x00, CHR 0x01]" _ "le32 1 @ le32 0 @ body"])
      (simp_all add: opaque_def)
  have u12: "read_u32 ?buf 12 True = Inr (word_of_nat 0)"
    by (intro read_u32_at [of ?buf "[CHR ''l'', ty, CHR 0x00, CHR 0x01] @ le32 (length body) @ le32 1" _ body])
       (simp_all add: opaque_def)
  have un: "unat (word_of_nat (length body) :: u32) = length body" using assms by (intro unat_word_of_nat) simp
  have "align_up 16 8 = Inr 16" by (rule align_up_aligned) simp_all
  moreover have "checked_add 16 (length body) = Some (16 + length body)" using assms by (simp add: checked_add_def)
  ultimately have "read_sized ?buf True (length body) 16 =
      Inr (Some (dbus_message_default\<lparr>dm_msg_type := Some (message_type_from_code ty)\<rparr>, 16 + length body))"
    unfolding read_sized_Some using assms len nth(2)
    by (simp add: FIXED_HEADER_LEN_def MAX_MESSAGE_LEN_def read_header_fields.simps decode_body_first_def
        dbus_message_default_def)
  moreover have "checked_add FIXED_HEADER_LEN 0 = Some 16" by (simp add: checked_add_def FIXED_HEADER_LEN_def)
  ultimately show ?thesis
    unfolding read_message_Some using nth u4 u12 un by (auto simp: FIXED_HEADER_LEN_def len endianness_def)
qed

text \<open>
  The stream: a handshake line, a line NUL \<open>BEGIN\<close>, a method return whose body holds the real
  \<open>BEGIN\<close> and a call that starts a transient unit.
\<close>

definition start_unit_fields :: "header_field list" where
  "start_unit_fields = [(CHR 0x06, ''org.freedesktop.systemd1''), (CHR 0x02, ''org.freedesktop.systemd1.Manager''),
     (CHR 0x03, ''StartTransientUnit'')]"

definition hidden_call :: string where
  "hidden_call = encode_message (CHR 0x01) start_unit_fields"

definition smuggled :: string where
  "smuggled = CHR 0x00 # ''AUTH'' @ [CHR 0x0D, CHR 0x0A] @ CHR 0x00 # BEGIN_LINE @
     opaque (CHR 0x02) ([CHR 0x0D, CHR 0x0A] @ BEGIN_LINE @ hidden_call)"

lemma hidden_call_read:
  "read_message hidden_call = Inr (Some (message_of (CHR 0x01) start_unit_fields, length hidden_call))"
  unfolding hidden_call_def
  by (rule read_message_encoded) (simp_all add: start_unit_fields_def field_ok_def in_bytes_def)

lemma hidden_call_escalates: "\<exists>d. classify (message_of (CHR 0x01) start_unit_fields) = DbusEscalate d"
  by (simp add: message_of_def start_unit_fields_def set_string_field_def message_type_from_code_def classify_def
      dbus_message_default_def universal_read_only_def destination_allows_def is_scope_only_transient_unit_def)

lemma length_hidden_call: "length hidden_call = 136"
  by (simp add: hidden_call_def encode_message_def encode_header_def start_unit_fields_def length_encode_field padding_def)

lemma le32_145: "le32 145 = [CHR 0x91, CHR 0x00, CHR 0x00, CHR 0x00]"
  by (simp add: le32_def char_of_eq_iff)

lemma smuggled_eq:
  "smuggled = CHR 0x00 # ''AUTH'' @ [CHR 0x0D, CHR 0x0A, CHR 0x00] @ ''BEGIN'' @ [CHR 0x0D, CHR 0x0A] @
     [CHR ''l'', CHR 0x02, CHR 0x00, CHR 0x01, CHR 0x91, CHR 0x00, CHR 0x00, CHR 0x00] @ le32 1 @ le32 0 @
     [CHR 0x0D, CHR 0x0A] @ ''BEGIN'' @ [CHR 0x0D, CHR 0x0A] @ hidden_call"
  by (simp add: smuggled_def opaque_def BEGIN_LINE_def length_hidden_call le32_145)

lemma smuggled_begin: "begin_from 0 smuggled = Some 15" "begin_strict smuggled = Some 40"
  by (simp_all add: smuggled_eq begin_strict_def begin_from.simps lines_from.simps BEGIN_LINE_def strip_nul_def le32_def
      char_of_eq_iff)

lemma smuggled_drop: "drop 15 smuggled = opaque (CHR 0x02) ([CHR 0x0D, CHR 0x0A] @ BEGIN_LINE @ hidden_call)"
    "drop 40 smuggled = hidden_call"
  by (simp_all add: smuggled_def BEGIN_LINE_def opaque_def le32_def)

text \<open>
  The end of the handshake can be faked: \<open>find_begin\<close> drops a NUL byte in front of every line,
  not only of the first, so a line NUL \<open>BEGIN\<close> that a bus must reject ends the handshake for the
  inspector. On a stream that goes on with a reply whose body carries the real \<open>BEGIN\<close> and a call to
  start a transient unit, the inspector sees one reply and lets it pass, while a bus that follows
  the specification sees the call, which the policy would have escalated.
\<close>

theorem handshake_end_can_be_faked:
  "(\<exists>m. fst (channel_peek smuggled (bus_channel_new ''bus'')) = Inr [m] \<and> classify m = DbusAllow) \<and>
   (\<exists>e call d. begin_strict smuggled = Some e \<and> framed read_message (drop e smuggled) [call] [] \<and>
      classify call = DbusEscalate d)"
proof
  let ?body = "[CHR 0x0D, CHR 0x0A] @ BEGIN_LINE @ hidden_call"
  let ?m = "dbus_message_default\<lparr>dm_msg_type := Some MethodReturn\<rparr>"
  have small: "length smuggled = 176" by (simp add: smuggled_eq length_hidden_call)
  have rd: "read_message (drop 15 smuggled) = Inr (Some (?m, 161))"
    using read_opaque [of ?body "CHR 0x02"]
    by (simp add: smuggled_drop length_hidden_call BEGIN_LINE_def message_type_from_code_def)
       (simp add: opaque_def length_hidden_call)
  have "read_message (drop 176 smuggled) = Inr None"
    by (simp add: small read_message_def FIXED_HEADER_LEN_def)
  with rd have "decode_loop smuggled 15 [] = Inr ([?m], 176)"
    by (simp add: decode_loop.simps MAX_MESSAGES_PER_CALL_def)
  then have "decode smuggled Auth = Inr \<lparr> dc_messages = [?m], dc_consumed = 176, dc_phase = Messages \<rparr>"
    by (simp add: decode_def find_begin_def smuggled_begin)
  then have "fst (channel_peek smuggled (bus_channel_new ''bus'')) = Inr [?m]"
    by (simp add: channel_peek_def bus_channel_new_def small MAX_BUFFER_def MAX_MESSAGE_LEN_def)
  moreover have "classify ?m = DbusAllow" by (simp add: classify_def)
  ultimately show "\<exists>m. fst (channel_peek smuggled (bus_channel_new ''bus'')) = Inr [m] \<and> classify m = DbusAllow"
    by blast
next
  let ?call = "message_of (CHR 0x01) start_unit_fields"
  have "framed read_message hidden_call [?call] []"
    using hidden_call_read by (rule framed.step) (simp add: framed.stop)
  moreover obtain d where "classify ?call = DbusEscalate d" using hidden_call_escalates by blast
  ultimately show "\<exists>e call d. begin_strict smuggled = Some e \<and> framed read_message (drop e smuggled) [call] [] \<and>
      classify call = DbusEscalate d"
    using smuggled_begin(2) smuggled_drop(2) by (intro exI [of _ 40] exI [of _ ?call] exI [of _ d]) simp
qed

subsection \<open>Two concrete runs\<close>

abbreviation hidden_msg :: dbus_message where
  "hidden_msg \<equiv> message_of (CHR 0x01) start_unit_fields"

definition two_writes :: "(string \<times> nat) list" where
  "two_writes = [(CHR 0x00 # BEGIN_LINE, 8), (hidden_call, 136)]"

definition one_write :: "(string \<times> nat) list" where
  "one_write = [(CHR 0x00 # BEGIN_LINE @ hidden_call, 144)]"

lemma begin_sample: "begin_from 0 (CHR 0x00 # BEGIN_LINE @ ext) = Some 8"
  by (simp add: begin_from.simps BEGIN_LINE_def strip_nul_def)

lemma decode_sample:
  "decode (CHR 0x00 # BEGIN_LINE) Auth = Inr \<lparr> dc_messages = [], dc_consumed = 8, dc_phase = Messages \<rparr>"
  "decode hidden_call Messages = Inr \<lparr> dc_messages = [hidden_msg], dc_consumed = 136, dc_phase = Messages \<rparr>"
  "decode (CHR 0x00 # BEGIN_LINE @ hidden_call) Auth =
     Inr \<lparr> dc_messages = [hidden_msg], dc_consumed = 144, dc_phase = Messages \<rparr>"
proof -
  have none: "read_message [] = Inr None" by (simp add: read_message_def FIXED_HEADER_LEN_def)
  have bl: "length BEGIN_LINE = 7" by (simp add: BEGIN_LINE_def)
  show "decode (CHR 0x00 # BEGIN_LINE) Auth = Inr \<lparr> dc_messages = [], dc_consumed = 8, dc_phase = Messages \<rparr>"
    using begin_sample [of "[]"] by (simp add: decode_def find_begin_def decode_loop.simps none bl)
  have "decode_loop hidden_call 0 [] = Inr ([hidden_msg], 136)"
    using hidden_call_read none by (simp add: decode_loop.simps length_hidden_call MAX_MESSAGES_PER_CALL_def)
  then show "decode hidden_call Messages = Inr \<lparr> dc_messages = [hidden_msg], dc_consumed = 136, dc_phase = Messages \<rparr>"
    by (simp add: decode_def)
  have "drop 8 (CHR 0x00 # BEGIN_LINE @ hidden_call) = hidden_call" by (simp add: BEGIN_LINE_def)
  moreover have "drop 144 (CHR 0x00 # BEGIN_LINE @ hidden_call) = []" by (simp add: BEGIN_LINE_def length_hidden_call)
  ultimately have "decode_loop (CHR 0x00 # BEGIN_LINE @ hidden_call) 8 [] = Inr ([hidden_msg], 144)"
    using hidden_call_read none
    by (subst decode_loop.simps, simp only: sum.case option.case prod.case length_hidden_call)
       (subst decode_loop.simps, simp add: MAX_MESSAGES_PER_CALL_def)
  then show "decode (CHR 0x00 # BEGIN_LINE @ hidden_call) Auth =
     Inr \<lparr> dc_messages = [hidden_msg], dc_consumed = 144, dc_phase = Messages \<rparr>"
    by (simp add: decode_def find_begin_def begin_sample)
qed

lemma sample_runs:
  "writes two_writes (bus_channel_new a) =
     ([hidden_msg], \<lparr> bc_address = a, bc_phase = Messages, bc_buffer = [], bc_poison = None \<rparr>)"
  "writes one_write (bus_channel_new a) =
     ([hidden_msg], \<lparr> bc_address = a, bc_phase = Messages, bc_buffer = [], bc_poison = None \<rparr>)"
proof -
  have bl: "length BEGIN_LINE = 7" by (simp add: BEGIN_LINE_def)
  note defs = write_step_def channel_peek_def channel_commit_def bus_channel_new_def MAX_BUFFER_def
    MAX_MESSAGE_LEN_def length_hidden_call bl decode_sample
  show "writes two_writes (bus_channel_new a) =
     ([hidden_msg], \<lparr> bc_address = a, bc_phase = Messages, bc_buffer = [], bc_poison = None \<rparr>)"
    by (simp add: two_writes_def defs)
  show "writes one_write (bus_channel_new a) =
     ([hidden_msg], \<lparr> bc_address = a, bc_phase = Messages, bc_buffer = [], bc_poison = None \<rparr>)"
    by (simp add: one_write_def defs)
qed

lemma sample_streams:
  "accepted_stream two_writes = CHR 0x00 # BEGIN_LINE @ hidden_call"
  "accepted_stream one_write = CHR 0x00 # BEGIN_LINE @ hidden_call"
  by (simp_all add: accepted_stream_def two_writes_def one_write_def BEGIN_LINE_def length_hidden_call)


theorem inspection_independent_of_chunking_witness:
  "bc_buffer (snd (writes two_writes (bus_channel_new ''bus''))) = bc_buffer (snd (writes one_write (bus_channel_new ''bus'')))"
  using inspection_independent_of_chunking [of two_writes one_write "''bus''"] by (simp add: sample_streams sample_runs)

theorem decode_bounded_witness:
  "length (dc_messages \<lparr> dc_messages = [hidden_msg], dc_consumed = 136, dc_phase = Messages \<rparr>) \<le> 64 \<and>
   16 * length [hidden_msg] \<le> 136"
  using decode_bounded [OF decode_sample(2)] by simp

end
