(* ===== verification/Dns_Wire.thy ===== *)
theory Dns_Wire
  imports Byte_Reader Ip_Addr "HOL-Library.Monad_Syntax"
begin

section \<open>The wire format of DNS\<close>

text \<open>
  \<open>crates/grith-supervisor/src/dns_proxy.rs\<close>: the parsers of the queries a traced process sends and
  of the answers it is given, and the error answers of the proxy. The \<open>?\<close> operator on options is
  \<open>Option.bind\<close>. Offsets are natural numbers: a slice has fewer than \<open>2 ^ 63\<close> bytes and every
  offset the parsers form exceeds its length by at most \<open>65545\<close>, so no addition overflows and no
  \<open>checked_add\<close> fails. A label whose bytes are not UTF-8 holds a byte that is not an ASCII letter
  or digit, so the test of the characters rejects it as \<open>from_utf8\<close> does.
\<close>

unbundle bit_operations_syntax

record parsed_query =
  pq_id :: u16
  pq_domain :: string
  pq_qtype :: u16
  pq_query_type :: string

record dns_answer =
  da_ip :: ip_addr
  da_ttl :: duration

record parsed_response =
  pr_id :: u16
  pr_domain :: string
  pr_qtype :: u16
  pr_answers :: "dns_answer list"

datatype dns_error_code = FormErr | ServFail | Refused

fun dns_error_code_value :: "dns_error_code \<Rightarrow> u16" where
  "dns_error_code_value FormErr = 1"
| "dns_error_code_value ServFail = 2"
| "dns_error_code_value Refused = 5"

definition dns_read_u16 :: "string \<Rightarrow> nat \<Rightarrow> u16 option" where
  "dns_read_u16 packet offset = map_option (\<lambda>bs. word_of_nat (be_value bs)) (get_range packet offset (offset + 2))"

definition dns_read_u32 :: "string \<Rightarrow> nat \<Rightarrow> u32 option" where
  "dns_read_u32 packet offset = map_option (\<lambda>bs. word_of_nat (be_value bs)) (get_range packet offset (offset + 4))"

subsection \<open>Names\<close>

definition is_label_byte :: "char \<Rightarrow> bool" where
  "is_label_byte b \<longleftrightarrow>
     (let n = of_char b :: nat
      in (48 \<le> n \<and> n \<le> 57) \<or> (65 \<le> n \<and> n \<le> 90) \<or> (97 \<le> n \<and> n \<le> 122) \<or> b = CHR ''-'' \<or> b = CHR ''_'')"

text \<open>The offset a compression pointer names.\<close>

definition pointer_target :: "char \<Rightarrow> char \<Rightarrow> nat" where
  "pointer_target b low = push_bit 8 (of_char b AND 0x3F) OR of_char low"

text \<open>The loop of \<open>parse_name\<close>; \<open>visited\<close> lists the offsets seen so far, without repetition.\<close>

function name_loop ::
    "string \<Rightarrow> bool \<Rightarrow> string list \<Rightarrow> nat \<Rightarrow> nat option \<Rightarrow> nat list \<Rightarrow> nat \<Rightarrow> (string \<times> nat) option" where
  "name_loop packet allow_compression labels cursor resume visited wire_len =
     (if cursor \<in> set visited \<or> length visited + 1 > 128 then None
      else case get_byte packet cursor of
          None \<Rightarrow> None
        | Some b \<Rightarrow>
           (let len = of_char b :: nat
            in if len AND 0xC0 = 0xC0 then
                 (if \<not> allow_compression then None
                  else case get_byte packet (cursor + 1) of
                      None \<Rightarrow> None
                    | Some low \<Rightarrow>
                        if pointer_target b low \<ge> length packet then None
                        else name_loop packet allow_compression labels (pointer_target b low)
                               (Some (case resume of Some r \<Rightarrow> r | None \<Rightarrow> cursor + 2)) (cursor # visited) wire_len)
               else if len AND 0xC0 \<noteq> 0 then None
               else if len = 0 then
                 (if labels = [] then None
                  else Some (join ''.'' labels, case resume of Some r \<Rightarrow> r | None \<Rightarrow> cursor + 1))
               else if len > 63 then None
               else case get_range packet (cursor + 1) (cursor + 1 + len) of
                   None \<Rightarrow> None
                 | Some label \<Rightarrow>
                     if label = [] \<or> \<not> list_all is_label_byte label then None
                     else if wire_len + (len + 1) > 254 then None
                     else name_loop packet allow_compression (labels @ [label]) (cursor + 1 + len) resume
                            (cursor # visited) (wire_len + (len + 1))))"
  by pat_completeness auto
termination by (relation "measure (\<lambda>(_, _, _, _, _, visited, _). 129 - length visited)") auto

declare name_loop.simps [simp del]

definition parse_name :: "string \<Rightarrow> nat \<Rightarrow> bool \<Rightarrow> (string \<times> nat) option" where
  "parse_name packet start allow_compression = name_loop packet allow_compression [] start None [] 0"

function skip_loop :: "string \<Rightarrow> bool \<Rightarrow> nat \<Rightarrow> nat option \<Rightarrow> nat list \<Rightarrow> nat option" where
  "skip_loop packet allow_compression cursor resume visited =
     (if cursor \<in> set visited \<or> length visited + 1 > 128 then None
      else case get_byte packet cursor of
          None \<Rightarrow> None
        | Some b \<Rightarrow>
           (let len = of_char b :: nat
            in if len AND 0xC0 = 0xC0 then
                 (if \<not> allow_compression then None
                  else case get_byte packet (cursor + 1) of
                      None \<Rightarrow> None
                    | Some low \<Rightarrow>
                        if pointer_target b low \<ge> length packet then None
                        else skip_loop packet allow_compression (pointer_target b low)
                               (Some (case resume of Some r \<Rightarrow> r | None \<Rightarrow> cursor + 2)) (cursor # visited))
               else if len AND 0xC0 \<noteq> 0 \<or> len > 63 then None
               else if len = 0 then Some (case resume of Some r \<Rightarrow> r | None \<Rightarrow> cursor + 1)
               else if cursor + 1 + len > length packet then None
               else skip_loop packet allow_compression (cursor + 1 + len) resume (cursor # visited)))"
  by pat_completeness auto
termination by (relation "measure (\<lambda>(_, _, _, _, visited). 129 - length visited)") auto

declare skip_loop.simps [simp del]

definition skip_name :: "string \<Rightarrow> nat \<Rightarrow> bool \<Rightarrow> nat option" where
  "skip_name packet start allow_compression = skip_loop packet allow_compression start None []"

fun skip_resource_records :: "string \<Rightarrow> nat \<Rightarrow> nat \<Rightarrow> nat option" where
  "skip_resource_records packet offset 0 = Some offset"
| "skip_resource_records packet offset (Suc count) = do {
     offset \<leftarrow> skip_name packet offset True;
     rdlength \<leftarrow> dns_read_u16 packet (offset + 8);
     let offset = offset + 10 + unat rdlength;
     if offset \<le> length packet then skip_resource_records packet offset count else None
   }"

subsection \<open>Queries\<close>

definition qtype_to_string :: "u16 \<Rightarrow> string" where
  "qtype_to_string qtype =
     (if qtype = 1 then ''A'' else if qtype = 2 then ''NS'' else if qtype = 5 then ''CNAME''
      else if qtype = 6 then ''SOA'' else if qtype = 12 then ''PTR'' else if qtype = 15 then ''MX''
      else if qtype = 16 then ''TXT'' else if qtype = 28 then ''AAAA'' else if qtype = 33 then ''SRV''
      else if qtype = 255 then ''ANY'' else ''TYPE'' @ digits_of_nat (unat qtype))"

definition parse_query :: "string \<Rightarrow> parsed_query option" where
  "parse_query packet =
     (if length packet < 12 then None
      else do {
        flags \<leftarrow> dns_read_u16 packet 2;
        qdcount \<leftarrow> dns_read_u16 packet 4;
        if flags AND 0x8000 \<noteq> 0 \<or> flags AND 0x7800 \<noteq> 0 \<or> flags AND 0x0040 \<noteq> 0 \<or> qdcount \<noteq> 1 then None
        else do {
          (domain, offset) \<leftarrow> parse_name packet 12 False;
          qtype \<leftarrow> dns_read_u16 packet offset;
          qclass \<leftarrow> dns_read_u16 packet (offset + 2);
          if qclass \<noteq> 1 then None
          else do {
            ancount \<leftarrow> dns_read_u16 packet 6;
            nscount \<leftarrow> dns_read_u16 packet 8;
            arcount \<leftarrow> dns_read_u16 packet 10;
            stop \<leftarrow> skip_resource_records packet (offset + 4) (unat ancount + unat nscount + unat arcount);
            if stop \<noteq> length packet then None
            else do {
              ident \<leftarrow> dns_read_u16 packet 0;
              Some \<lparr> pq_id = ident, pq_domain = domain, pq_qtype = qtype, pq_query_type = qtype_to_string qtype \<rparr>
            }
          }
        }
      })"

subsection \<open>Responses\<close>

record response_records =
  rr_cnames :: "string \<rightharpoonup> string \<times> u32"
  rr_addresses :: "string \<rightharpoonup> (ip_addr \<times> u32) list"

definition push_address :: "string \<Rightarrow> ip_addr \<Rightarrow> u32 \<Rightarrow> response_records \<Rightarrow> response_records" where
  "push_address owner ip ttl rs =
     rs\<lparr>rr_addresses := (rr_addresses rs)(owner \<mapsto>
        (case rr_addresses rs owner of Some as \<Rightarrow> as | None \<Rightarrow> []) @ [(ip, ttl)])\<rparr>"

definition ipv4_of_octets :: "string \<Rightarrow> ip_addr" where
  "ipv4_of_octets bs = V4 (map of_char bs)"

fun ipv6_groups :: "string \<Rightarrow> int list" where
  "ipv6_groups (a # b # bs) = (of_char a * 256 + of_char b) # ipv6_groups bs"
| "ipv6_groups _ = []"

text \<open>One turn of the loop over the answer section: the records so far and the next offset.\<close>

definition answer_record :: "string \<Rightarrow> nat \<Rightarrow> response_records \<Rightarrow> (nat \<times> response_records) option" where
  "answer_record packet offset rs = do {
     (owner, offset) \<leftarrow> parse_name packet offset True;
     let owner = to_lowercase owner;
     rtype \<leftarrow> dns_read_u16 packet offset;
     rclass \<leftarrow> dns_read_u16 packet (offset + 2);
     ttl \<leftarrow> dns_read_u32 packet (offset + 4);
     rdlength \<leftarrow> dns_read_u16 packet (offset + 8);
     let offset = offset + 10;
     let rdata_end = offset + unat rdlength;
     rdata \<leftarrow> get_range packet offset rdata_end;
     if rclass = 1 then
       (if rtype = 1 \<and> rdlength = 4 then Some (rdata_end, push_address owner (ipv4_of_octets rdata) ttl rs)
        else if rtype = 28 \<and> rdlength = 16 then Some (rdata_end, push_address owner (V6 (ipv6_groups rdata)) ttl rs)
        else if rtype = 5 then do {
          (target, consumed) \<leftarrow> parse_name packet offset True;
          if consumed \<noteq> rdata_end then None
          else Some (rdata_end, rs\<lparr>rr_cnames := (rr_cnames rs)(owner \<mapsto> (to_lowercase target, ttl))\<rparr>)
        }
        else Some (rdata_end, rs))
     else Some (rdata_end, rs)
   }"

fun answer_section :: "string \<Rightarrow> nat \<Rightarrow> nat \<Rightarrow> response_records \<Rightarrow> (nat \<times> response_records) option" where
  "answer_section packet 0 offset rs = Some (offset, rs)"
| "answer_section packet (Suc count) offset rs = do {
     (offset, rs) \<leftarrow> answer_record packet offset rs;
     answer_section packet count offset rs
   }"

text \<open>The loop that follows the aliases, with the turns it has left.\<close>

fun follow_chain :: "nat \<Rightarrow> response_records \<Rightarrow> string list \<Rightarrow> u32 \<Rightarrow> string \<Rightarrow> dns_answer list option" where
  "follow_chain 0 rs seen chain_ttl current = None"
| "follow_chain (Suc n) rs seen chain_ttl current =
     (if current \<in> set seen then None
      else case rr_addresses rs current of
          Some records \<Rightarrow>
            Some (map (\<lambda>(ip, ttl). \<lparr> da_ip = ip, da_ttl = secs (unat (min ttl chain_ttl)) \<rparr>) records)
        | None \<Rightarrow>
            (case rr_cnames rs current of
               None \<Rightarrow> Some []
             | Some (target, ttl) \<Rightarrow> follow_chain n rs (current # seen) (min chain_ttl ttl) target))"

definition parse_response :: "string \<Rightarrow> parsed_response option" where
  "parse_response packet =
     (if length packet < 12 then None
      else do {
        flags \<leftarrow> dns_read_u16 packet 2;
        qdcount \<leftarrow> dns_read_u16 packet 4;
        ancount \<leftarrow> dns_read_u16 packet 6;
        nscount \<leftarrow> dns_read_u16 packet 8;
        arcount \<leftarrow> dns_read_u16 packet 10;
        if flags AND 0x8000 = 0 \<or> flags AND 0x7800 \<noteq> 0 \<or> flags AND 0x0040 \<noteq> 0 \<or> qdcount \<noteq> 1 then None
        else do {
          (domain, offset) \<leftarrow> parse_name packet 12 True;
          qtype \<leftarrow> dns_read_u16 packet offset;
          qclass \<leftarrow> dns_read_u16 packet (offset + 2);
          if qclass \<noteq> 1 then None
          else if flags AND 0x0200 \<noteq> 0 \<or> flags AND 0x000F \<noteq> 0 then do {
            stop \<leftarrow> skip_resource_records packet (offset + 4) (unat ancount + unat nscount + unat arcount);
            if stop \<noteq> length packet then None
            else do {
              ident \<leftarrow> dns_read_u16 packet 0;
              Some \<lparr> pr_id = ident, pr_domain = domain, pr_qtype = qtype, pr_answers = [] \<rparr>
            }
          }
          else do {
            (offset, rs) \<leftarrow> answer_section packet (unat ancount) (offset + 4)
               \<lparr> rr_cnames = Map.empty, rr_addresses = Map.empty \<rparr>;
            stop \<leftarrow> skip_resource_records packet offset (unat nscount + unat arcount);
            if stop \<noteq> length packet then None
            else do {
              answers \<leftarrow> follow_chain 32 rs [] (- 1) (to_lowercase domain);
              ident \<leftarrow> dns_read_u16 packet 0;
              Some \<lparr> pr_id = ident, pr_domain = domain, pr_qtype = qtype, pr_answers = answers \<rparr>
            }
          }
        }
      })"

definition response_matches_query :: "parsed_query \<Rightarrow> parsed_response \<Rightarrow> bool" where
  "response_matches_query query response \<longleftrightarrow>
     pq_id query = pr_id response \<and> pq_qtype query = pr_qtype response \<and>
     eq_ignore_ascii_case (pq_domain query) (pr_domain response)"

definition parse_matching_response :: "string \<Rightarrow> parsed_query \<Rightarrow> parsed_response option" where
  "parse_matching_response packet query = do {
     response \<leftarrow> parse_response packet;
     if response_matches_query query response then Some response else None
   }"

definition parse_qname :: "string \<Rightarrow> (string \<times> string) option" where
  "parse_qname packet = do {
     flags \<leftarrow> dns_read_u16 packet 2;
     if flags AND 0x8000 \<noteq> 0
     then map_option (\<lambda>r. (pr_domain r, qtype_to_string (pr_qtype r))) (parse_response packet)
     else map_option (\<lambda>q. (pq_domain q, pq_query_type q)) (parse_query packet)
   }"

subsection \<open>Error answers\<close>

definition be16 :: "u16 \<Rightarrow> string" where
  "be16 w = [char_of (unat w div 256), char_of (unat w)]"

definition build_error_response :: "string \<Rightarrow> dns_error_code \<Rightarrow> string" where
  "build_error_response query code =
     (let ident = (case get_range query 0 2 of Some bs \<Rightarrow> bs | None \<Rightarrow> [CHR 0x00, CHR 0x00]);
          request_flags = (case dns_read_u16 query 2 of Some w \<Rightarrow> w | None \<Rightarrow> 0);
          flags = 0x8000 OR (request_flags AND 0x7910) OR dns_error_code_value code;
          question = (if parse_query query \<noteq> None then
                        (case parse_name query 12 False of
                           None \<Rightarrow> None
                         | Some (_, name_end) \<Rightarrow> get_range query 12 (name_end + 4))
                      else None)
      in case question of
           None \<Rightarrow> ident @ be16 flags @ replicate 8 CHR 0x00
         | Some q \<Rightarrow> ident @ be16 flags @ be16 1 @ replicate 6 CHR 0x00 @ q)"

definition build_formerr_response :: "string \<Rightarrow> string" where
  "build_formerr_response query = build_error_response query FormErr"

definition build_servfail_response :: "string \<Rightarrow> string" where
  "build_servfail_response query = build_error_response query ServFail"

definition build_refused_response :: "string \<Rightarrow> string" where
  "build_refused_response query = build_error_response query Refused"

subsection \<open>Reading a name as a relation\<close>

text \<open>The successful runs of the loop of \<open>parse_name\<close>, one rule per way through its body.\<close>

inductive name_read :: "string \<Rightarrow> bool \<Rightarrow> string list \<Rightarrow> nat \<Rightarrow> nat option \<Rightarrow> nat list \<Rightarrow> nat \<Rightarrow> string \<Rightarrow> nat \<Rightarrow> bool"
  for packet ac where
  pointer:
    "cursor \<notin> set visited \<Longrightarrow> length visited < 128 \<Longrightarrow> get_byte packet cursor = Some b \<Longrightarrow>
     (of_char b :: nat) AND 0xC0 = 0xC0 \<Longrightarrow> ac \<Longrightarrow> get_byte packet (cursor + 1) = Some low \<Longrightarrow>
     pointer_target b low < length packet \<Longrightarrow>
     name_read packet ac labels (pointer_target b low) (Some (case resume of Some r \<Rightarrow> r | None \<Rightarrow> cursor + 2))
       (cursor # visited) wl domain e \<Longrightarrow>
     name_read packet ac labels cursor resume visited wl domain e"
| stop:
    "cursor \<notin> set visited \<Longrightarrow> length visited < 128 \<Longrightarrow> get_byte packet cursor = Some b \<Longrightarrow> (of_char b :: nat) = 0 \<Longrightarrow>
     labels \<noteq> [] \<Longrightarrow> name_read packet ac labels cursor resume visited wl (join ''.'' labels)
       (case resume of Some r \<Rightarrow> r | None \<Rightarrow> cursor + 1)"
| label:
    "cursor \<notin> set visited \<Longrightarrow> length visited < 128 \<Longrightarrow> get_byte packet cursor = Some b \<Longrightarrow>
     (of_char b :: nat) AND 0xC0 = 0 \<Longrightarrow> 0 < (of_char b :: nat) \<Longrightarrow> (of_char b :: nat) \<le> 63 \<Longrightarrow>
     get_range packet (cursor + 1) (cursor + 1 + of_char b) = Some l \<Longrightarrow> list_all is_label_byte l \<Longrightarrow>
     wl + (of_char b + 1) \<le> 254 \<Longrightarrow>
     name_read packet ac (labels @ [l]) (cursor + 1 + of_char b) resume (cursor # visited) (wl + (of_char b + 1)) domain e \<Longrightarrow>
     name_read packet ac labels cursor resume visited wl domain e"

lemma get_range_len: "get_range buf a b = Some l \<Longrightarrow> length l = b - a"
  by (auto simp: get_range_Some)

lemma name_loop_readD:
  "name_loop packet ac labels cursor resume visited wl = Some (domain, e) \<Longrightarrow>
   name_read packet ac labels cursor resume visited wl domain e"
proof (induction packet ac labels cursor resume visited wl rule: name_loop.induct)
  case (1 packet ac labels cursor resume visited wl)
  obtain b where b: "cursor \<notin> set visited" "length visited < 128" "get_byte packet cursor = Some b"
    using "1.prems" by (subst (asm) name_loop.simps) (auto split: option.splits if_splits)
  note run = "1.prems" [unfolded name_loop.simps [of packet ac labels cursor resume visited wl], simplified b(3), simplified]
  consider (ptr) low where "(of_char b :: nat) AND 192 = 192" "get_byte packet (cursor + 1) = Some low" "ac"
      "pointer_target b low < length packet"
      "name_loop packet ac labels (pointer_target b low) (Some (case resume of Some r \<Rightarrow> r | None \<Rightarrow> cursor + 2))
         (cursor # visited) wl = Some (domain, e)"
    | (stop) "(of_char b :: nat) = 0" "labels \<noteq> []" "domain = join ''.'' labels"
        "e = (case resume of Some r \<Rightarrow> r | None \<Rightarrow> cursor + 1)"
    | (label) l where "(of_char b :: nat) AND 192 \<noteq> 192" "(of_char b :: nat) AND 192 = 0" "(of_char b :: nat) \<noteq> 0"
        "(of_char b :: nat) \<le> 63" "get_range packet (cursor + 1) (cursor + 1 + of_char b) = Some l" "l \<noteq> []"
        "list_all is_label_byte l" "wl + (of_char b + 1) \<le> 254"
        "name_loop packet ac (labels @ [l]) (cursor + 1 + of_char b) resume (cursor # visited) (wl + (of_char b + 1)) = Some (domain, e)"
    using run b by (auto simp: Let_def split: if_splits option.splits)
  then show ?case
  proof cases
    case ptr
    have "name_read packet ac labels (pointer_target b low) (Some (case resume of Some r \<Rightarrow> r | None \<Rightarrow> cursor + 2))
         (cursor # visited) wl domain e"
      using "1.IH"(1) [OF _ b(3) refl ptr(1) _ ptr(2) _ ptr(5)] b ptr by simp
    then show ?thesis by (rule name_read.pointer [OF b ptr(1,3,2,4)])
  next
    case stop
    then show ?thesis using b by (auto intro: name_read.stop)
  next
    case label
    have "name_read packet ac (labels @ [l]) (cursor + 1 + of_char b) resume (cursor # visited) (wl + (of_char b + 1)) domain e"
      using "1.IH"(2) [OF _ b(3) refl _ _ _ _ label(5) _ _ label(9)] b label by simp
    then show ?thesis using label(3) by (intro name_read.label [OF b label(2) _ label(4,5,7,8)]) simp_all
  qed
qed

lemma name_read_loop:
  "name_read packet ac labels cursor resume visited wl domain e \<Longrightarrow>
   name_loop packet ac labels cursor resume visited wl = Some (domain, e)"
proof (induction rule: name_read.induct)
  case (label cursor visited b l wl labels resume domain e)
  then show ?case
    by (subst name_loop.simps) (auto simp: Let_def dest: get_range_len)
qed (subst name_loop.simps, auto simp: Let_def)+

lemma parse_name_iff: "parse_name packet start ac = Some (domain, e) \<longleftrightarrow> name_read packet ac [] start None [] 0 domain e"
  unfolding parse_name_def using name_loop_readD name_read_loop by blast

text \<open>Once a pointer was followed, the offset to resume at is fixed; before, the loop only moves on.\<close>

lemma name_read_offset:
  "name_read packet ac labels cursor resume visited wl domain e \<Longrightarrow>
   (case resume of
      Some r \<Rightarrow> e = r
    | None \<Rightarrow> cursor < e \<and> e \<le> length packet \<and> (labels = [] \<longrightarrow> cursor + 2 \<le> e))"
  by (induction rule: name_read.induct) (auto simp: get_byte_Some split: option.splits)

lemma parse_name_offset:
  "parse_name packet start ac = Some (domain, e) \<Longrightarrow> start + 2 \<le> e \<and> e \<le> length packet"
  using name_read_offset by (fastforce simp: parse_name_iff)

text \<open>A name read without compression depends on its own bytes only.\<close>

lemma name_read_local:
  assumes "name_read packet ac labels cursor resume visited wl domain e" and "\<not> ac" and "resume = None"
    and "\<And>i. cursor \<le> i \<Longrightarrow> i < e \<Longrightarrow> get_byte packet' i = get_byte packet i"
  shows "name_read packet' ac' labels cursor None visited wl domain e"
  using assms
proof (induction rule: name_read.induct)
  case (stop cursor visited b labels resume wl)
  then show ?case using name_read.stop [of cursor visited packet' b labels ac' None wl] by simp
next
  case (label cursor visited b l wl labels resume domain e)
  let ?c = "cursor + 1 + of_char b"
  have e: "?c < e" using name_read_offset [OF label.hyps(10)] label.prems(2) by simp
  have rest: "name_read packet' ac' (labels @ [l]) ?c None (cursor # visited) (wl + (of_char b + 1)) domain e"
    using label.IH [OF label.prems(1,2)] label.prems(3) by simp
  have same: "get_byte packet' i = get_byte packet i" if "cursor \<le> i" "i < ?c" for i
    using label.prems(3) e that by simp
  have "get_range packet' (cursor + 1) ?c = Some l"
    using get_range_local [of "cursor + 1" ?c packet' packet] same label.hyps(5,7) by simp
  moreover have "get_byte packet' cursor = Some b" using same [of cursor] label.hyps(3) by simp
  ultimately show ?case using rest by (intro name_read.label [OF label.hyps(1,2) _ label.hyps(4-6) _ label.hyps(8,9)])
qed simp

subsection \<open>Names are safe to show\<close>

definition label_ok :: "string \<Rightarrow> bool" where
  "label_ok l \<longleftrightarrow> l \<noteq> [] \<and> length l \<le> 63 \<and> list_all is_label_byte l"

definition wire_length :: "string list \<Rightarrow> nat" where
  "wire_length ls = sum_list (map (\<lambda>l. length l + 1) ls)"

lemma wire_length_simps [simp]:
  "wire_length [] = 0" "wire_length (l # ls) = length l + 1 + wire_length ls"
  "wire_length (ls @ ks) = wire_length ls + wire_length ks"
  by (simp_all add: wire_length_def)

lemma name_read_labels:
  "name_read packet ac labels cursor resume visited wl domain e \<Longrightarrow> list_all label_ok labels \<Longrightarrow>
   wl = wire_length labels \<Longrightarrow> wl \<le> 254 \<Longrightarrow>
   \<exists>ls. ls \<noteq> [] \<and> domain = join ''.'' ls \<and> list_all label_ok ls \<and> wire_length ls \<le> 254"
proof (induction rule: name_read.induct)
  case (label cursor visited b l wl labels resume domain e)
  then have "label_ok l" by (auto simp: label_ok_def dest: get_range_len)
  with label show ?case by (auto dest: get_range_len)
qed auto

lemma length_join_dot: "ls \<noteq> [] \<Longrightarrow> length (join ''.'' ls) + 1 = wire_length ls"
  by (induction "''.''" ls rule: join.induct) auto

lemma label_byte_not_dot: "is_label_byte b \<Longrightarrow> b \<noteq> CHR ''.''"
  by (auto simp: is_label_byte_def Let_def)

lemma label_no_dot: "label_ok l \<Longrightarrow> CHR ''.'' \<notin> set l"
  using label_byte_not_dot by (fastforce simp: label_ok_def list_all_iff)

lemma split_join_dot: "ls \<noteq> [] \<Longrightarrow> list_all label_ok ls \<Longrightarrow> split_on CHR ''.'' (join ''.'' ls) = ls"
  using split_on_join [of ls "CHR ''.''"] label_no_dot by (auto simp: list_all_iff)

lemma parse_name_labels:
  assumes "parse_name packet start ac = Some (domain, e)"
  shows "\<exists>ls. ls \<noteq> [] \<and> domain = join ''.'' ls \<and> list_all label_ok ls \<and> wire_length ls \<le> 254"
  using name_read_labels [OF assms [unfolded parse_name_iff]] by simp

definition name_ok :: "string \<Rightarrow> bool" where
  "name_ok domain \<longleftrightarrow> length domain \<le> 253 \<and> list_all label_ok (split_on CHR ''.'' domain)"

lemma join_dot_ends:
  "ls \<noteq> [] \<Longrightarrow> list_all label_ok ls \<Longrightarrow> join ''.'' ls \<noteq> [] \<and> is_label_byte (last (join ''.'' ls))"
  by (induction "''.''" ls rule: join.induct) (auto simp: label_ok_def list_all_iff)

lemma join_dot_bytes:
  "list_all label_ok ls \<Longrightarrow> list_all (\<lambda>b. is_label_byte b \<or> b = CHR ''.'') (join ''.'' ls)"
  by (induction "''.''" ls rule: join.induct) (auto simp: label_ok_def list_all_iff)

lemma name_byte_not_space: "is_label_byte b \<or> b = CHR ''.'' \<Longrightarrow> \<not> is_space b"
  by (auto simp: is_label_byte_def is_space_def Let_def)

lemma parse_name_chars:
  assumes "parse_name packet start ac = Some (domain, e)"
  shows "domain \<noteq> [] \<and> last domain \<noteq> CHR ''.'' \<and> list_all (\<lambda>b. \<not> is_space b) domain"
proof -
  obtain ls where ls: "ls \<noteq> []" "domain = join ''.'' ls" "list_all label_ok ls"
    using parse_name_labels [OF assms] by blast
  with join_dot_ends [OF ls(1,3)] join_dot_bytes [OF ls(3)] show ?thesis
    using label_byte_not_dot name_byte_not_space by (auto simp: list_all_iff)
qed

lemma parse_name_ok:
  assumes "parse_name packet start ac = Some (domain, e)"
  shows "name_ok domain"
proof -
  obtain ls where ls: "ls \<noteq> []" "domain = join ''.'' ls" "list_all label_ok ls" "wire_length ls \<le> 254"
    using parse_name_labels [OF assms] by blast
  with length_join_dot [OF ls(1)] split_join_dot [OF ls(1,3)] show ?thesis by (simp add: name_ok_def)
qed

lemma parse_query_Some:
  assumes "parse_query packet = Some q"
  obtains flags offset where "12 \<le> length packet" "dns_read_u16 packet 2 = Some flags" "dns_read_u16 packet 4 = Some 1"
    "flags AND 0x8000 = 0" "flags AND 0x7800 = 0" "flags AND 0x0040 = 0"
    "parse_name packet 12 False = Some (pq_domain q, offset)" "dns_read_u16 packet offset = Some (pq_qtype q)"
    "dns_read_u16 packet (offset + 2) = Some 1" "dns_read_u16 packet 0 = Some (pq_id q)"
    "pq_query_type q = qtype_to_string (pq_qtype q)"
  using assms by (auto simp: parse_query_def bind_eq_Some_conv split: if_splits prod.splits)

lemma parse_response_Some:
  assumes "parse_response packet = Some r"
  obtains flags ancount nscount arcount offset where "dns_read_u16 packet 2 = Some flags"
    "dns_read_u16 packet 6 = Some ancount" "dns_read_u16 packet 8 = Some nscount" "dns_read_u16 packet 10 = Some arcount"
    "parse_name packet 12 True = Some (pr_domain r, offset)" "dns_read_u16 packet 0 = Some (pr_id r)"
    "dns_read_u16 packet offset = Some (pr_qtype r)" "dns_read_u16 packet (offset + 2) = Some 1"
    "(flags AND 0x0200 \<noteq> 0 \<or> flags AND 0x000F \<noteq> 0) \<and> pr_answers r = [] \<or>
     (\<exists>stop rs. answer_section packet (unat ancount) (offset + 4) \<lparr> rr_cnames = Map.empty, rr_addresses = Map.empty \<rparr> = Some (stop, rs) \<and>
        follow_chain 32 rs [] (- 1) (to_lowercase (pr_domain r)) = Some (pr_answers r))"
  using assms by (auto simp: parse_response_def bind_eq_Some_conv split: if_splits prod.splits)

subsection \<open>Error answers\<close>

lemma be_value_be16: "be_value (be16 w) = unat w"
proof -
  have "unat w div 256 < 256" using unsigned_less [of w] by (simp add: div_less_iff_less_mult)
  then show ?thesis by (simp add: be_value_def be16_def)
qed

lemma length_be16 [simp]: "length (be16 w) = 2"
  by (simp add: be16_def)

lemma read_be16: "length a = off \<Longrightarrow> dns_read_u16 (a @ be16 w @ c) off = Some w"
  by (auto simp: dns_read_u16_def get_range_def be_value_be16)

lemma dns_read_u16_local:
  assumes "\<And>i. off \<le> i \<Longrightarrow> i < off + 2 \<Longrightarrow> get_byte p' i = get_byte p i"
  shows "dns_read_u16 p' off = dns_read_u16 p off"
  using get_range_local [of off "off + 2" p' p] assms by (simp add: dns_read_u16_def)

lemma dns_read_u16_bound: "dns_read_u16 p off = Some w \<Longrightarrow> off + 2 \<le> length p"
  by (auto simp: dns_read_u16_def get_range_Some)

lemma error_flags:
  fixes f :: u16
  assumes "f AND 0x7800 = 0"
  shows "(0x8000 OR (f AND 0x7910) OR dns_error_code_value code) AND 0x8000 \<noteq> 0"
    and "(0x8000 OR (f AND 0x7910) OR dns_error_code_value code) AND 0x7800 = 0"
    and "(0x8000 OR (f AND 0x7910) OR dns_error_code_value code) AND 0x0040 = 0"
    and "(0x8000 OR (f AND 0x7910) OR dns_error_code_value code) AND 0x000F \<noteq> 0"
  subgoal by (cases code) (simp_all add: bit.conj_disj_distrib2 and.assoc)
  subgoal using assms by (cases code) (simp_all add: bit.conj_disj_distrib2 and.assoc)
  subgoal by (cases code) (simp_all add: bit.conj_disj_distrib2 and.assoc)
  subgoal by (cases code) (simp_all add: bit.conj_disj_distrib2 and.assoc)
  done

text \<open>The header of an error answer to a query that parses, and its question.\<close>

definition error_header :: "u16 \<Rightarrow> u16 \<Rightarrow> string" where
  "error_header ident flags = be16 ident @ be16 flags @ be16 1 @ be16 0 @ be16 0 @ be16 0"

lemma header_reads:
  "dns_read_u16 (error_header ident flags @ q) 0 = Some ident"
  "dns_read_u16 (error_header ident flags @ q) 2 = Some flags"
  "dns_read_u16 (error_header ident flags @ q) 4 = Some 1"
  "dns_read_u16 (error_header ident flags @ q) 6 = Some 0"
  "dns_read_u16 (error_header ident flags @ q) 8 = Some 0"
  "dns_read_u16 (error_header ident flags @ q) 10 = Some 0"
  using read_be16 [of "[]" 0 ident] read_be16 [of "be16 ident" 2 flags]
    read_be16 [of "be16 ident @ be16 flags" 4 1] read_be16 [of "be16 ident @ be16 flags @ be16 1" 6 0]
    read_be16 [of "be16 ident @ be16 flags @ be16 1 @ be16 0" 8 0]
    read_be16 [of "be16 ident @ be16 flags @ be16 1 @ be16 0 @ be16 0" 10 0]
  by (simp_all add: error_header_def)

lemma length_error_header [simp]: "length (error_header ident flags) = 12"
  by (simp add: error_header_def)

lemma unat_of_nat_small16: "n < 65536 \<Longrightarrow> unat (word_of_nat n :: u16) = n"
  by (simp add: unsigned_of_nat take_bit_nat_eq_self)

lemma be16_value:
  assumes "length bs = 2"
  shows "be16 (word_of_nat (be_value bs)) = bs"
proof -
  obtain a b where bs: "bs = [a, b]" using assms by (auto simp: numeral_2_eq_2 length_Suc_conv)
  have "be_value bs = 256 * of_char a + of_char b" by (simp add: bs be_value_def)
  moreover have "256 * of_char a + of_char b < (65536 :: nat)"
    using nat_of_char_less_256 [of a] nat_of_char_less_256 [of b] by linarith
  ultimately have "unat (word_of_nat (be_value bs) :: u16) = 256 * of_char a + of_char b"
    by (metis unat_of_nat_small16)
  moreover have "(256 * of_char a + of_char b) div 256 = (of_char a :: nat)" using nat_of_char_less_256 [of b] by simp
  moreover have "char_of (256 * of_char a + of_char b :: nat) = b"
    using char_of_mod_256 [of "256 * of_char a + of_char b :: nat"] by simp
  ultimately show ?thesis by (simp add: bs be16_def)
qed

lemma be16_small: "be16 0 = [CHR 0x00, CHR 0x00]"
proof -
  have "(char_of (0 :: nat) :: char) = CHR 0x00" by code_simp
  then show ?thesis by (simp add: be16_def)
qed

lemma build_error_response_eq:
  assumes "parse_query query = Some q" and "dns_read_u16 query 2 = Some f" and "parse_name query 12 False = Some (d, e)"
    and "e + 4 \<le> length query" and "dns_read_u16 query 0 = Some ident"
  shows "build_error_response query code =
    error_header ident (0x8000 OR (f AND 0x7910) OR dns_error_code_value code) @ take (e - 8) (drop 12 query)"
proof -
  have "12 \<le> e" using parse_name_offset [OF assms(3)] by simp
  then have "get_range query 12 (e + 4) = Some (take (e - 8) (drop 12 query))"
    using assms(4) by (simp add: get_range_def)
  moreover have zeros: "replicate 6 CHR 0x00 = [CHR 0x00, CHR 0x00, CHR 0x00, CHR 0x00, CHR 0x00, CHR 0x00]"
    by (simp add: numeral_eq_Suc)
  moreover obtain bs where "get_range query 0 2 = Some bs" "be16 ident = bs"
    using assms(5) be16_value get_range_len by (force simp: dns_read_u16_def numeral_2_eq_2)
  ultimately show ?thesis
    using assms by (simp add: build_error_response_def error_header_def be16_small zeros)
qed

lemma error_response_parses:
  assumes "parse_query query = Some q"
  shows "parse_response (build_error_response query code) =
    Some \<lparr> pr_id = pq_id q, pr_domain = pq_domain q, pr_qtype = pq_qtype q, pr_answers = [] \<rparr>"
proof -
  obtain f e where q: "dns_read_u16 query 2 = Some f" "f AND 0x7800 = 0"
      "parse_name query 12 False = Some (pq_domain q, e)" "dns_read_u16 query e = Some (pq_qtype q)"
      "dns_read_u16 query (e + 2) = Some 1" "dns_read_u16 query 0 = Some (pq_id q)"
    using assms by (rule parse_query_Some)
  have e: "14 \<le> e" "e + 4 \<le> length query"
    using parse_name_offset [OF q(3)] dns_read_u16_bound [OF q(5)] by simp_all
  let ?flags = "0x8000 OR (f AND 0x7910) OR dns_error_code_value code"
  let ?r = "error_header (pq_id q) ?flags @ take (e - 8) (drop 12 query)"
  have r: "build_error_response query code = ?r"
    by (rule build_error_response_eq [OF assms q(1,3) e(2) q(6)])
  have len: "length ?r = e + 4" using e by simp
  have same: "get_byte ?r i = get_byte query i" if "12 \<le> i" "i < e + 4" for i
    using that e by (auto simp: get_byte_def nth_append)
  have "parse_name ?r 12 True = Some (pq_domain q, e)"
    using name_read_local [OF q(3) [unfolded parse_name_iff], of ?r True] same by (simp add: parse_name_iff)
  moreover have "dns_read_u16 ?r e = Some (pq_qtype q)" "dns_read_u16 ?r (e + 2) = Some 1"
    using dns_read_u16_local [of e ?r query] dns_read_u16_local [of "e + 2" ?r query] same q(4,5) e(1) by simp_all
  ultimately show ?thesis
    using error_flags [OF q(2), of code] len e(1) by (simp add: r parse_response_def header_reads)
qed

text \<open>
  An error answer is an answer to its query: for every query the parser accepts, the refusal
  (or failure) the proxy sends back parses as a response with the same identifier, name and type
  and no addresses, so it matches the query and commits nothing to the cache.
\<close>

theorem error_response_answers_query:
  assumes "parse_query query = Some q"
  shows "parse_matching_response (build_error_response query code) q =
    Some \<lparr> pr_id = pq_id q, pr_domain = pq_domain q, pr_qtype = pq_qtype q, pr_answers = [] \<rparr>"
  using error_response_parses [OF assms]
  by (simp add: parse_matching_response_def response_matches_query_def eq_ignore_ascii_case_def)

subsection \<open>Queries as a resolver writes them\<close>

text \<open>A query for a name of a given type as RFC 1035 lays it out, with the recursion bit as chosen.\<close>

definition encode_name :: "string list \<Rightarrow> string" where
  "encode_name ls = concat (map (\<lambda>l. char_of (length l) # l) ls) @ [CHR 0x00]"

definition encode_query :: "u16 \<Rightarrow> bool \<Rightarrow> string list \<Rightarrow> u16 \<Rightarrow> string" where
  "encode_query ident recurse ls qtype =
     error_header ident (if recurse then 0x0100 else 0) @ encode_name ls @ be16 qtype @ be16 1"

lemma encode_name_simps [simp]:
  "encode_name [] = [CHR 0x00]" "encode_name (l # ls) = char_of (length l) # l @ encode_name ls"
  by (simp_all add: encode_name_def)

lemma low_and_high: "take_bit m n AND push_bit m k = (0 :: nat)"
  by (rule bit_eqI) (auto simp: bit_simps)

lemma short_length_byte:
  assumes "n \<le> 63"
  shows "n AND 192 = (0 :: nat)"
proof -
  have "n = take_bit 6 n" using assms by (simp add: take_bit_eq_mod)
  moreover have "(192 :: nat) = push_bit 6 3" by (simp add: push_bit_eq_mult)
  ultimately show ?thesis using low_and_high [of 6 n 3] by metis
qed

lemma name_read_encoded:
  assumes "list_all label_ok ls" and "wl + wire_length ls \<le> 254" and "labels @ ls \<noteq> []"
    and "\<forall>v \<in> set visited. v < length pre" and "length visited + length ls < 128"
  shows "name_read (pre @ encode_name ls @ post) ac labels (length pre) None visited wl
     (join ''.'' (labels @ ls)) (length pre + length (encode_name ls))"
  using assms
proof (induction ls arbitrary: labels pre visited wl)
  case Nil
  then have "length pre \<notin> set visited" "length visited < 128" by auto
  from name_read.stop [OF this, of "pre @ CHR 0x00 # post" "CHR 0x00" labels ac None wl] Nil
  show ?case by (simp add: get_byte_def)
next
  case (Cons l ls)
  let ?b = "char_of (length l) :: char" and ?p = "pre @ encode_name (l # ls) @ post"
  have l: "0 < length l" "length l \<le> 63" "list_all is_label_byte l" using Cons.prems(1) by (auto simp: label_ok_def)
  then have b: "(of_char ?b :: nat) = length l" by simp
  have "name_read ((pre @ ?b # l) @ encode_name ls @ post) ac (labels @ [l]) (length (pre @ ?b # l)) None
      (length pre # visited) (wl + (length l + 1)) (join ''.'' ((labels @ [l]) @ ls)) (length (pre @ ?b # l) + length (encode_name ls))"
    using Cons.prems l by (intro Cons.IH) auto
  then have rest: "name_read ?p ac (labels @ [l]) (length pre + 1 + of_char ?b) None (length pre # visited) (wl + (of_char ?b + 1))
      (join ''.'' (labels @ l # ls)) (length pre + length (encode_name (l # ls)))"
    by (simp add: b add.assoc del: of_char_of)
  have "get_range ?p (length pre + 1) (length pre + 1 + of_char ?b) = Some l" by (simp add: get_range_def b del: of_char_of)
  moreover have "get_byte ?p (length pre) = Some ?b" by (simp add: get_byte_def)
  moreover have "length pre \<notin> set visited" "length visited < 128" "wl + (of_char ?b + 1) \<le> 254"
    using Cons.prems b by (auto simp del: of_char_of)
  ultimately show ?case
    using l b rest short_length_byte by (intro name_read.label [of "length pre" visited ?p ?b l wl]) (simp_all del: of_char_of)
qed

lemma length_le_wire: "list_all label_ok ls \<Longrightarrow> 2 * length ls \<le> wire_length ls"
proof (induction ls)
  case (Cons l ls)
  then have "l \<noteq> []" by (simp add: label_ok_def)
  with Cons show ?case by (cases l) auto
qed simp

lemma parse_encode_query:
  assumes "ls \<noteq> []" and "list_all label_ok ls" and "wire_length ls \<le> 254"
  shows "parse_query (encode_query ident recurse ls qtype) =
    Some \<lparr> pq_id = ident, pq_domain = join ''.'' ls, pq_qtype = qtype, pq_query_type = qtype_to_string qtype \<rparr>"
proof -
  let ?f = "if recurse then 0x0100 else 0 :: u16"
  let ?p = "encode_query ident recurse ls qtype" and ?e = "12 + length (encode_name ls)"
  have p: "?p = error_header ident ?f @ encode_name ls @ be16 qtype @ be16 1" by (simp add: encode_query_def)
  have "name_read (error_header ident ?f @ encode_name ls @ be16 qtype @ be16 1) False [] (length (error_header ident ?f)) None [] 0
      (join ''.'' ([] @ ls)) (length (error_header ident ?f) + length (encode_name ls))"
    using assms length_le_wire [OF assms(2)] by (intro name_read_encoded) auto
  then have "parse_name ?p 12 False = Some (join ''.'' ls, ?e)" by (simp add: p parse_name_iff)
  moreover have "dns_read_u16 ?p ?e = Some qtype" "dns_read_u16 ?p (?e + 2) = Some 1"
    using read_be16 [of "error_header ident ?f @ encode_name ls" ?e qtype "be16 1"]
      read_be16 [of "error_header ident ?f @ encode_name ls @ be16 qtype" "?e + 2" 1 "[]"] by (simp_all add: p)
  ultimately show ?thesis
    by (simp add: parse_query_def) (simp add: p header_reads)
qed

subsection \<open>What a response can contribute\<close>

text \<open>
  \<open>alias_path rs name ttl final ttl'\<close>: from \<open>name\<close> the aliases of the records lead to \<open>final\<close>, and
  \<open>ttl'\<close> is the smallest time to live on the way, starting from \<open>ttl\<close>.
\<close>

inductive alias_path :: "response_records \<Rightarrow> string \<Rightarrow> u32 \<Rightarrow> string \<Rightarrow> u32 \<Rightarrow> bool" for rs where
  here: "alias_path rs name ttl name ttl"
| hop: "rr_addresses rs name = None \<Longrightarrow> rr_cnames rs name = Some (target, t) \<Longrightarrow>
    alias_path rs target (min ttl t) final ttl' \<Longrightarrow> alias_path rs name ttl final ttl'"

lemma follow_chain_path:
  "follow_chain n rs seen ttl current = Some answers \<Longrightarrow>
   \<exists>final ttl'. alias_path rs current ttl final ttl' \<and>
     answers = (case rr_addresses rs final of
        Some records \<Rightarrow> map (\<lambda>(ip, t). \<lparr> da_ip = ip, da_ttl = secs (unat (min t ttl')) \<rparr>) records
      | None \<Rightarrow> [])"
proof (induction n rs seen ttl current rule: follow_chain.induct)
  case (2 n rs seen ttl current)
  show ?case
  proof (cases "rr_addresses rs current")
    case None
    show ?thesis
    proof (cases "rr_cnames rs current")
      case None
      with \<open>rr_addresses rs current = None\<close> "2.prems" show ?thesis
        by (intro exI [of _ current] exI [of _ ttl]) (auto intro: alias_path.here split: if_splits)
    next
      case (Some p)
      obtain target t where p: "p = (target, t)" by (cases p)
      with Some "2.prems" \<open>rr_addresses rs current = None\<close>
      have "follow_chain n rs (current # seen) (min ttl t) target = Some answers" "current \<notin> set seen"
        by (auto split: if_splits)
      from "2.IH" [OF this(2) \<open>rr_addresses rs current = None\<close> Some p [symmetric] this(1)]
      show ?thesis using Some p \<open>rr_addresses rs current = None\<close> by (blast intro: alias_path.hop)
    qed
  next
    case (Some records)
    with "2.prems" show ?thesis
      by (intro exI [of _ current] exI [of _ ttl]) (auto intro: alias_path.here split: if_splits)
  qed
qed simp

text \<open>Every address record takes at least sixteen bytes of the answer section.\<close>

definition addresses_fit :: "nat \<Rightarrow> response_records \<Rightarrow> bool" where
  "addresses_fit room rs \<longleftrightarrow> (\<forall>owner as. rr_addresses rs owner = Some as \<longrightarrow> 16 * length as \<le> room)"

lemma answer_record_fits:
  assumes "answer_record packet offset rs = Some (stop, rs')" and "addresses_fit room rs"
  shows "addresses_fit (room + (stop - offset)) rs' \<and> offset \<le> stop \<and> stop \<le> length packet"
proof -
  obtain owner e rdlength where e: "parse_name packet offset True = Some (owner, e)"
      "dns_read_u16 packet (e + 8) = Some rdlength" "stop = e + 10 + unat rdlength" "stop \<le> length packet"
    using assms(1)
    by (auto simp: answer_record_def bind_eq_Some_conv Let_def get_range_Some split: if_splits prod.splits)
  moreover have "rr_addresses rs' = rr_addresses rs \<or>
       (\<exists>ip ttl. rs' = push_address (to_lowercase owner) ip ttl rs) \<and> 4 \<le> unat rdlength"
    using assms(1) e(1,2)
    by (auto simp: answer_record_def bind_eq_Some_conv Let_def get_range_Some split: if_splits prod.splits)
  moreover have "offset + 2 \<le> e" using parse_name_offset [OF e(1)] by simp
  ultimately show ?thesis
    using assms(2) by (fastforce simp: addresses_fit_def push_address_def split: option.splits if_splits)
qed

lemma answer_section_fits:
  "answer_section packet n offset rs = Some (stop, rs') \<Longrightarrow> addresses_fit room rs \<Longrightarrow> offset \<le> length packet \<Longrightarrow>
   addresses_fit (room + (stop - offset)) rs' \<and> offset \<le> stop \<and> stop \<le> length packet"
proof (induction packet n offset rs arbitrary: room rule: answer_section.induct)
  case (2 packet n offset rs)
  then obtain o1 rs1 where r: "answer_record packet offset rs = Some (o1, rs1)"
      "answer_section packet n o1 rs1 = Some (stop, rs')"
    by (auto simp: bind_eq_Some_conv)
  note fit = answer_record_fits [OF r(1) "2.prems"(2)]
  from "2.IH" [OF r(1) refl r(2), of "room + (o1 - offset)"] fit show ?case by auto
qed auto

lemma addresses_fit_none [simp]: "addresses_fit 0 \<lparr> rr_cnames = Map.empty, rr_addresses = Map.empty \<rparr>"
  by (simp add: addresses_fit_def)

lemma chain_answers_fit:
  "follow_chain n rs seen ttl current = Some answers \<Longrightarrow> addresses_fit room rs \<Longrightarrow> 16 * length answers \<le> room"
  by (induction n rs seen ttl current rule: follow_chain.induct)
    (auto simp: addresses_fit_def split: option.splits if_splits)

lemma response_answers_fit:
  assumes "parse_response packet = Some r"
  shows "16 * length (pr_answers r) \<le> length packet - 18"
  using assms
proof (rule parse_response_Some)
  fix flags ancount nscount arcount offset
  assume name: "parse_name packet 12 True = Some (pr_domain r, offset)"
    and qclass: "dns_read_u16 packet (offset + 2) = Some 1"
    and "(flags AND 0x0200 \<noteq> 0 \<or> flags AND 0x000F \<noteq> 0) \<and> pr_answers r = [] \<or>
     (\<exists>stop rs. answer_section packet (unat (ancount :: u16)) (offset + 4) \<lparr> rr_cnames = Map.empty, rr_addresses = Map.empty \<rparr> = Some (stop, rs) \<and>
        follow_chain 32 rs [] (- 1) (to_lowercase (pr_domain r)) = Some (pr_answers r))"
  then show ?thesis
    using parse_name_offset [OF name] dns_read_u16_bound [OF qclass] by (auto dest!: answer_section_fits [where room = 0] chain_answers_fit)
qed

text \<open>
  Only the answer to the question counts: the addresses a response contributes are exactly the
  address records of one owner, the name asked for or the name its aliases lead to, each with the
  smallest time to live on the way; records of other owners contribute nothing.
\<close>

theorem answers_follow_aliases:
  "case parse_response packet of
     None \<Rightarrow> True
   | Some r \<Rightarrow> pr_answers r = [] \<or>
       (\<exists>ancount offset stop rs final ttl records.
          answer_section packet ancount offset \<lparr> rr_cnames = Map.empty, rr_addresses = Map.empty \<rparr> = Some (stop, rs) \<and>
          alias_path rs (to_lowercase (pr_domain r)) (- 1) final ttl \<and> rr_addresses rs final = Some records \<and>
          pr_answers r = map (\<lambda>(ip, t). \<lparr> da_ip = ip, da_ttl = secs (unat (min t ttl)) \<rparr>) records)"
proof -
  have "\<exists>final ttl records. alias_path rs (to_lowercase (pr_domain r)) (- 1) final ttl \<and> rr_addresses rs final = Some records \<and>
      pr_answers r = map (\<lambda>(ip, t). \<lparr> da_ip = ip, da_ttl = secs (unat (min t ttl)) \<rparr>) records"
    if "follow_chain 32 rs [] (- 1) (to_lowercase (pr_domain r)) = Some (pr_answers r)" "pr_answers r \<noteq> []" for rs r
    using follow_chain_path [OF that(1)] that(2) by (auto split: option.splits)
  then show ?thesis by (fastforce elim: parse_response_Some split: option.splits)
qed

text \<open>
  C37. Names on the wire are well formed: whatever packet a process sends or receives, a name the
  parser takes out of it has at most 253 characters and consists of labels of one to 63 ASCII
  letters, digits, hyphens and underscores, so no control character and no separator reaches the
  policy, the cache or the log.
\<close>

theorem parsed_names_wellformed:
  "case parse_qname packet of Some (domain, qt) \<Rightarrow> name_ok domain | None \<Rightarrow> True"
  by (auto simp: parse_qname_def bind_eq_Some_conv split: option.splits if_splits
      elim!: parse_query_Some parse_response_Some dest!: parse_name_ok)

text \<open>
  Queries round trip: the query that asks for a name of at least one well-formed label and at
  most 254 bytes on the wire is parsed to its identifier, the labels joined by dots and its type.
\<close>

theorem encoded_query_parsed:
  assumes "ls \<noteq> []" and "list_all label_ok ls" and "wire_length ls \<le> 254"
  shows "parse_query (encode_query ident recurse ls qtype) =
      Some \<lparr> pq_id = ident, pq_domain = join ''.'' ls, pq_qtype = qtype, pq_query_type = qtype_to_string qtype \<rparr> \<and>
    parse_qname (encode_query ident recurse ls qtype) = Some (join ''.'' ls, qtype_to_string qtype)"
proof -
  note q = parse_encode_query [OF assms, of ident recurse qtype]
  moreover have "dns_read_u16 (encode_query ident recurse ls qtype) 2 = Some (if recurse then 0x0100 else 0)"
    by (simp add: encode_query_def header_reads)
  ultimately show ?thesis by (simp add: parse_qname_def)
qed

lemma sample_labels: "list_all label_ok [''www'', ''test'']" "wire_length [''www'', ''test''] = 9"
  by (simp_all add: label_ok_def is_label_byte_def)

theorem encoded_query_parsed_witness:
  "parse_qname (encode_query 7 True [''www'', ''test''] 28) = Some (''www.test'', ''AAAA'')"
  using encoded_query_parsed [of "[''www'', ''test'']" 7 True 28] sample_labels by (simp add: qtype_to_string_def)

theorem error_response_answers_query_witness:
  "parse_matching_response (build_error_response (encode_query 7 True [''www'', ''test''] 1) Refused)
     \<lparr> pq_id = 7, pq_domain = ''www.test'', pq_qtype = 1, pq_query_type = ''A'' \<rparr> =
   Some \<lparr> pr_id = 7, pr_domain = ''www.test'', pr_qtype = 1, pr_answers = [] \<rparr>"
proof -
  have "parse_query (encode_query 7 True [''www'', ''test''] 1) =
      Some \<lparr> pq_id = 7, pq_domain = ''www.test'', pq_qtype = 1, pq_query_type = ''A'' \<rparr>"
    using parse_encode_query [of "[''www'', ''test'']" 7 True 1] sample_labels by (simp add: qtype_to_string_def)
  from error_response_answers_query [OF this] show ?thesis by simp
qed

subsection \<open>A query and its answer, byte by byte\<close>

definition sample_query :: string where
  "sample_query = encode_query 7 True [''a'', ''b''] 1"

definition sample_response :: string where
  "sample_response = [CHR 0x00, CHR 0x07, CHR 0x81, CHR 0x80, CHR 0x00, CHR 0x01, CHR 0x00, CHR 0x01, CHR 0x00, CHR 0x00, CHR 0x00, CHR 0x00,
     CHR 0x01, CHR ''a'', CHR 0x01, CHR ''b'', CHR 0x00, CHR 0x00, CHR 0x01, CHR 0x00, CHR 0x01,
     CHR 0xC0, CHR 0x0C, CHR 0x00, CHR 0x01, CHR 0x00, CHR 0x01, CHR 0x00, CHR 0x00, CHR 0x00, CHR 0x3C, CHR 0x00, CHR 0x04,
     CHR 93, CHR 184, CHR 216, CHR 34]"

lemma sample_response_names: "parse_name sample_response 12 True = Some (''a.b'', 17)" "parse_name sample_response 21 True = Some (''a.b'', 23)"
  by code_simp+

lemma sample_response_reads:
  "dns_read_u16 sample_response 0 = Some 7" "dns_read_u16 sample_response 2 = Some 0x8180" "dns_read_u16 sample_response 4 = Some 1"
  "dns_read_u16 sample_response 6 = Some 1" "dns_read_u16 sample_response 8 = Some 0" "dns_read_u16 sample_response 10 = Some 0"
  "dns_read_u16 sample_response 17 = Some 1" "dns_read_u16 sample_response 19 = Some 1" "dns_read_u16 sample_response 23 = Some 1"
  "dns_read_u16 sample_response 25 = Some 1" "dns_read_u32 sample_response 27 = Some 60" "dns_read_u16 sample_response 31 = Some 4"
  "get_range sample_response 33 37 = Some [CHR 93, CHR 184, CHR 216, CHR 34]" "length sample_response = 37"
  by (simp_all add: dns_read_u16_def dns_read_u32_def get_range_def sample_response_def be_value_def)

lemma sample_octets: "ipv4_of_octets [CHR 93, CHR 184, CHR 216, CHR 34] = V4 [93, 184, 216, 34]"
  by code_simp

lemma sample_response_parsed:
  "parse_response sample_response = Some \<lparr> pr_id = 7, pr_domain = ''a.b'', pr_qtype = 1,
     pr_answers = [\<lparr> da_ip = V4 [93, 184, 216, 34], da_ttl = secs 60 \<rparr>] \<rparr>"
proof -
  have lower: "to_lowercase ''a.b'' = ''a.b''" by code_simp
  have ttl: "min 60 (- 1) = (60 :: u32)" by code_simp
  have rec: "answer_record sample_response 21 \<lparr> rr_cnames = Map.empty, rr_addresses = Map.empty \<rparr> =
      Some (37, \<lparr> rr_cnames = Map.empty, rr_addresses = [''a.b'' \<mapsto> [(V4 [93, 184, 216, 34], 60)]] \<rparr>)"
    by (simp add: answer_record_def sample_response_names sample_response_reads sample_octets lower push_address_def)
  have n: "(32 :: nat) = Suc 31" by simp
  have "follow_chain 32 \<lparr> rr_cnames = Map.empty, rr_addresses = [''a.b'' \<mapsto> [(V4 [93, 184, 216, 34], 60)]] \<rparr> [] (- 1) ''a.b'' =
      Some [\<lparr> da_ip = V4 [93, 184, 216, 34], da_ttl = secs 60 \<rparr>]"
    unfolding n follow_chain.simps by (simp add: ttl)
  then show ?thesis
    by (simp add: parse_response_def sample_response_names sample_response_reads rec lower)
qed
lemma sample_query_parsed:
  "parse_query sample_query = Some \<lparr> pq_id = 7, pq_domain = ''a.b'', pq_qtype = 1, pq_query_type = ''A'' \<rparr>"
proof -
  have "list_all label_ok [''a'', ''b'']" by (simp add: label_ok_def is_label_byte_def)
  with parse_encode_query [of "[''a'', ''b'']" 7 True 1] show ?thesis by (simp add: sample_query_def qtype_to_string_def)
qed

end
