(* ===== verification/Dns_Cache.thy ===== *)
theory Dns_Cache
  imports Ip_Addr "HOL-Library.Char_ord" "HOL-Library.List_Lexorder"
begin

section \<open>Names for the addresses a process connects to\<close>

text \<open>
  \<open>crates/grith-supervisor/src/dns_cache.rs\<close>. The outer hash maps are maps, the names of one address
  an association list, so that their number and order can be taken. \<open>Ord\<close> of \<open>String\<close> compares bytes
  lexicographically, as the order on lists of characters does. Resolving names
  (\<open>ToSocketAddrs\<close>, \<open>getnameinfo\<close>) is an argument; every operation takes the clock readings it makes.
\<close>

definition MAX_OBSERVED_TTL :: duration where "MAX_OBSERVED_TTL = secs 3600"
definition STARTUP_SEED_TTL :: duration where "STARTUP_SEED_TTL = secs 300"
definition REVERSE_TTL :: duration where "REVERSE_TTL = secs 300"
definition REVERSE_NEGATIVE_TTL :: duration where "REVERSE_NEGATIVE_TTL = secs 15"
definition OBSERVED_ATTRIBUTION_TTL_FLOOR :: duration where "OBSERVED_ATTRIBUTION_TTL_FLOOR = secs 600"
definition MAX_OBSERVED_BATCH :: nat where "MAX_OBSERVED_BATCH = 256"
definition FORWARD_CONFIRM_MIN_INTERVAL :: duration where "FORWARD_CONFIRM_MIN_INTERVAL = secs 15"

datatype dns_cache_error = EmptyDomain | TooManyAnswers

datatype resolution = Exact string | Ambiguous "string list" | Unknown ip_addr | NotAnIp string

datatype attribution_lookup = Ready resolution | NeedsReverse ip_addr

datatype attribution_source = ObservedDns u32 | StartupSeed

record attribution_metadata =
  am_source :: attribution_source
  am_expires_at :: instant

record reverse_entry =
  re_hostname :: "string option"
  re_expires_at :: instant

type_synonym name_records = "(string \<times> attribution_metadata) list"

record dns_cache =
  reverse_cache :: "ip_addr \<rightharpoonup> reverse_entry"
  forward_cache :: "ip_addr \<rightharpoonup> name_records"

definition dns_cache_new :: dns_cache where
  "dns_cache_new = \<lparr> reverse_cache = Map.empty, forward_cache = Map.empty \<rparr>"

definition trim_end_dots :: "string \<Rightarrow> string" where
  "trim_end_dots s = rev (dropWhile (\<lambda>c. c = CHR ''.'') (rev s))"

definition records_of :: "dns_cache \<Rightarrow> ip_addr \<Rightarrow> name_records" where
  "records_of c ip = (case forward_cache c ip of Some rs \<Rightarrow> rs | None \<Rightarrow> [])"

definition dns_insert :: "string \<Rightarrow> ip_addr \<Rightarrow> attribution_source \<Rightarrow> instant \<Rightarrow> dns_cache \<Rightarrow> dns_cache" where
  "dns_insert domain ip src expires_at c =
     c\<lparr>forward_cache := (forward_cache c)(ip \<mapsto>
        assoc_insert (to_lowercase (trim_end_dots domain)) \<lparr> am_source = src, am_expires_at = expires_at \<rparr>
          (records_of c ip))\<rparr>"

definition observed_ttl :: "duration \<Rightarrow> duration" where
  "observed_ttl ttl = max OBSERVED_ATTRIBUTION_TTL_FLOOR (min ttl MAX_OBSERVED_TTL)"

definition commit_observed :: "string \<Rightarrow> u32 \<Rightarrow> instant \<Rightarrow> ip_addr \<times> duration \<Rightarrow> dns_cache \<Rightarrow> dns_cache" where
  "commit_observed domain tgid now a c =
     (let c1 = dns_insert domain (fst a) (ObservedDns tgid) (now + int (observed_ttl (snd a))) c
      in c1\<lparr>reverse_cache := (reverse_cache c1)(fst a := None)\<rparr>)"

definition commit_observed_batch ::
    "string \<Rightarrow> (ip_addr \<times> duration) list \<Rightarrow> u32 \<Rightarrow> instant \<Rightarrow> dns_cache \<Rightarrow> (dns_cache_error + nat) \<times> dns_cache" where
  "commit_observed_batch domain answers tgid now c =
     (let domain = trim_end_dots (trim domain)
      in if domain = [] then (Inl EmptyDomain, c)
         else if length answers > MAX_OBSERVED_BATCH then (Inl TooManyAnswers, c)
         else (Inr (length answers), fold (commit_observed domain tgid now) answers c))"

definition record_observed :: "string \<Rightarrow> ip_addr \<Rightarrow> duration \<Rightarrow> u32 \<Rightarrow> instant \<Rightarrow> dns_cache \<Rightarrow> dns_cache" where
  "record_observed domain ip ttl tgid now c = snd (commit_observed_batch domain [(ip, ttl)] tgid now c)"

definition record_domain :: "string \<Rightarrow> string \<Rightarrow> instant \<Rightarrow> dns_cache \<Rightarrow> dns_cache" where
  "record_domain domain ip now c =
     (case parse_ip ip of Some addr \<Rightarrow> record_observed domain addr (secs 60) 0 now c | None \<Rightarrow> c)"

text \<open>Each resolved mapping with the reading of the clock when it is inserted.\<close>

definition record_resolved_domains :: "(string \<times> ip_addr \<times> instant) list \<Rightarrow> dns_cache \<Rightarrow> dns_cache" where
  "record_resolved_domains resolved c =
     fold (\<lambda>(domain, ip, now). dns_insert domain ip StartupSeed (now + int STARTUP_SEED_TTL)) resolved c"

definition is_observed :: "attribution_metadata \<Rightarrow> bool" where
  "is_observed m \<longleftrightarrow> (case am_source m of ObservedDns _ \<Rightarrow> True | StartupSeed \<Rightarrow> False)"

definition attributed_names :: "instant \<Rightarrow> name_records \<Rightarrow> string list" where
  "attributed_names now rs =
     (let live = filter (\<lambda>p. am_expires_at (snd p) > now) rs;
          observed = map fst (filter (\<lambda>p. is_observed (snd p)) live)
      in if observed = [] then map fst live else observed)"

definition resolution_of :: "string list \<Rightarrow> resolution option" where
  "resolution_of names =
     (if length names = 1 then Some (Exact (names ! 0))
      else if length names > 1 then Some (Ambiguous (sort names))
      else None)"

definition lookup_forward :: "ip_addr \<Rightarrow> instant \<Rightarrow> dns_cache \<Rightarrow> resolution option \<times> dns_cache" where
  "lookup_forward addr now c =
     (case forward_cache c addr of
        None \<Rightarrow> (None, c)
      | Some rs \<Rightarrow>
          (resolution_of (attributed_names now rs),
           c\<lparr>forward_cache := (forward_cache c)(addr \<mapsto> filter (\<lambda>p. am_expires_at (snd p) > now) rs)\<rparr>))"

definition host_resolution :: "ip_addr \<Rightarrow> string option \<Rightarrow> resolution" where
  "host_resolution addr h = (case h of Some name \<Rightarrow> Exact name | None \<Rightarrow> Unknown addr)"

definition lookup_attribution :: "string \<Rightarrow> instant \<Rightarrow> dns_cache \<Rightarrow> attribution_lookup \<times> dns_cache" where
  "lookup_attribution ip now c =
     (if ip = [] \<or> prefix ''/'' ip \<or> prefix ''<'' ip then (Ready (NotAnIp ip), c)
      else (case parse_ip ip of
          None \<Rightarrow> (Ready (NotAnIp ip), c)
        | Some addr \<Rightarrow>
           (case lookup_forward addr now c of
              (Some r, c1) \<Rightarrow> (Ready r, c1)
            | (None, c1) \<Rightarrow>
               (case reverse_cache c1 addr of
                  Some e \<Rightarrow>
                    if re_expires_at e > now then (Ready (host_resolution addr (re_hostname e)), c1)
                    else (NeedsReverse addr, c1)
                | None \<Rightarrow> (NeedsReverse addr, c1)))))"

definition commit_reverse_lookup ::
    "ip_addr \<Rightarrow> string option \<Rightarrow> instant \<Rightarrow> dns_cache \<Rightarrow> resolution \<times> dns_cache" where
  "commit_reverse_lookup addr hostname now c =
     (case lookup_forward addr now c of
        (Some r, c1) \<Rightarrow> (r, c1)
      | (None, c1) \<Rightarrow>
          (let ttl = (if hostname \<noteq> None then REVERSE_TTL else REVERSE_NEGATIVE_TTL)
           in (host_resolution addr hostname,
               c1\<lparr>reverse_cache := (reverse_cache c1)(addr \<mapsto>
                  \<lparr> re_hostname = hostname, re_expires_at = now + int ttl \<rparr>)\<rparr>)))"

definition resolve_attribution ::
    "(ip_addr \<Rightarrow> string option) \<Rightarrow> string \<Rightarrow> instant \<Rightarrow> instant \<Rightarrow> dns_cache \<Rightarrow> resolution \<times> dns_cache" where
  "resolve_attribution reverse_dns_lookup ip now later c =
     (case lookup_attribution ip now c of
        (Ready r, c1) \<Rightarrow> (r, c1)
      | (NeedsReverse addr, c1) \<Rightarrow> commit_reverse_lookup addr (reverse_dns_lookup addr) later c1)"

definition dns_resolve ::
    "(ip_addr \<Rightarrow> string option) \<Rightarrow> string \<Rightarrow> instant \<Rightarrow> instant \<Rightarrow> dns_cache \<Rightarrow> string \<times> dns_cache" where
  "dns_resolve reverse_dns_lookup ip now later c =
     (case resolve_attribution reverse_dns_lookup ip now later c of
        (Exact name, c1) \<Rightarrow> (name, c1)
      | (_, c1) \<Rightarrow> (ip, c1))"

record forward_confirm =
  fc_domains :: "string list"
  fc_last_attempt :: "instant option"

definition forward_confirm_new :: "string list \<Rightarrow> forward_confirm option" where
  "forward_confirm_new domains =
     (if domains = [] then None else Some \<lparr> fc_domains = domains, fc_last_attempt = None \<rparr>)"

definition try_begin :: "instant \<Rightarrow> forward_confirm \<Rightarrow> bool \<times> forward_confirm" where
  "try_begin now f =
     (if (case fc_last_attempt f of Some t \<Rightarrow> nat (now - t) < FORWARD_CONFIRM_MIN_INTERVAL | None \<Rightarrow> False)
      then (False, f)
      else (True, f\<lparr>fc_last_attempt := Some now\<rparr>))"

subsection \<open>The cache against the history of answers\<close>

datatype dns_op =
    DnsCommit string "(ip_addr \<times> duration) list" u32 instant
  | DnsSeed "(string \<times> ip_addr \<times> instant) list"
  | DnsLookup string instant
  | DnsReverse ip_addr "string option" instant

fun dns_step :: "dns_op \<Rightarrow> dns_cache \<Rightarrow> dns_cache" where
  "dns_step (DnsCommit domain answers tgid now) c = snd (commit_observed_batch domain answers tgid now c)"
| "dns_step (DnsSeed resolved) c = record_resolved_domains resolved c"
| "dns_step (DnsLookup ip now) c = snd (lookup_attribution ip now c)"
| "dns_step (DnsReverse addr hostname now) c = snd (commit_reverse_lookup addr hostname now c)"

definition dns_name :: "string \<Rightarrow> string" where
  "dns_name domain = to_lowercase (trim_end_dots domain)"

text \<open>What an operation says about addresses: a name with its source and expiry.\<close>

fun answers_of :: "dns_op \<Rightarrow> ((ip_addr \<times> string) \<times> attribution_metadata) list" where
  "answers_of (DnsCommit domain answers tgid now) =
     (if trim_end_dots (trim domain) = [] \<or> length answers > MAX_OBSERVED_BATCH then []
      else map (\<lambda>a. ((fst a, dns_name (trim_end_dots (trim domain))),
                     \<lparr> am_source = ObservedDns tgid, am_expires_at = now + int (observed_ttl (snd a)) \<rparr>)) answers)"
| "answers_of (DnsSeed resolved) =
     map (\<lambda>(domain, ip, now). ((ip, dns_name domain), \<lparr> am_source = StartupSeed, am_expires_at = now + int STARTUP_SEED_TTL \<rparr>))
       resolved"
| "answers_of _ = []"

fun op_time :: "dns_op \<Rightarrow> instant \<Rightarrow> bool" where
  "op_time (DnsLookup ip t) now \<longleftrightarrow> t \<le> now"
| "op_time (DnsReverse addr h t) now \<longleftrightarrow> t \<le> now"
| "op_time _ now \<longleftrightarrow> True"

text \<open>The last word on a name of an address, and the names that count at a given time.\<close>

definition last_answer :: "dns_op list \<Rightarrow> ip_addr \<Rightarrow> string \<Rightarrow> attribution_metadata option" where
  "last_answer ops ip name = map_of (rev (concat (map answers_of ops))) (ip, name)"

definition live_names :: "dns_op list \<Rightarrow> ip_addr \<Rightarrow> instant \<Rightarrow> string set" where
  "live_names ops ip now = {name. \<exists>m. last_answer ops ip name = Some m \<and> am_expires_at m > now}"

definition observed_names :: "dns_op list \<Rightarrow> ip_addr \<Rightarrow> instant \<Rightarrow> string set" where
  "observed_names ops ip now =
     {name. \<exists>m. last_answer ops ip name = Some m \<and> am_expires_at m > now \<and> is_observed m}"

definition history_resolution :: "string set \<Rightarrow> resolution option" where
  "history_resolution names =
     (case sorted_list_of_set names of [] \<Rightarrow> None | [n] \<Rightarrow> Some (Exact n) | ns \<Rightarrow> Some (Ambiguous ns))"

definition agree :: "instant \<Rightarrow> dns_cache \<Rightarrow> ((ip_addr \<times> string) \<times> attribution_metadata) list \<Rightarrow> bool" where
  "agree now c H \<longleftrightarrow> (\<forall>ip. distinct (map fst (records_of c ip)) \<and>
     (\<forall>name m. am_expires_at m > now \<longrightarrow>
        (map_of (records_of c ip) name = Some m \<longleftrightarrow> map_of (rev H) (ip, name) = Some m)))"

lemma agree_distinct: "agree now c H \<Longrightarrow> distinct (map fst (records_of c ip))"
  unfolding agree_def by blast

lemma agree_iff:
  "agree now c H \<Longrightarrow> am_expires_at m > now \<Longrightarrow>
   map_of (records_of c ip) name = Some m \<longleftrightarrow> map_of (rev H) (ip, name) = Some m"
  unfolding agree_def by blast

lemma agreeI:
  assumes "\<And>ip. distinct (map fst (records_of c ip))"
    and "\<And>ip name m. am_expires_at m > now \<Longrightarrow>
      map_of (records_of c ip) name = Some m \<longleftrightarrow> map_of (rev H) (ip, name) = Some m"
  shows "agree now c H"
  unfolding agree_def using assms by blast

lemma records_of_reverse [simp]: "records_of (c\<lparr>reverse_cache := r\<rparr>) ip = records_of c ip"
  by (simp add: records_of_def)

lemma agree_reverse [simp]: "agree now (c\<lparr>reverse_cache := r\<rparr>) H \<longleftrightarrow> agree now c H"
  by (simp add: agree_def)

lemma records_of_insert:
  "records_of (dns_insert d ip src e c) ip' =
     (if ip' = ip then assoc_insert (dns_name d) \<lparr> am_source = src, am_expires_at = e \<rparr> (records_of c ip) else records_of c ip')"
  by (simp add: records_of_def dns_insert_def dns_name_def)

lemma agree_insert:
  assumes "agree now c H"
  shows "agree now (dns_insert d ip src e c) (H @ [((ip, dns_name d), \<lparr> am_source = src, am_expires_at = e \<rparr>)])"
proof (rule agreeI)
  show "distinct (map fst (records_of (dns_insert d ip src e c) ip'))" for ip'
    using agree_distinct [OF assms] by (simp add: records_of_insert distinct_assoc_insert)
  fix ip' name and m :: attribution_metadata
  assume "am_expires_at m > now"
  from agree_iff [OF assms this]
  show "map_of (records_of (dns_insert d ip src e c) ip') name = Some m \<longleftrightarrow>
      map_of (rev (H @ [((ip, dns_name d), \<lparr> am_source = src, am_expires_at = e \<rparr>)])) (ip', name) = Some m"
    by (simp add: records_of_insert del: map_of_eq_Some_iff)
qed

lemma agree_fold:
  assumes "\<And>x c H. agree now c H \<Longrightarrow> agree now (f x c) (H @ [g x])"
  shows "agree now c H \<Longrightarrow> agree now (fold f xs c) (H @ map g xs)"
proof (induction xs arbitrary: c H)
  case (Cons x xs)
  from Cons.IH [OF assms [OF Cons.prems]] show ?case by simp
qed simp

lemma agree_commit:
  assumes "agree now c H"
  shows "agree now (snd (commit_observed_batch domain answers tgid t c)) (H @ answers_of (DnsCommit domain answers tgid t))"
proof -
  let ?d = "trim_end_dots (trim domain)"
  let ?g = "\<lambda>a. ((fst a, dns_name ?d), \<lparr> am_source = ObservedDns tgid, am_expires_at = t + int (observed_ttl (snd a)) \<rparr>)"
  have "agree now (fold (commit_observed ?d tgid t) answers c) (H @ map ?g answers)"
    by (rule agree_fold [OF _ assms]) (simp add: commit_observed_def Let_def agree_insert)
  with assms show ?thesis by (auto simp: commit_observed_batch_def Let_def)
qed

lemma agree_seed: "agree now c H \<Longrightarrow> agree now (record_resolved_domains resolved c) (H @ answers_of (DnsSeed resolved))"
  unfolding record_resolved_domains_def answers_of.simps
  by (rule agree_fold) (auto intro: agree_insert split: prod.splits)

lemma agree_lookup_forward:
  assumes "agree now c H" and "t \<le> now"
  shows "agree now (snd (lookup_forward addr t c)) H"
proof (cases "forward_cache c addr")
  case (Some rs)
  have rs: "records_of c addr = rs" by (simp add: records_of_def Some)
  have d: "distinct (map fst rs)" using agree_distinct [OF assms(1), of addr] by (simp add: rs)
  have f: "map_of (filter (\<lambda>p. am_expires_at (snd p) > t) rs) name = Some m \<longleftrightarrow> map_of rs name = Some m"
    if "am_expires_at m > now" for name m
    using that assms(2) d by (auto simp: distinct_map_fst_filter)
  have r: "records_of (snd (lookup_forward addr t c)) ip =
      (if ip = addr then filter (\<lambda>p. am_expires_at (snd p) > t) rs else records_of c ip)" for ip
    by (simp add: lookup_forward_def Some records_of_def)
  show ?thesis
  proof (rule agreeI)
    show "distinct (map fst (records_of (snd (lookup_forward addr t c)) ip))" for ip
      using agree_distinct [OF assms(1), of ip] d by (simp add: r distinct_map_fst_filter)
    fix ip name and m :: attribution_metadata
    assume m: "am_expires_at m > now"
    show "map_of (records_of (snd (lookup_forward addr t c)) ip) name = Some m \<longleftrightarrow> map_of (rev H) (ip, name) = Some m"
    proof (cases "ip = addr")
      case True
      then show ?thesis using agree_iff [OF assms(1) m, of addr name] f [OF m, of name] by (simp only: r simp_thms if_True rs)
    next
      case False
      then show ?thesis using agree_iff [OF assms(1) m, of ip name] by (simp only: r if_False)
    qed
  qed
qed (use assms in \<open>simp add: lookup_forward_def\<close>)

lemma agree_lookup:
  assumes "agree now c H" and "t \<le> now"
  shows "agree now (snd (lookup_attribution ip t c)) H" and "agree now (snd (commit_reverse_lookup addr h t c)) H"
proof -
  have "agree now (snd (lookup_forward a t c)) H" for a using agree_lookup_forward [OF assms] .
  then have "agree now c' H" if "lookup_forward a t c = (r, c')" for a r c' using that by (metis snd_conv)
  with assms(1) show "agree now (snd (lookup_attribution ip t c)) H"
    by (auto simp: lookup_attribution_def split: option.splits prod.splits)
  show "agree now (snd (commit_reverse_lookup addr h t c)) H"
    using agree_lookup_forward [OF assms, of addr]
    by (auto simp: commit_reverse_lookup_def Let_def split: option.splits prod.splits)
qed

lemma agree_run:
  "agree now c H \<Longrightarrow> list_all (\<lambda>op. op_time op now) ops \<Longrightarrow>
   agree now (fold dns_step ops c) (H @ concat (map answers_of ops))"
proof (induction ops arbitrary: c H)
  case (Cons op ops)
  have "agree now (dns_step op c) (H @ answers_of op)"
    using Cons.prems agree_commit agree_seed agree_lookup by (cases op) auto
  from Cons.IH [OF this] Cons.prems show ?case by simp
qed simp

lemma agree_new: "agree now dns_cache_new []"
  by (simp add: agree_def records_of_def dns_cache_new_def)

lemma resolution_of_set:
  assumes "distinct names"
  shows "resolution_of names = history_resolution (set names)"
proof -
  have s: "sorted_list_of_set (set names) = sort names"
    using assms by (simp only: sorted_list_of_set_sort_remdups distinct_remdups_id)
  have l: "length (sort names) = length names" by simp
  consider "names = []" | n where "names = [n]" | "length names > 1"
    by (cases names; cases "tl names") auto
  then show ?thesis
  proof cases
    case 3
    then obtain x y zs where "sort names = x # y # zs"
      using l by (cases "sort names"; cases "tl (sort names)") auto
    with 3 show ?thesis unfolding history_resolution_def s by (simp add: resolution_of_def)
  qed (simp_all add: resolution_of_def history_resolution_def)
qed

lemma lookup_forward_result:
  "fst (lookup_forward addr now c) = resolution_of (attributed_names now (records_of c addr))"
  by (simp add: lookup_forward_def records_of_def attributed_names_def resolution_of_def split: option.split)

lemma attributed_names_set:
  assumes "agree now c H"
  shows "distinct (attributed_names now (records_of c addr))"
    and "set (attributed_names now (records_of c addr)) =
      (let obs = {name. \<exists>m. map_of (rev H) (addr, name) = Some m \<and> am_expires_at m > now \<and> is_observed m}
       in if obs = {} then {name. \<exists>m. map_of (rev H) (addr, name) = Some m \<and> am_expires_at m > now} else obs)"
proof -
  let ?rs = "records_of c addr"
  have d: "distinct (map fst ?rs)" using assms by (rule agree_distinct)
  then show "distinct (attributed_names now ?rs)"
    by (simp add: attributed_names_def Let_def distinct_map_fst_filter)
  have mem: "(name, m) \<in> set ?rs \<longleftrightarrow> map_of (rev H) (addr, name) = Some m" if "am_expires_at m > now" for name m
    using agree_iff [OF assms that, of addr name] d by simp
  have live: "fst ` set (filter (\<lambda>p. am_expires_at (snd p) > now) ?rs) =
      {name. \<exists>m. map_of (rev H) (addr, name) = Some m \<and> am_expires_at m > now}"
    using mem by force
  have obs: "fst ` set (filter (\<lambda>p. is_observed (snd p)) (filter (\<lambda>p. am_expires_at (snd p) > now) ?rs)) =
      {name. \<exists>m. map_of (rev H) (addr, name) = Some m \<and> am_expires_at m > now \<and> is_observed m}"
    using mem by force
  show "set (attributed_names now ?rs) =
      (let obs = {name. \<exists>m. map_of (rev H) (addr, name) = Some m \<and> am_expires_at m > now \<and> is_observed m}
       in if obs = {} then {name. \<exists>m. map_of (rev H) (addr, name) = Some m \<and> am_expires_at m > now} else obs)"
    unfolding attributed_names_def Let_def obs [symmetric] live [symmetric]
    by (simp only: set_map if_distrib [of set] image_is_empty set_empty map_is_Nil_conv)
qed

lemma lookup_forward_history:
  assumes "list_all (\<lambda>op. op_time op now) ops"
  shows "fst (lookup_forward addr now (fold dns_step ops dns_cache_new)) =
    history_resolution (if observed_names ops addr now = {} then live_names ops addr now else observed_names ops addr now)"
proof -
  have ag: "agree now (fold dns_step ops dns_cache_new) (concat (map answers_of ops))"
    using agree_run [OF agree_new assms] by simp
  show ?thesis
    unfolding lookup_forward_result resolution_of_set [OF attributed_names_set(1) [OF ag]]
      attributed_names_set(2) [OF ag] live_names_def observed_names_def last_answer_def Let_def ..
qed


definition sample_ip :: ip_addr where
  "sample_ip = V4 [192, 0, 2, 7]"

definition two_answers :: "dns_op list" where
  "two_answers = [DnsCommit ''a.test.'' [(sample_ip, 0)] 1 0, DnsCommit ''b.test'' [(sample_ip, 0)] 1 0]"

lemma secs_consts:
  "OBSERVED_ATTRIBUTION_TTL_FLOOR = 600000000000" "MAX_OBSERVED_TTL = 3600000000000" "STARTUP_SEED_TTL = 300000000000"
  by (simp_all add: OBSERVED_ATTRIBUTION_TTL_FLOOR_def MAX_OBSERVED_TTL_def STARTUP_SEED_TTL_def secs_def)

lemma sample_names: "dns_name ''a.test'' = ''a.test''" "dns_name ''b.test'' = ''b.test''"
    "trim_end_dots (trim ''a.test.'') = ''a.test''" "trim_end_dots (trim ''b.test'') = ''b.test''"
  by code_simp+

lemma sample_live:
  "observed_names two_answers sample_ip 5 = {''a.test'', ''b.test''}"
  by (auto simp: observed_names_def last_answer_def two_answers_def sample_names observed_ttl_def secs_consts
      MAX_OBSERVED_BATCH_def is_observed_def split: if_splits)


subsection \<open>Observed answers stay visible\<close>

lemma in_sorted_set: "finite A \<Longrightarrow> n \<in> A \<Longrightarrow> sorted_list_of_set A \<noteq> [] \<and> n \<in> set (sorted_list_of_set A)"
  by (metis empty_iff list.set(1) set_sorted_list_of_set)

lemma finite_observed: "finite (observed_names ops ip now)"
proof (rule finite_subset)
  show "observed_names ops ip now \<subseteq> snd ` fst ` set (concat (map answers_of ops))"
    unfolding observed_names_def last_answer_def by (force dest: map_of_SomeD)
qed simp

text \<open>
  Once a batch of answers for a name is committed, every address of it resolves, for the whole
  attribution floor of ten minutes, to that name or to a list that holds it, unless the same name
  is seeded again for the address.
\<close>

lemma committed_answer_attributed:
  assumes "fst (commit_observed_batch domain answers tgid t c0) = Inr n" and "(ip, ttl) \<in> set answers"
    and "\<forall>op \<in> set after. \<forall>x \<in> set (answers_of op). fst x = (ip, dns_name (trim_end_dots (trim domain))) \<longrightarrow>
      am_expires_at (snd x) > now \<and> is_observed (snd x)"
    and "list_all (\<lambda>op. op_time op now) (before @ after)" and "now < t + int (secs 600)"
  shows "case fst (lookup_forward ip now (fold dns_step (before @ DnsCommit domain answers tgid t # after) dns_cache_new)) of
      Some (Exact name) \<Rightarrow> name = dns_name (trim_end_dots (trim domain))
    | Some (Ambiguous names) \<Rightarrow> dns_name (trim_end_dots (trim domain)) \<in> set names
    | _ \<Rightarrow> False"
proof -
  let ?name = "dns_name (trim_end_dots (trim domain))" and ?ops = "before @ DnsCommit domain answers tgid t # after"
  let ?good = "\<lambda>m. am_expires_at m > now \<and> is_observed m"
  have ok: "trim_end_dots (trim domain) \<noteq> []" "\<not> length answers > MAX_OBSERVED_BATCH"
    using assms(1) by (auto simp: commit_observed_batch_def Let_def split: if_splits)
  have good: "?good (snd x)" if "x \<in> set (answers_of (DnsCommit domain answers tgid t)) \<union> (\<Union>op \<in> set after. set (answers_of op))"
      "fst x = (ip, ?name)" for x
    using that assms(3,5) ok by (auto simp: observed_ttl_def OBSERVED_ATTRIBUTION_TTL_FLOOR_def is_observed_def)
  have mem: "\<exists>m. ((ip, ?name), m) \<in> set (answers_of (DnsCommit domain answers tgid t))"
    using assms(2) ok by force
  let ?X = "rev (answers_of (DnsCommit domain answers tgid t) @ concat (map answers_of after))"
  obtain m0 where "((ip, ?name), m0) \<in> set ?X" using mem by (auto simp del: answers_of.simps)
  then obtain m where m: "map_of ?X (ip, ?name) = Some m" using weak_map_of_SomeI by fastforce
  have "last_answer ?ops ip ?name = Some m"
    using m by (auto simp: last_answer_def map_add_Some_iff simp del: answers_of.simps)
  moreover have "?good m"
    using good [of "((ip, ?name), m)"] map_of_SomeD [OF m] by (auto simp del: answers_of.simps)
  ultimately have "\<exists>m. last_answer ?ops ip ?name = Some m \<and> ?good m" by blast
  then have "?name \<in> observed_names ?ops ip now" by (auto simp: observed_names_def)
  with in_sorted_set [OF finite_observed this]
  show ?thesis
    using lookup_forward_history [of now ?ops ip] assms(4)
    by (auto simp: history_resolution_def split: list.splits)
qed

text \<open>
  Seeding undoes ambiguity: two conflicting observed answers for an address are ambiguous, but
  when the periodic refresh seeds one of the two names again, its entry turns into a seed, the
  other name alone counts as observed, and the address resolves exactly to it.
\<close>

theorem reseeding_resolves_conflict:
  "fst (lookup_forward sample_ip 5 (fold dns_step two_answers dns_cache_new)) = Some (Ambiguous [''a.test'', ''b.test'']) \<and>
   fst (lookup_forward sample_ip 7 (fold dns_step (two_answers @ [DnsSeed [(''a.test'', sample_ip, 6)]]) dns_cache_new)) =
     Some (Exact ''b.test'')"
proof
  have "sorted_list_of_set {''a.test'', ''b.test''} = [''a.test'', ''b.test'']" by code_simp
  then show "fst (lookup_forward sample_ip 5 (fold dns_step two_answers dns_cache_new)) = Some (Ambiguous [''a.test'', ''b.test''])"
    using lookup_forward_history [of 5 two_answers sample_ip]
    by (simp add: sample_live history_resolution_def) (simp add: two_answers_def)
  let ?ops = "two_answers @ [DnsSeed [(''a.test'', sample_ip, 6)]]"
  have "observed_names ?ops sample_ip 7 = {''b.test''}"
    by (auto simp: observed_names_def last_answer_def two_answers_def sample_names observed_ttl_def secs_consts
        MAX_OBSERVED_BATCH_def is_observed_def split: if_splits)
  then show "fst (lookup_forward sample_ip 7 (fold dns_step ?ops dns_cache_new)) = Some (Exact ''b.test'')"
    using lookup_forward_history [of 7 ?ops sample_ip]
    by (simp add: history_resolution_def) (simp add: two_answers_def)
qed

end
