(* ===== verification/Dns_Route.thy ===== *)
theory Dns_Route
  imports Dns_Wire Dns_Cache
begin

section \<open>The proxy for connected DNS sockets\<close>

text \<open>
  \<open>crates/grith-supervisor/src/connected_dns_proxy.rs\<close>: the routes of a session's DNS proxy, the
  fate of one query, and the worker that creates and releases routes. A \<open>tokio\<close> task is a function
  from what the outside answers to the effects it has, in order; one turn of a \<open>select\<close> loop is a
  step on the task's state for the branch that fired. The policy service, the sockets, the clock
  and the lock of the cache are arguments. A rendezvous channel whose caller gave up is the
  argument \<open>waiting = False\<close>.
\<close>

definition ROUTE_COMMAND_CAPACITY :: nat where "ROUTE_COMMAND_CAPACITY = 4"
definition CACHE_COMMIT_TIMEOUT :: duration where "CACHE_COMMIT_TIMEOUT = 100000000"
definition CACHE_COMMIT_RETRY_DELAY :: duration where "CACHE_COMMIT_RETRY_DELAY = 1000000"

record socket_addr =
  sa_ip :: ip_addr
  sa_port :: u16
  sa_flowinfo :: u32
  sa_scope_id :: u32

definition socket_addr_new :: "ip_addr \<Rightarrow> u16 \<Rightarrow> socket_addr" where
  "socket_addr_new ip port = \<lparr> sa_ip = ip, sa_port = port, sa_flowinfo = 0, sa_scope_id = 0 \<rparr>"

definition is_ipv4 :: "socket_addr \<Rightarrow> bool" where
  "is_ipv4 a \<longleftrightarrow> (case sa_ip a of V4 _ \<Rightarrow> True | V6 _ \<Rightarrow> False)"

type_synonym route_id = u64

record dns_route_provenance =
  drp_tgid :: u32
  drp_creator_tid :: u32
  drp_socket_id :: u64

definition for_tgid :: "u32 \<Rightarrow> dns_route_provenance" where
  "for_tgid tgid = \<lparr> drp_tgid = tgid, drp_creator_tid = tgid, drp_socket_id = 0 \<rparr>"

datatype queue_action = QueueRefuse | QueueForward

record dns_decision_request =
  ddr_route_id :: route_id
  ddr_provenance :: dns_route_provenance
  ddr_original_resolver :: socket_addr
  ddr_transaction_id :: u16
  ddr_domain :: string
  ddr_query_type :: string
  ddr_queue_action :: queue_action

datatype dns_decision = DnsAllow | DnsDeny string | DnsQueue string | DnsInfrastructureFailure string

record proxy_config =
  pc_max_routes :: nat
  pc_max_in_flight_queries :: nat
  pc_max_policy_in_flight :: nat
  pc_control_channel_capacity :: nat
  pc_pending_datagrams_per_route :: nat
  pc_max_datagram_size :: nat
  pc_queue_action :: queue_action
  pc_worker_threads :: nat

definition proxy_config_default :: proxy_config where
  "proxy_config_default =
     \<lparr> pc_max_routes = 256, pc_max_in_flight_queries = 1024, pc_max_policy_in_flight = 128,
       pc_control_channel_capacity = 256, pc_pending_datagrams_per_route = 8, pc_max_datagram_size = 4096,
       pc_queue_action = QueueRefuse, pc_worker_threads = 2 \<rparr>"

text \<open>An error whose text quotes addresses carries the addresses; the others carry their text.\<close>

datatype dns_proxy_error =
    InvalidConfiguration string
  | WorkerUnavailable string
  | ControlCapacity
  | RouteCapacity nat
  | RouteNotFound route_id
  | InvalidClient socket_addr
  | ControlTimeout
  | RouteFailure string
  | RouteTaken socket_addr socket_addr
  | ClientFamily socket_addr

definition proxy_config_validate :: "proxy_config \<Rightarrow> dns_proxy_error + unit" where
  "proxy_config_validate c =
     (if pc_max_routes c = 0 \<or> pc_max_in_flight_queries c = 0 \<or> pc_max_policy_in_flight c = 0 \<or>
         pc_control_channel_capacity c = 0 \<or> pc_pending_datagrams_per_route c = 0 \<or>
         pc_max_datagram_size c < 12 \<or> pc_worker_threads c = 0
      then Inl (InvalidConfiguration ''all capacities/worker counts must be non-zero and max_datagram_size >= 12'')
      else Inr ())"

subsection \<open>One query\<close>

text \<open>What a query task does to the outside, in order.\<close>

datatype dns_effect =
    AskPolicy dns_decision_request
  | SendUpstream socket_addr string
  | CommitCache string "dns_answer list" u32
  | SendClient socket_addr string

datatype policy_outcome = Decided dns_decision | Panicked | PolicyTimeout

datatype recv_outcome = RecvTimeout | RecvError string | RecvBytes string

text \<open>The answers of the upstream socket to \<open>bind\<close>, \<open>connect\<close>, \<open>send\<close> and \<open>recv\<close>.\<close>

record upstream_io =
  up_bind :: "string + unit"
  up_connect :: "string + unit"
  up_send :: "string + nat"
  up_recv :: recv_outcome

record validated_response =
  vr_bytes :: string
  vr_parsed :: parsed_response

text \<open>The effects list holds the datagram handed to the resolver, if \<open>send\<close> was reached.\<close>

definition forward_exact_query ::
    "proxy_config \<Rightarrow> socket_addr \<Rightarrow> string \<Rightarrow> parsed_query \<Rightarrow> upstream_io \<Rightarrow> (string + validated_response) \<times> dns_effect list" where
  "forward_exact_query config original_resolver raw_query query io =
     (case up_bind io of Inl e \<Rightarrow> (Inl e, []) | Inr _ \<Rightarrow>
      case up_connect io of Inl e \<Rightarrow> (Inl e, []) | Inr _ \<Rightarrow>
      (case up_send io of
         Inl e \<Rightarrow> Inl e
       | Inr sent \<Rightarrow>
           if sent \<noteq> length raw_query
           then Inl (''short upstream datagram send: '' @ digits_of_nat sent @ ''/'' @ digits_of_nat (length raw_query))
           else (case up_recv io of
               RecvTimeout \<Rightarrow> Inl ''upstream DNS response timed out''
             | RecvError e \<Rightarrow> Inl e
             | RecvBytes datagram \<Rightarrow>
                 (let buffer = take (pc_max_datagram_size config + 1) datagram
                  in if length buffer > pc_max_datagram_size config
                     then Inl (''upstream DNS response exceeds '' @ digits_of_nat (pc_max_datagram_size config) @ '' bytes'')
                     else (case parse_matching_response buffer query of
                         None \<Rightarrow> Inl ''upstream response did not match transaction/question''
                       | Some parsed \<Rightarrow> Inr \<lparr> vr_bytes = buffer, vr_parsed = parsed \<rparr>))),
       [SendUpstream original_resolver raw_query]))"

datatype lock_attempt = Acquired | Poisoned | WouldBlock

text \<open>
  The lock of the cache as the task finds it: the outcome of the \<open>k\<close>-th \<open>try_lock\<close>, the clock read
  after it, and the clock read inside the commit.
\<close>

record cache_lock =
  cl_try :: "nat \<Rightarrow> lock_attempt"
  cl_clock :: "nat \<Rightarrow> instant"
  cl_commit_at :: instant

definition display_cache_error :: "dns_cache_error \<Rightarrow> string" where
  "display_cache_error e =
     (case e of EmptyDomain \<Rightarrow> ''observed DNS domain is empty''
      | TooManyAnswers \<Rightarrow> ''observed DNS answer batch exceeds 256 records'')"

text \<open>The retry loop may wait for ever if the clock stands still: not returning is \<open>None\<close>.\<close>

partial_function (option) commit_loop ::
    "cache_lock \<Rightarrow> instant \<Rightarrow> string \<Rightarrow> dns_answer list \<Rightarrow> u32 \<Rightarrow> dns_cache \<Rightarrow> nat \<Rightarrow> ((string + nat) \<times> dns_cache) option" where
  "commit_loop lock deadline domain answers tgid cache k =
     (case cl_try lock k of
        Acquired \<Rightarrow>
          (case commit_observed_batch domain (map (\<lambda>a. (da_ip a, da_ttl a)) answers) tgid (cl_commit_at lock) cache of
             (Inl e, cache') \<Rightarrow> Some (Inl (display_cache_error e), cache')
           | (Inr n, cache') \<Rightarrow> Some (Inr n, cache'))
      | Poisoned \<Rightarrow> Some (Inl ''DNS cache mutex poisoned'', cache)
      | WouldBlock \<Rightarrow>
          if cl_clock lock k \<ge> deadline then Some (Inl ''DNS cache mutex remained unavailable'', cache)
          else commit_loop lock deadline domain answers tgid cache (Suc k))"

definition commit_cache_batch ::
    "cache_lock \<Rightarrow> instant \<Rightarrow> string \<Rightarrow> dns_answer list \<Rightarrow> u32 \<Rightarrow> dns_cache \<Rightarrow> ((string + nat) \<times> dns_cache) option" where
  "commit_cache_batch lock start domain answers tgid cache =
     commit_loop lock (start + int CACHE_COMMIT_TIMEOUT) domain answers tgid cache 0"

text \<open>\<open>permit\<close> says whether a policy permit was free; \<open>evaluate\<close> is the policy service.\<close>

definition policy_decision :: "bool \<Rightarrow> (dns_decision_request \<Rightarrow> policy_outcome) \<Rightarrow> dns_decision_request \<Rightarrow> dns_decision" where
  "policy_decision permit evaluate request =
     (if permit then
        (case evaluate request of
           Decided d \<Rightarrow> d
         | Panicked \<Rightarrow> DnsInfrastructureFailure ''DNS policy evaluation panicked''
         | PolicyTimeout \<Rightarrow> DnsInfrastructureFailure ''DNS policy evaluation timed out'')
      else DnsInfrastructureFailure ''DNS policy capacity exhausted'')"

definition send_error :: "socket_addr \<Rightarrow> string \<Rightarrow> (string \<Rightarrow> string) \<Rightarrow> dns_effect list" where
  "send_error client query builder = (let response = builder query in if response = [] then [] else [SendClient client response])"

record query_io =
  qi_permit :: bool
  qi_evaluate :: "dns_decision_request \<Rightarrow> policy_outcome"
  qi_upstream :: upstream_io
  qi_lock :: cache_lock
  qi_commit_start :: instant

definition decision_request ::
    "proxy_config \<Rightarrow> route_id \<Rightarrow> socket_addr \<Rightarrow> dns_route_provenance \<Rightarrow> parsed_query \<Rightarrow> dns_decision_request" where
  "decision_request config rid original_resolver prov query =
     \<lparr> ddr_route_id = rid, ddr_provenance = prov, ddr_original_resolver = original_resolver,
       ddr_transaction_id = pq_id query, ddr_domain = pq_domain query, ddr_query_type = pq_query_type query,
       ddr_queue_action = pc_queue_action config \<rparr>"

text \<open>The part of \<open>process_query\<close> after a decision that lets the query pass.\<close>

definition relay_query ::
    "proxy_config \<Rightarrow> socket_addr \<Rightarrow> dns_route_provenance \<Rightarrow> socket_addr \<Rightarrow> string \<Rightarrow> parsed_query \<Rightarrow> query_io \<Rightarrow> dns_cache \<Rightarrow>
     (dns_effect list \<times> dns_cache) option" where
  "relay_query config original_resolver prov client raw_query query io cache =
     (case forward_exact_query config original_resolver raw_query query (qi_upstream io) of
        (Inl _, up) \<Rightarrow> Some (up @ send_error client raw_query build_servfail_response, cache)
      | (Inr response, up) \<Rightarrow>
          (case commit_cache_batch (qi_lock io) (qi_commit_start io) (pq_domain query) (pr_answers (vr_parsed response))
                  (drp_tgid prov) cache of
             None \<Rightarrow> None
           | Some (Inl _, cache') \<Rightarrow> Some (up @ send_error client raw_query build_servfail_response, cache')
           | Some (Inr _, cache') \<Rightarrow>
               Some (up @ [CommitCache (pq_domain query) (pr_answers (vr_parsed response)) (drp_tgid prov),
                           SendClient client (vr_bytes response)], cache')))"

definition process_query ::
    "proxy_config \<Rightarrow> route_id \<Rightarrow> socket_addr \<Rightarrow> dns_route_provenance \<Rightarrow> socket_addr \<Rightarrow> string \<Rightarrow> parsed_query \<Rightarrow> query_io \<Rightarrow>
     dns_cache \<Rightarrow> (dns_effect list \<times> dns_cache) option" where
  "process_query config rid original_resolver prov client raw_query query io cache =
     (let request = decision_request config rid original_resolver prov query;
          asked = (if qi_permit io then [AskPolicy request] else []);
          refuse = Some (asked @ send_error client raw_query build_refused_response, cache);
          relay = map_option (\<lambda>(effects, c). (asked @ effects, c))
                    (relay_query config original_resolver prov client raw_query query io cache)
      in case policy_decision (qi_permit io) (qi_evaluate io) request of
           DnsDeny _ \<Rightarrow> refuse
         | DnsQueue _ \<Rightarrow> (case pc_queue_action config of QueueRefuse \<Rightarrow> refuse | QueueForward \<Rightarrow> relay)
         | DnsInfrastructureFailure _ \<Rightarrow> Some (asked @ send_error client raw_query build_servfail_response, cache)
         | DnsAllow \<Rightarrow> relay)"

subsection \<open>One route\<close>

record pending_datagram =
  pd_source :: socket_addr
  pd_bytes :: string
  pd_oversized :: bool

record route_state =
  rt_registered :: "socket_addr option"
  rt_authorized :: "socket_addr option"
  rt_pending :: "pending_datagram list"

definition route_state_new :: route_state where
  "route_state_new = \<lparr> rt_registered = None, rt_authorized = None, rt_pending = [] \<rparr>"

text \<open>
  The branches of the \<open>select\<close> loop. The flag of a command says whether its caller still waits for
  the acknowledgement; a received datagram is what the network delivers before the buffer cuts it.
\<close>

datatype route_command = RegisterCmd socket_addr bool | ActivateCmd bool | ShutdownCmd

datatype route_event =
    GotCommand route_command
  | CommandsClosed
  | GotDatagram socket_addr string
  | ReceiveFailed string
  | QueryDone
  | QueryPanicked string
  | SessionShutdown

record route_result =
  rr_reply :: "(dns_proxy_error + unit) option"
  rr_dispatch :: "pending_datagram list"
  rr_ended :: "(string + unit) option"

definition keep_going :: "(dns_proxy_error + unit) option \<Rightarrow> pending_datagram list \<Rightarrow> route_result" where
  "keep_going reply dispatch = \<lparr> rr_reply = reply, rr_dispatch = dispatch, rr_ended = None \<rparr>"

definition loop_ends :: "string + unit \<Rightarrow> route_result" where
  "loop_ends r = \<lparr> rr_reply = None, rr_dispatch = [], rr_ended = Some r \<rparr>"

text \<open>\<open>endpoint\<close> is the answer of \<open>local_addr\<close> on the route's socket.\<close>

definition route_register ::
    "(string + socket_addr) \<Rightarrow> socket_addr \<Rightarrow> bool \<Rightarrow> route_state \<Rightarrow> route_result \<times> route_state" where
  "route_register endpoint client waiting st =
     (case (case rt_authorized st of Some a \<Rightarrow> Some a | None \<Rightarrow> rt_registered st) of
        Some existing \<Rightarrow>
          if existing = client then (keep_going (Some (Inr ())) [], st)
          else (keep_going (Some (Inl (RouteTaken existing client))) [], st)
      | None \<Rightarrow>
          (case endpoint of
             Inl e \<Rightarrow> (loop_ends (Inl e), st)
           | Inr local \<Rightarrow>
               if is_ipv4 client \<noteq> is_ipv4 local then (keep_going (Some (Inl (ClientFamily client))) [], st)
               else if waiting then (keep_going (Some (Inr ())) [], st\<lparr>rt_registered := Some client\<rparr>)
               else (keep_going None [], st\<lparr>rt_registered := None\<rparr>)))"

definition route_activate :: "bool \<Rightarrow> route_state \<Rightarrow> route_result \<times> route_state" where
  "route_activate waiting st =
     (if rt_authorized st \<noteq> None then (keep_going (Some (Inr ())) [], st)
      else (case rt_registered st of
          Some client \<Rightarrow>
            if waiting
            then (keep_going (Some (Inr ())) (filter (\<lambda>d. pd_source d = client) (rt_pending st)),
                  st\<lparr>rt_authorized := Some client, rt_pending := []\<rparr>)
            else (keep_going None [], st\<lparr>rt_authorized := None\<rparr>)
        | None \<Rightarrow> (keep_going (Some (Inl (RouteFailure ''route cannot activate before client registration''))) [], st)))"

definition route_datagram :: "proxy_config \<Rightarrow> socket_addr \<Rightarrow> string \<Rightarrow> route_state \<Rightarrow> route_result \<times> route_state" where
  "route_datagram config source datagram st =
     (let received = take (pc_max_datagram_size config + 1) datagram;
          d = \<lparr> pd_source = source, pd_bytes = received, pd_oversized = length received > pc_max_datagram_size config \<rparr>
      in case rt_authorized st of
           Some client \<Rightarrow> (keep_going None (if source = client then [d] else []), st)
         | None \<Rightarrow>
             if length (rt_pending st) < pc_pending_datagrams_per_route config
             then (keep_going None [], st\<lparr>rt_pending := rt_pending st @ [d]\<rparr>)
             else (keep_going None [], st))"

fun route_step ::
    "proxy_config \<Rightarrow> (string + socket_addr) \<Rightarrow> route_event \<Rightarrow> route_state \<Rightarrow> route_result \<times> route_state" where
  "route_step config endpoint (GotCommand (RegisterCmd client waiting)) st = route_register endpoint client waiting st"
| "route_step config endpoint (GotCommand (ActivateCmd waiting)) st = route_activate waiting st"
| "route_step config endpoint (GotCommand ShutdownCmd) st = (loop_ends (Inr ()), st)"
| "route_step config endpoint CommandsClosed st = (loop_ends (Inr ()), st)"
| "route_step config endpoint (GotDatagram source datagram) st = route_datagram config source datagram st"
| "route_step config endpoint (ReceiveFailed e) st = (loop_ends (Inl e), st)"
| "route_step config endpoint QueryDone st = (keep_going None [], st)"
| "route_step config endpoint (QueryPanicked e) st = (loop_ends (Inl (''query task panicked or was cancelled: '' @ e)), st)"
| "route_step config endpoint SessionShutdown st = (loop_ends (Inr ()), st)"

text \<open>What becomes of a dispatched datagram: an immediate answer, or a task for the query.\<close>

datatype dispatched = AnswerNow "dns_effect list" | SpawnQuery string parsed_query

definition dispatch_datagram :: "socket_addr \<Rightarrow> pending_datagram \<Rightarrow> bool \<Rightarrow> dispatched" where
  "dispatch_datagram client d permit =
     (if pd_oversized d then AnswerNow (send_error client (pd_bytes d) build_formerr_response)
      else (case parse_query (pd_bytes d) of
          None \<Rightarrow> AnswerNow (send_error client (pd_bytes d) build_formerr_response)
        | Some query \<Rightarrow>
            if \<not> permit then AnswerNow (send_error client (pd_bytes d) build_servfail_response)
            else SpawnQuery (pd_bytes d) query))"

subsection \<open>The worker\<close>

text \<open>
  The worker keeps, per route, the bounded channel its task receives commands from; a channel is
  closed once the task has ended. The answer the caller gets at once is the first component.
\<close>

record route_control =
  rc_queue :: "route_command list"
  rc_closed :: bool

record dns_worker =
  wk_routes :: "(route_id \<times> route_control) list"
  wk_next_route_id :: route_id

definition proxy_bind_address :: "socket_addr \<Rightarrow> socket_addr" where
  "proxy_bind_address resolver =
     (case sa_ip resolver of
        V4 a \<Rightarrow> if ip_is_loopback (V4 a) then socket_addr_new (V4 a) 0 else socket_addr_new (V4 [127, 0, 0, 1]) 0
      | V6 a \<Rightarrow> if ip_is_loopback (V6 a) then socket_addr_new (V6 a) 0 else socket_addr_new (V6 [0, 0, 0, 0, 0, 0, 0, 1]) 0)"

text \<open>\<open>bound\<close> is the address the socket got, or why it could not be bound or named.\<close>

definition create_route :: "proxy_config \<Rightarrow> (string + socket_addr) \<Rightarrow> dns_worker \<Rightarrow> (dns_proxy_error + (route_id \<times> socket_addr)) \<times> dns_worker" where
  "create_route config bound w =
     (if length (wk_routes w) \<ge> pc_max_routes config then (Inl (RouteCapacity (pc_max_routes config)), w)
      else (case bound of
          Inl e \<Rightarrow> (Inl (RouteFailure e), w)
        | Inr endpoint \<Rightarrow>
            if unat (wk_next_route_id w) + 1 \<ge> 2 ^ 64 then (Inl (RouteFailure ''route ID space exhausted''), w)
            else (Inr (wk_next_route_id w, endpoint),
                  w\<lparr>wk_next_route_id := wk_next_route_id w + 1,
                    wk_routes := assoc_insert (wk_next_route_id w) \<lparr> rc_queue = [], rc_closed = False \<rparr> (wk_routes w)\<rparr>)))"

text \<open>\<open>try_send\<close> into the channel of a route; \<open>None\<close> is success.\<close>

definition try_send :: "route_command \<Rightarrow> route_control \<Rightarrow> dns_proxy_error option \<times> route_control" where
  "try_send cmd rc =
     (if rc_closed rc then (Some (WorkerUnavailable ''route task closed''), rc)
      else if length (rc_queue rc) \<ge> ROUTE_COMMAND_CAPACITY then (Some ControlCapacity, rc)
      else (None, rc\<lparr>rc_queue := rc_queue rc @ [cmd]\<rparr>))"

definition deliver :: "route_id \<Rightarrow> route_command \<Rightarrow> dns_worker \<Rightarrow> dns_proxy_error option \<times> dns_worker" where
  "deliver rid cmd w =
     (case map_of (wk_routes w) rid of
        None \<Rightarrow> (Some (RouteNotFound rid), w)
      | Some rc \<Rightarrow>
          (case try_send cmd rc of (e, rc') \<Rightarrow> (e, w\<lparr>wk_routes := assoc_insert rid rc' (wk_routes w)\<rparr>)))"

definition register_route_client :: "route_id \<Rightarrow> socket_addr \<Rightarrow> bool \<Rightarrow> dns_worker \<Rightarrow> dns_proxy_error option \<times> dns_worker" where
  "register_route_client rid client waiting w =
     (if sa_port client = 0 \<or> \<not> ip_is_loopback (sa_ip client) then (Some (InvalidClient client), w)
      else deliver rid (RegisterCmd client waiting) w)"

definition activate_route :: "route_id \<Rightarrow> bool \<Rightarrow> dns_worker \<Rightarrow> dns_proxy_error option \<times> dns_worker" where
  "activate_route rid waiting w = deliver rid (ActivateCmd waiting) w"

datatype release_outcome = SendTimedOut | ChannelClosed | AckTimedOut | AckDropped | AckReceived

definition release_route :: "route_id \<Rightarrow> release_outcome \<Rightarrow> dns_worker \<Rightarrow> (dns_proxy_error + unit) \<times> dns_worker" where
  "release_route rid outcome w =
     (case map_of (wk_routes w) rid of
        None \<Rightarrow> (Inr (), w)
      | Some _ \<Rightarrow>
          (case outcome of
             SendTimedOut \<Rightarrow> Inl ControlTimeout
           | ChannelClosed \<Rightarrow> Inr ()
           | AckTimedOut \<Rightarrow> Inl ControlTimeout
           | AckDropped \<Rightarrow> Inl (WorkerUnavailable ''route task exited'')
           | AckReceived \<Rightarrow> Inr (),
           w\<lparr>wk_routes := assoc_remove rid (wk_routes w)\<rparr>))"

text \<open>The commands the worker handles, and the end of a route's task.\<close>

datatype worker_command =
    CreateRoute "string + socket_addr" bool release_outcome
  | RegisterClient route_id socket_addr bool
  | ActivateRoute route_id bool
  | ReleaseRoute route_id release_outcome

fun worker_step :: "proxy_config \<Rightarrow> worker_command \<Rightarrow> dns_worker \<Rightarrow> dns_worker" where
  "worker_step config (CreateRoute bound waiting outcome) w =
     (case create_route config bound w of
        (Inl _, w') \<Rightarrow> w'
      | (Inr (rid, _), w') \<Rightarrow> if waiting then w' else snd (release_route rid outcome w'))"
| "worker_step config (RegisterClient rid client waiting) w = snd (register_route_client rid client waiting w)"
| "worker_step config (ActivateRoute rid waiting) w = snd (activate_route rid waiting w)"
| "worker_step config (ReleaseRoute rid outcome) w = snd (release_route rid outcome w)"

text \<open>A task that ended while its route was still listed stops the worker.\<close>

definition route_completed :: "route_id \<Rightarrow> (string + unit) \<Rightarrow> dns_worker \<Rightarrow> string option \<times> dns_worker" where
  "route_completed rid r w =
     (case r of
        Inr _ \<Rightarrow> (if map_of (wk_routes w) rid \<noteq> None then Some ''stopped unexpectedly'' else None,
                  w\<lparr>wk_routes := assoc_remove rid (wk_routes w)\<rparr>)
      | Inl reason \<Rightarrow> (Some reason, w\<lparr>wk_routes := assoc_remove rid (wk_routes w)\<rparr>))"

subsection \<open>Every query gets one answer\<close>

lemma build_error_response_length: "12 \<le> length (build_error_response query code)"
  by (auto simp: build_error_response_def Let_def get_range_Some split: option.splits prod.splits)

lemma error_builders:
  "build_formerr_response query \<noteq> []" "build_servfail_response query \<noteq> []" "build_refused_response query \<noteq> []"
  using build_error_response_length [of query FormErr] build_error_response_length [of query ServFail]
    build_error_response_length [of query Refused]
  by (auto simp: build_formerr_response_def build_servfail_response_def build_refused_response_def)

lemma send_error_simps [simp]:
  "send_error client q build_formerr_response = [SendClient client (build_formerr_response q)]"
  "send_error client q build_servfail_response = [SendClient client (build_servfail_response q)]"
  "send_error client q build_refused_response = [SendClient client (build_refused_response q)]"
  by (simp_all add: send_error_def error_builders)

lemma commit_observed_batch_error: "commit_observed_batch d as t n c = (Inl e, c') \<Longrightarrow> c' = c"
  by (auto simp: commit_observed_batch_def Let_def split: if_splits)

definition commit_done ::
    "cache_lock \<Rightarrow> string \<Rightarrow> dns_answer list \<Rightarrow> u32 \<Rightarrow> dns_cache \<Rightarrow> (string + nat) \<times> dns_cache \<Rightarrow> bool" where
  "commit_done lock domain answers tgid cache y \<longleftrightarrow>
     (case y of
        (Inr n, cache') \<Rightarrow>
          commit_observed_batch domain (map (\<lambda>a. (da_ip a, da_ttl a)) answers) tgid (cl_commit_at lock) cache = (Inr n, cache')
      | (Inl _, cache') \<Rightarrow> cache' = cache)"

lemma commit_doneI:
  "commit_done lock domain answers tgid cache (Inl e, cache)"
  "commit_observed_batch domain (map (\<lambda>a. (da_ip a, da_ttl a)) answers) tgid (cl_commit_at lock) cache = (Inr n, cache') \<Longrightarrow>
   commit_done lock domain answers tgid cache (Inr n, cache')"
  by (simp_all add: commit_done_def)

lemma commit_loop_result:
  assumes run: "commit_loop lock deadline domain answers tgid cache k = Some y"
  shows "commit_done lock domain answers tgid cache y"
proof (rule commit_loop.raw_induct [OF _ run])
  fix loop lock deadline domain answers tgid cache k y
  assume "\<And>lock deadline domain answers tgid cache k y.
      loop lock deadline domain answers tgid cache k = Some y \<Longrightarrow> commit_done lock domain answers tgid cache y"
    and "(case cl_try lock k of
        Acquired \<Rightarrow>
          (case commit_observed_batch domain (map (\<lambda>a. (da_ip a, da_ttl a)) answers) tgid (cl_commit_at lock) cache of
             (Inl e, cache') \<Rightarrow> Some (Inl (display_cache_error e), cache')
           | (Inr n, cache') \<Rightarrow> Some (Inr n, cache'))
      | Poisoned \<Rightarrow> Some (Inl ''DNS cache mutex poisoned'', cache)
      | WouldBlock \<Rightarrow>
          if cl_clock lock k \<ge> deadline then Some (Inl ''DNS cache mutex remained unavailable'', cache)
          else loop lock deadline domain answers tgid cache (Suc k)) = Some y"
  then show "commit_done lock domain answers tgid cache y"
    by (auto intro: commit_doneI dest: commit_observed_batch_error
        split: lock_attempt.splits prod.splits sum.splits if_splits)
qed

lemma commit_loop_returns:
  assumes "\<And>k. cl_clock lock k + int CACHE_COMMIT_RETRY_DELAY \<le> cl_clock lock (Suc k)"
  shows "deadline \<le> cl_clock lock k + int n * int CACHE_COMMIT_RETRY_DELAY \<Longrightarrow>
    \<exists>r. commit_loop lock deadline domain answers tgid cache k = Some r"
proof (induction n arbitrary: k)
  case 0
  then show ?case by (subst commit_loop.simps) (auto split: lock_attempt.splits prod.splits sum.splits)
next
  case (Suc n)
  have "deadline \<le> cl_clock lock (Suc k) + int n * int CACHE_COMMIT_RETRY_DELAY"
    using assms [of k] Suc.prems by (simp add: algebra_simps)
  with Suc.IH [of "Suc k"] show ?case
    by (subst commit_loop.simps) (auto split: lock_attempt.splits prod.splits sum.splits)
qed

lemma relay_query_result:
  assumes "relay_query config resolver prov client raw query io cache = Some (effects, cache')"
  shows "(\<exists>up. effects = up @ [SendClient client (build_servfail_response raw)] \<and> cache' = cache \<and>
       (up = [] \<or> up = [SendUpstream resolver raw])) \<or>
    (\<exists>response n. forward_exact_query config resolver raw query (qi_upstream io) = (Inr response, [SendUpstream resolver raw]) \<and>
       commit_observed_batch (pq_domain query) (map (\<lambda>a. (da_ip a, da_ttl a)) (pr_answers (vr_parsed response)))
         (drp_tgid prov) (cl_commit_at (qi_lock io)) cache = (Inr n, cache') \<and>
       effects = [SendUpstream resolver raw, CommitCache (pq_domain query) (pr_answers (vr_parsed response)) (drp_tgid prov),
         SendClient client (vr_bytes response)])"
proof -
  have up: "snd (forward_exact_query config resolver raw query io) \<in> {[], [SendUpstream resolver raw]}"
    "fst (forward_exact_query config resolver raw query io) = Inr v \<Longrightarrow>
     snd (forward_exact_query config resolver raw query io) = [SendUpstream resolver raw]" for io v
    by (auto simp: forward_exact_query_def split: sum.splits)
  show ?thesis
    using assms up [of "qi_upstream io"]
    by (auto simp: relay_query_def commit_cache_batch_def commit_done_def
        split: prod.splits sum.splits option.splits dest!: commit_loop_result)
qed

text \<open>
  C17. A query leaves only with permission: the datagram handed to the resolver is the query the
  process sent, to the resolver it asked, at most once, and only after the policy was asked and
  answered allow, or queue where the configuration forwards queued queries. A denial, a time-out,
  a panic of the policy or a missing permit sends nothing upstream.
\<close>

theorem queries_leave_with_permission:
  assumes "process_query config rid resolver prov client raw query io cache = Some (effects, cache')"
    and "SendUpstream target bytes \<in> set effects"
  shows "target = resolver \<and> bytes = raw \<and> qi_permit io \<and>
    length (filter (\<lambda>e. case e of SendUpstream _ _ \<Rightarrow> True | _ \<Rightarrow> False) effects) = 1 \<and>
    hd effects = AskPolicy (decision_request config rid resolver prov query) \<and>
    (qi_evaluate io (decision_request config rid resolver prov query) = Decided DnsAllow \<or>
     (\<exists>why. qi_evaluate io (decision_request config rid resolver prov query) = Decided (DnsQueue why)) \<and>
       pc_queue_action config = QueueForward)"
  using assms
  by (auto simp: process_query_def Let_def policy_decision_def
      split: if_splits policy_outcome.splits dns_decision.splits queue_action.splits dest!: relay_query_result)

text \<open>
  Every query gets exactly one answer: when the clock moves on by at least the retry delay
  between two attempts to take the lock, the task ends, and the last thing it does is its only
  message to the client.
\<close>

theorem every_query_answered_once:
  assumes "\<forall>k. cl_clock (qi_lock io) k + int CACHE_COMMIT_RETRY_DELAY \<le> cl_clock (qi_lock io) (Suc k)"
    and "qi_commit_start io \<le> cl_clock (qi_lock io) 0"
  shows "\<exists>effects cache' answer. process_query config rid resolver prov client raw query io cache = Some (effects @ [SendClient client answer], cache') \<and>
    list_all (\<lambda>e. case e of SendClient _ _ \<Rightarrow> False | _ \<Rightarrow> True) effects"
proof -
  have "\<exists>r. commit_cache_batch (qi_lock io) (qi_commit_start io) domain answers tgid cache = Some r" for domain answers tgid
    using commit_loop_returns [of "qi_lock io" "qi_commit_start io + int CACHE_COMMIT_TIMEOUT" 0 100 domain answers tgid cache] assms
    by (simp add: commit_cache_batch_def CACHE_COMMIT_TIMEOUT_def CACHE_COMMIT_RETRY_DELAY_def)
  then have "\<exists>r. relay_query config resolver prov client raw query io cache = Some r"
    by (auto simp: relay_query_def split: prod.splits sum.splits option.splits) (metis option.distinct(1))
  then obtain effects cache' where relay: "relay_query config resolver prov client raw query io cache = Some (effects, cache')" by auto
  then have "\<exists>es answer. effects = es @ [SendClient client answer] \<and> list_all (\<lambda>e. case e of SendClient _ _ \<Rightarrow> False | _ \<Rightarrow> True) es"
    by (auto dest!: relay_query_result)
  with relay show ?thesis
    by (fastforce simp: process_query_def Let_def split: if_splits dns_decision.splits queue_action.splits)
qed

subsection \<open>What the process reads is attributed\<close>

lemma dropWhile_none: "\<forall>b \<in> set s. \<not> P b \<Longrightarrow> dropWhile P s = s"
  by (cases s) auto

lemma trim_id: "list_all (\<lambda>b. \<not> is_space b) s \<Longrightarrow> trim s = s"
  by (simp add: trim_def list_all_iff dropWhile_none)

lemma trim_end_dots_id: "s \<noteq> [] \<Longrightarrow> last s \<noteq> CHR ''.'' \<Longrightarrow> trim_end_dots s = s"
  by (cases s rule: rev_cases) (auto simp: trim_end_dots_def)

lemma parsed_domain_name:
  assumes "parse_query raw = Some query"
  shows "trim_end_dots (trim (pq_domain query)) = pq_domain query"
    and "dns_name (pq_domain query) = to_lowercase (pq_domain query)"
    and "pq_domain query \<noteq> []"
proof -
  obtain e where "parse_name raw 12 False = Some (pq_domain query, e)" using assms by (rule parse_query_Some)
  note c = parse_name_chars [OF this]
  then show "trim_end_dots (trim (pq_domain query)) = pq_domain query"
    "dns_name (pq_domain query) = to_lowercase (pq_domain query)" "pq_domain query \<noteq> []"
    by (simp_all add: trim_id trim_end_dots_id dns_name_def)
qed

text \<open>The message to the client is an error answer, or the response that was committed.\<close>

lemma process_query_answer:
  assumes "process_query config rid resolver prov client raw query io cache = Some (effects, cache')"
    and "SendClient c answer \<in> set effects"
  shows "(\<exists>code. answer = build_error_response raw code) \<or>
    (\<exists>parsed n. parse_matching_response answer query = Some parsed \<and>
       commit_observed_batch (pq_domain query) (map (\<lambda>a. (da_ip a, da_ttl a)) (pr_answers parsed))
         (drp_tgid prov) (cl_commit_at (qi_lock io)) cache = (Inr n, cache'))"
proof -
  have fwd: "parse_matching_response (vr_bytes v) query = Some (vr_parsed v)"
    if "forward_exact_query config resolver raw query up = (Inr v, es)" for up v es
    using that by (auto simp: forward_exact_query_def Let_def split: sum.splits if_splits recv_outcome.splits option.splits)
  show ?thesis
    using assms
    by (fastforce simp: process_query_def Let_def build_servfail_response_def build_refused_response_def
        split: if_splits dns_decision.splits queue_action.splits dest!: relay_query_result fwd)
qed


text \<open>
  C36. With the default limits an allowed query is answered: if the policy allows it, the resolver
  answers it with a matching response of at most 4096 bytes and the lock of the cache is free, then
  the query goes out, the answers are committed (they never exceed the batch limit) and the
  process gets the resolver's response byte for byte, in this order.
\<close>

theorem allowed_query_relayed:
  assumes "parse_query raw = Some query" and "qi_permit io"
    and "qi_evaluate io (decision_request proxy_config_default rid resolver prov query) = Decided DnsAllow"
    and "qi_upstream io = \<lparr> up_bind = Inr (), up_connect = Inr (), up_send = Inr (length raw), up_recv = RecvBytes response \<rparr>"
    and "length response \<le> 4096" and "parse_matching_response response query = Some parsed"
    and "cl_try (qi_lock io) 0 = Acquired"
  shows "map_option fst (process_query proxy_config_default rid resolver prov client raw query io cache) =
    Some [AskPolicy (decision_request proxy_config_default rid resolver prov query), SendUpstream resolver raw,
      CommitCache (pq_domain query) (pr_answers parsed) (drp_tgid prov), SendClient client response]"
proof -
  have max: "pc_max_datagram_size proxy_config_default = 4096" by (simp add: proxy_config_default_def)
  have fwd: "forward_exact_query proxy_config_default resolver raw query (qi_upstream io) =
      (Inr \<lparr> vr_bytes = response, vr_parsed = parsed \<rparr>, [SendUpstream resolver raw])"
    using assms(4-6) by (simp add: forward_exact_query_def max)
  have "length (pr_answers parsed) \<le> MAX_OBSERVED_BATCH"
    using response_answers_fit [of response parsed] assms(5,6)
    by (auto simp: parse_matching_response_def bind_eq_Some_conv MAX_OBSERVED_BATCH_def split: if_splits)
  then have "fst (commit_observed_batch (pq_domain query) (map (\<lambda>a. (da_ip a, da_ttl a)) (pr_answers parsed)) (drp_tgid prov)
      (cl_commit_at (qi_lock io)) cache) = Inr (length (pr_answers parsed))"
    using parsed_domain_name [OF assms(1)] by (simp add: commit_observed_batch_def)
  then have "\<exists>cache'. commit_cache_batch (qi_lock io) (qi_commit_start io) (pq_domain query) (pr_answers parsed) (drp_tgid prov) cache =
      Some (Inr (length (pr_answers parsed)), cache')"
    using assms(7) by (auto simp: commit_cache_batch_def commit_loop.simps split: prod.splits)
  with fwd assms(2,3) show ?thesis
    by (auto simp: process_query_def policy_decision_def relay_query_def Let_def)
qed

subsection \<open>A route serves one client\<close>

fun route_run ::
    "proxy_config \<Rightarrow> (string + socket_addr) \<Rightarrow> route_event list \<Rightarrow> route_state \<Rightarrow> route_result list \<times> route_state" where
  "route_run config endpoint [] st = ([], st)"
| "route_run config endpoint (e # es) st =
     (case route_step config endpoint e st of (r, st') \<Rightarrow>
        if rr_ended r \<noteq> None then ([r], st')
        else (case route_run config endpoint es st' of (rs, st'') \<Rightarrow> (r # rs, st'')))"

definition dispatched_datagrams :: "route_result list \<Rightarrow> pending_datagram list" where
  "dispatched_datagrams rs = concat (map rr_dispatch rs)"

text \<open>The client was acknowledged by a registration and, after it, by an activation.\<close>

definition granted :: "route_event list \<Rightarrow> socket_addr \<Rightarrow> bool" where
  "granted h c \<longleftrightarrow> (\<exists>a b. h = a @ GotCommand (RegisterCmd c True) # b \<and> GotCommand (ActivateCmd True) \<in> set b)"

definition route_inv :: "route_event list \<Rightarrow> route_state \<Rightarrow> bool" where
  "route_inv h st \<longleftrightarrow>
     (\<forall>c. rt_registered st = Some c \<longrightarrow> GotCommand (RegisterCmd c True) \<in> set h) \<and>
     (\<forall>c. rt_authorized st = Some c \<longrightarrow> rt_registered st = Some c \<and> granted h c)"

lemma granted_append: "granted h c \<Longrightarrow> granted (h @ h') c"
  by (fastforce simp: granted_def)

lemma granted_activate: "GotCommand (RegisterCmd c True) \<in> set h \<Longrightarrow> granted (h @ [GotCommand (ActivateCmd True)]) c"
  by (fastforce simp: granted_def dest: split_list)

lemmas route_step_defs = route_register_def route_activate_def route_datagram_def keep_going_def loop_ends_def Let_def

lemma route_step_inv:
  assumes "route_inv h st" and "route_step config endpoint e st = (r, st')"
  shows "route_inv (h @ [e]) st'"
  using assms granted_append [of h _ "[e]"] granted_activate [of _ h]
  by (cases "(config, endpoint, e, st)" rule: route_step.cases)
    (auto simp: route_inv_def route_step_defs split: if_splits option.splits sum.splits)

lemma route_step_keeps:
  assumes "route_step config endpoint e st = (r, st')" and "rt_registered st = Some c"
    and "\<forall>a. rt_authorized st = Some a \<longrightarrow> a = c"
  shows "rt_registered st' = Some c"
  using assms
  by (cases "(config, endpoint, e, st)" rule: route_step.cases)
    (auto simp: route_step_defs split: if_splits option.splits sum.splits)

lemma route_step_dispatch:
  assumes "route_step config endpoint e st = (r, st')" and "d \<in> set (rr_dispatch r)"
  shows "rt_authorized st' = Some (pd_source d)"
  using assms
  by (cases "(config, endpoint, e, st)" rule: route_step.cases)
    (auto simp: route_step_defs split: if_splits option.splits sum.splits)

lemma route_run_dispatch:
  assumes "route_inv h st" and "d \<in> set (dispatched_datagrams (fst (route_run config endpoint evs st)))"
  shows "granted (h @ evs) (pd_source d) \<and> (\<forall>c. rt_registered st = Some c \<longrightarrow> pd_source d = c)"
  using assms
proof (induction evs arbitrary: h st)
  case (Cons e es)
  obtain r st' where step: "route_step config endpoint e st = (r, st')" by force
  note inv = route_step_inv [OF Cons.prems(1) step]
  have keep: "rt_registered st' = Some c" if "rt_registered st = Some c" for c
    using route_step_keeps [OF step that] Cons.prems(1) that by (auto simp: route_inv_def)
  consider "d \<in> set (rr_dispatch r)" | "d \<in> set (dispatched_datagrams (fst (route_run config endpoint es st')))"
    using Cons.prems(2) step by (auto simp: dispatched_datagrams_def split: prod.splits if_splits)
  then show ?case
  proof cases
    case 1
    with route_step_dispatch [OF step] inv have "rt_registered st' = Some (pd_source d)" "granted (h @ [e]) (pd_source d)"
      by (auto simp: route_inv_def)
    with keep granted_append [of "h @ [e]" "pd_source d" es] show ?thesis by auto
  next
    case 2
    with Cons.IH [OF inv this] keep show ?thesis by auto
  qed
qed (simp add: dispatched_datagrams_def)

lemma route_run_one_source:
  assumes "route_inv h st" and "d \<in> set (dispatched_datagrams (fst (route_run config endpoint evs st)))"
    and "d' \<in> set (dispatched_datagrams (fst (route_run config endpoint evs st)))"
  shows "pd_source d = pd_source d'"
  using assms
proof (induction evs arbitrary: h st)
  case (Cons e es)
  obtain r st' where step: "route_step config endpoint e st = (r, st')" by force
  note inv = route_step_inv [OF Cons.prems(1) step]
  have here: "rt_registered st' = Some (pd_source d)" if "d \<in> set (rr_dispatch r)" for d
    using route_step_dispatch [OF step that] inv by (auto simp: route_inv_def)
  have later: "pd_source d = c"
    if "d \<in> set (dispatched_datagrams (fst (route_run config endpoint es st')))" "rt_registered st' = Some c" for d c
    using route_run_dispatch [OF inv that(1)] that(2) by blast
  have mem: "x \<in> set (rr_dispatch r) \<or> x \<in> set (dispatched_datagrams (fst (route_run config endpoint es st')))"
    if "x \<in> set (dispatched_datagrams (fst (route_run config endpoint (e # es) st)))" for x
    using that step by (auto simp: dispatched_datagrams_def split: prod.splits if_splits)
  show ?case
  proof (cases "rt_registered st'")
    case None
    then show ?thesis using mem [OF Cons.prems(2)] mem [OF Cons.prems(3)] here Cons.IH [OF inv] by auto
  next
    case (Some c)
    then have "pd_source x = c" if "x \<in> set (dispatched_datagrams (fst (route_run config endpoint (e # es) st)))" for x
      using mem [OF that] here later by auto
    then show ?thesis using Cons.prems(2,3) by simp
  qed
qed (simp add: dispatched_datagrams_def)

text \<open>
  A route serves one client: in any sequence of commands, datagrams and time-outs every datagram
  that is inspected and forwarded comes from the same address, and that address was acknowledged by
  a registration and later by an activation whose callers were still waiting. Datagrams of anyone
  else, and those that came before, are dropped or filtered.
\<close>

theorem route_serves_one_client:
  assumes "d \<in> set (dispatched_datagrams (fst (route_run config endpoint evs route_state_new)))"
    and "d' \<in> set (dispatched_datagrams (fst (route_run config endpoint evs route_state_new)))"
  shows "pd_source d = pd_source d' \<and> granted evs (pd_source d)"
proof -
  have inv: "route_inv [] route_state_new" by (simp add: route_inv_def route_state_new_def)
  from route_run_one_source [OF inv assms] route_run_dispatch [OF inv assms(1)] show ?thesis by simp
qed

definition sample_client :: socket_addr where
  "sample_client = socket_addr_new (V4 [127, 0, 0, 1]) 5353"

definition sample_stranger :: socket_addr where
  "sample_stranger = socket_addr_new (V4 [127, 0, 0, 1]) 6000"

definition sample_events :: "route_event list" where
  "sample_events = [GotDatagram sample_stranger ''x'', GotCommand (RegisterCmd sample_client True), GotDatagram sample_client ''y'',
     GotCommand (ActivateCmd True), GotDatagram sample_stranger ''z'', GotDatagram sample_client ''w'']"

theorem route_serves_one_client_witness:
  "map pd_bytes (dispatched_datagrams (fst (route_run proxy_config_default (Inr sample_client) sample_events route_state_new))) =
     [''y'', ''w''] \<and> granted sample_events sample_client"
proof -
  let ?ds = "dispatched_datagrams (fst (route_run proxy_config_default (Inr sample_client) sample_events route_state_new))"
  have "?ds = [\<lparr> pd_source = sample_client, pd_bytes = ''y'', pd_oversized = False \<rparr>,
      \<lparr> pd_source = sample_client, pd_bytes = ''w'', pd_oversized = False \<rparr>]"
    by (simp add: sample_events_def route_state_new_def route_step_defs dispatched_datagrams_def proxy_config_default_def
        is_ipv4_def sample_client_def sample_stranger_def socket_addr_new_def)
  moreover from this have "pd_source (hd ?ds) = pd_source (hd ?ds) \<and> granted sample_events (pd_source (hd ?ds))"
    by (intro route_serves_one_client [of _ proxy_config_default "Inr sample_client"]) simp_all
  ultimately show ?thesis by simp
qed

subsection \<open>What the worker keeps\<close>

definition worker_new :: dns_worker where
  "worker_new = \<lparr> wk_routes = [], wk_next_route_id = 1 \<rparr>"

fun command_ok :: "route_command \<Rightarrow> bool" where
  "command_ok (RegisterCmd client _) \<longleftrightarrow> sa_port client \<noteq> 0 \<and> ip_is_loopback (sa_ip client)"
| "command_ok _ \<longleftrightarrow> True"

definition control_ok :: "route_control \<Rightarrow> bool" where
  "control_ok rc \<longleftrightarrow> length (rc_queue rc) \<le> ROUTE_COMMAND_CAPACITY \<and> list_all command_ok (rc_queue rc)"

definition worker_ok :: "proxy_config \<Rightarrow> dns_worker \<Rightarrow> bool" where
  "worker_ok config w \<longleftrightarrow>
     distinct (map fst (wk_routes w)) \<and> length (wk_routes w) \<le> pc_max_routes config \<and>
     (\<forall>(rid, rc) \<in> set (wk_routes w). rid < wk_next_route_id w \<and> control_ok rc)"

lemma in_assoc_insert: "(k', v') \<in> set (assoc_insert k v xs) \<Longrightarrow> (k', v') = (k, v) \<or> (k', v') \<in> set xs"
  by (induction xs) (auto split: if_splits)

lemma worker_ok_update:
  assumes "worker_ok config w" and "map_of (wk_routes w) rid = Some rc" and "control_ok rc'"
  shows "worker_ok config (w\<lparr>wk_routes := assoc_insert rid rc' (wk_routes w)\<rparr>)"
proof -
  have rid: "(rid, rc) \<in> set (wk_routes w)" using assms(2) by (rule map_of_SomeD)
  then have "rid \<in> fst ` set (wk_routes w)" by force
  moreover have "k < wk_next_route_id w \<and> control_ok c" if "(k, c) \<in> set (assoc_insert rid rc' (wk_routes w))" for k c
    using in_assoc_insert [OF that] rid assms(1,3) by (auto simp: worker_ok_def)
  ultimately show ?thesis using assms(1) by (auto simp: worker_ok_def length_assoc_insert)
qed

lemma worker_ok_deliver:
  assumes "worker_ok config w" and "command_ok cmd"
  shows "worker_ok config (snd (deliver rid cmd w))"
proof (cases "map_of (wk_routes w) rid")
  case None
  with assms show ?thesis by (simp add: deliver_def)
next
  case (Some rc)
  then have "control_ok rc" using assms(1) map_of_SomeD [OF Some] by (auto simp: worker_ok_def)
  then have "control_ok (snd (try_send cmd rc))" using assms(2) by (auto simp: try_send_def control_ok_def)
  with worker_ok_update [OF assms(1) Some] Some show ?thesis by (auto simp: deliver_def split: prod.splits)
qed

lemma worker_ok_release: "worker_ok config w \<Longrightarrow> worker_ok config (snd (release_route rid outcome w))"
  unfolding worker_ok_def release_route_def
  by (auto simp: assoc_remove_def split: option.splits intro: le_trans [OF length_filter_le] distinct_map_fst_filter)

lemma unat_Suc_word: "unat (n :: u64) + 1 < 2 ^ 64 \<Longrightarrow> unat (n + 1) = unat n + 1"
  by (simp add: unat_word_ariths(1))

lemma worker_ok_create: "worker_ok config w \<Longrightarrow> worker_ok config (snd (create_route config bound w))"
proof (cases "\<exists>rid endpoint. fst (create_route config bound w) = Inr (rid, endpoint)")
  case True
  assume ok: "worker_ok config w"
  from True have small: "length (wk_routes w) < pc_max_routes config" "unat (wk_next_route_id w) + 1 < 2 ^ 64"
      and w': "snd (create_route config bound w) = w\<lparr>wk_next_route_id := wk_next_route_id w + 1,
        wk_routes := assoc_insert (wk_next_route_id w) \<lparr> rc_queue = [], rc_closed = False \<rparr> (wk_routes w)\<rparr>"
    by (auto simp: create_route_def split: if_splits sum.splits)
  have next': "unat (wk_next_route_id w + 1) = unat (wk_next_route_id w) + 1" using small(2) by (rule unat_Suc_word)
  have "wk_next_route_id w \<notin> fst ` set (wk_routes w)" using ok by (auto simp: worker_ok_def)
  with ok small(1) next' show ?thesis
    unfolding w' worker_ok_def
    by (auto simp: length_assoc_insert control_ok_def word_less_nat_alt dest!: in_assoc_insert)
next
  case False
  moreover assume "worker_ok config w"
  ultimately show ?thesis by (auto simp: create_route_def split: if_splits sum.splits)
qed

lemma worker_step_ok: "worker_ok config w \<Longrightarrow> worker_ok config (worker_step config cmd w)"
proof (cases cmd)
  case (CreateRoute bound waiting outcome)
  assume "worker_ok config w"
  from worker_ok_create [OF this, of bound] show ?thesis
    by (cases "create_route config bound w")
      (auto simp: CreateRoute worker_ok_release split: sum.splits)
qed (auto simp: register_route_client_def activate_route_def worker_ok_deliver worker_ok_release)

text \<open>
  The worker stays within its limits: whatever commands arrive, there are at most
  \<open>max_routes\<close> routes, their identifiers are distinct and below the next one (so none is given out
  twice), no command channel holds more than four commands, and every registration that reaches a
  route is for a loopback address with a port.
\<close>

theorem worker_stays_ok: "worker_ok config (fold (worker_step config) cmds worker_new)"
proof -
  have "worker_ok config w \<Longrightarrow> worker_ok config (fold (worker_step config) cmds w)" for w
    by (induction cmds arbitrary: w) (auto simp: worker_step_ok)
  then show ?thesis by (simp add: worker_ok_def worker_new_def)
qed

subsection \<open>A query that is allowed, and one that is denied\<close>

definition sample_io :: "dns_decision \<Rightarrow> query_io" where
  "sample_io d =
     \<lparr> qi_permit = True, qi_evaluate = (\<lambda>_. Decided d),
       qi_upstream = \<lparr> up_bind = Inr (), up_connect = Inr (), up_send = Inr (length sample_query), up_recv = RecvBytes sample_response \<rparr>,
       qi_lock = \<lparr> cl_try = (\<lambda>_. Acquired), cl_clock = (\<lambda>k. int k * 1000000), cl_commit_at = 0 \<rparr>, qi_commit_start = 0 \<rparr>"

definition sample_resolver :: socket_addr where
  "sample_resolver = socket_addr_new (V4 [192, 0, 2, 53]) 53"

definition sample_parsed :: parsed_query where
  "sample_parsed = \<lparr> pq_id = 7, pq_domain = ''a.b'', pq_qtype = 1, pq_query_type = ''A'' \<rparr>"

lemma sample_parse: "parse_query sample_query = Some sample_parsed"
  by (simp add: sample_query_parsed sample_parsed_def)

lemma sample_matching:
  "parse_matching_response sample_response sample_parsed = Some \<lparr> pr_id = 7, pr_domain = ''a.b'', pr_qtype = 1,
     pr_answers = [\<lparr> da_ip = V4 [93, 184, 216, 34], da_ttl = secs 60 \<rparr>] \<rparr>"
  by (simp add: parse_matching_response_def sample_response_parsed sample_parsed_def response_matches_query_def eq_ignore_ascii_case_def)

abbreviation "sample_run d cache \<equiv>
  process_query proxy_config_default 1 sample_resolver (for_tgid 42) sample_client sample_query sample_parsed (sample_io d) cache"

theorem allowed_query_relayed_witness:
  "map_option fst (sample_run DnsAllow dns_cache_new) =
     Some [AskPolicy (decision_request proxy_config_default 1 sample_resolver (for_tgid 42) sample_parsed),
       SendUpstream sample_resolver sample_query,
       CommitCache ''a.b'' [\<lparr> da_ip = V4 [93, 184, 216, 34], da_ttl = secs 60 \<rparr>] 42, SendClient sample_client sample_response]"
  using allowed_query_relayed [OF sample_parse, of "sample_io DnsAllow" 1 sample_resolver "for_tgid 42" sample_response _ sample_client dns_cache_new]
    sample_matching sample_response_reads(14)
  by (simp add: sample_io_def sample_parsed_def for_tgid_def)

lemma sample_run_allowed:
  "\<exists>cache'. sample_run DnsAllow cache = Some ([AskPolicy (decision_request proxy_config_default 1 sample_resolver (for_tgid 42) sample_parsed),
       SendUpstream sample_resolver sample_query,
       CommitCache ''a.b'' [\<lparr> da_ip = V4 [93, 184, 216, 34], da_ttl = secs 60 \<rparr>] 42, SendClient sample_client sample_response], cache')"
  using parsed_domain_name [OF sample_parse] sample_response_reads(14)
  by (auto simp: process_query_def policy_decision_def relay_query_def sample_io_def Let_def forward_exact_query_def
      proxy_config_default_def sample_matching [unfolded sample_parsed_def] sample_parsed_def commit_cache_batch_def commit_loop.simps
      commit_observed_batch_def MAX_OBSERVED_BATCH_def for_tgid_def)

theorem queries_leave_with_permission_witness:
  "qi_permit (sample_io DnsAllow) \<and> qi_evaluate (sample_io DnsAllow)
     (decision_request proxy_config_default 1 sample_resolver (for_tgid 42) sample_parsed) = Decided DnsAllow"
proof -
  obtain cache' where "sample_run DnsAllow dns_cache_new = Some ([AskPolicy (decision_request proxy_config_default 1 sample_resolver (for_tgid 42) sample_parsed),
       SendUpstream sample_resolver sample_query,
       CommitCache ''a.b'' [\<lparr> da_ip = V4 [93, 184, 216, 34], da_ttl = secs 60 \<rparr>] 42, SendClient sample_client sample_response], cache')"
    using sample_run_allowed by blast
  from queries_leave_with_permission [OF this, of sample_resolver sample_query] show ?thesis
    by (simp add: proxy_config_default_def)
qed

theorem every_query_answered_once_witness:
  "\<exists>effects cache' answer. sample_run (DnsDeny ''blocked'') dns_cache_new = Some (effects @ [SendClient sample_client answer], cache') \<and>
     list_all (\<lambda>e. case e of SendClient _ _ \<Rightarrow> False | _ \<Rightarrow> True) effects"
  by (rule every_query_answered_once) (simp_all add: sample_io_def CACHE_COMMIT_RETRY_DELAY_def)


end
