(* ===== verification/Path_Names.thy ===== *)
theory Path_Names
  imports Prelude
begin

section \<open>What a path's name says\<close>

text \<open>
  \<open>crates/grith-proxy/src/paths.rs\<close>: trees whose names carry no authority, tokens of a file name,
  lexical normalisation, backup suffixes and the carve-outs for artifacts. The file system is a
  pair of arguments: \<open>canonicalize\<close> (\<open>None\<close> for an error or a path that is not UTF-8) and
  \<open>exists\<close>. Case is that of ASCII letters; other letters of Unicode have none here.
\<close>

subsection \<open>Splitting and testing\<close>

text \<open>\<open>str::split\<close> at any character that satisfies a predicate.\<close>

fun split_at_any :: "(char \<Rightarrow> bool) \<Rightarrow> string \<Rightarrow> string list" where
  "split_at_any P [] = [[]]"
| "split_at_any P (c # s) =
     (if P c then [] # split_at_any P s
      else case split_at_any P s of seg # segs \<Rightarrow> (c # seg) # segs | [] \<Rightarrow> [[c]])"

definition is_separator :: "char \<Rightarrow> bool" where
  "is_separator c \<longleftrightarrow> c = CHR ''/'' \<or> c = CHR 0x5C"

definition is_ascii_digit :: "char \<Rightarrow> bool" where
  "is_ascii_digit c \<longleftrightarrow> (let n = of_char c :: nat in 48 \<le> n \<and> n \<le> 57)"

definition is_upper :: "char \<Rightarrow> bool" where
  "is_upper c \<longleftrightarrow> (let n = of_char c :: nat in 65 \<le> n \<and> n \<le> 90)"

definition is_lower :: "char \<Rightarrow> bool" where
  "is_lower c \<longleftrightarrow> (let n = of_char c :: nat in 97 \<le> n \<and> n \<le> 122)"

definition any_ignore_case :: "string list \<Rightarrow> string \<Rightarrow> bool" where
  "any_ignore_case names c \<longleftrightarrow> list_ex (\<lambda>d. eq_ignore_ascii_case c d) names"

definition ends_with_any :: "string list \<Rightarrow> string \<Rightarrow> bool" where
  "ends_with_any exts s \<longleftrightarrow> list_ex (\<lambda>e. suffix e s) exts"

subsection \<open>Dependency trees and build output\<close>

definition DEPENDENCY_TREE_COMPONENTS :: "string list" where
  "DEPENDENCY_TREE_COMPONENTS =
     [''node_modules'', ''.pnpm'', ''bower_components'', ''vendor'', ''.venv'', ''venv'', ''site-packages'', ''Pods'', ''.gradle'']"

definition DEPENDENCY_TREE_COMPONENT_PAIRS :: "(string \<times> string) list" where
  "DEPENDENCY_TREE_COMPONENT_PAIRS = [(''.cargo'', ''registry''), (''.m2'', ''repository'')]"

definition GENERATED_OUTPUT_COMPONENTS :: "string list" where
  "GENERATED_OUTPUT_COMPONENTS =
     [''.next'', ''.nuxt'', ''.svelte-kit'', ''.astro'', ''.docusaurus'', ''.turbo'', ''.vercel'', ''.output'',
      ''.parcel-cache'', ''.angular'', ''dist'', ''build'', ''out'']"

definition is_profile_component :: "string \<Rightarrow> bool" where
  "is_profile_component c \<longleftrightarrow> eq_ignore_ascii_case c ''debug'' \<or> eq_ignore_ascii_case c ''release''"

text \<open>\<open>components.get(i)\<close>.\<close>

definition get_component :: "string list \<Rightarrow> nat \<Rightarrow> string option" where
  "get_component cs i = (if i < length cs then Some (cs ! i) else None)"

definition component_is_profile :: "string list \<Rightarrow> nat \<Rightarrow> bool" where
  "component_is_profile cs i \<longleftrightarrow> (case get_component cs i of Some c \<Rightarrow> is_profile_component c | None \<Rightarrow> False)"

definition target_component_is_build_output :: "(string \<Rightarrow> bool) \<Rightarrow> string \<Rightarrow> string list \<Rightarrow> nat \<Rightarrow> bool" where
  "target_component_is_build_output exists path cs idx =
     (component_is_profile cs (idx + 1) \<or> component_is_profile cs (idx + 2) \<or>
      exists ((if prefix ''/'' path then ''/'' else []) @ join ''/'' (take (idx + 1) cs) @ ''/CACHEDIR.TAG''))"

definition pair_marks_tree :: "string list \<Rightarrow> nat \<Rightarrow> string \<Rightarrow> bool" where
  "pair_marks_tree cs i c \<longleftrightarrow>
     0 < i \<and> list_ex (\<lambda>(a, b). eq_ignore_ascii_case (cs ! (i - 1)) a \<and> eq_ignore_ascii_case c b) DEPENDENCY_TREE_COMPONENT_PAIRS"

definition component_marks_tree :: "(string \<Rightarrow> bool) \<Rightarrow> string \<Rightarrow> string list \<Rightarrow> nat \<Rightarrow> bool" where
  "component_marks_tree exists path cs i =
     (if eq_ignore_ascii_case (cs ! i) ''target'' then target_component_is_build_output exists path cs i
      else any_ignore_case DEPENDENCY_TREE_COMPONENTS (cs ! i) \<or> pair_marks_tree cs i (cs ! i))"

definition components_indicate_dependency_tree :: "(string \<Rightarrow> bool) \<Rightarrow> string \<Rightarrow> bool" where
  "components_indicate_dependency_tree exists path =
     (let cs = filter (\<lambda>c. c \<noteq> []) (split_at_any is_separator path)
      in list_ex (component_marks_tree exists path cs) [0..<length cs])"

definition components_indicate_generated_output :: "string \<Rightarrow> bool" where
  "components_indicate_generated_output path \<longleftrightarrow>
     list_ex (any_ignore_case GENERATED_OUTPUT_COMPONENTS) (split_at_any is_separator path)"

definition confirmed_tree_match :: "(string \<Rightarrow> string option) \<Rightarrow> (string \<Rightarrow> bool) \<Rightarrow> string \<Rightarrow> bool" where
  "confirmed_tree_match canonicalize matches path =
     (if \<not> matches path then False
      else case canonicalize path of Some s \<Rightarrow> matches s | None \<Rightarrow> True)"

definition is_dependency_tree_path :: "(string \<Rightarrow> string option) \<Rightarrow> (string \<Rightarrow> bool) \<Rightarrow> string \<Rightarrow> bool" where
  "is_dependency_tree_path canonicalize exists path =
     confirmed_tree_match canonicalize (components_indicate_dependency_tree exists) path"

definition is_generated_output_path :: "(string \<Rightarrow> string option) \<Rightarrow> string \<Rightarrow> bool" where
  "is_generated_output_path canonicalize path = confirmed_tree_match canonicalize components_indicate_generated_output path"

definition is_name_opaque_tree :: "(string \<Rightarrow> string option) \<Rightarrow> (string \<Rightarrow> bool) \<Rightarrow> string \<Rightarrow> bool" where
  "is_name_opaque_tree canonicalize exists path =
     confirmed_tree_match canonicalize
       (\<lambda>p. components_indicate_dependency_tree exists p \<or> components_indicate_generated_output p) path"

subsection \<open>Tokens of a file name\<close>

definition SENSITIVE_NAME_TOKENS :: "string list" where
  "SENSITIVE_NAME_TOKENS =
     [''secret'', ''secrets'', ''credential'', ''credentials'', ''token'', ''tokens'', ''passwd'', ''apikey'', ''auth'']"

definition is_token_separator :: "char \<Rightarrow> bool" where
  "is_token_separator c \<longleftrightarrow> c \<in> {CHR ''-'', CHR ''_'', CHR ''.'', CHR '' ''}"

text \<open>A boundary in front of \<open>ch\<close>, given the character before it and the one after it.\<close>

definition camel_boundary :: "char \<Rightarrow> char \<Rightarrow> char option \<Rightarrow> bool" where
  "camel_boundary prev ch next_ch \<longleftrightarrow>
     is_upper ch \<and> (is_lower prev \<or> is_ascii_digit prev \<or>
       (is_upper prev \<and> (case next_ch of Some n \<Rightarrow> is_lower n | None \<Rightarrow> False)))"

definition digit_boundary :: "char \<Rightarrow> char \<Rightarrow> bool" where
  "digit_boundary prev ch \<longleftrightarrow> is_ascii_digit ch \<noteq> is_ascii_digit prev"

definition flush :: "string \<Rightarrow> string list \<Rightarrow> string list" where
  "flush current tokens = (if current = [] then tokens else tokens @ [to_lowercase current])"

text \<open>The loop over the characters: the previous one, the token so far and the tokens before it.\<close>

fun tokenise_loop :: "char option \<Rightarrow> string \<Rightarrow> string list \<Rightarrow> string \<Rightarrow> string list" where
  "tokenise_loop prev current tokens [] = flush current tokens"
| "tokenise_loop prev current tokens (ch # rest) =
     (if is_token_separator ch then tokenise_loop (Some ch) [] (flush current tokens) rest
      else if (case prev of
                 Some p \<Rightarrow> camel_boundary p ch (case rest of n # _ \<Rightarrow> Some n | [] \<Rightarrow> None) \<or> digit_boundary p ch
               | None \<Rightarrow> False)
      then tokenise_loop (Some ch) [ch] (flush current tokens) rest
      else tokenise_loop (Some ch) (current @ [ch]) tokens rest)"

definition tokenise_file_name :: "string \<Rightarrow> string list" where
  "tokenise_file_name file_name = tokenise_loop None [] [] file_name"

fun adjacent :: "string \<Rightarrow> string \<Rightarrow> string list \<Rightarrow> bool" where
  "adjacent a b (x # y # rest) \<longleftrightarrow> (x = a \<and> y = b) \<or> adjacent a b (y # rest)"
| "adjacent a b _ \<longleftrightarrow> False"

definition name_has_sensitive_token :: "string \<Rightarrow> bool" where
  "name_has_sensitive_token file_name \<longleftrightarrow>
     (let tokens = tokenise_file_name file_name
      in list_ex (\<lambda>t. t \<in> set SENSITIVE_NAME_TOKENS) tokens \<or> adjacent ''api'' ''key'' tokens)"

subsection \<open>Lexical normalisation\<close>

fun push_component :: "bool \<Rightarrow> string list \<Rightarrow> string \<Rightarrow> string list" where
  "push_component absolute out c =
     (if c = [] \<or> c = ''.'' then out
      else if c = ''..'' then
        (if out \<noteq> [] \<and> last out \<noteq> ''..'' then butlast out
         else if \<not> absolute then out @ [''..''] else out)
      else out @ [c])"

declare push_component.simps [simp del]

definition normalise_path_lexically :: "string \<Rightarrow> string option" where
  "normalise_path_lexically path =
     (if \<not> (str_contains path ''//'' \<or> str_contains path ''/./'' \<or> str_contains path ''/..'' \<or> suffix ''/.'' path) then None
      else (let absolute = prefix ''/'' path;
                trailing_slash = (length path > 1 \<and> suffix ''/'' path);
                joined = (if absolute then ''/'' else []) @ join ''/'' (foldl (push_component absolute) [] (split_on CHR ''/'' path))
            in Some (if trailing_slash \<and> \<not> suffix ''/'' joined then joined @ ''/'' else joined)))"

subsection \<open>Backups, credential files and artifacts\<close>

definition BACKUP_SUFFIXES :: "string list" where
  "BACKUP_SUFFIXES = [''.bak'', ''.backup'', ''.old'', ''.orig'', ''.save'', ''.saved'', ''.copy'', ''.tmp'', ''~'']"

definition strip_suffix :: "string \<Rightarrow> string \<Rightarrow> string option" where
  "strip_suffix sfx s = (if suffix sfx s then Some (take (length s - length sfx) s) else None)"

fun strip_first_suffix :: "string list \<Rightarrow> string \<Rightarrow> string" where
  "strip_first_suffix [] s = s"
| "strip_first_suffix (x # xs) s =
     (case strip_suffix x s of
        Some stem \<Rightarrow> if stem \<noteq> [] then stem else strip_first_suffix xs s
      | None \<Rightarrow> strip_first_suffix xs s)"

definition strip_backup_suffix :: "string \<Rightarrow> string" where
  "strip_backup_suffix file_name_lc = strip_first_suffix BACKUP_SUFFIXES file_name_lc"

definition has_backup_suffix :: "string \<Rightarrow> bool" where
  "has_backup_suffix name \<longleftrightarrow>
     list_ex (\<lambda>sfx. length name > length sfx \<and> eq_ignore_ascii_case (drop (length name - length sfx) name) sfx) BACKUP_SUFFIXES"

definition is_structured_credential_filename :: "string \<Rightarrow> bool" where
  "is_structured_credential_filename name \<longleftrightarrow>
     name \<in> {''secrets.yaml'', ''secrets.yml'', ''secrets.json'', ''credentials.json''} \<or>
     (case strip_suffix ''credentials.json'' name of
        Some stem \<Rightarrow> suffix ''-'' stem \<or> suffix ''_'' stem \<or> suffix ''.'' stem
      | None \<Rightarrow> False)"

definition ARTIFACT_EXTS :: "string list" where
  "ARTIFACT_EXTS =
     [''.md'', ''.mdx'', ''.rst'', ''.adoc'', ''.svg'', ''.png'', ''.jpg'', ''.jpeg'', ''.webp'', ''.gif'', ''.ico'', ''.avif'',
      ''.woff'', ''.woff2'', ''.ttf'', ''.mp4'', ''.pdf'', ''.o'', ''.obj'', ''.d'', ''.rlib'', ''.rmeta'', ''.a'', ''.so'',
      ''.dylib'', ''.pdb'', ''.wasm'', ''.class'', ''.pyc'']"

definition is_non_credential_artifact_filename :: "string \<Rightarrow> bool" where
  "is_non_credential_artifact_filename name \<longleftrightarrow> ends_with_any ARTIFACT_EXTS name"

definition is_migration_sql_filename :: "string \<Rightarrow> string \<Rightarrow> bool" where
  "is_migration_sql_filename name path_lc =
     (if \<not> suffix ''.sql'' name then False
      else (let digits = length (takeWhile is_ascii_digit name)
            in (digits > 0 \<and> (case drop digits name of c # _ \<Rightarrow> c = CHR ''-'' \<or> c = CHR ''_'' | [] \<Rightarrow> False)) \<or>
               list_ex (\<lambda>c. eq_ignore_ascii_case c ''migrations'') (split_at_any is_separator path_lc)))"

subsection \<open>Tokens partition the name\<close>

lemma to_lowercase_append: "to_lowercase (a @ b) = to_lowercase a @ to_lowercase b"
  by (simp add: to_lowercase_def)

lemma concat_flush: "concat (flush current tokens) = concat tokens @ to_lowercase current"
  by (simp add: flush_def to_lowercase_def)

lemma tokenise_loop_concat:
  "concat (tokenise_loop prev current tokens s) = concat tokens @ to_lowercase (current @ filter (\<lambda>c. \<not> is_token_separator c) s)"
  by (induction prev current tokens s rule: tokenise_loop.induct)
    (auto simp: concat_flush to_lowercase_def)

definition one_class :: "string \<Rightarrow> bool" where
  "one_class t \<longleftrightarrow> list_all is_ascii_digit t \<or> list_all (\<lambda>c. \<not> is_ascii_digit c) t"

lemma digit_lower [simp]: "is_ascii_digit (ascii_lower c) \<longleftrightarrow> is_ascii_digit c"
  by (auto simp: is_ascii_digit_def ascii_lower_def Let_def)

lemma one_class_lower [simp]: "one_class (to_lowercase t) \<longleftrightarrow> one_class t"
  by (simp add: one_class_def to_lowercase_def list_all_iff)

text \<open>The token under construction is of the class of the character before.\<close>

definition pending_ok :: "char option \<Rightarrow> string \<Rightarrow> bool" where
  "pending_ok prev current \<longleftrightarrow>
     current = [] \<or> (\<exists>p. prev = Some p \<and> list_all (\<lambda>c. is_ascii_digit c = is_ascii_digit p) current)"

lemma pending_one_class: "pending_ok prev current \<Longrightarrow> one_class current"
  by (auto simp: pending_ok_def one_class_def list_all_iff)

lemma flush_tokens:
  "list_all (\<lambda>t. t \<noteq> [] \<and> one_class t) tokens \<Longrightarrow> pending_ok prev current \<Longrightarrow>
   list_all (\<lambda>t. t \<noteq> [] \<and> one_class t) (flush current tokens)"
  using pending_one_class by (auto simp: flush_def to_lowercase_def one_class_def list_all_iff)

lemma tokenise_loop_tokens:
  "list_all (\<lambda>t. t \<noteq> [] \<and> one_class t) tokens \<Longrightarrow> pending_ok prev current \<Longrightarrow>
   list_all (\<lambda>t. t \<noteq> [] \<and> one_class t) (tokenise_loop prev current tokens s)"
proof (induction prev current tokens s rule: tokenise_loop.induct)
  case (2 prev current tokens ch rest)
  note flushed = flush_tokens [OF "2.prems"]
  have fresh: "pending_ok (Some ch) []" "pending_ok (Some ch) [ch]" by (simp_all add: pending_ok_def)
  have grown: "pending_ok (Some ch) (current @ [ch])" if "\<not> (case prev of Some p \<Rightarrow> digit_boundary p ch | None \<Rightarrow> False)"
    using "2.prems"(2) that by (auto simp: pending_ok_def digit_boundary_def list_all_iff)
  show ?case
    using "2.IH" "2.prems"(1) flushed fresh grown by (auto split: option.splits)
qed (simp add: flush_tokens)

text \<open>
  Tokens partition a file name: put together, the tokens are the name in lower case without
  its separators; none is empty, and none mixes digits with other characters, which is what keeps
  the tail of a hash from reading as a word.
\<close>

theorem tokens_partition_name:
  "concat (tokenise_file_name name) = to_lowercase (filter (\<lambda>c. \<not> is_token_separator c) name) \<and>
   list_all (\<lambda>t. t \<noteq> [] \<and> one_class t) (tokenise_file_name name)"
  using tokenise_loop_concat [of None "[]" "[]" name] tokenise_loop_tokens [of "[]" None "[]" name]
  by (simp add: tokenise_file_name_def pending_ok_def)

subsection \<open>Normalisation reaches a normal form\<close>

definition plain_component :: "string \<Rightarrow> bool" where
  "plain_component c \<longleftrightarrow> c \<notin> {[], ''.'', ''..''} \<and> CHR ''/'' \<notin> set c"

text \<open>A stack of components is normal if the parent steps are at its bottom, and absent when absolute.\<close>

definition normal_stack :: "bool \<Rightarrow> string list \<Rightarrow> bool" where
  "normal_stack absolute out \<longleftrightarrow>
     (\<exists>k rest. out = replicate k ''..'' @ rest \<and> (absolute \<longrightarrow> k = 0) \<and> list_all plain_component rest)"

lemma normal_stack_push:
  assumes "normal_stack absolute out" and "CHR ''/'' \<notin> set c"
  shows "normal_stack absolute (push_component absolute out c)"
proof -
  obtain k rest where out: "out = replicate k ''..'' @ rest" "absolute \<longrightarrow> k = 0" "list_all plain_component rest"
    using assms(1) by (auto simp: normal_stack_def)
  consider "c = [] \<or> c = ''.''" | "c = ''..''" "rest = []" | "c = ''..''" "rest \<noteq> []" | "plain_component c"
    using assms(2) by (auto simp: plain_component_def)
  then show ?thesis
  proof cases
    case 2
    have "replicate k ''..'' @ [''..''] = replicate (Suc k) ''..''" by (simp add: replicate_append_same)
    with 2 out show ?thesis
      by (auto simp: push_component.simps normal_stack_def last_replicate intro: exI [of _ "Suc k"] exI [of _ "[]"])
  next
    case 3
    then have "last out \<noteq> ''..''" using out(1,3) by (auto simp: plain_component_def list_all_iff dest: last_in_set)
    with 3 out have "push_component absolute out c = replicate k ''..'' @ butlast rest"
      by (simp add: push_component.simps butlast_append)
    with out show ?thesis
      by (auto simp: normal_stack_def list_all_iff dest: in_set_butlastD)
  next
    case 4
    then have "push_component absolute out c = replicate k ''..'' @ (rest @ [c])"
      using out(1) by (auto simp: push_component.simps plain_component_def)
    with 4 out show ?thesis
      unfolding normal_stack_def by (intro exI [of _ k] exI [of _ "rest @ [c]"]) simp
  qed (use assms(1) in \<open>auto simp: push_component.simps\<close>)
qed

lemma normal_stack_fold:
  "normal_stack absolute out \<Longrightarrow> list_all (\<lambda>c. CHR ''/'' \<notin> set c) cs \<Longrightarrow> normal_stack absolute (foldl (push_component absolute) out cs)"
  by (induction cs arbitrary: out) (simp_all add: normal_stack_push)

lemma push_stack_id:
  assumes "normal_stack absolute out"
  shows "foldl (push_component absolute) [] out = out"
proof -
  obtain k rest where out: "out = replicate k ''..'' @ rest" "absolute \<longrightarrow> k = 0" "list_all plain_component rest"
    using assms by (auto simp: normal_stack_def)
  have dots: "foldl (push_component False) (replicate n ''..'') (replicate j ''..'') = replicate (n + j) ''..''" for n j
  proof (induction j arbitrary: n)
    case (Suc j)
    have "push_component False (replicate n ''..'') ''..'' = replicate (Suc n) ''..''"
      by (auto simp: push_component.simps replicate_append_same last_replicate)
    with Suc [of "Suc n"] show ?case by simp
  qed simp
  have plain: "foldl (push_component absolute) acc cs = acc @ cs" if "list_all plain_component cs" for acc cs
    using that by (induction cs arbitrary: acc) (auto simp: push_component.simps plain_component_def)
  show ?thesis
  proof (cases absolute)
    case True
    with out plain [of rest "[]"] show ?thesis by simp
  next
    case False
    with out dots [of 0 k] plain [of rest "replicate k ''..''"] show ?thesis by simp
  qed
qed

lemma push_empty [simp]: "push_component absolute out [] = out"
  by (simp add: push_component.simps)

definition path_stack :: "string \<Rightarrow> string list" where
  "path_stack path = foldl (push_component (prefix ''/'' path)) [] (split_on CHR ''/'' path)"

lemma path_stack_normal: "normal_stack (prefix ''/'' path) (path_stack path)"
proof -
  have "normal_stack absolute []" for absolute by (simp add: normal_stack_def)
  moreover have "list_all (\<lambda>c. CHR ''/'' \<notin> set c) (split_on CHR ''/'' path)" using split_on_no_sep by (fastforce simp: list_all_iff)
  ultimately show ?thesis unfolding path_stack_def by (rule normal_stack_fold)
qed

lemma normal_stack_components:
  assumes "normal_stack absolute out"
  shows "list_all (\<lambda>c. c \<noteq> [] \<and> CHR ''/'' \<notin> set c) out"
proof -
  obtain k rest where "out = replicate k ''..'' @ rest" "list_all plain_component rest"
    using assms by (auto simp: normal_stack_def)
  moreover have "list_all (\<lambda>c. c \<noteq> [] \<and> CHR ''/'' \<notin> set c) (replicate k ''..'')" by (induction k) simp_all
  moreover have "list_all (\<lambda>c. c \<noteq> [] \<and> CHR ''/'' \<notin> set c) rest"
    using calculation(2) by (rule list.pred_mono_strong) (simp add: plain_component_def)
  ultimately show ?thesis by (simp only: list_all_append)
qed

text \<open>Rendering a normal stack and splitting the text again gives the stack back.\<close>

definition render_path :: "bool \<Rightarrow> string list \<Rightarrow> bool \<Rightarrow> string" where
  "render_path absolute out trailing =
     (let joined = (if absolute then ''/'' else []) @ join ''/'' out
      in if trailing \<and> \<not> suffix ''/'' joined then joined @ ''/'' else joined)"

lemma normalise_eq:
  "normalise_path_lexically path =
     (if str_contains path ''//'' \<or> str_contains path ''/./'' \<or> str_contains path ''/..'' \<or> suffix ''/.'' path
      then Some (render_path (prefix ''/'' path) (path_stack path) (length path > 1 \<and> suffix ''/'' path)) else None)"
  by (simp add: normalise_path_lexically_def render_path_def path_stack_def Let_def)

lemma join_ends:
  "out \<noteq> [] \<Longrightarrow> list_all (\<lambda>c. c \<noteq> [] \<and> CHR ''/'' \<notin> set c) out \<Longrightarrow>
   join ''/'' out \<noteq> [] \<and> hd (join ''/'' out) \<noteq> CHR ''/'' \<and> last (join ''/'' out) \<noteq> CHR ''/''"
proof (induction "''/''" out rule: join.induct)
  case (2 c)
  then have "hd c \<in> set c" "last c \<in> set c" "CHR ''/'' \<notin> set c" by simp_all
  then show ?case using 2 by (auto simp del: last_in_set hd_in_set)
next
  case (3 c c' cs)
  then have "hd c \<in> set c" "CHR ''/'' \<notin> set c" by simp_all
  then show ?case using 3 by (auto simp del: hd_in_set)
qed simp

lemma split_on_snoc: "split_on c (s @ [c]) = split_on c s @ [[]]"
  by (induction s) (auto split: list.splits)

lemma path_stack_render:
  assumes "normal_stack absolute out" and "out \<noteq> []"
  shows "prefix ''/'' (render_path absolute out trailing) \<longleftrightarrow> absolute"
    and "path_stack (render_path absolute out trailing) = out"
    and "(length (render_path absolute out trailing) > 1 \<and> suffix ''/'' (render_path absolute out trailing)) \<longleftrightarrow> trailing"
proof -
  let ?j = "join ''/'' out"
  note comps = normal_stack_components [OF assms(1)]
  note j = join_ends [OF assms(2) comps]
  have slash: "suffix ''/'' s \<longleftrightarrow> s \<noteq> [] \<and> last s = CHR ''/''" for s
    by (cases s rule: rev_cases) (auto simp: suffix_def)
  have start: "prefix ''/'' s \<longleftrightarrow> s \<noteq> [] \<and> hd s = CHR ''/''" for s by (cases s) (auto simp: prefix_def)
  have r: "render_path absolute out trailing = (if absolute then ''/'' else []) @ ?j @ (if trailing then ''/'' else [])"
    using j by (auto simp: render_path_def slash Let_def)
  show pre: "prefix ''/'' (render_path absolute out trailing) \<longleftrightarrow> absolute"
    using j by (auto simp: r start hd_append)
  have "split_on CHR ''/'' ?j = out"
    using split_on_join [OF assms(2), of "CHR ''/''"] comps by (auto simp: list_all_iff)
  then have "split_on CHR ''/'' (render_path absolute out trailing) = (if absolute then [[]] else []) @ out @ (if trailing then [[]] else [])"
    by (auto simp: r split_on_snoc)
  then show "path_stack (render_path absolute out trailing) = out"
    using push_stack_id [OF assms(1)] unfolding path_stack_def pre by (cases absolute; cases trailing) simp_all
  show "(length (render_path absolute out trailing) > 1 \<and> suffix ''/'' (render_path absolute out trailing)) \<longleftrightarrow> trailing"
    using j by (cases "join ''/'' out") (auto simp: r slash)
qed

text \<open>
  Lexical normalisation reaches a normal form in one pass: a normalised path is a fixed point,
  its components are those the stack of the original path holds (parent steps only in front, and
  none in an absolute path), and it is absolute exactly if the original is, except for a relative
  path that cancels out and ends in a slash.
\<close>

theorem normalised_path_stable:
  "case normalise_path_lexically path of
     None \<Rightarrow> True
   | Some r \<Rightarrow> normalise_path_lexically r \<in> {None, Some r} \<and> path_stack r = path_stack path \<and>
       normal_stack (prefix ''/'' path) (path_stack r) \<and>
       (prefix ''/'' r = prefix ''/'' path \<or> path_stack path = [] \<and> r = ''/'')"
proof -
  let ?a = "prefix ''/'' path" and ?t = "length path > 1 \<and> suffix ''/'' path"
  let ?r = "render_path ?a (path_stack path) ?t"
  have fixed: "render_path (prefix ''/'' r) (path_stack r) (length r > 1 \<and> suffix ''/'' r) = r \<and> path_stack r = path_stack path \<and>
      (prefix ''/'' r = ?a \<or> path_stack path = [] \<and> r = ''/'')" if "r = ?r" for r
  proof (cases "path_stack path = []")
    case True
    have "render_path True [] False = ''/''" "render_path False [] False = []" "path_stack ''/'' = []" "path_stack [] = []"
      by (simp_all add: render_path_def path_stack_def)
    moreover have "r = ''/'' \<or> r = [] \<and> \<not> ?a" using that True by (auto simp: render_path_def Let_def)
    ultimately show ?thesis using True by auto
  next
    case False
    from path_stack_render [OF path_stack_normal this] show ?thesis unfolding that by simp
  qed
  have "normalise_path_lexically path = None \<or> normalise_path_lexically path = Some ?r" by (simp only: normalise_eq) simp
  moreover have "normalise_path_lexically ?r \<in> {None, Some ?r}"
    using fixed [OF refl] by (subst normalise_eq) auto
  ultimately show ?thesis using fixed [OF refl] path_stack_normal [of path] by auto
qed

text \<open>
  A relative path can turn into the root: a directory followed by a parent step and a slash
  cancels out, and the trailing slash that is kept makes it absolute.
\<close>

theorem cancelled_relative_path_becomes_root:
  "normalise_path_lexically ''src/../'' = Some ''/'' \<and> normalise_path_lexically ''src/..'' = Some []"
  by code_simp

end
