(* ===== verification/Path_Rules.thy ===== *)
theory Path_Rules
  imports Path_Names
begin

section \<open>Which paths a supervised tool may not touch unseen\<close>

text \<open>
  The path predicates of \<open>crates/grith-supervisor/src/syscall_map.rs\<close>: noise, credential stores,
  secrets that live in a project, and the gate \<open>is_sensitive_path\<close> that decides whether a read-only
  open reaches the proxy at all.
\<close>

definition replace_backslash :: "string \<Rightarrow> string" where
  "replace_backslash s = map (\<lambda>c. if c = CHR 0x5C then CHR ''/'' else c) s"

definition trim_end_slashes :: "string \<Rightarrow> string" where
  "trim_end_slashes s = rev (dropWhile (\<lambda>c. c = CHR ''/'') (rev s))"

definition last_component :: "string \<Rightarrow> string" where
  "last_component s = last (split_on CHR ''/'' s)"

definition strip_prefix :: "string \<Rightarrow> string \<Rightarrow> string option" where
  "strip_prefix p s = (if prefix p s then Some (drop (length p) s) else None)"

definition starts_with_any :: "string list \<Rightarrow> string \<Rightarrow> bool" where
  "starts_with_any ps s \<longleftrightarrow> list_ex (\<lambda>p. prefix p s) ps"

definition is_cross_process_secret_proc_path :: "string \<Rightarrow> bool" where
  "is_cross_process_secret_proc_path path =
     (case strip_prefix ''/proc/'' path of
        None \<Rightarrow> False
      | Some rest \<Rightarrow>
          if prefix ''self/'' rest \<or> prefix ''thread-self/'' rest then False
          else (let pid = takeWhile (\<lambda>c. c \<noteq> CHR ''/'') rest; sub = drop (length pid + 1) rest
                in pid \<noteq> [] \<and> list_all is_ascii_digit pid \<and> (sub = ''environ'' \<or> sub = ''mem'')))"

definition NOISE_PREFIXES :: "string list" where
  "NOISE_PREFIXES =
     [''/sys/'', ''/dev/null'', ''/dev/urandom'', ''/dev/random'', ''/dev/pts/'', ''/dev/tty'', ''/dev/fd/'', ''/etc/ssl/'',
      ''/etc/ca-certificates/'', ''/usr/share/ca-certificates/'', ''/usr/lib/ssl/'', ''/usr/local/ssl/'', ''/etc/ld.so.'',
      ''/etc/nsswitch'', ''/etc/resolv.conf'', ''/etc/hosts'', ''/etc/hostname'', ''/etc/localtime'', ''/etc/gai.conf'',
      ''/etc/machine-id'', ''/etc/dpkg/'', ''/etc/apt/'', ''/etc/alternatives/'', ''/etc/default/'', ''/etc/lsb-release'',
      ''/etc/os-release'', ''/etc/mime.types'', ''/etc/shells'', ''/etc/login.defs'', ''/etc/environment'', ''/etc/xdg/'',
      ''/etc/ssh/'', ''/etc/passwd'', ''/etc/group'', ''/var/lib/dpkg/'', ''/var/cache/'', ''/tmp/.'']"

definition is_noise_path :: "string \<Rightarrow> bool" where
  "is_noise_path path \<longleftrightarrow>
     (prefix ''/proc/'' path \<and> \<not> is_cross_process_secret_proc_path path) \<or> starts_with_any NOISE_PREFIXES path \<or>
     path \<in> {''/dev/stdin'', ''/dev/stdout'', ''/dev/stderr''} \<or> suffix ''.pyc'' path \<or> str_contains path ''__pycache__''"

definition path_lc :: "string \<Rightarrow> string" where
  "path_lc path = to_lowercase (replace_backslash path)"

definition CREDENTIAL_DIRS :: "string list" where
  "CREDENTIAL_DIRS =
     [''/.ssh/'', ''/.gnupg/'', ''/.pki/'', ''/.aws/'', ''/.azure/'', ''/.kube/'', ''/.docker/'', ''/.config/gcloud/'']"

definition CREDENTIAL_FILES :: "string list" where
  "CREDENTIAL_FILES =
     [''.netrc'', ''.npmrc'', ''.pypirc'', ''.pgpass'', ''.git-credentials'', ''id_rsa'', ''id_ed25519'', ''id_dsa'', ''id_ecdsa'']"

definition is_credential_store_path :: "string \<Rightarrow> bool" where
  "is_credential_store_path path =
     (let lc = path_lc path;
          file_name = last_component (trim_end_slashes lc);
          dir_probe = (if suffix ''/'' lc then lc else lc @ ''/'')
      in str_contains lc ''/.config/grith/'' \<or> str_contains lc ''/config/grith/'' \<or>
         list_ex (\<lambda>d. str_contains dir_probe d) CREDENTIAL_DIRS \<or>
         file_name \<in> set CREDENTIAL_FILES \<or>
         str_contains lc ''/etc/shadow'' \<or> str_contains lc ''/etc/sudoers'' \<or> str_contains lc ''/etc/krb5.keytab'' \<or>
         str_contains lc ''/library/keychains/'' \<or>
         is_cross_process_secret_proc_path path)"

definition DOTENV_TEMPLATE_NAMES :: "string list" where
  "DOTENV_TEMPLATE_NAMES = [''.env.example'', ''.env.sample'', ''.env.template'', ''.env.dist'', ''.env.defaults'']"

definition is_high_value_project_secret :: "string \<Rightarrow> bool" where
  "is_high_value_project_secret path =
     (let file_name = last_component (trim_end_slashes (path_lc path))
      in if file_name \<in> set DOTENV_TEMPLATE_NAMES then False
         else file_name = ''.env'' \<or> prefix ''.env.'' file_name \<or> file_name = ''master.key'' \<or> suffix ''.tfstate'' file_name \<or>
              suffix ''.tfstate.backup'' file_name \<or> suffix ''.p12'' file_name \<or> suffix ''.pfx'' file_name)"

definition is_project_trust_guarded_path :: "string \<Rightarrow> bool" where
  "is_project_trust_guarded_path path \<longleftrightarrow> is_credential_store_path path \<or> is_high_value_project_secret path"

definition SOURCE_EXTS :: "string list" where
  "SOURCE_EXTS =
     [''.php'', ''.js'', ''.jsx'', ''.ts'', ''.tsx'', ''.mjs'', ''.cjs'', ''.vue'', ''.py'', ''.pyi'', ''.rb'', ''.go'',
      ''.rs'', ''.java'', ''.kt'', ''.kts'', ''.scala'', ''.cs'', ''.fs'', ''.c'', ''.h'', ''.cc'', ''.cpp'', ''.cxx'',
      ''.hpp'', ''.hh'', ''.hxx'', ''.swift'', ''.m'', ''.mm'', ''.dart'', ''.lua'', ''.ex'', ''.exs'', ''.erl'',
      ''.clj'', ''.cljs'', ''.hs'', ''.ml'', ''.mli'', ''.pl'', ''.pm'', ''.groovy'', ''.jl'', ''.nim'', ''.zig'',
      ''.d'', ''.pas'']"

definition is_source_code_filename :: "string \<Rightarrow> bool" where
  "is_source_code_filename file_name \<longleftrightarrow> ends_with_any SOURCE_EXTS file_name"

definition is_sensitive_path :: "string \<Rightarrow> bool" where
  "is_sensitive_path path =
     (let lc = path_lc path; file_name = last_component lc
      in is_credential_store_path path \<or>
         ends_with_any [''.pem'', ''.key'', ''.p12'', ''.pfx''] file_name \<or>
         file_name \<in> {''id_rsa'', ''id_ed25519'', ''id_dsa'', ''id_ecdsa''} \<or>
         file_name = ''.env'' \<or> prefix ''.env.'' file_name \<or>
         ends_with_any [''.tfstate'', ''.tfstate.backup''] file_name \<or>
         file_name \<in> {''.netrc'', ''.npmrc'', ''.pypirc'', ''.pgpass'', ''.bash_history'', ''.zsh_history''} \<or>
         (\<not> (prefix ''/etc/passwd'' lc \<or> prefix ''/etc/group'' lc) \<and> name_has_sensitive_token file_name \<and>
          \<not> is_source_code_filename file_name))"

subsection \<open>The trust guard lies inside the gate\<close>

lemma trim_end_slashes_id: "\<not> suffix ''/'' s \<Longrightarrow> trim_end_slashes s = s"
  by (cases s rule: rev_cases) (auto simp: trim_end_slashes_def suffix_def)

text \<open>
  The guard of project trust lies inside the gate: for every path that does not end in a
  slash, a path that project trust must not cover (a credential store or a secret of the project)
  is one the sensitivity gate holds back for the proxy, so it can never ride through on the
  read-only shortcut.
\<close>

theorem trust_guard_within_gate:
  assumes "\<not> suffix ''/'' (path_lc path)" and "is_project_trust_guarded_path path"
  shows "is_sensitive_path path"
proof (cases "is_credential_store_path path")
  case True
  then show ?thesis by (simp add: is_sensitive_path_def Let_def)
next
  case False
  have "suffix ''.key'' ''master.key''" by code_simp
  with False assms trim_end_slashes_id [OF assms(1)] show ?thesis
    by (auto simp: is_project_trust_guarded_path_def is_high_value_project_secret_def is_sensitive_path_def Let_def
        ends_with_any_def split: if_splits)
qed

text \<open>
  With a trailing slash the guard leaves the gate: the guard looks at the name in front of the
  slash, the gate at the empty name behind it.
\<close>

theorem trust_guard_outside_gate:
  "is_project_trust_guarded_path ''/p/.env/'' \<and> \<not> is_sensitive_path ''/p/.env/''"
  by code_simp

theorem trust_guard_within_gate_witness:
  "is_sensitive_path ''/p/config/master.key''"
proof -
  have "\<not> suffix ''/'' (path_lc ''/p/config/master.key'')" "is_project_trust_guarded_path ''/p/config/master.key''" by code_simp+
  then show ?thesis by (rule trust_guard_within_gate)
qed

end
