(* ===== verification/Session_Grants.thy ===== *)
theory Session_Grants
  imports Path_Rules Call_Types Ip_Addr
begin

section \<open>Session grants and operator refusals\<close>

text \<open>
  The session allowlist of \<open>crates/grith-supervisor/src/supervisor/event_handler.rs\<close> (keys, entries an
  approval stores, the match that skips the proxy), the refusals that run before it, the workspace
  boundary (\<open>workspace_only.rs\<close>) and the provenance checks of executables (\<open>provenance.rs\<close>).
  What the code asks of the file system is the record \<open>fs\<close>; \<open>serde_json\<close> is the argument
  \<open>of_json\<close>. A hash set is a list, and every use of it asks only whether an element exists; the
  rule a refusal reports is the first of the list. Panics are made explicit: a slice whose ends
  cross is \<open>None\<close> in \<open>glob_match\<close>.
\<close>

subsection \<open>Paths\<close>

text \<open>\<open>Path::components\<close>: whether the path is absolute and its components without \<open>.\<close>.\<close>

definition path_comps :: "string \<Rightarrow> string list" where
  "path_comps path = filter (\<lambda>c. c \<noteq> [] \<and> c \<noteq> ''.'') (split_on CHR ''/'' path)"

definition is_absolute :: "string \<Rightarrow> bool" where
  "is_absolute path \<longleftrightarrow> prefix ''/'' path"

definition of_comps :: "bool \<Rightarrow> string list \<Rightarrow> string" where
  "of_comps absolute cs = (if absolute then ''/'' else []) @ join ''/'' cs"

text \<open>\<open>Path::starts_with\<close> compares whole components.\<close>

definition path_starts_with :: "string \<Rightarrow> string \<Rightarrow> bool" where
  "path_starts_with path base \<longleftrightarrow> is_absolute path = is_absolute base \<and> prefix (path_comps base) (path_comps path)"

text \<open>\<open>PathBuf::push\<close> of one component.\<close>

definition path_push :: "string \<Rightarrow> string \<Rightarrow> string" where
  "path_push base c = (if base = [] \<or> suffix ''/'' base then base @ c else base @ ''/'' @ c)"

datatype canon_result = Canon string | CanonNotFound | CanonError string

record fs_metadata =
  md_uid :: u32
  md_mode :: u32

record file_stat =
  st_is_file :: bool
  st_mode :: u32
  st_len :: nat

record fs =
  fs_exists :: "string \<Rightarrow> bool"
  fs_canonicalize :: "string \<Rightarrow> canon_result"
  fs_is_dir :: "string \<Rightarrow> bool"
  fs_symlink_metadata :: "string \<Rightarrow> string + fs_metadata"
  fs_read_to_string :: "string \<Rightarrow> string option"
  fs_read :: "string \<Rightarrow> string option"
  fs_stat :: "string \<Rightarrow> file_stat option"
  fs_sha256 :: "string \<Rightarrow> string option"
  fs_euid :: u32

definition canonicalize_ok :: "fs \<Rightarrow> string \<Rightarrow> string option" where
  "canonicalize_ok fs path = (case fs_canonicalize fs path of Canon p \<Rightarrow> Some p | _ \<Rightarrow> None)"

text \<open>\<open>normalize_absolute\<close> and \<open>resolve_path\<close> of \<open>scoped_permissions.rs\<close>.\<close>

fun normalize_loop :: "string list \<Rightarrow> string list \<Rightarrow> string + string list" where
  "normalize_loop out [] = Inr out"
| "normalize_loop out (c # cs) =
     (if c = ''..'' then
        (if out = [] then Inl ''Directory escapes the filesystem root'' else normalize_loop (butlast out) cs)
      else normalize_loop (out @ [c]) cs)"

definition normalize_absolute :: "string \<Rightarrow> string + string list" where
  "normalize_absolute path = normalize_loop [] (path_comps path)"

text \<open>The walk to the nearest ancestor that exists; the components are innermost first.\<close>

fun ancestor_loop :: "fs \<Rightarrow> bool \<Rightarrow> string list \<Rightarrow> string list \<Rightarrow> string + string" where
  "ancestor_loop fs absolute [] sfx =
     (let here = of_comps absolute []
      in if fs_exists fs here then
           (case fs_canonicalize fs here of
              Canon r \<Rightarrow> Inr (foldl path_push r sfx)
            | CanonNotFound \<Rightarrow> Inl ''Could not resolve an existing parent directory''
            | CanonError e \<Rightarrow> Inl (''Could not resolve parent directory: '' @ e))
         else Inl ''Could not resolve an existing parent directory'')"
| "ancestor_loop fs absolute (c # cs) sfx =
     (let here = of_comps absolute (rev (c # cs))
      in if fs_exists fs here then
           (case fs_canonicalize fs here of
              Canon r \<Rightarrow> Inr (foldl path_push r sfx)
            | CanonNotFound \<Rightarrow> ancestor_loop fs absolute cs (c # sfx)
            | CanonError e \<Rightarrow> Inl (''Could not resolve parent directory: '' @ e))
         else ancestor_loop fs absolute cs (c # sfx))"

definition resolve_path :: "fs \<Rightarrow> string \<Rightarrow> string + (string \<times> bool)" where
  "resolve_path fs path =
     (case normalize_absolute path of
        Inl e \<Rightarrow> Inl e
      | Inr cs \<Rightarrow>
          (let absolute = is_absolute path;
               cleaned = of_comps absolute cs;
               reconstruct = (case ancestor_loop fs absolute (rev cs) [] of Inl e \<Rightarrow> Inl e | Inr r \<Rightarrow> Inr (r, False))
           in if fs_exists fs cleaned then
                (case fs_canonicalize fs cleaned of
                   Canon r \<Rightarrow> Inr (r, True)
                 | CanonNotFound \<Rightarrow> reconstruct
                 | CanonError e \<Rightarrow> Inl (''Could not resolve path: '' @ e))
              else reconstruct))"

definition resolve_target :: "fs \<Rightarrow> string \<Rightarrow> string + string" where
  "resolve_target fs path = (case resolve_path fs path of Inl e \<Rightarrow> Inl e | Inr (r, _) \<Rightarrow> Inr r)"

text \<open>The target as the matchers see it: resolved if possible, with forward slashes.\<close>

definition resolved_text :: "fs \<Rightarrow> string \<Rightarrow> string" where
  "resolved_text fs path = replace_backslash (case resolve_target fs path of Inr r \<Rightarrow> r | Inl _ \<Rightarrow> path)"

subsection \<open>Provenance of executables\<close>

definition is_under_root :: "string \<Rightarrow> string \<Rightarrow> bool" where
  "is_under_root path base \<longleftrightarrow> prefix (if suffix ''/'' base then base else base @ ''/'') path"

record exec_trust_decision =
  et_trusted :: bool
  et_canonical_path :: "string option"
  et_reason :: string

text \<open>The checks on one component; the text of a refusal names the component and the rule.\<close>

definition component_safety :: "u32 \<Rightarrow> string \<Rightarrow> fs_metadata \<Rightarrow> string option" where
  "component_safety euid current md =
     (if md_uid md \<noteq> 0 \<and> md_uid md \<noteq> euid then Some (current @ '' owned by another user'')
      else if bit (md_mode md) 1 then Some (current @ '' is world-writable'')
      else if md_uid md = 0 \<and> bit (md_mode md) 4 then Some (current @ '' is root-owned and group-writable'')
      else None)"

fun safety_loop :: "fs \<Rightarrow> string \<Rightarrow> string list \<Rightarrow> string + unit" where
  "safety_loop fs current [] = Inr ()"
| "safety_loop fs current (c # cs) =
     (let here = path_push current c
      in case fs_symlink_metadata fs here of
           Inl e \<Rightarrow> Inl (''cannot stat '' @ here @ '': '' @ e)
         | Inr md \<Rightarrow> (case component_safety (fs_euid fs) here md of Some e \<Rightarrow> Inl e | None \<Rightarrow> safety_loop fs here cs))"

text \<open>The first component of an absolute path is the root itself.\<close>

definition verify_path_safety :: "fs \<Rightarrow> string \<Rightarrow> string + unit" where
  "verify_path_safety fs path = safety_loop fs [] ((if is_absolute path then [''/''] else []) @ path_comps path)"

definition trust_decision :: "string \<Rightarrow> string \<Rightarrow> string + unit \<Rightarrow> exec_trust_decision" where
  "trust_decision canonical reason safety =
     (case safety of
        Inr _ \<Rightarrow> \<lparr> et_trusted = True, et_canonical_path = Some canonical, et_reason = reason \<rparr>
      | Inl e \<Rightarrow> \<lparr> et_trusted = False, et_canonical_path = Some canonical, et_reason = e \<rparr>)"

definition verify_exact_exec_provenance :: "fs \<Rightarrow> string \<Rightarrow> string list \<Rightarrow> exec_trust_decision" where
  "verify_exact_exec_provenance fs raw_path trusted_execs =
     (case canonicalize_ok fs raw_path of
        None \<Rightarrow> \<lparr> et_trusted = False, et_canonical_path = None, et_reason = ''canonicalization failed for '' @ raw_path \<rparr>
      | Some canonical \<Rightarrow>
          if canonical \<notin> set trusted_execs
          then \<lparr> et_trusted = False, et_canonical_path = Some canonical,
                 et_reason = ''canonical path does not match any trusted exact executable'' \<rparr>
          else trust_decision canonical ''trusted exact executable'' (verify_path_safety fs canonical))"

definition verify_exec_provenance :: "fs \<Rightarrow> string \<Rightarrow> string list \<Rightarrow> exec_trust_decision" where
  "verify_exec_provenance fs raw_path trusted_roots =
     (case canonicalize_ok fs raw_path of
        None \<Rightarrow> \<lparr> et_trusted = False, et_canonical_path = None, et_reason = ''canonicalization failed for '' @ raw_path \<rparr>
      | Some canonical \<Rightarrow>
          (case find (is_under_root canonical) trusted_roots of
             None \<Rightarrow> \<lparr> et_trusted = False, et_canonical_path = Some canonical, et_reason = ''not under any trusted exec root'' \<rparr>
           | Some base \<Rightarrow> trust_decision canonical (''trusted exec root '' @ base) (verify_path_safety fs canonical)))"

subsection \<open>Keys\<close>

definition ssh_egress_key :: "string \<Rightarrow> u16 \<Rightarrow> string" where
  "ssh_egress_key address port = ''ssh-egress:'' @ address @ '':'' @ digits_of_nat (unat port)"

definition netconnect_operator_ssh_egress_grant :: "tool_call_type \<Rightarrow> string list \<Rightarrow> bool" where
  "netconnect_operator_ssh_egress_grant call allowed =
     (case call of NetConnect address port \<Rightarrow> ssh_egress_key address port \<in> set allowed | _ \<Rightarrow> False)"

definition split_whitespace :: "string \<Rightarrow> string list" where
  "split_whitespace s = filter (\<lambda>w. w \<noteq> []) (split_at_any is_space s)"

text \<open>\<open>str::parse::<u64>\<close>: digits with an optional plus sign, in range.\<close>

definition parse_u64 :: "string \<Rightarrow> nat option" where
  "parse_u64 s =
     (let ds = (case s of c # rest \<Rightarrow> if c = CHR ''+'' then rest else s | [] \<Rightarrow> []);
          n = foldl (\<lambda>a c. 10 * a + (of_char c - 48)) 0 ds
      in if ds = [] \<or> \<not> list_all is_ascii_digit ds \<or> n \<ge> 2 ^ 64 then None else Some n)"

definition process_start_time :: "fs \<Rightarrow> u32 \<Rightarrow> nat option" where
  "process_start_time fs pid =
     (case fs_read_to_string fs (''/proc/'' @ digits_of_nat (unat pid) @ ''/stat'') of
        None \<Rightarrow> None
      | Some stat \<Rightarrow>
          (case rsplit_once CHR '')'' stat of
             None \<Rightarrow> None
           | Some (_, after_comm) \<Rightarrow>
               (let ws = split_whitespace after_comm in if 19 < length ws then parse_u64 (ws ! 19) else None)))"

fun session_allowlist_key :: "fs \<Rightarrow> tool_call_type \<Rightarrow> string option" where
  "session_allowlist_key fs (FileRead path) = Some path"
| "session_allowlist_key fs (FileWrite path _) = Some path"
| "session_allowlist_key fs (FileAppend path) = Some path"
| "session_allowlist_key fs (FileDelete path) = Some path"
| "session_allowlist_key fs (DirList path) = Some path"
| "session_allowlist_key fs (FileChmod path _) = Some path"
| "session_allowlist_key fs (DirCreate path) = Some path"
| "session_allowlist_key fs (FileRename old_path _) = Some old_path"
| "session_allowlist_key fs (FileLink _ link_path _) = Some link_path"
| "session_allowlist_key fs (OwnershipChange target _ _) = Some target"
| "session_allowlist_key fs (FilesystemMutation _ _ target _) = Some target"
| "session_allowlist_key fs (NetConnect address _) = Some (''net:'' @ address)"
| "session_allowlist_key fs (NetListen address port) = Some (''listen:'' @ address @ '':'' @ digits_of_nat (unat port))"
| "session_allowlist_key fs (ProcessSpawn command _) = Some (''exec:'' @ command)"
| "session_allowlist_key fs (DnsQuery domain _) = Some (''dns:'' @ domain)"
| "session_allowlist_key fs (CrossProcessAccess op pid) =
     map_option (\<lambda>start. ''process:'' @ op @ '':'' @ digits_of_nat (unat pid) @ '':'' @ digits_of_nat start) (process_start_time fs pid)"
| "session_allowlist_key fs (NamespaceOp syscall flags) = Some (''namespace:'' @ syscall @ '':0x'' @ digits_base 16 (unat flags))"
| "session_allowlist_key fs _ = None"

subsection \<open>What an approval stores\<close>

definition canonicalize_allowlist_entry :: "fs \<Rightarrow> string \<Rightarrow> string \<Rightarrow> string option" where
  "canonicalize_allowlist_entry fs namespace path = map_option (\<lambda>p. namespace @ p) (canonicalize_ok fs path)"

definition readonly_allowlist_entry :: "fs \<Rightarrow> string \<Rightarrow> string option" where
  "readonly_allowlist_entry fs path = canonicalize_allowlist_entry fs ''ro:'' path"

fun approved_session_allowlist_entry :: "fs \<Rightarrow> tool_call_type \<Rightarrow> string option" where
  "approved_session_allowlist_entry fs (FileRead path) = canonicalize_allowlist_entry fs ''ro:'' path"
| "approved_session_allowlist_entry fs (FileWrite path _) = canonicalize_allowlist_entry fs ''rw:'' path"
| "approved_session_allowlist_entry fs (FileAppend path) = canonicalize_allowlist_entry fs ''rw:'' path"
| "approved_session_allowlist_entry fs (FileDelete path) = canonicalize_allowlist_entry fs ''rw:'' path"
| "approved_session_allowlist_entry fs (FileChmod path _) = canonicalize_allowlist_entry fs ''rw:'' path"
| "approved_session_allowlist_entry fs (DirCreate path) = canonicalize_allowlist_entry fs ''rw:'' path"
| "approved_session_allowlist_entry fs (FileRename old_path _) = canonicalize_allowlist_entry fs ''rw:'' old_path"
| "approved_session_allowlist_entry fs (OwnershipChange target _ _) = canonicalize_allowlist_entry fs ''rw:'' target"
| "approved_session_allowlist_entry fs (FilesystemMutation _ _ target _) = canonicalize_allowlist_entry fs ''rw:'' target"
| "approved_session_allowlist_entry fs (FileLink _ _ _) = None"
| "approved_session_allowlist_entry fs call = session_allowlist_key fs call"

definition approved_session_allowlist_entries :: "(string \<Rightarrow> string list option) \<Rightarrow> fs \<Rightarrow> tool_call_type \<Rightarrow> string list" where
  "approved_session_allowlist_entries of_json fs call =
     (case approved_session_allowlist_entry fs call of
        None \<Rightarrow> []
      | Some key \<Rightarrow>
          (case Option.bind (strip_prefix ''net:'' key) (parse_dns_candidate_array of_json) of
             Some candidates \<Rightarrow> map (\<lambda>c. ''net:'' @ c) candidates
           | None \<Rightarrow> [key]))"

definition tmp_self_created_prefix :: "tool_call_type \<Rightarrow> string option" where
  "tmp_self_created_prefix call =
     (case (case call of
              DirCreate path \<Rightarrow> Some (path, True)
            | FileWrite path _ \<Rightarrow> Some (path, False)
            | FileAppend path \<Rightarrow> Some (path, False)
            | FileRename _ new_path \<Rightarrow> Some (new_path, False)
            | _ \<Rightarrow> None) of
        None \<Rightarrow> None
      | Some (path, is_dir_create) \<Rightarrow>
          (case strip_prefix ''/tmp/'' path of
             None \<Rightarrow> None
           | Some sfx \<Rightarrow>
               if sfx = [] \<or> CHR ''/'' \<in> set sfx then None
               else if sfx \<in> {''.X11-unix'', ''.ICE-unix'', ''.font-unix'', ''.Test-unix'', ''.XIM-unix''} then None
               else if is_dir_create then Some (''/tmp/'' @ sfx @ ''/'') else Some (''/tmp/'' @ sfx)))"

subsection \<open>Matching\<close>

definition projdir_guarded_paths :: "string \<Rightarrow> tool_call_type \<Rightarrow> string list" where
  "projdir_guarded_paths key call =
     key # (case call of FileRename _ new_path \<Rightarrow> [new_path] | FileLink target _ _ \<Rightarrow> [target] | _ \<Rightarrow> [])"

definition projdir_grant_blocked :: "string \<Rightarrow> tool_call_type \<Rightarrow> bool" where
  "projdir_grant_blocked key call \<longleftrightarrow> list_ex is_project_trust_guarded_path (projdir_guarded_paths key call)"

definition directory_scope_matches :: "string \<Rightarrow> string \<Rightarrow> bool" where
  "directory_scope_matches directory target =
     (let d = trim_end_slashes directory
      in target = d \<or> (case strip_prefix d target of Some sfx \<Rightarrow> prefix ''/'' sfx | None \<Rightarrow> False))"

text \<open>The slice between the two ends panics when they overlap.\<close>

definition glob_match :: "string \<Rightarrow> string \<Rightarrow> bool option" where
  "glob_match path pattern =
     (if CHR ''*'' \<in> set pattern then
        (let pre = takeWhile (\<lambda>c. c \<noteq> CHR ''*'') pattern; post = drop (length pre + 1) pattern
         in if prefix pre path \<and> suffix post path then
              (if length pre + length post > length path then None
               else Some (CHR ''/'' \<notin> set (take (length path - length pre - length post) (drop (length pre) path))))
            else Some False)
      else Some (path = pattern))"

definition domain_matches :: "string \<Rightarrow> string \<Rightarrow> bool" where
  "domain_matches domain sfx \<longleftrightarrow>
     domain = sfx \<or> (length domain > length sfx \<and> suffix sfx domain \<and> domain ! (length domain - length sfx - 1) = CHR ''.'')"

definition scoped_prefix_namespace :: "tool_call_type \<Rightarrow> string option" where
  "scoped_prefix_namespace call =
     (case call of
        FileRead _ \<Rightarrow> Some ''ro-prefix:''
      | DirList _ \<Rightarrow> Some ''ro-prefix:''
      | FileWrite _ _ \<Rightarrow> Some ''write-prefix:''
      | FileAppend _ \<Rightarrow> Some ''write-prefix:''
      | DirCreate _ \<Rightarrow> Some ''write-prefix:''
      | FileDelete _ \<Rightarrow> Some ''delete-prefix:''
      | FileRename _ _ \<Rightarrow> Some ''delete-prefix:''
      | _ \<Rightarrow> None)"

definition scoped_call_target :: "tool_call_type \<Rightarrow> string option" where
  "scoped_call_target call =
     (case call of
        FileRead path \<Rightarrow> Some path
      | DirList path \<Rightarrow> Some path
      | FileWrite path _ \<Rightarrow> Some path
      | FileAppend path \<Rightarrow> Some path
      | DirCreate path \<Rightarrow> Some path
      | FileDelete path \<Rightarrow> Some path
      | FileRename old_path _ \<Rightarrow> Some old_path
      | _ \<Rightarrow> None)"

text \<open>An entry of a namespace whose directory covers the target.\<close>

definition scope_entry_matches :: "string \<Rightarrow> string \<Rightarrow> string \<Rightarrow> bool" where
  "scope_entry_matches namespace target entry =
     (case strip_prefix namespace entry of Some directory \<Rightarrow> directory_scope_matches directory target | None \<Rightarrow> False)"

definition net_entry_matches :: "string \<Rightarrow> string \<Rightarrow> bool" where
  "net_entry_matches domain entry =
     (case strip_prefix ''net:'' entry of Some sfx \<Rightarrow> domain_matches domain sfx | None \<Rightarrow> False)"

definition net_match :: "(string \<Rightarrow> string list option) \<Rightarrow> string list \<Rightarrow> string \<Rightarrow> bool" where
  "net_match of_json allowed domain =
     (case parse_dns_candidate_array of_json domain of
        Some candidates \<Rightarrow> candidates \<noteq> [] \<and> list_all (\<lambda>c. list_ex (net_entry_matches c) allowed) candidates
      | None \<Rightarrow> list_ex (net_entry_matches domain) allowed)"

definition listen_match :: "string list \<Rightarrow> string \<Rightarrow> bool" where
  "listen_match allowed key \<longleftrightarrow>
     key \<in> set allowed \<or>
     (case Option.bind (strip_prefix ''listen:'' key) (rsplit_once CHR '':'') of
        Some (addr, _) \<Rightarrow> ''listen:'' @ addr \<in> set allowed
      | None \<Rightarrow> False)"

definition exec_match :: "fs \<Rightarrow> string list \<Rightarrow> string \<Rightarrow> bool" where
  "exec_match fs allowed exec_path =
     (let trusted_execs = List.map_filter (strip_prefix ''exec:'') allowed;
          trusted_roots = List.map_filter (strip_prefix ''exec-prefix:'') allowed
      in (trusted_execs \<noteq> [] \<and> et_trusted (verify_exact_exec_provenance fs exec_path trusted_execs)) \<or>
         (trusted_roots \<noteq> [] \<and> et_trusted (verify_exec_provenance fs exec_path trusted_roots)))"

definition is_file_read :: "tool_call_type \<Rightarrow> bool" where
  "is_file_read call \<longleftrightarrow> (case call of FileRead _ \<Rightarrow> True | _ \<Rightarrow> False)"

definition is_write_op :: "tool_call_type \<Rightarrow> bool" where
  "is_write_op call \<longleftrightarrow>
     (case call of
        FileWrite _ _ \<Rightarrow> True | FileAppend _ \<Rightarrow> True | FileDelete _ \<Rightarrow> True | FileRename _ _ \<Rightarrow> True | FileChmod _ _ \<Rightarrow> True
      | DirCreate _ \<Rightarrow> True | OwnershipChange _ _ _ \<Rightarrow> True | FilesystemMutation _ _ _ _ \<Rightarrow> True | _ \<Rightarrow> False)"

definition scope_match :: "fs \<Rightarrow> string list \<Rightarrow> tool_call_type \<Rightarrow> bool" where
  "scope_match fs allowed call =
     (case (scoped_call_target call, scoped_prefix_namespace call) of
        (Some target, Some namespace) \<Rightarrow> list_ex (scope_entry_matches namespace (resolved_text fs target)) allowed
      | _ \<Rightarrow> False)"

text \<open>The loop over the glob entries: \<open>None\<close> if one of them panics before another matches.\<close>

fun glob_any :: "string \<Rightarrow> string list \<Rightarrow> bool option" where
  "glob_any key [] = Some False"
| "glob_any key (e # es) =
     (case strip_prefix ''ro-glob:'' e of
        None \<Rightarrow> glob_any key es
      | Some pattern \<Rightarrow>
          (case glob_match key pattern of None \<Rightarrow> None | Some True \<Rightarrow> Some True | Some False \<Rightarrow> glob_any key es))"

definition entry_in :: "string list \<Rightarrow> string option \<Rightarrow> bool" where
  "entry_in allowed entry = (case entry of Some e \<Rightarrow> e \<in> set allowed | None \<Rightarrow> False)"

definition NAMESPACED :: "string list" where
  "NAMESPACED = [''exec-prefix:'', ''ro-prefix:'', ''write-prefix:'', ''delete-prefix:'', ''ro:'', ''ro-glob:'', ''rw:'',
     ''process:'', ''namespace:'', ''projdir:'']"

definition bare_prefix_matches :: "string list \<Rightarrow> string \<Rightarrow> tool_call_type \<Rightarrow> string \<Rightarrow> bool" where
  "bare_prefix_matches allowed key call entry \<longleftrightarrow>
     \<not> starts_with_any NAMESPACED entry \<and> prefix entry key \<and>
     \<not> (''projdir:'' @ entry \<in> set allowed \<and> projdir_grant_blocked key call)"

definition exact_match :: "string list \<Rightarrow> string \<Rightarrow> tool_call_type \<Rightarrow> bool" where
  "exact_match allowed key call \<longleftrightarrow>
     \<not> starts_with_any [''ro-prefix:'', ''write-prefix:'', ''delete-prefix:''] key \<and> key \<in> set allowed \<and>
     \<not> (''projdir:'' @ key \<in> set allowed \<and> projdir_grant_blocked key call)"

definition is_cross_process :: "tool_call_type \<Rightarrow> bool" where
  "is_cross_process call \<longleftrightarrow> (case call of CrossProcessAccess _ _ \<Rightarrow> True | _ \<Rightarrow> False)"

definition is_namespace_op :: "tool_call_type \<Rightarrow> bool" where
  "is_namespace_op call \<longleftrightarrow> (case call of NamespaceOp _ _ \<Rightarrow> True | _ \<Rightarrow> False)"

text \<open>The part of the match after the network and spawn keys.\<close>

definition path_match :: "fs \<Rightarrow> string \<Rightarrow> string list \<Rightarrow> tool_call_type \<Rightarrow> bool option" where
  "path_match fs key allowed call =
     (if scope_match fs allowed call then Some True
      else if is_file_read call \<and> entry_in allowed (readonly_allowlist_entry fs key) then Some True
      else case (if is_file_read call then glob_any key allowed else Some False) of
          None \<Rightarrow> None
        | Some True \<Rightarrow> Some True
        | Some False \<Rightarrow>
            if is_write_op call \<and> entry_in allowed (canonicalize_allowlist_entry fs ''rw:'' key) then Some True
            else if prefix ''process:'' key then Some (is_cross_process call \<and> key \<in> set allowed)
            else if prefix ''namespace:'' key then Some (is_namespace_op call \<and> key \<in> set allowed)
            else Some (exact_match allowed key call \<or> list_ex (bare_prefix_matches allowed key call) allowed))"

definition unlinked_match ::
    "(string \<Rightarrow> string list option) \<Rightarrow> fs \<Rightarrow> string \<Rightarrow> string list \<Rightarrow> tool_call_type \<Rightarrow> bool option" where
  "unlinked_match of_json fs key allowed call =
     (if prefix ''listen:'' key then Some (listen_match allowed key)
      else case (case strip_prefix ''net:'' key of Some d \<Rightarrow> Some d | None \<Rightarrow> strip_prefix ''dns:'' key) of
          Some domain \<Rightarrow> Some (net_match of_json allowed domain)
        | None \<Rightarrow>
            (case strip_prefix ''exec:'' key of
               Some exec_path \<Rightarrow> Some (exec_match fs allowed exec_path)
             | None \<Rightarrow> path_match fs key allowed call))"

definition is_session_allowlist_match ::
    "(string \<Rightarrow> string list option) \<Rightarrow> fs \<Rightarrow> string \<Rightarrow> string list \<Rightarrow> tool_call_type \<Rightarrow> bool option" where
  "is_session_allowlist_match of_json fs key allowed call =
     (case call of
        FileLink target _ _ \<Rightarrow>
          if is_project_trust_guarded_path target \<or> is_project_trust_guarded_path key then Some False
          else (case unlinked_match of_json fs target allowed (FileWrite target []) of
              None \<Rightarrow> None
            | Some False \<Rightarrow> Some False
            | Some True \<Rightarrow> unlinked_match of_json fs key allowed call)
      | _ \<Rightarrow> unlinked_match of_json fs key allowed call)"

definition is_sensitive_scoped_read_match :: "fs \<Rightarrow> tool_call_type \<Rightarrow> string list \<Rightarrow> bool" where
  "is_sensitive_scoped_read_match fs call allowed =
     (case (case call of FileRead path \<Rightarrow> Some path | DirList path \<Rightarrow> Some path | _ \<Rightarrow> None) of
        None \<Rightarrow> False
      | Some path \<Rightarrow>
          if \<not> is_sensitive_path path \<and> \<not> is_sensitive_path (trim_end_slashes path @ ''/'') then False
          else list_ex (scope_entry_matches ''ro-prefix:'' (resolved_text fs path)) allowed)"

subsection \<open>Refusals and the workspace boundary\<close>

definition DENY_RULE_PREFIX :: string where
  "DENY_RULE_PREFIX = ''deny-''"

definition governed_paths :: "tool_call_type \<Rightarrow> string list option" where
  "governed_paths call =
     (case call of
        FileRead path \<Rightarrow> Some [path]
      | DirList path \<Rightarrow> Some [path]
      | FileWrite path _ \<Rightarrow> Some [path]
      | FileAppend path \<Rightarrow> Some [path]
      | DirCreate path \<Rightarrow> Some [path]
      | FileDelete path \<Rightarrow> Some [path]
      | FileRename old_path new_path \<Rightarrow> Some [old_path, new_path]
      | _ \<Rightarrow> None)"

definition is_read_like :: "tool_call_type \<Rightarrow> bool" where
  "is_read_like call \<longleftrightarrow> (case call of FileRead _ \<Rightarrow> True | DirList _ \<Rightarrow> True | _ \<Rightarrow> False)"

fun first_denied :: "fs \<Rightarrow> string \<Rightarrow> string list \<Rightarrow> string list \<Rightarrow> string option" where
  "first_denied fs namespace denied [] = None"
| "first_denied fs namespace denied (target # targets) =
     (case find (scope_entry_matches namespace (resolved_text fs target)) denied of
        Some rule \<Rightarrow> Some rule
      | None \<Rightarrow> first_denied fs namespace denied targets)"

definition session_deny_match :: "fs \<Rightarrow> tool_call_type \<Rightarrow> string list \<Rightarrow> string option" where
  "session_deny_match fs call denied =
     (if denied = [] then None
      else case (scoped_prefix_namespace call, governed_paths call) of
          (Some namespace, Some targets) \<Rightarrow> first_denied fs (DENY_RULE_PREFIX @ namespace) denied targets
        | _ \<Rightarrow> None)"

text \<open>The roots of the workspace, each with one trailing slash, without repetition.\<close>

fun boundary_loop :: "string list \<Rightarrow> string list \<Rightarrow> string list" where
  "boundary_loop out [] = out"
| "boundary_loop out (r # rs) =
     (let trimmed = trim_end_slashes r
      in if trimmed = [] \<or> trimmed @ ''/'' \<in> set out then boundary_loop out rs
         else boundary_loop (out @ [trimmed @ ''/'']) rs)"

definition boundary_new :: "string list \<Rightarrow> string list" where
  "boundary_new roots = boundary_loop [] roots"

definition boundary_contains :: "string list \<Rightarrow> string \<Rightarrow> bool" where
  "boundary_contains roots path =
     (let p = replace_backslash path in list_ex (\<lambda>r. p = trim_end_slashes r \<or> prefix r p) roots)"

definition SYSTEM_READ_ROOTS :: "string list" where
  "SYSTEM_READ_ROOTS =
     [''/usr/'', ''/lib/'', ''/lib64/'', ''/lib32/'', ''/bin/'', ''/sbin/'', ''/opt/'', ''/etc/'', ''/var/lib/'', ''/var/cache/'',
      ''/nix/store/'', ''/snap/'', ''/run/systemd/resolve/'', ''/run/resolvconf/'', ''/run/NetworkManager/'', ''/run/nscd/'']"

definition is_system_read_root :: "string \<Rightarrow> bool" where
  "is_system_read_root path =
     (let p = replace_backslash path in list_ex (\<lambda>r. prefix r p \<or> p = trim_end_slashes r) SYSTEM_READ_ROOTS)"

text \<open>The probe of the same kind of operation on the resolved path.\<close>

definition boundary_probe :: "tool_call_type \<Rightarrow> string \<Rightarrow> tool_call_type" where
  "boundary_probe call resolved =
     (if scoped_prefix_namespace call = Some ''ro-prefix:'' then FileRead resolved
      else if scoped_prefix_namespace call = Some ''delete-prefix:'' then FileDelete resolved
      else FileWrite resolved [])"

text \<open>Why one target stops the call: \<open>Some None\<close> is no reason, the outer \<open>None\<close> a panic of the match.\<close>

definition target_block :: "(string \<Rightarrow> string list option) \<Rightarrow> fs \<Rightarrow> string list \<Rightarrow> string list \<Rightarrow> tool_call_type \<Rightarrow> string \<Rightarrow> string option option" where
  "target_block of_json fs roots allowed call target =
     (let resolved = resolved_text fs target
      in if boundary_contains roots resolved then Some None
         else if is_noise_path resolved \<or> is_noise_path target then Some None
         else if is_read_like call \<and> is_system_read_root resolved then Some None
         else case session_allowlist_key fs (boundary_probe call resolved) of
             None \<Rightarrow> Some (Some resolved)
           | Some key \<Rightarrow>
               (case is_session_allowlist_match of_json fs key allowed (boundary_probe call resolved) of
                  None \<Rightarrow> None
                | Some True \<Rightarrow> Some None
                | Some False \<Rightarrow> Some (Some resolved)))"

fun block_loop :: "(string \<Rightarrow> string option option) \<Rightarrow> string list \<Rightarrow> string option option" where
  "block_loop block [] = Some None"
| "block_loop block (t # ts) =
     (case block t of None \<Rightarrow> None | Some (Some r) \<Rightarrow> Some (Some r) | Some None \<Rightarrow> block_loop block ts)"

definition workspace_only_block_reason ::
    "(string \<Rightarrow> string list option) \<Rightarrow> fs \<Rightarrow> string list \<Rightarrow> tool_call_type \<Rightarrow> string list \<Rightarrow> string option option" where
  "workspace_only_block_reason of_json fs roots call allowed =
     (if roots = [] then Some None
      else case governed_paths call of
          None \<Rightarrow> Some None
        | Some targets \<Rightarrow> block_loop (target_block of_json fs roots allowed call) targets)"

subsection \<open>Grants stay in their namespace\<close>

lemma strip_prefix_Some: "strip_prefix p s = Some r \<longleftrightarrow> s = p @ r"
  by (auto simp: strip_prefix_def prefix_def)

lemma strip_prefix_None: "strip_prefix p s = None \<longleftrightarrow> \<not> prefix p s"
  by (simp add: strip_prefix_def)

text \<open>A path as the tracer reports it: absolute, so it cannot spell a namespace.\<close>

lemma absolute_key:
  assumes "is_absolute key"
  shows "\<not> prefix ''listen:'' key" "strip_prefix ''net:'' key = None" "strip_prefix ''dns:'' key = None"
    "strip_prefix ''exec:'' key = None" "\<not> prefix ''process:'' key" "\<not> prefix ''namespace:'' key"
    "\<not> starts_with_any [''ro-prefix:'', ''write-prefix:'', ''delete-prefix:''] key"
  using assms by (auto simp: is_absolute_def strip_prefix_None prefix_def starts_with_any_def)

lemma unlinked_match_path: "is_absolute key \<Longrightarrow> unlinked_match of_json fs key allowed call = path_match fs key allowed call"
  by (simp add: unlinked_match_def absolute_key)

definition read_only_entry :: "string \<Rightarrow> bool" where
  "read_only_entry e \<longleftrightarrow> prefix ''ro:'' e \<or> prefix ''ro-prefix:'' e \<or> prefix ''ro-glob:'' e"

lemma read_only_entryD:
  assumes "read_only_entry e"
  shows "strip_prefix ''write-prefix:'' e = None" "strip_prefix ''delete-prefix:'' e = None" "\<not> prefix ''rw:'' e"
    "\<not> is_absolute e" "starts_with_any NAMESPACED e"
  using assms by (auto simp: read_only_entry_def strip_prefix_None prefix_def is_absolute_def NAMESPACED_def starts_with_any_def)

text \<open>
  Reading grants grant reading: an allowlist of read-only entries (exact, directory and glob
  grants for reads) never lets a call that is not a read or a listing of a directory skip the
  proxy, whatever path it names.
\<close>

theorem read_grants_never_write:
  assumes "list_all read_only_entry allowed" and "is_absolute key"
    and "is_write_op call \<or> (\<exists>target link symbolic. call = FileLink target link symbolic \<and> is_absolute target)"
  shows "is_session_allowlist_match of_json fs key allowed call = Some False"
proof -
  have none: "path_match fs k allowed c = Some False" if "is_write_op c" "is_absolute k" for k c
  proof -
    have "\<not> scope_match fs allowed c"
      using that(1) assms(1)
      by (auto simp: scope_match_def scoped_prefix_namespace_def is_write_op_def list_all_iff list_ex_iff scope_entry_matches_def
          read_only_entryD(1,2) split: tool_call_type.splits option.splits)
    moreover have "\<not> entry_in allowed (canonicalize_allowlist_entry fs ''rw:'' k)"
      using assms(1) by (auto simp: entry_in_def canonicalize_allowlist_entry_def list_all_iff read_only_entry_def split: option.splits)
    moreover have "\<not> exact_match allowed k c" using assms(1) that(2) read_only_entryD(4) by (auto simp: exact_match_def list_all_iff)
    moreover have "\<not> list_ex (bare_prefix_matches allowed k c) allowed"
      using assms(1) read_only_entryD(5) by (auto simp: bare_prefix_matches_def list_all_iff list_ex_iff)
    moreover have "\<not> is_file_read c" using that(1) by (auto simp: is_file_read_def is_write_op_def split: tool_call_type.splits)
    ultimately show ?thesis using absolute_key [OF that(2)] by (simp add: path_match_def)
  qed
  from assms(3) show ?thesis
  proof
    assume "is_write_op call"
    then show ?thesis
      using none [of call key] assms(2) by (auto simp: is_session_allowlist_match_def unlinked_match_path is_write_op_def split: tool_call_type.splits)
  next
    assume "\<exists>target link symbolic. call = FileLink target link symbolic \<and> is_absolute target"
    then obtain target link symbolic where call: "call = FileLink target link symbolic" "is_absolute target" by auto
    have "unlinked_match of_json fs target allowed (FileWrite target []) = Some False"
      using none [of "FileWrite target []" target] call(2) by (simp add: unlinked_match_path is_write_op_def)
    then show ?thesis using call(1) by (simp add: is_session_allowlist_match_def)
  qed
qed

text \<open>A file system without links in which every path resolves to itself, for the concrete runs.\<close>

definition plain_fs :: fs where
  "plain_fs = \<lparr> fs_exists = (\<lambda>_. True), fs_canonicalize = Canon, fs_is_dir = (\<lambda>_. True),
     fs_symlink_metadata = (\<lambda>_. Inr \<lparr> md_uid = 0, md_mode = 0 \<rparr>), fs_read_to_string = (\<lambda>_. None),
     fs_read = (\<lambda>_. None), fs_stat = (\<lambda>_. None), fs_sha256 = (\<lambda>_. None), fs_euid = 0 \<rparr>"

theorem read_grants_never_write_witness:
  "is_session_allowlist_match (\<lambda>_. None) plain_fs ''/w/a'' [''ro:/w/a'', ''ro-prefix:/w/'', ''ro-glob:/w/*''] (FileDelete ''/w/a'') = Some False"
  by (rule read_grants_never_write) (simp_all add: read_only_entry_def is_absolute_def is_write_op_def)

subsection \<open>Trust in the project directory\<close>

text \<open>An entry of the trust in a project: the directory itself or its \<open>projdir:\<close> twin.\<close>

definition project_trust_entry :: "string list \<Rightarrow> string \<Rightarrow> bool" where
  "project_trust_entry allowed e \<longleftrightarrow> prefix ''projdir:'' e \<or> (is_absolute e \<and> ''projdir:'' @ e \<in> set allowed)"

lemma project_trust_entryD:
  assumes "project_trust_entry allowed e"
  shows "strip_prefix ''ro-prefix:'' e = None" "strip_prefix ''write-prefix:'' e = None" "strip_prefix ''delete-prefix:'' e = None"
    "strip_prefix ''ro-glob:'' e = None" "\<not> prefix ''rw:'' e" "\<not> prefix ''ro:'' e"
  using assms by (auto simp: project_trust_entry_def strip_prefix_None prefix_def is_absolute_def)

lemma no_globs: "list_all (\<lambda>e. strip_prefix ''ro-glob:'' e = None) es \<Longrightarrow> glob_any key es = Some False"
  by (induction es) simp_all

lemma project_trust_path_match:
  assumes "list_all (project_trust_entry allowed) allowed" and "is_absolute key" and "projdir_grant_blocked key call"
  shows "path_match fs key allowed call = Some False"
proof -
  have entry: "project_trust_entry allowed e" if "e \<in> set allowed" for e using assms(1) that by (simp add: list_all_iff)
  have "\<not> scope_match fs allowed call"
    using entry by (auto simp: scope_match_def scoped_prefix_namespace_def list_ex_iff scope_entry_matches_def project_trust_entryD(1-3) [OF entry]
        split: tool_call_type.splits option.splits)
  moreover have "\<not> entry_in allowed (canonicalize_allowlist_entry fs ns key)" if "ns = ''rw:'' \<or> ns = ''ro:''" for ns
    using that project_trust_entryD(5,6) [OF entry]
    by (fastforce simp: entry_in_def canonicalize_allowlist_entry_def prefix_def split: option.splits)
  moreover have "glob_any key allowed = Some False"
    by (rule no_globs) (simp add: list_all_iff project_trust_entryD(4) [OF entry])
  moreover have "\<not> exact_match allowed key call"
    using entry assms(2,3) by (auto simp: exact_match_def project_trust_entry_def prefix_def is_absolute_def)
  moreover have "\<not> bare_prefix_matches allowed key call e" if "e \<in> set allowed" for e
    using entry [OF that] assms(3) by (auto simp: bare_prefix_matches_def project_trust_entry_def NAMESPACED_def starts_with_any_def)
  ultimately show ?thesis
    using absolute_key [OF assms(2)] by (auto simp: path_match_def readonly_allowlist_entry_def list_ex_iff)
qed

text \<open>
  C21. Trusting a project does not cover its secrets: with an allowlist of project directories only,
  a call on a guarded path (\<open>.env\<close>, keys, \<open>.git/hooks\<close> and the like) under such a directory, also
  as the destination of a rename or the target of a link, never skips the proxy.
\<close>

theorem project_trust_never_covers_secrets:
  assumes "list_all (project_trust_entry allowed) allowed" and "is_absolute key" and "projdir_grant_blocked key call"
  shows "is_session_allowlist_match of_json fs key allowed call = Some False"
  using project_trust_path_match [OF assms] assms(2,3)
  by (auto simp: is_session_allowlist_match_def unlinked_match_path projdir_grant_blocked_def projdir_guarded_paths_def
      split: tool_call_type.splits)

theorem project_trust_never_covers_secrets_witness:
  "is_session_allowlist_match (\<lambda>_. None) plain_fs ''/w/a'' [''/w/'', ''projdir:/w/''] (FileRename ''/w/a'' ''/w/.env'') = Some False"
  by (rule project_trust_never_covers_secrets)
    (simp_all add: project_trust_entry_def is_absolute_def projdir_grant_blocked_def projdir_guarded_paths_def, code_simp)

subsection \<open>Entries that match more or less than the approval\<close>

text \<open>
  A file created in \<open>/tmp\<close> is remembered as its bare path, documented as an exact grant; the
  match treats every bare entry as a prefix, so it also covers deleting files of a sibling directory
  whose name starts with the name of the file.
\<close>

theorem tmp_file_grant_is_prefix:
  "tmp_self_created_prefix (FileWrite ''/tmp/build'' []) = Some ''/tmp/build'' \<and>
     is_session_allowlist_match (\<lambda>_. None) plain_fs ''/tmp/build-agent/token'' [''/tmp/build''] (FileDelete ''/tmp/build-agent/token'') = Some True"
  by code_simp

text \<open>
  An approved listing of a directory is stored as the bare path: it then lets every operation
  on every path that starts with that text pass without review.
\<close>

theorem approved_listing_grants_everything:
  "is_session_allowlist_match (\<lambda>_. None) plain_fs ''/w/source/main.c''
     (approved_session_allowlist_entries (\<lambda>_. None) plain_fs (DirList ''/w/src'')) (FileDelete ''/w/source/main.c'') = Some False \<and>
   is_session_allowlist_match (\<lambda>_. None) plain_fs ''/w/src-keys/id''
     (approved_session_allowlist_entries (\<lambda>_. None) plain_fs (DirList ''/w/src'')) (FileDelete ''/w/src-keys/id'') = Some True"
  by code_simp

text \<open>
  An approved name query stores an entry that no match consults: the same query is asked
  again, although the approval was for the session.
\<close>

theorem dns_approval_is_dead:
  "approved_session_allowlist_entries (\<lambda>_. None) plain_fs (DnsQuery ''example.org'' ''A'') = [''dns:example.org''] \<and>
   session_allowlist_key plain_fs (DnsQuery ''example.org'' ''A'') = Some ''dns:example.org'' \<and>
   is_session_allowlist_match (\<lambda>_. None) plain_fs ''dns:example.org'' [''dns:example.org''] (DnsQuery ''example.org'' ''A'') = Some False"
  by code_simp

text \<open>
  The glob match cuts the path between the two literal ends without asking whether they
  overlap: a path shorter than both ends together makes the slice panic.
\<close>

theorem glob_match_overlap_panics:
  "glob_match ''/tmp/claude-'' ''/tmp/claude-*-'' = None"
  by code_simp

end
