(* ===== verification/Scoped_Permissions.thy ===== *)
theory Scoped_Permissions
  imports Session_Grants Digest_Queue
begin

section \<open>Directory-scoped permissions\<close>

text \<open>
  \<open>crates/grith-supervisor/src/scoped_permissions.rs\<close>: a reviewer proposes to allow or to refuse
  kinds of file operations below a directory; the proposal is classified for the live preview and
  again when it is applied, and becomes rules of the session allowlist or denylist. The reviewed
  call arrives as its rendered text. The environment of the process (home, configuration, data,
  cache and working directory) is the record \<open>scope_env\<close> beside the file system. \<open>ScopedAllowRequest\<close>
  and \<open>ScopedDenyRequest\<close> are those of \<open>grith-digest\<close>.
\<close>

datatype scope_mode = ModeAllow | ModeDeny

definition mode_grants :: "scope_mode \<Rightarrow> bool" where
  "mode_grants mode \<longleftrightarrow> mode = ModeAllow"

record validated_scope =
  vs_directory :: string
  vs_rules :: "string list"
  vs_warning :: "string option"

record scope_path_preview =
  spp_resolved_directory :: string
  spp_exists :: bool

record proposal =
  pr_directory :: string
  pr_read :: bool
  pr_write :: bool
  pr_delete :: bool
  pr_persist :: bool
  pr_mode :: scope_mode

definition proposal_of_allow :: "scoped_allow_request \<Rightarrow> proposal" where
  "proposal_of_allow request =
     \<lparr> pr_directory = sar_directory request, pr_read = sar_read request, pr_write = sar_write request,
       pr_delete = sar_delete request, pr_persist = sar_persist request, pr_mode = ModeAllow \<rparr>"

definition proposal_of_deny :: "scoped_deny_request \<Rightarrow> proposal" where
  "proposal_of_deny request =
     \<lparr> pr_directory = sdr_directory request, pr_read = sdr_read request, pr_write = sdr_write request,
       pr_delete = sdr_delete request, pr_persist = False, pr_mode = ModeDeny \<rparr>"

datatype scope_status =
    Covers
  | CoversPending
  | RemovedWhileFrozen
  | MissesTarget string
  | TooBroad string
  | ScopeSensitive string
  | ScopeGlob
  | RuntimeRoot string
  | ScopeInvalid string

fun blocks_apply :: "scope_status \<Rightarrow> bool" where
  "blocks_apply Covers = False"
| "blocks_apply CoversPending = False"
| "blocks_apply RemovedWhileFrozen = False"
| "blocks_apply _ = True"

fun is_warning :: "scope_status \<Rightarrow> bool" where
  "is_warning CoversPending = True"
| "is_warning RemovedWhileFrozen = True"
| "is_warning _ = False"

text \<open>The em dash of the messages, in UTF-8.\<close>

definition EM_DASH :: string where
  "EM_DASH = [CHR 0xE2, CHR 0x80, CHR 0x94]"

fun status_message :: "scope_status \<Rightarrow> string" where
  "status_message Covers = ''Covers this operation''"
| "status_message CoversPending = ''Directory does not exist yet '' @ EM_DASH @ '' the scope is session-only''"
| "status_message RemovedWhileFrozen =
     ''That directory was removed while this request was frozen '' @ EM_DASH @ '' the scope applies if it is recreated''"
| "status_message (MissesTarget target) = ''The directory does not contain the target: '' @ target"
| "status_message ScopeGlob = ''Remove * and ? '' @ EM_DASH @ '' a directory already covers everything beneath it''"
| "status_message (TooBroad reason) = reason"
| "status_message (ScopeSensitive reason) = reason"
| "status_message (RuntimeRoot reason) = reason"
| "status_message (ScopeInvalid reason) = reason"

subsection \<open>The reviewed call\<close>

definition unary_target :: "string \<Rightarrow> string \<Rightarrow> string option" where
  "unary_target tool_call kind =
     Option.bind (strip_prefix kind tool_call) (\<lambda>r. Option.bind (strip_prefix ''('' r) (strip_suffix '')''))"

definition scoped_operation_target :: "string \<Rightarrow> string option" where
  "scoped_operation_target tool_call =
     (case find (\<lambda>kind. unary_target tool_call kind \<noteq> None)
             [''FileRead'', ''DirList'', ''FileWrite'', ''FileAppend'', ''DirCreate'', ''FileDelete''] of
        Some kind \<Rightarrow> unary_target tool_call kind
      | None \<Rightarrow> Option.bind (unary_target tool_call ''FileRename'') (\<lambda>body. map_option fst (split_once '' -> '' body)))"

definition RULE_NAMESPACES :: "(string \<times> string) list" where
  "RULE_NAMESPACES =
     [(''FileRead'', ''ro-prefix:''), (''DirList'', ''ro-prefix:''), (''FileWrite'', ''write-prefix:''),
      (''FileAppend'', ''write-prefix:''), (''DirCreate'', ''write-prefix:''), (''FileDelete'', ''delete-prefix:''),
      (''FileRename'', ''delete-prefix:'')]"

definition scoped_rule_namespace :: "string \<Rightarrow> string option" where
  "scoped_rule_namespace tool_call =
     map_option snd (find (\<lambda>(kind, _). unary_target tool_call kind \<noteq> None) RULE_NAMESPACES)"

definition selected_rule_namespaces :: "proposal \<Rightarrow> string list" where
  "selected_rule_namespaces proposal =
     (if pr_read proposal then [''ro-prefix:''] else []) @ (if pr_write proposal then [''write-prefix:''] else []) @
     (if pr_delete proposal then [''delete-prefix:''] else [])"

definition namespace_label :: "string \<Rightarrow> string" where
  "namespace_label namespace =
     (if namespace = ''ro-prefix:'' then ''read'' else if namespace = ''write-prefix:'' then ''write/create'' else ''delete/rename'')"

definition with_trailing_separator :: "string \<Rightarrow> string" where
  "with_trailing_separator path = (let n = replace_backslash path in if suffix ''/'' n then n else n @ ''/'')"

text \<open>The proposal the editor opens with: the kind of the call, the directory around its target.\<close>

definition default_kind :: "string \<Rightarrow> (string \<times> bool \<times> bool \<times> bool \<times> bool) option" where
  "default_kind tool_call =
     (case unary_target tool_call ''FileRead'' of Some p \<Rightarrow> Some (p, True, False, False, False) | None \<Rightarrow>
      (case unary_target tool_call ''DirList'' of Some p \<Rightarrow> Some (p, True, False, False, True) | None \<Rightarrow>
       (case unary_target tool_call ''FileWrite'' of Some p \<Rightarrow> Some (p, False, True, False, False) | None \<Rightarrow>
        (case unary_target tool_call ''FileAppend'' of Some p \<Rightarrow> Some (p, False, True, False, False) | None \<Rightarrow>
         (case unary_target tool_call ''DirCreate'' of Some p \<Rightarrow> Some (p, False, True, False, False) | None \<Rightarrow>
          (case unary_target tool_call ''FileDelete'' of Some p \<Rightarrow> Some (p, False, False, True, False) | None \<Rightarrow>
           Option.bind (unary_target tool_call ''FileRename'')
             (\<lambda>body. map_option (\<lambda>(old, _). (old, False, False, True, False)) (split_once '' -> '' body))))))))"

definition path_parent :: "string \<Rightarrow> string option" where
  "path_parent path =
     (let r = trim_right_rev (rev (path_body path))
      in if r = [] then (if path_lead path = ''.'' then Some [] else None)
         else Some (path_lead path @ rev (trim_right_rev (drop 1 (dropWhile (\<lambda>c. c \<noteq> CHR ''/'') r)))))"

definition default_scoped_allow :: "string \<Rightarrow> scoped_allow_request option" where
  "default_scoped_allow tool_call =
     Option.bind (default_kind tool_call) (\<lambda>(target, rd, wr, del, use_target_directory).
       map_option (\<lambda>directory. \<lparr> sar_directory = with_trailing_separator directory, sar_read = rd, sar_write = wr,
                                  sar_delete = del, sar_persist = False \<rparr>)
         (if use_target_directory then Some target else path_parent target))"

subsection \<open>Classification\<close>

record scope_env =
  se_fs :: fs
  se_home_dir :: "string option"
  se_config_dir :: "string option"
  se_data_dir :: "string option"
  se_cache_dir :: "string option"
  se_current_dir :: "string option"

definition resolve_directory :: "fs \<Rightarrow> string \<Rightarrow> string + (string \<times> bool)" where
  "resolve_directory fs directory =
     (if trim directory = [] then Inl ''Directory cannot be empty''
      else if \<not> is_absolute directory then Inl ''Directory must be an absolute path''
      else case resolve_path fs directory of
          Inl e \<Rightarrow> Inl e
        | Inr (resolved, exists) \<Rightarrow>
            if exists \<and> \<not> fs_is_dir fs resolved then Inl ''Scope path must be a directory'' else Inr (resolved, exists))"

definition preview_scope_path :: "fs \<Rightarrow> string \<Rightarrow> string + scope_path_preview" where
  "preview_scope_path fs directory =
     (case resolve_directory fs directory of
        Inl e \<Rightarrow> Inl e
      | Inr (path, exists) \<Rightarrow> Inr \<lparr> spp_resolved_directory = with_trailing_separator path, spp_exists = exists \<rparr>)"

definition CRITICAL_RUNTIME_TREES :: "string list" where
  "CRITICAL_RUNTIME_TREES =
     [''/proc'', ''/sys'', ''/dev'', ''/etc'', ''/lib'', ''/lib64'', ''/lib32'', ''/usr/lib'', ''/usr/lib64'', ''/usr/lib32'',
      ''/bin'', ''/sbin'', ''/usr/bin'', ''/usr/sbin'', ''/run'']"

fun runtime_loop :: "fs \<Rightarrow> string \<Rightarrow> string \<Rightarrow> string list \<Rightarrow> scope_status option" where
  "runtime_loop fs directory shown [] = None"
| "runtime_loop fs directory shown (tree # trees) =
     (case canonicalize_ok fs tree of
        None \<Rightarrow> runtime_loop fs directory shown trees
      | Some canonical \<Rightarrow>
          if path_starts_with canonical directory
          then Some (RuntimeRoot (''Blocking '' @ shown @ '' would stop the supervised tool from running ('' @ canonical @
                                  ''); choose a directory inside it''))
          else runtime_loop fs directory shown trees)"

definition shown_path :: "string \<Rightarrow> string" where
  "shown_path trimmed = (if trimmed = [] then ''/'' else trimmed)"

definition reject_runtime_root_scope :: "fs \<Rightarrow> string \<Rightarrow> scope_status option" where
  "reject_runtime_root_scope fs directory =
     runtime_loop fs directory (shown_path (trim_end_slashes (replace_backslash directory))) CRITICAL_RUNTIME_TREES"

text \<open>Equality and prefix removal of \<open>Path\<close> values compare components.\<close>

definition path_eq :: "string \<Rightarrow> string \<Rightarrow> bool" where
  "path_eq a b \<longleftrightarrow> is_absolute a = is_absolute b \<and> path_comps a = path_comps b"

definition SENSITIVE_HOME_DIRS :: "string list" where
  "SENSITIVE_HOME_DIRS =
     [''.ssh'', ''.aws'', ''.gnupg'', ''.kube'', ''.config/gcloud'', ''.mozilla'', ''.config/google-chrome'', ''.config/chromium'',
      ''.config/BraveSoftware'', ''.config/microsoft-edge'']"

definition canonical_home :: "scope_env \<Rightarrow> string option" where
  "canonical_home env = Option.bind (se_home_dir env) (canonicalize_ok (se_fs env))"

definition sensitive_roots :: "scope_env \<Rightarrow> string list" where
  "sensitive_roots env =
     (case canonical_home env of None \<Rightarrow> [] | Some home \<Rightarrow> map (path_push home) SENSITIVE_HOME_DIRS) @
     map (\<lambda>base. path_push base ''grith'') (List.map_filter id [se_config_dir env, se_data_dir env, se_cache_dir env])"

definition is_home_name :: "string \<Rightarrow> bool" where
  "is_home_name c \<longleftrightarrow> c = ''home'' \<or> c = ''Users'' \<or> c = ''users''"

fun hidden_below_home :: "string list \<Rightarrow> bool" where
  "hidden_below_home (a # b # c # rest) \<longleftrightarrow> (is_home_name a \<and> prefix ''.'' c) \<or> hidden_below_home (b # c # rest)"
| "hidden_below_home _ \<longleftrightarrow> False"

definition is_user_home :: "string list \<Rightarrow> bool" where
  "is_user_home components = (case components of [a, _] \<Rightarrow> is_home_name a | _ \<Rightarrow> False)"

definition too_broad :: "string \<Rightarrow> string list \<Rightarrow> bool" where
  "too_broad trimmed components \<longleftrightarrow>
     trimmed = [] \<or> trimmed \<in> {''/home'', ''/Users'', ''/tmp'', ''/var''} \<or> length components < 2 \<or> is_user_home components"

definition hidden_in_home :: "scope_env \<Rightarrow> string \<Rightarrow> bool" where
  "hidden_in_home env directory =
     (case canonical_home env of
        None \<Rightarrow> False
      | Some home \<Rightarrow>
          path_starts_with directory home \<and>
          (case drop (length (path_comps home)) (path_comps directory) of [] \<Rightarrow> False | c # _ \<Rightarrow> prefix ''.'' c))"

definition reject_delete_scope :: "scope_env \<Rightarrow> string \<Rightarrow> string list \<Rightarrow> scope_status option" where
  "reject_delete_scope env directory components =
     (if (case Option.bind (se_current_dir env) (canonicalize_ok (se_fs env)) of
            Some project \<Rightarrow> path_eq project directory
          | None \<Rightarrow> False)
      then Some (TooBroad ''Delete scope for the project root is blocked; choose a subdirectory'')
      else if hidden_in_home env directory \<or> hidden_below_home components
      then Some (ScopeSensitive ''Delete scopes are blocked for home configuration directories'')
      else None)"

definition reject_broad_or_sensitive_scope :: "scope_env \<Rightarrow> string \<Rightarrow> proposal \<Rightarrow> scope_status option" where
  "reject_broad_or_sensitive_scope env directory request =
     (let trimmed = trim_end_slashes (replace_backslash directory);
          components = filter (\<lambda>c. c \<noteq> []) (split_on CHR ''/'' trimmed);
          lower = to_lowercase trimmed @ ''/'';
          roots = sensitive_roots env
      in if too_broad trimmed components
         then Some (TooBroad (''That directory scope is too broad '' @ EM_DASH @ '' pick a directory below '' @ shown_path trimmed))
         else if (case canonical_home env of Some home \<Rightarrow> path_eq directory home | None \<Rightarrow> False)
         then Some (TooBroad ''The home directory cannot be scoped'')
         else if suffix ''/.config'' (trim_end_slashes lower) \<or>
                 list_ex (\<lambda>r. \<not> path_eq r directory \<and> path_starts_with r directory) roots
         then Some (ScopeSensitive ''Sensitive directories require single-request approval'')
         else if (is_sensitive_path trimmed \<or> is_sensitive_path lower \<or> list_ex (path_starts_with directory) roots) \<and>
                 (pr_write request \<or> pr_delete request)
         then Some (ScopeSensitive ''Sensitive directories only support read-only scope for this session'')
         else if pr_delete request then reject_delete_scope env directory components
         else None)"

text \<open>The target of the call and whether the ticked operations cover it.\<close>

definition classify_target :: "fs \<Rightarrow> proposal \<Rightarrow> string \<Rightarrow> string \<Rightarrow> scope_status option" where
  "classify_target fs proposal tool_call directory =
     (case scoped_operation_target tool_call of
        None \<Rightarrow> Some (ScopeInvalid ''This operation does not support directory scoping'')
      | Some target \<Rightarrow>
          (case resolve_path fs target of
             Inl reason \<Rightarrow> Some (ScopeInvalid reason)
           | Inr (resolved, _) \<Rightarrow>
               if \<not> path_starts_with resolved directory
               then Some (MissesTarget (case path_file_name resolved of Some name \<Rightarrow> name | None \<Rightarrow> resolved))
               else (case scoped_rule_namespace tool_call of
                   None \<Rightarrow> None
                 | Some namespace \<Rightarrow>
                     if namespace \<in> set (selected_rule_namespaces proposal) then None
                     else Some (ScopeInvalid (''Tick '' @ namespace_label namespace @ '' so this scope covers the current operation'')))))"

definition classify_scope :: "scope_env \<Rightarrow> proposal \<Rightarrow> string \<Rightarrow> bool \<Rightarrow> scope_status + (string \<times> scope_status)" where
  "classify_scope env proposal tool_call directory_existed_at_open =
     (if pr_persist proposal then Inl (ScopeInvalid ''Persistent directory scopes are not available in v1'')
      else if CHR ''*'' \<in> set (pr_directory proposal) \<or> CHR ''?'' \<in> set (pr_directory proposal) then Inl ScopeGlob
      else if \<not> pr_read proposal \<and> \<not> pr_write proposal \<and> \<not> pr_delete proposal
      then Inl (ScopeInvalid ''Select at least one operation'')
      else case resolve_directory (se_fs env) (pr_directory proposal) of
          Inl reason \<Rightarrow> Inl (ScopeInvalid reason)
        | Inr (directory, exists) \<Rightarrow>
            (case (if mode_grants (pr_mode proposal) then reject_broad_or_sensitive_scope env directory proposal
                   else reject_runtime_root_scope (se_fs env) directory) of
               Some status \<Rightarrow> Inl status
             | None \<Rightarrow>
                 (case classify_target (se_fs env) proposal tool_call directory of
                    Some status \<Rightarrow> Inl status
                  | None \<Rightarrow>
                      Inr (directory, if exists then Covers
                                      else if directory_existed_at_open then RemovedWhileFrozen else CoversPending))))"

definition prefixed_rules :: "proposal \<Rightarrow> string \<Rightarrow> string \<Rightarrow> string list" where
  "prefixed_rules proposal directory pre = map (\<lambda>namespace. pre @ namespace @ directory) (selected_rule_namespaces proposal)"

definition preview :: "scope_env \<Rightarrow> proposal \<Rightarrow> string \<Rightarrow> bool \<Rightarrow> scope_status" where
  "preview env proposal tool_call directory_existed_at_open =
     (case classify_scope env proposal tool_call directory_existed_at_open of Inr (_, status) \<Rightarrow> status | Inl status \<Rightarrow> status)"

definition preview_scoped_allow :: "scope_env \<Rightarrow> scoped_allow_request \<Rightarrow> string \<Rightarrow> bool \<Rightarrow> scope_status" where
  "preview_scoped_allow env request tool_call existed = preview env (proposal_of_allow request) tool_call existed"

definition preview_scoped_deny :: "scope_env \<Rightarrow> scoped_deny_request \<Rightarrow> string \<Rightarrow> bool \<Rightarrow> scope_status" where
  "preview_scoped_deny env request tool_call existed = preview env (proposal_of_deny request) tool_call existed"

definition validate_proposal :: "scope_env \<Rightarrow> proposal \<Rightarrow> string \<Rightarrow> string \<Rightarrow> string + validated_scope" where
  "validate_proposal env proposal tool_call pre =
     (case classify_scope env proposal tool_call False of
        Inl status \<Rightarrow> Inl (status_message status)
      | Inr (path, status) \<Rightarrow>
          (let directory = with_trailing_separator path
           in Inr \<lparr> vs_directory = directory, vs_rules = prefixed_rules proposal directory pre,
                    vs_warning = (if is_warning status then Some (status_message status) else None) \<rparr>))"

definition validate_scoped_allow :: "scope_env \<Rightarrow> scoped_allow_request \<Rightarrow> string \<Rightarrow> string + validated_scope" where
  "validate_scoped_allow env request tool_call = validate_proposal env (proposal_of_allow request) tool_call []"

definition validate_scoped_deny :: "scope_env \<Rightarrow> scoped_deny_request \<Rightarrow> string \<Rightarrow> string + validated_scope" where
  "validate_scoped_deny env request tool_call = validate_proposal env (proposal_of_deny request) tool_call DENY_RULE_PREFIX"

subsection \<open>Preview and validation agree\<close>

lemma runtime_loop_blocks: "runtime_loop fs directory shown trees = Some status \<Longrightarrow> blocks_apply status"
  by (induction trees) (auto split: option.splits if_splits)

lemma reject_broad_blocks: "reject_broad_or_sensitive_scope env directory request = Some status \<Longrightarrow> blocks_apply status"
  by (auto simp: reject_broad_or_sensitive_scope_def reject_delete_scope_def Let_def split: if_splits)

lemma classify_target_blocks: "classify_target fs proposal tool_call directory = Some status \<Longrightarrow> blocks_apply status"
  by (auto simp: classify_target_def split: if_splits option.splits sum.splits)

lemma classify_scope_blocks:
  assumes "classify_scope env proposal tool_call existed = Inl status"
  shows "blocks_apply status"
proof -
  have "\<not> mode_grants (pr_mode proposal) \<Longrightarrow> reject_runtime_root_scope (se_fs env) d = Some s \<Longrightarrow> blocks_apply s" for d s
    by (simp add: reject_runtime_root_scope_def runtime_loop_blocks)
  then show ?thesis
    using assms by (auto simp: classify_scope_def dest: reject_broad_blocks classify_target_blocks split: if_splits sum.splits option.splits)
qed

text \<open>What the dialog remembers of the directory changes the wording only.\<close>

lemma classify_scope_existed:
  "classify_scope env proposal tool_call existed =
     (case classify_scope env proposal tool_call False of
        Inl status \<Rightarrow> Inl status
      | Inr (directory, status) \<Rightarrow> Inr (directory, if existed \<and> status = CoversPending then RemovedWhileFrozen else status))"
  by (auto simp: classify_scope_def split: sum.splits option.splits)

lemma classify_scope_applies: "classify_scope env proposal tool_call False = Inr (directory, status) \<Longrightarrow> status = Covers \<or> status = CoversPending"
  by (auto simp: classify_scope_def split: if_splits sum.splits option.splits)

definition preview_agrees :: "scope_status \<Rightarrow> string + validated_scope \<Rightarrow> bool" where
  "preview_agrees status result =
     (case result of
        Inl e \<Rightarrow> blocks_apply status \<and> e = status_message status
      | Inr v \<Rightarrow> \<not> blocks_apply status \<and> (vs_warning v = None \<longleftrightarrow> status = Covers))"

lemma preview_agrees_validate: "preview_agrees (preview env proposal tool_call existed) (validate_proposal env proposal tool_call pre)"
proof (cases "classify_scope env proposal tool_call False")
  case (Inl status)
  then show ?thesis
    using classify_scope_blocks [OF Inl] by (simp add: preview_agrees_def preview_def validate_proposal_def classify_scope_existed [of _ _ _ existed])
next
  case (Inr r)
  then obtain directory status where r: "classify_scope env proposal tool_call False = Inr (directory, status)" by (cases r) simp
  show ?thesis
    using classify_scope_applies [OF r]
    by (auto simp: r preview_agrees_def preview_def validate_proposal_def classify_scope_existed [of _ _ _ existed] Let_def)
qed

text \<open>
  The live preview and the validation at the end never disagree: a proposal is refused exactly
  when the editor showed a blocking status, with the message it showed, and a warning is attached
  exactly when the status was a caveat, for grants and for refusals, whatever the dialog remembers
  of the directory.
\<close>

theorem preview_agrees_with_validation:
  "preview_agrees (preview_scoped_allow env request tool_call existed) (validate_scoped_allow env request tool_call) \<and>
   preview_agrees (preview_scoped_deny env refusal tool_call existed) (validate_scoped_deny env refusal tool_call)"
  by (simp add: preview_scoped_allow_def preview_scoped_deny_def validate_scoped_allow_def validate_scoped_deny_def preview_agrees_validate)

subsection \<open>The rendered call and the call itself\<close>

lemma unary_target_eq: "unary_target tool_call kind = Some body \<longleftrightarrow> tool_call = kind @ ''('' @ body @ '')''"
proof
  assume "unary_target tool_call kind = Some body"
  then obtain r where "tool_call = kind @ ''('' @ r" "strip_suffix '')'' r = Some body"
    by (auto simp: unary_target_def strip_prefix_Some bind_eq_Some_conv)
  then show "tool_call = kind @ ''('' @ body @ '')''" by (auto simp: strip_suffix_def suffix_def split: if_splits)
qed (simp add: unary_target_def strip_prefix_def strip_suffix_def)

lemma unary_target_rename:
  "unary_target (display_call (FileRename old new)) ''FileRename'' = Some (old @ '' -> '' @ new)"
  "kind \<in> {''FileRead'', ''DirList'', ''FileWrite'', ''FileAppend'', ''DirCreate'', ''FileDelete''} \<Longrightarrow>
   unary_target (display_call (FileRename old new)) kind = None"
  by (simp add: unary_target_eq) (auto simp: unary_target_def strip_prefix_def)

lemma split_once_first:
  "\<not> str_contains (a @ butlast sep) sep \<Longrightarrow> sep \<noteq> [] \<Longrightarrow> split_once sep (a @ sep @ b) = Some (a, b)"
proof (induction a)
  case Nil
  then show ?case by (cases sep) simp_all
next
  case (Cons c a)
  have "\<not> prefix sep (c # a @ sep @ b)"
  proof
    assume "prefix sep (c # a @ sep @ b)"
    moreover have "c # a @ sep @ b = (c # a @ butlast sep) @ [last sep] @ b" using Cons.prems(2) by simp
    moreover have "length sep \<le> length (c # a @ butlast sep)" by simp
    ultimately have "prefix sep (c # a @ butlast sep)" by (metis append_Cons prefix_length_prefix prefixI)
    then show False using Cons.prems(1) by simp
  qed
  then show ?case using Cons by simp
qed

text \<open>The text of a rename is read back at the first arrow.\<close>

definition renders_unambiguously :: "tool_call_type \<Rightarrow> bool" where
  "renders_unambiguously call =
     (case call of FileRename old_path _ \<Rightarrow> \<not> str_contains (old_path @ '' ->'') '' -> '' | _ \<Rightarrow> True)"

lemma rule_namespace_display: "scoped_rule_namespace (display_call call) = scoped_prefix_namespace call"
proof (cases call)
  case (FileRename old new)
  show ?thesis
    unfolding FileRename
    by (simp add: scoped_rule_namespace_def RULE_NAMESPACES_def scoped_prefix_namespace_def unary_target_rename del: display_call.simps)
qed (simp_all add: scoped_rule_namespace_def RULE_NAMESPACES_def scoped_prefix_namespace_def unary_target_def strip_prefix_def strip_suffix_def)

lemma operation_target_display:
  assumes "renders_unambiguously call"
  shows "scoped_operation_target (display_call call) = scoped_call_target call"
proof (cases call)
  case (FileRename old new)
  have "split_once '' -> '' (old @ '' -> '' @ new) = Some (old, new)"
    using split_once_first [of old "'' -> ''" new] assms by (simp add: FileRename renders_unambiguously_def)
  then show ?thesis
    unfolding FileRename
    by (simp add: scoped_operation_target_def scoped_call_target_def unary_target_rename del: display_call.simps)
qed (simp_all add: scoped_operation_target_def scoped_call_target_def unary_target_def strip_prefix_def strip_suffix_def)

text \<open>
  What the review knows of a call is its rendered text; the target and the namespace of the
  rules read back from it are those the matcher takes from the call itself, for every kind of call
  and every path, except a rename whose old path contains the arrow of the rendering.
\<close>

theorem rendered_call_read_back:
  assumes "renders_unambiguously call"
  shows "scoped_operation_target (display_call call) = scoped_call_target call \<and>
         scoped_rule_namespace (display_call call) = scoped_prefix_namespace call"
  using operation_target_display [OF assms] rule_namespace_display by simp

theorem rendered_call_read_back_witness:
  "scoped_operation_target (display_call (FileRename ''/w/a>'' ''/w/b'')) = Some ''/w/a>''"
  using rendered_call_read_back [of "FileRename ''/w/a>'' ''/w/b''"] by (simp add: renders_unambiguously_def scoped_call_target_def)

subsection \<open>Resolved paths are normal\<close>

text \<open>What \<open>canonicalize\<close> documents: an absolute path without empty, \<open>.\<close> and \<open>..\<close> components.\<close>

definition normal_path :: "string \<Rightarrow> bool" where
  "normal_path p \<longleftrightarrow> (\<exists>cs. p = of_comps True cs \<and> list_all plain_component cs)"

definition canonical_fs :: "fs \<Rightarrow> bool" where
  "canonical_fs fs \<longleftrightarrow> (\<forall>p r. fs_canonicalize fs p = Canon r \<longrightarrow> normal_path r)"

lemma plain_components:
  assumes "list_all plain_component cs"
  shows "list_all (\<lambda>c. CHR ''/'' \<notin> set c) cs" "list_all (\<lambda>c. c \<noteq> [] \<and> CHR ''/'' \<notin> set c) cs"
    "list_all (\<lambda>c. c \<noteq> [] \<and> c \<noteq> ''.'') cs"
  by (rule list.pred_mono_strong [OF assms], simp add: plain_component_def)+

lemma path_comps_of_comps: "list_all plain_component cs \<Longrightarrow> path_comps (of_comps absolute cs) = cs"
proof -
  assume plain: "list_all plain_component cs"
  have split: "split_on CHR ''/'' (join ''/'' cs) = (if cs = [] then [[]] else cs)"
    using split_on_join [OF _ plain_components(1) [OF plain]] by simp
  have keep: "filter (\<lambda>c. c \<noteq> [] \<and> c \<noteq> ''.'') cs = cs" using plain_components(3) [OF plain] by (simp add: filter_id_conv list_all_iff)
  show ?thesis
    using split keep by (cases "cs = []"; cases absolute) (simp_all add: path_comps_def of_comps_def)
qed

lemma join_snoc: "cs \<noteq> [] \<Longrightarrow> join ''/'' (cs @ [c]) = join ''/'' cs @ ''/'' @ c"
proof (induction cs)
  case (Cons a cs)
  then show ?case by (cases cs) simp_all
qed simp

lemma path_push_of_comps: "list_all plain_component cs \<Longrightarrow> path_push (of_comps True cs) c = of_comps True (cs @ [c])"
proof (cases "cs = []")
  case False
  assume "list_all plain_component cs"
  then have "join ''/'' cs \<noteq> [] \<and> last (join ''/'' cs) \<noteq> CHR ''/''"
    using join_ends [OF False plain_components(2)] by simp
  then have "\<not> suffix ''/'' (of_comps True cs)"
    by (cases "join ''/'' cs" rule: rev_cases) (auto simp: of_comps_def suffix_def Cons_eq_append_conv)
  then show ?thesis using False by (simp add: path_push_def of_comps_def join_snoc)
qed (simp add: path_push_def of_comps_def)

lemma normal_path_push_all: "normal_path r \<Longrightarrow> list_all plain_component cs \<Longrightarrow> normal_path (foldl path_push r cs)"
proof (induction cs arbitrary: r)
  case (Cons c cs)
  from Cons.prems(1) obtain ds where ds: "r = of_comps True ds" "list_all plain_component ds" by (auto simp: normal_path_def)
  have "normal_path (path_push r c)"
    unfolding normal_path_def
    by (rule exI [of _ "ds @ [c]"]) (use ds Cons.prems(2) in \<open>simp add: path_push_of_comps\<close>)
  then show ?case using Cons by simp
qed simp

lemma path_comps_parts: "list_all (\<lambda>c. c = ''..'' \<or> plain_component c) (path_comps path)"
  using split_on_no_sep [of _ "CHR ''/''" path] by (simp add: path_comps_def list_all_iff plain_component_def)

lemma normalize_loop_plain:
  "normalize_loop out cs = Inr out' \<Longrightarrow> list_all plain_component out \<Longrightarrow> list_all (\<lambda>c. c = ''..'' \<or> plain_component c) cs \<Longrightarrow>
   list_all plain_component out'"
proof (induction out cs rule: normalize_loop.induct)
  case (2 out c cs)
  then show ?case by (auto simp: list_all_iff split: if_splits dest: in_set_butlastD)
qed simp

lemma normalize_absolute_plain: "normalize_absolute path = Inr cs \<Longrightarrow> list_all plain_component cs"
  unfolding normalize_absolute_def using normalize_loop_plain path_comps_parts by fastforce

lemma ancestor_loop_normal:
  "canonical_fs fs \<Longrightarrow> ancestor_loop fs absolute cs sfx = Inr r \<Longrightarrow> list_all plain_component cs \<Longrightarrow> list_all plain_component sfx \<Longrightarrow>
   normal_path r"
  by (induction fs absolute cs sfx rule: ancestor_loop.induct)
    (auto simp: canonical_fs_def Let_def normal_path_push_all split: if_splits canon_result.splits)

lemma resolve_path_normal:
  assumes "canonical_fs fs" and "resolve_path fs path = Inr (r, exists)"
  shows "normal_path r"
proof -
  from assms(2) obtain cs where cs: "normalize_absolute path = Inr cs" by (auto simp: resolve_path_def split: sum.splits)
  have "list_all plain_component (rev cs)" using normalize_absolute_plain [OF cs] by simp
  then have "ancestor_loop fs (is_absolute path) (rev cs) [] = Inr r \<Longrightarrow> normal_path r" using ancestor_loop_normal assms(1) by fastforce
  then show ?thesis
    using assms cs by (auto simp: resolve_path_def Let_def canonical_fs_def split: if_splits canon_result.splits sum.splits)
qed

subsection \<open>Applied scopes are alive\<close>

lemma replace_backslash_append: "replace_backslash (a @ b) = replace_backslash a @ replace_backslash b"
  by (simp add: replace_backslash_def)

lemma trim_end_slashes_split: "\<exists>k. s = trim_end_slashes s @ replicate k CHR ''/''"
proof (induction s rule: rev_induct)
  case (snoc c s)
  then obtain k where k: "s = trim_end_slashes s @ replicate k CHR ''/''" by blast
  show ?case
  proof (cases "c = CHR ''/''")
    case True
    then have same: "trim_end_slashes (s @ [c]) = trim_end_slashes s" by (simp add: trim_end_slashes_def)
    have "s @ [c] = (trim_end_slashes s @ replicate k CHR ''/'') @ [c]" using k by simp
    also have "\<dots> = trim_end_slashes (s @ [c]) @ replicate (Suc k) CHR ''/''" 
      unfolding same by (simp add: True replicate_append_same)
    finally have "s @ [c] = trim_end_slashes (s @ [c]) @ replicate (Suc k) CHR ''/''" .
    then show ?thesis by blast
  next
    case False
    then have "s @ [c] = trim_end_slashes (s @ [c]) @ replicate 0 CHR ''/''" by (simp add: trim_end_slashes_def)
    then show ?thesis by blast
  qed
qed (simp add: trim_end_slashes_def)

text \<open>A directory and everything the separator leads to from it are in the scope.\<close>

lemma directory_scope_matches_below:
  assumes "target = directory \<or> prefix ''/'' rest \<and> target = directory @ rest"
  shows "directory_scope_matches directory target"
proof -
  obtain k where k: "directory = trim_end_slashes directory @ replicate k CHR ''/''" using trim_end_slashes_split by blast
  define d where "d = trim_end_slashes directory"
  have "target = d \<or> (\<exists>tl. target = d @ ''/'' @ tl)"
    using assms k unfolding d_def [symmetric] by (cases k) (auto simp: prefix_def)
  then show ?thesis by (auto simp: directory_scope_matches_def Let_def d_def strip_prefix_def)
qed

lemma join_append: "a \<noteq> [] \<Longrightarrow> b \<noteq> [] \<Longrightarrow> join ''/'' (a @ b) = join ''/'' a @ ''/'' @ join ''/'' b"
proof (induction a)
  case (Cons x a)
  then show ?case by (cases a; cases b) simp_all
qed simp

lemma trim_with_trailing: "trim_end_slashes (with_trailing_separator path) = trim_end_slashes (replace_backslash path)"
  by (simp add: with_trailing_separator_def Let_def trim_end_slashes_def)

lemma scope_matches_normal:
  assumes "normal_path directory" and "normal_path target" and "path_starts_with target directory"
  shows "directory_scope_matches (with_trailing_separator directory) (replace_backslash target)"
proof -
  from assms(1,2) obtain ds ts where d: "directory = of_comps True ds" "list_all plain_component ds"
    and t: "target = of_comps True ts" "list_all plain_component ts" by (auto simp: normal_path_def)
  have "prefix ds ts" using assms(3) d t by (simp add: path_starts_with_def path_comps_of_comps)
  then obtain rest where rest: "ts = ds @ rest" by (auto simp: prefix_def)
  have "directory_scope_matches (replace_backslash directory) (replace_backslash target)"
  proof (cases "ds = []")
    case True
    have "trim_end_slashes ''/'' = []" by (simp add: trim_end_slashes_def)
    then show ?thesis
      using d(1) t(1) True by (auto simp: directory_scope_matches_def of_comps_def replace_backslash_def strip_prefix_def)
  next
    case False
    then have "target = directory \<or> target = directory @ ''/'' @ join ''/'' rest"
      using d(1) t(1) rest by (cases "rest = []") (auto simp: of_comps_def join_append)
    then have "replace_backslash target = replace_backslash directory \<or>
        prefix ''/'' (replace_backslash (''/'' @ join ''/'' rest)) \<and>
        replace_backslash target = replace_backslash directory @ replace_backslash (''/'' @ join ''/'' rest)"
      by (auto simp: replace_backslash_def)
    then show ?thesis by (rule directory_scope_matches_below)
  qed
  then show ?thesis by (simp add: directory_scope_matches_def trim_with_trailing)
qed

text \<open>What a validated proposal says of the call it was made for.\<close>

lemma validated_covers:
  assumes "canonical_fs (se_fs env)" and "renders_unambiguously call"
    and "validate_proposal env proposal (display_call call) pre = Inr v"
  obtains target namespace where "scoped_call_target call = Some target" "scoped_prefix_namespace call = Some namespace"
    "pre @ namespace @ vs_directory v \<in> set (vs_rules v)"
    "directory_scope_matches (vs_directory v) (resolved_text (se_fs env) target)"
proof -
  from assms(3) obtain directory status where c: "classify_scope env proposal (display_call call) False = Inr (directory, status)"
    and v: "vs_directory v = with_trailing_separator directory" "vs_rules v = prefixed_rules proposal (with_trailing_separator directory) pre"
    by (auto simp: validate_proposal_def Let_def split: sum.splits)
  from c obtain exists where dir: "resolve_path (se_fs env) (pr_directory proposal) = Inr (directory, exists)"
    and none: "classify_target (se_fs env) proposal (display_call call) directory = None"
    by (auto simp: classify_scope_def resolve_directory_def split: if_splits sum.splits option.splits)
  from none obtain target r ex where t: "scoped_call_target call = Some target" "resolve_path (se_fs env) target = Inr (r, ex)"
    "path_starts_with r directory"
    using operation_target_display [OF assms(2)] by (auto simp: classify_target_def split: option.splits sum.splits if_splits)
  from t(1) obtain namespace where ns: "scoped_prefix_namespace call = Some namespace"
    by (cases call) (auto simp: scoped_call_target_def scoped_prefix_namespace_def)
  have "namespace \<in> set (selected_rule_namespaces proposal)"
    using none t operation_target_display [OF assms(2)] ns rule_namespace_display [of call]
    by (auto simp: classify_target_def split: if_splits)
  then have "pre @ namespace @ vs_directory v \<in> set (vs_rules v)" by (simp add: v prefixed_rules_def)
  moreover have "directory_scope_matches (vs_directory v) (resolved_text (se_fs env) target)"
    using scope_matches_normal [OF resolve_path_normal [OF assms(1) dir] resolve_path_normal [OF assms(1) t(2)] t(3)]
    by (simp add: v resolved_text_def resolve_target_def t(2))
  ultimately show ?thesis using that t(1) ns by blast
qed

lemma scoped_call_key: "scoped_call_target call = Some target \<Longrightarrow> session_allowlist_key fs call = Some target"
  by (cases call) (simp_all add: scoped_call_target_def)

lemma scoped_call_unlinked:
  "scoped_call_target call = Some target \<Longrightarrow> is_session_allowlist_match of_json fs key allowed call = unlinked_match of_json fs key allowed call"
  by (cases call) (simp_all add: scoped_call_target_def is_session_allowlist_match_def)


text \<open>An environment for the concrete runs: the home of \<open>u\<close>, working in \<open>/home/u/w\<close>.\<close>

definition plain_env :: scope_env where
  "plain_env = \<lparr> se_fs = plain_fs\<lparr> fs_canonicalize := (\<lambda>p. Canon (of_comps True (filter plain_component (path_comps p)))) \<rparr>,
     se_home_dir = Some ''/home/u'', se_config_dir = None, se_data_dir = None, se_cache_dir = None,
     se_current_dir = Some ''/home/u/w'' \<rparr>"

lemma plain_env_canonical: "canonical_fs (se_fs plain_env)"
  by (auto simp: canonical_fs_def plain_env_def plain_fs_def normal_path_def list_all_iff)

definition out_request :: scoped_allow_request where
  "out_request = \<lparr> sar_directory = ''/home/u/w/out'', sar_read = False, sar_write = False, sar_delete = True, sar_persist = False \<rparr>"

definition out_scope :: validated_scope where
  "out_scope = \<lparr> vs_directory = ''/home/u/w/out/'', vs_rules = [''delete-prefix:/home/u/w/out/''], vs_warning = None \<rparr>"

lemma out_request_valid: "validate_scoped_allow plain_env out_request (display_call (FileDelete ''/home/u/w/out/a'')) = Inr out_scope"
  by code_simp


text \<open>
  A refusal that was validated for a call refuses that call from then on, before any
  permission is consulted: with its rules among the session refusals some rule matches the call.
\<close>

theorem applied_refusal_blocks:
  assumes "canonical_fs (se_fs env)" and "renders_unambiguously call"
    and "validate_scoped_deny env refusal (display_call call) = Inr v" and "set (vs_rules v) \<subseteq> set denied"
  shows "\<exists>rule\<in>set denied. session_deny_match (se_fs env) call denied = Some rule"
proof -
  obtain target namespace where t: "scoped_call_target call = Some target" "scoped_prefix_namespace call = Some namespace"
    and rule: "DENY_RULE_PREFIX @ namespace @ vs_directory v \<in> set (vs_rules v)"
    and m: "directory_scope_matches (vs_directory v) (resolved_text (se_fs env) target)"
    using validated_covers [OF assms(1,2) assms(3) [unfolded validate_scoped_deny_def]] .
  obtain rest where rest: "governed_paths call = Some (target # rest)"
    using t(1) by (cases call) (auto simp: scoped_call_target_def governed_paths_def)
  let ?m = "scope_entry_matches (DENY_RULE_PREFIX @ namespace) (resolved_text (se_fs env) target)"
  have "?m (DENY_RULE_PREFIX @ namespace @ vs_directory v)" using m by (simp add: scope_entry_matches_def strip_prefix_def)
  then have "find ?m denied \<noteq> None" using rule assms(4) by (auto simp: find_None_iff)
  then obtain e where e: "find ?m denied = Some e" by auto
  then have "e \<in> set denied" by (auto simp: find_Some_iff in_set_conv_nth)
  moreover have "denied \<noteq> []" using e by auto
  ultimately show ?thesis using e by (auto simp: session_deny_match_def t(2) rest)
qed

definition ssh_refusal :: scoped_deny_request where
  "ssh_refusal = \<lparr> sdr_directory = ''/home/u/.ssh'', sdr_read = True, sdr_write = False, sdr_delete = False \<rparr>"

lemma ssh_refusal_valid:
  "validate_scoped_deny plain_env ssh_refusal (display_call (FileRead ''/home/u/.ssh/id'')) =
     Inr \<lparr> vs_directory = ''/home/u/.ssh/'', vs_rules = [''deny-ro-prefix:/home/u/.ssh/''], vs_warning = None \<rparr>"
  by code_simp

theorem applied_refusal_blocks_witness:
  "\<exists>rule\<in>{''deny-ro-prefix:/home/u/.ssh/''}. session_deny_match (se_fs plain_env) (FileRead ''/home/u/.ssh/id'') [''deny-ro-prefix:/home/u/.ssh/''] = Some rule"
  using applied_refusal_blocks [OF plain_env_canonical _ ssh_refusal_valid, of "[''deny-ro-prefix:/home/u/.ssh/'']"]
  by (simp add: renders_unambiguously_def)

subsection \<open>What a scoped permission cannot reach\<close>

lemma prefixed_rule_forms:
  assumes "e \<in> set (prefixed_rules proposal directory [])"
  shows "(pr_read proposal \<and> e = ''ro-prefix:'' @ directory) \<or> (pr_write proposal \<and> e = ''write-prefix:'' @ directory) \<or>
         (pr_delete proposal \<and> e = ''delete-prefix:'' @ directory)"
  using assms by (auto simp: prefixed_rules_def selected_rule_namespaces_def split: if_splits)

lemma scoped_rules_path_match:
  assumes "is_absolute key" and "\<not> scope_match fs (prefixed_rules proposal directory []) call"
  shows "path_match fs key (prefixed_rules proposal directory []) call = Some False"
proof -
  let ?rules = "prefixed_rules proposal directory []"
  note forms = prefixed_rule_forms [of _ proposal directory]
  have "\<not> entry_in ?rules (canonicalize_allowlist_entry fs ns key)" if "ns = ''ro:'' \<or> ns = ''rw:''" for ns
    using that by (auto simp: entry_in_def canonicalize_allowlist_entry_def dest!: forms split: option.splits)
  moreover have "glob_any key ?rules = Some False"
    by (rule no_globs) (auto simp: list_all_iff strip_prefix_None dest!: forms)
  moreover have "\<not> exact_match ?rules key call"
    using assms(1) by (auto simp: exact_match_def is_absolute_def prefix_def dest!: forms)
  moreover have "\<not> list_ex (bare_prefix_matches ?rules key call) ?rules"
    by (auto simp: list_ex_iff bare_prefix_matches_def NAMESPACED_def starts_with_any_def dest!: forms)
  ultimately show ?thesis using assms absolute_key [OF assms(1)] by (simp add: path_match_def readonly_allowlist_entry_def)
qed

lemma scope_match_rules:
  assumes "scope_match fs (prefixed_rules proposal directory []) call"
  shows "\<exists>target namespace. scoped_call_target call = Some target \<and> scoped_prefix_namespace call = Some namespace \<and>
    namespace \<in> set (selected_rule_namespaces proposal) \<and> directory_scope_matches directory (resolved_text fs target)"
proof -
  from assms obtain target namespace e d where t: "scoped_call_target call = Some target" "scoped_prefix_namespace call = Some namespace"
    and e: "e \<in> set (prefixed_rules proposal directory [])" "e = namespace @ d" "directory_scope_matches d (resolved_text fs target)"
    by (auto simp: scope_match_def list_ex_iff scope_entry_matches_def strip_prefix_Some split: option.splits)
  have "namespace = ''ro-prefix:'' \<or> namespace = ''write-prefix:'' \<or> namespace = ''delete-prefix:''"
    using t(2) by (auto simp: scoped_prefix_namespace_def split: tool_call_type.splits)
  then have "d = directory \<and> namespace \<in> set (selected_rule_namespaces proposal)"
    using prefixed_rule_forms [OF e(1)] e(2) by (elim disjE) (simp_all add: selected_rule_namespaces_def)
  then show ?thesis using t e(3) by blast
qed

text \<open>
  C20. A scoped permission stays inside its directory and its ticked operations: if the rules of a
  validated request alone let a call pass, the call is of a ticked kind and its resolved target is
  the directory or below it; the directory has at least two components, and if writing or deleting
  was ticked it is not a sensitive path.
\<close>

theorem scoped_grant_bounded:
  assumes "validate_scoped_allow env request tool_call = Inr v" and "is_absolute key"
    and "case call of FileLink target _ _ \<Rightarrow> is_absolute target | _ \<Rightarrow> True"
    and "is_session_allowlist_match of_json fs key (vs_rules v) call = Some True"
  shows "(\<exists>target namespace. scoped_call_target call = Some target \<and> scoped_prefix_namespace call = Some namespace \<and>
            namespace \<in> set (selected_rule_namespaces (proposal_of_allow request)) \<and>
            directory_scope_matches (vs_directory v) (resolved_text fs target)) \<and>
         2 \<le> length (filter (\<lambda>c. c \<noteq> []) (split_on CHR ''/'' (trim_end_slashes (vs_directory v)))) \<and>
         (sar_write request \<or> sar_delete request \<longrightarrow> \<not> is_sensitive_path (trim_end_slashes (vs_directory v)))"
proof -
  let ?p = "proposal_of_allow request"
  from assms(1) obtain directory status where c: "classify_scope env ?p tool_call False = Inr (directory, status)"
    and v: "vs_directory v = with_trailing_separator directory" "vs_rules v = prefixed_rules ?p (with_trailing_separator directory) []"
    by (auto simp: validate_scoped_allow_def validate_proposal_def Let_def split: sum.splits)
  from c have r: "reject_broad_or_sensitive_scope env directory ?p = None"
    by (auto simp: classify_scope_def mode_grants_def proposal_of_allow_def split: if_splits sum.splits option.splits)
  have "scope_match fs (vs_rules v) call"
  proof (rule ccontr)
    assume no: "\<not> scope_match fs (vs_rules v) call"
    then have "unlinked_match of_json fs key (vs_rules v) call = Some False"
      using scoped_rules_path_match [OF assms(2)] by (simp add: v unlinked_match_path [OF assms(2)])
    then show False using assms(4) by (auto simp: is_session_allowlist_match_def split: tool_call_type.splits if_splits option.splits bool.splits)
  qed
  then have "\<exists>target namespace. scoped_call_target call = Some target \<and> scoped_prefix_namespace call = Some namespace \<and>
      namespace \<in> set (selected_rule_namespaces ?p) \<and> directory_scope_matches (vs_directory v) (resolved_text fs target)"
    using scope_match_rules by (simp add: v)
  then show ?thesis
    using r by (auto simp: v trim_with_trailing reject_broad_or_sensitive_scope_def too_broad_def Let_def proposal_of_allow_def split: if_splits)
qed

theorem scoped_grant_bounded_witness:
  "2 \<le> length (filter (\<lambda>c. c \<noteq> []) (split_on CHR ''/'' (trim_end_slashes (vs_directory out_scope))))"
proof -
  have m: "is_session_allowlist_match (\<lambda>_. None) (se_fs plain_env) ''/home/u/w/out/b'' (vs_rules out_scope) (FileDelete ''/home/u/w/out/b'') = Some True"
    by code_simp
  show ?thesis using scoped_grant_bounded [OF out_request_valid _ _ m] by (simp add: is_absolute_def)
qed

text \<open>
  A permission to delete below a directory also lets a file of the directory be renamed to any
  place: the match asks only for the old path, so a rename onto the keys of \<open>ssh\<close> passes unseen.
\<close>

theorem delete_scope_renames_anywhere:
  "validate_scoped_allow plain_env out_request (display_call (FileDelete ''/home/u/w/out/a'')) = Inr out_scope \<and>
   is_session_allowlist_match (\<lambda>_. None) (se_fs plain_env) ''/home/u/w/out/a'' (vs_rules out_scope)
     (FileRename ''/home/u/w/out/a'' ''/home/u/.ssh/authorized_keys'') = Some True"
  by code_simp

text \<open>
  A rename whose old path contains an arrow is read back at the wrong place: the scope is
  accepted for the shorter path and does not match the call it was reviewed for.
\<close>

theorem arrow_in_rename_kills_scope:
  "validate_scoped_allow plain_env (out_request\<lparr> sar_directory := ''/home/u/w/x'' \<rparr>) (display_call (FileRename ''/home/u/w/x -> y'' ''/home/u/w/z'')) =
     Inr \<lparr> vs_directory = ''/home/u/w/x/'', vs_rules = [''delete-prefix:/home/u/w/x/''], vs_warning = None \<rparr> \<and>
   is_session_allowlist_match (\<lambda>_. None) (se_fs plain_env) ''/home/u/w/x -> y'' [''delete-prefix:/home/u/w/x/'']
     (FileRename ''/home/u/w/x -> y'' ''/home/u/w/z'') = Some False"
  by code_simp

end
