(* ===== verification/Mass_Destruction.thy ===== *)
theory Mass_Destruction
  imports Session_Grants
begin

section \<open>The mass-destruction signal\<close>

text \<open>
  \<open>crates/grith-supervisor/src/supervisor/mass_destruction.rs\<close>: distinct deletions of valuable files
  outside the working tree within a window, counted over the calls that reach the proxy; from a
  threshold on an allow becomes a review. The map of targets is an association list; \<open>HOME\<close> is an
  argument. The monotonic clock starts u zero, so subtracting a longer window from an early instant
  fails and nothing is pruned.
\<close>

definition WINDOW :: duration where
  "WINDOW = 10 * 1000000000"

definition THRESHOLD :: nat where
  "THRESHOLD = 25"

definition signal_enabled :: "(string \<Rightarrow> string option) \<Rightarrow> bool" where
  "signal_enabled env =
     (case env ''GRITH_SUPERVISOR_MASS_DESTRUCTION_SIGNAL'' of
        Some v \<Rightarrow> trim v \<notin> {''0'', ''false'', ''no'', ''off''}
      | None \<Rightarrow> True)"

record mass_destruction_tracker =
  mdt_seen :: "(string \<times> instant) list"
  mdt_window :: duration
  mdt_threshold :: nat

definition mdt_new :: "duration \<Rightarrow> nat \<Rightarrow> mass_destruction_tracker" where
  "mdt_new window threshold = \<lparr> mdt_seen = [], mdt_window = window, mdt_threshold = threshold \<rparr>"

definition mdt_with_defaults :: mass_destruction_tracker where
  "mdt_with_defaults = mdt_new WINDOW THRESHOLD"

text \<open>\<open>Instant::checked_sub\<close>.\<close>

definition instant_checked_sub :: "instant \<Rightarrow> duration \<Rightarrow> instant option" where
  "instant_checked_sub now d = (if int d \<le> now then Some (now - int d) else None)"

definition mdt_prune :: "mass_destruction_tracker \<Rightarrow> instant \<Rightarrow> (string \<times> instant) list" where
  "mdt_prune t now =
     (case instant_checked_sub now (mdt_window t) of
        Some cutoff \<Rightarrow> filter (\<lambda>(_, seen_at). cutoff \<le> seen_at) (mdt_seen t)
      | None \<Rightarrow> mdt_seen t)"

definition mdt_record :: "mass_destruction_tracker \<Rightarrow> string \<Rightarrow> instant \<Rightarrow> nat option \<times> mass_destruction_tracker" where
  "mdt_record t target now =
     (let seen = assoc_insert target now (mdt_prune t now)
      in (if mdt_threshold t \<le> length seen then Some (length seen) else None, t\<lparr> mdt_seen := seen \<rparr>))"

definition destructive_target :: "tool_call_type \<Rightarrow> string option" where
  "destructive_target call =
     (case call of FileDelete path \<Rightarrow> Some path | FileRename old_path _ \<Rightarrow> Some old_path | _ \<Rightarrow> None)"

definition EPHEMERAL_ROOTS :: "string list" where
  "EPHEMERAL_ROOTS = [''/tmp/'', ''/var/tmp/'', ''/var/cache/'', ''/dev/'', ''/proc/'', ''/sys/'', ''/run/'']"

definition BUILD_ARTIFACT_SEGMENTS :: "string list" where
  "BUILD_ARTIFACT_SEGMENTS =
     [''/target/debug/'', ''/target/release/'', ''/node_modules/'', ''/__pycache__/'', ''/.git/objects/'', ''/.next/'']"

definition HOME_TOOLCHAIN_CACHES :: "string list" where
  "HOME_TOOLCHAIN_CACHES =
     [''.gradle/caches/'', ''.gradle/daemon/'', ''.gradle/wrapper/dists/'', ''.m2/repository/'', ''.ivy2/cache/'', ''.sbt/boot/'',
      ''.konan/'', ''.kotlin/'', ''.cargo/registry/'', ''.cargo/git/'', ''.npm/_cacache/'', ''.yarn/cache/'', ''.yarn/berry/cache/'',
      ''.pnpm-store/'', ''.bun/install/cache/'', ''go/pkg/mod/'', ''.nuget/packages/'', ''.gem/'', ''.pub-cache/'',
      ''.stack/snapshots/'', ''.stack/pantry/'', ''.cpanm/'', ''.composer/cache/'']"

definition home_slash :: "string \<Rightarrow> string" where
  "home_slash home = (if suffix ''/'' home then home else home @ ''/'')"

definition home_toolchain_caches :: "string option \<Rightarrow> string list" where
  "home_toolchain_caches home =
     (case home of None \<Rightarrow> [] | Some h \<Rightarrow> map (\<lambda>sfx. home_slash h @ sfx) HOME_TOOLCHAIN_CACHES)"

definition home_cache_prefix :: "string option \<Rightarrow> string option" where
  "home_cache_prefix home = map_option (\<lambda>h. home_slash h @ ''.cache/'') home"

definition is_ephemeral :: "string option \<Rightarrow> string \<Rightarrow> bool" where
  "is_ephemeral home target \<longleftrightarrow>
     starts_with_any EPHEMERAL_ROOTS target \<or> list_ex (str_contains target) BUILD_ARTIFACT_SEGMENTS \<or>
     (case home_cache_prefix home of Some cache \<Rightarrow> prefix cache target | None \<Rightarrow> False) \<or>
     starts_with_any (home_toolchain_caches home) target"

definition path_under :: "string \<Rightarrow> string \<Rightarrow> bool" where
  "path_under target base =
     (let r = (case strip_suffix ''/'' base of Some b \<Rightarrow> b | None \<Rightarrow> base)
      in if r = [] then False
         else target = r \<or> (case strip_prefix r target of Some rest \<Rightarrow> prefix ''/'' rest | None \<Rightarrow> False))"

record destruction_roots =
  dr_home :: "string option"
  dr_working_root :: "string option"
  dr_workspace_roots :: "string list"
  dr_routine_roots :: "string list"
  dr_scratch_roots :: "string list"

definition is_valuable_out_of_tree :: "destruction_roots \<Rightarrow> string \<Rightarrow> bool" where
  "is_valuable_out_of_tree roots target =
     (if \<not> prefix ''/'' target then False
      else if (case dr_working_root roots of Some r \<Rightarrow> path_under target r | None \<Rightarrow> False) then False
      else if list_ex (path_under target) (dr_workspace_roots roots) then False
      else if list_ex (path_under target) (dr_routine_roots roots) then False
      else if list_ex (path_under target) (dr_scratch_roots roots) then False
      else \<not> is_ephemeral (dr_home roots) target)"

definition maybe_escalate ::
    "destruction_roots \<Rightarrow> instant \<Rightarrow> proxy_decision \<Rightarrow> tool_call_type \<Rightarrow> mass_destruction_tracker \<Rightarrow>
     nat option \<times> proxy_decision \<times> mass_destruction_tracker" where
  "maybe_escalate roots now decision call tracker =
     (case destructive_target call of
        None \<Rightarrow> (None, decision, tracker)
      | Some target \<Rightarrow>
          if \<not> is_valuable_out_of_tree roots target then (None, decision, tracker)
          else
            (let (count, tracker') = mdt_record tracker target now
             in case count of
                 None \<Rightarrow> (None, decision, tracker')
               | Some n \<Rightarrow>
                   if action decision \<noteq> Allow then (None, decision, tracker')
                   else (Some n,
                         decision\<lparr> action := Queue PrioHigh,
                           decision_reason := ''mass-destruction signal: '' @ digits_of_nat n @
                             '' distinct out-of-tree deletions within '' @ digits_of_nat 10 @ ''s'' \<rparr>,
                         tracker')))"

subsection \<open>The tracker counts the history\<close>

text \<open>
  The history of recorded targets, oldest first; \<open>recent\<close> are the distinct targets of the window that
  ends now, the reference the pruned map is compared with.
\<close>

definition recent_targets :: "duration \<Rightarrow> instant \<Rightarrow> (string \<times> instant) list \<Rightarrow> string set" where
  "recent_targets window now history = {target. \<exists>u. (target, u) \<in> set history \<and> now - int window \<le> u}"

fun mdt_run :: "mass_destruction_tracker \<Rightarrow> (string \<times> instant) list \<Rightarrow> mass_destruction_tracker" where
  "mdt_run t [] = t"
| "mdt_run t ((target, u) # rest) = mdt_run (snd (mdt_record t target u)) rest"

text \<open>What the map knows of a history: the recent targets, each with its last deletion.\<close>

definition tracks :: "mass_destruction_tracker \<Rightarrow> instant \<Rightarrow> (string \<times> instant) list \<Rightarrow> bool" where
  "tracks t now history \<longleftrightarrow>
     distinct (map fst (mdt_seen t)) \<and> recent_targets (mdt_window t) now history \<subseteq> fst ` set (mdt_seen t) \<and>
     (\<forall>(target, u)\<in>set (mdt_seen t). (target, u) \<in> set history \<and> (\<forall>u'. (target, u') \<in> set history \<longrightarrow> u' \<le> u))"

lemma mdt_record_window [simp]: "mdt_window (snd (mdt_record t target now)) = mdt_window t"
  "mdt_threshold (snd (mdt_record t target now)) = mdt_threshold t"
  by (simp_all add: mdt_record_def Let_def)

lemma mdt_run_window [simp]: "mdt_window (mdt_run t h) = mdt_window t" "mdt_threshold (mdt_run t h) = mdt_threshold t"
  by (induction t h rule: mdt_run.induct) simp_all

lemma prune_keys:
  assumes "tracks t past history" and "past \<le> now" and "\<forall>(_, u)\<in>set history. 0 \<le> u"
  shows "fst ` set (mdt_prune t now) = recent_targets (mdt_window t) now history"
proof (intro equalityI subsetI)
  fix target assume "target \<in> fst ` set (mdt_prune t now)"
  then obtain u where u: "(target, u) \<in> set (mdt_prune t now)" by auto
  then have "(target, u) \<in> set history" using assms(1) by (auto simp: tracks_def mdt_prune_def split: option.splits)
  moreover from this have "now - int (mdt_window t) \<le> u"
    using u assms(3) by (auto simp: mdt_prune_def instant_checked_sub_def split: if_splits)
  ultimately show "target \<in> recent_targets (mdt_window t) now history" by (auto simp: recent_targets_def)
next
  fix target assume "target \<in> recent_targets (mdt_window t) now history"
  then obtain u' where u': "(target, u') \<in> set history" "now - int (mdt_window t) \<le> u'" by (auto simp: recent_targets_def)
  then have "target \<in> recent_targets (mdt_window t) past history" using assms(2) by (force simp: recent_targets_def)
  then obtain u where u: "(target, u) \<in> set (mdt_seen t)" using assms(1) by (auto simp: tracks_def)
  then have "u' \<le> u" using assms(1) u'(1) by (auto simp: tracks_def)
  then have "(target, u) \<in> set (mdt_prune t now)"
    using u u'(2) by (auto simp: mdt_prune_def instant_checked_sub_def)
  then show "target \<in> fst ` set (mdt_prune t now)" by force
qed

lemma prune_sub: "set (mdt_prune t now) \<subseteq> set (mdt_seen t)" "distinct (map fst (mdt_seen t)) \<Longrightarrow> distinct (map fst (mdt_prune t now))"
  by (auto simp: mdt_prune_def distinct_map_filter split: option.splits)

lemma assoc_insert_member: "p \<in> set (assoc_insert k v xs) \<Longrightarrow> distinct (map fst xs) \<Longrightarrow> p = (k, v) \<or> (p \<in> set xs \<and> fst p \<noteq> k)"
proof (induction xs)
  case (Cons q xs)
  then show ?case by (cases "fst q = k") (auto simp: rev_image_eqI)
qed simp

lemma record_keys:
  assumes "tracks t past history" and "past \<le> now" and "\<forall>(_, u)\<in>set history. 0 \<le> u"
  shows "fst ` set (mdt_seen (snd (mdt_record t target now))) = recent_targets (mdt_window t) now (history @ [(target, now)])"
  using prune_keys [OF assms] by (auto simp: mdt_record_def Let_def recent_targets_def)

lemma record_tracks:
  assumes "tracks t past history" and "past \<le> now" and "\<forall>(_, u)\<in>set history. 0 \<le> u \<and> u \<le> past"
  shows "tracks (snd (mdt_record t target now)) now (history @ [(target, now)])"
proof -
  have nonneg: "\<forall>(_, u)\<in>set history. 0 \<le> u" using assms(3) by auto
  have dist: "distinct (map fst (mdt_prune t now))" using assms(1) prune_sub(2) by (simp add: tracks_def)
  have seen: "(tg, u) \<in> set (history @ [(target, now)]) \<and> (\<forall>u'. (tg, u') \<in> set (history @ [(target, now)]) \<longrightarrow> u' \<le> u)"
    if "(tg, u) \<in> set (assoc_insert target now (mdt_prune t now))" for tg u
  proof -
    from assoc_insert_member [OF that dist] consider "tg = target" "u = now" | "(tg, u) \<in> set (mdt_seen t)" "tg \<noteq> target"
      using prune_sub(1) by fastforce
    then show ?thesis
    proof cases
      case 1
      then show ?thesis using assms(2,3) by auto
    next
      case 2
      then show ?thesis using assms(1) by (auto simp: tracks_def)
    qed
  qed
  show ?thesis
    using seen dist record_keys [OF assms(1,2) nonneg, of target]
    by (auto simp: tracks_def mdt_record_def Let_def)
qed

text \<open>A history as the supervisor records it: instants of one clock, in order.\<close>

definition clock_ordered :: "(string \<times> instant) list \<Rightarrow> bool" where
  "clock_ordered history \<longleftrightarrow> sorted (map snd history) \<and> list_all (\<lambda>(_, u). 0 \<le> u) history"

lemma mdt_run_append: "mdt_run t (a @ b) = mdt_run (mdt_run t a) b"
  by (induction t a rule: mdt_run.induct) simp_all

lemma run_tracks:
  assumes "clock_ordered history"
  shows "tracks (mdt_run (mdt_new window threshold) history) (if history = [] then 0 else snd (last history)) history"
  using assms
proof (induction history rule: rev_induct)
  case Nil
  show ?case by (simp add: tracks_def mdt_new_def recent_targets_def)
next
  case (snoc p history)
  obtain target now where p: "p = (target, now)" by (cases p)
  let ?t = "mdt_run (mdt_new window threshold) history" and ?past = "if history = [] then 0 else snd (last history)"
  have ord: "clock_ordered history" "0 \<le> now" "\<forall>u\<in>snd ` set history. u \<le> now"
    using snoc.prems by (auto simp: clock_ordered_def p sorted_append)
  have "?past \<le> now" using ord by (cases history rule: rev_cases) auto
  moreover have "\<forall>(_, u)\<in>set history. 0 \<le> u \<and> u \<le> ?past"
  proof (cases history rule: rev_cases)
    case (snoc h q)
    then show ?thesis using ord(1) by (auto simp: clock_ordered_def sorted_append list_all_iff)
  qed simp
  ultimately show ?case using record_tracks [OF snoc.IH [OF ord(1)]] by (simp add: p mdt_run_append)
qed

text \<open>
  C28. The mass-destruction signal fires exactly when the whole history says so: after any sequence
  of recorded deletions in the order of the clock, the next one reports the number of distinct
  targets of the window that ends with it if that number has reached the threshold, and nothing
  otherwise. Pruning loses nothing that counts.
\<close>

theorem mass_destruction_counts_history:
  assumes "clock_ordered (history @ [(target, now)])"
  shows "fst (mdt_record (mdt_run (mdt_new window threshold) history) target now) =
    (let n = card (recent_targets window now (history @ [(target, now)])) in if threshold \<le> n then Some n else None)"
proof -
  let ?t = "mdt_run (mdt_new window threshold) history" and ?past = "if history = [] then 0 else snd (last history)"
  have ord: "clock_ordered history" "0 \<le> now" "\<forall>u\<in>snd ` set history. u \<le> now"
    using assms by (auto simp: clock_ordered_def sorted_append)
  have past: "?past \<le> now" using ord by (cases history rule: rev_cases) auto
  have nonneg: "\<forall>(_, u)\<in>set history. 0 \<le> u" using ord(1) by (auto simp: clock_ordered_def list_all_iff)
  note tr = run_tracks [OF ord(1), of window threshold]
  have w: "mdt_window (mdt_new window threshold) = window" "mdt_threshold (mdt_new window threshold) = threshold" by (simp_all add: mdt_new_def)
  let ?seen = "assoc_insert target now (mdt_prune ?t now)"
  have "distinct (map fst ?seen)" using tr prune_sub(2) by (simp add: tracks_def)
  then have "length ?seen = card (fst ` set ?seen)" by (metis card_distinct distinct_card length_map list.set_map)
  also have "fst ` set ?seen = recent_targets window now (history @ [(target, now)])"
    using record_keys [OF tr past nonneg, of target] by (simp add: mdt_record_def Let_def w)
  finally show ?thesis by (simp add: mdt_record_def Let_def w)
qed

theorem mass_destruction_counts_history_witness:
  "fst (mdt_record (mdt_run (mdt_new 10 2) [(''/d/a'', 0), (''/d/b'', 15)]) ''/d/c'' 20) = Some 2"
proof -
  have "recent_targets 10 20 [(''/d/a'', 0), (''/d/b'', 15), (''/d/c'', 20)] = {''/d/b'', ''/d/c''}" by (auto simp: recent_targets_def)
  then show ?thesis
    using mass_destruction_counts_history [of "[(''/d/a'', 0), (''/d/b'', 15)]" "''/d/c''" 20 10 2] by (simp add: clock_ordered_def)
qed

end
