(* ===== verification/Listener_Clamp.thy ===== *)
theory Listener_Clamp
  imports Proxy_Types Ip_Addr
begin

section \<open>Clamping a listener to the loopback interface\<close>

text \<open>
  \<open>crates/grith-supervisor/src/platform/linux/clamp.rs\<close>, with the match against the listeners a
  profile declares and the step of the event handler that applies the clamp. The memory of the traced
  process is a partial map from addresses to bytes. A ptrace word is the list of its eight bytes in
  memory order (\<open>from_ne_bytes\<close> and \<open>to_ne_bytes\<close> are inverse), and reading or writing it fails when
  one of them is not mapped. The family field is written in the byte order of a little-endian machine.
\<close>

type_synonym byte = "8 word"
type_synonym memory = "u64 \<rightharpoonup> byte"

datatype clamp_family = ClampV4 | ClampV6

datatype clamp_error =
    AddrlenTooShort u32 nat
  | PartialReadFailed u64
  | WriteFailed u64
  | SockaddrMissing

definition be_bytes :: "u16 \<Rightarrow> byte list" where
  "be_bytes port = [ucast (drop_bit 8 port), ucast port]"

fun build_loopback_sockaddr_bytes :: "clamp_family \<Rightarrow> u16 \<Rightarrow> byte list" where
  "build_loopback_sockaddr_bytes ClampV4 port = [2, 0] @ be_bytes port @ [127, 0, 0, 1] @ replicate 8 0"
| "build_loopback_sockaddr_bytes ClampV6 port = [10, 0] @ be_bytes port @ replicate 4 0 @ replicate 15 0 @ [1] @ replicate 4 0"

definition WORD :: nat where
  "WORD = 8"

definition word_addresses :: "u64 \<Rightarrow> u64 list" where
  "word_addresses a = map (\<lambda>i. a + of_nat i) [0..<WORD]"

definition ptrace_read :: "memory \<Rightarrow> u64 \<Rightarrow> byte list option" where
  "ptrace_read mem a =
     (if list_all (\<lambda>x. mem x \<noteq> None) (word_addresses a) then Some (map (\<lambda>x. the (mem x)) (word_addresses a)) else None)"

definition ptrace_write :: "memory \<Rightarrow> u64 \<Rightarrow> byte list \<Rightarrow> memory option" where
  "ptrace_write mem a bs =
     (if list_all (\<lambda>x. mem x \<noteq> None) (word_addresses a) then Some (mem ++ map_of (zip (word_addresses a) bs)) else None)"

text \<open>Words written before a failure stay written.\<close>

function write_tracee_bytes :: "memory \<Rightarrow> u64 \<Rightarrow> byte list \<Rightarrow> clamp_error option \<times> memory" where
  "write_tracee_bytes mem a data =
     (if data = [] then (None, mem)
      else if length data \<ge> WORD
      then (case ptrace_write mem a (take WORD data) of
              None \<Rightarrow> (Some (WriteFailed a), mem)
            | Some mem' \<Rightarrow> write_tracee_bytes mem' (a + of_nat WORD) (drop WORD data))
      else (case ptrace_read mem a of
              None \<Rightarrow> (Some (PartialReadFailed a), mem)
            | Some existing \<Rightarrow>
                (case ptrace_write mem a (data @ drop (length data) existing) of
                   None \<Rightarrow> (Some (WriteFailed a), mem)
                 | Some mem' \<Rightarrow> (None, mem'))))"
  by pat_completeness auto
termination
  by (relation "measure (\<lambda>(_, _, data). length data)") (auto simp: WORD_def)

declare write_tracee_bytes.simps [simp del]

definition clamp_sockaddr_to_loopback ::
    "memory \<Rightarrow> u64 \<Rightarrow> u32 \<Rightarrow> clamp_family \<Rightarrow> u16 \<Rightarrow> clamp_error option \<times> memory" where
  "clamp_sockaddr_to_loopback mem sockaddr_ptr addrlen family port =
     (let buf = build_loopback_sockaddr_bytes family port
      in if addrlen < of_nat (length buf) then (Some (AddrlenTooShort addrlen (length buf)), mem)
         else write_tracee_bytes mem sockaddr_ptr buf)"

subsection \<open>Listeners a profile declares\<close>

datatype listener_family = FamilyV4 | FamilyV6 | FamilyAny

datatype listener_address_family = AddressV4 | AddressV6

record local_listener_entry =
  ll_port :: u16
  ll_family :: listener_family
  ll_desc :: string
  ll_allow_clamp :: bool

definition listener_family_for_address :: "string \<Rightarrow> listener_address_family option" where
  "listener_family_for_address address =
     (if eq_ignore_ascii_case address ''localhost'' then Some AddressV4
      else case parse_ip address of
          Some (V4 _) \<Rightarrow> Some AddressV4
        | Some (V6 _) \<Rightarrow> Some AddressV6
        | None \<Rightarrow> None)"

fun family_covers :: "listener_family \<Rightarrow> listener_address_family \<Rightarrow> bool" where
  "family_covers FamilyAny _ = True"
| "family_covers FamilyV4 f = (f = AddressV4)"
| "family_covers FamilyV6 f = (f = AddressV6)"

definition match_listener_policy :: "local_listener_entry list \<Rightarrow> string \<Rightarrow> u16 \<Rightarrow> listener_policy_match option" where
  "match_listener_policy policy address port =
     (if policy = [] then None
      else case listener_family_for_address address of
          None \<Rightarrow> None
        | Some family \<Rightarrow>
            map_option (\<lambda>e. \<lparr> allow_clamp = ll_allow_clamp e, lpm_desc = ll_desc e \<rparr>)
              (find (\<lambda>e. ll_port e = port \<and> family_covers (ll_family e) family) policy))"

definition wildcard_ip :: "ip_addr \<Rightarrow> bool" where
  "wildcard_ip ip \<longleftrightarrow>
     ip_is_unspecified ip \<or> (case to_ipv4_mapped ip of Some v4 \<Rightarrow> ip_is_unspecified v4 | None \<Rightarrow> False)"

definition family_of_ip :: "ip_addr \<Rightarrow> clamp_family" where
  "family_of_ip ip = (case ip of V4 _ \<Rightarrow> ClampV4 | V6 _ \<Rightarrow> ClampV6)"

definition maybe_clamp_listen_address :: "tool_call_context \<Rightarrow> memory \<Rightarrow> clamp_error option \<times> memory" where
  "maybe_clamp_listen_address ctx mem =
     (case call_type ctx of
        NetListen address port \<Rightarrow>
          (case parse_ip address of
             None \<Rightarrow> (None, mem)
           | Some ip \<Rightarrow>
               if ip_is_loopback ip then (None, mem)
               else if \<not> wildcard_ip ip then (None, mem)
               else if \<not> (case listener_policy ctx of Some m \<Rightarrow> allow_clamp m | None \<Rightarrow> False) then (None, mem)
               else (case (Option.bind (json_get (arguments ctx) ''bind_sockaddr_ptr'') as_u64,
                           Option.bind (json_get (arguments ctx) ''bind_addrlen'') as_u64) of
                       (Some sockaddr_ptr, Some addrlen) \<Rightarrow>
                         clamp_sockaddr_to_loopback mem (of_nat sockaddr_ptr) (of_nat addrlen) (family_of_ip ip) port
                     | _ \<Rightarrow> (Some SockaddrMissing, mem)))
      | _ \<Rightarrow> (None, mem))"

subsection \<open>What the kernel reads back\<close>

text \<open>The bytes of the sockaddr in the memory of the process, and the address they denote.\<close>

definition read_bytes :: "memory \<Rightarrow> u64 \<Rightarrow> nat \<Rightarrow> byte option list" where
  "read_bytes mem a n = map (\<lambda>i. mem (a + of_nat i)) [0..<n]"

definition be_port :: "byte \<Rightarrow> byte \<Rightarrow> u16" where
  "be_port hi lo = push_bit 8 (ucast hi) + ucast lo"

definition kernel_sockaddr :: "clamp_family \<Rightarrow> byte list \<Rightarrow> (ip_addr \<times> u16) option" where
  "kernel_sockaddr family bs =
     (case family of
        ClampV4 \<Rightarrow>
          if length bs = 16 \<and> take 2 bs = [2, 0] then Some (V4 (map uint (take 4 (drop 4 bs))), be_port (bs ! 2) (bs ! 3)) else None
      | ClampV6 \<Rightarrow>
          if length bs = 28 \<and> take 2 bs = [10, 0]
          then Some (V6 (map (\<lambda>i. uint (bs ! (8 + 2 * i)) * 256 + uint (bs ! (9 + 2 * i))) [0..<8]), be_port (bs ! 2) (bs ! 3))
          else None)"

definition loopback_ip :: "clamp_family \<Rightarrow> ip_addr" where
  "loopback_ip family = (case family of ClampV4 \<Rightarrow> V4 [127, 0, 0, 1] | ClampV6 \<Rightarrow> V6 [0, 0, 0, 0, 0, 0, 0, 1])"

lemma be_port_bytes [simp]: "be_port (ucast (drop_bit 8 port)) (ucast port) = (port :: u16)"
proof -
  have "push_bit 8 (ucast (ucast (drop_bit 8 port) :: byte) :: u16) = push_bit 8 (drop_bit 8 port)"
    by (rule bit_word_eqI) (auto simp: bit_simps dest: bit_imp_le_length)
  moreover have "(ucast (ucast port :: byte) :: u16) = take_bit 8 port"
    by (rule bit_word_eqI) (auto simp: bit_simps)
  moreover have "push_bit 8 (drop_bit 8 port) + take_bit 8 port = port"
    by (rule bits_ident)
  ultimately show ?thesis by (simp add: be_port_def)
qed

lemma zero_bytes:
  "replicate 4 x = [x, x, x, x]"
  "replicate 8 x = [x, x, x, x, x, x, x, x]"
  "replicate 15 x = [x, x, x, x, x, x, x, x, x, x, x, x, x, x, x]"
  "[0..<8] = [0, 1, 2, 3, 4, 5, 6, 7]"
  by (simp_all add: numeral_eq_Suc upt_rec)

lemma sockaddr_round_trip: "kernel_sockaddr family (build_loopback_sockaddr_bytes family port) = Some (loopback_ip family, port)"
  by (cases family) (simp_all add: kernel_sockaddr_def loopback_ip_def be_bytes_def zero_bytes)

lemma loopback_is_loopback [simp]: "ip_is_loopback (loopback_ip family)"
  by (cases family) (simp_all add: loopback_ip_def)

lemma sockaddr_length: "length (build_loopback_sockaddr_bytes family port) = (case family of ClampV4 \<Rightarrow> 16 | ClampV6 \<Rightarrow> 28)"
  by (cases family) (simp_all add: be_bytes_def)

subsection \<open>The write reaches every byte and no other\<close>

text \<open>The addresses of \<open>n\<close> bytes from \<open>a\<close>.\<close>

definition span_of :: "u64 \<Rightarrow> nat \<Rightarrow> u64 set" where
  "span_of a n = (\<lambda>i. a + of_nat i) ` {..<n}"

lemma of_nat_u64_inj: "i < 2 ^ 64 \<Longrightarrow> j < 2 ^ 64 \<Longrightarrow> (of_nat i :: u64) = of_nat j \<longleftrightarrow> i = j"
  by (simp add: word_of_nat_eq_iff take_bit_nat_eq_self)

lemma word_addresses_props: "length (word_addresses a) = WORD" "distinct (word_addresses a)" "set (word_addresses a) = span_of a WORD"
  by (auto simp: word_addresses_def distinct_map inj_on_def span_of_def WORD_def of_nat_u64_inj lessThan_atLeast0)

lemma word_addresses_nth: "i < WORD \<Longrightarrow> word_addresses a ! i = a + of_nat i"
  by (simp add: word_addresses_def)

lemma ptrace_write_at:
  assumes "ptrace_write mem a bs = Some mem'" and "length bs = WORD"
  shows "i < WORD \<Longrightarrow> mem' (a + of_nat i) = Some (bs ! i)" and "x \<notin> span_of a WORD \<Longrightarrow> mem' x = mem x"
proof -
  have m: "mem' = mem ++ map_of (zip (word_addresses a) bs)" using assms by (simp add: ptrace_write_def split: if_splits)
  show "mem' x = mem x" if "x \<notin> span_of a WORD"
    using that by (auto simp: m map_add_def word_addresses_props dest!: map_of_SomeD set_zip_leftD split: option.split)
  show "mem' (a + of_nat i) = Some (bs ! i)" if "i < WORD"
  proof -
    have "map_of (zip (word_addresses a) bs) (word_addresses a ! i) = Some (bs ! i)"
      using that by (intro map_of_zip_nth) (simp_all add: word_addresses_props assms)
    then show ?thesis using that by (simp add: m word_addresses_nth)
  qed
qed

lemma span_of_add: "span_of a (m + n) = span_of a m \<union> span_of (a + of_nat m) n"
proof -
  have "i < m + n \<longleftrightarrow> i < m \<or> (\<exists>j < n. i = m + j)" for i by presburger
  then have "{..<m + n} = {..<m} \<union> (\<lambda>i. m + i) ` {..<n}" by blast
  then show ?thesis by (simp add: span_of_def image_Un image_image add.assoc)
qed

lemma span_of_disjoint: "m + n \<le> 2 ^ 64 \<Longrightarrow> i < m \<Longrightarrow> a + of_nat i \<notin> span_of (a + of_nat m) n"
proof
  assume h: "m + n \<le> 2 ^ 64" "i < m" "a + of_nat i \<in> span_of (a + of_nat m) n"
  then obtain j where "j < n" "(of_nat i :: u64) = of_nat (m + j)" by (auto simp: span_of_def add.assoc)
  then show False using h of_nat_u64_inj [of i "m + j"] by simp
qed

lemma ptrace_read_nth: "ptrace_read mem a = Some bs \<Longrightarrow> length bs = WORD \<and> (\<forall>i < WORD. mem (a + of_nat i) = Some (bs ! i))"
  by (auto simp: ptrace_read_def word_addresses_def list_all_iff split: if_splits)

text \<open>A successful write stores the data at its addresses and leaves every other byte alone.\<close>

lemma write_tracee_bytes_stores:
  assumes "write_tracee_bytes mem a data = (None, mem')" and "length data + WORD \<le> 2 ^ 64"
  shows "(\<forall>i < length data. mem' (a + of_nat i) = Some (data ! i)) \<and> (\<forall>x. x \<notin> span_of a (length data) \<longrightarrow> mem' x = mem x)"
  using assms
proof (induction mem a data arbitrary: mem' rule: write_tracee_bytes.induct)
  case (1 mem a data)
  consider (nil) "data = []" | (full) "WORD \<le> length data" | (part) "data \<noteq> []" "length data < WORD" by linarith
  then show ?case
  proof cases
    case nil
    then show ?thesis using "1.prems" by (simp add: write_tracee_bytes.simps)
  next
    case full
    then have ne: "data \<noteq> []" by (auto simp: WORD_def)
    obtain m1 where w: "ptrace_write mem a (take WORD data) = Some m1"
        and r: "write_tracee_bytes m1 (a + of_nat WORD) (drop WORD data) = (None, mem')"
      using "1.prems"(1) full ne by (subst (asm) write_tracee_bytes.simps) (auto split: option.splits)
    have ih: "\<forall>i < length data - WORD. mem' (a + of_nat WORD + of_nat i) = Some (drop WORD data ! i)"
        "\<forall>x. x \<notin> span_of (a + of_nat WORD) (length data - WORD) \<longrightarrow> mem' x = m1 x"
      using "1.IH"(1) [OF ne full w r] "1.prems"(2) by simp_all
    note w1 = ptrace_write_at(1) [OF w] and w2 = ptrace_write_at(2) [OF w]
    have low: "mem' (a + of_nat i) = Some (data ! i)" if "i < WORD" for i
      using that ih(2) span_of_disjoint [of WORD "length data - WORD" i a] w1 [of i] full "1.prems"(2) by simp
    have high: "mem' (a + of_nat i) = Some (data ! i)" if "WORD \<le> i" "i < length data" for i
      using that ih(1) [rule_format, of "i - WORD"] by (simp add: of_nat_diff)
    have "span_of a (length data) = span_of a WORD \<union> span_of (a + of_nat WORD) (length data - WORD)"
      using span_of_add [of a WORD "length data - WORD"] full by simp
    then show ?thesis using low high ih(2) w2 full by (metis UnCI length_take min.absorb2 not_le)
  next
    case part
    obtain ex where e: "ptrace_read mem a = Some ex" and w: "ptrace_write mem a (data @ drop (length data) ex) = Some mem'"
      using "1.prems"(1) part by (subst (asm) write_tracee_bytes.simps) (auto split: option.splits)
    note ex = ptrace_read_nth [OF e]
    have len: "length (data @ drop (length data) ex) = WORD" using ex part by simp
    have tail: "mem' x = mem x" if "x \<notin> span_of a (length data)" for x
    proof (cases "x \<in> span_of a WORD")
      case True
      then obtain i where i: "i < WORD" "x = a + of_nat i" by (auto simp: span_of_def)
      then have "length data \<le> i" using that by (auto simp: span_of_def)
      then show ?thesis using i ptrace_write_at(1) [OF w len, of i] ex by (simp add: nth_append)
    next
      case False
      then show ?thesis by (rule ptrace_write_at(2) [OF w len])
    qed
    show ?thesis using tail ptrace_write_at(1) [OF w len] part by (auto simp: nth_append)
  qed
qed

text \<open>Only unmapped memory makes the write fail.\<close>

lemma write_tracee_bytes_total: "(\<And>x. mem x \<noteq> None) \<Longrightarrow> fst (write_tracee_bytes mem a data) = None"
proof (induction mem a data rule: write_tracee_bytes.induct)
  case (1 mem a data)
  have r: "ptrace_read mem x \<noteq> None" "ptrace_write mem x bs \<noteq> None" for x bs
    using "1.prems" by (simp_all add: ptrace_read_def ptrace_write_def list_all_iff)
  have keep: "m1 x \<noteq> None" if "ptrace_write mem a bs = Some m1" for m1 bs x
    using that "1.prems" by (auto simp: ptrace_write_def map_add_def split: if_splits option.splits)
  show ?case
  proof (cases "data = [] \<or> length data < WORD")
    case True
    obtain ex where e: "ptrace_read mem a = Some ex" using r(1) by blast
    obtain m1 where "ptrace_write mem a (data @ drop (length data) ex) = Some m1" using r(2) by blast
    then show ?thesis using True e by (subst write_tracee_bytes.simps) auto
  next
    case False
    then obtain m1 where w: "ptrace_write mem a (take WORD data) = Some m1" using r(2) by blast
    have "fst (write_tracee_bytes m1 (a + of_nat WORD) (drop WORD data)) = None"
      using False keep [OF w] by (intro "1.IH"(1) [OF _ _ w]) (auto simp: not_less)
    then show ?thesis using False w by (subst write_tracee_bytes.simps) (simp add: not_less)
  qed
qed

text \<open>
  A clamp that succeeds leaves the process with a loopback sockaddr of the same port, and writes
  nothing but the sockaddr the process passed.
\<close>

lemma clamped_listener_is_loopback:
  assumes "clamp_sockaddr_to_loopback mem sockaddr_ptr addrlen family port = (None, mem')"
  shows "\<exists>bs. read_bytes mem' sockaddr_ptr (length bs) = map Some bs \<and> kernel_sockaddr family bs = Some (loopback_ip family, port) \<and>
       length bs \<le> unat addrlen \<and> (\<forall>x. x \<notin> span_of sockaddr_ptr (length bs) \<longrightarrow> mem' x = mem x)"
proof -
  let ?b = "build_loopback_sockaddr_bytes family port"
  have l: "length ?b \<le> 28" by (cases family) (simp_all add: be_bytes_def)
  have w: "write_tracee_bytes mem sockaddr_ptr ?b = (None, mem')" and a: "\<not> addrlen < of_nat (length ?b)"
    using assms by (auto simp: clamp_sockaddr_to_loopback_def Let_def split: if_splits)
  have "unat (of_nat (length ?b) :: u32) = length ?b" using l by (simp add: unat_of_nat take_bit_nat_eq_self)
  then have "length ?b \<le> unat addrlen" using a by (simp add: word_less_nat_alt not_less)
  moreover note write_tracee_bytes_stores [OF w]
  moreover have "length ?b + WORD \<le> 2 ^ 64" using l by (simp add: WORD_def)
  ultimately show ?thesis
    by (intro exI [of _ ?b]) (auto simp: sockaddr_round_trip read_bytes_def intro!: nth_equalityI)
qed

end
