(* ===== verification/Remote_Eval.thy ===== *)
theory Remote_Eval
  imports Session_Grants "HOL-Library.Sublist"
begin

section \<open>Evaluation by the daemon\<close>

text \<open>
  \<open>crates/grith-supervisor/src/supervisor/remote_eval.rs\<close> and the functions of \<open>event_handler.rs\<close>
  that choose between the daemon and the local proxy. The HTTP exchange is the function
  \<open>rm_exchange\<close> from the number of the request, the token and the observations sent to the reply; the
  JSON parser, the clock, the token file and the spawn of the restart command are parameters too. The
  state keeps the requests made as a history, which no definition reads except for the number of the
  next one. The score of a denial without evaluation, infinity in the code, is the argument
  \<open>rm_infinity\<close>.
\<close>

subsection \<open>Observations waiting for the daemon\<close>

record wire_observation =
  wo_call_id :: uuid
  wo_scope :: uuid
  wo_session_id :: uuid
  wo_call_type :: tool_call_type
  wo_profile_name :: "string option"
  wo_arguments :: json
  wo_outcome :: call_outcome
  wo_age_ms :: nat

record pending_observation =
  po_observation :: wire_observation
  po_attempted_at :: instant

definition OUTBOX_CAP :: nat where
  "OUTBOX_CAP = 256"

record request =
  rq_token :: string
  rq_batch :: "pending_observation list"
  rq_wire :: "wire_observation list"
  rq_acknowledged :: bool

record remote_state =
  rs_token :: string
  rs_last_attempt :: "instant option"
  rs_outbox :: "pending_observation list"
  rs_dropped :: nat
  rs_requests :: "request list"

definition outbox_push :: "pending_observation \<Rightarrow> remote_state \<Rightarrow> remote_state" where
  "outbox_push p st =
     (if length (rs_outbox st) \<ge> OUTBOX_CAP
      then st\<lparr>rs_outbox := tl (rs_outbox st) @ [p], rs_dropped := rs_dropped st + 1\<rparr>
      else st\<lparr>rs_outbox := rs_outbox st @ [p]\<rparr>)"

definition outbox_take :: "remote_state \<Rightarrow> pending_observation list \<times> remote_state" where
  "outbox_take st = (rs_outbox st, st\<lparr>rs_outbox := []\<rparr>)"

definition outbox_restore :: "pending_observation list \<Rightarrow> remote_state \<Rightarrow> remote_state" where
  "outbox_restore batch st =
     (if batch = [] then st
      else let pending = batch @ rs_outbox st
           in st\<lparr>rs_outbox := (if length pending > OUTBOX_CAP then drop (length pending - OUTBOX_CAP) pending else pending)\<rparr>)"

definition to_wire :: "instant \<Rightarrow> pending_observation list \<Rightarrow> wire_observation list" where
  "to_wire now batch =
     map (\<lambda>p. (po_observation p)\<lparr>wo_age_ms := min (nat (now - po_attempted_at p) div 1000000) (2 ^ 64 - 1)\<rparr>) batch"

subsection \<open>One request\<close>

datatype remote_eval_error =
    TransportError string
  | AuthRejected nat string
  | HttpStatus nat string
  | ParseFailed string

fun is_auth_rejection :: "remote_eval_error \<Rightarrow> bool" where
  "is_auth_rejection (AuthRejected _ _) = True"
| "is_auth_rejection _ = False"

fun display_remote_error :: "remote_eval_error \<Rightarrow> string" where
  "display_remote_error (TransportError detail) = ''request failed: '' @ detail"
| "display_remote_error (AuthRejected status body) = ''daemon returned '' @ digits_of_nat status @ '': '' @ body"
| "display_remote_error (HttpStatus status body) = ''daemon returned '' @ digits_of_nat status @ '': '' @ body"
| "display_remote_error (ParseFailed detail) = ''response parse failed: '' @ detail"

text \<open>A reply that did not come, or its status and body.\<close>

datatype reply = NoReply string | Reply nat string

record remote_config =
  rm_url :: "string option"
  rm_token_set :: bool
  rm_restart :: bool
  rm_token_file :: "nat \<Rightarrow> string + string"
  rm_spawn :: "string option"
  rm_exchange :: "nat \<Rightarrow> string \<Rightarrow> wire_observation list \<Rightarrow> reply"
  rm_from_json :: "string \<Rightarrow> string + json"
  rm_clock :: "nat \<Rightarrow> instant"
  rm_infinity :: f64

definition classify_reply :: "(string \<Rightarrow> string + json) \<Rightarrow> reply \<Rightarrow> remote_eval_error + json" where
  "classify_reply from_json r =
     (case r of
        NoReply detail \<Rightarrow> Inl (TransportError detail)
      | Reply status body \<Rightarrow>
          if \<not> (200 \<le> status \<and> status < 300)
          then Inl (if status = 401 \<or> status = 403 then AuthRejected status body else HttpStatus status body)
          else case from_json body of Inl e \<Rightarrow> Inl (ParseFailed e) | Inr v \<Rightarrow> Inr v)"

subsection \<open>The decision in the reply\<close>

fun as_f64 :: "json \<Rightarrow> f64 option" where
  "as_f64 (JPosInt n) = Some (of_nat n)"
| "as_f64 (JNegInt i) = Some (of_int i)"
| "as_f64 (JFloat x) = Some x"
| "as_f64 _ = None"

definition field :: "json \<Rightarrow> string \<Rightarrow> json" where
  "field v k = (case json_get v k of Some x \<Rightarrow> x | None \<Rightarrow> JNull)"

definition str_or :: "string \<Rightarrow> json \<Rightarrow> string" where
  "str_or d v = (case as_str v of Some s \<Rightarrow> s | None \<Rightarrow> d)"

text \<open>\<open>Duration::from_secs_f64\<close> panics on a negative argument and beyond 64 bits of seconds.\<close>

datatype 'a parsed = Parsed 'a | ParseError string | ParsePanic

definition wire_severity :: "string \<Rightarrow> severity" where
  "wire_severity s =
     (if s = ''Critical'' \<or> s = ''critical'' then SevCritical
      else if s = ''Error'' \<or> s = ''error'' then SevError
      else if s = ''Warning'' \<or> s = ''warning'' then Warning
      else Notice)"

definition wire_filter_result :: "json \<Rightarrow> filter_result option" where
  "wire_filter_result fr =
     Option.bind (as_str (field fr ''filter_name'')) (\<lambda>name.
     Option.bind (as_bool (field fr ''matched'')) (\<lambda>matched.
     Option.bind (as_f64 (field fr ''score'')) (\<lambda>score.
       Some \<lparr> filter_name = name, fr_matched = matched, fr_score = score, rule_id = str_or [] (field fr ''rule_id''),
              fr_severity = wire_severity (str_or ''Notice'' (field fr ''severity'')),
              fr_message = str_or [] (field fr ''message''), metadata = (\<lambda>_. None) \<rparr>)))"

definition wire_action :: "string \<Rightarrow> proxy_action option" where
  "wire_action a =
     (if a = ''allow'' then Some Allow
      else case strip_prefix ''deny:'' a of
          Some reason \<Rightarrow> Some (Deny reason)
        | None \<Rightarrow>
            if prefix ''queue:'' a
            then Some (Queue (if str_contains a ''Critical'' then PrioCritical
                              else if str_contains a ''High'' then PrioHigh
                              else if str_contains a ''Medium'' then PrioMedium else PrioLow))
            else None)"

definition parse_daemon_decision :: "json \<Rightarrow> proxy_decision parsed" where
  "parse_daemon_decision body =
     (case as_f64 (field body ''composite_score'') of
        None \<Rightarrow> ParseError ''missing composite_score''
      | Some score \<Rightarrow>
     (case as_str (field body ''action'') of
        None \<Rightarrow> ParseError ''missing action''
      | Some a \<Rightarrow>
     (case wire_action a of
        None \<Rightarrow> ParseError (''unknown action: '' @ a)
      | Some act \<Rightarrow>
          let ms = (case as_f64 (field body ''evaluation_time_ms'') of Some x \<Rightarrow> x | None \<Rightarrow> 0)
          in if ms < 0 \<or> ms / 1000 \<ge> 2 ^ 64 then ParsePanic
             else Parsed \<lparr> action = act, composite_score = score,
                    filter_results = List.map_filter wire_filter_result (case as_array (field body ''filter_results'') of Some xs \<Rightarrow> xs | None \<Rightarrow> []),
                    evaluation_time = nat (round_half_even (ms * 1000000)),
                    decision_reason = str_or [] (field body ''decision_reason'') \<rparr>)))"

definition remote_proxy_evaluate :: "remote_config \<Rightarrow> string \<Rightarrow> remote_state \<Rightarrow> (remote_eval_error + proxy_decision) option \<times> remote_state" where
  "remote_proxy_evaluate cfg token st0 =
     (let (batch, st) = outbox_take st0;
          n = length (rs_requests st);
          wire = to_wire (rm_clock cfg n) batch;
          result = classify_reply (rm_from_json cfg) (rm_exchange cfg n token wire);
          log = (\<lambda>ok. st\<lparr>rs_requests := rs_requests st @ [\<lparr> rq_token = token, rq_batch = batch, rq_wire = wire, rq_acknowledged = ok \<rparr>]\<rparr>)
      in case result of
           Inr body \<Rightarrow>
             (case parse_daemon_decision body of
                Parsed d \<Rightarrow> (Some (Inr d), log True)
              | ParseError e \<Rightarrow> (Some (Inl (ParseFailed e)), log True)
              | ParsePanic \<Rightarrow> (None, log True))
         | Inl e \<Rightarrow> (Some (Inl e), outbox_restore batch (log False)))"

subsection \<open>The fail-closed evaluation\<close>

definition DAEMON_RESTART_RETRY_COOLDOWN :: duration where
  "DAEMON_RESTART_RETRY_COOLDOWN = secs 60"

definition DAEMON_UNREACHABLE_REASON :: string where
  "DAEMON_UNREACHABLE_REASON = ''daemon_unreachable''"

definition daemon_unreachable_decision :: "f64 \<Rightarrow> string \<Rightarrow> proxy_decision" where
  "daemon_unreachable_decision infinity error =
     \<lparr> action = Deny DAEMON_UNREACHABLE_REASON, composite_score = infinity, filter_results = [], evaluation_time = 0,
       decision_reason = ''Daemon unreachable; operation denied for safety: '' @ error \<rparr>"

definition was_evaluated :: "proxy_decision \<Rightarrow> bool" where
  "was_evaluated d \<longleftrightarrow> (case action d of Deny reason \<Rightarrow> reason \<noteq> DAEMON_UNREACHABLE_REASON | _ \<Rightarrow> True)"

definition take_attempt :: "instant \<Rightarrow> remote_state \<Rightarrow> bool \<times> remote_state" where
  "take_attempt now st =
     (if (case rs_last_attempt st of Some t \<Rightarrow> nat (now - t) < DAEMON_RESTART_RETRY_COOLDOWN | None \<Rightarrow> False) then (False, st)
      else (True, st\<lparr>rs_last_attempt := Some now\<rparr>))"

definition note_success :: "remote_config \<Rightarrow> remote_state \<Rightarrow> remote_state" where
  "note_success cfg st = (if rm_restart cfg then st\<lparr>rs_last_attempt := None\<rparr> else st)"

definition reload_rotated_token :: "string + string \<Rightarrow> string \<Rightarrow> remote_state \<Rightarrow> string option \<times> remote_state" where
  "reload_rotated_token file just_used st =
     (case file of
        Inl _ \<Rightarrow> (None, st)
      | Inr text \<Rightarrow>
          let fresh = trim text
          in if fresh = [] \<or> fresh = just_used then (None, st) else (Some fresh, st\<lparr>rs_token := fresh\<rparr>))"

definition attempt_daemon_restart :: "remote_config \<Rightarrow> string + string" where
  "attempt_daemon_restart cfg =
     (case rm_spawn cfg of
        Some e \<Rightarrow> Inl e
      | None \<Rightarrow> map_sum id trim (rm_token_file cfg 1))"

definition try_restart :: "remote_config \<Rightarrow> instant \<Rightarrow> remote_eval_error \<Rightarrow> remote_state \<Rightarrow> proxy_decision option \<times> remote_state" where
  "try_restart cfg now e st =
     (let unreachable = (\<lambda>e. Some (daemon_unreachable_decision (rm_infinity cfg) (display_remote_error e)))
      in if \<not> rm_restart cfg then (unreachable e, st)
         else case take_attempt now st of
             (False, st) \<Rightarrow> (unreachable e, st)
           | (True, st) \<Rightarrow>
               (case attempt_daemon_restart cfg of
                  Inl _ \<Rightarrow> (unreachable e, st)
                | Inr new_token \<Rightarrow>
                    (case remote_proxy_evaluate cfg new_token (st\<lparr>rs_token := new_token\<rparr>) of
                       (Some (Inr d), st) \<Rightarrow> (Some d, st)
                     | (Some (Inl retry_error), st) \<Rightarrow> (unreachable retry_error, st)
                     | (None, st) \<Rightarrow> (None, st))))"

text \<open>The result \<open>None\<close> is the panic of \<open>from_secs_f64\<close>.\<close>

definition evaluate_remotely :: "remote_config \<Rightarrow> instant \<Rightarrow> remote_state \<Rightarrow> proxy_decision option \<times> remote_state" where
  "evaluate_remotely cfg now st0 =
     (let current = rs_token st0
      in case remote_proxy_evaluate cfg current st0 of
           (None, st) \<Rightarrow> (None, st)
         | (Some (Inr d), st) \<Rightarrow> (Some d, note_success cfg st)
         | (Some (Inl e), st) \<Rightarrow>
             if is_auth_rejection e \<and> rm_restart cfg
             then (case reload_rotated_token (rm_token_file cfg 0) current st of
                     (None, st) \<Rightarrow> try_restart cfg now e st
                   | (Some fresh, st) \<Rightarrow>
                       (case remote_proxy_evaluate cfg fresh st of
                          (None, st) \<Rightarrow> (None, st)
                        | (Some (Inr d), st) \<Rightarrow> (Some d, note_success cfg st)
                        | (Some (Inl _), st) \<Rightarrow> try_restart cfg now e st))
             else try_restart cfg now e st)"

definition daemon_mode :: "remote_config \<Rightarrow> bool" where
  "daemon_mode cfg \<longleftrightarrow> rm_url cfg \<noteq> None \<and> rm_token_set cfg"

definition evaluate_proxy ::
    "remote_config \<Rightarrow> (tool_call_context \<Rightarrow> 'p \<Rightarrow> proxy_decision \<times> 'p) \<Rightarrow> instant \<Rightarrow> tool_call_context \<Rightarrow>
     remote_state \<times> 'p \<Rightarrow> proxy_decision option \<times> remote_state \<times> 'p" where
  "evaluate_proxy cfg proxy now ctx s =
     (if daemon_mode cfg
      then let (d, r) = evaluate_remotely cfg now (fst s) in (d, r, snd s)
      else let (d, p) = proxy ctx (snd s) in (Some d, fst s, p))"

definition pending_of :: "tool_call_context \<Rightarrow> call_outcome \<Rightarrow> instant \<Rightarrow> pending_observation" where
  "pending_of ctx outcome attempted =
     \<lparr> po_observation =
         \<lparr> wo_call_id = ctx_id ctx,
           wo_scope = (case session_scope ctx of Some s \<Rightarrow> as_uuid s | None \<Rightarrow> session_id ctx),
           wo_session_id = session_id ctx, wo_call_type = call_type ctx, wo_profile_name = profile_name ctx,
           wo_arguments = arguments ctx, wo_outcome = outcome, wo_age_ms = 0 \<rparr>,
       po_attempted_at = attempted \<rparr>"

definition observe_proxy_outcome ::
    "remote_config \<Rightarrow> (tool_call_context \<Rightarrow> call_outcome \<Rightarrow> duration \<Rightarrow> 'p \<Rightarrow> 'p) \<Rightarrow> instant \<Rightarrow> tool_call_context \<Rightarrow>
     call_outcome \<Rightarrow> instant \<Rightarrow> remote_state \<times> 'p \<Rightarrow> remote_state \<times> 'p" where
  "observe_proxy_outcome cfg observe now ctx outcome attempt_start s =
     (if daemon_mode cfg
      then (outbox_push (pending_of ctx outcome attempt_start) (fst s), snd s)
      else (fst s, observe ctx outcome (nat (now - attempt_start)) (snd s)))"

definition flush_observations :: "remote_config \<Rightarrow> string \<Rightarrow> remote_state \<Rightarrow> remote_state" where
  "flush_observations cfg token st0 =
     (let (batch, st) = outbox_take st0
      in if batch = [] then st
         else let n = length (rs_requests st);
                  wire = to_wire (rm_clock cfg n) batch;
                  ok = (case rm_exchange cfg n token wire of NoReply _ \<Rightarrow> False | Reply status _ \<Rightarrow> 200 \<le> status \<and> status < 300);
                  st = st\<lparr>rs_requests := rs_requests st @ [\<lparr> rq_token = token, rq_batch = batch, rq_wire = wire, rq_acknowledged = ok \<rparr>]\<rparr>
              in if ok then st else outbox_restore batch st)"

subsection \<open>What is sent and what is decided\<close>

text \<open>A request takes everything that waits, and keeps it when the daemon did not acknowledge it.\<close>

lemma remote_proxy_evaluate_log:
  "rs_requests (snd (remote_proxy_evaluate cfg token st)) =
     rs_requests st @ [\<lparr> rq_token = token, rq_batch = rs_outbox st,
       rq_wire = to_wire (rm_clock cfg (length (rs_requests st))) (rs_outbox st),
       rq_acknowledged = (\<exists>body. classify_reply (rm_from_json cfg)
          (rm_exchange cfg (length (rs_requests st)) token (to_wire (rm_clock cfg (length (rs_requests st))) (rs_outbox st))) = Inr body) \<rparr>]"
  by (simp add: remote_proxy_evaluate_def outbox_take_def outbox_restore_def Let_def split: sum.splits parsed.splits)

definition decided_by :: "remote_config \<Rightarrow> nat \<Rightarrow> proxy_decision \<Rightarrow> bool" where
  "decided_by cfg n d \<longleftrightarrow>
     (\<exists>token wire body. classify_reply (rm_from_json cfg) (rm_exchange cfg n token wire) = Inr body \<and> parse_daemon_decision body = Parsed d)"

lemma remote_proxy_evaluate_decided:
  "remote_proxy_evaluate cfg token st = (Some (Inr d), st') \<Longrightarrow> decided_by cfg (length (rs_requests st)) d"
  unfolding remote_proxy_evaluate_def decided_by_def outbox_take_def Let_def
  by (fastforce split: sum.splits parsed.splits)

lemma remote_proxy_evaluate_count:
  "remote_proxy_evaluate cfg token st = (r, st') \<Longrightarrow> length (rs_requests st') = Suc (length (rs_requests st))"
  using remote_proxy_evaluate_log [of cfg token st] by simp

lemma helpers_keep_requests [simp]:
  "rs_requests (note_success cfg st) = rs_requests st"
  "rs_requests (snd (take_attempt now st)) = rs_requests st"
  "rs_requests (snd (reload_rotated_token file tok st)) = rs_requests st"
  "rs_requests (outbox_push p st) = rs_requests st"
  by (simp_all add: note_success_def take_attempt_def reload_rotated_token_def outbox_push_def Let_def split: sum.splits)

definition closed_decision :: "remote_config \<Rightarrow> nat \<Rightarrow> nat \<Rightarrow> proxy_decision \<Rightarrow> bool" where
  "closed_decision cfg lo hi d \<longleftrightarrow> (\<exists>n. lo \<le> n \<and> n < hi \<and> decided_by cfg n d) \<or> (\<exists>e. d = daemon_unreachable_decision (rm_infinity cfg) e)"

lemma closed_decisionI:
  "remote_proxy_evaluate cfg token st = (Some (Inr d), st') \<Longrightarrow> lo \<le> length (rs_requests st) \<Longrightarrow> hi = length (rs_requests st') \<Longrightarrow>
   closed_decision cfg lo hi d"
  unfolding closed_decision_def using remote_proxy_evaluate_decided remote_proxy_evaluate_count by fastforce

lemma try_restart_closed:
  assumes "try_restart cfg now e st = (Some d, st')" and "lo \<le> length (rs_requests st)"
  shows "closed_decision cfg lo (length (rs_requests st')) d \<and> length (rs_requests st') \<le> Suc (length (rs_requests st))"
proof -
  obtain taken st1 where t: "take_attempt now st = (taken, st1)" by (cases "take_attempt now st")
  have r1: "rs_requests st1 = rs_requests st" using helpers_keep_requests(2) [of now st] by (simp add: t)
  have un: "closed_decision cfg lo hi (daemon_unreachable_decision (rm_infinity cfg) x)" for hi x by (auto simp: closed_decision_def)
  show ?thesis
  proof (cases "attempt_daemon_restart cfg")
    case (Inl x)
    then show ?thesis using assms r1 un by (auto simp: try_restart_def t split: if_splits bool.splits)
  next
    case (Inr tok)
    obtain r st2 where e: "remote_proxy_evaluate cfg tok (st1\<lparr>rs_token := tok\<rparr>) = (r, st2)" by fastforce
    note c = remote_proxy_evaluate_count [OF e]
    consider "\<not> (rm_restart cfg \<and> taken)" | x where "rm_restart cfg" taken "r = Some (Inl x)"
      | "rm_restart cfg" taken "r = Some (Inr d)"
      using assms(1) Inr e
      by (cases taken; cases "rm_restart cfg"; cases r; simp add: try_restart_def t Let_def)
        (auto simp: try_restart_def t Let_def split: sum.splits)
    then show ?thesis
    proof cases
      case 3
      then have last: "remote_proxy_evaluate cfg tok (st1\<lparr>rs_token := tok\<rparr>) = (Some (Inr d), st')"
        using assms(1) Inr e by (simp add: try_restart_def t)
      show ?thesis
        using closed_decisionI [OF last, of lo "length (rs_requests st')"] assms r1 remote_proxy_evaluate_count [OF last] by simp
    qed (use assms r1 un c Inr e in \<open>auto simp: try_restart_def t split: bool.splits if_splits\<close>)
  qed
qed

lemma closed_decision_mono: "closed_decision cfg lo hi d \<Longrightarrow> lo' \<le> lo \<Longrightarrow> hi \<le> hi' \<Longrightarrow> closed_decision cfg lo' hi' d"
  unfolding closed_decision_def by (meson le_trans less_le_trans)

lemma evaluate_remotely_closed:
  assumes "evaluate_remotely cfg now st = (Some d, st')"
  shows "closed_decision cfg (length (rs_requests st)) (length (rs_requests st')) d \<and>
     length (rs_requests st') \<le> length (rs_requests st) + 3"
proof -
  let ?n = "length (rs_requests st)"
  obtain r st1 where e1: "remote_proxy_evaluate cfg (rs_token st) st = (r, st1)" by fastforce
  note c1 = remote_proxy_evaluate_count [OF e1]
  obtain f st2 where re: "reload_rotated_token (rm_token_file cfg 0) (rs_token st) st1 = (f, st2)" by fastforce
  have r2: "rs_requests st2 = rs_requests st1" using helpers_keep_requests(3) [of "rm_token_file cfg 0" "rs_token st" st1] by (simp add: re)
  consider (ok) d' where "r = Some (Inr d')" | (dead) "r = None" | (again) e where "r = Some (Inl e)" by (metis option.exhaust sum.exhaust)
  then show ?thesis
  proof cases
    case ok
    then show ?thesis using assms e1 c1 by (auto simp: evaluate_remotely_def intro: closed_decisionI)
  next
    case dead
    then show ?thesis using assms e1 by (simp add: evaluate_remotely_def)
  next
    case again
    show ?thesis
    proof (cases "is_auth_rejection e \<and> rm_restart cfg")
      case False
      then have "try_restart cfg now e st1 = (Some d, st')" using assms e1 again
        by (cases "is_auth_rejection e"; cases "rm_restart cfg"; simp add: evaluate_remotely_def)
      from try_restart_closed [OF this, of ?n] show ?thesis using c1 by simp
    next
      case True
      show ?thesis
      proof (cases f)
        case None
        then have "try_restart cfg now e st2 = (Some d, st')" using assms e1 again True re by (simp add: evaluate_remotely_def)
        from try_restart_closed [OF this, of ?n] show ?thesis using c1 r2 by simp
      next
        case (Some fresh)
        obtain r' st3 where e3: "remote_proxy_evaluate cfg fresh st2 = (r', st3)" by fastforce
        note c3 = remote_proxy_evaluate_count [OF e3]
        consider (ok) "r' = Some (Inr d)" "st' = note_success cfg st3" | (again') "try_restart cfg now e st3 = (Some d, st')"
          using assms e1 again True re Some e3 by (auto simp: evaluate_remotely_def split: option.splits sum.splits)
        then show ?thesis
        proof cases
          case ok
          then show ?thesis using e3 c3 c1 r2 closed_decisionI [of cfg fresh st2 d st3 ?n "length (rs_requests st3)"] by simp
        next
          case again'
          from try_restart_closed [OF this, of ?n] show ?thesis using c1 c3 r2 by simp
        qed
      qed
    qed
  qed
qed

text \<open>
  C22. With a daemon configured, the local proxy is never consulted, and a decision comes from one of at
  most three replies of the daemon or is the denial for an unreachable daemon.
\<close>

theorem daemon_mode_fails_closed:
  assumes "daemon_mode cfg" and "evaluate_proxy cfg proxy now ctx (r, p) = (Some d, r', p')"
  shows "p' = p \<and> length (rs_requests r') \<le> length (rs_requests r) + 3 \<and>
     ((\<exists>n < length (rs_requests r'). length (rs_requests r) \<le> n \<and> decided_by cfg n d) \<or>
      (\<exists>e. d = daemon_unreachable_decision (rm_infinity cfg) e))"
proof -
  have "evaluate_remotely cfg now r = (Some d, r')" and "p' = p"
    using assms by (auto simp: evaluate_proxy_def case_prod_beta prod_eq_iff)
  from evaluate_remotely_closed [OF this(1)] this(2) show ?thesis by (auto simp: closed_decision_def)
qed

definition silent_daemon :: remote_config where
  "silent_daemon =
     \<lparr> rm_url = Some ''http://127.0.0.1:9'', rm_token_set = True, rm_restart = True, rm_token_file = (\<lambda>_. Inr ''t2''), rm_spawn = None,
       rm_exchange = (\<lambda>_ _ _. NoReply ''connection refused''), rm_from_json = (\<lambda>_. Inr JNull), rm_clock = (\<lambda>_. 0), rm_infinity = 1000 \<rparr>"

definition remote_initial :: "string \<Rightarrow> remote_state" where
  "remote_initial token = \<lparr> rs_token = token, rs_last_attempt = None, rs_outbox = [], rs_dropped = 0, rs_requests = [] \<rparr>"

lemma silent_daemon_denies:
  "evaluate_proxy silent_daemon (\<lambda>_ p. (daemon_unreachable_decision 0 [], p)) 0 ctx (remote_initial ''t'', ()) =
     (Some (daemon_unreachable_decision 1000 ''request failed: connection refused''),
      snd (evaluate_remotely silent_daemon 0 (remote_initial ''t'')), ())"
  by (simp add: evaluate_proxy_def daemon_mode_def silent_daemon_def evaluate_remotely_def remote_proxy_evaluate_def remote_initial_def
      outbox_take_def outbox_restore_def classify_reply_def try_restart_def take_attempt_def attempt_daemon_restart_def Let_def)

definition plain_call :: tool_call_context where
  "plain_call = context_new 0 0 ''supervisor:dev'' (FileRead ''/w/a'') 1"

theorem daemon_mode_fails_closed_witness:
  "\<exists>d r'. evaluate_proxy silent_daemon (\<lambda>_ p. (daemon_unreachable_decision 0 [], p)) 0 plain_call (remote_initial ''t'', ()) = (Some d, r', ()) \<and>
     length (rs_requests r') \<le> length (rs_requests (remote_initial ''t'')) + 3 \<and> \<not> was_evaluated d"
  using daemon_mode_fails_closed [OF _ silent_daemon_denies [of plain_call]] silent_daemon_denies [of plain_call]
  by (auto simp: daemon_mode_def silent_daemon_def was_evaluated_def daemon_unreachable_decision_def)

subsection \<open>Observations arrive in order and once\<close>

datatype remote_op = RemoteEvaluate instant | RemoteObserve pending_observation | RemoteFlush

fun remote_step :: "remote_config \<Rightarrow> remote_op \<Rightarrow> remote_state \<Rightarrow> remote_state" where
  "remote_step cfg (RemoteEvaluate now) st = snd (evaluate_remotely cfg now st)"
| "remote_step cfg (RemoteObserve p) st = outbox_push p st"
| "remote_step cfg RemoteFlush st = flush_observations cfg (rs_token st) st"

definition remote_run :: "remote_config \<Rightarrow> remote_op list \<Rightarrow> remote_state \<Rightarrow> remote_state" where
  "remote_run cfg ops st = fold (remote_step cfg) ops st"

definition observed :: "remote_op list \<Rightarrow> pending_observation list" where
  "observed ops = List.map_filter (\<lambda>op. case op of RemoteObserve p \<Rightarrow> Some p | _ \<Rightarrow> None) ops"

definition acknowledged :: "remote_state \<Rightarrow> pending_observation list" where
  "acknowledged st = concat (map rq_batch (filter rq_acknowledged (rs_requests st)))"

definition history :: "remote_state \<Rightarrow> pending_observation list" where
  "history st = acknowledged st @ rs_outbox st"

text \<open>What a request leaves: the same history, in an outbox no longer than before.\<close>

definition kept :: "remote_state \<Rightarrow> remote_state \<Rightarrow> bool" where
  "kept st st' \<longleftrightarrow>
     history st' = history st \<and> length (rs_outbox st') \<le> length (rs_outbox st) \<and> rs_dropped st' = rs_dropped st"

lemma kept_refl [simp]: "kept st st"
  by (simp add: kept_def)

lemma kept_trans: "kept a b \<Longrightarrow> kept b c \<Longrightarrow> kept a c"
  by (auto simp: kept_def)

lemma kept_history_fields: "rs_requests st' = rs_requests st \<Longrightarrow> rs_outbox st' = rs_outbox st \<Longrightarrow> rs_dropped st' = rs_dropped st \<Longrightarrow> kept st st'"
  by (simp add: kept_def history_def acknowledged_def)

lemma kept_local [simp]:
  "kept st (note_success cfg st)"
  "kept st (snd (take_attempt now st))"
  "kept st (snd (reload_rotated_token file tok st))"
  "kept st (st\<lparr>rs_token := tok\<rparr>)"
  by (auto intro!: kept_history_fields simp: note_success_def take_attempt_def reload_rotated_token_def Let_def split: sum.splits)

lemma kept_request: "length (rs_outbox st) \<le> OUTBOX_CAP \<Longrightarrow> kept st (snd (remote_proxy_evaluate cfg token st))"
  by (auto simp: kept_def history_def acknowledged_def remote_proxy_evaluate_def outbox_take_def outbox_restore_def Let_def
      split: sum.splits parsed.splits)

lemma kept_flush: "length (rs_outbox st) \<le> OUTBOX_CAP \<Longrightarrow> kept st (flush_observations cfg token st)"
  by (auto simp: kept_def history_def acknowledged_def flush_observations_def outbox_take_def outbox_restore_def Let_def
      split: reply.splits)

lemma kept_cap: "kept st st' \<Longrightarrow> length (rs_outbox st) \<le> OUTBOX_CAP \<Longrightarrow> length (rs_outbox st') \<le> OUTBOX_CAP"
  by (auto simp: kept_def)

lemma kept_try_restart:
  assumes "length (rs_outbox st) \<le> OUTBOX_CAP"
  shows "kept st (snd (try_restart cfg now e st))"
proof -
  obtain taken st1 where t: "take_attempt now st = (taken, st1)" by fastforce
  have k1: "kept st st1" using kept_local(2) [of st now] by (simp add: t)
  show ?thesis
  proof (cases "attempt_daemon_restart cfg")
    case (Inl x)
    then show ?thesis using k1 by (auto simp: try_restart_def t Let_def split: bool.splits)
  next
    case (Inr tok)
    let ?st = "st1\<lparr>rs_token := tok\<rparr>"
    obtain r st2 where e: "remote_proxy_evaluate cfg tok ?st = (r, st2)" by fastforce
    have k: "kept st ?st" using kept_trans [OF k1] kept_local(4) by blast
    have k2: "kept st st2"
      using kept_trans [OF k kept_request [OF kept_cap [OF k assms]], of cfg tok] by (simp add: e)
    show ?thesis using k1 k2 Inr e by (auto simp: try_restart_def t Let_def split: bool.splits option.splits sum.splits)
  qed
qed

lemma kept_evaluate_remotely:
  assumes "length (rs_outbox st) \<le> OUTBOX_CAP"
  shows "kept st (snd (evaluate_remotely cfg now st))"
proof -
  obtain r st1 where e1: "remote_proxy_evaluate cfg (rs_token st) st = (r, st1)" by fastforce
  have k1: "kept st st1" using kept_request [OF assms, of cfg "rs_token st"] by (simp add: e1)
  obtain f st2 where re: "reload_rotated_token (rm_token_file cfg 0) (rs_token st) st1 = (f, st2)" by fastforce
  have k2: "kept st st2" using kept_trans [OF k1 kept_local(3)] re by (metis snd_conv)
  note done1 = kept_trans [OF k1 kept_local(1)] kept_trans [OF k1 kept_try_restart [OF kept_cap [OF k1 assms]]]
    and done2 = kept_trans [OF k2 kept_try_restart [OF kept_cap [OF k2 assms]]]
  have three: "kept st st3 \<and> kept st (note_success cfg st3) \<and> kept st (snd (try_restart cfg now e st3))"
    if "remote_proxy_evaluate cfg tok st2 = (r3, st3)" for tok r3 st3 e
  proof -
    have k3: "kept st st3" using kept_trans [OF k2 kept_request [OF kept_cap [OF k2 assms]], of cfg tok] that by simp
    then show ?thesis using kept_trans [OF k3 kept_local(1)] kept_trans [OF k3 kept_try_restart [OF kept_cap [OF k3 assms]]] by simp
  qed
  show ?thesis
    using k1 done1 done2 three re by (auto simp: evaluate_remotely_def e1 split: option.splits sum.splits prod.splits)
qed

text \<open>
  C23. Over any sequence of evaluations, observations and flushes: what the daemon acknowledged, followed
  by what still waits, is a subsequence of what was observed, in that order; exactly the counted
  drops are missing; and at most \<open>OUTBOX_CAP\<close> observations wait.
\<close>

theorem observations_in_order_and_once:
  "let st = remote_run cfg ops (remote_initial token)
   in subseq (acknowledged st @ rs_outbox st) (observed ops) \<and>
      length (observed ops) = length (acknowledged st @ rs_outbox st) + rs_dropped st \<and>
      length (rs_outbox st) \<le> OUTBOX_CAP"
proof (induction ops rule: rev_induct)
  case Nil
  show ?case by (simp add: remote_run_def remote_initial_def acknowledged_def observed_def map_filter_simps)
next
  case (snoc op ops)
  let ?st = "remote_run cfg ops (remote_initial token)"
  have ih: "subseq (history ?st) (observed ops)" "length (observed ops) = length (history ?st) + rs_dropped ?st"
      "length (rs_outbox ?st) \<le> OUTBOX_CAP"
    using snoc by (simp_all add: Let_def history_def)
  have run: "remote_run cfg (ops @ [op]) (remote_initial token) = remote_step cfg op ?st" by (simp add: remote_run_def)
  have still: "observed (ops @ [op]) = observed ops" if "\<forall>p. op \<noteq> RemoteObserve p"
    using that by (cases op) (simp_all add: observed_def map_filter_def)
  have "subseq (history (remote_step cfg op ?st)) (observed (ops @ [op])) \<and>
      length (observed (ops @ [op])) = length (history (remote_step cfg op ?st)) + rs_dropped (remote_step cfg op ?st) \<and>
      length (rs_outbox (remote_step cfg op ?st)) \<le> OUTBOX_CAP"
  proof (cases op)
    case (RemoteEvaluate now)
    with kept_evaluate_remotely [OF ih(3), of cfg now] still ih show ?thesis by (simp add: kept_def)
  next
    case RemoteFlush
    with kept_flush [OF ih(3), of cfg "rs_token ?st"] still ih show ?thesis by (simp add: kept_def)
  next
    case (RemoteObserve p)
    have o: "observed (ops @ [RemoteObserve p]) = observed ops @ [p]" by (simp add: observed_def map_filter_def)
    show ?thesis
    proof (cases "length (rs_outbox ?st) \<ge> OUTBOX_CAP")
      case False
      then have "history (remote_step cfg op ?st) = history ?st @ [p]"
        using RemoteObserve by (simp add: history_def acknowledged_def outbox_push_def)
      then show ?thesis using ih False RemoteObserve by (simp add: o list_emb_append_mono outbox_push_def)
    next
      case True
      obtain q rest where q: "rs_outbox ?st = q # rest" using True by (cases "rs_outbox ?st") (simp_all add: OUTBOX_CAP_def)
      have h: "history (remote_step cfg op ?st) = acknowledged ?st @ rest @ [p]"
        using RemoteObserve True q by (simp add: history_def acknowledged_def outbox_push_def)
      have "subseq (acknowledged ?st @ rest) (history ?st)" by (auto simp: history_def q subseq_append')
      then have "subseq (acknowledged ?st @ rest) (observed ops)" using ih(1) by (rule subseq_order.trans)
      then have "subseq (history (remote_step cfg op ?st)) (observed ops @ [p])"
        unfolding h append_assoc [symmetric] by (intro list_emb_append_mono) auto
      then show ?thesis using ih True RemoteObserve q h by (simp add: o history_def outbox_push_def OUTBOX_CAP_def)
    qed
  qed
  then show ?case by (simp add: run Let_def history_def)
qed

end
