(* ===== verification/Authority_Delegation.thy ===== *)
theory Authority_Delegation
  imports Session_Grants
begin

section \<open>Calls that hand authority to an unsupervised peer\<close>

text \<open>
  \<open>crates/grith-supervisor/src/supervisor/authority_delegation.rs\<close> and \<open>spawn_families.rs\<close>:
  binaries and sockets through which a supervised tool could make a process outside supervision
  act for it, and the escalations that turn an allow into a review. Environment variables are the
  argument \<open>env\<close>; the hash of a file comes from the record \<open>fs\<close>. The hashes of the pinned binaries
  are computed by a thread that is joined on first use; the model computes them at once.
\<close>

subsection \<open>Sockets\<close>

definition strip_or_self :: "string \<Rightarrow> string \<Rightarrow> string" where
  "strip_or_self p s = (case strip_prefix p s of Some r \<Rightarrow> r | None \<Rightarrow> s)"

definition socket_path :: "string \<Rightarrow> string" where
  "socket_path address = to_lowercase (strip_or_self ''unix:'' address)"

definition is_control_injection_socket :: "string \<Rightarrow> bool" where
  "is_control_injection_socket address =
     (let path = strip_or_self ''@'' (socket_path address)
      in list_ex (str_contains path) [''/tmux-'', ''/.x11-unix/'', ''/screen/'', ''/dbus-'', ''/dbus/''] \<or>
         (prefix ''/run/user/'' path \<and> suffix ''/bus'' path))"

definition is_display_socket :: "string \<Rightarrow> bool" where
  "is_display_socket address =
     (let path = strip_or_self ''@'' (socket_path address)
      in str_contains path ''/.x11-unix/'' \<or> (prefix ''/run/user/'' path \<and> prefix ''wayland-'' (last_component path)))"

datatype clipboard_direction = AlwaysWrites | AlwaysReads | WritesUnless "string list" | ReadsUnless "string list"

definition DESKTOP_ROUTINE_BINARIES :: "(string \<times> clipboard_direction) list" where
  "DESKTOP_ROUTINE_BINARIES =
     [(''xclip'', WritesUnless [''-o'', ''-out'']),
      (''xsel'', ReadsUnless [''-i'', ''--input'', ''-a'', ''--append'', ''-c'', ''--clear'']),
      (''wl-copy'', AlwaysWrites), (''wl-paste'', AlwaysReads), (''pbcopy'', AlwaysWrites), (''pbpaste'', AlwaysReads)]"

definition SYSTEM_BINARY_ROOTS :: "string list" where
  "SYSTEM_BINARY_ROOTS =
     [''/usr/bin/'', ''/bin/'', ''/usr/local/bin/'', ''/usr/sbin/'', ''/sbin/'', ''/nix/store/'',
      ''/home/linuxbrew/.linuxbrew/bin/'', ''/opt/homebrew/bin/'']"

definition command_basename :: "string \<Rightarrow> string" where
  "command_basename command = (case path_file_name command of Some n \<Rightarrow> n | None \<Rightarrow> command)"

definition read_proc_cmdline :: "fs \<Rightarrow> u32 \<Rightarrow> string list option" where
  "read_proc_cmdline fs pid =
     (case fs_read fs (''/proc/'' @ digits_of_nat (unat pid) @ ''/cmdline'') of
        None \<Rightarrow> None
      | Some raw \<Rightarrow> if raw = [] then None else Some (filter (\<lambda>c. c \<noteq> []) (split_on (CHR 0x00) raw)))"

fun clipboard_invocation_writes :: "clipboard_direction \<Rightarrow> string list \<Rightarrow> bool" where
  "clipboard_invocation_writes AlwaysWrites argv = True"
| "clipboard_invocation_writes AlwaysReads argv = False"
| "clipboard_invocation_writes (WritesUnless read_flags) argv = (\<not> list_ex (\<lambda>a. a \<in> set read_flags) (drop 1 argv))"
| "clipboard_invocation_writes (ReadsUnless write_flags) argv = list_ex (\<lambda>a. a \<in> set write_flags) (drop 1 argv)"

definition is_routine_desktop_connect :: "fs \<Rightarrow> string \<Rightarrow> u32 \<Rightarrow> bool" where
  "is_routine_desktop_connect fs address pid =
     (if \<not> is_display_socket address then False
      else case canonicalize_ok fs (''/proc/'' @ digits_of_nat (unat pid) @ ''/exe'') of
          None \<Rightarrow> False
        | Some path \<Rightarrow>
            if \<not> starts_with_any SYSTEM_BINARY_ROOTS path then False
            else (case map_of DESKTOP_ROUTINE_BINARIES (command_basename path) of
                None \<Rightarrow> False
              | Some direction \<Rightarrow>
                  (case read_proc_cmdline fs pid of None \<Rightarrow> False | Some argv \<Rightarrow> clipboard_invocation_writes direction argv)))"

definition control_socket_entry_covers :: "string \<Rightarrow> string \<Rightarrow> bool" where
  "control_socket_entry_covers path entry =
     (let e = to_lowercase (trim_end_slashes entry)
      in if e = [] then False
         else path = e \<or>
              (\<not> prefix ''@'' path \<and> \<not> prefix ''@'' e \<and> prefix e path \<and>
               length e < length path \<and> path ! length e = CHR ''/''))"

definition control_socket_permitted :: "string \<Rightarrow> string list \<Rightarrow> bool" where
  "control_socket_permitted address permit \<longleftrightarrow> list_ex (control_socket_entry_covers (socket_path address)) permit"

definition control_socket_should_escalate :: "string \<Rightarrow> string list \<Rightarrow> bool" where
  "control_socket_should_escalate address permit \<longleftrightarrow>
     is_control_injection_socket address \<and> \<not> control_socket_permitted address permit"

subsection \<open>Binaries\<close>

definition AUTHORITY_DELEGATING_BINARIES :: "string list" where
  "AUTHORITY_DELEGATING_BINARIES =
     [''docker'', ''podman'', ''nerdctl'', ''kubectl'', ''tmux'', ''screen'', ''systemctl'', ''systemd-run'', ''run0'',
      ''dbus-send'', ''gdbus'', ''busctl'', ''qdbus'', ''qdbus-qt5'', ''qdbus-qt6'', ''qdbus6'', ''at'', ''batch'', ''crontab'',
      ''flatpak'', ''nsenter'', ''machinectl'', ''loginctl'']"

definition is_authority_delegating_binary :: "string \<Rightarrow> bool" where
  "is_authority_delegating_binary command \<longleftrightarrow> command_basename command \<in> set AUTHORITY_DELEGATING_BINARIES"

definition matched_delegating_name :: "string \<Rightarrow> string option \<Rightarrow> string option" where
  "matched_delegating_name command canonical =
     (if is_authority_delegating_binary command then Some (command_basename command)
      else case canonical of
          Some p \<Rightarrow> if is_authority_delegating_binary p then Some (command_basename p) else None
        | None \<Rightarrow> None)"

text \<open>The files behind the names on the search path, each once, with their sizes.\<close>

fun candidate_loop :: "fs \<Rightarrow> string list \<Rightarrow> (string \<times> nat) list \<Rightarrow> string list \<Rightarrow> (string \<times> nat) list" where
  "candidate_loop fs seen out [] = out"
| "candidate_loop fs seen out (p # ps) =
     (case canonicalize_ok fs p of
        None \<Rightarrow> candidate_loop fs seen out ps
      | Some canonical \<Rightarrow>
          if \<not> is_authority_delegating_binary canonical \<or> canonical \<in> set seen then candidate_loop fs seen out ps
          else (case fs_stat fs canonical of
              Some st \<Rightarrow>
                if st_is_file st \<and> (bit (st_mode st) 0 \<or> bit (st_mode st) 3 \<or> bit (st_mode st) 6)
                then candidate_loop fs (canonical # seen) (out @ [(canonical, st_len st)]) ps
                else candidate_loop fs (canonical # seen) out ps
            | None \<Rightarrow> candidate_loop fs (canonical # seen) out ps))"

definition candidates_from_path :: "fs \<Rightarrow> string \<Rightarrow> (string \<times> nat) list" where
  "candidates_from_path fs path_var =
     candidate_loop fs [] []
       (concat (map (\<lambda>name. map (\<lambda>dir. path_push dir name) (split_on CHR '':'' path_var)) AUTHORITY_DELEGATING_BINARIES))"

record authority_delegating_pins =
  pin_sizes :: "nat list"
  pin_hashes :: "string list"

definition pins_resolve :: "fs \<Rightarrow> (string \<Rightarrow> string option) \<Rightarrow> bool \<Rightarrow> authority_delegating_pins" where
  "pins_resolve fs env enabled =
     (let candidates = (if enabled then candidates_from_path fs (case env ''PATH'' of Some v \<Rightarrow> v | None \<Rightarrow> []) else [])
      in \<lparr> pin_sizes = map snd candidates, pin_hashes = List.map_filter (\<lambda>(p, _). fs_sha256 fs p) candidates \<rparr>)"

definition hashes_for :: "fs \<Rightarrow> authority_delegating_pins \<Rightarrow> string \<Rightarrow> string option \<Rightarrow> string option \<Rightarrow> string list" where
  "hashes_for fs pins command canonical sha =
     (if pin_sizes pins = [] \<or> sha = None then []
      else if matched_delegating_name command canonical \<noteq> None then []
      else case Option.bind canonical (fs_stat fs) of
          Some st \<Rightarrow> if st_len st \<in> set (pin_sizes pins) then pin_hashes pins else []
        | None \<Rightarrow> pin_hashes pins)"

definition env_override :: "(string \<Rightarrow> string option) \<Rightarrow> string \<Rightarrow> bool option" where
  "env_override env var =
     (case env var of
        Some v \<Rightarrow> if trim v = [] then None else Some (to_lowercase (trim v) \<notin> {''0'', ''false'', ''no''})
      | None \<Rightarrow> None)"

definition enforcement_enabled :: "(string \<Rightarrow> string option) \<Rightarrow> string \<Rightarrow> bool \<Rightarrow> bool" where
  "enforcement_enabled env var config_flag = (case env_override env var of Some b \<Rightarrow> b | None \<Rightarrow> config_flag)"

definition spawn_enforcement_enabled :: "(string \<Rightarrow> string option) \<Rightarrow> bool \<Rightarrow> bool" where
  "spawn_enforcement_enabled env config_flag = enforcement_enabled env ''GRITH_ENFORCE_AUTHORITY_DELEGATING_SPAWN'' config_flag"

definition control_socket_enforcement_enabled :: "(string \<Rightarrow> string option) \<Rightarrow> bool \<Rightarrow> bool" where
  "control_socket_enforcement_enabled env config_flag = enforcement_enabled env ''GRITH_ENFORCE_CONTROL_SOCKET_CONNECT'' config_flag"

definition dbus_inspection_enabled :: "(string \<Rightarrow> string option) \<Rightarrow> bool \<Rightarrow> bool" where
  "dbus_inspection_enabled env config_flag = enforcement_enabled env ''GRITH_DBUS_MESSAGE_INSPECTION'' config_flag"

definition spawn_permitted :: "string \<Rightarrow> string list \<Rightarrow> bool" where
  "spawn_permitted command permit \<longleftrightarrow> list_ex (\<lambda>p. command_basename p = command_basename command) permit"

definition spawn_permitted_full :: "string \<Rightarrow> string option \<Rightarrow> string list \<Rightarrow> bool" where
  "spawn_permitted_full command canonical permit \<longleftrightarrow>
     spawn_permitted command permit \<or> (case canonical of Some p \<Rightarrow> spawn_permitted p permit | None \<Rightarrow> False)"

subsection \<open>Read-only invocations\<close>

record subcommand_policy_rec =
  sp_read_only :: "string list"
  sp_delegating :: "string list"
  sp_delegating_flags :: "string list"
  sp_value_flags :: "string list"
  sp_options_only_is_read_only :: bool

definition FLATPAK_POLICY :: subcommand_policy_rec where
  "FLATPAK_POLICY =
     \<lparr> sp_read_only = [''list'', ''info'', ''ps'', ''history'', ''remotes'', ''remote-info'', ''remote-ls'', ''search'', ''documents'',
         ''permissions'', ''permission-show'', ''permission-list''],
       sp_delegating = [''run'', ''enter'', ''install'', ''update'', ''upgrade'', ''uninstall'', ''override'', ''make-current'', ''mask'',
         ''repair'', ''kill'', ''remote-add'', ''remote-modify'', ''remote-delete'', ''config'', ''permission-set'', ''permission-reset'',
         ''permission-remove'', ''create-usb'', ''build'', ''build-init'', ''build-finish'', ''build-export'', ''build-bundle'',
         ''build-import-bundle'', ''build-sign'', ''build-update-repo'', ''build-commit-from''],
       sp_delegating_flags = [], sp_value_flags = [''--installation'', ''--arch''], sp_options_only_is_read_only = True \<rparr>"

definition CONTAINER_POLICY :: subcommand_policy_rec where
  "CONTAINER_POLICY =
     \<lparr> sp_read_only = [''ps'', ''images'', ''info'', ''version'', ''inspect'', ''logs'', ''top'', ''stats'', ''port'', ''diff'', ''history'',
         ''events'', ''search''],
       sp_delegating = [''run'', ''exec'', ''create'', ''start'', ''restart'', ''stop'', ''kill'', ''pause'', ''unpause'', ''rm'', ''rmi'',
         ''build'', ''buildx'', ''cp'', ''commit'', ''attach'', ''import'', ''load'', ''save'', ''export'', ''rename'', ''update'', ''push'',
         ''pull'', ''tag'', ''login'', ''compose'', ''service'', ''swarm'', ''node'', ''stack'', ''plugin'', ''secret'', ''config'',
         ''container'', ''image'', ''volume'', ''network'', ''system'', ''context'', ''builder'', ''manifest'', ''trust'', ''wait''],
       sp_delegating_flags = [],
       sp_value_flags = [''-H'', ''--host'', ''--context'', ''--config'', ''-l'', ''--log-level'', ''--tlscacert'', ''--tlscert'', ''--tlskey''],
       sp_options_only_is_read_only = True \<rparr>"

definition KUBECTL_POLICY :: subcommand_policy_rec where
  "KUBECTL_POLICY =
     \<lparr> sp_read_only = [''get'', ''describe'', ''logs'', ''top'', ''explain'', ''api-resources'', ''api-versions'', ''version'', ''cluster-info'',
         ''events''],
       sp_delegating = [''exec'', ''run'', ''apply'', ''create'', ''delete'', ''edit'', ''patch'', ''replace'', ''scale'', ''autoscale'',
         ''rollout'', ''port-forward'', ''proxy'', ''cp'', ''attach'', ''drain'', ''cordon'', ''uncordon'', ''taint'', ''label'', ''annotate'',
         ''set'', ''expose'', ''wait'', ''debug'', ''certificate'', ''config'', ''auth'', ''diff''],
       sp_delegating_flags = [],
       sp_value_flags = [''-n'', ''--namespace'', ''--context'', ''--cluster'', ''--kubeconfig'', ''-s'', ''--server'', ''--user'', ''--token'',
         ''--as'', ''--request-timeout'', ''--cache-dir''],
       sp_options_only_is_read_only = True \<rparr>"

definition SYSTEMCTL_POLICY :: subcommand_policy_rec where
  "SYSTEMCTL_POLICY =
     \<lparr> sp_read_only = [''status'', ''show'', ''list-units'', ''list-unit-files'', ''is-active'', ''is-enabled'', ''is-failed'',
         ''is-system-running'', ''cat'', ''get-default'', ''list-timers'', ''list-sockets'', ''list-jobs'', ''list-dependencies'',
         ''list-machines'', ''list-paths'', ''list-automounts'', ''show-environment'', ''help''],
       sp_delegating = [''start'', ''stop'', ''restart'', ''try-restart'', ''reload'', ''reload-or-restart'', ''enable'', ''disable'',
         ''reenable'', ''preset'', ''preset-all'', ''mask'', ''unmask'', ''kill'', ''set-property'', ''set-default'', ''isolate'',
         ''daemon-reload'', ''daemon-reexec'', ''edit'', ''revert'', ''reset-failed'', ''add-wants'', ''add-requires'', ''link'',
         ''switch-root'', ''kexec'', ''reboot'', ''poweroff'', ''halt'', ''suspend'', ''hibernate'', ''hybrid-sleep'', ''emergency'',
         ''rescue'', ''default'', ''set-environment'', ''unset-environment'', ''import-environment''],
       sp_delegating_flags = [],
       sp_value_flags = [''-t'', ''--type'', ''--state'', ''-p'', ''--property'', ''-M'', ''--machine'', ''-H'', ''--host'', ''--root'',
         ''--when'', ''--signal'', ''-s'', ''--job-mode''],
       sp_options_only_is_read_only = True \<rparr>"

definition TMUX_POLICY :: subcommand_policy_rec where
  "TMUX_POLICY =
     \<lparr> sp_read_only = [''list-sessions'', ''ls'', ''list-windows'', ''lsw'', ''list-panes'', ''lsp'', ''list-clients'', ''lsc'',
         ''list-commands'', ''lscm'', ''list-keys'', ''lsk'', ''list-buffers'', ''lsb'', ''show-options'', ''show'', ''show-window-options'',
         ''showw'', ''show-environment'', ''showenv'', ''display-message'', ''display'', ''info'', ''has-session'', ''has''],
       sp_delegating = [''new-session'', ''new'', ''new-window'', ''neww'', ''send-keys'', ''send'', ''split-window'', ''splitw'',
         ''run-shell'', ''run'', ''attach-session'', ''attach'', ''at'', ''respawn-pane'', ''respawnp'', ''respawn-window'', ''respawnw'',
         ''if-shell'', ''command-prompt'', ''source-file'', ''source'', ''set-hook'', ''pipe-pane'', ''pipep''],
       sp_delegating_flags = [''-c''], sp_value_flags = [''-f'', ''-L'', ''-S''], sp_options_only_is_read_only = False \<rparr>"

definition subcommand_policy :: "string \<Rightarrow> subcommand_policy_rec option" where
  "subcommand_policy bin =
     (if bin = ''flatpak'' then Some FLATPAK_POLICY
      else if bin \<in> {''docker'', ''podman'', ''nerdctl''} then Some CONTAINER_POLICY
      else if bin = ''kubectl'' then Some KUBECTL_POLICY
      else if bin = ''systemctl'' then Some SYSTEMCTL_POLICY
      else if bin = ''tmux'' then Some TMUX_POLICY
      else None)"

fun subcommand_loop :: "string list \<Rightarrow> string list \<Rightarrow> string option" where
  "subcommand_loop value_flags [] = None"
| "subcommand_loop value_flags (tok # rest) =
     (if tok = ''--'' then (case rest of [] \<Rightarrow> None | t # _ \<Rightarrow> Some t)
      else if prefix ''-'' tok then subcommand_loop value_flags (if tok \<in> set value_flags then drop 1 rest else rest)
      else Some tok)"

definition subcommand :: "string list \<Rightarrow> string list \<Rightarrow> string option" where
  "subcommand args value_flags = subcommand_loop value_flags (drop 1 args)"

definition is_delegating_token :: "subcommand_policy_rec \<Rightarrow> string \<Rightarrow> bool" where
  "is_delegating_token policy tok \<longleftrightarrow>
     tok \<in> set (sp_delegating policy) \<or> tok \<in> set (sp_delegating_flags policy) \<or>
     takeWhile (\<lambda>c. c \<noteq> CHR ''='') tok \<in> set (sp_delegating_flags policy)"

definition invocation_is_read_only :: "string \<Rightarrow> string list \<Rightarrow> bool" where
  "invocation_is_read_only bin args =
     (case subcommand_policy bin of
        None \<Rightarrow> False
      | Some policy \<Rightarrow>
          if list_ex (is_delegating_token policy) args then False
          else (case subcommand args (sp_value_flags policy) of
              None \<Rightarrow> sp_options_only_is_read_only policy
            | Some s \<Rightarrow> s \<in> set (sp_read_only policy)))"

definition hash_is_pinned :: "string option \<Rightarrow> string list \<Rightarrow> bool" where
  "hash_is_pinned sha pinned_hashes = (case sha of Some h \<Rightarrow> h \<in> set pinned_hashes | None \<Rightarrow> False)"

definition spawn_should_escalate_full ::
    "string \<Rightarrow> string list \<Rightarrow> string option \<Rightarrow> string option \<Rightarrow> string list \<Rightarrow> string list \<Rightarrow> bool" where
  "spawn_should_escalate_full command args canonical sha permit pinned_hashes =
     (case matched_delegating_name command canonical of
        Some name \<Rightarrow> \<not> invocation_is_read_only name args \<and> \<not> spawn_permitted_full command canonical permit
      | None \<Rightarrow> hash_is_pinned sha pinned_hashes)"

definition spawn_should_escalate :: "string \<Rightarrow> string list \<Rightarrow> string list \<Rightarrow> bool" where
  "spawn_should_escalate command args permit = spawn_should_escalate_full command args None None permit []"

definition spawn_targets_delegating_binary ::
    "string \<Rightarrow> string list \<Rightarrow> string option \<Rightarrow> string option \<Rightarrow> string list \<Rightarrow> bool" where
  "spawn_targets_delegating_binary command args canonical sha pinned_hashes =
     (case matched_delegating_name command canonical of
        Some name \<Rightarrow> \<not> invocation_is_read_only name args
      | None \<Rightarrow> hash_is_pinned sha pinned_hashes)"

subsection \<open>ssh to the own host and synthesised input\<close>

definition ssh_value_flags :: "string \<Rightarrow> string" where
  "ssh_value_flags tool =
     (if tool = ''ssh'' then ''BbcDEeFIiJLlmOopQRSWw'' else if tool = ''scp'' then ''cDFiJloPS''
      else if tool = ''sftp'' then ''BbcDFiJloPRSsX'' else [])"

definition host_is_loopback :: "string \<Rightarrow> bool" where
  "host_is_loopback host =
     (let h = trim host
      in if h = [] then False
         else if eq_ignore_ascii_case h ''localhost'' then True
         else case parse_ip h of
             None \<Rightarrow> False
           | Some ip \<Rightarrow> ip_is_loopback ip \<or> (case to_ipv4_mapped ip of Some v4 \<Rightarrow> ip_is_loopback v4 | None \<Rightarrow> False))"

definition strip_user :: "string \<Rightarrow> string" where
  "strip_user token = (case rsplit_once CHR ''@'' token of Some (_, r) \<Rightarrow> r | None \<Rightarrow> token)"

definition remote_spec_host :: "string \<Rightarrow> string option" where
  "remote_spec_host token =
     (let rest = strip_user token
      in case strip_prefix ''['' rest of
          Some after_bracket \<Rightarrow> (let host = takeWhile (\<lambda>c. c \<noteq> CHR '']'') after_bracket in if host = [] then None else Some host)
        | None \<Rightarrow>
            if parse_ip rest \<noteq> None then Some rest
            else if CHR '':'' \<notin> set rest then None
            else (let host = takeWhile (\<lambda>c. c \<noteq> CHR '':'') rest in if CHR ''/'' \<in> set host then None else Some host))"

definition token_is_loopback :: "string \<Rightarrow> bool" where
  "token_is_loopback tok = (case remote_spec_host tok of Some h \<Rightarrow> host_is_loopback h | None \<Rightarrow> False)"

text \<open>The walk over the arguments: options with their values, then the destination or the files.\<close>

fun ssh_destination_loop :: "string \<Rightarrow> bool \<Rightarrow> string list \<Rightarrow> bool" where
  "ssh_destination_loop tool options_ended [] = False"
| "ssh_destination_loop tool options_ended (tok # rest) =
     (if \<not> options_ended \<and> tok = ''--'' then ssh_destination_loop tool True rest
      else if \<not> options_ended \<and> 2 \<le> length tok \<and> prefix ''-'' tok
      then ssh_destination_loop tool False (if length tok = 2 \<and> tok ! 1 \<in> set (ssh_value_flags tool) then drop 1 rest else rest)
      else if tool = ''scp'' then token_is_loopback tok \<or> ssh_destination_loop tool True rest
      else host_is_loopback (case remote_spec_host tok of Some h \<Rightarrow> h | None \<Rightarrow> strip_user tok))"

definition ssh_family_loopback_destination :: "string \<Rightarrow> string list \<Rightarrow> bool" where
  "ssh_family_loopback_destination command args =
     (let tool = command_basename command
      in if tool \<in> {''ssh'', ''scp'', ''sftp''} then ssh_destination_loop tool False args else False)"

definition ssh_loopback_should_escalate :: "string \<Rightarrow> string list \<Rightarrow> string list \<Rightarrow> bool" where
  "ssh_loopback_should_escalate command args permit \<longleftrightarrow>
     ssh_family_loopback_destination command args \<and> \<not> spawn_permitted command permit"

definition INPUT_INJECTION_BINARIES :: "(string \<times> string list) list" where
  "INPUT_INJECTION_BINARIES =
     [(''xdotool'', [''key'', ''keydown'', ''keyup'', ''type'', ''click'', ''mousedown'', ''mouseup'', ''mousemove'', ''mousemove_relative'',
        ''windowactivate'', ''windowfocus'']),
      (''xte'', [''key'', ''keydown'', ''keyup'', ''str'', ''mouseclick'']),
      (''ydotool'', [''key'', ''type'', ''click'', ''mousemove'', ''mousedown'', ''mouseup'']),
      (''dotool'', []), (''wtype'', [])]"

definition first_word :: "string \<Rightarrow> string" where
  "first_word a = (case split_whitespace a of [] \<Rightarrow> a | w # _ \<Rightarrow> w)"

definition is_input_injection_spawn :: "string \<Rightarrow> string list \<Rightarrow> bool" where
  "is_input_injection_spawn command args =
     (let name = command_basename command
      in case map_of INPUT_INJECTION_BINARIES name of
          None \<Rightarrow> False
        | Some verbs \<Rightarrow>
            verbs = [] \<or>
            list_ex (\<lambda>a. (if name = ''xte'' then first_word a else a) \<in> set verbs) (filter (\<lambda>a. \<not> prefix ''-'' a) (drop 1 args)))"

definition input_injection_should_escalate :: "string \<Rightarrow> string list \<Rightarrow> string list \<Rightarrow> bool" where
  "input_injection_should_escalate command args permit \<longleftrightarrow> is_input_injection_spawn command args \<and> \<not> spawn_permitted command permit"

subsection \<open>Families of spawns\<close>

record spawn_family_rec =
  sf_key :: string
  sf_label :: string

datatype flag_rule = KeepWithValue | Keep | DropWithValue | Drop

type_synonym flag_table = "(string list \<times> flag_rule) list"

definition classify_flag :: "flag_table \<Rightarrow> string \<Rightarrow> (string \<times> flag_rule) option" where
  "classify_flag table flag = map_option (\<lambda>(names, rule). (hd names, rule)) (find (\<lambda>(names, _). flag \<in> set names) table)"

text \<open>\<open>split_once('=')\<close>: the flag and its inline value.\<close>

definition split_flag :: "string \<Rightarrow> string \<times> string option" where
  "split_flag token =
     (let flag = takeWhile (\<lambda>c. c \<noteq> CHR ''='') token
      in (flag, if length flag < length token then Some (drop (length flag + 1) token) else None))"

function take_flags_loop :: "flag_table \<Rightarrow> string list \<Rightarrow> string list \<Rightarrow> (string list \<times> string list) option" where
  "take_flags_loop table kept args =
     (case args of
        [] \<Rightarrow> Some (kept, [])
      | token # rest \<Rightarrow>
          if \<not> prefix ''-'' token \<or> token = ''-'' \<or> token = ''--'' then Some (kept, args)
          else
            (let (flag, inline_value) = split_flag token
             in case classify_flag table flag of
                 None \<Rightarrow> None
               | Some (canonical, rule) \<Rightarrow>
                   (case rule of
                      KeepWithValue \<Rightarrow>
                        (case inline_value of
                           Some v \<Rightarrow> take_flags_loop table (kept @ [canonical @ ''='' @ v]) rest
                         | None \<Rightarrow>
                             (case rest of [] \<Rightarrow> None | v # rest' \<Rightarrow> take_flags_loop table (kept @ [canonical @ ''='' @ v]) rest'))
                    | Keep \<Rightarrow> take_flags_loop table (kept @ [canonical]) rest
                    | DropWithValue \<Rightarrow>
                        (case inline_value of
                           Some _ \<Rightarrow> take_flags_loop table kept rest
                         | None \<Rightarrow> (case rest of [] \<Rightarrow> None | _ # rest' \<Rightarrow> take_flags_loop table kept rest'))
                    | Drop \<Rightarrow> take_flags_loop table kept rest)))"
  by pat_completeness auto
termination
  by (relation "measure (\<lambda>(_, _, args). length args)") auto

declare take_flags_loop.simps [simp del]

definition take_flags :: "string list \<Rightarrow> flag_table \<Rightarrow> (string list \<times> string list) option" where
  "take_flags args table = take_flags_loop table [] args"

definition DOCKER_GLOBALS :: flag_table where
  "DOCKER_GLOBALS =
     [([''--host'', ''-H''], KeepWithValue), ([''--context''], KeepWithValue), ([''--config''], KeepWithValue),
      ([''--log-level'', ''-l''], DropWithValue), ([''--debug'', ''-D''], Drop)]"

definition COMPOSE_GLOBALS :: flag_table where
  "COMPOSE_GLOBALS =
     [([''--file'', ''-f''], KeepWithValue), ([''--project-name'', ''-p''], KeepWithValue), ([''--project-directory''], KeepWithValue),
      ([''--env-file''], KeepWithValue), ([''--profile''], KeepWithValue), ([''--progress''], DropWithValue), ([''--ansi''], DropWithValue)]"

definition EXEC_FLAGS :: flag_table where
  "EXEC_FLAGS =
     [([''--user'', ''-u''], KeepWithValue), ([''--privileged''], Keep), ([''-T'', ''--no-TTY''], Drop), ([''--interactive'', ''-i''], Drop),
      ([''--tty'', ''-t''], Drop), ([''--detach'', ''-d''], Drop), ([''--env'', ''-e''], DropWithValue), ([''--workdir'', ''-w''], DropWithValue),
      ([''--index''], DropWithValue)]"

definition OBSERVER_FLAGS :: flag_table where
  "OBSERVER_FLAGS =
     [([''--tail'', ''-n''], DropWithValue), ([''--since''], DropWithValue), ([''--until''], DropWithValue), ([''--follow'', ''-f''], Drop),
      ([''--timestamps'', ''-t''], Drop), ([''--no-color''], Drop), ([''--no-log-prefix''], Drop), ([''--format''], DropWithValue),
      ([''--quiet'', ''-q''], Drop), ([''--all'', ''-a''], Drop), ([''--services''], Drop), ([''--filter''], DropWithValue), ([''--no-trunc''], Drop)]"

definition LIFECYCLE_FLAGS :: flag_table where
  "LIFECYCLE_FLAGS =
     [([''--detach'', ''-d''], Drop), ([''--build''], Drop), ([''--no-build''], Drop), ([''--force-recreate''], Drop), ([''--no-recreate''], Drop),
      ([''--no-deps''], Drop), ([''--remove-orphans''], Drop), ([''--wait''], Drop), ([''--quiet-pull''], Drop), ([''--no-color''], Drop),
      ([''--timeout'', ''-t''], DropWithValue), ([''--pull''], DropWithValue), ([''--no-cache''], Drop)]"

definition exec_family :: "string \<Rightarrow> string \<Rightarrow> string list \<Rightarrow> string list \<Rightarrow> spawn_family_rec option" where
  "exec_family pre target_kind kept_globals args =
     (case take_flags args EXEC_FLAGS of
        Some (kept, target # payload) \<Rightarrow>
          if payload = [] then None
          else Some \<lparr> sf_key = join '' '' ([pre] @ kept_globals @ kept @ [target, ''*'']),
                      sf_label = ''any command in '' @ target_kind @ '' `'' @ target @ ''`'' @
                        (if kept = [] then [] else '' ('' @ join '' '' kept @ '')'') @ '' via `'' @ pre @ ''`, this session'' \<rparr>
      | _ \<Rightarrow> None)"

definition spaced :: "string list \<Rightarrow> string" where
  "spaced ws = (if ws = [] then [] else '' '' @ join '' '' ws)"

definition observer_family :: "string \<Rightarrow> string \<Rightarrow> string list \<Rightarrow> string list \<Rightarrow> spawn_family_rec option" where
  "observer_family pre verb kept_globals args =
     (case take_flags args OBSERVER_FLAGS of
        None \<Rightarrow> None
      | Some (_, rest) \<Rightarrow>
          Some \<lparr> sf_key = join '' '' ([pre] @ kept_globals @ [verb] @ rest),
                 sf_label = ''`'' @ pre @ '' '' @ verb @ spaced rest @ ''` with any display flags, this session'' \<rparr>)"

definition lifecycle_family :: "string \<Rightarrow> string list \<Rightarrow> string list \<Rightarrow> spawn_family_rec option" where
  "lifecycle_family verb kept_globals args =
     (case take_flags args LIFECYCLE_FLAGS of
        None \<Rightarrow> None
      | Some (_, rest) \<Rightarrow>
          Some \<lparr> sf_key = join '' '' ([''compose''] @ kept_globals @ [verb] @ rest),
                 sf_label = ''`docker compose '' @ verb @ spaced rest @ ''` with any orchestration flags, this session'' \<rparr>)"

definition compose_family :: "string list \<Rightarrow> spawn_family_rec option" where
  "compose_family args =
     (case take_flags args COMPOSE_GLOBALS of
        Some (kept, verb # rest) \<Rightarrow>
          if verb = ''exec'' then exec_family ''compose exec'' ''service'' kept rest
          else if verb \<in> {''ps'', ''logs'', ''version'', ''config'', ''top'', ''images'', ''ls'', ''port'', ''events''}
          then observer_family ''compose'' verb kept rest
          else if verb \<in> {''up'', ''down'', ''start'', ''stop'', ''restart'', ''build'', ''pull'', ''create'', ''kill'', ''pause'', ''unpause'', ''wait''}
          then lifecycle_family verb kept rest
          else None
      | _ \<Rightarrow> None)"

definition docker_family :: "string list \<Rightarrow> spawn_family_rec option" where
  "docker_family args =
     (case take_flags args DOCKER_GLOBALS of
        Some (kept, verb # rest) \<Rightarrow>
          if verb = ''compose'' then
            map_option (\<lambda>inner. \<lparr> sf_key = ''docker'' @ spaced kept @ '' '' @ sf_key inner, sf_label = sf_label inner \<rparr>) (compose_family rest)
          else if verb = ''exec'' then exec_family ''docker exec'' ''container'' kept rest
          else if verb \<in> {''ps'', ''version'', ''info'', ''images'', ''top'', ''port'', ''stats'', ''logs'', ''context''}
          then observer_family ''docker'' verb kept rest
          else None
      | _ \<Rightarrow> None)"

text \<open>\<open>rsplit(['/', '\\']).next()\<close>.\<close>

definition family_basename :: "string \<Rightarrow> string" where
  "family_basename path = last (split_at_any is_separator path)"

definition spawn_family :: "string \<Rightarrow> string list \<Rightarrow> spawn_family_rec option" where
  "spawn_family command args =
     (let bin = family_basename command;
          rest = (case args of a # as \<Rightarrow> if family_basename a = bin then as else args | [] \<Rightarrow> args)
      in if bin = ''docker'' then docker_family rest
         else if bin = ''docker-compose'' then
           map_option (\<lambda>inner. \<lparr> sf_key = ''docker '' @ sf_key inner, sf_label = sf_label inner \<rparr>)
             (compose_family (case rest of a # as \<Rightarrow> if a = ''compose'' then as else rest | [] \<Rightarrow> rest))
         else None)"

definition delegating_approval_key :: "tool_call_type \<Rightarrow> string" where
  "delegating_approval_key call =
     (case (case call of ProcessSpawn command args \<Rightarrow> spawn_family command args | _ \<Rightarrow> None) of
        Some family \<Rightarrow> ''delegating-approved:family:'' @ sf_key family
      | None \<Rightarrow> ''delegating-approved:'' @ display_call call)"

text \<open>The two gates before the proxy: name first, then the resolved name, then the bytes.\<close>

definition spawn_delegation_would_enforce :: "fs \<Rightarrow> string list \<Rightarrow> authority_delegating_pins \<Rightarrow> string \<Rightarrow> string list \<Rightarrow> bool" where
  "spawn_delegation_would_enforce fs permit pins command args =
     (if is_authority_delegating_binary command then spawn_should_escalate_full command args None None permit []
      else case canonicalize_ok fs command of
          None \<Rightarrow> False
        | Some canonical \<Rightarrow>
            if is_authority_delegating_binary canonical then spawn_should_escalate_full command args (Some canonical) None permit []
            else if pin_sizes pins = [] then False
            else (case fs_stat fs canonical of
                None \<Rightarrow> False
              | Some st \<Rightarrow>
                  if st_len st \<notin> set (pin_sizes pins) then False
                  else (case fs_sha256 fs canonical of
                      None \<Rightarrow> False
                    | Some sha \<Rightarrow> spawn_should_escalate_full command args (Some canonical) (Some sha) permit (pin_hashes pins))))"

subsection \<open>Escalations\<close>

definition queue_high :: "string \<Rightarrow> proxy_decision \<Rightarrow> proxy_decision" where
  "queue_high reason decision = decision\<lparr> action := Queue PrioHigh, decision_reason := reason \<rparr>"

definition maybe_escalate_spawn_full ::
    "proxy_decision \<Rightarrow> string \<Rightarrow> string list \<Rightarrow> string option \<Rightarrow> string option \<Rightarrow> string list \<Rightarrow> string list \<Rightarrow> bool \<times> proxy_decision" where
  "maybe_escalate_spawn_full decision command args canonical sha permit pinned_hashes =
     (if \<not> spawn_should_escalate_full command args canonical sha permit pinned_hashes \<or> action decision \<noteq> Allow
      then (False, decision)
      else
        (let shown = (case canonical of Some p \<Rightarrow> command_basename p | None \<Rightarrow> command_basename command);
             reason = ''authority-delegating spawn queued for review: `'' @ shown @
               ''` runs its effect in a privileged or unsupervised peer, outside supervision''
         in (True, queue_high (case spawn_family command args of
               Some family \<Rightarrow> reason @ ''; approving covers '' @ sf_label family
             | None \<Rightarrow> reason) decision)))"

definition maybe_escalate_ssh_loopback_spawn :: "proxy_decision \<Rightarrow> string \<Rightarrow> string list \<Rightarrow> string list \<Rightarrow> bool \<times> proxy_decision" where
  "maybe_escalate_ssh_loopback_spawn decision command args permit =
     (if \<not> ssh_loopback_should_escalate command args permit \<or> action decision \<noteq> Allow then (False, decision)
      else (True, queue_high (''ssh-family spawn to a loopback host queued for review: `'' @ command_basename command @
        ''` runs its command via the local sshd, outside supervision'') decision))"

definition maybe_escalate_input_injection_spawn :: "proxy_decision \<Rightarrow> string \<Rightarrow> string list \<Rightarrow> string list \<Rightarrow> bool \<times> proxy_decision" where
  "maybe_escalate_input_injection_spawn decision command args permit =
     (if \<not> input_injection_should_escalate command args permit \<or> action decision \<noteq> Allow then (False, decision)
      else (True, queue_high (''desktop input-injection spawn queued for review: `'' @ command_basename command @
        ''` synthesises keyboard or mouse          input into the operator's session, which executes outside supervision'') decision))"

datatype control_socket_escalation = NotEscalated | Annotated | SocketEscalated

definition maybe_escalate_control_socket :: "proxy_decision \<Rightarrow> string \<Rightarrow> string list \<Rightarrow> control_socket_escalation \<times> proxy_decision" where
  "maybe_escalate_control_socket decision address permit =
     (if \<not> control_socket_should_escalate address permit then (NotEscalated, decision)
      else
        (let reason = ''control-injection IPC socket connect queued for review: `'' @ address @
               ''` can drive a more-privileged peer that runs commands on the tool's behalf''
         in case action decision of
             Allow \<Rightarrow> (SocketEscalated, queue_high reason decision)
           | Queue _ \<Rightarrow>
               (Annotated, decision\<lparr> decision_reason :=
                  (if decision_reason decision = [] then reason else reason @ '' ('' @ decision_reason decision @ '')'') \<rparr>)
           | Deny _ \<Rightarrow> (NotEscalated, decision)))"

subsection \<open>Escalations only tighten\<close>

text \<open>The action stays, or an allow becomes a review of high priority; nothing but the reason changes besides.\<close>

definition tightened :: "proxy_decision \<Rightarrow> proxy_decision \<Rightarrow> bool" where
  "tightened d d' \<longleftrightarrow>
     (action d' = action d \<or> (action d = Allow \<and> action d' = Queue PrioHigh)) \<and>
     d\<lparr> action := action d', decision_reason := decision_reason d' \<rparr> = d'"

lemma tightened_refl: "tightened d d"
  by (simp add: tightened_def)

lemma tightened_trans: "tightened a b \<Longrightarrow> tightened b c \<Longrightarrow> tightened a c"
  by (cases a; cases b; cases c) (auto simp: tightened_def)

lemma tightened_queue_high: "action d = Allow \<Longrightarrow> tightened d (queue_high reason d)"
  by (simp add: tightened_def queue_high_def)

lemma escalations_tighten:
  "tightened d (snd (maybe_escalate_spawn_full d command args canonical sha permit pinned))"
  "tightened d (snd (maybe_escalate_ssh_loopback_spawn d command args permit))"
  "tightened d (snd (maybe_escalate_input_injection_spawn d command args permit))"
  "tightened d (snd (maybe_escalate_control_socket d address permit))"
  by (simp_all add: maybe_escalate_spawn_full_def maybe_escalate_ssh_loopback_spawn_def maybe_escalate_input_injection_spawn_def
      maybe_escalate_control_socket_def tightened_refl tightened_queue_high Let_def split: proxy_action.splits)
    (simp add: tightened_def)

subsection \<open>The gate before the proxy covers the escalation after it\<close>

text \<open>
  A session grant cannot skip an escalation: whenever the escalation after the proxy would queue
  an allowed spawn, the cheaper gate in front of the session allowlist fires too, so the spawn is not
  let through on a grant. The path of the executable resolves and its file can be read and hashed.
\<close>

theorem gate_covers_escalation:
  assumes "canonicalize_ok fs command = Some canonical" and "fs_sha256 fs canonical = Some sha" and "fs_stat fs canonical = Some st"
    and "spawn_should_escalate_full command args (Some canonical) (Some sha) permit (hashes_for fs pins command (Some canonical) (Some sha))"
  shows "spawn_delegation_would_enforce fs permit pins command args"
proof (cases "is_authority_delegating_binary command")
  case True
  then show ?thesis
    using assms(4)
    by (simp add: spawn_delegation_would_enforce_def spawn_should_escalate_full_def matched_delegating_name_def spawn_permitted_full_def)
next
  case raw: False
  show ?thesis
  proof (cases "is_authority_delegating_binary canonical")
    case True
    then show ?thesis
      using assms(1,4) raw
      by (simp add: spawn_delegation_would_enforce_def spawn_should_escalate_full_def matched_delegating_name_def)
  next
    case False
    then have none: "matched_delegating_name command (Some canonical) = None" using raw by (simp add: matched_delegating_name_def)
    have "sha \<in> set (hashes_for fs pins command (Some canonical) (Some sha))"
      using assms(4) by (simp add: spawn_should_escalate_full_def none hash_is_pinned_def)
    then have "pin_sizes pins \<noteq> []" "st_len st \<in> set (pin_sizes pins)" "sha \<in> set (pin_hashes pins)"
      using none assms(3) by (auto simp: hashes_for_def split: if_splits)
    then show ?thesis
      using assms raw False by (simp add: spawn_delegation_would_enforce_def spawn_should_escalate_full_def none hash_is_pinned_def)
  qed
qed

definition docker_copy_fs :: fs where
  "docker_copy_fs = plain_fs\<lparr> fs_stat := (\<lambda>_. Some \<lparr> st_is_file = True, st_mode = 73, st_len = 7 \<rparr>), fs_sha256 := (\<lambda>_. Some ''ab'') \<rparr>"

theorem gate_covers_escalation_witness:
  "spawn_delegation_would_enforce docker_copy_fs [] \<lparr> pin_sizes = [7], pin_hashes = [''ab''] \<rparr> ''/tmp/notdocker'' [''notdocker'', ''run'']"
proof (rule gate_covers_escalation)
  show "canonicalize_ok docker_copy_fs ''/tmp/notdocker'' = Some ''/tmp/notdocker''"
    by (simp add: docker_copy_fs_def plain_fs_def canonicalize_ok_def)
  show "fs_sha256 docker_copy_fs ''/tmp/notdocker'' = Some ''ab''"
    "fs_stat docker_copy_fs ''/tmp/notdocker'' = Some \<lparr> st_is_file = True, st_mode = 73, st_len = 7 \<rparr>"
    by (simp_all add: docker_copy_fs_def)
  show "spawn_should_escalate_full ''/tmp/notdocker'' [''notdocker'', ''run''] (Some ''/tmp/notdocker'') (Some ''ab'') []
          (hashes_for docker_copy_fs \<lparr> pin_sizes = [7], pin_hashes = [''ab''] \<rparr> ''/tmp/notdocker'' (Some ''/tmp/notdocker'') (Some ''ab''))"
    by code_simp
qed

text \<open>
  The table of read-only subcommands can open an escape, against what its comment promises:
  \<open>-o\<close> of \<open>systemctl\<close> takes a value but is not among the value flags, so in \<open>systemctl -o cat
  soft-reboot\<close> the format \<open>cat\<close> is taken for the subcommand and the unknown verb is never looked at.
\<close>

theorem read_only_table_opens_escape:
  "\<not> spawn_should_escalate ''systemctl'' [''systemctl'', ''-o'', ''cat'', ''soft-reboot''] [] \<and>
   spawn_should_escalate ''systemctl'' [''systemctl'', ''soft-reboot''] []"
  by code_simp

subsection \<open>Approvals of families\<close>

text \<open>
  The identity under which an approved delegating call is remembered joins the arguments with blanks,
  so two different argument vectors can share it.
\<close>

lemma approval_key_ambiguous:
  "delegating_approval_key (ProcessSpawn ''tmux'' [''send-keys'', ''ls x'']) =
   delegating_approval_key (ProcessSpawn ''tmux'' [''send-keys'', ''ls'', ''x''])"
  by code_simp

text \<open>The words of a key can be read back when none of them contains a blank.\<close>

definition blank_free :: "string list \<Rightarrow> bool" where
  "blank_free ws \<longleftrightarrow> list_all (\<lambda>w. CHR '' '' \<notin> set w) ws"

lemma join_blank_inj:
  assumes "join '' '' a = join '' '' b" and "blank_free a" and "blank_free b" and "a \<noteq> []" and "b \<noteq> []"
  shows "a = b"
proof -
  have "split_on CHR '' '' (join '' '' a) = a" using split_on_join [OF assms(4) assms(2) [unfolded blank_free_def]] .
  moreover have "split_on CHR '' '' (join '' '' b) = b" using split_on_join [OF assms(5) assms(3) [unfolded blank_free_def]] .
  ultimately show ?thesis using assms(1) by metis
qed

lemma exec_family_key:
  assumes "exec_family pre kind globals args = Some family" and "take_flags args EXEC_FLAGS = Some (kept, target # payload)"
  shows "sf_key family = pre @ '' '' @ join '' '' (globals @ kept @ [target, ''*''])"
proof -
  have "sf_key family = join '' '' ([pre] @ globals @ kept @ [target, ''*''])"
    using assms by (auto simp: exec_family_def simp del: join.simps split: if_splits)
  moreover have "join '' '' ([pre] @ ws) = pre @ '' '' @ join '' '' ws" if "ws \<noteq> []" for ws
    using that by (cases ws) simp_all
  ultimately show ?thesis by simp
qed

text \<open>
  An approval for commands in a container stays with that container: two \<open>exec\<close> calls share a family
  key only if they select the same daemon, user and privileges and name the same container, whatever
  command they run in it. No word of the two keys contains a blank.
\<close>

lemma exec_approval_pins_container:
  assumes "exec_family pre kind globals_a args_a = Some fa" and "take_flags args_a EXEC_FLAGS = Some (kept_a, target_a # payload_a)"
    and "exec_family pre kind globals_b args_b = Some fb" and "take_flags args_b EXEC_FLAGS = Some (kept_b, target_b # payload_b)"
    and "blank_free (globals_a @ kept_a @ [target_a])" and "blank_free (globals_b @ kept_b @ [target_b])"
    and "sf_key fa = sf_key fb"
  shows "target_a = target_b \<and> globals_a @ kept_a = globals_b @ kept_b"
proof -
  have "pre @ '' '' @ join '' '' (globals_a @ kept_a @ [target_a, ''*'']) = pre @ '' '' @ join '' '' (globals_b @ kept_b @ [target_b, ''*''])"
    using exec_family_key [OF assms(1,2)] exec_family_key [OF assms(3,4)] assms(7) by (simp only:)
  then have "join '' '' (globals_a @ kept_a @ [target_a, ''*'']) = join '' '' (globals_b @ kept_b @ [target_b, ''*''])"
    by (simp only: same_append_eq)
  then have "(globals_a @ kept_a) @ [target_a, ''*''] = (globals_b @ kept_b) @ [target_b, ''*'']"
    using join_blank_inj [of "(globals_a @ kept_a) @ [target_a, ''*'']" "(globals_b @ kept_b) @ [target_b, ''*'']"] assms(5,6)
    by (simp add: blank_free_def)
  then have "((globals_a @ kept_a) @ [target_a]) @ [''*''] = ((globals_b @ kept_b) @ [target_b]) @ [''*'']" by simp
  then show ?thesis by (simp only: append1_eq_conv)
qed

end
