(* ===== verification/Reputation.thy ===== *)
theory Reputation
  imports Scoped_Permissions
begin

section \<open>Reputation of operations\<close>

text \<open>
  \<open>crates/grith-proxy/src/reputation.rs\<close> and its use in the event handler
  (\<open>record_reputation_observation\<close>, the automatic allow of a queued call, \<open>event_handler.rs\<close>): Beta
  counts per feature tuple, decayed by the hour, that lower a score or allow a call. The counts are
  rationals; \<open>f64::powf\<close>, whose values are irrational, the parsing of time stamps and the TOML
  format are arguments. The hash map is an association list.
\<close>

record reputation_config =
  rc_enabled :: bool
  rc_decay_lambda :: f64
  rc_deny_weight :: f64
  rc_auto_allow_trust :: f64
  rc_auto_allow_min_observations :: nat
  rc_max_score_reduction :: f64
  rc_ceiling_filter_threshold :: f64
  rc_max_auto_allow_raw_score :: f64
  rc_save_interval_seconds :: nat

definition reputation_config_default :: reputation_config where
  "reputation_config_default =
     \<lparr> rc_enabled = True, rc_decay_lambda = 98 / 100, rc_deny_weight = 3, rc_auto_allow_trust = 92 / 100,
       rc_auto_allow_min_observations = 8, rc_max_score_reduction = 4, rc_ceiling_filter_threshold = 5,
       rc_max_auto_allow_raw_score = 7, rc_save_interval_seconds = 300 \<rparr>"

datatype reputation_outcome = RepApproved f64 | RepDenied f64

record reputation_entry =
  re_alpha :: f64
  re_beta :: f64
  re_last_updated :: string
  re_last_updated_instant :: "instant option"

definition MIN_ALPHA :: f64 where
  "MIN_ALPHA = 1 / 2"

definition MIN_BETA :: f64 where
  "MIN_BETA = 1 / 2"

text \<open>The clocks and the arithmetic of the platform: the time since a stored stamp in seconds, if it parses.\<close>

record rep_clock =
  rk_now :: instant
  rk_utc :: string
  rk_seconds_since :: "string \<Rightarrow> int option"
  rk_powf :: "f64 \<Rightarrow> f64 \<Rightarrow> f64"

definition entry_new :: "rep_clock \<Rightarrow> f64 \<Rightarrow> f64 \<Rightarrow> reputation_entry" where
  "entry_new clock alpha beta =
     \<lparr> re_alpha = max alpha MIN_ALPHA, re_beta = max beta MIN_BETA, re_last_updated = rk_utc clock,
       re_last_updated_instant = Some (rk_now clock) \<rparr>"

definition trust_score :: "reputation_entry \<Rightarrow> f64" where
  "trust_score e = re_alpha e / (re_alpha e + re_beta e)"

definition observation_count :: "reputation_entry \<Rightarrow> f64" where
  "observation_count e = re_alpha e + re_beta e"

definition elapsed_hours :: "rep_clock \<Rightarrow> reputation_entry \<Rightarrow> f64" where
  "elapsed_hours clock e =
     (case re_last_updated_instant e of
        Some past \<Rightarrow> of_int (max 0 (rk_now clock - past)) / 1000000000 / 3600
      | None \<Rightarrow> (case rk_seconds_since clock (re_last_updated e) of Some s \<Rightarrow> of_int (max s 0) / 3600 | None \<Rightarrow> 0))"

definition apply_decay :: "rep_clock \<Rightarrow> f64 \<Rightarrow> reputation_entry \<Rightarrow> reputation_entry" where
  "apply_decay clock decay_lambda e =
     (let hours = elapsed_hours clock e;
          e' = (if hours > 0
                then (let factor = rk_powf clock decay_lambda hours
                      in e\<lparr> re_alpha := max (re_alpha e * factor) MIN_ALPHA, re_beta := max (re_beta e * factor) MIN_BETA \<rparr>)
                else e)
      in e'\<lparr> re_last_updated_instant := Some (rk_now clock) \<rparr>)"

definition entry_observe :: "rep_clock \<Rightarrow> f64 \<Rightarrow> reputation_outcome \<Rightarrow> reputation_entry \<Rightarrow> reputation_entry" where
  "entry_observe clock decay_lambda outcome e =
     (let d = apply_decay clock decay_lambda e;
          d' = (case outcome of RepApproved w \<Rightarrow> d\<lparr> re_alpha := re_alpha d + w \<rparr> | RepDenied w \<Rightarrow> d\<lparr> re_beta := re_beta d + w \<rparr>)
      in d'\<lparr> re_alpha := max (re_alpha d') MIN_ALPHA, re_beta := max (re_beta d') MIN_BETA,
            re_last_updated := rk_utc clock, re_last_updated_instant := Some (rk_now clock) \<rparr>)"

subsection \<open>Keys\<close>

definition SENSITIVE_ROOTS :: "string list" where
  "SENSITIVE_ROOTS =
     [''/.ssh/'', ''/.aws/'', ''/.gnupg/'', ''/.pki/'', ''/.config/gh/'', ''/.kube/'', ''/.docker/'', ''/.config/gcloud/'', ''/.azure/'']"

definition is_sensitive_root :: "string \<Rightarrow> bool" where
  "is_sensitive_root path \<longleftrightarrow> list_ex (str_contains path) SENSITIVE_ROOTS"

definition derive_path_classes :: "string \<Rightarrow> (nat \<times> string) list" where
  "derive_path_classes path =
     (if is_sensitive_root path then [(0, path)]
      else (0, path) # (case path_parent path of
          Some parent \<Rightarrow> if parent \<noteq> [] \<and> parent \<noteq> ''/'' then [(1, parent @ ''/*'')] else []
        | None \<Rightarrow> []))"

definition build_reputation_keys :: "string \<Rightarrow> string \<Rightarrow> string \<Rightarrow> string \<Rightarrow> string \<Rightarrow> (nat \<times> string) list" where
  "build_reputation_keys profile act process destination path =
     (let dest = (if destination = [] then ''*'' else destination); pr = (if process = [] then ''*'' else process);
          key = (\<lambda>pc. profile @ ''|'' @ act @ ''|'' @ pr @ ''|'' @ dest @ ''|'' @ pc)
      in map (\<lambda>(level, pc). (level, key pc)) (derive_path_classes path) @
         (if is_sensitive_root path then [] else [(3, key ''*'')]))"

fun action_name :: "tool_call_type \<Rightarrow> string" where
  "action_name (FileRead _) = ''FileRead''"
| "action_name (FileWrite _ _) = ''FileWrite''"
| "action_name (FileAppend _) = ''FileAppend''"
| "action_name (FileDelete _) = ''FileDelete''"
| "action_name (DirList _) = ''DirList''"
| "action_name (DirCreate _) = ''DirCreate''"
| "action_name (FileRename _ _) = ''FileRename''"
| "action_name (FileLink _ _ _) = ''FileLink''"
| "action_name (FileChmod _ _) = ''FileChmod''"
| "action_name (ShellExec _ _) = ''ShellExec''"
| "action_name (ProcessSpawn _ _) = ''ProcessSpawn''"
| "action_name (HttpRequest _ _) = ''HttpRequest''"
| "action_name (NetConnect _ _) = ''NetConnect''"
| "action_name (NetListen _ _) = ''NetListen''"
| "action_name (DnsQuery _ _) = ''DnsQuery''"
| "action_name (OwnershipChange _ _ _) = ''OwnershipChange''"
| "action_name (FilesystemMutation _ _ _ _) = ''FilesystemMutation''"
| "action_name (CrossProcessAccess _ _) = ''CrossProcessAccess''"
| "action_name (NamespaceOp _ _) = ''NamespaceOp''"
| "action_name (DbusMethodCall _ _ _ _) = ''DbusMethodCall''"

text \<open>The path a ceiling looks at: the writing and the reading operations name one each.\<close>

definition ceiling_path :: "tool_call_type \<Rightarrow> string option" where
  "ceiling_path call =
     (case call of
        FileRead path \<Rightarrow> Some path | FileWrite path _ \<Rightarrow> Some path | FileAppend path \<Rightarrow> Some path | FileDelete path \<Rightarrow> Some path
      | FileChmod path _ \<Rightarrow> Some path | DirCreate path \<Rightarrow> Some path | DirList path \<Rightarrow> Some path | FileRename old_path _ \<Rightarrow> Some old_path
      | _ \<Rightarrow> None)"

definition has_safety_ceiling :: "filter_result list \<Rightarrow> tool_call_type \<Rightarrow> reputation_config \<Rightarrow> bool" where
  "has_safety_ceiling results call config \<longleftrightarrow>
     list_ex (\<lambda>r. fr_matched r \<and> rc_ceiling_filter_threshold config \<le> fr_score r) results \<or>
     list_ex (\<lambda>r. fr_matched r \<and> filter_name r = ''secret-scan'') results \<or>
     (case ceiling_path call of Some p \<Rightarrow> is_sensitive_root p | None \<Rightarrow> False)"

subsection \<open>The table\<close>

type_synonym reputation_table = "(string \<times> reputation_entry) list"

fun table_observe_loop :: "rep_clock \<Rightarrow> reputation_config \<Rightarrow> reputation_outcome \<Rightarrow> reputation_table \<Rightarrow> (nat \<times> string) list \<Rightarrow> reputation_table" where
  "table_observe_loop clock config outcome table [] = table"
| "table_observe_loop clock config outcome table ((_, key) # keys) =
     (let e = (case map_of table key of Some e \<Rightarrow> e | None \<Rightarrow> entry_new clock 1 1)
      in table_observe_loop clock config outcome (assoc_insert key (entry_observe clock (rc_decay_lambda config) outcome e) table) keys)"

definition table_observe :: "rep_clock \<Rightarrow> reputation_config \<Rightarrow> reputation_outcome \<Rightarrow> reputation_table \<Rightarrow> (nat \<times> string) list \<Rightarrow> reputation_table" where
  "table_observe clock config outcome table keys =
     (if rc_enabled config then table_observe_loop clock config outcome table keys else table)"

fun lookup_loop :: "reputation_config \<Rightarrow> reputation_table \<Rightarrow> (nat \<times> string) list \<Rightarrow> (f64 \<times> nat) option" where
  "lookup_loop config table [] = None"
| "lookup_loop config table ((level, key) # keys) =
     (case map_of table key of
        Some e \<Rightarrow> if of_nat (rc_auto_allow_min_observations config) \<le> observation_count e then Some (trust_score e, level)
                  else lookup_loop config table keys
      | None \<Rightarrow> lookup_loop config table keys)"

definition table_lookup :: "reputation_config \<Rightarrow> reputation_table \<Rightarrow> (nat \<times> string) list \<Rightarrow> (f64 \<times> nat) option" where
  "table_lookup config table keys = (if rc_enabled config then lookup_loop config table keys else None)"

definition adjust_score :: "reputation_config \<Rightarrow> reputation_table \<Rightarrow> f64 \<Rightarrow> (nat \<times> string) list \<Rightarrow> bool \<Rightarrow> f64" where
  "adjust_score config table original_score keys ceiling_applies =
     (if \<not> rc_enabled config then original_score
      else case table_lookup config table keys of
          None \<Rightarrow> original_score
        | Some (trust, _) \<Rightarrow>
            if \<not> ceiling_applies \<and> rc_auto_allow_trust config \<le> trust \<and> original_score \<le> rc_max_auto_allow_raw_score config then 0
            else max (original_score - (trust - 1 / 2) * 2 * rc_max_score_reduction config) 0)"

definition or_insert :: "string \<Rightarrow> reputation_entry \<Rightarrow> reputation_table \<Rightarrow> reputation_table" where
  "or_insert key e table = (if map_of table key = None then assoc_insert key e table else table)"

definition seed_key :: "string \<Rightarrow> string \<Rightarrow> string \<Rightarrow> string" where
  "seed_key profile act path = profile @ ''|'' @ act @ ''|*|*|'' @ path"

definition seed_from_profile ::
    "rep_clock \<Rightarrow> string \<Rightarrow> string list \<Rightarrow> string list \<Rightarrow> string list \<Rightarrow> string list \<Rightarrow> reputation_table \<Rightarrow> reputation_table" where
  "seed_from_profile clock profile routine_paths routine_commands routine_destinations readonly_paths table =
     (let strong = entry_new clock 10 (1 / 2);
          t1 = foldl (\<lambda>t p. or_insert (seed_key profile ''FileWrite'' p) strong (or_insert (seed_key profile ''FileRead'' p) strong t)) table routine_paths;
          t2 = foldl (\<lambda>t c. or_insert (seed_key profile ''ProcessSpawn'' c) strong t) t1 routine_commands;
          t3 = foldl (\<lambda>t d. or_insert (seed_key profile ''NetConnect'' d) strong t) t2 routine_destinations
      in foldl (\<lambda>t p. or_insert (seed_key profile ''FileRead'' p) (entry_new clock 8 (1 / 2)) t) t3 readonly_paths)"

text \<open>What \<open>load\<close> keeps of a file, and the merge of \<open>save\<close>; time stamps compare as strings do, by \<open>later\<close>.\<close>

definition sanitise :: "reputation_table \<Rightarrow> reputation_table" where
  "sanitise table =
     map (\<lambda>(k, e). (k, e\<lparr> re_alpha := min (max (re_alpha e) MIN_ALPHA) 10000, re_beta := min (max (re_beta e) MIN_BETA) 10000 \<rparr>))
       (filter (\<lambda>(_, e). \<not> (re_alpha e < 0 \<or> re_beta e < 0)) table)"

definition load_table :: "(string \<Rightarrow> reputation_table option) \<Rightarrow> fs \<Rightarrow> string \<Rightarrow> reputation_table" where
  "load_table of_toml fs path =
     (if \<not> fs_exists fs path then []
      else case fs_read_to_string fs path of
          None \<Rightarrow> []
        | Some content \<Rightarrow> sanitise (case of_toml content of Some t \<Rightarrow> t | None \<Rightarrow> []))"

definition merge_entry :: "(string \<Rightarrow> string \<Rightarrow> bool) \<Rightarrow> reputation_entry \<Rightarrow> reputation_entry \<Rightarrow> reputation_entry" where
  "merge_entry later existing e =
     existing\<lparr> re_alpha := (if re_alpha existing < re_alpha e then re_alpha e else re_alpha existing),
       re_beta := (if re_beta existing < re_beta e then re_beta e else re_beta existing),
       re_last_updated := (if later (re_last_updated e) (re_last_updated existing) then re_last_updated e else re_last_updated existing) \<rparr>"

definition merge_tables :: "(string \<Rightarrow> string \<Rightarrow> bool) \<Rightarrow> reputation_table \<Rightarrow> reputation_table \<Rightarrow> reputation_table" where
  "merge_tables later merged own =
     foldl (\<lambda>m (key, e). assoc_insert key (case map_of m key of Some existing \<Rightarrow> merge_entry later existing e | None \<Rightarrow> e) m) merged own"

subsection \<open>The event handler\<close>

definition implicit_deny_weight :: "reputation_config \<Rightarrow> f64" where
  "implicit_deny_weight config = max (rc_deny_weight config / 3) 1"

definition manual_deny_weight :: "reputation_config \<Rightarrow> f64" where
  "manual_deny_weight config = max (rc_deny_weight config) 1"

definition terminate_deny_weight :: "reputation_config \<Rightarrow> f64" where
  "terminate_deny_weight config = manual_deny_weight config + (manual_deny_weight config - implicit_deny_weight config)"

fun observed_path :: "tool_call_type \<Rightarrow> string option" where
  "observed_path (FileRead path) = Some path"
| "observed_path (FileWrite path _) = Some path"
| "observed_path (FileAppend path) = Some path"
| "observed_path (FileDelete path) = Some path"
| "observed_path (FileChmod path _) = Some path"
| "observed_path (DirList path) = Some path"
| "observed_path (DirCreate path) = Some path"
| "observed_path (FileRename old_path _) = Some old_path"
| "observed_path (OwnershipChange target _ _) = Some target"
| "observed_path (FilesystemMutation _ _ target _) = Some target"
| "observed_path (ProcessSpawn command _) = Some command"
| "observed_path (NetConnect address _) = Some address"
| "observed_path (NetListen address _) = Some address"
| "observed_path (DnsQuery domain _) = Some domain"
| "observed_path _ = None"

definition argument_process :: "json \<Rightarrow> string option" where
  "argument_process args = Option.bind (json_get args ''process'') as_str"

definition argument_destination :: "json \<Rightarrow> string option" where
  "argument_destination args =
     Option.bind (Option.bind (json_get args ''process_args'') as_array)
       (\<lambda>xs. find (\<lambda>a. \<not> prefix ''-'' a \<and> (CHR ''@'' \<in> set a \<or> CHR ''.'' \<in> set a)) (List.map_filter as_str xs))"

definition or_star :: "string option \<Rightarrow> string" where
  "or_star s = (case s of Some v \<Rightarrow> v | None \<Rightarrow> ''*'')"

definition observation_keys :: "string \<Rightarrow> tool_call_type \<Rightarrow> json option \<Rightarrow> string \<Rightarrow> (nat \<times> string) list" where
  "observation_keys profile call ctx_args path =
     (let process = (case Option.bind ctx_args argument_process of
            Some c \<Rightarrow> if c = [] \<or> prefix ''fork-from-'' c then ''*'' else c
          | None \<Rightarrow> ''*'')
      in build_reputation_keys profile (action_name call) process (or_star (Option.bind ctx_args argument_destination)) path)"

text \<open>The local table; with a daemon the same keys are sent to it instead.\<close>

definition record_reputation_observation_with_ctx ::
    "rep_clock \<Rightarrow> reputation_config \<Rightarrow> string \<Rightarrow> tool_call_type \<Rightarrow> reputation_outcome \<Rightarrow> json option \<Rightarrow> reputation_table \<Rightarrow> reputation_table" where
  "record_reputation_observation_with_ctx clock config profile call outcome ctx_args table =
     (if \<not> rc_enabled config then table
      else case observed_path call of
          None \<Rightarrow> table
        | Some path \<Rightarrow> table_observe clock config outcome table (observation_keys profile call ctx_args path))"

definition record_reputation_observation ::
    "rep_clock \<Rightarrow> reputation_config \<Rightarrow> string \<Rightarrow> tool_call_type \<Rightarrow> reputation_outcome \<Rightarrow> reputation_table \<Rightarrow> reputation_table" where
  "record_reputation_observation clock config profile call outcome table =
     record_reputation_observation_with_ctx clock config profile call outcome None table"

record reputation_context =
  rx_trust_score :: f64
  rx_auto_allowed :: bool
  rx_score_reduction :: f64
  rx_key :: string

definition auto_allow_keys :: "string \<Rightarrow> tool_call_type \<Rightarrow> json \<Rightarrow> string \<Rightarrow> (nat \<times> string) list" where
  "auto_allow_keys profile call args path =
     build_reputation_keys profile (action_name call) (or_star (argument_process args)) (or_star (argument_destination args)) path"

text \<open>The part of the handler that allows a queued call on its reputation alone.\<close>

definition reputation_auto_allow ::
    "reputation_config \<Rightarrow> reputation_table \<Rightarrow> string \<Rightarrow> tool_call_type \<Rightarrow> json \<Rightarrow> proxy_decision \<Rightarrow> reputation_context option" where
  "reputation_auto_allow config table profile call args decision =
     (let path = (case observed_path call of Some p \<Rightarrow> p | None \<Rightarrow> []); keys = auto_allow_keys profile call args path
      in if path = [] \<or> has_safety_ceiling (filter_results decision) call config then None
         else (let adjusted = adjust_score config table (composite_score decision) keys False
               in if adjusted \<noteq> 0 then None
                  else Some \<lparr> rx_trust_score = (case table_lookup config table keys of Some (trust, _) \<Rightarrow> trust | None \<Rightarrow> 0),
                              rx_auto_allowed = True, rx_score_reduction = composite_score decision - adjusted,
                              rx_key = (case keys of (_, k) # _ \<Rightarrow> k | [] \<Rightarrow> []) \<rparr>))"

subsection \<open>Counts stay positive\<close>

definition entry_ok :: "reputation_entry \<Rightarrow> bool" where
  "entry_ok e \<longleftrightarrow> 1 / 2 \<le> re_alpha e \<and> 1 / 2 \<le> re_beta e"

definition table_ok :: "reputation_table \<Rightarrow> bool" where
  "table_ok table \<longleftrightarrow> list_all (\<lambda>(_, e). entry_ok e) table"

named_theorems reputation_ok \<open>operations that keep the counts positive\<close>

lemma entry_ok_new [reputation_ok]: "entry_ok (entry_new clock a b)"
  by (simp add: entry_ok_def entry_new_def MIN_ALPHA_def MIN_BETA_def)

lemma entry_ok_observe [reputation_ok]: "entry_ok (entry_observe clock lam outcome e)"
  by (simp add: entry_ok_def entry_observe_def MIN_ALPHA_def MIN_BETA_def Let_def)

lemma table_ok_insert: "entry_ok e \<Longrightarrow> table_ok table \<Longrightarrow> table_ok (assoc_insert key e table)"
  by (induction table) (auto simp: table_ok_def)

lemma table_ok_map_of: "table_ok table \<Longrightarrow> map_of table key = Some e \<Longrightarrow> entry_ok e"
  by (auto simp: table_ok_def list_all_iff dest: map_of_SomeD)

lemma table_ok_observe_loop: "table_ok table \<Longrightarrow> table_ok (table_observe_loop clock config outcome table keys)"
  by (induction clock config outcome table keys rule: table_observe_loop.induct)
    (simp_all add: Let_def table_ok_insert reputation_ok)

lemma table_ok_observe [reputation_ok]: "table_ok table \<Longrightarrow> table_ok (table_observe clock config outcome table keys)"
  by (simp add: table_observe_def table_ok_observe_loop)

lemma table_ok_or_insert: "entry_ok e \<Longrightarrow> table_ok table \<Longrightarrow> table_ok (or_insert key e table)"
  by (simp add: or_insert_def table_ok_insert)

lemma table_ok_fold: "(\<And>t x. table_ok t \<Longrightarrow> table_ok (f t x)) \<Longrightarrow> table_ok t \<Longrightarrow> table_ok (foldl f t xs)"
  by (induction xs arbitrary: t) simp_all

lemma table_ok_seed [reputation_ok]:
  "table_ok table \<Longrightarrow> table_ok (seed_from_profile clock profile paths commands destinations readonly table)"
  unfolding seed_from_profile_def Let_def
  by (intro table_ok_fold table_ok_or_insert reputation_ok)

lemma table_ok_sanitise [reputation_ok]: "table_ok (sanitise table)"
  by (auto simp: sanitise_def table_ok_def list_all_iff entry_ok_def MIN_ALPHA_def MIN_BETA_def)

lemma table_ok_merge [reputation_ok]:
  assumes "table_ok merged" and "table_ok own"
  shows "table_ok (merge_tables later merged own)"
proof -
  have "table_ok (foldl (\<lambda>m (key, e). assoc_insert key (case map_of m key of Some x \<Rightarrow> merge_entry later x e | None \<Rightarrow> e) m) m own)"
    if "table_ok m" for m
    using assms(2) that
  proof (induction own arbitrary: m)
    case (Cons p own)
    obtain key e where p: "p = (key, e)" by (cases p)
    have "entry_ok (case map_of m key of Some x \<Rightarrow> merge_entry later x e | None \<Rightarrow> e)"
      using Cons.prems table_ok_map_of [OF Cons.prems(2)]
      by (auto simp: p table_ok_def merge_entry_def entry_ok_def split: option.splits)
    then show ?case using Cons by (simp add: p table_ok_def table_ok_insert [unfolded table_ok_def])
  qed simp
  then show ?thesis using assms(1) by (simp add: merge_tables_def)
qed

lemma trust_bounds: "entry_ok e \<Longrightarrow> 0 < trust_score e \<and> trust_score e < 1"
  by (simp add: entry_ok_def trust_score_def field_simps)

lemma lookup_loop_entry:
  "lookup_loop config table keys = Some (trust, level) \<Longrightarrow>
   \<exists>key e. (level, key) \<in> set keys \<and> map_of table key = Some e \<and> trust = trust_score e \<and>
     of_nat (rc_auto_allow_min_observations config) \<le> observation_count e"
  by (induction config table keys rule: lookup_loop.induct) (auto split: option.splits if_splits)

subsection \<open>What reputation can allow\<close>

lemma adjust_zero:
  assumes "adjust_score config table score keys capped = 0" and "score > 0" and "table_ok table" and "0 \<le> rc_max_score_reduction config"
  shows "\<exists>trust level. table_lookup config table keys = Some (trust, level) \<and>
    (rc_auto_allow_trust config \<le> trust \<and> score \<le> rc_max_auto_allow_raw_score config \<and> \<not> capped \<or>
     score \<le> (trust - 1 / 2) * 2 * rc_max_score_reduction config)"
  using assms by (auto simp: adjust_score_def max_def split: if_splits option.splits)


text \<open>A clock that stands still, and tables built by a series of observations, for the concrete runs.\<close>

definition still_clock :: rep_clock where
  "still_clock = \<lparr> rk_now = 0, rk_utc = [], rk_seconds_since = (\<lambda>_. None), rk_powf = (\<lambda>_ _. 1) \<rparr>"

definition approved_times :: "nat \<Rightarrow> tool_call_type \<Rightarrow> json \<Rightarrow> reputation_table" where
  "approved_times n call args =
     foldl (\<lambda>t _. record_reputation_observation_with_ctx still_clock reputation_config_default ''dev'' call (RepApproved 1) (Some args) t) [] [0..<n]"

definition queued_with :: "f64 \<Rightarrow> proxy_decision" where
  "queued_with score = \<lparr> action = Queue PrioMedium, composite_score = score, filter_results = [], evaluation_time = 0, decision_reason = [] \<rparr>"

definition git_args :: json where
  "git_args = JObject [(''process'', JString ''git'')]"

lemma approved_times_ok: "table_ok (approved_times n call args)"
  unfolding approved_times_def record_reputation_observation_with_ctx_def
  by (rule table_ok_fold) (simp_all add: reputation_ok split: option.splits, simp add: table_ok_def)

text \<open>An observation changes exactly the entries of its keys.\<close>

lemma observe_loop_map_of:
  "distinct (map snd keys) \<Longrightarrow>
   map_of (table_observe_loop clock config outcome table keys) key =
     (if key \<in> snd ` set keys
      then Some (entry_observe clock (rc_decay_lambda config) outcome (case map_of table key of Some e \<Rightarrow> e | None \<Rightarrow> entry_new clock 1 1))
      else map_of table key)"
  by (induction clock config outcome table keys rule: table_observe_loop.induct) (auto simp: Let_def rev_image_eqI)

definition trusted_entry :: "nat \<Rightarrow> reputation_entry" where
  "trusted_entry n = \<lparr> re_alpha = 1 + of_nat n, re_beta = 1, re_last_updated = [], re_last_updated_instant = Some 0 \<rparr>"

lemma still_approval: "entry_observe still_clock lam (RepApproved 1) (trusted_entry n) = trusted_entry (Suc n)"
  "entry_new still_clock 1 1 = trusted_entry 0"
  by (simp_all add: entry_observe_def apply_decay_def elapsed_hours_def entry_new_def trusted_entry_def still_clock_def MIN_ALPHA_def MIN_BETA_def Let_def)

lemma approved_times_map_of:
  assumes "observed_path call = Some path" and "distinct (map snd (observation_keys ''dev'' call (Some args) path))"
  shows "map_of (approved_times n call args) key =
    (if 0 < n \<and> key \<in> snd ` set (observation_keys ''dev'' call (Some args) path) then Some (trusted_entry n) else None)"
proof (induction n)
  case 0
  show ?case by (simp add: approved_times_def)
next
  case (Suc n)
  have "approved_times (Suc n) call args =
      table_observe_loop still_clock reputation_config_default (RepApproved 1) (approved_times n call args) (observation_keys ''dev'' call (Some args) path)"
    using assms(1) by (simp add: approved_times_def record_reputation_observation_with_ctx_def table_observe_def reputation_config_default_def)
  then show ?case using Suc by (simp add: observe_loop_map_of [OF assms(2)] still_approval)
qed

lemma trusted_lookup:
  assumes "list_ex (\<lambda>(_, k). k \<in> T) keys" and "\<forall>(_, k)\<in>set keys. map_of table k = (if k \<in> T then Some (trusted_entry 11) else None)"
  shows "\<exists>level. table_lookup reputation_config_default table keys = Some (12 / 13, level)"
proof -
  have "\<exists>level. lookup_loop reputation_config_default table keys = Some (12 / 13, level)"
    using assms
    by (induction keys) (auto simp: trusted_entry_def trust_score_def observation_count_def reputation_config_default_def)
  then show ?thesis by (simp add: table_lookup_def reputation_config_default_def)
qed

lemma trusted_auto_allowed:
  assumes "observed_path call = Some path" and "path \<noteq> []" and "ceiling_path call = None \<or> \<not> is_sensitive_root (the (ceiling_path call))"
    and "table_lookup reputation_config_default table (auto_allow_keys profile call args path) = Some (12 / 13, level)"
  shows "\<exists>ctx. reputation_auto_allow reputation_config_default table profile call args (queued_with 6) = Some ctx"
  using assms by (auto simp: reputation_auto_allow_def has_safety_ceiling_def queued_with_def adjust_score_def reputation_config_default_def Let_def
      split: option.splits)

text \<open>Eleven approvals of one call let another call pass if the two share a key.\<close>

lemma eleven_approvals_allow:
  assumes "observed_path call = Some path" and "distinct (map snd (observation_keys ''dev'' call (Some args) path))"
    and "observed_path call' = Some path'" and "path' \<noteq> []" and "ceiling_path call' = None \<or> \<not> is_sensitive_root (the (ceiling_path call'))"
    and "list_ex (\<lambda>(_, k). k \<in> set (map snd (observation_keys ''dev'' call (Some args) path))) (auto_allow_keys ''dev'' call' args path')"
  shows "\<exists>ctx. reputation_auto_allow reputation_config_default (approved_times 11 call args) ''dev'' call' args (queued_with 6) = Some ctx"
proof -
  obtain level where "table_lookup reputation_config_default (approved_times 11 call args) (auto_allow_keys ''dev'' call' args path') = Some (12 / 13, level)"
    using trusted_lookup [OF assms(6), of "approved_times 11 call args"] by (auto simp: approved_times_map_of [OF assms(1,2)])
  from trusted_auto_allowed [OF assms(3-5) this] show ?thesis .
qed

lemma git_reads_trusted:
  "\<exists>ctx. reputation_auto_allow reputation_config_default (approved_times 11 (FileRead ''/p/a'') git_args) ''dev'' (FileRead ''/p/a'') git_args (queued_with 6) = Some ctx"
  by (rule eleven_approvals_allow) (simp, code_simp, simp, simp, code_simp, code_simp)


subsection \<open>A denial takes the trust back\<close>

definition decay_shrinks :: "rep_clock \<Rightarrow> bool" where
  "decay_shrinks clock \<longleftrightarrow> (\<forall>h>0. 0 \<le> rk_powf clock (98 / 100) h \<and> rk_powf clock (98 / 100) h \<le> 1)"

lemma decay_alpha:
  assumes "decay_shrinks clock" and "entry_ok e"
  shows "re_alpha (apply_decay clock (98 / 100) e) \<le> re_alpha e" "1 / 2 \<le> re_beta (apply_decay clock (98 / 100) e)"
proof -
  have "re_alpha e * rk_powf clock (98 / 100) (elapsed_hours clock e) \<le> re_alpha e * 1" if "elapsed_hours clock e > 0"
    using assms that by (intro mult_left_mono) (auto simp: decay_shrinks_def entry_ok_def)
  then show "re_alpha (apply_decay clock (98 / 100) e) \<le> re_alpha e"
    using assms(2) by (simp add: apply_decay_def Let_def entry_ok_def MIN_ALPHA_def)
  show "1 / 2 \<le> re_beta (apply_decay clock (98 / 100) e)"
    using assms(2) by (simp add: apply_decay_def Let_def entry_ok_def MIN_BETA_def max_def)
qed

definition distrusted :: "reputation_entry \<Rightarrow> bool" where
  "distrusted e \<longleftrightarrow> entry_ok e \<and> re_alpha e \<le> 40 \<and> 7 / 2 \<le> re_beta e"

lemma denied_distrusted:
  assumes "decay_shrinks clock" and "entry_ok e" and "re_alpha e \<le> 40"
  shows "distrusted (entry_observe clock (98 / 100) (RepDenied 3) e)"
  using decay_alpha [OF assms(1,2)] assms(3)
  by (simp add: distrusted_def entry_ok_observe) (simp add: entry_observe_def Let_def MIN_ALPHA_def MIN_BETA_def)

lemma distrusted_trust: "distrusted e \<Longrightarrow> trust_score e \<le> 80 / 87"
  by (simp add: distrusted_def entry_ok_def trust_score_def field_simps)

definition few_approvals :: "reputation_table \<Rightarrow> (nat \<times> string) list \<Rightarrow> bool" where
  "few_approvals table keys \<longleftrightarrow> (\<forall>(_, key)\<in>set keys. \<forall>e. map_of table key = Some e \<longrightarrow> re_alpha e \<le> 40)"

lemma observe_loop_distrusted:
  assumes "decay_shrinks clock" and "rc_decay_lambda config = 98 / 100" and "table_ok table"
    and "\<forall>key e. map_of table key = Some e \<longrightarrow> key \<in> K \<longrightarrow> re_alpha e \<le> 40" and "snd ` set keys \<subseteq> K"
    and "\<forall>key\<in>D. \<exists>e. map_of table key = Some e \<and> distrusted e"
  shows "\<forall>key\<in>D \<union> snd ` set keys. \<exists>e. map_of (table_observe_loop clock config (RepDenied 3) table keys) key = Some e \<and> distrusted e"
  using assms(3-6)
proof (induction keys arbitrary: table D)
  case (Cons p keys)
  obtain level key where p: "p = (level, key)" by (cases p)
  define old where "old = (case map_of table key of Some e \<Rightarrow> e | None \<Rightarrow> entry_new clock 1 1)"
  have ok: "entry_ok old" using Cons.prems(1) table_ok_map_of by (auto simp: old_def reputation_ok split: option.splits)
  have small: "re_alpha old \<le> 40"
    using Cons.prems(2,3) by (auto simp: old_def p entry_new_def MIN_ALPHA_def split: option.splits)
  let ?e = "entry_observe clock (98 / 100) (RepDenied 3) old" and ?t = "assoc_insert key (entry_observe clock (98 / 100) (RepDenied 3) old) table"
  have d: "distrusted ?e" by (rule denied_distrusted [OF assms(1) ok small])
  have "\<forall>k\<in>insert key D \<union> snd ` set keys. \<exists>e. map_of (table_observe_loop clock config (RepDenied 3) ?t keys) k = Some e \<and> distrusted e"
    by (rule Cons.IH) (use Cons.prems d in \<open>auto simp: table_ok_insert reputation_ok distrusted_def p\<close>)
  then show ?case by (simp add: p assms(2) Let_def old_def)
qed simp

text \<open>
  One denial by the operator takes the trust of an operation back: as long as no entry of the
  operation has gathered more than 40 approvals, a call that the operator denied is not allowed on
  its reputation afterwards if its score is above 3.36, with the default configuration. The decay
  only shrinks counts and the process of the call is known.
\<close>

theorem operator_denial_revokes:
  assumes "decay_shrinks clock" and "table_ok table" and "observed_path call = Some path"
    and "argument_process args = Some process" and "process \<noteq> []" and "\<not> prefix ''fork-from-'' process"
    and "few_approvals table (auto_allow_keys profile call args path)" and "composite_score decision > 84 / 25"
    and "table' = record_reputation_observation_with_ctx clock reputation_config_default profile call
      (RepDenied (manual_deny_weight reputation_config_default)) (Some args) table"
  shows "reputation_auto_allow reputation_config_default table' profile call args decision = None"
proof -
  let ?keys = "auto_allow_keys profile call args path"
  have keys: "observation_keys profile call (Some args) path = ?keys"
    using assms(4-6) by (simp add: observation_keys_def auto_allow_keys_def or_star_def)
  have w: "manual_deny_weight reputation_config_default = 3" by (simp add: manual_deny_weight_def reputation_config_default_def)
  have t': "table' = table_observe_loop clock reputation_config_default (RepDenied 3) table ?keys"
    using assms(3,9) keys w by (simp add: record_reputation_observation_with_ctx_def table_observe_def reputation_config_default_def)
  have lam: "rc_decay_lambda reputation_config_default = 98 / 100" by (simp add: reputation_config_default_def)
  have "\<forall>key e. map_of table key = Some e \<longrightarrow> key \<in> snd ` set ?keys \<longrightarrow> re_alpha e \<le> 40" using assms(7) by (force simp: few_approvals_def)
  then have all: "\<forall>key\<in>snd ` set ?keys. \<exists>e. map_of table' key = Some e \<and> distrusted e"
    using observe_loop_distrusted [OF assms(1) lam assms(2) _ subset_refl, of ?keys "{}"] unfolding t' by (simp only: Un_empty_left ball_empty simp_thms) blast
  have low: "trust \<le> 80 / 87" if "table_lookup reputation_config_default table' ?keys = Some (trust, level)" for trust level
  proof -
    from that have "lookup_loop reputation_config_default table' ?keys = Some (trust, level)" by (simp add: table_lookup_def split: if_splits)
    from lookup_loop_entry [OF this] obtain key e where e: "(level, key) \<in> set ?keys" "map_of table' key = Some e" "trust = trust_score e" by auto
    then show ?thesis using all distrusted_trust by fastforce
  qed
  have "adjust_score reputation_config_default table' (composite_score decision) ?keys False \<noteq> 0"
    using low assms(8) by (fastforce simp: adjust_score_def reputation_config_default_def max_def split: option.splits)
  then show ?thesis using assms(3) by (simp add: reputation_auto_allow_def Let_def)
qed

theorem operator_denial_revokes_witness:
  "reputation_auto_allow reputation_config_default
     (record_reputation_observation_with_ctx still_clock reputation_config_default ''dev'' (FileRead ''/p/a'')
        (RepDenied (manual_deny_weight reputation_config_default)) (Some git_args) (approved_times 11 (FileRead ''/p/a'') git_args))
     ''dev'' (FileRead ''/p/a'') git_args (queued_with 6) = None"
proof (rule operator_denial_revokes [OF _ approved_times_ok _ _ _ _ _ _ refl])
  show "decay_shrinks still_clock" by (simp add: decay_shrinks_def still_clock_def)
  show "observed_path (FileRead ''/p/a'') = Some ''/p/a''" by simp
  show "argument_process git_args = Some ''git''" by code_simp
  have "distinct (map snd (observation_keys ''dev'' (FileRead ''/p/a'') (Some git_args) ''/p/a''))" by code_simp
  then show "few_approvals (approved_times 11 (FileRead ''/p/a'') git_args) (auto_allow_keys ''dev'' (FileRead ''/p/a'') git_args ''/p/a'')"
    by (auto simp: few_approvals_def approved_times_map_of trusted_entry_def split: if_splits)
qed (simp_all add: queued_with_def)

subsection \<open>Where the trust goes\<close>

text \<open>
  Trust crosses the boundary the path classes are made to keep: eleven approvals of reads in one
  directory let a read of the \<open>.env\<close> file of the parent directory pass, through the key that names
  no path at all.
\<close>

theorem trust_crosses_siblings:
  "\<exists>ctx. reputation_auto_allow reputation_config_default (approved_times 11 (FileRead ''/p/src/f.rs'') git_args) ''dev'' (FileRead ''/p/.env'') git_args
     (queued_with 6) = Some ctx"
  by (rule eleven_approvals_allow) (simp, code_simp, simp, simp, code_simp, code_simp)

text \<open>
  An automatic denial leaves the trust it should lower alone: it is recorded without the process
  of the call, under keys that a lookup with the process never consults.
\<close>

theorem implicit_denial_misses_trust:
  "\<exists>ctx. reputation_auto_allow reputation_config_default
     (record_reputation_observation still_clock reputation_config_default ''dev'' (FileRead ''/p/a'') (RepDenied weight)
        (approved_times 11 (FileRead ''/p/a'') git_args))
     ''dev'' (FileRead ''/p/a'') git_args (queued_with 6) = Some ctx"
proof -
  let ?keys = "auto_allow_keys ''dev'' (FileRead ''/p/a'') git_args ''/p/a''" and ?other = "observation_keys ''dev'' (FileRead ''/p/a'') None ''/p/a''"
  let ?own = "observation_keys ''dev'' (FileRead ''/p/a'') (Some git_args) ''/p/a''"
  let ?table = "record_reputation_observation still_clock reputation_config_default ''dev'' (FileRead ''/p/a'') (RepDenied weight)
        (approved_times 11 (FileRead ''/p/a'') git_args)"
  have facts: "distinct (map snd ?own)" "distinct (map snd ?other)" "?keys = ?own" "list_all (\<lambda>(_, k). k \<notin> set (map snd ?other)) ?keys"
    "list_ex (\<lambda>(_, k). k \<in> set (map snd ?own)) ?keys" by code_simp+
  have "map_of ?table k = Some (trusted_entry 11)" if "(level, k) \<in> set ?keys" for level k
  proof -
    have "k \<notin> snd ` set ?other" using facts(4) that by (auto simp: list_all_iff)
    moreover have "k \<in> snd ` set ?own" using that by (metis facts(3) image_eqI snd_conv)
    ultimately show ?thesis
      using facts(1,2)
      by (simp add: record_reputation_observation_def record_reputation_observation_with_ctx_def table_observe_def reputation_config_default_def
          observe_loop_map_of approved_times_map_of)
  qed
  then obtain level where "table_lookup reputation_config_default ?table ?keys = Some (12 / 13, level)"
    using trusted_lookup [of UNIV ?keys ?table] facts(5) by (fastforce simp: list_ex_iff)
  moreover have "\<not> is_sensitive_root (the (ceiling_path (FileRead ''/p/a'')))" by code_simp
  ultimately show ?thesis using trusted_auto_allowed [of "FileRead ''/p/a''" "''/p/a''"] by simp
qed

text \<open>
  Reputation renames onto keys: the ceiling looks at the old path only, so after eleven approved
  renames of build results a rename onto the authorised keys of \<open>ssh\<close> passes without review.
\<close>

theorem reputation_renames_onto_keys:
  "\<exists>ctx. reputation_auto_allow reputation_config_default (approved_times 11 (FileRename ''/p/out/a'' ''/p/bin/a'') git_args) ''dev''
     (FileRename ''/p/out/a'' ''/home/u/.ssh/authorized_keys'') git_args (queued_with 6) = Some ctx"
  by (rule eleven_approvals_allow) (simp, code_simp, simp, simp, code_simp, code_simp)

text \<open>Saving never lowers a count on disk, so what decayed in memory comes back with the next load.\<close>

lemma merge_keeps_larger: "re_alpha x \<le> re_alpha (merge_entry later x e)" "re_beta x \<le> re_beta (merge_entry later x e)"
  by (simp_all add: merge_entry_def)

end
