(* ===== verification/Syscall_Events.thy ===== *)
theory Syscall_Events
  imports Authority_Delegation Reputation
begin

section \<open>Intercepted system calls\<close>

text \<open>
  The events of \<open>crates/grith-supervisor/src/interceptor.rs\<close>, their translation to tool calls
  (\<open>syscall_map.rs\<close>) and the predicates on sockets and processes that the event handler
  asks before anything is evaluated (\<open>event_handler.rs\<close>). SHA-256 is the argument \<open>sha256_hex\<close>; the
  address an IPv4-mapped one stands for is classified directly instead of through its text.
\<close>

datatype open_flags = OReadOnly | OWriteOnly | OReadWrite | OAppend | OCreate | OTruncate | OReadOnlyDirectory

datatype net_protocol = ProtoTcp | ProtoUdp | ProtoUnix

datatype foreign_abi_kind = CompatArch | X32

datatype seccomp_install_via = ViaSeccomp | ViaPrctl

datatype kernel_module_op_kind = ModInit | ModFinit | ModDelete

datatype ownership_op = Chown | Fchown | Lchown | Fchownat

datatype fs_mutation_op =
    Mount | Umount2 | PivotRoot | Chroot | OpenTree | MoveMount | Fsopen | Fsconfig | Fsmount | Fspick | MountSetattr

datatype cross_process_op = Ptrace | ProcessVmReadv | ProcessVmWritev | PidfdGetfd

datatype namespace_syscall = Unshare | Setns

datatype arch_priv_op = SetHostname | SetDomainName | Iopl | Ioperm | Swapon | Swapoff | Reboot

datatype syscall_kind =
    SysFileOpen string open_flags
  | SysFileWrite int "string option"
  | SysFileRead int "string option"
  | SysFileDelete string
  | SysFileLink string string bool
  | SysFileRename string string
  | SysFileChmod string u32
  | SysDirCreate string u32
  | SysDirList string
  | SysProcessExec string "string list"
  | SysProcessFork u32
  | SysNetConnect string u16 net_protocol
  | SysDbusMethodCall string "string option" "string option" "string option" "string option"
  | SysNetBind string u16 net_protocol "u64 option" "u32 option"
  | SysNetSendTo string u16
  | SysPipeCreate
  | SysSocketPair
  | SysIoUringSetup
  | SysRawSocketCreate int int int
  | SysSeccompInstall seccomp_install_via bool
  | SysKernelModuleOp kernel_module_op_kind
  | SysKexecLoad bool
  | SysOwnershipChange ownership_op string int int
  | SysFilesystemMutation fs_mutation_op "string option" string "string option"
  | SysCrossProcessAccess cross_process_op u32
  | SysNamespaceOp namespace_syscall u64
  | SysArchPrivilegedOp arch_priv_op
  | SysForeignAbiSyscall foreign_abi_kind int

record syscall_event =
  ev_pid :: u32
  ev_tid :: u32
  ev_kind :: syscall_kind

subsection \<open>Translation to tool calls\<close>

text \<open>The lower-case names of the operations, as \<open>Debug\<close> prints them.\<close>

fun fs_mutation_name :: "fs_mutation_op \<Rightarrow> string" where
  "fs_mutation_name Mount = ''mount''"
| "fs_mutation_name Umount2 = ''umount2''"
| "fs_mutation_name PivotRoot = ''pivotroot''"
| "fs_mutation_name Chroot = ''chroot''"
| "fs_mutation_name OpenTree = ''opentree''"
| "fs_mutation_name MoveMount = ''movemount''"
| "fs_mutation_name Fsopen = ''fsopen''"
| "fs_mutation_name Fsconfig = ''fsconfig''"
| "fs_mutation_name Fsmount = ''fsmount''"
| "fs_mutation_name Fspick = ''fspick''"
| "fs_mutation_name MountSetattr = ''mountsetattr''"

fun cross_process_name :: "cross_process_op \<Rightarrow> string" where
  "cross_process_name Ptrace = ''ptrace''"
| "cross_process_name ProcessVmReadv = ''processvmreadv''"
| "cross_process_name ProcessVmWritev = ''processvmwritev''"
| "cross_process_name PidfdGetfd = ''pidfdgetfd''"

fun namespace_name :: "namespace_syscall \<Rightarrow> string" where
  "namespace_name Unshare = ''unshare''"
| "namespace_name Setns = ''setns''"

text \<open>Addresses a datagram may go to unscored: loopback, broadcast, local multicast.\<close>

definition scorable_v4 :: "int list \<Rightarrow> bool" where
  "scorable_v4 os \<longleftrightarrow>
     \<not> ip_is_loopback (V4 os) \<and> \<not> ip_is_unspecified (V4 os) \<and> os \<noteq> [255, 255, 255, 255] \<and> take 3 os \<noteq> [224, 0, 0] \<and>
     os \<noteq> [239, 255, 255, 250]"

fun scorable_ip :: "ip_addr \<Rightarrow> bool" where
  "scorable_ip (V4 os) = scorable_v4 os"
| "scorable_ip (V6 gs) =
     (if ip_is_loopback (V6 gs) \<or> ip_is_unspecified (V6 gs) then False
      else case to_ipv4_mapped (V6 gs) of
          Some (V4 os) \<Rightarrow> scorable_v4 os
        | _ \<Rightarrow> \<not> (case gs of g # _ \<Rightarrow> g div 256 = 255 \<and> g mod 16 = 2 | [] \<Rightarrow> False))"

definition is_scorable_datagram_destination :: "string \<Rightarrow> bool" where
  "is_scorable_datagram_destination address =
     (if address = [] \<or> prefix ''unix:'' address \<or> prefix ''/'' address then False
      else case parse_ip address of None \<Rightarrow> True | Some ip \<Rightarrow> scorable_ip ip)"

definition compute_path_hash :: "(string \<Rightarrow> string) \<Rightarrow> string \<Rightarrow> string" where
  "compute_path_hash sha256_hex path = ''sha256:'' @ sha256_hex path"

fun to_tool_call_type :: "(string \<Rightarrow> string) \<Rightarrow> syscall_kind \<Rightarrow> tool_call_type option" where
  "to_tool_call_type sha (SysFileOpen path flags) =
     (case flags of
        OReadOnly \<Rightarrow> Some (FileRead path)
      | OReadOnlyDirectory \<Rightarrow> Some (DirList path)
      | OAppend \<Rightarrow> Some (FileAppend path)
      | _ \<Rightarrow> Some (FileWrite path (compute_path_hash sha path)))"
| "to_tool_call_type sha (SysFileWrite _ (Some path)) = Some (FileWrite path (compute_path_hash sha path))"
| "to_tool_call_type sha (SysFileRead _ (Some path)) = Some (FileRead path)"
| "to_tool_call_type sha (SysFileDelete path) = Some (FileDelete path)"
| "to_tool_call_type sha (SysFileLink target link_path symbolic) = Some (FileLink target link_path symbolic)"
| "to_tool_call_type sha (SysFileRename old_path new_path) = Some (FileRename old_path new_path)"
| "to_tool_call_type sha (SysFileChmod path mode) = Some (FileChmod path mode)"
| "to_tool_call_type sha (SysDirCreate path _) = Some (DirCreate path)"
| "to_tool_call_type sha (SysDirList path) = Some (DirList path)"
| "to_tool_call_type sha (SysProcessExec path args) = Some (ProcessSpawn path args)"
| "to_tool_call_type sha (SysNetConnect address port _) = Some (NetConnect address port)"
| "to_tool_call_type sha (SysNetBind address port _ _ _) = Some (NetListen address port)"
| "to_tool_call_type sha (SysNetSendTo address port) =
     (if prefix ''raw:'' address \<or> is_scorable_datagram_destination address then Some (NetConnect address port) else None)"
| "to_tool_call_type sha (SysOwnershipChange _ path uid gid) = Some (OwnershipChange path uid gid)"
| "to_tool_call_type sha (SysFilesystemMutation op src target fstype) = Some (FilesystemMutation (fs_mutation_name op) src target fstype)"
| "to_tool_call_type sha (SysDbusMethodCall socket destination interface member _) = Some (DbusMethodCall socket destination interface member)"
| "to_tool_call_type sha (SysCrossProcessAccess op target_pid) = Some (CrossProcessAccess (cross_process_name op) target_pid)"
| "to_tool_call_type sha (SysNamespaceOp syscall flags) = Some (NamespaceOp (namespace_name syscall) flags)"
| "to_tool_call_type sha _ = None"

subsection \<open>Sockets and listeners\<close>

definition SENSITIVE_UNIX_SOCKETS :: "string list" where
  "SENSITIVE_UNIX_SOCKETS =
     [''/var/run/docker.sock'', ''/run/docker.sock'', ''/var/run/containerd/containerd.sock'', ''/run/containerd/containerd.sock'',
      ''/var/run/crio/crio.sock'', ''/run/crio/crio.sock'', ''/var/run/podman/podman.sock'']"

text \<open>The text after the first occurrence.\<close>

definition after_first :: "string \<Rightarrow> string \<Rightarrow> string option" where
  "after_first needle s = map_option snd (split_once needle s)"

definition looks_like_openssh_agent_socket :: "string \<Rightarrow> bool" where
  "looks_like_openssh_agent_socket p =
     (if \<not> str_contains p ''/ssh-'' then False
      else case after_first ''/agent.'' p of Some (b # _) \<Rightarrow> is_ascii_digit b | _ \<Rightarrow> False)"

definition is_agent_socket_path :: "string \<Rightarrow> bool" where
  "is_agent_socket_path path =
     (let p = to_lowercase path
      in list_ex (str_contains p) [''/s.gpg-agent'', ''/gpg-agent'', ''/keyring/ssh'', ''/ssh-agent''] \<or> looks_like_openssh_agent_socket p)"

definition is_sensitive_unix_socket :: "string \<Rightarrow> bool" where
  "is_sensitive_unix_socket path \<longleftrightarrow>
     path \<in> set SENSITIVE_UNIX_SOCKETS \<or> str_contains path ''podman.sock'' \<or>
     (str_contains path ''/libvirt/'' \<and> suffix ''-sock'' path) \<or> suffix ''/systemd/private'' path \<or>
     prefix ''/run/systemd/io.systemd.'' path \<or> prefix ''/var/run/systemd/io.systemd.'' path \<or> suffix ''/io.podman'' path \<or>
     suffix ''/containerd.sock'' path \<or> suffix ''/buildkitd.sock'' path \<or>
     (suffix ''/cups.sock'' path \<and> (prefix ''/run/cups/'' path \<or> prefix ''/var/run/cups/'' path)) \<or>
     (prefix ''/var/lib/lxc/'' path \<and> suffix ''/command'' path) \<or> prefix ''/run/lxc/'' path \<or> is_agent_socket_path path"

definition AGENT_CLIENT_BINARIES :: "string list" where
  "AGENT_CLIENT_BINARIES =
     [''ssh'', ''git'', ''gpg'', ''gpg2'', ''ssh-add'', ''scp'', ''sftp'', ''gpgconf'', ''gpg-connect-agent'', ''ssh-agent'',
      ''git-remote-https'', ''git-remote-http'']"

definition under_some_root :: "string list \<Rightarrow> string \<Rightarrow> bool" where
  "under_some_root roots exe \<longleftrightarrow>
     list_ex (\<lambda>r. (case strip_prefix (trim_end_slashes r) exe of Some rest \<Rightarrow> prefix ''/'' rest | None \<Rightarrow> False) \<or> exe = trim_end_slashes r) roots"

definition exe_is_agent_client_in_routine_root :: "string \<Rightarrow> string list \<Rightarrow> bool" where
  "exe_is_agent_client_in_routine_root exe roots \<longleftrightarrow> last_component exe \<in> set AGENT_CLIENT_BINARIES \<and> under_some_root roots exe"

definition proc_exe :: "u32 \<Rightarrow> string" where
  "proc_exe pid = ''/proc/'' @ digits_of_nat (unat pid) @ ''/exe''"

definition connect_is_routine_agent_use :: "fs \<Rightarrow> string \<Rightarrow> u32 \<Rightarrow> string list \<Rightarrow> bool" where
  "connect_is_routine_agent_use fs address pid roots =
     (case strip_prefix ''unix:'' address of
        None \<Rightarrow> False
      | Some unix_path \<Rightarrow>
          is_agent_socket_path unix_path \<and>
          (case canonicalize_ok fs (proc_exe pid) of Some exe \<Rightarrow> exe_is_agent_client_in_routine_root exe roots | None \<Rightarrow> False))"

definition is_local_connect_address :: "string \<Rightarrow> bool" where
  "is_local_connect_address address =
     (case strip_prefix ''unix:'' address of
        Some unix_path \<Rightarrow> \<not> is_sensitive_unix_socket unix_path
      | None \<Rightarrow>
          if prefix ''/'' address \<or> address = [] then True
          else if eq_ignore_ascii_case address ''localhost'' then True
          else case parse_ip address of Some ip \<Rightarrow> ip_is_loopback ip \<or> ip_is_unspecified ip | None \<Rightarrow> False)"

definition is_local_listen_address :: "string \<Rightarrow> bool" where
  "is_local_listen_address address =
     (case strip_prefix ''unix:'' address of
        Some unix_path \<Rightarrow> \<not> is_sensitive_unix_socket unix_path
      | None \<Rightarrow>
          if prefix ''/'' address \<or> address = [] then True
          else if eq_ignore_ascii_case address ''localhost'' then True
          else case parse_ip address of Some ip \<Rightarrow> ip_is_loopback ip | None \<Rightarrow> False)"

definition is_dbus_socket :: "string \<Rightarrow> bool" where
  "is_dbus_socket address =
     (let path = strip_or_self ''@'' (socket_path address)
      in str_contains path ''/dbus-'' \<or> str_contains path ''/dbus/'' \<or> (prefix ''/run/user/'' path \<and> suffix ''/bus'' path))"

definition classify_unix_socket :: "string \<Rightarrow> unix_socket_class option" where
  "classify_unix_socket address =
     (case strip_prefix ''unix:'' address of
        None \<Rightarrow> None
      | Some path \<Rightarrow>
          (let bare = strip_or_self ''@'' path
           in if bare = [] then None
              else if is_sensitive_unix_socket bare then Some Privileged
              else if is_control_injection_socket address then Some Control
              else None))"

text \<open>A grant for one control socket and one executable; \<open>read_link\<close> resolves the link of \<open>/proc\<close>.\<close>

definition ipc_socket_grant_key_parts :: "(string \<Rightarrow> string option) \<Rightarrow> string \<Rightarrow> nat \<Rightarrow> string option" where
  "ipc_socket_grant_key_parts read_link address pid =
     (case strip_prefix ''unix:'' address of
        None \<Rightarrow> None
      | Some path \<Rightarrow>
          (let bare = strip_or_self ''@'' path
           in if bare = [] \<or> is_sensitive_unix_socket bare \<or> \<not> is_control_injection_socket address then None
              else case read_link (''/proc/'' @ digits_of_nat pid @ ''/exe'') of
                  None \<Rightarrow> None
                | Some exe \<Rightarrow> if suffix '' (deleted)'' exe then None else Some (''ipc-socket:'' @ address @ ''|'' @ exe)))"

definition ipc_socket_grant_key_for_ctx :: "(string \<Rightarrow> string option) \<Rightarrow> tool_call_type \<Rightarrow> json \<Rightarrow> string option" where
  "ipc_socket_grant_key_for_ctx read_link call args =
     (case call of
        NetConnect address _ \<Rightarrow> Option.bind (Option.bind (json_get args ''pid'') as_u64) (ipc_socket_grant_key_parts read_link address)
      | _ \<Rightarrow> None)"

definition is_foreign_pts_write :: "tool_call_type \<Rightarrow> string \<Rightarrow> string option \<Rightarrow> bool" where
  "is_foreign_pts_write call path own_pts =
     (case call of
        FileWrite _ _ \<Rightarrow> prefix ''/dev/pts/'' path \<and> (case own_pts of Some own \<Rightarrow> path \<noteq> own | None \<Rightarrow> False)
      | FileAppend _ \<Rightarrow> prefix ''/dev/pts/'' path \<and> (case own_pts of Some own \<Rightarrow> path \<noteq> own | None \<Rightarrow> False)
      | _ \<Rightarrow> False)"

definition contamination_signalled :: "proxy_decision \<Rightarrow> bool" where
  "contamination_signalled decision \<longleftrightarrow>
     list_ex (\<lambda>r. fr_matched r \<and> (filter_name r = ''taint'' \<or> filter_name r = ''session-containment'')) (filter_results decision)"

subsection \<open>Processes\<close>

definition proc_status :: "u32 \<Rightarrow> string" where
  "proc_status pid = ''/proc/'' @ digits_of_nat (unat pid) @ ''/status''"

text \<open>\<open>str::lines\<close>: a line ends at LF, a CR before it is dropped.\<close>

definition strip_cr :: "string \<Rightarrow> string" where
  "strip_cr l = (case strip_suffix [CHR 0x0D] l of Some r \<Rightarrow> r | None \<Rightarrow> l)"

definition str_lines :: "string \<Rightarrow> string list" where
  "str_lines s = (let ls = split_on CHR 0x0A s in map strip_cr (butlast ls) @ (if last ls = [] then [] else [last ls]))"

fun find_map :: "('a \<Rightarrow> 'b option) \<Rightarrow> 'a list \<Rightarrow> 'b option" where
  "find_map f [] = None"
| "find_map f (x # xs) = (case f x of Some y \<Rightarrow> Some y | None \<Rightarrow> find_map f xs)"

definition parse_cap_eff :: "string \<Rightarrow> u64 option" where
  "parse_cap_eff status =
     find_map (\<lambda>line. Option.bind (strip_prefix ''CapEff:'' line)
       (\<lambda>rest. map_option of_int (from_str_radix 16 (2 ^ 64 - 1) (trim rest)))) (str_lines status)"

definition CAP_SYS_PTRACE_BIT :: nat where
  "CAP_SYS_PTRACE_BIT = 19"

definition pid_has_cap_sys_ptrace :: "fs \<Rightarrow> u32 \<Rightarrow> bool option" where
  "pid_has_cap_sys_ptrace fs i =
     Option.bind (fs_read_to_string fs (proc_status i))
       (\<lambda>status. map_option (\<lambda>caps. bit caps CAP_SYS_PTRACE_BIT) (parse_cap_eff status))"

definition probe_yama_ptrace_scope :: "fs \<Rightarrow> int option" where
  "probe_yama_ptrace_scope fs =
     Option.bind (fs_read_to_string fs ''/proc/sys/kernel/yama/ptrace_scope'') (\<lambda>s. from_str_radix 10 255 (trim s))"

definition pid_user_ns :: "(string \<Rightarrow> string option) \<Rightarrow> u32 \<Rightarrow> string option" where
  "pid_user_ns read_link pid = read_link (''/proc/'' @ digits_of_nat (unat pid) @ ''/ns/user'')"

definition pid_pid_ns :: "(string \<Rightarrow> string option) \<Rightarrow> u32 \<Rightarrow> string option" where
  "pid_pid_ns read_link i = read_link (''/proc/'' @ digits_of_nat (unat i) @ ''/ns/pid'')"

definition kernel_blocks_cross_process :: "fs \<Rightarrow> (string \<Rightarrow> string option) \<Rightarrow> int option \<Rightarrow> u32 \<Rightarrow> u32 \<Rightarrow> bool" where
  "kernel_blocks_cross_process fs read_link yama_scope caller_tid target_pid =
     (case yama_scope of
        None \<Rightarrow> False
      | Some scope \<Rightarrow>
          if scope < 2 then False
          else if pid_has_cap_sys_ptrace fs caller_tid \<noteq> Some False then False
          else case (pid_user_ns read_link caller_tid, pid_user_ns read_link target_pid) of
              (Some caller_ns, Some target_ns) \<Rightarrow> caller_ns = target_ns
            | _ \<Rightarrow> False)"

definition cross_process_target_provably_absent :: "fs \<Rightarrow> (string \<Rightarrow> string option) \<Rightarrow> u32 \<Rightarrow> u32 \<Rightarrow> u32 \<Rightarrow> bool" where
  "cross_process_target_provably_absent fs read_link own_pid caller_tid target_pid =
     (if \<not> (case (pid_pid_ns read_link caller_tid, pid_pid_ns read_link own_pid) of
               (Some caller_ns, Some own_ns) \<Rightarrow> caller_ns = own_ns
             | _ \<Rightarrow> False)
      then False
      else if target_pid = 0 then True
      else \<not> fs_exists fs (''/proc/'' @ digits_of_nat (unat target_pid)))"

text \<open>The program would not be found: \<open>is_file\<close> follows symbolic links.\<close>

definition path_is_file :: "fs \<Rightarrow> string \<Rightarrow> bool" where
  "path_is_file fs path = (case fs_stat fs path of Some st \<Rightarrow> st_is_file st | None \<Rightarrow> False)"

definition exec_path_clearly_missing :: "fs \<Rightarrow> string option \<Rightarrow> string \<Rightarrow> bool" where
  "exec_path_clearly_missing fs path_var command =
     (if command = [] then False
      else if CHR ''/'' \<in> set command then \<not> path_is_file fs command
      else case path_var of
          None \<Rightarrow> False
        | Some v \<Rightarrow> \<not> list_ex (\<lambda>dir. path_is_file fs (path_join dir command)) (split_on CHR '':'' v))"

definition is_loopback_connect_address :: "string \<Rightarrow> bool" where
  "is_loopback_connect_address addr =
     (if addr = [] then False
      else if addr = ''localhost'' then True
      else case parse_ip addr of Some ip \<Rightarrow> ip_is_loopback ip | None \<Rightarrow> False)"

definition listening_row :: "u16 \<Rightarrow> bool \<Rightarrow> string \<Rightarrow> bool" where
  "listening_row port ipv6 line =
     (case split_whitespace line of
        _ # loc # _ # st # _ \<Rightarrow>
          st = ''0A'' \<and>
          (case rsplit_once CHR '':'' loc of
             None \<Rightarrow> False
           | Some (addr_hex, port_hex) \<Rightarrow>
               from_str_radix 16 65535 port_hex = Some (uint port) \<and>
               (if ipv6 then addr_hex = ''00000000000000000000000000000000'' \<or> addr_hex = ''00000000000000000000000001000000''
                else addr_hex = ''0100007F'' \<or> addr_hex = ''00000000''))
      | _ \<Rightarrow> False)"

definition scan_listeners :: "fs \<Rightarrow> string \<Rightarrow> u16 \<Rightarrow> bool \<Rightarrow> bool" where
  "scan_listeners fs path port ipv6 =
     (case fs_read_to_string fs path of
        None \<Rightarrow> False
      | Some content \<Rightarrow> list_ex (listening_row port ipv6) (drop 1 (str_lines content)))"

definition loopback_port_has_listener :: "fs \<Rightarrow> u16 \<Rightarrow> bool" where
  "loopback_port_has_listener fs port \<longleftrightarrow>
     scan_listeners fs ''/proc/net/tcp'' port False \<or> scan_listeners fs ''/proc/net/tcp6'' port True"

subsection \<open>Coalesced reads\<close>

record read_batch_tracker =
  last_eval :: "((u32 \<times> int) \<times> instant) list"
  batch_window :: duration

definition batch_new :: "nat \<Rightarrow> read_batch_tracker" where
  "batch_new window_ms = \<lparr> last_eval = [], batch_window = window_ms * 1000000 \<rparr>"

definition should_coalesce :: "read_batch_tracker \<Rightarrow> instant \<Rightarrow> u32 \<Rightarrow> int \<Rightarrow> bool \<times> read_batch_tracker" where
  "should_coalesce t now pid fd =
     (if (case map_of (last_eval t) (pid, fd) of Some u \<Rightarrow> nat (now - u) < batch_window t | None \<Rightarrow> False) then (True, t)
      else (False, t\<lparr>last_eval := assoc_insert (pid, fd) now (last_eval t)\<rparr>))"

subsection \<open>Attendance of the operator\<close>

datatype review_outcome = ReviewApproved | ReviewDenied | ReviewTimedOut

datatype attendance_change = WentUnattended u32 | Returned u32 | AttendanceUnchanged

definition note_attendance :: "u32 \<Rightarrow> u32 \<Rightarrow> review_outcome \<Rightarrow> attendance_change \<times> u32" where
  "note_attendance streak_limit unanswered outcome =
     (if streak_limit = 0 then (AttendanceUnchanged, unanswered)
      else if outcome = ReviewTimedOut
      then (if unanswered + 1 = streak_limit then WentUnattended (unanswered + 1) else AttendanceUnchanged, unanswered + 1)
      else (if unanswered \<ge> streak_limit then Returned unanswered else AttendanceUnchanged, 0))"

definition unattended_window :: "u32 \<Rightarrow> u32 \<Rightarrow> u64 \<Rightarrow> duration option" where
  "unattended_window streak_limit unanswered fallback_secs =
     (if streak_limit = 0 \<or> unanswered < streak_limit then None else Some (secs (unat fallback_secs)))"

end
