(* ===== verification/Learned_Rules.thy ===== *)
theory Learned_Rules
  imports Syscall_Events
begin

section \<open>Learned rules\<close>

text \<open>
  \<open>crates/grith-supervisor/src/learned_rules.rs\<close>: rules a reviewer made permanent, validated when
  they are written and when they are loaded, and merged into the session allowlist of a profile. The
  rules file is what reading and parsing it gave; the write is atomic, so an I/O failure leaves it
  as it was.
\<close>

record learned_rule =
  lr_pattern :: string
  lr_profile :: string
  lr_scope :: string
  lr_reason :: string
  lr_created_at :: string
  lr_created_by :: string

record team_learned_rule =
  tr_pattern :: string
  tr_profile :: string
  tr_scope :: string
  tr_reason :: string
  tr_created_by :: string
  tr_created_at :: string

datatype rules_file = FileAbsent | FileBlank | FileRules "learned_rule list" | FileCorrupt string | FileUnreadable string

definition VALID_PREFIXES :: "string list" where
  "VALID_PREFIXES = [''ro:'', ''rw:'', ''exec:'', ''exec-prefix:'', ''net:'', ''listen:'', ''ipc-socket:'']"

definition SENSITIVE_MARKERS :: "string list" where
  "SENSITIVE_MARKERS =
     [''id_rsa'', ''id_ed25519'', ''id_ecdsa'', ''id_dsa'', ''/.ssh/authorized_keys'', ''/.aws/credentials'', ''/.gnupg/'',
      ''/.kube/config'', ''/.docker/config.json'', ''/.config/gcloud/'', ''/.git-credentials'', ''/.netrc'', ''/.pgpass'',
      ''/.npmrc'', ''/.pypirc'', ''/etc/shadow'', ''/etc/gshadow'', ''private_key'', ''/credentials'', ''/secrets'', ''/.env'']"

definition path_targets_sensitive :: "string \<Rightarrow> bool" where
  "path_targets_sensitive path = list_ex (str_contains (to_lowercase path)) SENSITIVE_MARKERS"

definition opt_or :: "'a option \<Rightarrow> 'a option \<Rightarrow> 'a option" where
  "opt_or a b = (case a of Some x \<Rightarrow> Some x | None \<Rightarrow> b)"

text \<open>The path a rule grants access to.\<close>

definition rule_path :: "string \<Rightarrow> string option" where
  "rule_path pattern =
     opt_or (strip_prefix ''ro:'' pattern) (opt_or (strip_prefix ''rw:'' pattern)
       (opt_or (strip_prefix ''exec-prefix:'' pattern) (strip_prefix ''exec:'' pattern)))"

definition ipc_rule_error :: "string \<Rightarrow> string option" where
  "ipc_rule_error rest =
     (case split_once ''|'' rest of
        None \<Rightarrow> Some ''ipc-socket: pattern must be `ipc-socket:<socket address>|<client exe>`''
      | Some (socket, exe) \<Rightarrow>
          (case map_option (strip_or_self ''@'') (strip_prefix ''unix:'' socket) of
             None \<Rightarrow> Some ''ipc-socket: socket address must start with `unix:`''
           | Some bare \<Rightarrow>
               if \<not> prefix ''/'' bare then Some ''ipc-socket: socket address must contain an absolute path''
               else if is_sensitive_unix_socket bare then Some ''ipc-socket: privileged daemon sockets are not grantable''
               else if \<not> prefix ''/'' exe then Some ''ipc-socket: client exe must be an absolute path''
               else None))"

definition needs_absolute :: "string \<Rightarrow> string \<Rightarrow> bool" where
  "needs_absolute p pattern = (case strip_prefix p pattern of Some rest \<Rightarrow> \<not> prefix ''/'' rest | None \<Rightarrow> False)"

text \<open>\<open>None\<close> accepts the pattern; \<open>Some\<close> is the error.\<close>

definition validate_persisted_rule_with_scope :: "string \<Rightarrow> string \<Rightarrow> string option" where
  "validate_persisted_rule_with_scope pattern scope =
     (if pattern = [] then Some ''pattern must not be empty''
      else if length pattern > 512 then Some ''pattern must not exceed 512 characters''
      else if \<not> list_ex (\<lambda>p. prefix p pattern) VALID_PREFIXES
      then Some (''pattern must start with one of: '' @ join '', '' VALID_PREFIXES @ ''. Bare filesystem paths and dns: are not persistable.'')
      else if prefix ''exec-prefix:'' pattern \<and> scope \<noteq> ''team''
      then Some ''exec-prefix: rules can only be created by team admins, not user-local [l] actions''
      else if needs_absolute ''exec-prefix:'' pattern
      then Some ''exec-prefix: pattern must contain a non-empty absolute path (e.g., exec-prefix:/usr/lib/git-core/)''
      else case Option.bind (strip_prefix ''ipc-socket:'' pattern) ipc_rule_error of
          Some e \<Rightarrow> Some e
        | None \<Rightarrow>
            if needs_absolute ''ro:'' pattern then Some ''ro: pattern must contain an absolute path''
            else if needs_absolute ''rw:'' pattern then Some ''rw: pattern must contain an absolute path''
            else if needs_absolute ''exec:'' pattern then Some ''exec: pattern must contain an absolute path''
            else case rule_path pattern of
                Some path \<Rightarrow>
                  if path_targets_sensitive path
                  then Some (''refusing to persist a rule targeting a sensitive path ('' @ path @
                             ''): sensitive accesses must go through the proxy, not an auto-allow rule'')
                  else None
              | None \<Rightarrow> None)"

definition validate_persisted_rule :: "string \<Rightarrow> string option" where
  "validate_persisted_rule pattern = validate_persisted_rule_with_scope pattern ''user''"

definition normalize_loaded_pattern :: "fs \<Rightarrow> string \<Rightarrow> string" where
  "normalize_loaded_pattern fs pattern =
     (case find_map (\<lambda>p. Option.bind (strip_prefix p pattern)
         (\<lambda>path. map_option (\<lambda>canonical. p @ canonical) (canonicalize_ok fs path))) [''ro:'', ''rw:''] of
        Some s \<Rightarrow> s
      | None \<Rightarrow> pattern)"

fun load_learned_rules :: "rules_file \<Rightarrow> learned_rule list" where
  "load_learned_rules (FileRules rules) = filter (\<lambda>r. validate_persisted_rule (lr_pattern r) = None) rules"
| "load_learned_rules _ = []"

definition file_rules :: "rules_file \<Rightarrow> string + learned_rule list" where
  "file_rules f =
     (case f of
        FileAbsent \<Rightarrow> Inr []
      | FileBlank \<Rightarrow> Inr []
      | FileRules rules \<Rightarrow> Inr rules
      | FileCorrupt e \<Rightarrow> Inl (''existing learned rules file is corrupted and cannot be parsed: '' @ e)
      | FileUnreadable e \<Rightarrow> Inl (''failed to read existing rules file: '' @ e))"

definition append_learned_rule :: "string option \<Rightarrow> learned_rule \<Rightarrow> rules_file \<Rightarrow> (string + unit) \<times> rules_file" where
  "append_learned_rule io_error rule file =
     (case validate_persisted_rule (lr_pattern rule) of
        Some e \<Rightarrow> (Inl e, file)
      | None \<Rightarrow>
          (case file_rules file of
             Inl e \<Rightarrow> (Inl e, file)
           | Inr rules \<Rightarrow>
               if list_ex (\<lambda>r. lr_pattern r = lr_pattern rule \<and> lr_profile r = lr_profile rule) rules then (Inr (), file)
               else case io_error of Some e \<Rightarrow> (Inl e, file) | None \<Rightarrow> (Inr (), FileRules (rules @ [rule]))))"

text \<open>The cache of team rules, \<open>None\<close> when it is absent, empty or unreadable.\<close>

definition load_team_learned_rules :: "team_learned_rule list option \<Rightarrow> team_learned_rule list" where
  "load_team_learned_rules cache =
     (case cache of
        None \<Rightarrow> []
      | Some rules \<Rightarrow> filter (\<lambda>r. validate_persisted_rule_with_scope (tr_pattern r) (tr_scope r) = None) rules)"

definition rules_for_profile :: "learned_rule list \<Rightarrow> string \<Rightarrow> learned_rule list" where
  "rules_for_profile rules profile = filter (\<lambda>r. lr_profile r = profile) rules"

definition set_insert :: "'a \<Rightarrow> 'a list \<Rightarrow> 'a list" where
  "set_insert x xs = (if x \<in> set xs then xs else xs @ [x])"

definition merge_cached_rules_for_profile ::
    "fs \<Rightarrow> string list \<Rightarrow> string \<Rightarrow> rules_file \<Rightarrow> team_learned_rule list option \<Rightarrow> (nat \<times> nat) \<times> string list" where
  "merge_cached_rules_for_profile fs allowlist profile local_file team_cache =
     (let locals = rules_for_profile (load_learned_rules local_file) profile;
          team = filter (\<lambda>r. tr_profile r = profile \<and> validate_persisted_rule_with_scope (tr_pattern r) (tr_scope r) = None)
                   (load_team_learned_rules team_cache);
          merged = fold (\<lambda>r. set_insert (normalize_loaded_pattern fs (tr_pattern r))) team
                     (fold (\<lambda>r. set_insert (normalize_loaded_pattern fs (lr_pattern r))) locals allowlist)
      in ((length locals, length team), merged))"

subsection \<open>What is persisted\<close>

definition grants_no_secret :: "string \<Rightarrow> bool" where
  "grants_no_secret pattern \<longleftrightarrow> (case rule_path pattern of Some path \<Rightarrow> prefix ''/'' path \<and> \<not> path_targets_sensitive path | None \<Rightarrow> True)"

lemma validated_grants_no_secret: "validate_persisted_rule_with_scope pattern scope = None \<Longrightarrow> grants_no_secret pattern"
  by (auto simp: validate_persisted_rule_with_scope_def grants_no_secret_def rule_path_def opt_or_def needs_absolute_def
      split: if_splits option.splits)

definition rule_key :: "learned_rule \<Rightarrow> string \<times> string" where
  "rule_key r = (lr_pattern r, lr_profile r)"

definition append_all :: "(string option \<times> learned_rule) list \<Rightarrow> rules_file \<Rightarrow> rules_file" where
  "append_all ops file = fold (\<lambda>(io, r) f. snd (append_learned_rule io r f)) ops file"

lemma append_keeps_file:
  assumes "file_rules f = Inr rs" and "\<forall>r \<in> set rs. validate_persisted_rule (lr_pattern r) = None" and "distinct (map rule_key rs)"
  shows "\<exists>rs'. file_rules (snd (append_learned_rule io r f)) = Inr rs' \<and> (\<forall>r \<in> set rs'. validate_persisted_rule (lr_pattern r) = None) \<and>
     distinct (map rule_key rs')"
  using assms by (auto simp: append_learned_rule_def list_ex_iff rule_key_def file_rules_def split: option.splits)

text \<open>
  C30. Whatever is learned, in whatever order and with whatever I/O failures, the file holds validated
  rules only, once each: none of them names a path with secret material, and loading loses none.
\<close>

theorem persisted_rules_grant_no_secret:
  "\<exists>rs. file_rules (append_all ops FileAbsent) = Inr rs \<and> load_learned_rules (append_all ops FileAbsent) = rs \<and>
     distinct (map rule_key rs) \<and> list_all (grants_no_secret \<circ> lr_pattern) rs"
proof -
  have "\<exists>rs. file_rules (append_all ops FileAbsent) = Inr rs \<and> (\<forall>r \<in> set rs. validate_persisted_rule (lr_pattern r) = None) \<and>
     distinct (map rule_key rs)"
  proof (induction ops rule: rev_induct)
    case Nil
    show ?case by (simp add: append_all_def file_rules_def)
  next
    case (snoc op ops)
    then obtain rs where "file_rules (append_all ops FileAbsent) = Inr rs" "\<forall>r \<in> set rs. validate_persisted_rule (lr_pattern r) = None"
        "distinct (map rule_key rs)" by blast
    from append_keeps_file [OF this, of "fst op" "snd op"] show ?case by (simp add: append_all_def case_prod_beta)
  qed
  then obtain rs where rs: "file_rules (append_all ops FileAbsent) = Inr rs" "\<forall>r \<in> set rs. validate_persisted_rule (lr_pattern r) = None"
      "distinct (map rule_key rs)" by blast
  have "load_learned_rules (append_all ops FileAbsent) = rs"
    using rs(1,2) by (cases "append_all ops FileAbsent") (auto simp: file_rules_def filter_id_conv)
  moreover have "list_all (grants_no_secret \<circ> lr_pattern) rs"
    using rs(2) validated_grants_no_secret by (auto simp: list_all_iff validate_persisted_rule_def)
  ultimately show ?thesis using rs(1,3) by blast
qed

text \<open>
  Loading resolves symbolic links after the validation. A rule learned for an ordinary file becomes,
  once the file has been replaced by a link, a grant for the secret the link points to, and a read
  of the secret matches it without any evaluation.
\<close>

definition linked_fs :: fs where
  "linked_fs = plain_fs\<lparr>fs_canonicalize := (\<lambda>p. Canon (if p = ''/w/notes'' then ''/h/.ssh/id_rsa'' else p))\<rparr>"

definition notes_rule :: learned_rule where
  "notes_rule = \<lparr> lr_pattern = ''ro:/w/notes'', lr_profile = ''dev'', lr_scope = ''user'', lr_reason = [], lr_created_at = [], lr_created_by = [] \<rparr>"

theorem learned_rule_follows_link_to_secret:
  "let allowed = snd (merge_cached_rules_for_profile linked_fs [] ''dev'' (append_all [(None, notes_rule)] FileAbsent) None)
   in allowed = [''ro:/h/.ssh/id_rsa''] \<and> \<not> grants_no_secret (hd allowed) \<and>
      is_session_allowlist_match (\<lambda>_. None) linked_fs ''/h/.ssh/id_rsa'' allowed (FileRead ''/h/.ssh/id_rsa'') = Some True"
  unfolding Let_def by code_simp

end
