(* ===== verification/Review_Enforcement.thy ===== *)
theory Review_Enforcement
  imports Ssh_Connect Session_Containment Digest_Actions Scoped_Permissions Mass_Destruction Listener_Clamp Remote_Eval Learned_Rules Process_Tree Dns_Cache
begin

section \<open>Enforcing a decision and waiting for a review\<close>

text \<open>
  \<open>enforce_decision\<close>, \<open>queue_and_wait\<close> and what they call in
  \<open>crates/grith-supervisor/src/supervisor/event_handler.rs\<close>. The state of a supervised session and
  of the loop that owns it is one record, passed through every step; the verdicts given to the
  interceptor and the kill signals sent are histories in it. The files, the links, the environment,
  the rendering of arguments and fresh identifiers are fields of \<open>loop_env\<close>. What others do while a
  review waits is a list of ticks: how the wait of this turn ended, at which time, and what happened
  before (operations on the digest queue, grants by other reviews, containment). Log lines, audit
  rows and broadcasts are left out.
\<close>

datatype interactive_queue_action = QueueFreeze | QueueLog | QueueDeny

record loop_config =
  cf_queue_action :: interactive_queue_action
  cf_deny_replay_seconds :: nat
  cf_approve_replay_seconds :: nat
  cf_freeze_timeout_seconds :: nat
  cf_unattended_streak :: u32
  cf_unattended_timeout_seconds :: u64
  cf_enforce_spawn :: bool
  cf_enforce_control_socket :: bool
  cf_ignore_read_only :: bool
  cf_batch_rapid_reads :: bool
  cf_pty_ownership_enforce :: bool
  cf_category1_hard_deny :: bool
  cf_category2_proxy :: bool
  cf_category2_crossprocess :: bool
  cf_category3_namespace :: bool
  cf_category4_arch_priv :: bool
  cf_deny_self_seccomp_notify :: bool

record loop_env =
  le_config :: loop_config
  le_scope_env :: scope_env
  le_read_link :: "string \<Rightarrow> string option"
  le_env_var :: "string \<Rightarrow> string option"
  le_own_pid :: u32
  le_sha256_hex :: "string \<Rightarrow> string"
  le_candidates :: "string \<Rightarrow> string list option"
  le_render_candidates :: "string list \<Rightarrow> string"
  le_reverse_dns :: "ip_addr \<Rightarrow> string option"
  le_of_json :: "string \<Rightarrow> permission_review_action option"
  le_codecs :: codecs
  le_summary :: "tool_call_context \<Rightarrow> proxy_decision \<Rightarrow> string"
  le_now_text :: "instant \<Rightarrow> string"
  le_rep_clock :: "instant \<Rightarrow> rep_clock"
  le_rep_config :: reputation_config
  le_remote :: remote_config
  le_learned_io :: "string option"
  le_session_id :: uuid
  le_tool_name :: string
  le_profile_name :: "string option"
  le_policy_scope :: "string option"
  le_project_name :: "string option"
  le_dns_inspection :: bool
  le_dns_forward :: bool
  le_dbus_armed :: bool
  le_routine_exec_roots :: "string list"
  le_namespace_users :: "string list"
  le_permit_delegating :: "string list"
  le_permit_control_sockets :: "string list"
  le_pins :: authority_delegating_pins
  le_destruction_roots :: destruction_roots
  le_workspace :: "string list option"
  le_listeners :: "local_listener_entry list"
  le_yama :: "int option"

definition le_fs :: "loop_env \<Rightarrow> fs" where
  "le_fs env = se_fs (le_scope_env env)"

definition scope_name :: "loop_env \<Rightarrow> string option" where
  "scope_name env = opt_or (le_policy_scope env) (le_profile_name env)"

definition session_scope_name :: "loop_env \<Rightarrow> string" where
  "session_scope_name env = (case scope_name env of Some s \<Rightarrow> s | None \<Rightarrow> ''unknown'')"

datatype verdict = VAllow u32 | VDeny u32 | VKill u32

record session_stats =
  total_intercepted :: nat
  total_allowed :: nat
  total_queued :: nat
  total_denied :: nat
  total_filtered_noise :: nat
  foreign_abi_denied :: nat

record 'p supervisor =
  sv_allowed :: "string list"
  sv_denied :: "string list"
  sv_recent_denials :: "(string \<times> instant) list"
  sv_recent_approvals :: "(string \<times> instant) list"
  sv_socket_answers :: "(string \<times> bool) list"
  sv_stats :: session_stats
  sv_tree :: process_tree
  sv_spawn_recorded :: "u32 list"
  sv_batch :: read_batch_tracker
  sv_destruction :: mass_destruction_tracker
  sv_reputation :: reputation_table
  sv_reputation_sent :: "((nat \<times> string) list \<times> reputation_outcome) list"
  sv_containment :: containment_tracker
  sv_registry :: registry
  sv_unanswered :: u32
  sv_digest :: digest_table
  sv_remote :: remote_state
  sv_proxy :: 'p
  sv_learned :: rules_file
  sv_persisted_allow :: "tool_call_context list"
  sv_dns_cache :: dns_cache
  sv_dns_confirm :: "forward_confirm option"
  sv_dns_finished :: "(u32 \<times> bool) list"
  sv_memory :: memory
  sv_verdicts :: "verdict list"
  sv_killed :: "u32 list"

definition containment_on :: "loop_env \<Rightarrow> 'p supervisor \<Rightarrow> bool" where
  "containment_on env s = is_containment_active (from_session_id (le_session_id env)) (sv_registry s)"

subsection \<open>Verdicts\<close>

definition give :: "verdict \<Rightarrow> 'p supervisor \<Rightarrow> 'p supervisor" where
  "give v s = s\<lparr>sv_verdicts := sv_verdicts s @ [v]\<rparr>"

definition count_allowed :: "'p supervisor \<Rightarrow> 'p supervisor" where
  "count_allowed s = s\<lparr>sv_stats := (sv_stats s)\<lparr>total_allowed := total_allowed (sv_stats s) + 1\<rparr>\<rparr>"

definition count_denied :: "'p supervisor \<Rightarrow> 'p supervisor" where
  "count_denied s = s\<lparr>sv_stats := (sv_stats s)\<lparr>total_denied := total_denied (sv_stats s) + 1\<rparr>\<rparr>"

definition count_queued :: "'p supervisor \<Rightarrow> 'p supervisor" where
  "count_queued s = s\<lparr>sv_stats := (sv_stats s)\<lparr>total_queued := total_queued (sv_stats s) + 1\<rparr>\<rparr>"

definition count_noise :: "'p supervisor \<Rightarrow> 'p supervisor" where
  "count_noise s = s\<lparr>sv_stats := (sv_stats s)\<lparr>total_filtered_noise := total_filtered_noise (sv_stats s) + 1\<rparr>\<rparr>"

definition deny_or_kill :: "u32 \<Rightarrow> bool \<Rightarrow> 'p supervisor \<Rightarrow> 'p supervisor" where
  "deny_or_kill tid kill_on_deny s = give (if kill_on_deny then VKill tid else VDeny tid) s"

definition thaw_and_resume :: "u32 \<Rightarrow> bool \<Rightarrow> bool \<Rightarrow> 'p supervisor \<Rightarrow> 'p supervisor" where
  "thaw_and_resume tid allow kill_on_deny s = (if allow then give (VAllow tid) s else deny_or_kill tid kill_on_deny s)"

definition process_tree_kill_targets :: "process_tree \<Rightarrow> u32 list" where
  "process_tree_kill_targets t = remdups_adj (sort (filter (\<lambda>p. p \<noteq> root_pid t) (all_pids t))) @ [root_pid t]"

definition kill_supervised_process_tree :: "'p supervisor \<Rightarrow> 'p supervisor" where
  "kill_supervised_process_tree s = s\<lparr>sv_killed := sv_killed s @ process_tree_kill_targets (sv_tree s)\<rparr>"

subsection \<open>Reputation of the outcome\<close>

definition observe_reputation ::
    "loop_env \<Rightarrow> instant \<Rightarrow> tool_call_type \<Rightarrow> reputation_outcome \<Rightarrow> json option \<Rightarrow> 'p supervisor \<Rightarrow> 'p supervisor" where
  "observe_reputation env now call outcome ctx_args s =
     (if daemon_mode (le_remote env)
      then (case observed_path call of
              Some path \<Rightarrow>
                if rc_enabled (le_rep_config env)
                then s\<lparr>sv_reputation_sent := sv_reputation_sent s @ [(observation_keys (session_scope_name env) call ctx_args path, outcome)]\<rparr>
                else s
            | None \<Rightarrow> s)
      else s\<lparr>sv_reputation := record_reputation_observation_with_ctx (le_rep_clock env now) (le_rep_config env)
                (session_scope_name env) call outcome ctx_args (sv_reputation s)\<rparr>)"

subsection \<open>The review item\<close>

definition to_filter_breakdowns :: "filter_result list \<Rightarrow> filter_breakdown_rec list" where
  "to_filter_breakdowns results =
     map (\<lambda>r. \<lparr> fb_filter_name = filter_name r, fb_score = fr_score r, fb_rule_id = rule_id r, fb_message = fr_message r \<rparr>)
       (filter fr_matched results)"

definition build_digest_item :: "loop_env \<Rightarrow> uuid \<Rightarrow> instant \<Rightarrow> tool_call_context \<Rightarrow> proxy_decision \<Rightarrow> digest_item" where
  "build_digest_item env fresh now ctx d =
     \<lparr> di_id = fresh, di_created_at = now, di_session_id = Some (session_id ctx),
       di_tool_call_type = display_call (call_type ctx), di_arguments_summary = le_summary env ctx d,
       di_decision_reason = (if decision_reason d = [] then None else Some (decision_reason d)),
       di_composite_score = composite_score d, di_severity = severity_from_score (composite_score d),
       di_filter_breakdown = to_filter_breakdowns (filter_results d), di_task_context = task_context ctx,
       di_plugin_id = plugin_id ctx, di_status = Pending, di_reviewed_at = None, di_review_action = None,
       di_reviewer_notes = None, di_informational_only = False, di_escalated_at = None, di_escalated_by = None \<rparr>"

text \<open>The local store: a failed operation leaves the table.\<close>

definition store_enqueue :: "loop_env \<Rightarrow> digest_item \<Rightarrow> 'p supervisor \<Rightarrow> 'p supervisor" where
  "store_enqueue env item s =
     (case enqueue (le_codecs env) item (sv_digest s) of Inl _ \<Rightarrow> s | Inr tab \<Rightarrow> s\<lparr>sv_digest := tab\<rparr>)"

definition store_get :: "loop_env \<Rightarrow> instant \<Rightarrow> uuid \<Rightarrow> 'p supervisor \<Rightarrow> digest_item option" where
  "store_get env now i s = (case get_by_id (le_codecs env) now i (sv_digest s) of Inl _ \<Rightarrow> None | Inr item \<Rightarrow> Some item)"

definition store_update ::
    "loop_env \<Rightarrow> instant \<Rightarrow> uuid \<Rightarrow> digest_status \<Rightarrow> string option \<Rightarrow> string option \<Rightarrow> 'p supervisor \<Rightarrow> bool \<times> 'p supervisor" where
  "store_update env now i status act notes s =
     (case update_status (le_codecs env) now i status act notes (sv_digest s) of
        Inl _ \<Rightarrow> (False, s)
      | Inr tab \<Rightarrow> (True, s\<lparr>sv_digest := tab\<rparr>))"

subsection \<open>Keys and covers\<close>

definition dbus_inspection_covers :: "loop_env \<Rightarrow> string \<Rightarrow> bool" where
  "dbus_inspection_covers env address \<longleftrightarrow> le_dbus_armed env \<and> is_dbus_socket address"

definition is_control_class_connect :: "tool_call_context \<Rightarrow> bool" where
  "is_control_class_connect ctx \<longleftrightarrow>
     (case call_type ctx of NetConnect _ _ \<Rightarrow> ctx_unix_socket_class ctx = Some Control | _ \<Rightarrow> False)"

definition spawn_enforced :: "loop_env \<Rightarrow> bool" where
  "spawn_enforced env = spawn_enforcement_enabled (le_env_var env) (cf_enforce_spawn (le_config env))"

definition control_socket_enforced :: "loop_env \<Rightarrow> bool" where
  "control_socket_enforced env = control_socket_enforcement_enabled (le_env_var env) (cf_enforce_control_socket (le_config env))"

definition approved_delegation :: "tool_call_type \<Rightarrow> 'p supervisor \<Rightarrow> bool" where
  "approved_delegation call s \<longleftrightarrow> delegating_approval_key call \<in> set (sv_allowed s)"

definition spawn_must_be_reviewed :: "loop_env \<Rightarrow> string \<Rightarrow> string list \<Rightarrow> bool" where
  "spawn_must_be_reviewed env command args \<longleftrightarrow>
     spawn_enforced env \<and>
     (spawn_delegation_would_enforce (le_fs env) (le_permit_delegating env) (le_pins env) command args \<or>
      ssh_loopback_should_escalate command args (le_permit_delegating env) \<or>
      input_injection_should_escalate command args (le_permit_delegating env))"

definition connect_must_be_reviewed :: "loop_env \<Rightarrow> string \<Rightarrow> bool" where
  "connect_must_be_reviewed env address \<longleftrightarrow>
     control_socket_enforced env \<and> \<not> dbus_inspection_covers env address \<and>
     control_socket_should_escalate address (le_permit_control_sockets env)"

definition grant_key_matches :: "loop_env \<Rightarrow> tool_call_type \<Rightarrow> 'p supervisor \<Rightarrow> string \<Rightarrow> bool option" where
  "grant_key_matches env call s key = is_session_allowlist_match (le_candidates env) (le_fs env) key (sv_allowed s) call"

text \<open>\<open>None\<close> is the panic of a glob match.\<close>

definition session_scope_now_covers :: "loop_env \<Rightarrow> tool_call_type \<Rightarrow> 'p supervisor \<Rightarrow> bool option" where
  "session_scope_now_covers env call s =
     (if containment_on env s then Some False
      else if \<not> approved_delegation call s \<and>
              (case call of
                 ProcessSpawn command args \<Rightarrow> spawn_must_be_reviewed env command args
               | NetConnect address _ \<Rightarrow> connect_must_be_reviewed env address
               | _ \<Rightarrow> False)
      then Some False
      else case session_allowlist_key (le_fs env) call of
          None \<Rightarrow> Some False
        | Some key \<Rightarrow>
            if is_sensitive_scoped_read_match (le_fs env) call (sv_allowed s) then Some False
            else grant_key_matches env call s key)"

definition ipc_grant :: "loop_env \<Rightarrow> tool_call_context \<Rightarrow> string option" where
  "ipc_grant env ctx = ipc_socket_grant_key_for_ctx (le_read_link env) (call_type ctx) (arguments ctx)"

subsection \<open>Waiting for a review\<close>

text \<open>
  What others do to the store: an operation of the digest queue, or the status an interactive reviewer
  writes together with its action.
\<close>

datatype store_op = StoreOp digest_op | StoreStatus uuid digest_status "string option" "string option"

fun run_store :: "codecs \<Rightarrow> (instant \<times> store_op) list \<Rightarrow> digest_table \<Rightarrow> digest_table" where
  "run_store c [] tab = tab"
| "run_store c ((now, StoreOp op) # rest) tab = run_store c rest (run_op c now op tab)"
| "run_store c ((now, StoreStatus i status act notes) # rest) tab =
     run_store c rest (or_unchanged tab (update_status c now i status act notes tab))"

record tick =
  tk_now :: instant
  tk_store :: "(instant \<times> store_op) list"
  tk_granted :: "string list"
  tk_registry :: registry
  tk_end :: "review_outcome option"

definition absorb :: "loop_env \<Rightarrow> tick \<Rightarrow> 'p supervisor \<Rightarrow> 'p supervisor" where
  "absorb env t s =
     s\<lparr>sv_allowed := fold set_insert (tk_granted t) (sv_allowed s),
       sv_digest := run_store (le_codecs env) (tk_store t) (sv_digest s), sv_registry := tk_registry t\<rparr>"

record review_end =
  re_outcome :: review_outcome
  re_action :: "string option"
  re_scope :: "validated_scope option"
  re_drained :: bool

datatype 'a progress = Finished 'a | StillWaiting | Crashed

definition review_timeout :: "loop_env \<Rightarrow> 'p supervisor \<Rightarrow> duration" where
  "review_timeout env s =
     (case unattended_window (cf_unattended_streak (le_config env)) (sv_unanswered s) (cf_unattended_timeout_seconds (le_config env)) of
        Some d \<Rightarrow> d
      | None \<Rightarrow> secs (cf_freeze_timeout_seconds (le_config env)))"

definition note_review_attendance :: "loop_env \<Rightarrow> review_outcome \<Rightarrow> 'p supervisor \<Rightarrow> 'p supervisor" where
  "note_review_attendance env outcome s =
     s\<lparr>sv_unanswered := snd (note_attendance (cf_unattended_streak (le_config env)) (sv_unanswered s) outcome)\<rparr>"

definition parse_action :: "loop_env \<Rightarrow> string option \<Rightarrow> permission_review_action option" where
  "parse_action env act = Option.bind act (from_storage_value (le_of_json env))"

definition looks_structured :: "string option \<Rightarrow> bool" where
  "looks_structured act = (case act of Some a \<Rightarrow> prefix ''{'' (dropWhile is_space a) | None \<Rightarrow> False)"

text \<open>Why an approval is sent back to the queue: a scope that does not hold, or an action that does not parse.\<close>

definition rejected_approval :: "loop_env \<Rightarrow> tool_call_context \<Rightarrow> string option \<Rightarrow> string option" where
  "rejected_approval env ctx act =
     (case parse_action env act of
        Some (PScopedAllow request) \<Rightarrow>
          (case validate_scoped_allow (le_scope_env env) request (display_call (call_type ctx)) of
             Inr _ \<Rightarrow> None
           | Inl e \<Rightarrow> Some (''Scoped approval rejected: '' @ e))
      | None \<Rightarrow> if looks_structured act then Some ''Invalid structured review action'' else None
      | _ \<Rightarrow> None)"

definition approved_scope :: "loop_env \<Rightarrow> tool_call_context \<Rightarrow> string option \<Rightarrow> validated_scope option" where
  "approved_scope env ctx act =
     (case parse_action env act of
        Some (PScopedAllow request) \<Rightarrow>
          (case validate_scoped_allow (le_scope_env env) request (display_call (call_type ctx)) of Inr sc \<Rightarrow> Some sc | Inl _ \<Rightarrow> None)
      | _ \<Rightarrow> None)"

definition drained_end :: review_end where
  "drained_end = \<lparr> re_outcome = ReviewApproved, re_action = Some ''scope_drain'', re_scope = None, re_drained = True \<rparr>"

text \<open>The review has ended: \<open>Inl\<close> is its result, \<open>Inr\<close> a rejected approval that waits again.\<close>

definition conclude_review ::
    "loop_env \<Rightarrow> tool_call_context \<Rightarrow> uuid \<Rightarrow> instant \<Rightarrow> review_outcome \<Rightarrow> 'p supervisor \<Rightarrow> review_end option \<times> 'p supervisor" where
  "conclude_review env ctx digest_id now outcome s0 =
     (let s = note_review_attendance env outcome s0;
          act = Option.bind (store_get env now digest_id s) di_review_action;
          end_with = (\<lambda>out sc. Some \<lparr> re_outcome = out, re_action = act, re_scope = sc, re_drained = False \<rparr>)
      in if outcome \<noteq> ReviewApproved then (end_with outcome None, s)
         else case rejected_approval env ctx act of
             None \<Rightarrow> (end_with outcome (approved_scope env ctx act), s)
           | Some notes \<Rightarrow>
               (case store_update env now digest_id Pending None (Some notes) s of
                  (True, s) \<Rightarrow> (None, s)
                | (False, s) \<Rightarrow> (end_with ReviewDenied None, s)))"

text \<open>One poll: the drain by a grant made meanwhile, or the status somebody gave the item.\<close>

datatype poll = PollDrained | PollDrainFailed | PollStatus review_outcome | PollNothing | PollPanic

definition poll_review ::
    "loop_env \<Rightarrow> tool_call_context \<Rightarrow> uuid \<Rightarrow> instant \<Rightarrow> 'p supervisor \<Rightarrow> poll \<times> 'p supervisor" where
  "poll_review env ctx digest_id now s =
     (case session_scope_now_covers env (call_type ctx) s of
        None \<Rightarrow> (PollPanic, s)
      | Some True \<Rightarrow>
          (case store_update env now digest_id Approved (Some ''scope_drain'')
                  (Some ''auto-approved: a session scope granted during review covers this target'') s of
             (True, s) \<Rightarrow> (PollDrained, s)
           | (False, s) \<Rightarrow> (PollDrainFailed, s))
      | Some False \<Rightarrow>
          ((case map_option di_status (store_get env now digest_id s) of
              Some Approved \<Rightarrow> PollStatus ReviewApproved
            | Some StatusDenied \<Rightarrow> PollStatus ReviewDenied
            | Some Expired \<Rightarrow> PollStatus ReviewDenied
            | _ \<Rightarrow> PollNothing), s))"

fun review_loop ::
    "loop_env \<Rightarrow> tool_call_context \<Rightarrow> uuid \<Rightarrow> tick list \<Rightarrow> 'p supervisor \<Rightarrow> (review_end \<times> instant \<times> 'p supervisor) progress" where
  "review_loop env ctx digest_id [] s = StillWaiting"
| "review_loop env ctx digest_id (t # ts) s0 =
     (let s = absorb env t s0;
          wait = (\<lambda>s. review_loop env ctx digest_id ts s);
          conclude = (\<lambda>outcome s. case conclude_review env ctx digest_id (tk_now t) outcome s of
             (Some r, s) \<Rightarrow> Finished (r, tk_now t, s)
           | (None, s) \<Rightarrow> wait s)
      in case tk_end t of
           Some outcome \<Rightarrow> conclude outcome s
         | None \<Rightarrow>
             (case poll_review env ctx digest_id (tk_now t) s of
                (PollPanic, s) \<Rightarrow> Crashed
              | (PollDrained, s) \<Rightarrow> Finished (drained_end, tk_now t, note_review_attendance env ReviewApproved s)
              | (PollDrainFailed, s) \<Rightarrow> wait s
              | (PollStatus outcome, s) \<Rightarrow> conclude outcome s
              | (PollNothing, s) \<Rightarrow> wait s))"

subsection \<open>What an answer changes\<close>

definition ARROW :: string where
  "ARROW = [CHR '' '', CHR 0xE2, CHR 0x86, CHR 0x92, CHR '' '']"

definition learn_reason :: "json \<Rightarrow> string" where
  "learn_reason args =
     (case argument_process args of
        None \<Rightarrow> []
      | Some proc \<Rightarrow> (case argument_destination args of Some t \<Rightarrow> proc @ ARROW @ t | None \<Rightarrow> proc))"

definition learn_entry :: "loop_env \<Rightarrow> instant \<Rightarrow> string \<Rightarrow> string \<Rightarrow> string \<Rightarrow> 'p supervisor \<Rightarrow> 'p supervisor" where
  "learn_entry env now profile reason entry s =
     (if validate_persisted_rule entry \<noteq> None then s
      else s\<lparr>sv_learned := snd (append_learned_rule (le_learned_io env)
               \<lparr> lr_pattern = entry, lr_profile = profile, lr_scope = ''user'', lr_reason = reason,
                 lr_created_at = le_now_text env now, lr_created_by = [] \<rparr> (sv_learned s))\<rparr>)"

definition allowlist_entries :: "loop_env \<Rightarrow> tool_call_type \<Rightarrow> string list" where
  "allowlist_entries env call = approved_session_allowlist_entries (le_candidates env) (le_fs env) call"

definition option_list :: "'a option \<Rightarrow> 'a list" where
  "option_list x = (case x of Some a \<Rightarrow> [a] | None \<Rightarrow> [])"

definition ipc_grant_now :: "loop_env \<Rightarrow> tool_call_context \<Rightarrow> 'p supervisor \<Rightarrow> string option" where
  "ipc_grant_now env ctx s = (if containment_on env s then None else ipc_grant env ctx)"

definition dispatch_supervisor_review_side_effects ::
    "loop_env \<Rightarrow> instant \<Rightarrow> string option \<Rightarrow> tool_call_context \<Rightarrow> 'p supervisor \<Rightarrow> 'p supervisor" where
  "dispatch_supervisor_review_side_effects env now act ctx s =
     (if act = Some ''approve_and_learn'' then
        (case scope_name env of
           None \<Rightarrow> s
         | Some profile \<Rightarrow>
             fold (learn_entry env now profile (learn_reason (arguments ctx)))
               (allowlist_entries env (call_type ctx) @ option_list (ipc_grant_now env ctx s)) s)
      else if act = Some ''unlock_egress'' then s\<lparr>sv_containment := snd (tracker_unregister (session_id ctx) (sv_containment s))\<rparr>
      else if act = Some ''allow_always'' then s\<lparr>sv_persisted_allow := sv_persisted_allow s @ [ctx]\<rparr>
      else s)"

definition grant :: "string list \<Rightarrow> 'p supervisor \<Rightarrow> 'p supervisor" where
  "grant entries s = s\<lparr>sv_allowed := fold set_insert entries (sv_allowed s)\<rparr>"

definition block :: "string list \<Rightarrow> 'p supervisor \<Rightarrow> 'p supervisor" where
  "block rules s = s\<lparr>sv_denied := fold set_insert rules (sv_denied s)\<rparr>"

definition ssh_egress_grant :: "loop_env \<Rightarrow> u32 \<Rightarrow> tool_call_type \<Rightarrow> string option" where
  "ssh_egress_grant env event_pid call =
     (case call of
        NetConnect address port \<Rightarrow>
          if is_trusted_ssh_exe (\<lambda>pid. canonicalize_ok (le_fs env) (''/proc/'' @ digits_of_nat pid @ ''/exe'')) (unat event_pid)
          then Some (ssh_egress_key address port) else None
      | _ \<Rightarrow> None)"

text \<open>The entries a plain approval adds; none of the others when the call has no entry.\<close>

definition grants_of_approval :: "loop_env \<Rightarrow> u32 \<Rightarrow> tool_call_context \<Rightarrow> 'p supervisor \<Rightarrow> string list" where
  "grants_of_approval env event_pid ctx s =
     (let entries = allowlist_entries env (call_type ctx)
      in if entries = [] then []
         else entries @ option_list (ssh_egress_grant env event_pid (call_type ctx)) @ option_list (ipc_grant_now env ctx s) @
              option_list (tmp_self_created_prefix (call_type ctx)))"

definition remember :: "nat \<Rightarrow> instant \<Rightarrow> string \<Rightarrow> (string \<times> instant) list \<Rightarrow> (string \<times> instant) list" where
  "remember seconds now key recent =
     (if seconds > 0 then assoc_insert key now (filter (\<lambda>(_, t). nat (now - t) < secs seconds) recent) else recent)"

definition still_recent :: "nat \<Rightarrow> instant \<Rightarrow> string \<Rightarrow> (string \<times> instant) list \<Rightarrow> bool" where
  "still_recent seconds now key recent \<longleftrightarrow>
     secs seconds \<noteq> 0 \<and> (case map_of recent key of Some t \<Rightarrow> nat (now - t) < secs seconds | None \<Rightarrow> False)"

definition record_approval ::
    "loop_env \<Rightarrow> u32 \<Rightarrow> tool_call_context \<Rightarrow> instant \<Rightarrow> bool \<Rightarrow> review_end \<Rightarrow> 'p supervisor \<Rightarrow> 'p supervisor" where
  "record_approval env event_pid ctx now record_delegating_approval r s0 =
     (let replay_key = display_call (call_type ctx);
          s1 = dispatch_supervisor_review_side_effects env now (re_action r) ctx s0;
          s2 = (if record_delegating_approval then grant [delegating_approval_key (call_type ctx)] s1 else s1);
          s3 = (case re_scope r of
                  Some scope \<Rightarrow> grant (vs_rules scope) s2
                | None \<Rightarrow> grant (grants_of_approval env event_pid ctx s2) s2);
          weight = (if re_action r = Some ''approve_and_learn'' then 3 / 2 else 1);
          s4 = observe_reputation env now (call_type ctx) (RepApproved weight) (Some (arguments ctx)) s3;
          s5 = s4\<lparr>sv_recent_approvals := remember (cf_approve_replay_seconds (le_config env)) now replay_key (sv_recent_approvals s4)\<rparr>
      in if is_control_class_connect ctx then s5\<lparr>sv_socket_answers := assoc_insert replay_key True (sv_socket_answers s5)\<rparr> else s5)"

definition scoped_refusal :: "loop_env \<Rightarrow> review_end \<Rightarrow> scoped_deny_request option" where
  "scoped_refusal env r =
     (if re_outcome r = ReviewDenied
      then (case parse_action env (re_action r) of Some (PScopedDeny request) \<Rightarrow> Some request | _ \<Rightarrow> None)
      else None)"

definition record_denial :: "loop_env \<Rightarrow> tool_call_context \<Rightarrow> instant \<Rightarrow> review_end \<Rightarrow> 'p supervisor \<Rightarrow> 'p supervisor" where
  "record_denial env ctx now r s0 =
     (let replay_key = display_call (call_type ctx);
          s1 = (case scoped_refusal env r of
                  None \<Rightarrow> s0
                | Some request \<Rightarrow>
                    (case validate_scoped_deny (le_scope_env env) request (display_call (call_type ctx)) of
                       Inr scope \<Rightarrow> block (vs_rules scope) s0
                     | Inl _ \<Rightarrow> s0));
          terminate = (re_action r = Some ''deny_and_terminate'');
          s2 = (if terminate then kill_supervised_process_tree s1 else s1);
          weight = (if terminate then terminate_deny_weight (le_rep_config env) else manual_deny_weight (le_rep_config env));
          s3 = observe_reputation env now (call_type ctx) (RepDenied weight) (Some (arguments ctx)) s2;
          s4 = s3\<lparr>sv_recent_denials := remember (cf_deny_replay_seconds (le_config env)) now replay_key (sv_recent_denials s3)\<rparr>
      in if re_outcome r = ReviewDenied \<and> is_control_class_connect ctx
         then s4\<lparr>sv_socket_answers := assoc_insert replay_key False (sv_socket_answers s4)\<rparr> else s4)"

definition implicit_denial :: "loop_env \<Rightarrow> instant \<Rightarrow> tool_call_type \<Rightarrow> 'p supervisor \<Rightarrow> 'p supervisor" where
  "implicit_denial env now call s = observe_reputation env now call (RepDenied (implicit_deny_weight (le_rep_config env))) None s"

definition settle_review ::
    "loop_env \<Rightarrow> tool_call_context \<Rightarrow> u32 \<Rightarrow> u32 \<Rightarrow> bool \<Rightarrow> bool \<Rightarrow> instant \<Rightarrow> review_end \<Rightarrow> 'p supervisor \<Rightarrow> call_outcome \<times> 'p supervisor" where
  "settle_review env ctx tid event_pid kill_on_deny record_delegating_approval now r s =
     (if re_outcome r = ReviewApproved
      then (Executed,
            thaw_and_resume tid True kill_on_deny
              (if re_drained r then s else record_approval env event_pid ctx now record_delegating_approval r s))
      else (Denied, count_denied (thaw_and_resume tid False kill_on_deny (record_denial env ctx now r s))))"

subsection \<open>The review of a queued call\<close>

text \<open>The answers of the operator that settle a queued call without a new prompt.\<close>

definition replay ::
    "loop_env \<Rightarrow> tool_call_context \<Rightarrow> u32 \<Rightarrow> bool \<Rightarrow> instant \<Rightarrow> 'p supervisor \<Rightarrow> (call_outcome \<times> 'p supervisor) option" where
  "replay env ctx tid kill_on_deny now s =
     (let key = display_call (call_type ctx);
          allow = (Executed, count_allowed (thaw_and_resume tid True kill_on_deny s));
          refuse = (Denied, count_denied (thaw_and_resume tid False kill_on_deny (implicit_denial env now (call_type ctx) s)))
      in if still_recent (cf_deny_replay_seconds (le_config env)) now key (sv_recent_denials s) then Some refuse
         else if is_control_class_connect ctx \<and> map_of (sv_socket_answers s) key \<noteq> None
         then Some (if map_of (sv_socket_answers s) key = Some True then allow else refuse)
         else if still_recent (cf_approve_replay_seconds (le_config env)) now key (sv_recent_approvals s) \<and> \<not> containment_on env s
         then Some allow
         else None)"

definition queue_and_wait ::
    "loop_env \<Rightarrow> uuid \<Rightarrow> tool_call_context \<Rightarrow> proxy_decision \<Rightarrow> u32 \<Rightarrow> u32 \<Rightarrow> bool \<Rightarrow> bool \<Rightarrow> instant \<Rightarrow> tick list \<Rightarrow>
     'p supervisor \<Rightarrow> (call_outcome \<times> 'p supervisor) progress" where
  "queue_and_wait env fresh ctx decision tid event_pid kill_on_deny record_delegating_approval now ticks s =
     (case replay env ctx tid kill_on_deny now s of
        Some answer \<Rightarrow> Finished answer
      | None \<Rightarrow>
          (case review_loop env ctx fresh ticks (count_queued (store_enqueue env (build_digest_item env fresh now ctx decision) s)) of
             StillWaiting \<Rightarrow> StillWaiting
           | Crashed \<Rightarrow> Crashed
           | Finished (r, t, s) \<Rightarrow> Finished (settle_review env ctx tid event_pid kill_on_deny record_delegating_approval t r s)))"

subsection \<open>Enforcement\<close>

definition enforce_allow :: "loop_env \<Rightarrow> tool_call_context \<Rightarrow> u32 \<Rightarrow> 'p supervisor \<Rightarrow> call_outcome \<times> 'p supervisor" where
  "enforce_allow env ctx tid s0 =
     (let (failed, mem) = maybe_clamp_listen_address ctx (sv_memory s0); s = s0\<lparr>sv_memory := mem\<rparr>
      in if failed \<noteq> None then (Denied, count_denied (give (VDeny tid) s))
         else (Executed, grant (option_list (tmp_self_created_prefix (call_type ctx))) (count_allowed (give (VAllow tid) s))))"

definition informational :: "loop_env \<Rightarrow> uuid \<Rightarrow> instant \<Rightarrow> tool_call_context \<Rightarrow> proxy_decision \<Rightarrow> 'p supervisor \<Rightarrow> 'p supervisor" where
  "informational env fresh now ctx decision s =
     store_enqueue env ((build_digest_item env fresh now ctx decision)\<lparr>di_informational_only := True\<rparr>) s"

text \<open>Calls the kernel will refuse by itself: the program is missing, or nobody listens on the loopback port.\<close>

definition kernel_refuses :: "loop_env \<Rightarrow> tool_call_type \<Rightarrow> bool" where
  "kernel_refuses env call =
     (case call of
        ProcessSpawn command _ \<Rightarrow> exec_path_clearly_missing (le_fs env) (le_env_var env ''PATH'') command
      | NetConnect address port \<Rightarrow> is_loopback_connect_address address \<and> \<not> loopback_port_has_listener (le_fs env) port
      | _ \<Rightarrow> False)"

definition enforce_decision ::
    "loop_env \<Rightarrow> uuid \<Rightarrow> tool_call_context \<Rightarrow> proxy_decision \<Rightarrow> u32 \<Rightarrow> u32 \<Rightarrow> bool \<Rightarrow> bool \<Rightarrow> instant \<Rightarrow> tick list \<Rightarrow>
     'p supervisor \<Rightarrow> (call_outcome \<times> 'p supervisor) progress" where
  "enforce_decision env fresh ctx decision tid event_pid kill_on_deny record_delegating_approval now ticks s =
     (case action decision of
        Allow \<Rightarrow> Finished (enforce_allow env ctx tid s)
      | Queue _ \<Rightarrow>
          if kernel_refuses env (call_type ctx) then Finished (KernelRefused, count_allowed (give (VAllow tid) s))
          else if cf_queue_action (le_config env) = QueueLog \<and> \<not> contamination_signalled decision
          then Finished (ObservedOnly, count_queued (give (VAllow tid) (informational env fresh now ctx decision s)))
          else if cf_queue_action (le_config env) = QueueDeny
          then Finished (Denied, count_denied (deny_or_kill tid kill_on_deny (informational env fresh now ctx decision s)))
          else queue_and_wait env fresh ctx decision tid event_pid kill_on_deny record_delegating_approval now ticks s
      | Deny _ \<Rightarrow>
          Finished (Denied, count_denied (implicit_denial env now (call_type ctx) (deny_or_kill tid kill_on_deny s))))"

subsection \<open>One verdict\<close>

text \<open>What only changes the books leaves the verdicts alone.\<close>

named_theorems verdict_simps \<open>the verdicts after a step\<close>

lemma verdicts_books [verdict_simps]:
  "sv_verdicts (count_allowed s) = sv_verdicts s" "sv_verdicts (count_denied s) = sv_verdicts s"
  "sv_verdicts (count_queued s) = sv_verdicts s" "sv_verdicts (count_noise s) = sv_verdicts s"
  "sv_verdicts (grant entries s) = sv_verdicts s" "sv_verdicts (block entries s) = sv_verdicts s"
  "sv_verdicts (observe_reputation env now call outcome args s) = sv_verdicts s"
  "sv_verdicts (implicit_denial env now call s) = sv_verdicts s"
  "sv_verdicts (kill_supervised_process_tree s) = sv_verdicts s"
  "sv_verdicts (store_enqueue env item s) = sv_verdicts s"
  "sv_verdicts (note_review_attendance env out s) = sv_verdicts s"
  "sv_verdicts (informational env fresh now ctx d s) = sv_verdicts s"
  "sv_verdicts (absorb env t s) = sv_verdicts s"
  by (simp_all add: count_allowed_def count_denied_def count_queued_def count_noise_def grant_def block_def observe_reputation_def
      implicit_denial_def kill_supervised_process_tree_def store_enqueue_def note_review_attendance_def informational_def absorb_def
      split: option.split sum.split)

lemma verdicts_store [verdict_simps]: "sv_verdicts (snd (store_update env now i st act msg s)) = sv_verdicts s"
  by (simp add: store_update_def split: sum.split)

lemma verdicts_give [verdict_simps]:
  "sv_verdicts (give v s) = sv_verdicts s @ [v]"
  "sv_verdicts (deny_or_kill tid k s) = sv_verdicts s @ [if k then VKill tid else VDeny tid]"
  "sv_verdicts (thaw_and_resume tid allow k s) = sv_verdicts s @ [if allow then VAllow tid else if k then VKill tid else VDeny tid]"
  by (simp_all add: give_def deny_or_kill_def thaw_and_resume_def)

lemma verdicts_learn: "sv_verdicts (fold (learn_entry env now profile reason) entries s) = sv_verdicts s"
  by (induction entries arbitrary: s) (simp_all add: learn_entry_def)

lemma verdicts_effects [verdict_simps]: "sv_verdicts (dispatch_supervisor_review_side_effects env now act ctx s) = sv_verdicts s"
  by (simp add: dispatch_supervisor_review_side_effects_def verdicts_learn split: option.split)

lemma verdicts_records [verdict_simps]:
  "sv_verdicts (record_approval env pid ctx now rec r s) = sv_verdicts s"
  "sv_verdicts (record_denial env ctx now r s) = sv_verdicts s"
  by (simp_all add: record_approval_def record_denial_def Let_def verdict_simps split: option.split sum.split)

lemma store_update_pair: "store_update env now i st act msg s = (b, s') \<Longrightarrow> sv_verdicts s' = sv_verdicts s"
  using verdicts_store [of env now i st act msg s] by simp

lemma verdicts_conclude:
  assumes "conclude_review env ctx i now out s = (r, s')"
  shows "sv_verdicts s' = sv_verdicts s"
proof -
  define s1 where "s1 = note_review_attendance env out s"
  define act where "act = Option.bind (store_get env now i s1) di_review_action"
  have s1: "sv_verdicts s1 = sv_verdicts s" by (simp add: s1_def verdict_simps)
  show ?thesis
  proof (cases "out \<noteq> ReviewApproved \<or> rejected_approval env ctx act = None")
    case True
    then have "s' = s1" using assms by (auto simp: conclude_review_def Let_def s1_def [symmetric] act_def [symmetric] split: if_splits)
    then show ?thesis by (simp add: s1)
  next
    case False
    then obtain why where n: "rejected_approval env ctx act = Some why" and o: "out = ReviewApproved" by auto
    obtain b s2 where u: "store_update env now i Pending None (Some why) s1 = (b, s2)" by fastforce
    have "s' = s2" using assms n u by (cases b) (simp_all add: conclude_review_def Let_def s1_def act_def o)
    then show ?thesis using store_update_pair [OF u] s1 by simp
  qed
qed

lemma verdicts_poll: "poll_review env ctx i now s = (p, s') \<Longrightarrow> sv_verdicts s' = sv_verdicts s"
  unfolding poll_review_def by (auto split: option.splits prod.splits bool.splits dest: store_update_pair)

lemma verdicts_review_loop: "review_loop env ctx i ts s = Finished (r, now, s') \<Longrightarrow> sv_verdicts s' = sv_verdicts s"
proof (induction ts arbitrary: s)
  case (Cons t ts)
  define s1 where "s1 = absorb env t s"
  have s1: "sv_verdicts s1 = sv_verdicts s" by (simp add: s1_def verdict_simps)
  have con: "sv_verdicts s' = sv_verdicts s2"
    if "(case conclude_review env ctx i (tk_now t) out s2 of (Some r, s) \<Rightarrow> Finished (r, tk_now t, s) | (None, s) \<Rightarrow> review_loop env ctx i ts s) =
        Finished (r, now, s')" for out s2
    using that Cons.IH verdicts_conclude [of env ctx i "tk_now t" out s2] by (auto split: prod.splits option.splits)
  show ?case
  proof (cases "tk_end t")
    case (Some out)
    then show ?thesis using Cons.prems con s1 by (simp add: Let_def s1_def [symmetric])
  next
    case None
    obtain p s2 where p: "poll_review env ctx i (tk_now t) s1 = (p, s2)" by fastforce
    note v = verdicts_poll [OF p]
    show ?thesis using Cons.prems None p con Cons.IH [of s2] s1 v
      by (cases p) (auto simp: Let_def s1_def [symmetric] verdict_simps)
  qed
qed simp

text \<open>
  A finished enforcement gives the stopped thread exactly one verdict; the verdict is an allow exactly
  when the outcome is not a refusal, and a spawn that must die on refusal is killed, never only denied.
\<close>

definition verdict_of :: "u32 \<Rightarrow> bool \<Rightarrow> tool_call_type \<Rightarrow> call_outcome \<Rightarrow> verdict \<Rightarrow> bool" where
  "verdict_of tid kill_on_deny call out v \<longleftrightarrow>
     (if out = Denied then v = (if kill_on_deny then VKill tid else VDeny tid) \<or> (v = VDeny tid \<and> (\<exists>a p. call = NetListen a p))
      else v = VAllow tid)"

lemma clamp_only_listens: "fst (maybe_clamp_listen_address ctx mem) \<noteq> None \<Longrightarrow> \<exists>a p. call_type ctx = NetListen a p"
  by (auto simp: maybe_clamp_listen_address_def split: tool_call_type.splits)

lemma one_verdict_per_decision:
  assumes "enforce_decision env fresh ctx decision tid event_pid kill_on_deny rec now ticks s = Finished (out, s')"
  shows "\<exists>v. sv_verdicts s' = sv_verdicts s @ [v] \<and> verdict_of tid kill_on_deny (call_type ctx) out v"
proof (cases "action decision")
  case Allow
  obtain failed mem where m: "maybe_clamp_listen_address ctx (sv_memory s) = (failed, mem)" by fastforce
  then have "failed \<noteq> None \<Longrightarrow> \<exists>a p. call_type ctx = NetListen a p" using clamp_only_listens [of ctx "sv_memory s"] by simp
  then show ?thesis using assms Allow m
    by (auto simp: enforce_decision_def enforce_allow_def Let_def verdict_simps verdict_of_def split: if_splits)
next
  case (Deny reason)
  then show ?thesis using assms by (auto simp: enforce_decision_def verdict_simps verdict_of_def)
next
  case (Queue prio)
  let ?q = "queue_and_wait env fresh ctx decision tid event_pid kill_on_deny rec now ticks s"
  let ?i = "informational env fresh now ctx decision s"
  have e: "enforce_decision env fresh ctx decision tid event_pid kill_on_deny rec now ticks s =
      (if kernel_refuses env (call_type ctx) then Finished (KernelRefused, count_allowed (give (VAllow tid) s))
       else if cf_queue_action (le_config env) = QueueLog \<and> \<not> contamination_signalled decision
       then Finished (ObservedOnly, count_queued (give (VAllow tid) ?i))
       else if cf_queue_action (le_config env) = QueueDeny then Finished (Denied, count_denied (deny_or_kill tid kill_on_deny ?i))
       else ?q)"
    by (simp only: enforce_decision_def Queue proxy_action.case)
  consider "?q = Finished (out, s')" | "out = KernelRefused \<and> s' = count_allowed (give (VAllow tid) s)"
    | "out = ObservedOnly \<and> s' = count_queued (give (VAllow tid) ?i)" | "out = Denied \<and> s' = count_denied (deny_or_kill tid kill_on_deny ?i)"
    using assms unfolding e by (metis prod.inject progress.inject)
  then show ?thesis
  proof cases
    case 1
    show ?thesis
    proof (cases "replay env ctx tid kill_on_deny now s")
      case (Some answer)
      then have "answer = (out, s')" using 1 by (simp add: queue_and_wait_def)
      with Some show ?thesis by (auto simp: replay_def Let_def verdict_simps verdict_of_def split: if_splits)
    next
      case None
      then obtain r t s1 where l: "review_loop env ctx fresh ticks (count_queued (store_enqueue env (build_digest_item env fresh now ctx decision) s)) =
            Finished (r, t, s1)"
          and o: "(out, s') = settle_review env ctx tid event_pid kill_on_deny rec t r s1"
        using 1 by (auto simp: queue_and_wait_def split: progress.splits)
      have "sv_verdicts s1 = sv_verdicts s" using verdicts_review_loop [OF l] by (simp add: verdict_simps)
      then show ?thesis using o by (auto simp: settle_review_def verdict_simps verdict_of_def split: if_splits)
    qed
  qed (auto simp: verdict_simps verdict_of_def)
qed

subsection \<open>Why a queued call goes through\<close>

text \<open>How a review can end: drained by a grant that covers the call, or concluded on the stored action.\<close>

definition concluded :: "loop_env \<Rightarrow> tool_call_context \<Rightarrow> review_end \<Rightarrow> bool" where
  "concluded env ctx r \<longleftrightarrow>
     \<not> re_drained r \<and>
     (if re_outcome r = ReviewApproved
      then rejected_approval env ctx (re_action r) = None \<and> re_scope r = approved_scope env ctx (re_action r)
      else re_scope r = None)"

definition drained_by :: "loop_env \<Rightarrow> tool_call_context \<Rightarrow> tick list \<Rightarrow> 'p supervisor \<Rightarrow> bool" where
  "drained_by env ctx ts s \<longleftrightarrow>
     session_scope_now_covers env (call_type ctx) s = Some True \<and> sv_registry s \<in> tk_registry ` set ts"

lemma conclude_review_concluded: "conclude_review env ctx i now out s = (Some r, s') \<Longrightarrow> concluded env ctx r"
  unfolding conclude_review_def Let_def concluded_def
  by (auto split: if_splits option.splits prod.splits bool.splits)

lemma poll_review_drained: "poll_review env ctx i now s = (PollDrained, s') \<Longrightarrow> session_scope_now_covers env (call_type ctx) s = Some True"
  unfolding poll_review_def by (auto split: option.splits bool.splits digest_status.splits)

lemma review_loop_end:
  "review_loop env ctx i ts s = Finished (r, now, s') \<Longrightarrow> concluded env ctx r \<or> (r = drained_end \<and> (\<exists>s1 :: 'p supervisor. drained_by env ctx ts s1))"
  for s :: "'p supervisor"
proof (induction ts arbitrary: s)
  case (Cons t ts)
  define s1 where "s1 = absorb env t s"
  have more: "drained_by env ctx ts s2 \<Longrightarrow> drained_by env ctx (t # ts) s2" for s2 :: "'p supervisor"
    by (auto simp: drained_by_def)
  have con: ?case
    if "(case conclude_review env ctx i (tk_now t) out s2 of (Some r, s) \<Rightarrow> Finished (r, tk_now t, s) | (None, s) \<Rightarrow> review_loop env ctx i ts s) =
        Finished (r, now, s')" for out s2
    using that Cons.IH conclude_review_concluded [of env ctx i "tk_now t" out s2] more by (fastforce split: prod.splits option.splits)
  show ?case
  proof (cases "tk_end t")
    case (Some out)
    then show ?thesis using Cons.prems con by (simp add: Let_def s1_def [symmetric])
  next
    case None
    obtain p s2 where p: "poll_review env ctx i (tk_now t) s1 = (p, s2)" by fastforce
    have reg: "sv_registry s1 = tk_registry t" by (simp add: s1_def absorb_def)
    show ?thesis
    proof (cases p)
      case PollDrained
      then have "drained_by env ctx (t # ts) s1" using poll_review_drained [of env ctx i "tk_now t" s1 s2] p reg by (simp add: drained_by_def)
      moreover have "r = drained_end" using Cons.prems None p PollDrained by (simp add: Let_def s1_def [symmetric])
      ultimately show ?thesis by blast
    next
      case PollDrainFailed
      then show ?thesis using Cons.prems None p Cons.IH [of s2] more by (auto simp: Let_def s1_def [symmetric])
    next
      case (PollStatus out)
      then show ?thesis using Cons.prems None p con [of out s2] by (simp add: Let_def s1_def [symmetric])
    next
      case PollNothing
      then show ?thesis using Cons.prems None p Cons.IH [of s2] more by (auto simp: Let_def s1_def [symmetric])
    next
      case PollPanic
      then show ?thesis using Cons.prems None p by (simp add: Let_def s1_def [symmetric])
    qed
  qed
qed simp

abbreviation queued_state :: "loop_env \<Rightarrow> uuid \<Rightarrow> instant \<Rightarrow> tool_call_context \<Rightarrow> proxy_decision \<Rightarrow> 'p supervisor \<Rightarrow> 'p supervisor" where
  "queued_state env fresh now ctx decision s \<equiv> count_queued (store_enqueue env (build_digest_item env fresh now ctx decision) s)"

lemma queue_and_wait_cases:
  assumes "queue_and_wait env fresh ctx decision tid event_pid k rec now ticks s = Finished (out, s')"
  obtains (replayed) "replay env ctx tid k now s = Some (out, s')"
  | (reviewed) r t s1 where "replay env ctx tid k now s = None"
      "review_loop env ctx fresh ticks (queued_state env fresh now ctx decision s) = Finished (r, t, s1)"
      "(out, s') = settle_review env ctx tid event_pid k rec t r s1"
  using assms by (auto simp: queue_and_wait_def split: option.splits progress.splits)

text \<open>
  C5. While the session is contained no grant and no earlier approval lets a queued call through: somebody
  answered this review, or answered the prompt for the same control socket earlier in the session.
\<close>

theorem contained_calls_need_an_answer:
  assumes "containment_on env s"
    and "\<forall>t \<in> set ticks. is_containment_active (from_session_id (le_session_id env)) (tk_registry t)"
    and "queue_and_wait env fresh ctx decision tid event_pid k rec now ticks s = Finished (Executed, s')"
  shows "(is_control_class_connect ctx \<and> map_of (sv_socket_answers s) (display_call (call_type ctx)) = Some True) \<or>
     (\<exists>r t s1. review_loop env ctx fresh ticks (queued_state env fresh now ctx decision s) = Finished (r, t, s1) \<and>
        re_outcome r = ReviewApproved \<and> \<not> re_drained r \<and> rejected_approval env ctx (re_action r) = None)"
  using assms(3)
proof (cases rule: queue_and_wait_cases)
  case replayed
  then show ?thesis using assms(1) by (auto simp: replay_def Let_def split: if_splits)
next
  case (reviewed r t s1)
  have appr: "re_outcome r = ReviewApproved" using reviewed(3) by (auto simp: settle_review_def split: if_splits)
  from review_loop_end [OF reviewed(2)] show ?thesis
  proof
    assume "concluded env ctx r"
    then show ?thesis using reviewed(2) appr by (auto simp: concluded_def)
  next
    assume "r = drained_end \<and> (\<exists>s1 :: 'a supervisor. drained_by env ctx ticks s1)"
    then obtain s2 :: "'a supervisor" where "drained_by env ctx ticks s2" by blast
    then have "session_scope_now_covers env (call_type ctx) s2 = Some True" "containment_on env s2"
      using assms(2) by (auto simp: drained_by_def containment_on_def)
    then show ?thesis by (simp add: session_scope_now_covers_def)
  qed
qed

lemma allowed_books:
  "sv_allowed (observe_reputation env now call outcome args s) = sv_allowed s"
  "sv_allowed (give v s) = sv_allowed s"
  by (simp_all add: observe_reputation_def give_def split: option.split)

lemma allowed_learn: "sv_allowed (fold (learn_entry env now profile reason) entries s) = sv_allowed s"
  by (induction entries arbitrary: s) (simp_all add: learn_entry_def)

lemma allowed_effects: "sv_allowed (dispatch_supervisor_review_side_effects env now act ctx s) = sv_allowed s"
  by (simp add: dispatch_supervisor_review_side_effects_def allowed_learn split: option.split)

text \<open>
  C13. A call approved with a scope: the scope was validated for this very call, and the session gains its
  rules and nothing else, apart from the exact command of a delegating spawn.
\<close>

theorem scoped_approval_grants_its_rules:
  assumes "review_loop env ctx i ticks s = Finished (r, now, s1)" and "re_outcome r = ReviewApproved" and "\<not> re_drained r"
    and "parse_action env (re_action r) = Some (PScopedAllow request)"
  shows "\<exists>scope. validate_scoped_allow (le_scope_env env) request (display_call (call_type ctx)) = Inr scope \<and>
     set (sv_allowed (snd (settle_review env ctx tid event_pid k rec now r s1))) =
       set (sv_allowed s1) \<union> set (vs_rules scope) \<union> (if rec then {delegating_approval_key (call_type ctx)} else {})"
proof -
  have "concluded env ctx r" using review_loop_end [OF assms(1)] assms(3) by (auto simp: drained_end_def)
  then have c: "rejected_approval env ctx (re_action r) = None" "re_scope r = approved_scope env ctx (re_action r)"
    using assms(2) by (simp_all add: concluded_def)
  then obtain scope where v: "validate_scoped_allow (le_scope_env env) request (display_call (call_type ctx)) = Inr scope"
    using assms(4) by (auto simp: rejected_approval_def split: sum.splits)
  then have sc: "re_scope r = Some scope" using c(2) assms(4) by (simp add: approved_scope_def)
  have ins: "set (fold set_insert xs ys) = set xs \<union> set ys" for xs ys :: "string list"
    by (induction xs arbitrary: ys) (auto simp: set_insert_def)
  have "set (sv_allowed (record_approval env event_pid ctx now rec r s1)) =
      set (sv_allowed s1) \<union> set (vs_rules scope) \<union> (if rec then {delegating_approval_key (call_type ctx)} else {})"
    by (auto simp: record_approval_def Let_def sc allowed_books allowed_effects grant_def ins set_insert_def)
  then show ?thesis using v assms(2,3) by (simp add: settle_review_def thaw_and_resume_def allowed_books)
qed

subsection \<open>A concrete session\<close>

definition sample_config :: loop_config where
  "sample_config =
     \<lparr> cf_queue_action = QueueFreeze, cf_deny_replay_seconds = 30, cf_approve_replay_seconds = 30, cf_freeze_timeout_seconds = 300,
       cf_unattended_streak = 3, cf_unattended_timeout_seconds = 20, cf_enforce_spawn = True, cf_enforce_control_socket = True,
       cf_ignore_read_only = True, cf_batch_rapid_reads = True, cf_pty_ownership_enforce = False, cf_category1_hard_deny = True,
       cf_category2_proxy = True, cf_category2_crossprocess = True, cf_category3_namespace = True, cf_category4_arch_priv = True,
       cf_deny_self_seccomp_notify = True \<rparr>"

definition local_only :: remote_config where
  "local_only = silent_daemon\<lparr>rm_url := None\<rparr>"

definition sample_env :: loop_env where
  "sample_env =
     \<lparr> le_config = sample_config, le_scope_env = plain_env, le_read_link = (\<lambda>_. None), le_env_var = (\<lambda>_. None), le_own_pid = 1,
       le_sha256_hex = (\<lambda>_. ''00''), le_candidates = (\<lambda>_. None), le_render_candidates = (\<lambda>_. []),
       le_reverse_dns = (\<lambda>_. None), le_of_json = (\<lambda>_. None), le_codecs = sample_codecs,
       le_summary = (\<lambda>_ _. []), le_now_text = (\<lambda>_. []), le_rep_clock = (\<lambda>_. still_clock), le_rep_config = reputation_config_default,
       le_remote = local_only, le_learned_io = None, le_session_id = 1, le_tool_name = ''dev'', le_profile_name = Some ''dev'',
       le_policy_scope = None, le_project_name = None, le_dns_inspection = False, le_dns_forward = False, le_dbus_armed = False, le_routine_exec_roots = [],
       le_namespace_users = [], le_permit_delegating = [], le_permit_control_sockets = [],
       le_pins = \<lparr> pin_sizes = [], pin_hashes = [] \<rparr>,
       le_destruction_roots = \<lparr> dr_home = None, dr_working_root = None, dr_workspace_roots = [], dr_routine_roots = [], dr_scratch_roots = [] \<rparr>,
       le_workspace = None, le_listeners = [], le_yama = None \<rparr>"

definition quiet_stats :: session_stats where
  "quiet_stats = \<lparr> total_intercepted = 0, total_allowed = 0, total_queued = 0, total_denied = 0, total_filtered_noise = 0, foreign_abi_denied = 0 \<rparr>"

definition sample_state :: "registry \<Rightarrow> unit supervisor" where
  "sample_state reg =
     \<lparr> sv_allowed = [], sv_denied = [], sv_recent_denials = [], sv_recent_approvals = [], sv_socket_answers = [], sv_stats = quiet_stats,
       sv_tree = tree_new 7 ''dev'', sv_spawn_recorded = [], sv_batch = batch_new 200, sv_destruction = mdt_with_defaults,
       sv_reputation = [], sv_reputation_sent = [], sv_containment = tracker_with_defaults, sv_registry = reg, sv_unanswered = 0,
       sv_digest = [], sv_remote = remote_initial ''t'', sv_proxy = (), sv_learned = FileAbsent, sv_persisted_allow = [],
       sv_dns_cache = dns_cache_new, sv_dns_confirm = None, sv_dns_finished = [], sv_memory = (\<lambda>_. Some 0), sv_verdicts = [], sv_killed = [] \<rparr>"

definition contained_registry :: registry where
  "contained_registry = registry_activate (from_session_id 1) (Manual ''taint'') 0 registry_fresh"

definition answer_at :: "instant \<Rightarrow> review_outcome \<Rightarrow> registry \<Rightarrow> tick" where
  "answer_at t out reg = \<lparr> tk_now = t, tk_store = [], tk_granted = [], tk_registry = reg, tk_end = Some out \<rparr>"

definition outcome_of :: "(call_outcome \<times> 'p supervisor) progress \<Rightarrow> call_outcome option" where
  "outcome_of p = (case p of Finished (out, _) \<Rightarrow> Some out | _ \<Rightarrow> None)"

lemma contained_registry_active: "is_containment_active (from_session_id 1) contained_registry"
  by code_simp

lemma sample_contained: "containment_on sample_env (sample_state contained_registry)"
  by (simp add: containment_on_def sample_env_def sample_state_def contained_registry_active)

text \<open>An approval without an action, given at the first turn.\<close>

lemma answered_at_once:
  assumes "replay env ctx tid k now s = None" and "tk_end t = Some ReviewApproved"
    and "Option.bind (store_get env (tk_now t) fresh (note_review_attendance env ReviewApproved (absorb env t (queued_state env fresh now ctx d s))))
           di_review_action = None"
  shows "\<exists>s'. queue_and_wait env fresh ctx d tid pid k rec now [t] s = Finished (Executed, s')"
proof -
  have "rejected_approval env ctx None = None" by (simp add: rejected_approval_def parse_action_def looks_structured_def)
  then show ?thesis using assms
    by (simp add: queue_and_wait_def conclude_review_def Let_def settle_review_def)
qed

lemma sample_approved:
  "\<exists>s'. queue_and_wait sample_env 5 plain_call (queued_with 4) 8 7 False False 0 [answer_at 9 ReviewApproved contained_registry]
     (sample_state contained_registry) = Finished (Executed, s')"
proof (rule answered_at_once)
  show "replay sample_env plain_call 8 False 0 (sample_state contained_registry) = None"
    by (simp add: replay_def Let_def still_recent_def sample_state_def sample_contained [unfolded sample_state_def])
qed (simp_all add: answer_at_def store_get_def absorb_def note_review_attendance_def count_queued_def store_enqueue_def enqueue_def
    sample_state_def sample_env_def get_by_id_def item_to_row_def row_to_item_def build_digest_item_def split: option.split)

theorem contained_calls_need_an_answer_witness:
  "\<exists>r t s1. review_loop sample_env plain_call 5 [answer_at 9 ReviewApproved contained_registry]
       (queued_state sample_env 5 0 plain_call (queued_with 4) (sample_state contained_registry)) = Finished (r, t, s1) \<and>
     re_outcome r = ReviewApproved \<and> \<not> re_drained r \<and> rejected_approval sample_env plain_call (re_action r) = None"
proof -
  obtain s' where f: "queue_and_wait sample_env 5 plain_call (queued_with 4) 8 7 False False 0 [answer_at 9 ReviewApproved contained_registry]
      (sample_state contained_registry) = Finished (Executed, s')" using sample_approved by blast
  have "\<forall>t \<in> set [answer_at 9 ReviewApproved contained_registry]. is_containment_active (from_session_id (le_session_id sample_env)) (tk_registry t)"
    by (simp add: answer_at_def sample_env_def contained_registry_active)
  from contained_calls_need_an_answer [OF sample_contained this f] show ?thesis by (simp add: sample_state_def)
qed

definition scoped_env :: loop_env where
  "scoped_env = sample_env\<lparr>le_of_json := (\<lambda>v. if v = ''{}'' then Some (PScopedAllow out_request) else None)\<rparr>"

definition scoped_call :: tool_call_context where
  "scoped_call = context_new 0 0 ''supervisor:dev'' (FileDelete ''/home/u/w/out/a'') 1"

definition scoped_tick :: tick where
  "scoped_tick = \<lparr> tk_now = 9, tk_store = [(8, StoreStatus 5 Approved (Some ''{}'') None)], tk_granted = [], tk_registry = registry_fresh,
     tk_end = Some ReviewApproved \<rparr>"

lemma scoped_review:
  "\<exists>r s1. review_loop scoped_env scoped_call 5 [scoped_tick] (queued_state scoped_env 5 0 scoped_call (queued_with 4) (sample_state registry_fresh))
     = Finished (r, 9, s1) \<and> re_outcome r = ReviewApproved \<and> \<not> re_drained r \<and> re_action r = Some ''{}''"
proof -
  let ?s = "note_review_attendance scoped_env ReviewApproved (absorb scoped_env scoped_tick
      (queued_state scoped_env 5 0 scoped_call (queued_with 4) (sample_state registry_fresh)))"
  have "Option.bind (store_get scoped_env 9 5 ?s) di_review_action = Some ''{}''"
    by (simp add: scoped_tick_def store_get_def absorb_def note_review_attendance_def count_queued_def store_enqueue_def enqueue_def
        sample_state_def scoped_env_def sample_env_def get_by_id_def item_to_row_def row_to_item_def build_digest_item_def
        or_unchanged_def update_status_def update_where_def sample_codecs_def)
  moreover have "rejected_approval scoped_env scoped_call (Some ''{}'') = None"
    using out_request_valid
    by (simp add: rejected_approval_def parse_action_def from_storage_value_def scoped_env_def sample_env_def scoped_call_def context_new_def)
  ultimately show ?thesis by (simp add: conclude_review_def Let_def) (simp add: scoped_tick_def conclude_review_def Let_def)
qed

theorem scoped_approval_grants_its_rules_witness:
  "\<exists>r s1. review_loop scoped_env scoped_call 5 [scoped_tick] (queued_state scoped_env 5 0 scoped_call (queued_with 4) (sample_state registry_fresh))
     = Finished (r, 9, s1) \<and>
     ''delete-prefix:/home/u/w/out/'' \<in> set (sv_allowed (snd (settle_review scoped_env scoped_call 8 7 False False 9 r s1)))"
proof -
  obtain r and s1 :: "unit supervisor" where l: "review_loop scoped_env scoped_call 5 [scoped_tick]
        (queued_state scoped_env 5 0 scoped_call (queued_with 4) (sample_state registry_fresh)) = Finished (r, 9, s1)"
      and e: "re_outcome r = ReviewApproved" "\<not> re_drained r" "re_action r = Some ''{}''"
    using scoped_review by blast
  have p: "parse_action scoped_env (re_action r) = Some (PScopedAllow out_request)"
    by (simp add: e parse_action_def from_storage_value_def scoped_env_def)
  have v: "validate_scoped_allow (le_scope_env scoped_env) out_request (display_call (call_type scoped_call)) = Inr out_scope"
    using out_request_valid by (simp add: scoped_env_def sample_env_def scoped_call_def context_new_def)
  from scoped_approval_grants_its_rules [OF l e(1,2) p, of 8 7 False False]
  have "''delete-prefix:/home/u/w/out/'' \<in> set (sv_allowed (snd (settle_review scoped_env scoped_call 8 7 False False 9 r s1)))"
    by (simp add: v) (simp add: out_scope_def)
  then show ?thesis using l by blast
qed

subsection \<open>A refusal stands for its window\<close>

lemma denials_books:
  "sv_recent_denials (observe_reputation env now call outcome args s) = sv_recent_denials s"
  "sv_recent_denials (give v s) = sv_recent_denials s"
  "sv_recent_denials (deny_or_kill tid k s) = sv_recent_denials s"
  "sv_recent_denials (count_denied s) = sv_recent_denials s"
  "sv_recent_denials (thaw_and_resume tid allow k s) = sv_recent_denials s"
  by (simp_all add: observe_reputation_def give_def deny_or_kill_def thaw_and_resume_def count_denied_def split: option.split)


definition unanswered :: review_end where
  "unanswered = \<lparr> re_outcome = ReviewTimedOut, re_action = None, re_scope = None, re_drained = False \<rparr>"


subsection \<open>The clamp is applied to what the proxy allows\<close>

text \<open>
  C29. When the proxy allows a wildcard bind the profile wants clamped and the thread resumes, its memory
  holds a loopback sockaddr with the same port where the kernel will read it.
\<close>

theorem allowed_wildcard_bind_is_loopback:
  assumes "enforce_decision env fresh ctx decision tid event_pid k rec now ticks s = Finished (Executed, s')" and "action decision = Allow"
    and "call_type ctx = NetListen address port" and "parse_ip address = Some ip" and "wildcard_ip ip" and "\<not> ip_is_loopback ip"
    and "listener_policy ctx = Some m" and "allow_clamp m"
  shows "\<exists>sockaddr_ptr bs. Option.bind (json_get (arguments ctx) ''bind_sockaddr_ptr'') as_u64 = Some sockaddr_ptr \<and>
     read_bytes (sv_memory s') (of_nat sockaddr_ptr) (length bs) = map Some bs \<and>
     kernel_sockaddr (family_of_ip ip) bs = Some (loopback_ip (family_of_ip ip), port)"
proof -
  obtain failed mem where m: "maybe_clamp_listen_address ctx (sv_memory s) = (failed, mem)" by fastforce
  have tmp: "tmp_self_created_prefix (NetListen address port) = None" by (simp add: tmp_self_created_prefix_def)
  have "failed = None" and mem: "sv_memory s' = mem"
    using assms(1,2) m by (auto simp: enforce_decision_def enforce_allow_def Let_def count_allowed_def give_def grant_def split: if_splits)
  with m assms obtain ptr len where p: "Option.bind (json_get (arguments ctx) ''bind_sockaddr_ptr'') as_u64 = Some ptr"
      and c: "clamp_sockaddr_to_loopback (sv_memory s) (of_nat ptr) (of_nat len) (family_of_ip ip) port = (None, mem)"
    by (auto simp: maybe_clamp_listen_address_def split: option.splits)
  from clamped_listener_is_loopback [OF c] show ?thesis using p mem by blast
qed

definition wildcard_bind :: tool_call_context where
  "wildcard_bind = (context_new 0 0 ''supervisor:dev'' (NetListen ''0.0.0.0'' 8080) 1)
     \<lparr>listener_policy := Some \<lparr> allow_clamp = True, lpm_desc = [] \<rparr>,
      arguments := JObject [(''bind_sockaddr_ptr'', JPosInt 4096), (''bind_addrlen'', JPosInt 16)]\<rparr>"

definition allowed_decision :: proxy_decision where
  "allowed_decision = \<lparr> action = Allow, composite_score = 0, filter_results = [], evaluation_time = 0, decision_reason = [] \<rparr>"

lemma parse_any_v4: "parse_ip ''0.0.0.0'' = Some (V4 [0, 0, 0, 0])"
  by code_simp

lemma wildcard_bind_clamps: "fst (maybe_clamp_listen_address wildcard_bind (\<lambda>_. Some 0)) = None"
  using write_tracee_bytes_total [of "\<lambda>_. Some 0" 4096 "build_loopback_sockaddr_bytes ClampV4 8080"]
  by (simp add: maybe_clamp_listen_address_def wildcard_bind_def context_new_def parse_any_v4 wildcard_ip_def family_of_ip_def
      clamp_sockaddr_to_loopback_def be_bytes_def)

theorem allowed_wildcard_bind_is_loopback_witness:
  "\<exists>s' bs. enforce_decision sample_env 5 wildcard_bind allowed_decision 8 7 False False 0 [] (sample_state registry_fresh) = Finished (Executed, s') \<and>
     read_bytes (sv_memory s') 4096 (length bs) = map Some bs \<and> kernel_sockaddr ClampV4 bs = Some (loopback_ip ClampV4, 8080)"
proof -
  obtain mem where m: "maybe_clamp_listen_address wildcard_bind (\<lambda>_. Some 0) = (None, mem)"
    using wildcard_bind_clamps by (metis prod.collapse)
  then obtain s' where e: "enforce_decision sample_env 5 wildcard_bind allowed_decision 8 7 False False 0 [] (sample_state registry_fresh) =
      Finished (Executed, s')"
    by (simp add: enforce_decision_def enforce_allow_def allowed_decision_def sample_state_def)
  from allowed_wildcard_bind_is_loopback [OF e, of "''0.0.0.0''" 8080 "V4 [0, 0, 0, 0]"] e show ?thesis
    by (simp add: allowed_decision_def wildcard_bind_def context_new_def parse_any_v4 wildcard_ip_def family_of_ip_def)
qed

text \<open>
  A bind that is queued instead goes ahead unclamped when queued calls are only logged: the thread is
  resumed and its memory still holds the wildcard address.
\<close>

definition log_env :: loop_env where
  "log_env = sample_env\<lparr>le_config := sample_config\<lparr>cf_queue_action := QueueLog\<rparr>\<rparr>"

theorem logged_wildcard_bind_is_not_clamped:
  "\<exists>s'. enforce_decision log_env 5 wildcard_bind (queued_with 4) 8 7 False False 0 [] (sample_state registry_fresh) = Finished (ObservedOnly, s') \<and>
     sv_verdicts s' = [VAllow 8] \<and> sv_memory s' = sv_memory (sample_state registry_fresh) \<and>
     maybe_clamp_listen_address wildcard_bind (sv_memory s') \<noteq> (None, sv_memory s')"
proof -
  have "snd (maybe_clamp_listen_address wildcard_bind (\<lambda>_. Some 0)) \<noteq> (\<lambda>_. Some 0)"
  proof
    assume e: "snd (maybe_clamp_listen_address wildcard_bind (\<lambda>_. Some 0)) = (\<lambda>_. Some 0)"
    have "maybe_clamp_listen_address wildcard_bind (\<lambda>_. Some 0) = (None, \<lambda>_. Some 0)"
      using e wildcard_bind_clamps by (simp add: prod_eq_iff)
    then have "write_tracee_bytes (\<lambda>_. Some 0) 4096 (build_loopback_sockaddr_bytes ClampV4 8080) = (None, \<lambda>_. Some 0)"
      by (simp add: maybe_clamp_listen_address_def wildcard_bind_def context_new_def parse_any_v4 wildcard_ip_def family_of_ip_def
          clamp_sockaddr_to_loopback_def be_bytes_def)
    from write_tracee_bytes_stores [OF this] have "\<forall>i < 16. Some (0 :: byte) = Some (build_loopback_sockaddr_bytes ClampV4 8080 ! i)"
      by (simp add: be_bytes_def WORD_def)
    then show False by (auto dest!: spec [of _ 0])
  qed
  then have n: "maybe_clamp_listen_address wildcard_bind (\<lambda>_. Some 0) \<noteq> (None, \<lambda>_. Some 0)" by (auto simp: prod_eq_iff)
  have k: "\<not> kernel_refuses log_env (call_type wildcard_bind)" by (simp add: kernel_refuses_def wildcard_bind_def context_new_def)
  have c: "cf_queue_action (le_config log_env) = QueueLog" "\<not> contamination_signalled (queued_with 4)" "action (queued_with 4) = Queue PrioMedium"
    by (simp_all add: log_env_def queued_with_def contamination_signalled_def)
  have m: "sv_memory (informational env fresh now ctx d s) = sv_memory s" for env fresh now ctx d and s :: "unit supervisor"
    by (simp add: informational_def store_enqueue_def split: sum.split)
  show ?thesis using n k c by (simp add: enforce_decision_def verdict_simps count_queued_def give_def m) (simp add: sample_state_def)
qed

end
