(* ===== verification/Event_Cascade.thy ===== *)
theory Event_Cascade
  imports Review_Enforcement
begin

section \<open>The cascade of an intercepted system call\<close>

text \<open>
  \<open>handle_syscall_event\<close> of \<open>crates/grith-supervisor/src/supervisor/event_handler.rs\<close>: the fixed
  policies, the operator's refusals, the fast paths, the evaluation and the enforcement, in the order
  of the code. What the interceptor and others answer while one event is handled (the DNS inspection,
  the clock, the fresh identifiers, the answers to a review) is the record \<open>event_io\<close>; the proxy is a
  pair of functions on its state and the session registry. Log lines, audit rows, broadcasts and the
  correlation of flows are left out.
\<close>

datatype dns_verdict = DnsAllowed | DnsDenied | DnsQueued | DnsFailure

datatype confirm_result = ConfirmTimedOut | ConfirmFailed | ConfirmResolved "(string \<times> ip_addr \<times> instant) list"

record dns_query_inspection =
  dq_queries :: "(string \<times> string) list"
  dq_parse_error :: "string option"

record event_io =
  io_tcp_dns_deny :: bool
  io_dns_query :: "dns_query_inspection option"
  io_dns_service :: "(string \<times> string \<Rightarrow> dns_verdict) option"
  io_supervised_pids :: "u32 list"
  io_confirm :: confirm_result
  io_dbus_calls :: "string list"
  io_provenance :: "string \<Rightarrow> spawn_provenance_rec option"
  io_start :: instant
  io_evaluated :: instant
  io_finished :: instant
  io_ctx_id :: uuid
  io_digest_id :: uuid
  io_ticks :: "tick list"

record 'p proxy_ops =
  px_evaluate :: "tool_call_context \<Rightarrow> 'p \<times> registry \<Rightarrow> proxy_decision \<times> 'p \<times> registry"
  px_observe :: "tool_call_context \<Rightarrow> call_outcome \<Rightarrow> duration \<Rightarrow> 'p \<times> registry \<Rightarrow> 'p \<times> registry"

text \<open>A step of the cascade settles the event, passes it on or crashes in a glob match.\<close>

datatype 'p step = Settled "'p supervisor" | Pass "'p supervisor" | StepCrash

fun and_then :: "'p step \<Rightarrow> ('p supervisor \<Rightarrow> 'p supervisor progress) \<Rightarrow> 'p supervisor progress" where
  "and_then (Settled s) f = Finished s"
| "and_then (Pass s) f = f s"
| "and_then StepCrash f = Crashed"

definition allow_noise :: "u32 \<Rightarrow> 'p supervisor \<Rightarrow> 'p supervisor" where
  "allow_noise tid s = give (VAllow tid) (count_noise s)"

subsection \<open>Accounting\<close>

definition begin_event :: "syscall_event \<Rightarrow> 'p supervisor \<Rightarrow> 'p supervisor" where
  "begin_event ev s0 =
     (let s1 = s0\<lparr>sv_stats := (sv_stats s0)\<lparr>total_intercepted := total_intercepted (sv_stats s0) + 1\<rparr>\<rparr>;
          s2 = (if ev_pid ev \<noteq> 0 then s1\<lparr>sv_spawn_recorded := set_insert (ev_pid ev) (sv_spawn_recorded s1)\<rparr> else s1)
      in case ev_kind ev of
           SysProcessFork child \<Rightarrow>
             if child = 0 then s2 else s2\<lparr>sv_tree := snd (add_child (ev_pid ev) child (''fork-from-'' @ show_pid (ev_pid ev)) (sv_tree s2))\<rparr>
         | _ \<Rightarrow> s2)"

subsection \<open>DNS\<close>

definition net_port :: "syscall_kind \<Rightarrow> u16 option" where
  "net_port k = (case k of SysNetConnect _ port _ \<Rightarrow> Some port | SysNetSendTo _ port \<Rightarrow> Some port | _ \<Rightarrow> None)"

definition is_send :: "syscall_kind \<Rightarrow> bool" where
  "is_send k = (case k of SysNetSendTo _ _ \<Rightarrow> True | _ \<Rightarrow> False)"

definition evaluate_dns_query_inline ::
    "loop_env \<Rightarrow> (string \<times> string \<Rightarrow> dns_verdict) option \<Rightarrow> string \<times> string \<Rightarrow> 'p supervisor \<Rightarrow> bool \<times> 'p supervisor" where
  "evaluate_dns_query_inline env service query s =
     (case service of
        None \<Rightarrow> (False, count_denied s)
      | Some decide \<Rightarrow>
          (case decide query of
             DnsAllowed \<Rightarrow> (True, s)
           | DnsDenied \<Rightarrow> (False, count_denied s)
           | DnsQueued \<Rightarrow> (le_dns_forward env, if le_dns_forward env then count_queued s else count_denied (count_queued s))
           | DnsFailure \<Rightarrow> (False, count_denied s)))"

fun evaluate_queries ::
    "loop_env \<Rightarrow> (string \<times> string \<Rightarrow> dns_verdict) option \<Rightarrow> (string \<times> string) list \<Rightarrow> 'p supervisor \<Rightarrow> bool \<times> 'p supervisor" where
  "evaluate_queries env service [] s = (True, s)"
| "evaluate_queries env service (q # qs) s =
     (case evaluate_dns_query_inline env service q s of
        (False, s) \<Rightarrow> (False, s)
      | (True, s) \<Rightarrow> evaluate_queries env service qs s)"

definition finish_dns_query :: "u32 \<Rightarrow> bool \<Rightarrow> 'p supervisor \<Rightarrow> 'p supervisor" where
  "finish_dns_query tid ok s = s\<lparr>sv_dns_finished := sv_dns_finished s @ [(tid, ok)]\<rparr>"

definition dns_stage :: "loop_env \<Rightarrow> event_io \<Rightarrow> syscall_event \<Rightarrow> 'p supervisor \<Rightarrow> 'p step" where
  "dns_stage env io ev s =
     (let tid = ev_tid ev; port = net_port (ev_kind ev)
      in if \<not> le_dns_inspection env then Pass s
         else if port = Some 853 then Settled (give (VDeny tid) s)
         else if port = Some 53 \<and> io_tcp_dns_deny io then Settled (give (VDeny tid) s)
         else if \<not> is_send (ev_kind ev) then Pass s
         else case io_dns_query io of
             None \<Rightarrow> Pass s
           | Some inspection \<Rightarrow>
               if dq_parse_error inspection \<noteq> None then Settled (give (VDeny tid) (finish_dns_query tid False s))
               else (let (ok, s) = evaluate_queries env (io_dns_service io) (dq_queries inspection) s
                     in if ok \<and> dq_queries inspection \<noteq> [] then Settled (give (VAllow tid) (finish_dns_query tid True s))
                        else Settled (give (VDeny tid) (finish_dns_query tid False s))))"

subsection \<open>Fixed policies\<close>

definition category_off :: "loop_config \<Rightarrow> syscall_kind \<Rightarrow> bool" where
  "category_off cf k =
     (case k of
        SysKernelModuleOp _ \<Rightarrow> \<not> cf_category1_hard_deny cf
      | SysKexecLoad _ \<Rightarrow> \<not> cf_category1_hard_deny cf
      | SysOwnershipChange _ _ _ _ \<Rightarrow> \<not> cf_category2_proxy cf
      | SysFilesystemMutation _ _ _ _ \<Rightarrow> \<not> cf_category2_proxy cf
      | SysCrossProcessAccess _ _ \<Rightarrow> \<not> cf_category2_crossprocess cf
      | SysNamespaceOp _ _ \<Rightarrow> \<not> cf_category3_namespace cf
      | SysArchPrivilegedOp _ \<Rightarrow> \<not> cf_category4_arch_priv cf
      | _ \<Rightarrow> False)"

definition cross_process_allowed :: "loop_env \<Rightarrow> event_io \<Rightarrow> u32 \<Rightarrow> cross_process_op \<Rightarrow> u32 \<Rightarrow> bool" where
  "cross_process_allowed env io tid op target \<longleftrightarrow>
     (target \<noteq> 0 \<and> target \<in> set (io_supervised_pids io)) \<or>
     (\<not> (op = PidfdGetfd \<and> target = 0) \<and> cross_process_target_provably_absent (le_fs env) (le_read_link env) (le_own_pid env) tid target) \<or>
     kernel_blocks_cross_process (le_fs env) (le_read_link env) (le_yama env) tid target"

definition namespace_allowed :: "loop_env \<Rightarrow> u32 \<Rightarrow> bool" where
  "namespace_allowed env pid \<longleftrightarrow>
     le_namespace_users env \<noteq> [] \<and>
     (case canonicalize_ok (le_fs env) (proc_exe pid) of
        Some exe \<Rightarrow> exe \<in> set (le_namespace_users env) \<and> under_some_root (le_routine_exec_roots env) exe
      | None \<Rightarrow> False)"

text \<open>What the fixed policies say before the call is translated; \<open>None\<close> leaves it to the rest.\<close>

definition fixed_policy :: "loop_env \<Rightarrow> event_io \<Rightarrow> syscall_event \<Rightarrow> bool option" where
  "fixed_policy env io ev =
     (if ev_kind ev = SysIoUringSetup then Some False
      else case ev_kind ev of
        SysRawSocketCreate _ _ _ \<Rightarrow> Some False
      | k \<Rightarrow>
          if category_off (le_config env) k then Some True
          else (case k of
              SysCrossProcessAccess op target \<Rightarrow> if cross_process_allowed env io (ev_tid ev) op target then Some True else None
            | SysSeccompInstall _ new_listener \<Rightarrow> Some (\<not> (new_listener \<and> cf_deny_self_seccomp_notify (le_config env)))
            | SysForeignAbiSyscall _ _ \<Rightarrow> Some False
            | SysKernelModuleOp _ \<Rightarrow> Some False
            | SysNamespaceOp _ _ \<Rightarrow> if namespace_allowed env (ev_pid ev) then Some True else None
            | SysArchPrivilegedOp _ \<Rightarrow> Some False
            | SysKexecLoad _ \<Rightarrow> Some False
            | _ \<Rightarrow> None))"

definition fixed_step :: "loop_env \<Rightarrow> event_io \<Rightarrow> syscall_event \<Rightarrow> 'p supervisor \<Rightarrow> 'p step" where
  "fixed_step env io ev s =
     (case fixed_policy env io ev of
        None \<Rightarrow> Pass s
      | Some True \<Rightarrow> Settled (case ev_kind ev of SysSeccompInstall _ _ \<Rightarrow> give (VAllow (ev_tid ev)) s | _ \<Rightarrow> allow_noise (ev_tid ev) s)
      | Some False \<Rightarrow>
          Settled (give (VDeny (ev_tid ev))
            (case ev_kind ev of
               SysForeignAbiSyscall _ _ \<Rightarrow> s\<lparr>sv_stats := (sv_stats s)\<lparr>foreign_abi_denied := foreign_abi_denied (sv_stats s) + 1\<rparr>\<rparr>
             | _ \<Rightarrow> s)))"

subsection \<open>The translated call\<close>

definition spawn_name :: "string \<Rightarrow> string" where
  "spawn_name command = (case path_file_name command of Some n \<Rightarrow> n | None \<Rightarrow> command)"

definition note_spawn :: "u32 \<Rightarrow> tool_call_type \<Rightarrow> 'p supervisor \<Rightarrow> 'p supervisor" where
  "note_spawn pid call s =
     (case call of
        ProcessSpawn command args \<Rightarrow> s\<lparr>sv_tree := update_command pid (spawn_name command) args (sv_tree s)\<rparr>
      | _ \<Rightarrow> s)"

definition in_grith_config :: "string \<Rightarrow> bool" where
  "in_grith_config path \<longleftrightarrow>
     (let p = to_lowercase path in str_contains p ''/.config/grith/'' \<or> str_contains p ''/config/grith/'')"

definition is_grith_config_write :: "tool_call_type \<Rightarrow> bool" where
  "is_grith_config_write call =
     (case call of
        FileWrite path _ \<Rightarrow> in_grith_config path
      | FileAppend path \<Rightarrow> in_grith_config path
      | FileDelete path \<Rightarrow> in_grith_config path
      | FileChmod path _ \<Rightarrow> in_grith_config path
      | DirCreate path \<Rightarrow> in_grith_config path
      | OwnershipChange target _ _ \<Rightarrow> in_grith_config target
      | FilesystemMutation _ _ target _ \<Rightarrow> in_grith_config target
      | FileRename old_path new_path \<Rightarrow> in_grith_config old_path \<or> in_grith_config new_path
      | _ \<Rightarrow> False)"

definition self_protection_step :: "u32 \<Rightarrow> tool_call_type \<Rightarrow> 'p supervisor \<Rightarrow> 'p step" where
  "self_protection_step tid call s =
     (if is_grith_config_write call then Settled (count_denied (give (VDeny tid) s)) else Pass s)"

subsection \<open>Local networking and DNS attribution\<close>

definition control_socket_enforce :: "loop_env \<Rightarrow> u32 \<Rightarrow> string \<Rightarrow> bool" where
  "control_socket_enforce env pid address \<longleftrightarrow>
     control_socket_enforced env \<and> control_socket_should_escalate address (le_permit_control_sockets env) \<and>
     \<not> is_routine_desktop_connect (le_fs env) address pid"

definition is_local_call :: "loop_env \<Rightarrow> u32 \<Rightarrow> tool_call_type \<Rightarrow> 'p supervisor \<Rightarrow> bool" where
  "is_local_call env pid call s =
     (case call of
        NetConnect address _ \<Rightarrow>
          \<not> control_socket_enforce env pid address \<and>
          (is_local_connect_address address \<or>
           (\<not> containment_on env s \<and> connect_is_routine_agent_use (le_fs env) address pid (le_routine_exec_roots env)))
      | NetListen address _ \<Rightarrow> is_local_listen_address address
      | _ \<Rightarrow> False)"

definition local_step :: "loop_env \<Rightarrow> u32 \<Rightarrow> u32 \<Rightarrow> tool_call_type \<Rightarrow> 'p supervisor \<Rightarrow> 'p step" where
  "local_step env pid tid call s = (if is_local_call env pid call s then Settled (allow_noise tid s) else Pass s)"

text \<open>A miss is confirmed by resolving the trusted destinations again, at most once per interval.\<close>

definition confirm_forward_attribution ::
    "confirm_result \<Rightarrow> instant \<Rightarrow> string \<Rightarrow> resolution \<Rightarrow> 'p supervisor \<Rightarrow> resolution \<times> 'p supervisor" where
  "confirm_forward_attribution outcome now address miss s0 =
     (case sv_dns_confirm s0 of
        None \<Rightarrow> (miss, s0)
      | Some confirm \<Rightarrow>
          (case try_begin now confirm of
             (False, _) \<Rightarrow> (miss, s0)
           | (True, confirm') \<Rightarrow>
               (let s = s0\<lparr>sv_dns_confirm := Some confirm'\<rparr>
                in case outcome of
                     ConfirmResolved resolved \<Rightarrow>
                       (let (lookup, cache) = lookup_attribution address now (record_resolved_domains resolved (sv_dns_cache s));
                            s = s\<lparr>sv_dns_cache := cache\<rparr>
                        in case lookup of
                             Ready (Exact n) \<Rightarrow> (Exact n, s)
                           | Ready (Ambiguous ns) \<Rightarrow> (Ambiguous ns, s)
                           | _ \<Rightarrow> (miss, s))
                   | _ \<Rightarrow> (miss, s))))"

definition attributed_address :: "loop_env \<Rightarrow> string \<Rightarrow> resolution \<Rightarrow> string" where
  "attributed_address env address r =
     (case r of
        Exact name \<Rightarrow> name
      | Ambiguous candidates \<Rightarrow> format_dns_candidate_array (le_render_candidates env) candidates
      | _ \<Rightarrow> address)"

definition attribute_call :: "loop_env \<Rightarrow> event_io \<Rightarrow> tool_call_type \<Rightarrow> 'p supervisor \<Rightarrow> tool_call_type \<times> 'p supervisor" where
  "attribute_call env io call s0 =
     (case call of
        NetConnect address port \<Rightarrow>
          (let (r, cache) = resolve_attribution (le_reverse_dns env) address (io_start io) (io_start io) (sv_dns_cache s0);
               s = s0\<lparr>sv_dns_cache := cache\<rparr>;
               (r, s) = (case r of Unknown _ \<Rightarrow> confirm_forward_attribution (io_confirm io) (io_start io) address r s | _ \<Rightarrow> (r, s))
           in (NetConnect (attributed_address env address r) port, s))
      | _ \<Rightarrow> (call, s0))"

subsection \<open>Refusals of the operator\<close>

definition refuse :: "u32 \<Rightarrow> 'p supervisor \<Rightarrow> 'p supervisor" where
  "refuse tid s = give (VDeny tid) (count_denied s)"

definition subtractive_step :: "loop_env \<Rightarrow> u32 \<Rightarrow> tool_call_type \<Rightarrow> 'p supervisor \<Rightarrow> 'p step" where
  "subtractive_step env tid call s =
     (if session_deny_match (le_fs env) call (sv_denied s) \<noteq> None then Settled (refuse tid s)
      else case (case le_workspace env of
                   None \<Rightarrow> Some None
                 | Some roots \<Rightarrow> workspace_only_block_reason (le_candidates env) (le_fs env) roots call (sv_allowed s)) of
          None \<Rightarrow> StepCrash
        | Some (Some _) \<Rightarrow> Settled (refuse tid s)
        | Some None \<Rightarrow> Pass s)"

subsection \<open>Fast paths\<close>

definition controlling_pts :: "loop_env \<Rightarrow> 'p supervisor \<Rightarrow> string option" where
  "controlling_pts env s =
     (case le_read_link env (''/proc/'' @ digits_of_nat (unat (root_pid (sv_tree s))) @ ''/fd/0'') of
        Some p \<Rightarrow> if prefix ''/dev/pts/'' p then Some p else None
      | None \<Rightarrow> None)"

definition noise_step :: "loop_env \<Rightarrow> u32 \<Rightarrow> tool_call_type \<Rightarrow> 'p supervisor \<Rightarrow> 'p step" where
  "noise_step env tid call s =
     (case ctx_paths (context_new 0 0 [] call (le_session_id env)) of
        [] \<Rightarrow> Pass s
      | path # rest \<Rightarrow>
          if \<not> list_all is_noise_path (path # rest) then Pass s
          else if is_foreign_pts_write call path (controlling_pts env s) \<and> cf_pty_ownership_enforce (le_config env)
          then Settled (give (VDeny tid) (count_denied s))
          else Settled (allow_noise tid s))"

definition read_path :: "syscall_kind \<Rightarrow> string option" where
  "read_path k =
     (case k of
        SysFileOpen path flags \<Rightarrow> if flags = OReadOnly \<or> flags = OReadOnlyDirectory then Some path else None
      | SysFileRead _ path \<Rightarrow> path
      | SysDirList path \<Rightarrow> Some path
      | _ \<Rightarrow> None)"

definition SCOPED_PREFIXES :: "string list" where
  "SCOPED_PREFIXES = [''exec-prefix:'', ''ro:'', ''ro-glob:'', ''rw:'', ''net:'', ''exec:'', ''dns:'', ''projdir:'']"

definition session_trusted :: "string list \<Rightarrow> string \<Rightarrow> bool" where
  "session_trusted allowed path \<longleftrightarrow>
     list_ex (\<lambda>e. \<not> list_ex (\<lambda>p. prefix p e) SCOPED_PREFIXES \<and> prefix e path \<and>
                  \<not> ((''projdir:'' @ e) \<in> set allowed \<and> is_project_trust_guarded_path path)) allowed"

definition read_only_step :: "loop_env \<Rightarrow> u32 \<Rightarrow> syscall_kind \<Rightarrow> 'p supervisor \<Rightarrow> 'p step" where
  "read_only_step env tid k s =
     (if \<not> cf_ignore_read_only (le_config env) \<or> containment_on env s then Pass s
      else case read_path k of
          None \<Rightarrow> Pass s
        | Some path \<Rightarrow>
            if \<not> is_sensitive_path path \<or> session_trusted (sv_allowed s) path \<or> \<not> fs_exists (le_fs env) path
            then Settled (allow_noise tid s) else Pass s)"

definition batch_step :: "loop_env \<Rightarrow> instant \<Rightarrow> u32 \<Rightarrow> u32 \<Rightarrow> syscall_kind \<Rightarrow> 'p supervisor \<Rightarrow> 'p step" where
  "batch_step env now pid tid k s =
     (if \<not> cf_batch_rapid_reads (le_config env) then Pass s
      else case k of
          SysFileRead fd _ \<Rightarrow>
            (let (coalesce, t) = should_coalesce (sv_batch s) now pid fd; s = s\<lparr>sv_batch := t\<rparr>
             in if coalesce then Settled (allow_noise tid s) else Pass s)
        | _ \<Rightarrow> Pass s)"

text \<open>The gates that a grant of the session does not lift.\<close>

definition delegation_would_enforce :: "loop_env \<Rightarrow> u32 \<Rightarrow> tool_call_type \<Rightarrow> 'p supervisor \<Rightarrow> bool" where
  "delegation_would_enforce env pid call s \<longleftrightarrow>
     \<not> (\<not> containment_on env s \<and> approved_delegation call s) \<and>
     (case call of
        ProcessSpawn command args \<Rightarrow> spawn_must_be_reviewed env command args
      | NetConnect address _ \<Rightarrow>
          connect_must_be_reviewed env address \<and> \<not> is_routine_desktop_connect (le_fs env) address pid
      | _ \<Rightarrow> False)"

definition sensitive_scoped_read :: "loop_env \<Rightarrow> tool_call_type \<Rightarrow> 'p supervisor \<Rightarrow> bool" where
  "sensitive_scoped_read env call s = is_sensitive_scoped_read_match (le_fs env) call (sv_allowed s)"

definition grant_step :: "loop_env \<Rightarrow> u32 \<Rightarrow> u32 \<Rightarrow> tool_call_type \<Rightarrow> 'p supervisor \<Rightarrow> 'p step" where
  "grant_step env pid tid call s =
     (if containment_on env s \<and> \<not> netconnect_operator_ssh_egress_grant call (sv_allowed s) then Pass s
      else case session_allowlist_key (le_fs env) call of
          None \<Rightarrow> Pass s
        | Some key \<Rightarrow>
            (case grant_key_matches env call s key of
               None \<Rightarrow> StepCrash
             | Some granted \<Rightarrow>
                 if granted \<and> \<not> sensitive_scoped_read env call s \<and> \<not> delegation_would_enforce env pid call s
                 then Settled (allow_noise tid s) else Pass s))"

subsection \<open>The context of the evaluation\<close>

text \<open>The nearest ancestor that is not the placeholder of a fork, at most eight levels up.\<close>

fun parent_walk :: "nat \<Rightarrow> process_tree \<Rightarrow> u32 \<Rightarrow> process_info option \<Rightarrow> u32 \<times> process_info option" where
  "parent_walk n tree found None = (found, None)"
| "parent_walk 0 tree found (Some info) = (found, Some info)"
| "parent_walk (Suc n) tree found (Some info) =
     (if \<not> prefix ''fork-from-'' (pi_command info) then (found, Some info)
      else parent_walk n tree (pi_parent_pid info) (if pi_parent_pid info \<noteq> 0 then tree_get (pi_parent_pid info) tree else None))"

definition json_pid :: "u32 \<Rightarrow> json" where
  "json_pid p = JPosInt (unat p)"

definition json_int :: "int \<Rightarrow> json" where
  "json_int i = (if i < 0 then JNegInt i else JPosInt (nat i))"

definition json_strings :: "string list \<Rightarrow> json" where
  "json_strings xs = JArray (map JString xs)"

definition present :: "string \<Rightarrow> json option \<Rightarrow> (string \<times> json) list" where
  "present k v = (case v of Some x \<Rightarrow> [(k, x)] | None \<Rightarrow> [])"

definition process_arguments :: "process_tree \<Rightarrow> u32 \<Rightarrow> (string \<times> json) list" where
  "process_arguments tree pid =
     (let info = tree_get pid tree;
          start = Option.bind info (\<lambda>i. if pi_parent_pid i \<noteq> 0 then tree_get (pi_parent_pid i) tree else None);
          (parent_pid, parent) = parent_walk 8 tree (case info of Some i \<Rightarrow> pi_parent_pid i | None \<Rightarrow> 0) start
      in [(''pid'', json_pid pid)] @
         (case info of
            None \<Rightarrow> []
          | Some i \<Rightarrow>
              [(''process'', JString (pi_command i))] @
              (if pi_args i \<noteq> [] then [(''process_args'', json_strings (pi_args i))] else []) @
              (if parent_pid \<noteq> 0 then [(''parent_pid'', json_pid parent_pid)] else [])) @
         (case parent of
            None \<Rightarrow> []
          | Some i \<Rightarrow>
              [(''parent_process'', JString (pi_command i))] @
              (if pi_args i \<noteq> [] then [(''parent_process_args'', json_strings (pi_args i))] else [])))"

definition net_arguments :: "string \<Rightarrow> u16 \<Rightarrow> (string \<times> json) list" where
  "net_arguments address port =
     [(''address'', JString address), (''port'', JPosInt (unat port))] @
     present unix_socket_class_KEY (map_option (JString \<circ> unix_socket_class_as_str) (classify_unix_socket address))"

fun call_arguments :: "tool_call_type \<Rightarrow> (string \<times> json) list" where
  "call_arguments (NetListen address port) = net_arguments address port"
| "call_arguments (NetConnect address port) = net_arguments address port"
| "call_arguments (ProcessSpawn command args) = [(''command'', JString command), (''spawn_args'', json_strings args)]"
| "call_arguments (FileRead path) = [(''path'', JString path)]"
| "call_arguments (FileAppend path) = [(''path'', JString path)]"
| "call_arguments (FileDelete path) = [(''path'', JString path)]"
| "call_arguments (DirList path) = [(''path'', JString path)]"
| "call_arguments (DirCreate path) = [(''path'', JString path)]"
| "call_arguments (FileChmod path _) = [(''path'', JString path)]"
| "call_arguments (FileWrite path _) = [(''path'', JString path)]"
| "call_arguments (FileRename old_path new_path) = [(''old_path'', JString old_path), (''new_path'', JString new_path)]"
| "call_arguments (FileLink target link_path symbolic) =
     [(''path'', JString link_path), (''link_target'', JString target), (''link_symbolic'', JBool symbolic)]"
| "call_arguments (HttpRequest meth url) = [(''method'', JString meth), (''url'', JString url)]"
| "call_arguments (ShellExec command args) = [(''command'', JString command), (''exec_args'', json_strings args)]"
| "call_arguments (DnsQuery domain query_type) = [(''domain'', JString domain), (''query_type'', JString query_type)]"
| "call_arguments (OwnershipChange target uid gid) =
     [(''path'', JString target), (''new_uid'', json_int uid), (''new_gid'', json_int gid)]"
| "call_arguments (FilesystemMutation op src target fstype) =
     [(''fs_op'', JString op), (''path'', JString target)] @ present ''source'' (map_option JString src) @
     present ''fstype'' (map_option JString fstype)"
| "call_arguments (CrossProcessAccess op target_pid) = [(''cp_op'', JString op), (''target_pid'', json_pid target_pid)]"
| "call_arguments (NamespaceOp syscall flags) =
     [(''ns_syscall'', JString syscall), (''ns_flags'', JString (''0x'' @ digits_base 16 (unat flags)))]"
| "call_arguments (DbusMethodCall socket destination interface member) =
     [(''address'', JString socket)] @ present ''dbus_destination'' (map_option JString destination) @
     present ''dbus_interface'' (map_option JString interface) @ present ''dbus_member'' (map_option JString member)"

definition supervisor_event_arguments :: "process_tree \<Rightarrow> u32 \<Rightarrow> tool_call_type \<Rightarrow> json" where
  "supervisor_event_arguments tree pid call = JObject (process_arguments tree pid @ call_arguments call)"

fun json_insert :: "string \<Rightarrow> json \<Rightarrow> json \<Rightarrow> json" where
  "json_insert k v (JObject kvs) = JObject (assoc_insert k v kvs)"
| "json_insert k v j = j"

definition with_bind :: "loop_env \<Rightarrow> syscall_kind \<Rightarrow> string \<Rightarrow> u16 \<Rightarrow> tool_call_context \<Rightarrow> tool_call_context" where
  "with_bind env k address port ctx0 =
     (let ctx = ctx0\<lparr>listener_policy := match_listener_policy (le_listeners env) address port\<rparr>
      in case k of
           SysNetBind _ _ protocol ptr len \<Rightarrow>
             (let ctx = ctx\<lparr>ctx_bind_protocol := (case protocol of ProtoTcp \<Rightarrow> Some Tcp | ProtoUdp \<Rightarrow> Some Udp | ProtoUnix \<Rightarrow> None)\<rparr>
              in case (ptr, len) of
                   (Some p, Some l) \<Rightarrow>
                     ctx\<lparr>arguments := json_insert ''bind_addrlen'' (JPosInt (unat l))
                          (json_insert ''bind_sockaddr_ptr'' (JPosInt (unat p)) (arguments ctx))\<rparr>
                 | _ \<Rightarrow> ctx)
         | _ \<Rightarrow> ctx)"

definition event_context :: "loop_env \<Rightarrow> event_io \<Rightarrow> syscall_event \<Rightarrow> tool_call_type \<Rightarrow> 'p supervisor \<Rightarrow> tool_call_context" where
  "event_context env io ev call s =
     (let args = supervisor_event_arguments (sv_tree s) (ev_pid ev) call;
          ctx = (context_new (io_ctx_id io) (io_start io) (''supervisor:'' @ le_tool_name env) call (le_session_id env))
                  \<lparr>profile_name := le_profile_name env, task_context := le_project_name env, arguments := args\<rparr>
      in case call of
           DbusMethodCall _ _ _ _ \<Rightarrow>
             if length (io_dbus_calls io) > 1
             then ctx\<lparr>arguments := json_insert ''dbus_batched_calls'' (json_strings (io_dbus_calls io)) args\<rparr> else ctx
         | ProcessSpawn command _ \<Rightarrow> ctx\<lparr>spawn_provenance := io_provenance io command\<rparr>
         | NetListen address port \<Rightarrow> with_bind env (ev_kind ev) address port ctx
         | _ \<Rightarrow> ctx)"

subsection \<open>Escalations after the evaluation\<close>

definition SCOPE_OVERRIDE_REASON :: string where
  "SCOPE_OVERRIDE_REASON = ''read allowed by explicit sensitive-directory session scope after proxy evaluation''"

definition is_queue :: "proxy_decision \<Rightarrow> bool" where
  "is_queue d \<longleftrightarrow> (case action d of Queue _ \<Rightarrow> True | _ \<Rightarrow> False)"

definition scope_override :: "bool \<Rightarrow> proxy_decision \<Rightarrow> proxy_decision" where
  "scope_override scoped d = (if scoped \<and> is_queue d then d\<lparr>action := Allow, decision_reason := SCOPE_OVERRIDE_REASON\<rparr> else d)"

definition escalate_destruction ::
    "loop_env \<Rightarrow> instant \<Rightarrow> tool_call_type \<Rightarrow> proxy_decision \<Rightarrow> 'p supervisor \<Rightarrow> bool \<times> proxy_decision \<times> 'p supervisor" where
  "escalate_destruction env now call d s =
     (if signal_enabled (le_env_var env)
      then (let (count, d', tracker) = maybe_escalate (le_destruction_roots env) now d call (sv_destruction s)
            in (count \<noteq> None, d', s\<lparr>sv_destruction := tracker\<rparr>))
      else (False, d, s))"

definition spawn_canonical :: "tool_call_context \<Rightarrow> string option" where
  "spawn_canonical ctx = map_option canonical_path (spawn_provenance ctx)"

definition spawn_sha :: "tool_call_context \<Rightarrow> string option" where
  "spawn_sha ctx = map_option sha256 (spawn_provenance ctx)"

definition spawn_hashes :: "loop_env \<Rightarrow> string \<Rightarrow> tool_call_context \<Rightarrow> string list" where
  "spawn_hashes env command ctx = hashes_for (le_fs env) (le_pins env) command (spawn_canonical ctx) (spawn_sha ctx)"

text \<open>A spawn stops after the new image is loaded, so a refusal stops it only by killing it.\<close>

definition kill_on_deny :: "loop_env \<Rightarrow> tool_call_context \<Rightarrow> bool" where
  "kill_on_deny env ctx =
     (case call_type ctx of
        ProcessSpawn command args \<Rightarrow>
          spawn_enforced env \<and>
          (spawn_targets_delegating_binary command args (spawn_canonical ctx) (spawn_sha ctx) (spawn_hashes env command ctx) \<or>
           ssh_family_loopback_destination command args)
      | _ \<Rightarrow> False)"

definition escalate_spawn :: "loop_env \<Rightarrow> tool_call_context \<Rightarrow> string \<Rightarrow> string list \<Rightarrow> proxy_decision \<Rightarrow> bool \<times> proxy_decision" where
  "escalate_spawn env ctx command args d =
     (let permit = le_permit_delegating env;
          (e1, d1) = maybe_escalate_spawn_full d command args (spawn_canonical ctx) (spawn_sha ctx) permit (spawn_hashes env command ctx);
          (e2, d2) = maybe_escalate_ssh_loopback_spawn d command args permit
      in if e1 then (True, d1) else if e2 then (True, d2) else maybe_escalate_input_injection_spawn d command args permit)"

definition escalate_delegation ::
    "loop_env \<Rightarrow> bool \<Rightarrow> bool \<Rightarrow> tool_call_context \<Rightarrow> proxy_decision \<Rightarrow> 'p supervisor \<Rightarrow> bool \<times> proxy_decision" where
  "escalate_delegation env held approved ctx d s =
     (case call_type ctx of
        ProcessSpawn command args \<Rightarrow>
          if spawn_enforced env \<and> \<not> approved then escalate_spawn env ctx command args d else (False, d)
      | NetConnect address _ \<Rightarrow>
          (let granted = \<not> held \<and> (case ipc_grant env ctx of Some key \<Rightarrow> key \<in> set (sv_allowed s) | None \<Rightarrow> False)
           in if \<not> approved \<and> \<not> granted \<and> \<not> dbus_inspection_covers env address \<and> control_socket_enforced env
              then (case maybe_escalate_control_socket d address (le_permit_control_sockets env) of
                      (SocketEscalated, d') \<Rightarrow> (True, d')
                    | (_, d') \<Rightarrow> (False, d'))
              else (False, d))
      | _ \<Rightarrow> (False, d))"

definition auto_allowed :: "loop_env \<Rightarrow> tool_call_context \<Rightarrow> proxy_decision \<Rightarrow> bool \<Rightarrow> 'p supervisor \<Rightarrow> bool" where
  "auto_allowed env ctx d gated s \<longleftrightarrow>
     rm_url (le_remote env) = None \<and> \<not> gated \<and> is_queue d \<and>
     reputation_auto_allow (le_rep_config env) (sv_reputation s) (session_scope_name env) (call_type ctx) (arguments ctx) d \<noteq> None"

subsection \<open>The handler\<close>

definition observe_outcome_of ::
    "loop_env \<Rightarrow> 'p proxy_ops \<Rightarrow> event_io \<Rightarrow> tool_call_context \<Rightarrow> call_outcome \<Rightarrow> 'p supervisor \<Rightarrow> 'p supervisor" where
  "observe_outcome_of env px io ctx out s =
     (let (r, p, reg) = observe_proxy_outcome (le_remote env) (px_observe px) (io_finished io) ctx out (io_start io)
            (sv_remote s, sv_proxy s, sv_registry s)
      in s\<lparr>sv_remote := r, sv_proxy := p, sv_registry := reg\<rparr>)"

definition evaluated_step ::
    "loop_env \<Rightarrow> 'p proxy_ops \<Rightarrow> event_io \<Rightarrow> syscall_event \<Rightarrow> tool_call_type \<Rightarrow> 'p supervisor \<Rightarrow> 'p supervisor progress" where
  "evaluated_step env px io ev call s0 =
     (let held = containment_on env s0;
          approved = (\<not> held \<and> approved_delegation call s0);
          gate = delegation_would_enforce env (ev_pid ev) call s0;
          scoped = sensitive_scoped_read env call s0;
          ctx = event_context env io ev call s0
      in case evaluate_proxy (le_remote env) (px_evaluate px) (io_start io) ctx (sv_remote s0, sv_proxy s0, sv_registry s0) of
           (None, _) \<Rightarrow> Crashed
         | (Some d0, r, p, reg) \<Rightarrow>
             (let s1 = s0\<lparr>sv_remote := r, sv_proxy := p, sv_registry := reg\<rparr>;
                  d1 = scope_override scoped d0;
                  (destructive, d2, s2) = escalate_destruction env (io_evaluated io) call d1 s1;
                  (escalated, d3) = escalate_delegation env held approved ctx d2 s2
              in if auto_allowed env ctx d3 (destructive \<or> escalated \<or> gate) s2
                 then Finished (observe_outcome_of env px io ctx Executed (count_allowed (give (VAllow (ev_tid ev)) s2)))
                 else (case enforce_decision env (io_digest_id io) ctx d3 (ev_tid ev) (ev_pid ev) (kill_on_deny env ctx) gate
                               (io_evaluated io) (io_ticks io) s2 of
                         StillWaiting \<Rightarrow> StillWaiting
                       | Crashed \<Rightarrow> Crashed
                       | Finished (out, s3) \<Rightarrow> Finished (if was_evaluated d3 then observe_outcome_of env px io ctx out s3 else s3))))"

definition handle_call ::
    "loop_env \<Rightarrow> 'p proxy_ops \<Rightarrow> event_io \<Rightarrow> syscall_event \<Rightarrow> tool_call_type \<Rightarrow> 'p supervisor \<Rightarrow> 'p supervisor progress" where
  "handle_call env px io ev raw s0 =
     (let tid = ev_tid ev; pid = ev_pid ev; k = ev_kind ev; s1 = note_spawn pid raw s0
      in and_then (self_protection_step tid raw s1) (\<lambda>s.
         and_then (local_step env pid tid raw s) (\<lambda>s.
           let (call, s) = attribute_call env io raw s
           in and_then (subtractive_step env tid call s) (\<lambda>s.
              and_then (noise_step env tid call s) (\<lambda>s.
              and_then (read_only_step env tid k s) (\<lambda>s.
              and_then (batch_step env (io_start io) pid tid k s) (\<lambda>s.
              and_then (grant_step env pid tid call s) (\<lambda>s.
                evaluated_step env px io ev call s))))))))"

definition handle_syscall_event ::
    "loop_env \<Rightarrow> 'p proxy_ops \<Rightarrow> event_io \<Rightarrow> syscall_event \<Rightarrow> 'p supervisor \<Rightarrow> 'p supervisor progress" where
  "handle_syscall_event env px io ev s0 =
     and_then (dns_stage env io ev (begin_event ev s0)) (\<lambda>s.
     and_then (fixed_step env io ev s) (\<lambda>s.
       case to_tool_call_type (le_sha256_hex env) (ev_kind ev) of
         None \<Rightarrow> Finished (allow_noise (ev_tid ev) s)
       | Some call \<Rightarrow> handle_call env px io ev call s))"

subsection \<open>One verdict per event\<close>

text \<open>A settled step gives one verdict on the thread, a passing step none.\<close>

definition one_more :: "u32 \<Rightarrow> 'p supervisor \<Rightarrow> 'p supervisor \<Rightarrow> bool" where
  "one_more tid s s' \<longleftrightarrow> (\<exists>v \<in> {VAllow tid, VDeny tid, VKill tid}. sv_verdicts s' = sv_verdicts s @ [v])"

definition step_ok :: "u32 \<Rightarrow> 'p supervisor \<Rightarrow> 'p step \<Rightarrow> bool" where
  "step_ok tid s r \<longleftrightarrow>
     (case r of Settled s' \<Rightarrow> one_more tid s s' | Pass s' \<Rightarrow> sv_verdicts s' = sv_verdicts s | StepCrash \<Rightarrow> True)"

definition progress_ok :: "u32 \<Rightarrow> 'p supervisor \<Rightarrow> 'p supervisor progress \<Rightarrow> bool" where
  "progress_ok tid s r \<longleftrightarrow> (case r of Finished s' \<Rightarrow> one_more tid s s' | _ \<Rightarrow> True)"

lemma and_then_ok:
  assumes "step_ok tid s r" and "\<And>s'. sv_verdicts s' = sv_verdicts s \<Longrightarrow> progress_ok tid s' (f s')"
  shows "progress_ok tid s (and_then r f)"
proof (cases r)
  case (Pass s1)
  then have v: "sv_verdicts s1 = sv_verdicts s" using assms(1) by (simp add: step_ok_def)
  show ?thesis using assms(2) [OF v] Pass v by (auto simp: progress_ok_def one_more_def split: progress.split)
qed (use assms(1) in \<open>auto simp: step_ok_def progress_ok_def\<close>)

lemma allow_noise_verdict [verdict_simps]: "sv_verdicts (allow_noise tid s) = sv_verdicts s @ [VAllow tid]"
  by (simp add: allow_noise_def verdict_simps)

lemma more_verdicts [verdict_simps]:
  "sv_verdicts (begin_event ev s) = sv_verdicts s"
  "sv_verdicts (finish_dns_query tid ok s) = sv_verdicts s"
  "sv_verdicts (note_spawn pid call s) = sv_verdicts s"
  "sv_verdicts (observe_outcome_of env px io ctx out s) = sv_verdicts s"
  by (auto simp: begin_event_def finish_dns_query_def note_spawn_def observe_outcome_of_def Let_def split: syscall_kind.split tool_call_type.split prod.split)

lemma queries_verdicts: "evaluate_queries env service qs s = (ok, s') \<Longrightarrow> sv_verdicts s' = sv_verdicts s"
proof (induction qs arbitrary: s)
  case (Cons q qs)
  obtain b s1 where e: "evaluate_dns_query_inline env service q s = (b, s1)" by fastforce
  have "sv_verdicts s1 = sv_verdicts s"
    using e by (auto simp: evaluate_dns_query_inline_def verdict_simps split: option.splits dns_verdict.splits)
  then show ?case using Cons e by (cases b) auto
qed simp

lemma dns_stage_ok: "step_ok (ev_tid ev) s (dns_stage env io ev s)"
proof -
  have "step_ok (ev_tid ev) s (case evaluate_queries env service qs s of (ok, s) \<Rightarrow>
      if ok \<and> qs \<noteq> [] then Settled (give (VAllow (ev_tid ev)) (finish_dns_query (ev_tid ev) True s))
      else Settled (give (VDeny (ev_tid ev)) (finish_dns_query (ev_tid ev) False s)))" for service qs
    using queries_verdicts [of env service qs s] by (auto simp: step_ok_def one_more_def verdict_simps split: prod.split)
  then show ?thesis
    by (auto simp: dns_stage_def Let_def step_ok_def one_more_def verdict_simps split: option.split)
qed

lemma fixed_step_ok: "step_ok (ev_tid ev) s (fixed_step env io ev s)"
  by (auto simp: fixed_step_def step_ok_def one_more_def verdict_simps split: option.split bool.split syscall_kind.split)

lemma steps_ok:
  "step_ok tid s (self_protection_step tid call s)" "step_ok tid s (local_step env pid tid call s)"
  "step_ok tid s (subtractive_step env tid call s)" "step_ok tid s (noise_step env tid call s)"
  "step_ok tid s (read_only_step env tid k s)" "step_ok tid s (batch_step env now pid tid k s)"
  "step_ok tid s (grant_step env pid tid call s)"
  by (auto simp: self_protection_step_def local_step_def subtractive_step_def noise_step_def read_only_step_def batch_step_def
      grant_step_def step_ok_def one_more_def verdict_simps refuse_def Let_def split: option.split list.split syscall_kind.split prod.split)

lemma attribute_verdicts: "attribute_call env io call s = (call', s') \<Longrightarrow> sv_verdicts s' = sv_verdicts s"
  by (auto simp: attribute_call_def confirm_forward_attribution_def Let_def
      split: tool_call_type.splits prod.splits resolution.splits option.splits bool.splits confirm_result.splits attribution_lookup.splits)

lemma verdict_of_one: "verdict_of tid k call out v \<Longrightarrow> v \<in> {VAllow tid, VDeny tid, VKill tid}"
  by (auto simp: verdict_of_def split: if_splits)

lemma evaluated_step_ok: "progress_ok (ev_tid ev) s (evaluated_step env px io ev call s)"
proof -
  define ctx where "ctx = event_context env io ev call s"
  define gate where "gate = delegation_would_enforce env (ev_pid ev) call s"
  obtain d0 r p reg where e: "evaluate_proxy (le_remote env) (px_evaluate px) (io_start io) ctx (sv_remote s, sv_proxy s, sv_registry s) = (d0, r, p, reg)"
    by (metis prod.collapse)
  show ?thesis
  proof (cases d0)
    case None
    then show ?thesis using e by (simp add: evaluated_step_def Let_def ctx_def progress_ok_def)
  next
    case (Some d)
    define s1 where "s1 = s\<lparr>sv_remote := r, sv_proxy := p, sv_registry := reg\<rparr>"
    obtain b1 d2 s2 where x: "escalate_destruction env (io_evaluated io) call (scope_override (sensitive_scoped_read env call s) d) s1 = (b1, d2, s2)"
      by (metis prod.collapse)
    have v: "sv_verdicts s2 = sv_verdicts s"
      using x by (auto simp: escalate_destruction_def s1_def split: if_splits prod.splits)
    obtain b2 d3 where y: "escalate_delegation env (containment_on env s) (\<not> containment_on env s \<and> approved_delegation call s) ctx d2 s2 = (b2, d3)"
      by (metis prod.collapse)
    let ?enf = "enforce_decision env (io_digest_id io) ctx d3 (ev_tid ev) (ev_pid ev) (kill_on_deny env ctx) gate (io_evaluated io) (io_ticks io) s2"
    have step: "evaluated_step env px io ev call s =
        (if auto_allowed env ctx d3 (b1 \<or> b2 \<or> gate) s2
         then Finished (observe_outcome_of env px io ctx Executed (count_allowed (give (VAllow (ev_tid ev)) s2)))
         else (case ?enf of StillWaiting \<Rightarrow> StillWaiting | Crashed \<Rightarrow> Crashed
               | Finished (out, s3) \<Rightarrow> Finished (if was_evaluated d3 then observe_outcome_of env px io ctx out s3 else s3)))"
      using e Some x y by (simp add: evaluated_step_def Let_def ctx_def [symmetric] gate_def s1_def)
    have fin: "one_more (ev_tid ev) s s3" if f: "?enf = Finished (out, s3)" for out s3
      using one_verdict_per_decision [OF f] v verdict_of_one unfolding one_more_def by metis
    show ?thesis unfolding step progress_ok_def
      using fin v by (auto simp: verdict_simps one_more_def split: progress.split)
  qed
qed

text \<open>
  C1. Whatever the event, the state, the policy and the answers: when its handling finishes, the stopped
  thread has been given exactly one verdict, and no other thread has been given any.
\<close>

theorem one_verdict_per_event:
  "case handle_syscall_event env px io ev s of
     Finished s' \<Rightarrow> \<exists>v \<in> {VAllow (ev_tid ev), VDeny (ev_tid ev), VKill (ev_tid ev)}. sv_verdicts s' = sv_verdicts s @ [v]
   | _ \<Rightarrow> True"
proof -
  have call: "progress_ok (ev_tid ev) s1 (handle_call env px io ev raw s1)" for raw s1
  proof -
    have a: "progress_ok (ev_tid ev) s2 (case attribute_call env io raw s2 of (call, s) \<Rightarrow>
        and_then (subtractive_step env (ev_tid ev) call s) (\<lambda>s. and_then (noise_step env (ev_tid ev) call s) (\<lambda>s.
        and_then (read_only_step env (ev_tid ev) (ev_kind ev) s) (\<lambda>s. and_then (batch_step env (io_start io) (ev_pid ev) (ev_tid ev) (ev_kind ev) s) (\<lambda>s.
        and_then (grant_step env (ev_pid ev) (ev_tid ev) call s) (\<lambda>s. evaluated_step env px io ev call s))))))" for s2
    proof -
      obtain c s3 where at: "attribute_call env io raw s2 = (c, s3)" by fastforce
      have "progress_ok (ev_tid ev) s3 (and_then (subtractive_step env (ev_tid ev) c s3) (\<lambda>s. and_then (noise_step env (ev_tid ev) c s) (\<lambda>s.
          and_then (read_only_step env (ev_tid ev) (ev_kind ev) s) (\<lambda>s. and_then (batch_step env (io_start io) (ev_pid ev) (ev_tid ev) (ev_kind ev) s) (\<lambda>s.
          and_then (grant_step env (ev_pid ev) (ev_tid ev) c s) (\<lambda>s. evaluated_step env px io ev c s))))))"
        by (intro and_then_ok steps_ok evaluated_step_ok)
      then show ?thesis using attribute_verdicts [OF at] by (simp add: at progress_ok_def one_more_def split: progress.splits)
    qed
    have "progress_ok (ev_tid ev) (note_spawn (ev_pid ev) raw s1) (handle_call env px io ev raw s1)"
      unfolding handle_call_def Let_def by (intro and_then_ok steps_ok a)
    then show ?thesis by (simp add: progress_ok_def one_more_def verdict_simps split: progress.splits)
  qed
  have "progress_ok (ev_tid ev) (begin_event ev s) (handle_syscall_event env px io ev s)"
    unfolding handle_syscall_event_def
    by (intro and_then_ok dns_stage_ok fixed_step_ok)
      (auto simp: call split: option.split, simp add: progress_ok_def one_more_def verdict_simps)
  then show ?thesis by (simp add: progress_ok_def one_more_def verdict_simps split: progress.splits)
qed

subsection \<open>File operations and programs\<close>

fun file_kind :: "syscall_kind \<Rightarrow> bool" where
  "file_kind (SysFileOpen _ _) = True"
| "file_kind (SysFileWrite _ _) = True"
| "file_kind (SysFileRead _ _) = True"
| "file_kind (SysFileDelete _) = True"
| "file_kind (SysFileLink _ _ _) = True"
| "file_kind (SysFileRename _ _) = True"
| "file_kind (SysFileChmod _ _) = True"
| "file_kind (SysDirCreate _ _) = True"
| "file_kind (SysDirList _) = True"
| "file_kind (SysProcessExec _ _) = True"
| "file_kind _ = False"

text \<open>No fixed policy and no network rule concerns them.\<close>

lemma file_kind_fixed:
  assumes "file_kind (ev_kind ev)"
  shows "dns_stage env io ev s = Pass s" and "fixed_step env io ev s = Pass s"
  using assms by (cases "ev_kind ev"; simp add: dns_stage_def fixed_step_def fixed_policy_def category_off_def net_port_def is_send_def Let_def)+

fun net_call :: "tool_call_type \<Rightarrow> bool" where
  "net_call (NetConnect _ _) = True"
| "net_call (NetListen _ _) = True"
| "net_call _ = False"

lemma file_kind_not_net:
  assumes "file_kind k" and "to_tool_call_type sha k = Some call"
  shows "\<not> net_call call"
proof (cases k)
  case (SysFileOpen p fl)
  then show ?thesis using assms by (cases fl) auto
next
  case (SysFileWrite fd p)
  then show ?thesis using assms by (cases p) auto
next
  case (SysFileRead fd p)
  then show ?thesis using assms by (cases p) auto
qed (use assms in auto)

lemma not_net_steps:
  assumes "\<not> net_call call"
  shows "local_step env pid tid call s = Pass s" and "attribute_call env io call s = (call, s)"
    and "\<not> netconnect_operator_ssh_egress_grant call allowed"
  using assms by (cases call; simp add: local_step_def is_local_call_def attribute_call_def netconnect_operator_ssh_egress_grant_def)+

lemmas file_kind_call = not_net_steps [OF file_kind_not_net]

abbreviation after_refusals ::
    "loop_env \<Rightarrow> 'p proxy_ops \<Rightarrow> event_io \<Rightarrow> syscall_event \<Rightarrow> tool_call_type \<Rightarrow> 'p supervisor \<Rightarrow> 'p supervisor progress" where
  "after_refusals env px io ev call s \<equiv>
     and_then (noise_step env (ev_tid ev) call s) (\<lambda>s.
     and_then (read_only_step env (ev_tid ev) (ev_kind ev) s) (\<lambda>s.
     and_then (batch_step env (io_start io) (ev_pid ev) (ev_tid ev) (ev_kind ev) s) (\<lambda>s.
     and_then (grant_step env (ev_pid ev) (ev_tid ev) call s) (\<lambda>s. evaluated_step env px io ev call s))))"

lemma handle_file_kind:
  assumes "file_kind (ev_kind ev)" and "to_tool_call_type (le_sha256_hex env) (ev_kind ev) = Some call"
  shows "handle_syscall_event env px io ev s =
     and_then (self_protection_step (ev_tid ev) call (note_spawn (ev_pid ev) call (begin_event ev s))) (\<lambda>s.
     and_then (subtractive_step env (ev_tid ev) call s) (\<lambda>s. after_refusals env px io ev call s))"
  using assms by (simp add: handle_syscall_event_def handle_call_def file_kind_fixed file_kind_call Let_def)

text \<open>What an event changes before any decision.\<close>

definition undecided :: "'p supervisor \<Rightarrow> 'p supervisor \<Rightarrow> bool" where
  "undecided s s' \<longleftrightarrow>
     sv_allowed s' = sv_allowed s \<and> sv_denied s' = sv_denied s \<and> sv_registry s' = sv_registry s \<and> sv_remote s' = sv_remote s \<and>
     sv_proxy s' = sv_proxy s \<and> sv_batch s' = sv_batch s \<and> sv_digest s' = sv_digest s \<and> sv_verdicts s' = sv_verdicts s"

lemma undecided_begin: "undecided s (begin_event ev s)"
  by (cases "ev_kind ev") (simp_all add: undecided_def begin_event_def Let_def)

lemma undecided_note: "undecided s (note_spawn pid call s)"
  by (cases call) (simp_all add: undecided_def note_spawn_def)

lemma undecided_start: "undecided s (note_spawn pid call (begin_event ev s))"
  using undecided_begin [of s ev] undecided_note [of "begin_event ev s" pid call] unfolding undecided_def by metis

text \<open>
  C6. A directory the operator blocked stays blocked: no grant, no fast path, no containment state, no trust
  and no configuration lets a file operation or a program through that a rule of the session refuses.
  Nobody is asked and nothing is evaluated.
\<close>

theorem blocked_calls_never_pass:
  assumes "file_kind (ev_kind ev)" and "to_tool_call_type (le_sha256_hex env) (ev_kind ev) = Some call"
    and "session_deny_match (le_fs env) call (sv_denied s) \<noteq> None"
  shows "\<exists>s'. handle_syscall_event env px io ev s = Finished s' \<and> sv_verdicts s' = sv_verdicts s @ [VDeny (ev_tid ev)] \<and>
     sv_proxy s' = sv_proxy s \<and> sv_remote s' = sv_remote s \<and> sv_digest s' = sv_digest s"
proof -
  let ?s = "note_spawn (ev_pid ev) call (begin_event ev s)"
  have u: "undecided s ?s" by (rule undecided_start)
  show ?thesis
  proof (cases "is_grith_config_write call")
    case True
    then show ?thesis using u assms(1,2)
      by (simp add: handle_file_kind self_protection_step_def verdict_simps undecided_def count_denied_def give_def)
  next
    case False
    then show ?thesis using u assms
      by (simp add: handle_file_kind self_protection_step_def subtractive_step_def verdict_simps undecided_def refuse_def count_denied_def give_def)
  qed
qed

text \<open>Concrete events of process 7, on its thread 8, in the session of \<open>sample_env\<close>.\<close>

definition sample_io :: event_io where
  "sample_io =
     \<lparr> io_tcp_dns_deny = False, io_dns_query = None, io_dns_service = None, io_supervised_pids = [], io_confirm = ConfirmFailed,
       io_dbus_calls = [], io_provenance = (\<lambda>_. None), io_start = 0, io_evaluated = 0, io_finished = 0, io_ctx_id = 0,
       io_digest_id = 0, io_ticks = [] \<rparr>"

definition sample_event :: "syscall_kind \<Rightarrow> syscall_event" where
  "sample_event k = \<lparr> ev_pid = 7, ev_tid = 8, ev_kind = k \<rparr>"

definition allow_all_proxy :: "unit proxy_ops" where
  "allow_all_proxy = \<lparr> px_evaluate = (\<lambda>_ (p, reg). (allowed_decision, p, reg)), px_observe = (\<lambda>_ _ _ s. s) \<rparr>"

lemma sample_event_simps [simp]:
  "ev_pid (sample_event k) = 7" "ev_tid (sample_event k) = 8" "ev_kind (sample_event k) = k"
  by (simp_all add: sample_event_def)

definition blocked_state :: "unit supervisor" where
  "blocked_state = (sample_state registry_fresh)\<lparr>sv_denied := [''deny-ro-prefix:/home/u/w/secrets/''], sv_allowed := [''ro-prefix:/home/u/w/'']\<rparr>"

lemma blocked_sample:
  "session_deny_match (le_fs sample_env) (FileRead ''/home/u/w/secrets/key'') (sv_denied blocked_state) \<noteq> None"
proof -
  have "session_deny_match (se_fs plain_env) (FileRead ''/home/u/w/secrets/key'') [''deny-ro-prefix:/home/u/w/secrets/''] \<noteq> None"
    by code_simp
  then show ?thesis by (simp add: blocked_state_def sample_env_def le_fs_def)
qed

theorem blocked_calls_never_pass_witness:
  "\<exists>s'. handle_syscall_event sample_env allow_all_proxy sample_io (sample_event (SysFileOpen ''/home/u/w/secrets/key'' OReadOnly)) blocked_state = Finished s' \<and>
     sv_verdicts s' = sv_verdicts blocked_state @ [VDeny 8] \<and> sv_proxy s' = sv_proxy blocked_state \<and>
     sv_remote s' = sv_remote blocked_state \<and> sv_digest s' = sv_digest blocked_state"
  using blocked_calls_never_pass [of "sample_event (SysFileOpen ''/home/u/w/secrets/key'' OReadOnly)" sample_env "FileRead ''/home/u/w/secrets/key''"
      blocked_state allow_all_proxy sample_io] blocked_sample by simp

text \<open>Nothing the supervised program does through a path reaches grith's own configuration.\<close>

theorem own_configuration_is_protected:
  assumes "file_kind (ev_kind ev)" and "to_tool_call_type (le_sha256_hex env) (ev_kind ev) = Some call" and "is_grith_config_write call"
  shows "\<exists>s'. handle_syscall_event env px io ev s = Finished s' \<and> sv_verdicts s' = sv_verdicts s @ [VDeny (ev_tid ev)]"
  using assms by (simp add: handle_file_kind self_protection_step_def verdict_simps)

lemma config_write_sample: "is_grith_config_write (FileRename ''/tmp/x'' ''/home/u/.config/grith/config.toml'')"
  by code_simp

theorem own_configuration_is_protected_witness:
  "\<exists>s'. handle_syscall_event sample_env allow_all_proxy sample_io
       (sample_event (SysFileRename ''/tmp/x'' ''/home/u/.config/grith/config.toml'')) blocked_state = Finished s' \<and>
     sv_verdicts s' = sv_verdicts blocked_state @ [VDeny 8]"
  using own_configuration_is_protected [of "sample_event (SysFileRename ''/tmp/x'' ''/home/u/.config/grith/config.toml'')" sample_env
      "FileRename ''/tmp/x'' ''/home/u/.config/grith/config.toml''" allow_all_proxy sample_io blocked_state] config_write_sample by simp


definition contained_granted :: "unit supervisor" where
  "contained_granted = (sample_state contained_registry)\<lparr>sv_allowed := [''ro-prefix:/home/u/w/'']\<rparr>"

lemma readme_sample:
  "\<not> is_grith_config_write (FileRead ''/home/u/w/README'')" "\<not> is_noise_path ''/home/u/w/README''"
  by code_simp+


subsection \<open>Hard denials\<close>

text \<open>The calls that the policy refuses without asking anybody.\<close>

fun hard_denied :: "loop_config \<Rightarrow> syscall_kind \<Rightarrow> bool" where
  "hard_denied cf SysIoUringSetup = True"
| "hard_denied cf (SysRawSocketCreate _ _ _) = True"
| "hard_denied cf (SysForeignAbiSyscall _ _) = True"
| "hard_denied cf (SysSeccompInstall _ new_listener) = (new_listener \<and> cf_deny_self_seccomp_notify cf)"
| "hard_denied cf (SysKernelModuleOp _) = cf_category1_hard_deny cf"
| "hard_denied cf (SysKexecLoad _) = cf_category1_hard_deny cf"
| "hard_denied cf (SysArchPrivilegedOp _) = cf_category4_arch_priv cf"
| "hard_denied cf _ = False"

lemma hard_denied_policy:
  assumes "hard_denied (le_config env) (ev_kind ev)"
  shows "dns_stage env io ev s = Pass s" and "fixed_policy env io ev = Some False"
  using assms by (cases "ev_kind ev"; simp add: dns_stage_def fixed_policy_def category_off_def net_port_def is_send_def Let_def)+

text \<open>
  A new io_uring, a raw socket, a call of a foreign ABI, a seccomp listener of the program's own, a kernel
  module, a kexec image and an architecture-privileged call are refused in every state: no grant, trust,
  approval or daemon is consulted, and nothing but the counters and the process tree changes.
\<close>

theorem hard_denials_are_absolute:
  assumes "hard_denied (le_config env) (ev_kind ev)"
  shows "\<exists>s'. handle_syscall_event env px io ev s = Finished s' \<and> sv_verdicts s' = sv_verdicts s @ [VDeny (ev_tid ev)] \<and>
     sv_allowed s' = sv_allowed s \<and> sv_registry s' = sv_registry s \<and> sv_digest s' = sv_digest s \<and> sv_remote s' = sv_remote s \<and>
     sv_proxy s' = sv_proxy s"
proof -
  have u: "undecided s (begin_event ev s)" by (rule undecided_begin)
  have "handle_syscall_event env px io ev s = and_then (fixed_step env io ev (begin_event ev s)) (\<lambda>s.
      case to_tool_call_type (le_sha256_hex env) (ev_kind ev) of
         None \<Rightarrow> Finished (allow_noise (ev_tid ev) s) | Some call \<Rightarrow> handle_call env px io ev call s)"
    by (simp add: handle_syscall_event_def hard_denied_policy(1) [OF assms])
  then show ?thesis using u hard_denied_policy(2) [OF assms]
    by (cases "ev_kind ev") (simp_all add: fixed_step_def verdict_simps undecided_def give_def)
qed

theorem hard_denials_are_absolute_witness:
  "\<exists>s'. handle_syscall_event sample_env allow_all_proxy sample_io (sample_event SysIoUringSetup) contained_granted = Finished s' \<and>
     sv_verdicts s' = sv_verdicts contained_granted @ [VDeny 8] \<and> sv_allowed s' = sv_allowed contained_granted \<and>
     sv_registry s' = sv_registry contained_granted \<and> sv_digest s' = sv_digest contained_granted \<and>
     sv_remote s' = sv_remote contained_granted \<and> sv_proxy s' = sv_proxy contained_granted"
  using hard_denials_are_absolute [of sample_env "sample_event SysIoUringSetup" allow_all_proxy sample_io contained_granted] by simp

subsection \<open>What passes unseen\<close>

text \<open>The steps of an event that no fixed policy, refusal or workspace stops.\<close>

lemma handle_unrefused:
  assumes "file_kind (ev_kind ev)" and "to_tool_call_type (le_sha256_hex env) (ev_kind ev) = Some call"
    and "\<not> is_grith_config_write call" and "session_deny_match (le_fs env) call (sv_denied s) = None" and "le_workspace env = None"
  shows "handle_syscall_event env px io ev s = after_refusals env px io ev call (note_spawn (ev_pid ev) call (begin_event ev s))"
  using assms undecided_start [of s "ev_pid ev" call ev]
  by (simp add: handle_file_kind [OF assms(1,2)] self_protection_step_def subtractive_step_def undecided_def)

lemma allow_noise_books:
  "sv_proxy (allow_noise tid s) = sv_proxy s" "sv_remote (allow_noise tid s) = sv_remote s" "sv_digest (allow_noise tid s) = sv_digest s"
  by (simp_all add: allow_noise_def give_def count_noise_def)

text \<open>
  A rename is judged by the path it takes the file from: from a noise path such as \<open>/tmp/.x\<close> it puts a
  file under any other name, with or without containment, and neither the proxy nor the operator sees it.
\<close>

theorem rename_from_noise_unseen:
  assumes "is_noise_path old_path" and "\<not> in_grith_config old_path" and "\<not> in_grith_config new_path"
    and "session_deny_match (le_fs env) (FileRename old_path new_path) (sv_denied s) = None" and "le_workspace env = None"
    and "ev_kind ev = SysFileRename old_path new_path"
  shows "\<exists>s'. handle_syscall_event env px io ev s = Finished s' \<and> sv_verdicts s' = sv_verdicts s @ [VAllow (ev_tid ev)] \<and>
     sv_proxy s' = sv_proxy s \<and> sv_remote s' = sv_remote s \<and> sv_digest s' = sv_digest s"
proof -
  let ?call = "FileRename old_path new_path"
  let ?s = "note_spawn (ev_pid ev) ?call (begin_event ev s)"
  have u: "undecided s ?s" by (rule undecided_start)
  have "handle_syscall_event env px io ev s = after_refusals env px io ev ?call ?s"
    by (rule handle_unrefused) (simp_all add: assms is_grith_config_write_def)
  moreover have "noise_step env (ev_tid ev) ?call ?s = Settled (allow_noise (ev_tid ev) ?s)"
    using assms(1) by (simp add: noise_step_def ctx_paths_def ctx_path_def context_new_def is_foreign_pts_write_def)
  ultimately show ?thesis using u by (simp add: verdict_simps allow_noise_books undecided_def)
qed

lemma authorized_keys_sample:
  "is_noise_path ''/tmp/.x''" "\<not> in_grith_config ''/tmp/.x''" "\<not> in_grith_config ''/home/u/.ssh/authorized_keys''"
  by code_simp+

theorem rename_from_noise_unseen_witness:
  "containment_on sample_env contained_granted \<and> is_sensitive_path ''/home/u/.ssh/authorized_keys'' \<and>
   (\<exists>s'. handle_syscall_event sample_env allow_all_proxy sample_io (sample_event (SysFileRename ''/tmp/.x'' ''/home/u/.ssh/authorized_keys'')) contained_granted = Finished s' \<and>
     sv_verdicts s' = sv_verdicts contained_granted @ [VAllow 8] \<and> sv_proxy s' = sv_proxy contained_granted \<and>
     sv_remote s' = sv_remote contained_granted \<and> sv_digest s' = sv_digest contained_granted)"
proof (intro conjI)
  show "containment_on sample_env contained_granted"
    using sample_contained by (simp add: containment_on_def contained_granted_def)
  show "is_sensitive_path ''/home/u/.ssh/authorized_keys''" by code_simp
  show "\<exists>s'. handle_syscall_event sample_env allow_all_proxy sample_io (sample_event (SysFileRename ''/tmp/.x'' ''/home/u/.ssh/authorized_keys'')) contained_granted = Finished s' \<and>
     sv_verdicts s' = sv_verdicts contained_granted @ [VAllow 8] \<and> sv_proxy s' = sv_proxy contained_granted \<and>
     sv_remote s' = sv_remote contained_granted \<and> sv_digest s' = sv_digest contained_granted"
    using rename_from_noise_unseen [OF authorized_keys_sample, of sample_env contained_granted
        "sample_event (SysFileRename ''/tmp/.x'' ''/home/u/.ssh/authorized_keys'')" allow_all_proxy sample_io]
    by (simp add: contained_granted_def sample_state_def session_deny_match_def) (simp add: sample_env_def)
qed

text \<open>
  While reads are batched, a read of a descriptor that was read within the window is allowed without an
  evaluation, in a contained session too and whatever the first of the two was answered.
\<close>

theorem batched_read_skips_evaluation:
  assumes "ev_kind ev = SysFileRead fd (Some path)" and "cf_batch_rapid_reads (le_config env)"
    and "map_of (last_eval (sv_batch s)) (ev_pid ev, fd) = Some earlier" and "nat (io_start io - earlier) < batch_window (sv_batch s)"
    and "containment_on env s" and "\<not> is_noise_path path"
    and "session_deny_match (le_fs env) (FileRead path) (sv_denied s) = None" and "le_workspace env = None"
  shows "\<exists>s'. handle_syscall_event env px io ev s = Finished s' \<and> sv_verdicts s' = sv_verdicts s @ [VAllow (ev_tid ev)] \<and>
     sv_proxy s' = sv_proxy s \<and> sv_remote s' = sv_remote s \<and> sv_digest s' = sv_digest s"
proof -
  let ?s = "note_spawn (ev_pid ev) (FileRead path) (begin_event ev s)"
  have u: "undecided s ?s" by (rule undecided_start)
  have "handle_syscall_event env px io ev s = after_refusals env px io ev (FileRead path) ?s"
    by (rule handle_unrefused) (simp_all add: assms is_grith_config_write_def)
  moreover have "noise_step env (ev_tid ev) (FileRead path) ?s = Pass ?s"
    using assms(6) by (simp add: noise_step_def ctx_paths_def ctx_path_def context_new_def)
  moreover have "read_only_step env (ev_tid ev) (ev_kind ev) ?s = Pass ?s"
    using assms(5) u by (simp add: read_only_step_def containment_on_def undecided_def)
  moreover have "should_coalesce (sv_batch ?s) (io_start io) (ev_pid ev) fd = (True, sv_batch ?s)"
    using assms(3,4) u by (simp add: should_coalesce_def undecided_def)
  then have "batch_step env (io_start io) (ev_pid ev) (ev_tid ev) (ev_kind ev) ?s = Settled (allow_noise (ev_tid ev) ?s)"
    using assms(1,2) by (simp add: batch_step_def)
  ultimately show ?thesis using u by (simp add: verdict_simps allow_noise_books undecided_def)
qed

definition reading_state :: "unit supervisor" where
  "reading_state = contained_granted\<lparr>sv_batch := snd (should_coalesce (batch_new 200) 0 7 5)\<rparr>"

lemma ssh_key_not_noise: "\<not> is_noise_path ''/home/u/.ssh/id_rsa''"
  by code_simp

theorem batched_read_skips_evaluation_witness:
  "\<exists>s'. handle_syscall_event sample_env allow_all_proxy (sample_io\<lparr>io_start := 1000\<rparr>) (sample_event (SysFileRead 5 (Some ''/home/u/.ssh/id_rsa''))) reading_state = Finished s' \<and>
     sv_verdicts s' = sv_verdicts reading_state @ [VAllow 8] \<and> sv_proxy s' = sv_proxy reading_state \<and>
     sv_remote s' = sv_remote reading_state \<and> sv_digest s' = sv_digest reading_state"
proof -
  have c: "containment_on sample_env reading_state"
    using sample_contained by (simp add: containment_on_def contained_granted_def reading_state_def)
  have b: "map_of (last_eval (sv_batch reading_state)) (7, 5) = Some 0" "batch_window (sv_batch reading_state) = 200000000"
    by (simp_all add: reading_state_def should_coalesce_def batch_new_def)
  have e: "cf_batch_rapid_reads (le_config sample_env)" "le_workspace sample_env = None" by (simp_all add: sample_env_def sample_config_def)
  have d: "sv_denied reading_state = []" by (simp add: reading_state_def contained_granted_def sample_state_def)
  show ?thesis
    using batched_read_skips_evaluation [of "sample_event (SysFileRead 5 (Some ''/home/u/.ssh/id_rsa''))" 5 "''/home/u/.ssh/id_rsa''" sample_env
        reading_state 0 "sample_io\<lparr>io_start := 1000\<rparr>" allow_all_proxy] c b e d ssh_key_not_noise
    by (simp add: session_deny_match_def)
qed

end
