(* ===== verification/Outbound_Binaries.thy ===== *)
theory Outbound_Binaries
  imports Path_Rules "HOL-Library.Multiset"
begin

section \<open>Which spawned binaries can move data off the machine\<close>

text \<open>
  \<open>crates/grith-proxy/src/filters/outbound_binaries.rs\<close>: the curated registry of outbound-capable
  binaries with the shapes of their command lines, the secret environment variables, and the two
  scanners for references to and assignments of environment variables. An argument vector includes
  \<open>argv[0]\<close>. \<open>std::fs::canonicalize\<close> reads the file system and is the parameter \<open>canonicalize\<close>.
  A rule's \<open>justification\<close> is documentation no code reads and is left out.
\<close>

definition canonicalise_spawn_target :: "(string \<Rightarrow> string option) \<Rightarrow> string \<Rightarrow> string option" where
  "canonicalise_spawn_target canonicalize raw_path = (if raw_path = [] then None else canonicalize raw_path)"

datatype classification = Outbound (destination_required: bool) | Routine | Unknown

record outbound_binary_rule =
  canonical_paths :: "string list"
  requires_destination_arg :: bool
  argv_filter :: "(string list \<Rightarrow> bool) option"

abbreviation outbound :: "string list \<Rightarrow> bool \<Rightarrow> (string list \<Rightarrow> bool) option \<Rightarrow> outbound_binary_rule" where
  "outbound ps req flt \<equiv> \<lparr> canonical_paths = ps, requires_destination_arg = req, argv_filter = flt \<rparr>"

subsection \<open>The shapes of command lines\<close>

definition nth_arg :: "nat \<Rightarrow> string list \<Rightarrow> string option" where
  "nth_arg i argv = (if i < length argv then Some (argv ! i) else None)"

definition subcommand_in :: "string list \<Rightarrow> string list \<Rightarrow> bool" where
  "subcommand_in subs argv = (case nth_arg 1 argv of None \<Rightarrow> False | Some s \<Rightarrow> s \<in> set subs)"

definition git_push_or_remote :: "string list \<Rightarrow> bool" where
  "git_push_or_remote argv =
     (case nth_arg 1 argv of
        None \<Rightarrow> False
      | Some s \<Rightarrow>
          s \<in> {''push'', ''fetch'', ''clone'', ''ls-remote'', ''remote-https'', ''remote-http'', ''send-pack''} \<or>
          (s = ''archive'' \<and> ''--remote'' \<in> set argv) \<or>
          (s = ''config'' \<and> ''--get-remote'' \<in> set argv))"

definition npm_install_remote_or_publish :: "string list \<Rightarrow> bool" where
  "npm_install_remote_or_publish argv =
     (case nth_arg 1 argv of
        None \<Rightarrow> False
      | Some s \<Rightarrow>
          if s = ''publish'' then True
          else if s \<in> {''install'', ''i'', ''add''} then
            list_ex (\<lambda>a. a = ''--registry'' \<or> a = ''--index-url'' \<or>
              starts_with_any [''http://'', ''https://'', ''git+'', ''github:''] a) argv
          else False)"

definition pip_install_remote :: "string list \<Rightarrow> bool" where
  "pip_install_remote argv =
     (case nth_arg 1 argv of
        None \<Rightarrow> False
      | Some s \<Rightarrow>
          if s \<noteq> ''install'' then False
          else list_ex (\<lambda>a. a = ''--index-url'' \<or> a = ''--extra-index-url'' \<or>
                 starts_with_any [''http://'', ''https://'', ''git+''] a) argv)"

definition cargo_publish_or_remote_install :: "string list \<Rightarrow> bool" where
  "cargo_publish_or_remote_install argv =
     (case nth_arg 1 argv of
        None \<Rightarrow> False
      | Some s \<Rightarrow>
          if s \<in> {''publish'', ''yank'', ''owner''} then True
          else if s = ''install'' then list_ex (\<lambda>a. a = ''--git'' \<or> prefix ''http'' a) argv
          else False)"

definition gem_push_or_remote_install :: "string list \<Rightarrow> bool" where
  "gem_push_or_remote_install argv =
     (case nth_arg 1 argv of
        None \<Rightarrow> False
      | Some s \<Rightarrow>
          if s = ''push'' then True
          else if s = ''install'' then ''--source'' \<in> set argv
          else False)"

definition go_remote_install :: "string list \<Rightarrow> bool" where
  "go_remote_install argv = subcommand_in [''install'', ''get'', ''mod''] argv"

definition kubectl_outbound :: "string list \<Rightarrow> bool" where
  "kubectl_outbound argv =
     (case nth_arg 1 argv of
        None \<Rightarrow> False
      | Some s \<Rightarrow>
          if s \<in> {''cp'', ''exec'', ''attach'', ''port-forward'', ''proxy''} then True
          else if s \<in> {''apply'', ''create'', ''replace'', ''delete''} then
            list_ex (\<lambda>a. a = ''-f'' \<or> starts_with_any [''--filename='', ''http://'', ''https://''] a) argv
          else False)"

definition docker_push :: "string list \<Rightarrow> bool" where
  "docker_push argv = subcommand_in [''push'', ''pull''] argv"

definition composer_remote :: "string list \<Rightarrow> bool" where
  "composer_remote argv =
     subcommand_in [''install'', ''update'', ''require'', ''remove'', ''create-project'', ''publish'', ''global'',
       ''outdated'', ''self-update''] argv"

definition skopeo_remote :: "string list \<Rightarrow> bool" where
  "skopeo_remote argv =
     subcommand_in [''copy'', ''inspect'', ''sync'', ''login'', ''delete'', ''list-tags''] argv"

definition hg_push :: "string list \<Rightarrow> bool" where
  "hg_push argv = subcommand_in [''push'', ''pull'', ''clone'', ''outgoing''] argv"

definition svn_remote :: "string list \<Rightarrow> bool" where
  "svn_remote argv = subcommand_in [''commit'', ''checkout'', ''co'', ''update'', ''up'', ''export''] argv"

definition gh_upload :: "string list \<Rightarrow> bool" where
  "gh_upload argv =
     (case nth_arg 1 argv of
        None \<Rightarrow> False
      | Some cmd \<Rightarrow>
          if cmd = ''gist'' then nth_arg 2 argv \<in> {Some ''create'', Some ''edit''}
          else if cmd = ''release'' then nth_arg 2 argv \<in> {Some ''upload'', Some ''create''}
          else if cmd = ''api'' then True
          else if cmd = ''pr'' then nth_arg 2 argv \<in> {Some ''create'', Some ''edit'', Some ''comment''}
          else if cmd = ''issue'' then nth_arg 2 argv \<in> {Some ''create'', Some ''edit'', Some ''comment''}
          else False)"

definition shell_with_network_primitive :: "string list \<Rightarrow> bool" where
  "shell_with_network_primitive argv =
     (if \<not> list_ex (\<lambda>a. a = ''-c'' \<or> a = ''-C'') (drop 1 argv) then False
      else (let combined = concat (map (\<lambda>s. s @ '' '') (drop 1 argv))
            in str_contains combined ''/dev/tcp/'' \<or> str_contains combined ''/dev/udp/'' \<or>
               str_contains combined ''exec 3<>'' \<or> str_contains combined ''exec 5<>'' \<or>
               (str_contains combined ''base64'' \<and> str_contains combined ''curl'') \<or>
               (str_contains combined ''base64'' \<and> str_contains combined ''wget'')))"

definition interpreter_inline_code :: "string list \<Rightarrow> bool" where
  "interpreter_inline_code argv =
     list_ex (\<lambda>a. a \<in> {''-c'', ''-e'', ''--eval'', ''--exec'', ''eval''}) (drop 1 argv)"

definition db_client_remote_host :: "string list \<Rightarrow> bool" where
  "db_client_remote_host argv =
     list_ex (\<lambda>a.
       a = ''-h'' \<or> a = ''--host'' \<or> a = ''-host'' \<or>
       (case strip_prefix ''--host='' a of Some h \<Rightarrow> h \<noteq> [] | None \<Rightarrow> False) \<or>
       prefix ''mongodb://'' a \<or> prefix ''mongodb+srv://'' a) argv"

subsection \<open>The curated registry\<close>

definition NETWORK_TOOLS :: "outbound_binary_rule list" where
  "NETWORK_TOOLS =
     [outbound [''/usr/bin/curl'', ''/usr/local/bin/curl'', ''/opt/homebrew/bin/curl'', ''/bin/curl''] True
         None,
      outbound [''/usr/bin/wget'', ''/usr/local/bin/wget'', ''/opt/homebrew/bin/wget'', ''/usr/bin/wget2'']
         True None,
      outbound [''/usr/bin/nc'', ''/usr/bin/ncat'', ''/usr/local/bin/nc'', ''/usr/local/bin/ncat'',
         ''/bin/nc''] True None,
      outbound [''/usr/bin/socat'', ''/usr/local/bin/socat''] True None,
      outbound [''/usr/bin/aria2c'', ''/usr/local/bin/aria2c''] True None,
      outbound [''/usr/bin/lftp'', ''/usr/bin/ftp'', ''/usr/bin/tftp''] True None,
      outbound [''/usr/bin/http'', ''/usr/local/bin/http'', ''/usr/bin/httpie'', ''/usr/local/bin/httpie'']
         True None,
      outbound [''/usr/bin/rclone'', ''/usr/local/bin/rclone''] True None,
      outbound [''/usr/bin/kafkacat'', ''/usr/local/bin/kafkacat'', ''/usr/bin/kcat''] True None,
      outbound [''/usr/bin/mc'', ''/usr/local/bin/mc''] True None]"

definition REMOTE_SHELLS :: "outbound_binary_rule list" where
  "REMOTE_SHELLS =
     [outbound [''/usr/bin/ssh'', ''/usr/local/bin/ssh'', ''/bin/ssh''] True None,
      outbound [''/usr/bin/scp'', ''/usr/local/bin/scp'', ''/bin/scp''] True None,
      outbound [''/usr/bin/sftp'', ''/usr/local/bin/sftp''] True None,
      outbound [''/usr/bin/rsync'', ''/usr/local/bin/rsync''] True None,
      outbound [''/usr/bin/mosh'', ''/usr/local/bin/mosh''] True None]"

definition DNS_TOOLS :: "outbound_binary_rule list" where
  "DNS_TOOLS =
     [outbound [''/usr/bin/nslookup'', ''/usr/local/bin/nslookup''] True None,
      outbound [''/usr/bin/dig'', ''/usr/local/bin/dig''] True None,
      outbound [''/usr/bin/host'', ''/usr/local/bin/host''] True None,
      outbound [''/usr/bin/drill'', ''/usr/bin/kdig''] True None]"

definition VCS_TOOLS :: "outbound_binary_rule list" where
  "VCS_TOOLS =
     [outbound [''/usr/bin/git'', ''/usr/local/bin/git'', ''/opt/homebrew/bin/git''] False (Some
         git_push_or_remote),
      outbound [''/usr/bin/hg'', ''/usr/local/bin/hg''] False (Some hg_push),
      outbound [''/usr/bin/svn'', ''/usr/local/bin/svn''] False (Some svn_remote),
      outbound [''/usr/bin/bzr''] True None]"

definition FORGE_TOOLS :: "outbound_binary_rule list" where
  "FORGE_TOOLS =
     [outbound [''/usr/bin/gh'', ''/usr/local/bin/gh'', ''/opt/homebrew/bin/gh''] False (Some gh_upload),
      outbound [''/usr/bin/glab'', ''/usr/local/bin/glab''] False None,
      outbound [''/usr/bin/bb''] False None,
      outbound [''/usr/local/bin/tea'', ''/root/go/bin/tea''] False None]"

definition CLOUD_TOOLS :: "outbound_binary_rule list" where
  "CLOUD_TOOLS =
     [outbound [''/usr/bin/aws'', ''/usr/local/bin/aws'', ''/opt/homebrew/bin/aws''] False None,
      outbound [''/usr/bin/gcloud'', ''/usr/local/bin/gcloud'', ''/usr/lib/google-cloud-sdk/bin/gcloud'']
         False None,
      outbound [''/usr/bin/gsutil'', ''/usr/local/bin/gsutil''] False None,
      outbound [''/usr/bin/bq'', ''/usr/local/bin/bq''] False None,
      outbound [''/usr/bin/az'', ''/usr/local/bin/az'', ''/opt/az/bin/az''] False None,
      outbound [''/usr/bin/oci'', ''/usr/local/bin/oci''] False None,
      outbound [''/usr/bin/doctl'', ''/usr/local/bin/doctl''] False None,
      outbound [''/usr/bin/s3cmd'', ''/usr/local/bin/s3cmd''] False None,
      outbound [''/usr/bin/b2'', ''/usr/local/bin/b2''] False None]"

definition CONTAINER_TOOLS :: "outbound_binary_rule list" where
  "CONTAINER_TOOLS =
     [outbound [''/usr/bin/docker'', ''/usr/local/bin/docker''] False (Some docker_push),
      outbound [''/usr/bin/podman'', ''/usr/local/bin/podman''] False (Some docker_push),
      outbound [''/usr/bin/buildah'', ''/usr/local/bin/buildah''] False (Some docker_push),
      outbound [''/usr/bin/skopeo'', ''/usr/local/bin/skopeo''] False (Some skopeo_remote),
      outbound [''/usr/bin/helm'', ''/usr/local/bin/helm''] False None,
      outbound [''/usr/bin/kubectl'', ''/usr/local/bin/kubectl''] False (Some kubectl_outbound)]"

definition PACKAGE_TOOLS :: "outbound_binary_rule list" where
  "PACKAGE_TOOLS =
     [outbound [''/usr/bin/npm'', ''/usr/local/bin/npm''] False (Some npm_install_remote_or_publish),
      outbound [''/usr/bin/pnpm'', ''/usr/local/bin/pnpm''] False (Some npm_install_remote_or_publish),
      outbound [''/usr/bin/yarn'', ''/usr/local/bin/yarn''] False (Some npm_install_remote_or_publish),
      outbound [''/usr/bin/pip'', ''/usr/bin/pip3'', ''/usr/local/bin/pip''] False (Some pip_install_remote),
      outbound [''/usr/bin/cargo'', ''/usr/local/bin/cargo''] False (Some cargo_publish_or_remote_install),
      outbound [''/usr/bin/gem'', ''/usr/local/bin/gem''] False (Some gem_push_or_remote_install),
      outbound [''/usr/bin/go'', ''/usr/local/go/bin/go'', ''/usr/local/bin/go''] False (Some
         go_remote_install),
      outbound [''/usr/bin/composer'', ''/usr/local/bin/composer''] False (Some composer_remote)]"

definition DATABASE_TOOLS :: "outbound_binary_rule list" where
  "DATABASE_TOOLS =
     [outbound [''/usr/bin/psql'', ''/usr/local/bin/psql''] False (Some db_client_remote_host),
      outbound [''/usr/bin/mysql'', ''/usr/local/bin/mysql''] False (Some db_client_remote_host),
      outbound [''/usr/bin/mysqldump'', ''/usr/local/bin/mysqldump''] False (Some db_client_remote_host),
      outbound [''/usr/bin/redis-cli'', ''/usr/local/bin/redis-cli''] False (Some db_client_remote_host),
      outbound [''/usr/bin/mongo'', ''/usr/local/bin/mongo'', ''/usr/bin/mongosh'',
         ''/usr/local/bin/mongosh''] False (Some db_client_remote_host),
      outbound [''/usr/bin/cqlsh'', ''/usr/local/bin/cqlsh''] True None,
      outbound [''/usr/bin/clickhouse-client'', ''/usr/local/bin/clickhouse-client''] False (Some
         db_client_remote_host),
      outbound [''/usr/bin/influx'', ''/usr/local/bin/influx''] False (Some db_client_remote_host)]"

definition MAIL_TOOLS :: "outbound_binary_rule list" where
  "MAIL_TOOLS =
     [outbound [''/usr/bin/mail'', ''/usr/bin/mailx'', ''/usr/bin/s-nail'', ''/usr/bin/sendmail'',
         ''/usr/sbin/sendmail'', ''/usr/bin/msmtp'', ''/usr/bin/mutt''] False None,
      outbound [''/usr/bin/swaks'', ''/usr/local/bin/swaks''] False None,
      outbound [''/usr/local/bin/slack-cli'', ''/usr/bin/slack-cli''] False None]"

definition BROWSER_TOOLS :: "outbound_binary_rule list" where
  "BROWSER_TOOLS =
     [outbound [''/usr/bin/firefox'', ''/usr/lib/firefox/firefox'', ''/usr/local/bin/firefox''] False None,
      outbound [''/usr/bin/chromium'', ''/usr/bin/google-chrome'', ''/usr/bin/chrome'',
         ''/opt/google/chrome/google-chrome''] False None,
      outbound [''/usr/local/bin/playwright'', ''/usr/bin/playwright''] False None]"

definition INTERPRETERS :: "outbound_binary_rule list" where
  "INTERPRETERS =
     [outbound [''/usr/bin/python'', ''/usr/bin/python3'', ''/usr/bin/python3.9'', ''/usr/bin/python3.10'',
         ''/usr/bin/python3.11'', ''/usr/bin/python3.12'', ''/usr/bin/python3.13'', ''/usr/bin/python3.14'',
         ''/usr/local/bin/python'', ''/usr/local/bin/python3'', ''/usr/local/bin/python3.9'',
         ''/usr/local/bin/python3.10'', ''/usr/local/bin/python3.11'', ''/usr/local/bin/python3.12'',
         ''/usr/local/bin/python3.13'', ''/usr/local/bin/python3.14'', ''/opt/homebrew/bin/python3'',
         ''/opt/homebrew/bin/python3.9'', ''/opt/homebrew/bin/python3.10'',
         ''/opt/homebrew/bin/python3.11'', ''/opt/homebrew/bin/python3.12'',
         ''/opt/homebrew/bin/python3.13''] False (Some interpreter_inline_code),
      outbound [''/usr/bin/ruby'', ''/usr/local/bin/ruby''] False (Some interpreter_inline_code),
      outbound [''/usr/bin/perl'', ''/usr/local/bin/perl''] False (Some interpreter_inline_code),
      outbound [''/usr/bin/node'', ''/usr/local/bin/node'', ''/opt/homebrew/bin/node''] False (Some
         interpreter_inline_code),
      outbound [''/usr/bin/deno'', ''/usr/local/bin/deno''] False (Some interpreter_inline_code),
      outbound [''/usr/bin/bun'', ''/usr/local/bin/bun''] False (Some interpreter_inline_code),
      outbound [''/usr/bin/php'', ''/usr/local/bin/php''] False (Some interpreter_inline_code),
      outbound [''/usr/bin/Rscript'', ''/usr/local/bin/Rscript''] False (Some interpreter_inline_code),
      outbound [''/usr/bin/lua'', ''/usr/local/bin/lua''] False (Some interpreter_inline_code),
      outbound [''/usr/bin/julia'', ''/usr/local/bin/julia''] False (Some interpreter_inline_code),
      outbound [''/usr/bin/osascript''] False (Some interpreter_inline_code)]"

definition NETWORK_SHELLS :: "outbound_binary_rule list" where
  "NETWORK_SHELLS =
     [outbound [''/bin/bash'', ''/usr/bin/bash'', ''/usr/local/bin/bash''] False (Some
         shell_with_network_primitive),
      outbound [''/bin/sh'', ''/usr/bin/sh''] False (Some shell_with_network_primitive),
      outbound [''/bin/zsh'', ''/usr/bin/zsh'', ''/usr/local/bin/zsh''] False (Some
         shell_with_network_primitive),
      outbound [''/usr/bin/dash'', ''/bin/dash''] False (Some shell_with_network_primitive),
      outbound [''/bin/ksh'', ''/usr/bin/ksh''] False (Some shell_with_network_primitive),
      outbound [''/usr/bin/fish'', ''/usr/local/bin/fish''] False (Some shell_with_network_primitive)]"

definition OUTBOUND_CAPABLE_BINARIES :: "outbound_binary_rule list" where
  "OUTBOUND_CAPABLE_BINARIES =
     NETWORK_TOOLS @ REMOTE_SHELLS @ DNS_TOOLS @ VCS_TOOLS @ FORGE_TOOLS @ CLOUD_TOOLS @ CONTAINER_TOOLS @
     PACKAGE_TOOLS @ DATABASE_TOOLS @ MAIL_TOOLS @ BROWSER_TOOLS @ INTERPRETERS @ NETWORK_SHELLS"

definition CANONICAL_SECRET_ENV_VARS :: "string list" where
  "CANONICAL_SECRET_ENV_VARS =
     [''OPENAI_API_KEY'', ''ANTHROPIC_API_KEY'', ''GOOGLE_API_KEY'', ''GEMINI_API_KEY'', ''MISTRAL_API_KEY'',
      ''COHERE_API_KEY'', ''GROQ_API_KEY'', ''OPENROUTER_API_KEY'', ''AWS_SECRET_ACCESS_KEY'',
      ''AWS_SESSION_TOKEN'', ''AWS_ACCESS_KEY_ID'', ''GOOGLE_APPLICATION_CREDENTIALS'', ''GCLOUD_TOKEN'',
      ''AZURE_CLIENT_SECRET'', ''GITHUB_TOKEN'', ''GH_TOKEN'', ''GITLAB_TOKEN'', ''BITBUCKET_TOKEN'',
      ''STRIPE_SECRET_KEY'', ''STRIPE_API_KEY'', ''TWILIO_AUTH_TOKEN'', ''SENDGRID_API_KEY'', ''DATABASE_URL'',
      ''DB_URL'', ''POSTGRES_PASSWORD'', ''MYSQL_PASSWORD'', ''MONGO_URL'', ''REDIS_URL'', ''NPM_TOKEN'',
      ''PYPI_TOKEN'', ''CARGO_REGISTRY_TOKEN'', ''DOCKER_PASSWORD'', ''DOCKERHUB_TOKEN'']"

definition is_canonical_secret_env_var :: "string \<Rightarrow> bool" where
  "is_canonical_secret_env_var name \<longleftrightarrow> name \<in> set CANONICAL_SECRET_ENV_VARS"

subsection \<open>References to environment variables\<close>

definition is_alpha :: "char \<Rightarrow> bool" where
  "is_alpha c \<longleftrightarrow> is_upper c \<or> is_lower c"

definition is_alnum :: "char \<Rightarrow> bool" where
  "is_alnum c \<longleftrightarrow> is_alpha c \<or> is_ascii_digit c"

definition name_start :: "char \<Rightarrow> bool" where
  "name_start c \<longleftrightarrow> is_alpha c \<or> c = CHR ''_''"

definition name_char :: "char \<Rightarrow> bool" where
  "name_char c \<longleftrightarrow> is_alnum c \<or> c = CHR ''_''"

text \<open>
  One reference: what follows a \<open>$\<close> gives the name (empty when there is none) and the text where
  the scan resumes, past the closing brace of a braced group.
\<close>

definition scan_reference :: "string \<Rightarrow> string \<times> string" where
  "scan_reference after_dollar =
     (let braced = prefix ''{'' after_dollar;
          s = (if braced then drop 1 after_dollar else after_dollar);
          name = (case s of c # cs \<Rightarrow> if name_start c then c # takeWhile name_char cs else [] | [] \<Rightarrow> []);
          rest = drop (length name) s
      in (name, if braced then drop 1 (dropWhile (\<lambda>c. c \<noteq> CHR ''}'') rest) else rest))"

lemma scan_reference_shorter: "length (snd (scan_reference s)) \<le> length s"
proof -
  have braced: "length (drop 1 (dropWhile P (drop n (drop 1 s)))) \<le> length s" for P n
    using length_dropWhile_le [of P "drop n (drop 1 s)"] by simp
  show ?thesis
    by (simp add: scan_reference_def Let_def braced [simplified])
qed

function extract_env_var_refs :: "string \<Rightarrow> string list" where
  "extract_env_var_refs [] = []"
| "extract_env_var_refs (c # cs) =
     (if c \<noteq> CHR ''$'' then extract_env_var_refs cs
      else (case scan_reference cs of
              (name, rest) \<Rightarrow> (if name = [] then [] else [name]) @ extract_env_var_refs rest))"
  by pat_completeness auto
termination
  by (relation "measure length")
    (auto simp: less_Suc_eq_le, metis scan_reference_shorter snd_conv)

definition strip_declarator :: "string \<Rightarrow> string" where
  "strip_declarator chunk =
     (if prefix ''export '' chunk then trim (drop 7 chunk)
      else if prefix ''declare '' chunk then trim (drop 8 chunk)
      else if prefix ''readonly '' chunk then trim (drop 9 chunk)
      else if prefix ''local '' chunk then trim (drop 6 chunk)
      else chunk)"

definition trim_quotes :: "char \<Rightarrow> string \<Rightarrow> string" where
  "trim_quotes q s = rev (dropWhile (\<lambda>c. c = q) (rev (dropWhile (\<lambda>c. c = q) s)))"

definition chunk_assignment :: "string \<Rightarrow> (string \<times> string list) option" where
  "chunk_assignment raw =
     (let chunk = strip_declarator (trim raw)
      in if CHR ''='' \<notin> set chunk then None
         else (let lhs = takeWhile (\<lambda>c. c \<noteq> CHR ''='') chunk;
                   rhs = trim (drop (length lhs + 1) chunk)
               in if lhs = [] \<or> \<not> list_all name_char lhs \<or> is_ascii_digit (hd lhs) then None
                  else (let sources = extract_env_var_refs (trim_quotes CHR 0x27 (trim_quotes CHR 0x22 rhs))
                        in if sources = [] then None else Some (lhs, sources))))"

definition extract_var_assignments :: "string \<Rightarrow> (string \<times> string list) list" where
  "extract_var_assignments command =
     List.map_filter chunk_assignment
       (split_at_any (\<lambda>c. c \<in> {CHR '';'', CHR 0x0A, CHR ''&'', CHR ''|''}) command)"

subsection \<open>Classification\<close>

fun classify_against :: "outbound_binary_rule list \<Rightarrow> string \<Rightarrow> string list \<Rightarrow> classification" where
  "classify_against [] p argv = Routine"
| "classify_against (r # rs) p argv =
     (if p \<notin> set (canonical_paths r) then classify_against rs p argv
      else if (case argv_filter r of Some f \<Rightarrow> f argv | None \<Rightarrow> True)
           then Outbound (requires_destination_arg r) else Routine)"

definition classify_binary :: "string \<Rightarrow> string list \<Rightarrow> classification" where
  "classify_binary p argv = (if p = [] then Unknown else classify_against OUTBOUND_CAPABLE_BINARIES p argv)"


subsection \<open>The registry is a function of the path\<close>

definition rule_verdict :: "outbound_binary_rule \<Rightarrow> string list \<Rightarrow> classification" where
  "rule_verdict r argv =
     (if (case argv_filter r of Some f \<Rightarrow> f argv | None \<Rightarrow> True)
      then Outbound (requires_destination_arg r) else Routine)"

lemma classify_against_unlisted:
  "\<forall>r \<in> set rs. p \<notin> set (canonical_paths r) \<Longrightarrow> classify_against rs p argv = Routine"
  by (induction rs) auto

lemma classify_against_listed:
  assumes "r \<in> set rs" and "p \<in> set (canonical_paths r)"
    and "\<forall>r' \<in> set rs. p \<in> set (canonical_paths r') \<longrightarrow> r' = r"
  shows "classify_against rs p argv = rule_verdict r argv"
  using assms
proof (induction rs)
  case (Cons r' rs)
  show ?case
  proof (cases "p \<in> set (canonical_paths r')")
    case True
    with Cons.prems(3) have "r' = r" by simp
    with True show ?thesis by (simp add: rule_verdict_def)
  next
    case False
    have "classify_against rs p argv = rule_verdict r argv"
    proof (rule Cons.IH)
      show "r \<in> set rs" using Cons.prems(1,2) False by fastforce
      show "\<forall>r' \<in> set rs. p \<in> set (canonical_paths r') \<longrightarrow> r' = r" using Cons.prems(3) by (meson list.set_intros(2))
    qed (rule Cons.prems(2))
    with False show ?thesis by simp
  qed
qed simp

lemma distinct_concat_owner:
  assumes "distinct (concat (map f rs))" and "r \<in> set rs" and "r' \<in> set rs"
    and "x \<in> set (f r)" and "x \<in> set (f r')"
  shows "r = r'"
  using assms
proof (induction rs)
  case (Cons a rs)
  then have "set (f a) \<inter> set (concat (map f rs)) = {}" and tl: "distinct (concat (map f rs))" by simp_all
  then have only: "b \<in> set rs \<Longrightarrow> x \<in> set (f a) \<Longrightarrow> x \<in> set (f b) \<Longrightarrow> False" for b by auto
  consider "r = a" "r' = a" | "r = a" "r' \<in> set rs" | "r \<in> set rs" "r' = a" | "r \<in> set rs" "r' \<in> set rs"
    using Cons.prems by auto
  then show ?case
    using only Cons.prems(4,5) Cons.IH [OF tl] by cases blast+
qed simp

text \<open>
  The paths are told apart by a number computed from their characters; the numbers are compared
  in ascending order, neighbour by neighbour.
\<close>

definition path_number :: "string \<Rightarrow> int" where
  "path_number s = foldl (\<lambda>h c. 5 * h + of_char c) 0 s"

lemma registry_paths_distinct: "distinct (concat (map canonical_paths OUTBOUND_CAPABLE_BINARIES))"
proof -
  have "successively (<) (sort (map path_number (concat (map canonical_paths OUTBOUND_CAPABLE_BINARIES))))"
    by code_simp
  then have "distinct (sort (map path_number (concat (map canonical_paths OUTBOUND_CAPABLE_BINARIES))))"
    by (simp add: successively_conv_sorted_wrt strict_sorted_iff)
  then show ?thesis unfolding distinct_sort by (simp only: distinct_map)
qed

lemma owner_unique:
  "r \<in> set OUTBOUND_CAPABLE_BINARIES \<Longrightarrow> p \<in> set (canonical_paths r) \<Longrightarrow>
   \<forall>r' \<in> set OUTBOUND_CAPABLE_BINARIES. p \<in> set (canonical_paths r') \<longrightarrow> r' = r"
  using distinct_concat_owner [OF registry_paths_distinct] by blast

text \<open>
  The order of the curated registry is documentation and not precedence: any reordering of its
  rules classifies every path with every argument vector the same way.
\<close>

theorem registry_order_is_documentation:
  assumes "set rs = set OUTBOUND_CAPABLE_BINARIES"
  shows "classify_against rs p argv = classify_against OUTBOUND_CAPABLE_BINARIES p argv"
proof (cases "\<exists>r \<in> set OUTBOUND_CAPABLE_BINARIES. p \<in> set (canonical_paths r)")
  case True
  then obtain r where r: "r \<in> set OUTBOUND_CAPABLE_BINARIES" "p \<in> set (canonical_paths r)" by blast
  note unique = owner_unique [OF r]
  then show ?thesis
    using classify_against_listed [OF r unique, of argv]
      classify_against_listed [of r rs p argv] r assms by (metis (no_types, lifting))
next
  case False
  then show ?thesis using classify_against_unlisted assms by (metis (no_types, lifting))
qed

theorem registry_order_is_documentation_witness:
  "classify_against (rev OUTBOUND_CAPABLE_BINARIES) ''/usr/bin/curl'' [''curl''] =
   classify_against OUTBOUND_CAPABLE_BINARIES ''/usr/bin/curl'' [''curl'']"
  by (rule registry_order_is_documentation) simp

text \<open>
  A binary that resolved but is not in the registry is routine, whatever its arguments: a copy
  of curl under another name is classified like any helper.
\<close>

lemma unlisted_is_routine:
  "p \<noteq> [] \<Longrightarrow> \<forall>r \<in> set OUTBOUND_CAPABLE_BINARIES. p \<notin> set (canonical_paths r) \<Longrightarrow>
   classify_binary p argv = Routine"
  by (simp add: classify_binary_def classify_against_unlisted)

lemma copied_curl_is_routine:
  "classify_binary ''/usr/bin/curl'' [''curl'', ''https://evil.example''] = Outbound True \<and>
   classify_binary ''/tmp/x'' [''/tmp/x'', ''https://evil.example''] = Routine"
  by code_simp

lemma php_run_is_routine:
  "classify_binary ''/usr/bin/php'' [''php'', ''-r'', ''code''] = Routine"
  by code_simp

subsection \<open>What the scanners find\<close>

definition is_env_name :: "string \<Rightarrow> bool" where
  "is_env_name v \<longleftrightarrow> v \<noteq> [] \<and> name_start (hd v) \<and> list_all name_char v"

definition referenced :: "string \<Rightarrow> string \<Rightarrow> bool" where
  "referenced v token \<longleftrightarrow> str_contains token (''$'' @ v) \<or> str_contains token (''${'' @ v)"

lemma name_start_char: "name_start c \<Longrightarrow> name_char c"
  by (auto simp: name_start_def name_char_def is_alnum_def)

lemma list_all_takeWhile: "list_all P (takeWhile P xs)"
  by (induction xs) auto

lemma scan_reference_name:
  assumes "scan_reference s = (v, rest)" and "v \<noteq> []"
  shows "is_env_name v" and "prefix v s \<or> prefix (''{'' @ v) s"
  using assms
  by (cases s; auto simp: scan_reference_def Let_def is_env_name_def list_all_takeWhile name_start_char
      takeWhile_is_prefix split: list.splits if_splits)+

lemma scan_reference_rest: "suffix (snd (scan_reference s)) s"
proof -
  have "suffix (drop 1 (dropWhile P (drop n (drop m s)))) s" for P n m
    by (meson suffix_drop suffix_dropWhile suffix_order.trans)
  note long = this [of _ _ 1] and short = suffix_drop [of _ s]
  show ?thesis
    unfolding scan_reference_def Let_def
    using long short by simp
qed

lemma referenced_suffix: "suffix t s \<Longrightarrow> referenced v t \<Longrightarrow> referenced v s"
  unfolding referenced_def str_contains_iff suffix_def by (metis append.assoc)

lemma referenced_here: "prefix v s \<or> prefix (''{'' @ v) s \<Longrightarrow> referenced v (CHR ''$'' # s)"
  unfolding referenced_def str_contains_iff prefix_def by (metis append_Cons append_Nil)

lemma extracted_references:
  "v \<in> set (extract_env_var_refs token) \<Longrightarrow> is_env_name v \<and> referenced v token"
proof (induction token rule: extract_env_var_refs.induct)
  case (2 c cs)
  show ?case
  proof (cases "c = CHR ''$''")
    case False
    with 2 show ?thesis by (auto intro: referenced_suffix [of cs] simp: suffix_ConsI)
  next
    case True
    obtain name rest where scan: "scan_reference cs = (name, rest)" by fastforce
    with True 2(3) consider "v = name" "name \<noteq> []" | "v \<in> set (extract_env_var_refs rest)"
      by (auto split: if_splits)
    then show ?thesis
    proof cases
      case 1
      then show ?thesis using scan_reference_name [OF scan] referenced_here True by blast
    next
      case 2
      have "suffix rest cs" using scan_reference_rest [of cs] scan by simp
      then show ?thesis
        using "2.IH"(2) [of name rest] 2 True scan referenced_suffix suffix_ConsI by metis
    qed
  qed
qed simp

lemma takeWhile_name:
  "is_env_name v \<Longrightarrow> post = [] \<or> \<not> name_char (hd post) \<Longrightarrow>
   v = c # cs \<Longrightarrow> takeWhile name_char (cs @ post) = cs"
  by (cases post) (auto simp: is_env_name_def list_all_iff takeWhile_append)

lemma scan_finds_name:
  assumes "is_env_name v" and "post = [] \<or> \<not> name_char (hd post)"
  shows "fst (scan_reference (v @ post)) = v" and "fst (scan_reference (''{'' @ v @ post)) = v"
proof -
  obtain c cs where v: "v = c # cs" using assms(1) by (cases v) (auto simp: is_env_name_def)
  then have "name_start c" and "c \<noteq> CHR ''{''"
    using assms(1) by (auto simp: is_env_name_def name_start_def is_alpha_def is_upper_def is_lower_def)
  then show "fst (scan_reference (v @ post)) = v" and "fst (scan_reference (''{'' @ v @ post)) = v"
    using takeWhile_name [OF assms v] by (simp_all add: scan_reference_def Let_def v)
qed

lemma extract_skips: "CHR ''$'' \<notin> set pre \<Longrightarrow> extract_env_var_refs (pre @ s) = extract_env_var_refs s"
  by (induction pre) auto

lemma extract_at_dollar:
  "fst (scan_reference s) = v \<Longrightarrow> v \<noteq> [] \<Longrightarrow> v \<in> set (extract_env_var_refs (CHR ''$'' # s))"
  by (cases "scan_reference s") auto

text \<open>
  The scanner for environment variables is sound and finds the first reference: everything it
  returns is a well-formed name that stands behind a dollar sign in the token, and a first
  reference, braced or not, is among what it returns.
\<close>

theorem env_references_are_exact:
  "(\<forall>v \<in> set (extract_env_var_refs token). is_env_name v \<and> referenced v token) \<and>
   (\<forall>pre v post. token \<in> {pre @ ''$'' @ v @ post, pre @ ''${'' @ v @ post} \<longrightarrow>
      CHR ''$'' \<notin> set pre \<longrightarrow> is_env_name v \<longrightarrow> post = [] \<or> \<not> name_char (hd post) \<longrightarrow>
      v \<in> set (extract_env_var_refs token))"
proof (intro conjI ballI allI impI)
  fix v assume "v \<in> set (extract_env_var_refs token)"
  then show "is_env_name v" and "referenced v token" using extracted_references by auto
next
  fix pre v post
  assume t: "token \<in> {pre @ ''$'' @ v @ post, pre @ ''${'' @ v @ post}" and "CHR ''$'' \<notin> set pre"
    and v: "is_env_name v" and post: "post = [] \<or> \<not> name_char (hd post)"
  have "v \<noteq> []" using v by (simp add: is_env_name_def)
  with t \<open>CHR ''$'' \<notin> set pre\<close> scan_finds_name [OF v post] show "v \<in> set (extract_env_var_refs token)"
    by (auto simp: extract_skips extract_at_dollar simp del: extract_env_var_refs.simps)
qed

theorem env_references_are_exact_witness:
  "''HOME'' \<in> set (extract_env_var_refs ''--token=${HOME}/x'')"
proof (rule env_references_are_exact [THEN conjunct2, rule_format])
  show "''--token=${HOME}/x'' \<in> {''--token='' @ ''$'' @ ''HOME'' @ ''}/x'', ''--token='' @ ''${'' @ ''HOME'' @ ''}/x''}" by simp
  show "is_env_name ''HOME''" by code_simp
  show "''}/x'' = [] \<or> \<not> name_char (hd ''}/x'')" by code_simp
qed simp

end
