(* ===== verification/Taint_Text.thy ===== *)
theory Taint_Text
  imports Outbound_Binaries Call_Types
begin

section \<open>What the taint filter reads off paths, arguments and command lines\<close>

text \<open>
  The functions of \<open>crates/grith-proxy/src/filters/taint.rs\<close> that look at texts alone: the
  classification of a path as a source, the path-shaped parts of an argument, its resolution
  against a working directory, and the patterns of a shell command. The working directory of the
  calling process is an argument. Slices are taken at the positions of ASCII characters, so the
  byte-wise strings of the model are cut where the code cuts its own.
\<close>

subsection \<open>Sources\<close>

definition DEFAULT_SENSITIVE_SOURCES :: "string list" where
  "DEFAULT_SENSITIVE_SOURCES =
     [''.env'', ''.ssh'', ''credentials'', ''secrets'', ''.aws'', ''.gnupg'', ''id_rsa'', ''id_ed25519'',
      ''private_key'', ''.kube/config'', ''token'', ''passwd'', ''shadow'', ''.netrc'', ''.git-credentials'',
      ''.npmrc'', ''.pypirc'', ''.docker/config.json'', ''.bash_history'', ''.zsh_history'']"

definition HIGH_PATTERNS :: "string list" where
  "HIGH_PATTERNS = [''.ssh'', ''id_rsa'', ''id_ed25519'', ''private_key'', ''shadow'']"

definition MEDIUM_PATTERNS :: "string list" where
  "MEDIUM_PATTERNS = [''.env'', ''.aws'', ''credentials'', ''secrets'', ''.gnupg'', ''.kube/config'']"

definition contains_any :: "string list \<Rightarrow> string \<Rightarrow> bool" where
  "contains_any pats s \<longleftrightarrow> list_ex (\<lambda>p. str_contains s p) pats"

definition classify_source :: "string list \<Rightarrow> string \<Rightarrow> taint_level" where
  "classify_source sources path =
     (let path_lower = to_lowercase path
      in if \<not> list_ex (\<lambda>p. str_contains path_lower (to_lowercase p)) sources then TaintNone
         else if contains_any HIGH_PATTERNS path_lower then TaintHigh
         else if contains_any MEDIUM_PATTERNS path_lower then TaintMedium
         else TaintLow)"

definition classify_source_category :: "string \<Rightarrow> string option" where
  "classify_source_category path =
     (let path_lower = to_lowercase path
      in if contains_any HIGH_PATTERNS path_lower then Some ''ssh-key''
         else if contains_any MEDIUM_PATTERNS path_lower then Some ''env-file''
         else Some ''sensitive-file'')"

fun taint_ord :: "taint_level \<Rightarrow> nat" where
  "taint_ord TaintNone = 0"
| "taint_ord TaintLow = 1"
| "taint_ord TaintMedium = 2"
| "taint_ord TaintHigh = 3"

definition combine_taint :: "taint_level \<Rightarrow> taint_level \<Rightarrow> taint_level" where
  "combine_taint a b = (if taint_ord a \<ge> taint_ord b then a else b)"

definition tainted_basename_is_sensitive :: "string list \<Rightarrow> string \<Rightarrow> bool" where
  "tainted_basename_is_sensitive sources p =
     (case path_file_name p of
        Some name \<Rightarrow> classify_source sources name \<noteq> TaintNone
      | None \<Rightarrow> False)"

subsection \<open>Arguments that name a tainted path\<close>

definition path_equals_or_under :: "string \<Rightarrow> string \<Rightarrow> bool" where
  "path_equals_or_under candidate tainted =
     (if tainted = [] then False
      else candidate = tainted \<or>
        (case strip_prefix tainted candidate of Some rest \<Rightarrow> prefix ''/'' rest | None \<Rightarrow> False))"

definition strip_at :: "string \<Rightarrow> string" where
  "strip_at arg = (case strip_prefix ''@'' arg of Some r \<Rightarrow> r | None \<Rightarrow> arg)"

definition argv_arg_matches_tainted_path :: "string \<Rightarrow> string \<Rightarrow> string option \<Rightarrow> bool \<Rightarrow> bool" where
  "argv_arg_matches_tainted_path arg tainted resolved basename_is_sensitive =
     (let a = strip_at arg
      in path_equals_or_under a tainted \<or>
         (case resolved of Some r \<Rightarrow> path_equals_or_under r tainted | None \<Rightarrow> False) \<or>
         (basename_is_sensitive \<and>
          (case path_file_name tainted of
             Some f \<Rightarrow> length f \<ge> 4 \<and> (a = f \<or> suffix (''/'' @ f) a)
           | None \<Rightarrow> False)))"

definition MAX_ARGV_CANDIDATE_CUTS :: nat where
  "MAX_ARGV_CANDIDATE_CUTS = 4"

definition strip_file_scheme :: "string \<Rightarrow> string" where
  "strip_file_scheme arg =
     (if length arg > 7 \<and> eq_ignore_ascii_case (take 7 arg) ''file://'' then drop 7 arg else arg)"

definition is_cut :: "char \<Rightarrow> bool" where
  "is_cut c \<longleftrightarrow> c = CHR ''='' \<or> c = CHR ''@''"

text \<open>The loop of \<open>argv_path_candidates\<close>: the first argument counts the rounds left.\<close>

fun candidates_loop :: "nat \<Rightarrow> string \<Rightarrow> string list \<Rightarrow> string list" where
  "candidates_loop 0 rest out = out"
| "candidates_loop (Suc n) rest out =
     (let c = strip_file_scheme rest;
          out' = (if c \<noteq> [] \<and> c \<notin> set out then out @ [c] else out)
      in case dropWhile (\<lambda>x. \<not> is_cut x) c of
           [] \<Rightarrow> out'
         | _ # rest' \<Rightarrow> if rest' = [] then out' else candidates_loop n rest' out')"

definition argv_path_candidates :: "string \<Rightarrow> string list" where
  "argv_path_candidates arg = candidates_loop (Suc MAX_ARGV_CANDIDATE_CUTS) arg []"

definition needs_lexical_normalisation :: "string \<Rightarrow> bool" where
  "needs_lexical_normalisation path \<longleftrightarrow>
     suffix ''/'' path \<or> suffix ''/.'' path \<or> suffix ''/..'' path \<or>
     str_contains path ''/./'' \<or> str_contains path ''/../'' \<or> str_contains path ''//''"

fun lexical_push :: "string list \<Rightarrow> string \<Rightarrow> string list" where
  "lexical_push out c =
     (if c = [] \<or> c = ''.'' then out else if c = ''..'' then butlast out else out @ [c])"

definition lexically_normalise_absolute :: "string \<Rightarrow> string option" where
  "lexically_normalise_absolute path =
     (if \<not> prefix ''/'' path then None
      else Some (''/'' @ join ''/'' (foldl lexical_push [] (split_on CHR ''/'' path))))"

definition resolve_argv_token :: "string \<Rightarrow> string option \<Rightarrow> string option" where
  "resolve_argv_token token caller_cwd =
     (let arg = strip_at token
      in if arg = [] then None
         else if prefix ''/'' arg then
           (if needs_lexical_normalisation arg then lexically_normalise_absolute arg else None)
         else (case caller_cwd of
                 None \<Rightarrow> None
               | Some cwd \<Rightarrow>
                   if \<not> prefix ''/'' cwd then None
                   else lexically_normalise_absolute (trim_end_slashes cwd @ ''/'' @ arg)))"

subsection \<open>Destinations and exfiltration patterns\<close>

definition DESTINATION_SCHEMES :: "string list" where
  "DESTINATION_SCHEMES =
     [''http://'', ''https://'', ''ftp://'', ''ssh://'', ''git://'', ''git+'', ''scp://'', ''sftp://'', ''rsync://'',
      ''mongodb://'', ''mongodb+srv://'', ''postgres://'', ''redis://'', ''mysql://'']"

definition is_destination_arg :: "string \<Rightarrow> bool" where
  "is_destination_arg a =
     (if prefix ''@'' a then False
      else starts_with_any DESTINATION_SCHEMES a \<or>
        (CHR ''@'' \<in> set a \<and> \<not> prefix ''-'' a) \<or>
        (CHR '':'' \<in> set a \<and> \<not> prefix ''-'' a \<and> \<not> prefix ''/'' a \<and>
         (let before_colon = takeWhile (\<lambda>c. c \<noteq> CHR '':'') a
          in before_colon \<noteq> [] \<and>
             list_all (\<lambda>c. is_alnum c \<or> c = CHR ''.'' \<or> c = CHR ''-'') before_colon)))"

definition argv_contains_destination_arg :: "string list \<Rightarrow> bool" where
  "argv_contains_destination_arg argv = list_ex is_destination_arg (drop 1 argv)"

definition OUTBOUND_BASENAMES :: "string list" where
  "OUTBOUND_BASENAMES =
     [''curl'', ''wget'', ''wget2'', ''nc'', ''ncat'', ''socat'', ''aria2c'', ''lftp'', ''ftp'', ''tftp'', ''httpie'',
      ''http'', ''rclone'', ''kafkacat'', ''kcat'', ''mc'', ''ssh'', ''scp'', ''sftp'', ''rsync'', ''mosh'',
      ''nslookup'', ''dig'', ''drill'', ''kdig'', ''mail'', ''mailx'', ''sendmail'', ''msmtp'', ''swaks'']"

definition word_before :: "char option \<Rightarrow> bool" where
  "word_before prev =
     (case prev of
        None \<Rightarrow> True
      | Some c \<Rightarrow> c \<in> {CHR '' '', CHR 0x09, CHR ''|'', CHR '';'', CHR ''&'', CHR 0x0A, CHR ''/'', CHR ''('', CHR ''$''})"

definition word_after :: "string \<Rightarrow> bool" where
  "word_after rest =
     (case rest of
        [] \<Rightarrow> True
      | c # _ \<Rightarrow> c \<in> {CHR '' '', CHR 0x09, CHR ''|'', CHR '';'', CHR ''&'', CHR 0x0A, CHR ''<'', CHR ''>''})"

text \<open>The search for a needle at a word boundary, over every position of the command.\<close>

fun word_occurs :: "string \<Rightarrow> char option \<Rightarrow> string \<Rightarrow> bool" where
  "word_occurs needle prev [] = (needle = [] \<and> word_before prev)"
| "word_occurs needle prev (c # cs) =
     ((prefix needle (c # cs) \<and> word_before prev \<and> word_after (drop (length needle) (c # cs))) \<or>
      word_occurs needle (Some c) cs)"

definition command_text_matches_exfil_pattern :: "string \<Rightarrow> string list \<Rightarrow> bool" where
  "command_text_matches_exfil_pattern command tainted_paths \<longleftrightarrow>
     list_ex (\<lambda>p. p \<noteq> [] \<and> str_contains command p) tainted_paths \<and>
     list_ex (\<lambda>b. word_occurs b None command) OUTBOUND_BASENAMES"

text \<open>
  A quoted character becomes one space; the continuation bytes of a multi-byte character add
  nothing.
\<close>

definition is_continuation_byte :: "char \<Rightarrow> bool" where
  "is_continuation_byte c \<longleftrightarrow> (let n = of_char c :: nat in 128 \<le> n \<and> n < 192)"

fun strip_quoted_loop :: "bool \<Rightarrow> bool \<Rightarrow> string \<Rightarrow> string" where
  "strip_quoted_loop in_single in_double [] = []"
| "strip_quoted_loop in_single in_double (c # cs) =
     (if c = CHR 0x27 \<and> \<not> in_double then CHR '' '' # strip_quoted_loop (\<not> in_single) in_double cs
      else if c = CHR 0x22 \<and> \<not> in_single then CHR '' '' # strip_quoted_loop in_single (\<not> in_double) cs
      else if in_single \<or> in_double then
        (if is_continuation_byte c then [] else [CHR '' '']) @ strip_quoted_loop in_single in_double cs
      else c # strip_quoted_loop in_single in_double cs)"

definition strip_quoted_regions :: "string \<Rightarrow> string" where
  "strip_quoted_regions s = strip_quoted_loop False False s"

definition command_contains_pipe_or_redirect :: "string \<Rightarrow> bool" where
  "command_contains_pipe_or_redirect command =
     (let stripped = strip_quoted_regions command
      in CHR ''|'' \<in> set stripped \<or> CHR ''<'' \<in> set stripped \<or> CHR ''>'' \<in> set stripped)"

definition spawn_parts :: "tool_call_type \<Rightarrow> (string \<times> string list) option" where
  "spawn_parts ct =
     (case ct of
        ShellExec c args \<Rightarrow> Some (c, args)
      | ProcessSpawn c args \<Rightarrow> Some (c, args)
      | _ \<Rightarrow> None)"

fun after_command_flag :: "string list \<Rightarrow> string option" where
  "after_command_flag [] = None"
| "after_command_flag (a # as) =
     (if a = ''-c'' \<or> a = ''-C'' then (case as of t # _ \<Rightarrow> Some t | [] \<Rightarrow> None)
      else after_command_flag as)"

definition shell_command_text :: "tool_call_type \<Rightarrow> string option" where
  "shell_command_text ct =
     (case spawn_parts ct of
        None \<Rightarrow> None
      | Some (cmd, args) \<Rightarrow>
          if last_component cmd \<notin> {''bash'', ''sh'', ''zsh'', ''dash'', ''ksh'', ''fish''} then None
          else after_command_flag args)"

definition ascii_upper :: "char \<Rightarrow> char" where
  "ascii_upper c = (if is_lower c then char_of (of_char c - 32 :: nat) else c)"

definition is_high_risk_http_method :: "string \<Rightarrow> bool" where
  "is_high_risk_http_method method \<longleftrightarrow> map ascii_upper method \<in> {''POST'', ''PUT'', ''PATCH''}"

text \<open>\<open>format!("{:?}", argv)\<close>.\<close>

definition debug_char :: "char \<Rightarrow> string" where
  "debug_char c =
     (let n = of_char c :: nat
      in if c = CHR 0x22 then [CHR 0x5C, CHR 0x22] else if c = CHR 0x5C then [CHR 0x5C, CHR 0x5C]
         else if n = 0 then [CHR 0x5C, CHR ''0''] else if n = 9 then [CHR 0x5C, CHR ''t'']
         else if n = 10 then [CHR 0x5C, CHR ''n''] else if n = 13 then [CHR 0x5C, CHR ''r'']
         else if n < 32 \<or> n = 127 then CHR 0x5C # ''u{'' @ digits_base 16 n @ ''}'' else [c])"

definition debug_argv :: "string list \<Rightarrow> string" where
  "debug_argv argv =
     ''['' @ join '', '' (map (\<lambda>a. CHR 0x22 # concat (map debug_char a) @ [CHR 0x22]) argv) @ '']''"

end
