(* ===== verification/Taint_Filter.thy ===== *)
theory Taint_Filter
  imports Taint_Text Rate_Limit_Filter Session_State Ip_Addr "HOL-Library.Char_ord" "HOL-Library.List_Lexorder"
begin

section \<open>The taint filter\<close>

text \<open>
  The stateful part of \<open>crates/grith-proxy/src/filters/taint.rs\<close>. The filter's five locked maps and
  the process-wide registry of session states it writes to form one state; a hash map is an
  association list, and where the code walks one in the order of its hashes the model walks the
  list. One evaluation takes one reading of the clock, and what it reads of its surroundings is an
  argument: the clock, the rendering of a UUID, the current directory, \<open>readlink\<close> and
  \<open>canonicalize\<close>. The traces it logs are not modelled.
\<close>

record taint_entry =
  te_level :: taint_level
  te_registered_at :: instant

record taint_filter =
  tf_sensitive_sources :: "string list"
  tf_taint_ttl :: duration
  tf_spawn_data_flow_only :: bool
  tf_outbound_requires_data_flow :: bool

record taint_state =
  ts_registry :: "(string \<times> taint_entry) list"
  ts_recent_read :: "(string \<times> instant) list"
  ts_tainted_pids :: "((string \<times> nat) \<times> taint_level) list"
  ts_derived_vars :: "(string \<times> string list) list"
  ts_pipe_observed :: "string list"
  ts_sessions :: registry

record taint_env =
  tn_now :: instant
  tn_uuid_text :: "uuid \<Rightarrow> string"
  tn_current_dir :: "string option"
  tn_read_link :: "string \<Rightarrow> string option"
  tn_canonicalize :: "string \<Rightarrow> string option"

definition DEFAULT_TAINT_TTL :: duration where
  "DEFAULT_TAINT_TTL = secs 3600"

definition taint_filter_new :: "string list \<Rightarrow> taint_filter" where
  "taint_filter_new sources =
     \<lparr> tf_sensitive_sources = sources, tf_taint_ttl = DEFAULT_TAINT_TTL,
       tf_spawn_data_flow_only = False, tf_outbound_requires_data_flow = False \<rparr>"

definition taint_state_new :: "registry \<Rightarrow> taint_state" where
  "taint_state_new reg =
     \<lparr> ts_registry = [], ts_recent_read = [], ts_tainted_pids = [], ts_derived_vars = [],
       ts_pipe_observed = [], ts_sessions = reg \<rparr>"

definition with_outbound_taint_requires_data_flow :: "bool \<Rightarrow> taint_filter \<Rightarrow> taint_filter" where
  "with_outbound_taint_requires_data_flow on flt = flt\<lparr>tf_outbound_requires_data_flow := on\<rparr>"

definition with_spawn_data_flow_only :: "bool \<Rightarrow> taint_filter \<Rightarrow> taint_filter" where
  "with_spawn_data_flow_only on flt = flt\<lparr>tf_spawn_data_flow_only := on\<rparr>"

definition taint_with_defaults :: taint_filter where
  "taint_with_defaults = taint_filter_new DEFAULT_SENSITIVE_SOURCES"

subsection \<open>Scopes and keys\<close>

definition scope_prefix :: "(uuid \<Rightarrow> string) \<Rightarrow> tool_call_context \<Rightarrow> string" where
  "scope_prefix ustr ctx =
     (case conversation_id ctx of
        Some conv \<Rightarrow> ''conv:'' @ conv
      | None \<Rightarrow> ''ses:'' @ ustr (as_uuid (scope_of ctx)))"

definition key_of :: "string \<Rightarrow> string \<Rightarrow> string" where
  "key_of scope path = scope @ CHR 0x00 # path"

definition registry_key :: "(uuid \<Rightarrow> string) \<Rightarrow> tool_call_context \<Rightarrow> string \<Rightarrow> string" where
  "registry_key ustr ctx path = key_of (scope_prefix ustr ctx) path"

definition key_matches_context :: "(uuid \<Rightarrow> string) \<Rightarrow> string \<Rightarrow> tool_call_context \<Rightarrow> bool" where
  "key_matches_context ustr key ctx \<longleftrightarrow> prefix (scope_prefix ustr ctx @ [CHR 0x00]) key"

definition path_from_key :: "string \<Rightarrow> string" where
  "path_from_key key =
     (case dropWhile (\<lambda>c. c \<noteq> CHR 0x00) key of [] \<Rightarrow> key | _ # path \<Rightarrow> path)"

definition evict_stale_entries ::
    "instant \<Rightarrow> duration \<Rightarrow> (string \<times> taint_entry) list \<Rightarrow> (string \<times> taint_entry) list" where
  "evict_stale_entries now ttl reg = filter (\<lambda>(k, e). te_registered_at e \<ge> now - int ttl) reg"

subsection \<open>Reading the state\<close>

definition highest_level :: "(string \<times> taint_entry) list \<Rightarrow> (string \<Rightarrow> bool) \<Rightarrow> taint_level" where
  "highest_level reg mine =
     foldl (\<lambda>highest (k, e).
       if mine k \<and> taint_ord (te_level e) > taint_ord highest then te_level e else highest) TaintNone reg"

definition get_effective_taint ::
    "taint_env \<Rightarrow> taint_filter \<Rightarrow> tool_call_context \<Rightarrow> taint_state \<Rightarrow> taint_level \<times> taint_state" where
  "get_effective_taint env flt ctx st =
     (if source_taint ctx \<noteq> TaintNone then (source_taint ctx, st)
      else (let reg = evict_stale_entries (tn_now env) (tf_taint_ttl flt) (ts_registry st)
            in (highest_level reg (\<lambda>k. key_matches_context (tn_uuid_text env) k ctx), st\<lparr>ts_registry := reg\<rparr>)))"

definition extract_pid :: "tool_call_context \<Rightarrow> nat option" where
  "extract_pid ctx = Option.bind (json_get (arguments ctx) ''pid'') as_u64"

definition is_supervisor_event :: "tool_call_context \<Rightarrow> bool" where
  "is_supervisor_event ctx \<longleftrightarrow> prefix ''supervisor:'' (plugin_id ctx)"

definition caller_cwd :: "taint_env \<Rightarrow> tool_call_context \<Rightarrow> string option" where
  "caller_cwd env ctx =
     (if \<not> is_supervisor_event ctx then
        (if conversation_id ctx \<noteq> None then None else tn_current_dir env)
      else (case extract_pid ctx of
              None \<Rightarrow> None
            | Some pid \<Rightarrow>
                (case tn_read_link env (''/proc/'' @ digits_of_nat pid @ ''/cwd'') of
                   None \<Rightarrow> None
                 | Some cwd \<Rightarrow>
                     if \<not> prefix ''/'' cwd \<or> suffix '' (deleted)'' cwd then None else Some cwd)))"

definition pid_key :: "(uuid \<Rightarrow> string) \<Rightarrow> tool_call_context \<Rightarrow> nat \<Rightarrow> string \<times> nat" where
  "pid_key ustr ctx pid = (scope_prefix ustr ctx, pid)"

definition pid_taint_level :: "taint_env \<Rightarrow> tool_call_context \<Rightarrow> taint_state \<Rightarrow> taint_level option" where
  "pid_taint_level env ctx st =
     (case extract_pid ctx of
        None \<Rightarrow> None
      | Some pid \<Rightarrow> map_of (ts_tainted_pids st) (pid_key (tn_uuid_text env) ctx pid))"

definition is_env_var_tainted :: "taint_env \<Rightarrow> tool_call_context \<Rightarrow> string \<Rightarrow> taint_state \<Rightarrow> bool" where
  "is_env_var_tainted env ctx v st \<longleftrightarrow>
     is_canonical_secret_env_var v \<or>
     (case map_of (ts_derived_vars st) (scope_prefix (tn_uuid_text env) ctx) of
        Some vs \<Rightarrow> v \<in> set vs
      | None \<Rightarrow> False)"

definition is_pipe_observed :: "taint_env \<Rightarrow> tool_call_context \<Rightarrow> taint_state \<Rightarrow> bool" where
  "is_pipe_observed env ctx st \<longleftrightarrow> scope_prefix (tn_uuid_text env) ctx \<in> set (ts_pipe_observed st)"

definition tainted_paths_for_scope :: "taint_env \<Rightarrow> tool_call_context \<Rightarrow> taint_state \<Rightarrow> string list" where
  "tainted_paths_for_scope env ctx st =
     List.map_filter (\<lambda>(k, e). strip_prefix (scope_prefix (tn_uuid_text env) ctx @ [CHR 0x00]) k) (ts_registry st)"

definition active_source_categories ::
    "taint_env \<Rightarrow> taint_filter \<Rightarrow> tool_call_context \<Rightarrow> taint_state \<Rightarrow> string list \<times> taint_state" where
  "active_source_categories env flt ctx st =
     (let reg = evict_stale_entries (tn_now env) (tf_taint_ttl flt) (ts_registry st);
          keys = filter (\<lambda>k. key_matches_context (tn_uuid_text env) k ctx) (map fst reg)
      in (remdups_adj (sort (List.map_filter (\<lambda>k. classify_source_category (path_from_key k)) keys)),
          st\<lparr>ts_registry := reg\<rparr>))"

definition tainted_path_count :: "taint_env \<Rightarrow> taint_filter \<Rightarrow> taint_state \<Rightarrow> nat \<times> taint_state" where
  "tainted_path_count env flt st =
     (let reg = evict_stale_entries (tn_now env) (tf_taint_ttl flt) (ts_registry st)
      in (length reg, st\<lparr>ts_registry := reg\<rparr>))"

subsection \<open>Writing the state\<close>

definition mark_pid_tainted :: "taint_env \<Rightarrow> tool_call_context \<Rightarrow> taint_level \<Rightarrow> taint_state \<Rightarrow> taint_state" where
  "mark_pid_tainted env ctx level st =
     (case extract_pid ctx of
        None \<Rightarrow> st
      | Some pid \<Rightarrow>
          if level = TaintNone then st
          else (let k = pid_key (tn_uuid_text env) ctx pid
                in case map_of (ts_tainted_pids st) k of
                     Some current \<Rightarrow>
                       if taint_ord current \<ge> taint_ord level then st
                       else st\<lparr>ts_tainted_pids := assoc_insert k level (ts_tainted_pids st)\<rparr>
                   | None \<Rightarrow> st\<lparr>ts_tainted_pids := assoc_insert k level (ts_tainted_pids st)\<rparr>))"

definition mark_env_var_tainted :: "taint_env \<Rightarrow> tool_call_context \<Rightarrow> string \<Rightarrow> taint_state \<Rightarrow> taint_state" where
  "mark_env_var_tainted env ctx v st =
     (let scope = scope_prefix (tn_uuid_text env) ctx;
          vs = (case map_of (ts_derived_vars st) scope of Some vs \<Rightarrow> vs | None \<Rightarrow> [])
      in st\<lparr>ts_derived_vars := assoc_insert scope (List.insert v vs) (ts_derived_vars st)\<rparr>)"

definition mark_pipe_observed :: "taint_env \<Rightarrow> tool_call_context \<Rightarrow> taint_state \<Rightarrow> taint_state" where
  "mark_pipe_observed env ctx st =
     st\<lparr>ts_pipe_observed := List.insert (scope_prefix (tn_uuid_text env) ctx) (ts_pipe_observed st)\<rparr>"

definition observe_assignment ::
    "taint_env \<Rightarrow> tool_call_context \<Rightarrow> taint_state \<Rightarrow> string \<times> string list \<Rightarrow> taint_state" where
  "observe_assignment env ctx st = (\<lambda>(target, sources).
     if list_ex (\<lambda>s. is_env_var_tainted env ctx s st) sources then mark_env_var_tainted env ctx target st else st)"

definition observe_shell_command :: "taint_env \<Rightarrow> tool_call_context \<Rightarrow> string \<Rightarrow> taint_state \<Rightarrow> taint_state" where
  "observe_shell_command env ctx command st =
     (let st' = foldl (observe_assignment env ctx) st (extract_var_assignments command)
      in if command_contains_pipe_or_redirect command then mark_pipe_observed env ctx st' else st')"

definition register_taint ::
    "taint_env \<Rightarrow> tool_call_context \<Rightarrow> string \<Rightarrow> taint_level \<Rightarrow> taint_state \<Rightarrow> taint_state" where
  "register_taint env ctx path level st =
     (if level = TaintNone then st
      else (let st' = st\<lparr>ts_registry :=
                  assoc_insert (registry_key (tn_uuid_text env) ctx path)
                    \<lparr> te_level = level, te_registered_at = tn_now env \<rparr> (ts_registry st)\<rparr>
            in if level = TaintHigh then
                 st'\<lparr>ts_sessions :=
                   registry_activate (scope_of ctx) (SensitiveAccessOutsideScope path ''high'') (tn_now env)
                     (ts_sessions st')\<rparr>
               else st'))"

subsection \<open>The five conditions of the spawn rule\<close>

definition spawn_taint_match :: "string \<Rightarrow> string \<Rightarrow> filter_result" where
  "spawn_taint_match rid msg = matched ''taint'' rid 3 Warning msg"

definition argv_path_hits ::
    "taint_env \<Rightarrow> taint_filter \<Rightarrow> tool_call_context \<Rightarrow> string list \<Rightarrow> taint_state \<Rightarrow> string list" where
  "argv_path_hits env flt ctx argv st =
     (let cwd = caller_cwd env ctx; paths = tainted_paths_for_scope env ctx st
      in concat (map (\<lambda>c. filter (\<lambda>p. argv_arg_matches_tainted_path c p (resolve_argv_token c cwd)
                                         (tainted_basename_is_sensitive (tf_sensitive_sources flt) p)) paths)
           (concat (map argv_path_candidates argv))))"

definition argv_env_hits :: "taint_env \<Rightarrow> tool_call_context \<Rightarrow> string list \<Rightarrow> taint_state \<Rightarrow> string list" where
  "argv_env_hits env ctx argv st =
     filter (\<lambda>v. is_env_var_tainted env ctx v st) (concat (map extract_env_var_refs argv))"

definition outbound_binary_hit :: "taint_env \<Rightarrow> string \<Rightarrow> string list \<Rightarrow> filter_result option" where
  "outbound_binary_hit env command argv =
     (case canonicalise_spawn_target (tn_canonicalize env) command of
        None \<Rightarrow>
          Some (spawn_taint_match ''tainted-shell-sink-unknown-binary''
            (''Spawn under taint, canonicalisation failed: '' @ command @ '' '' @ debug_argv argv))
      | Some canonical \<Rightarrow>
          (case classify_binary canonical argv of
             Outbound req \<Rightarrow>
               if \<not> req \<or> argv_contains_destination_arg argv then
                 Some (spawn_taint_match ''tainted-shell-sink-outbound-binary''
                   (''Spawn under taint of outbound-capable binary: '' @ command @ '' '' @ debug_argv argv))
               else None
           | Unknown \<Rightarrow>
               Some (spawn_taint_match ''tainted-shell-sink-unknown-binary''
                 (''Spawn under taint of empty-path binary: '' @ command @ '' '' @ debug_argv argv))
           | Routine \<Rightarrow> None))"

definition exfil_text :: "tool_call_context \<Rightarrow> string list \<Rightarrow> string" where
  "exfil_text ctx argv =
     (case shell_command_text (call_type ctx) of Some t \<Rightarrow> t | None \<Rightarrow> join '' '' argv)"

definition spawn_rule ::
    "taint_env \<Rightarrow> taint_filter \<Rightarrow> tool_call_context \<Rightarrow> string \<Rightarrow> string list \<Rightarrow> bool \<Rightarrow> taint_state \<Rightarrow>
     filter_result option" where
  "spawn_rule env flt ctx command argv session_has_taint st =
     (case (if session_has_taint then argv_path_hits env flt ctx argv st else []) of
        p # _ \<Rightarrow>
          Some (spawn_taint_match ''tainted-shell-sink-argv-path''
            (''Tainted data ref in spawn argv: tainted path '' @ p @ '' appears in '' @ command @ '' '' @ debug_argv argv))
      | [] \<Rightarrow>
      (case argv_env_hits env ctx argv st of
         v # _ \<Rightarrow>
           Some (spawn_taint_match ''tainted-shell-sink-argv-env''
             (''Spawn argv references tainted env var $'' @ v @ '': '' @ command @ '' '' @ debug_argv argv))
       | [] \<Rightarrow>
           if session_has_taint \<and> is_pipe_observed env ctx st then
             Some (spawn_taint_match ''tainted-shell-sink-fd-lineage''
               (''Spawn under active taint with observed pipe/redirect: '' @ command @ '' '' @ debug_argv argv))
           else
           (case (if session_has_taint \<and> \<not> tf_outbound_requires_data_flow flt
                  then outbound_binary_hit env command argv else None) of
              Some r \<Rightarrow> Some r
            | None \<Rightarrow>
                if session_has_taint \<and>
                   command_text_matches_exfil_pattern (exfil_text ctx argv) (tainted_paths_for_scope env ctx st) then
                  Some (spawn_taint_match ''tainted-shell-sink-shell-pattern''
                    (''Spawn command text matches exfil pattern under taint: '' @ command @ '' '' @ debug_argv argv))
                else None)))"

definition taint_on_spawn_data_flow ::
    "taint_env \<Rightarrow> taint_filter \<Rightarrow> tool_call_context \<Rightarrow> taint_state \<Rightarrow> filter_result option \<times> taint_state" where
  "taint_on_spawn_data_flow env flt ctx st =
     (case spawn_parts (call_type ctx) of
        None \<Rightarrow> (None, st)
      | Some (command, argv) \<Rightarrow>
          (case get_effective_taint env flt ctx st of
             (eff, st') \<Rightarrow>
               (spawn_rule env flt ctx command argv
                  (eff \<noteq> TaintNone \<or> pid_taint_level env ctx st' \<noteq> None) st', st')))"

subsection \<open>The evaluation\<close>

definition PROXIMITY_WINDOW :: duration where
  "PROXIMITY_WINDOW = secs 30"

definition with_sources ::
    "taint_env \<Rightarrow> taint_filter \<Rightarrow> tool_call_context \<Rightarrow> filter_result \<Rightarrow> taint_state \<Rightarrow> filter_result \<times> taint_state" where
  "with_sources env flt ctx r st =
     (if \<not> fr_matched r then (r, st)
      else (case active_source_categories env flt ctx st of
              (cats, st') \<Rightarrow>
                (if cats = [] then r
                 else r\<lparr>metadata := (metadata r)(''active_taint_sources'' \<mapsto> JArray (map JString cats))\<rparr>, st')))"

definition proximity ::
    "taint_env \<Rightarrow> tool_call_context \<Rightarrow> taint_level \<Rightarrow> string \<Rightarrow> filter_result \<times> taint_state \<Rightarrow> filter_result \<times> taint_state" where
  "proximity env ctx eff msg = (\<lambda>(r, st).
     (if eff \<noteq> TaintNone then (r, st)
      else (case map_of (ts_recent_read st) (scope_prefix (tn_uuid_text env) ctx) of
              None \<Rightarrow> (r, st)
            | Some last_read \<Rightarrow>
                (let elapsed = tn_now env - last_read
                 in if 0 \<le> elapsed \<and> elapsed < int PROXIMITY_WINDOW then
                      (r\<lparr>fr_matched := True, fr_score := 3 / 2, rule_id := ''proximity-sensitive-read'',
                         fr_severity := Notice, fr_message := msg\<rparr>, st)
                    else (r, st)))))"

definition http_verdict :: "taint_level \<Rightarrow> string \<Rightarrow> string \<Rightarrow> filter_result" where
  "http_verdict eff method url =
     (case eff of
        TaintHigh \<Rightarrow>
          matched ''taint'' ''high-taint-network-sink'' 5 SevCritical
            (''Highly tainted data flowing to network sink: '' @ method @ '' '' @ url)
      | TaintMedium \<Rightarrow>
          if is_high_risk_http_method method then
            matched ''taint'' ''medium-taint-high-risk-sink'' 4 SevError
              (''Tainted data flowing to high-risk HTTP sink: '' @ method @ '' '' @ url)
          else
            matched ''taint'' ''medium-taint-network-sink'' 3 Warning
              (''Tainted data flowing to network sink: '' @ method @ '' '' @ url)
      | TaintLow \<Rightarrow>
          if is_high_risk_http_method method then
            matched ''taint'' ''low-taint-high-risk-sink'' 3 Warning
              (''Low-taint data flowing to high-risk sink: '' @ method @ '' '' @ url)
          else no_match ''taint''
      | TaintNone \<Rightarrow> no_match ''taint'')"

definition evaluate_http ::
    "taint_env \<Rightarrow> taint_filter \<Rightarrow> tool_call_context \<Rightarrow> string \<Rightarrow> string \<Rightarrow> taint_state \<Rightarrow> filter_result \<times> taint_state" where
  "evaluate_http env flt ctx method url st =
     (case get_effective_taint env flt ctx st of
        (eff, st1) \<Rightarrow>
          proximity env ctx eff (''HTTP request within 30s of sensitive file read: '' @ method @ '' '' @ url)
            (with_sources env flt ctx (http_verdict eff method url) st1))"

definition legacy_spawn_verdict :: "tool_call_context \<Rightarrow> taint_level \<Rightarrow> filter_result" where
  "legacy_spawn_verdict ctx eff =
     (let full = (case full_command ctx of Some c \<Rightarrow> c | None \<Rightarrow> [])
      in case eff of
           TaintHigh \<Rightarrow>
             matched ''taint'' ''high-taint-shell-sink'' 5 SevCritical (''Highly tainted data flowing to shell: '' @ full)
         | TaintMedium \<Rightarrow> matched ''taint'' ''tainted-shell-sink'' 3 Warning (''Tainted data flowing to shell: '' @ full)
         | TaintLow \<Rightarrow> matched ''taint'' ''tainted-shell-sink'' 3 Warning (''Tainted data flowing to shell: '' @ full)
         | TaintNone \<Rightarrow> no_match ''taint'')"

definition evaluate_spawn ::
    "taint_env \<Rightarrow> taint_filter \<Rightarrow> tool_call_context \<Rightarrow> taint_state \<Rightarrow> filter_result \<times> taint_state" where
  "evaluate_spawn env flt ctx st =
     (let st1 = (case shell_command_text (call_type ctx) of
                   Some t \<Rightarrow> observe_shell_command env ctx t st
                 | None \<Rightarrow> st);
          (r, st2) =
            (if tf_spawn_data_flow_only flt then
               (case taint_on_spawn_data_flow env flt ctx st1 of
                  (new_result, st') \<Rightarrow>
                    (case new_result of
                       Some r \<Rightarrow> (r, st')
                     | None \<Rightarrow> (no_match ''taint'', snd (get_effective_taint env flt ctx st'))))
             else (case get_effective_taint env flt ctx st1 of
                     (eff, st') \<Rightarrow> (legacy_spawn_verdict ctx eff, st')))
      in with_sources env flt ctx r st2)"

abbreviation show_port :: "u16 \<Rightarrow> string" where
  "show_port p \<equiv> digits_of_nat (unat p)"

definition local_sink_verdict :: "bool \<Rightarrow> bool \<Rightarrow> string \<Rightarrow> u16 \<Rightarrow> taint_level option \<Rightarrow> filter_result" where
  "local_sink_verdict control_class loopback address port pid_level =
     (case pid_level of
        None \<Rightarrow> no_match ''taint''
      | Some level \<Rightarrow>
          if level = TaintNone then no_match ''taint''
          else if loopback \<and> \<not> control_class then
            matched ''taint'' ''tainted-loopback-sink'' 3 Warning
              (''Tainted data flowing to a loopback service: '' @ address @ '':'' @ show_port port)
          else
            matched ''taint'' ''tainted-local-ipc-sink'' 3 Warning
              (''Tainted data flowing to local control-injection socket: '' @ address))"

definition net_verdict :: "taint_level \<Rightarrow> string \<Rightarrow> u16 \<Rightarrow> filter_result" where
  "net_verdict eff address port =
     (case eff of
        TaintHigh \<Rightarrow>
          matched ''taint'' ''high-taint-network-sink'' 5 SevCritical
            (''Highly tainted data flowing to network sink: '' @ address @ '':'' @ show_port port)
      | TaintMedium \<Rightarrow>
          matched ''taint'' ''tainted-network-sink'' 3 Warning
            (''Tainted data flowing to network sink: '' @ address @ '':'' @ show_port port)
      | TaintLow \<Rightarrow>
          matched ''taint'' ''tainted-network-sink'' 3 Warning
            (''Tainted data flowing to network sink: '' @ address @ '':'' @ show_port port)
      | TaintNone \<Rightarrow> no_match ''taint'')"

definition evaluate_connect ::
    "taint_env \<Rightarrow> taint_filter \<Rightarrow> tool_call_context \<Rightarrow> string \<Rightarrow> u16 \<Rightarrow> taint_state \<Rightarrow> filter_result \<times> taint_state" where
  "evaluate_connect env flt ctx address port st =
     (case get_effective_taint env flt ctx st of
        (eff, st1) \<Rightarrow>
          (let control_class = (ctx_unix_socket_class ctx = Some Control);
               loopback = is_loopback_bind_address address;
               r = (if control_class \<or> loopback
                    then local_sink_verdict control_class loopback address port (pid_taint_level env ctx st1)
                    else net_verdict eff address port)
           in proximity env ctx eff
                (''Network connection within 30s of sensitive file read: '' @ address @ '':'' @ show_port port)
                (with_sources env flt ctx r st1)))"

definition evaluate_read ::
    "taint_env \<Rightarrow> taint_filter \<Rightarrow> tool_call_context \<Rightarrow> string \<Rightarrow> taint_state \<Rightarrow> filter_result \<times> taint_state" where
  "evaluate_read env flt ctx path st =
     (let level = classify_source (tf_sensitive_sources flt) path;
          st1 = register_taint env ctx path level st
      in if level = TaintNone then (no_match ''taint'', st1)
         else ((case classify_source_category path of
                  Some cat \<Rightarrow>
                    (no_match ''taint'')\<lparr>metadata := [''taint_source_category'' \<mapsto> JString cat]\<rparr>
                | None \<Rightarrow> no_match ''taint''),
               mark_pid_tainted env ctx level
                 (st1\<lparr>ts_recent_read :=
                    assoc_insert (scope_prefix (tn_uuid_text env) ctx) (tn_now env) (ts_recent_read st1)\<rparr>)))"

definition propagated_taint :: "taint_env \<Rightarrow> tool_call_context \<Rightarrow> taint_state \<Rightarrow> taint_level" where
  "propagated_taint env ctx st = (case pid_taint_level env ctx st of Some l \<Rightarrow> l | None \<Rightarrow> TaintNone)"

definition write_taint ::
    "taint_env \<Rightarrow> taint_filter \<Rightarrow> tool_call_context \<Rightarrow> string \<Rightarrow> taint_state \<Rightarrow> taint_state" where
  "write_taint env flt ctx path st =
     register_taint env ctx path
       (combine_taint (classify_source (tf_sensitive_sources flt) path) (propagated_taint env ctx st)) st"

definition rename_taint ::
    "taint_env \<Rightarrow> taint_filter \<Rightarrow> tool_call_context \<Rightarrow> string \<Rightarrow> string \<Rightarrow> taint_state \<Rightarrow> taint_state" where
  "rename_taint env flt ctx old_path new_path st =
     (let src = classify_source (tf_sensitive_sources flt) old_path;
          st1 = register_taint env ctx old_path src st;
          dst = classify_source (tf_sensitive_sources flt) new_path
      in register_taint env ctx new_path
           (combine_taint (combine_taint dst src) (propagated_taint env ctx st1)) st1)"

definition taint_evaluate ::
    "taint_env \<Rightarrow> taint_filter \<Rightarrow> tool_call_context \<Rightarrow> taint_state \<Rightarrow> filter_result \<times> taint_state" where
  "taint_evaluate env flt ctx st =
     (let touch_path = (\<lambda>p. (no_match ''taint'',
            register_taint env ctx p (classify_source (tf_sensitive_sources flt) p) st))
      in case call_type ctx of
           FileRead path \<Rightarrow> evaluate_read env flt ctx path st
         | HttpRequest method url \<Rightarrow> evaluate_http env flt ctx method url st
         | ShellExec _ _ \<Rightarrow> evaluate_spawn env flt ctx st
         | ProcessSpawn _ _ \<Rightarrow> evaluate_spawn env flt ctx st
         | NetConnect address port \<Rightarrow> evaluate_connect env flt ctx address port st
         | FileWrite path _ \<Rightarrow> (no_match ''taint'', write_taint env flt ctx path st)
         | FileAppend path \<Rightarrow> (no_match ''taint'', write_taint env flt ctx path st)
         | FileDelete path \<Rightarrow> touch_path path
         | FileChmod path _ \<Rightarrow> touch_path path
         | DirCreate path \<Rightarrow> touch_path path
         | DirList path \<Rightarrow> touch_path path
         | FileRename old_path new_path \<Rightarrow> (no_match ''taint'', rename_taint env flt ctx old_path new_path st)
         | FilesystemMutation _ source target _ \<Rightarrow>
             (no_match ''taint'',
              (case source of
                 None \<Rightarrow> st
               | Some src \<Rightarrow>
                   (let level = classify_source (tf_sensitive_sources flt) src
                    in if level = TaintNone then st else register_taint env ctx target level st)))
         | _ \<Rightarrow> (no_match ''taint'', st))"

definition taint_evict_session_state ::
    "(uuid \<Rightarrow> string) \<Rightarrow> session_scope_key \<Rightarrow> taint_state \<Rightarrow> nat \<times> taint_state" where
  "taint_evict_session_state ustr sc st =
     (let scope = ''ses:'' @ ustr (as_uuid sc);
          reg = filter (\<lambda>(k, _). \<not> prefix (scope @ [CHR 0x00]) k) (ts_registry st);
          recent = filter (\<lambda>(k, _). k \<noteq> scope) (ts_recent_read st);
          pids = filter (\<lambda>((s, _), _). s \<noteq> scope) (ts_tainted_pids st);
          vars = (case map_of (ts_derived_vars st) scope of Some vs \<Rightarrow> length vs | None \<Rightarrow> 0);
          pipes = (if scope \<in> set (ts_pipe_observed st) then 1 else 0)
      in ((length (ts_registry st) - length reg) + (length (ts_recent_read st) - length recent) +
          (length (ts_tainted_pids st) - length pids) + vars + pipes,
          st\<lparr>ts_registry := reg, ts_recent_read := recent, ts_tainted_pids := pids,
             ts_derived_vars := assoc_remove scope (ts_derived_vars st),
             ts_pipe_observed := filter (\<lambda>s. s \<noteq> scope) (ts_pipe_observed st)\<rparr>))"

definition taint_security_filter :: "taint_env \<Rightarrow> taint_filter \<Rightarrow> taint_state security_filter" where
  "taint_security_filter env flt =
     \<lparr> flt_name = ''taint'', flt_phase = Context, flt_ready = (\<lambda>_. True),
       flt_evaluate = (\<lambda>ctx st. case taint_evaluate env flt ctx st of (r, st') \<Rightarrow> (Inr r, st')),
       flt_evict = taint_evict_session_state (tn_uuid_text env),
       flt_observe = (\<lambda>_ _ _ st. st) \<rparr>"


subsection \<open>Small facts of the operations\<close>

lemma taint_ord_zero [simp]: "taint_ord l = 0 \<longleftrightarrow> l = TaintNone"
  by (cases l) simp_all

lemma taint_ord_pos [simp]: "0 < taint_ord l \<longleftrightarrow> l \<noteq> TaintNone"
  by (cases l) simp_all

lemma taint_ord_inj: "taint_ord a = taint_ord b \<longleftrightarrow> a = b"
  by (cases a; cases b) simp_all

lemma combine_taint_ord [simp]: "taint_ord (combine_taint a b) = max (taint_ord a) (taint_ord b)"
  by (simp add: combine_taint_def max_def)

lemma get_effective_taint_state:
  "snd (get_effective_taint env flt ctx st) = st \<or>
   snd (get_effective_taint env flt ctx st) =
     st\<lparr>ts_registry := evict_stale_entries (tn_now env) (tf_taint_ttl flt) (ts_registry st)\<rparr>"
  by (simp add: get_effective_taint_def Let_def)

lemma proximity_state [simp]: "snd (proximity env ctx eff msg p) = snd p"
  by (cases p) (simp add: proximity_def Let_def split: option.split)

subsection \<open>The contract of a scoring filter\<close>

definition taint_result :: "filter_result \<Rightarrow> bool" where
  "taint_result r \<longleftrightarrow> filter_name r = ''taint'' \<and> fr_score r \<in> {0, 3 / 2, 3, 4, 5}"

lemma taint_result_verdicts [simp]:
  "taint_result (no_match ''taint'')"
  "taint_result (http_verdict eff m u)" "taint_result (net_verdict eff a p)"
  "taint_result (legacy_spawn_verdict ctx eff)" "taint_result (local_sink_verdict b c a p l)"
  "taint_result (spawn_taint_match rid msg)"
  by (simp_all add: taint_result_def http_verdict_def net_verdict_def legacy_spawn_verdict_def
      local_sink_verdict_def spawn_taint_match_def Let_def split: taint_level.split option.split)

lemma taint_result_with_sources [simp]:
  "taint_result r \<Longrightarrow> taint_result (fst (with_sources env flt ctx r st))"
  by (simp add: with_sources_def taint_result_def split: prod.split)

lemma taint_result_proximity [simp]:
  "taint_result (fst p) \<Longrightarrow> taint_result (fst (proximity env ctx eff msg p))"
  by (cases p) (simp add: proximity_def taint_result_def Let_def split: option.split)

lemma outbound_binary_hit_rule: "outbound_binary_hit env c argv = Some r \<Longrightarrow> \<exists>rid msg. r = spawn_taint_match rid msg"
  by (auto simp: outbound_binary_hit_def split: option.splits classification.splits if_splits)

lemma spawn_rule_rule: "spawn_rule env flt ctx c argv b st = Some r \<Longrightarrow> \<exists>rid msg. r = spawn_taint_match rid msg"
  by (auto simp: spawn_rule_def dest: outbound_binary_hit_rule split: list.splits option.splits if_splits)

lemma taint_result_spawn_rule: "spawn_rule env flt ctx c argv b st = Some r \<Longrightarrow> taint_result r"
  using spawn_rule_rule by fastforce

lemma taint_result_data_flow:
  "fst (taint_on_spawn_data_flow env flt ctx st) = Some r \<Longrightarrow> taint_result r"
  by (auto simp: taint_on_spawn_data_flow_def dest: taint_result_spawn_rule split: option.splits prod.splits)

lemma taint_result_spawn: "taint_result (fst (evaluate_spawn env flt ctx st))"
  by (auto simp: evaluate_spawn_def Let_def intro!: taint_result_with_sources
      dest: taint_result_data_flow [OF arg_cong [where f = fst, THEN trans]]
      split: option.split prod.split)

lemma taint_result_evaluate: "taint_result (fst (taint_evaluate env flt ctx st))"
  by (cases "call_type ctx")
    (simp_all add: taint_evaluate_def evaluate_http_def evaluate_connect_def evaluate_read_def
      taint_result_spawn Let_def split: prod.split option.split,
     simp_all add: taint_result_def)

interpretation tf: scoring_filter "''taint''" "taint_evaluate env flt" 5 for env flt
proof
  fix ctx :: tool_call_context and st :: taint_state
  show "filter_name (fst (taint_evaluate env flt ctx st)) = ''taint''"
    "0 \<le> fr_score (fst (taint_evaluate env flt ctx st))"
    "fr_score (fst (taint_evaluate env flt ctx st)) \<le> 5"
    using taint_result_evaluate [of env flt ctx st] by (auto simp: taint_result_def)
qed

end
