(* ===== verification/Taint_Flow.thy ===== *)
theory Taint_Flow
  imports Taint_Filter
begin

section \<open>What taint tracking guarantees over a session\<close>

text \<open>
  Runs of the taint filter (\<open>crates/grith-proxy/src/filters/taint.rs\<close>): calls of any scopes in any
  order, and the evictions of ended sessions. A call brings its own surroundings; the rendering of
  UUIDs is the same throughout.
\<close>

datatype taint_event =
    TaintCall taint_env tool_call_context
  | TaintEvict session_scope_key

definition env_at :: "(uuid \<Rightarrow> string) \<Rightarrow> taint_env \<Rightarrow> taint_env" where
  "env_at ustr env = env\<lparr>tn_uuid_text := ustr\<rparr>"

lemma env_at_simps [simp]:
  "tn_uuid_text (env_at ustr env) = ustr" "tn_now (env_at ustr env) = tn_now env"
  "tn_canonicalize (env_at ustr env) = tn_canonicalize env" "tn_read_link (env_at ustr env) = tn_read_link env"
  "tn_current_dir (env_at ustr env) = tn_current_dir env"
  by (simp_all add: env_at_def)

fun taint_step :: "(uuid \<Rightarrow> string) \<Rightarrow> taint_filter \<Rightarrow> taint_state \<Rightarrow> taint_event \<Rightarrow> taint_state" where
  "taint_step ustr flt st (TaintCall env ctx) = snd (taint_evaluate (env_at ustr env) flt ctx st)"
| "taint_step ustr flt st (TaintEvict sc) = snd (taint_evict_session_state ustr sc st)"

definition taint_run :: "(uuid \<Rightarrow> string) \<Rightarrow> taint_filter \<Rightarrow> taint_state \<Rightarrow> taint_event list \<Rightarrow> taint_state" where
  "taint_run ustr flt = foldl (taint_step ustr flt)"

lemma taint_run_simps [simp]:
  "taint_run ustr flt st [] = st"
  "taint_run ustr flt st (ev # evs) = taint_run ustr flt (taint_step ustr flt st ev) evs"
  by (simp_all add: taint_run_def)

definition event_times :: "taint_event list \<Rightarrow> instant list" where
  "event_times evs = List.map_filter (\<lambda>ev. case ev of TaintCall env _ \<Rightarrow> Some (tn_now env) | _ \<Rightarrow> None) evs"

lemma event_times_simps [simp]:
  "event_times [] = []"
  "event_times (TaintCall env ctx # evs) = tn_now env # event_times evs"
  "event_times (TaintEvict sc # evs) = event_times evs"
  by (simp_all add: event_times_def List.map_filter_def)

subsection \<open>Levels and keys\<close>

lemma highest_level_bound:
  "taint_ord (foldl (\<lambda>highest (k, e). if mine k \<and> taint_ord (te_level e) > taint_ord highest then te_level e else highest)
     acc reg) \<ge> n \<longleftrightarrow>
   taint_ord acc \<ge> n \<or> (\<exists>k e. (k, e) \<in> set reg \<and> mine k \<and> taint_ord (te_level e) \<ge> n)"
proof (induction reg arbitrary: acc)
  case (Cons ke reg)
  obtain k e where ke: "ke = (k, e)" by fastforce
  show ?case unfolding ke foldl_Cons Cons.IH by auto
qed simp

lemma highest_level_ge:
  "taint_ord (highest_level reg mine) \<ge> n \<longleftrightarrow>
   n = 0 \<or> (\<exists>k e. (k, e) \<in> set reg \<and> mine k \<and> taint_ord (te_level e) \<ge> n)"
  by (simp add: highest_level_def highest_level_bound)

lemma highest_level_none:
  "highest_level reg mine = TaintNone \<longleftrightarrow> (\<forall>k e. (k, e) \<in> set reg \<longrightarrow> mine k \<longrightarrow> te_level e = TaintNone)"
  using highest_level_ge [of 1 reg mine] by (auto simp: Suc_le_eq)

lemma key_matches_key_of [simp]: "key_matches_context ustr (key_of (scope_prefix ustr ctx) p) ctx"
  by (simp add: key_matches_context_def key_of_def prefix_def)

lemma assoc_insert_same: "(k, v) \<in> set (assoc_insert k v xs)"
  by (induction k v xs rule: assoc_insert.induct) auto

lemma assoc_insert_other: "(k, e) \<in> set xs \<Longrightarrow> k \<noteq> j \<Longrightarrow> (k, e) \<in> set (assoc_insert j v xs)"
  by (induction j v xs rule: assoc_insert.induct) auto

lemma assoc_insert_elems: "x \<in> set (assoc_insert k v xs) \<Longrightarrow> x = (k, v) \<or> x \<in> set xs"
  by (induction k v xs rule: assoc_insert.induct) (auto split: if_splits)

lemma evict_stale_elems:
  "(k, e) \<in> set (evict_stale_entries now ttl reg) \<longleftrightarrow> (k, e) \<in> set reg \<and> now - int ttl \<le> te_registered_at e"
  by (auto simp: evict_stale_entries_def)

subsection \<open>What a call does to the registry\<close>

text \<open>
  Every evaluation is a sequence of these three steps on the registry of tainted paths, besides
  the other maps: nothing, dropping the stale entries, registering a path of the call.
\<close>

inductive registry_moves ::
    "(uuid \<Rightarrow> string) \<Rightarrow> taint_filter \<Rightarrow> instant \<Rightarrow> tool_call_context \<Rightarrow>
     (string \<times> taint_entry) list \<Rightarrow> (string \<times> taint_entry) list \<Rightarrow> bool"
  for ustr flt now ctx reg where
  stay: "registry_moves ustr flt now ctx reg reg"
| evict: "registry_moves ustr flt now ctx reg reg' \<Longrightarrow>
     registry_moves ustr flt now ctx reg (evict_stale_entries now (tf_taint_ttl flt) reg')"
| register: "registry_moves ustr flt now ctx reg reg' \<Longrightarrow> level \<noteq> TaintNone \<Longrightarrow>
     taint_ord (classify_source (tf_sensitive_sources flt) path) \<le> taint_ord level \<or>
       (\<exists>k s fl. call_type ctx = FilesystemMutation k (Some s) path fl) \<Longrightarrow>
     registry_moves ustr flt now ctx reg
       (assoc_insert (registry_key ustr ctx path) \<lparr> te_level = level, te_registered_at = now \<rparr> reg')"

lemma registry_register_taint [simp]:
  "ts_registry (register_taint env ctx path level st) =
     (if level = TaintNone then ts_registry st
      else assoc_insert (registry_key (tn_uuid_text env) ctx path)
             \<lparr> te_level = level, te_registered_at = tn_now env \<rparr> (ts_registry st))"
  by (simp add: register_taint_def Let_def)

lemma moves_register_taint:
  "registry_moves (tn_uuid_text env) flt (tn_now env) ctx reg (ts_registry st) \<Longrightarrow>
   taint_ord (classify_source (tf_sensitive_sources flt) path) \<le> taint_ord level \<or>
     (\<exists>k s fl. call_type ctx = FilesystemMutation k (Some s) path fl) \<Longrightarrow>
   registry_moves (tn_uuid_text env) flt (tn_now env) ctx reg (ts_registry (register_taint env ctx path level st))"
  by (simp add: registry_moves.register)

lemma moves_effective:
  "registry_moves (tn_uuid_text env) flt (tn_now env) ctx reg (ts_registry st) \<Longrightarrow>
   registry_moves (tn_uuid_text env) flt (tn_now env) ctx reg (ts_registry (snd (get_effective_taint env flt ctx st)))"
  by (simp add: get_effective_taint_def Let_def registry_moves.evict)

lemma moves_with_sources:
  "registry_moves (tn_uuid_text env) flt (tn_now env) ctx reg (ts_registry st) \<Longrightarrow>
   registry_moves (tn_uuid_text env) flt (tn_now env) ctx reg (ts_registry (snd (with_sources env flt ctx r st)))"
  by (simp add: with_sources_def active_source_categories_def Let_def registry_moves.evict)

lemma registry_mark_pid [simp]: "ts_registry (mark_pid_tainted env ctx level st) = ts_registry st"
  by (simp add: mark_pid_tainted_def Let_def split: option.split)

lemma registry_observe_assignments [simp]:
  "ts_registry (foldl (observe_assignment env ctx) st xs) = ts_registry st"
  by (induction xs arbitrary: st) (auto simp: observe_assignment_def mark_env_var_tainted_def Let_def)

lemma registry_observe_shell [simp]: "ts_registry (observe_shell_command env ctx t st) = ts_registry st"
  by (simp add: observe_shell_command_def mark_pipe_observed_def Let_def)

lemma data_flow_state:
  "snd (taint_on_spawn_data_flow env flt ctx st) \<in> {st, snd (get_effective_taint env flt ctx st)}"
  by (auto simp: taint_on_spawn_data_flow_def split: option.split prod.split)

lemma moves_spawn:
  "registry_moves (tn_uuid_text env) flt (tn_now env) ctx (ts_registry st)
     (ts_registry (snd (evaluate_spawn env flt ctx st)))"
proof -
  define st1 where "st1 = (case shell_command_text (call_type ctx) of
    Some t \<Rightarrow> observe_shell_command env ctx t st | None \<Rightarrow> st)"
  have st1: "registry_moves (tn_uuid_text env) flt (tn_now env) ctx (ts_registry st) (ts_registry st1)"
    by (simp add: st1_def registry_moves.stay split: option.split)
  define st2 where "st2 = snd (taint_on_spawn_data_flow env flt ctx st1)"
  have st2: "registry_moves (tn_uuid_text env) flt (tn_now env) ctx (ts_registry st) (ts_registry st2)"
    using data_flow_state [of env flt ctx st1] st1 moves_effective [OF st1] by (auto simp: st2_def)
  show ?thesis
    unfolding evaluate_spawn_def Let_def st1_def [symmetric]
    using moves_with_sources [OF st2] moves_with_sources [OF moves_effective [OF st2]]
      moves_with_sources [OF moves_effective [OF st1]]
    by (auto simp: st2_def split: prod.split option.split)
qed

lemma moves_evaluate:
  "registry_moves (tn_uuid_text env) flt (tn_now env) ctx (ts_registry st)
     (ts_registry (snd (taint_evaluate env flt ctx st)))"
proof (cases "call_type ctx")
  case (FileRead p)
  then show ?thesis
    by (auto simp: taint_evaluate_def evaluate_read_def Let_def intro: registry_moves.intros)
next
  case (HttpRequest m u)
  then show ?thesis
    using moves_with_sources [OF moves_effective [OF registry_moves.stay]]
    by (simp add: taint_evaluate_def evaluate_http_def split: prod.split) (metis snd_conv)
next
  case (NetConnect a p)
  then show ?thesis
    using moves_with_sources [OF moves_effective [OF registry_moves.stay]]
    by (simp add: taint_evaluate_def evaluate_connect_def Let_def split: prod.split) (metis snd_conv)
next
  case (FileRename a b)
  then show ?thesis
    by (auto simp: taint_evaluate_def rename_taint_def Let_def intro!: registry_moves.register registry_moves.stay)
next
  case (FilesystemMutation k s t fl)
  then show ?thesis
    by (auto simp: taint_evaluate_def Let_def intro!: registry_moves.register registry_moves.stay split: option.split)
qed (auto simp: taint_evaluate_def write_taint_def moves_spawn Let_def intro!: registry_moves.register registry_moves.stay)


subsection \<open>A sensitive access taints its scope for the whole time to live\<close>

definition tainted_since :: "instant \<Rightarrow> string \<Rightarrow> taint_level \<Rightarrow> (string \<times> taint_entry) list \<Rightarrow> bool" where
  "tainted_since t0 k level reg \<longleftrightarrow>
     (\<exists>e. (k, e) \<in> set reg \<and> t0 \<le> te_registered_at e \<and> taint_ord level \<le> taint_ord (te_level e))"

text \<open>The events after which the taint of path \<open>p\<close> in scope \<open>s\<close> is still there.\<close>

fun harmless :: "(uuid \<Rightarrow> string) \<Rightarrow> string \<Rightarrow> string \<Rightarrow> taint_event \<Rightarrow> bool" where
  "harmless ustr s p (TaintCall env ctx) \<longleftrightarrow>
     CHR 0x00 \<notin> set (scope_prefix ustr ctx) \<and>
     (case call_type ctx of FilesystemMutation _ _ target _ \<Rightarrow> target \<noteq> p | _ \<Rightarrow> True)"
| "harmless ustr s p (TaintEvict sc) \<longleftrightarrow> ''ses:'' @ ustr (as_uuid sc) \<noteq> s"

lemma key_of_inj:
  "CHR 0x00 \<notin> set s \<Longrightarrow> CHR 0x00 \<notin> set s' \<Longrightarrow> key_of s p = key_of s' p' \<longleftrightarrow> s = s' \<and> p = p'"
  using append_sep_inj [of "CHR 0x00" s s' p p'] by (auto simp: key_of_def)

lemma tainted_since_moves:
  assumes "registry_moves ustr flt now ctx reg reg'"
    and "tainted_since t0 (key_of s p) (classify_source (tf_sensitive_sources flt) p) reg"
    and "t0 \<le> now" and "now \<le> t0 + int (tf_taint_ttl flt)" and "CHR 0x00 \<notin> set s"
    and "harmless ustr s p (TaintCall env ctx)"
  shows "tainted_since t0 (key_of s p) (classify_source (tf_sensitive_sources flt) p) reg'"
  using assms(1)
proof induction
  case stay
  show ?case by (rule assms(2))
next
  case (evict reg')
  then show ?case using assms(4) unfolding tainted_since_def by (force simp: evict_stale_elems)
next
  case (register reg' level path)
  have nul: "CHR 0x00 \<notin> set (scope_prefix ustr ctx)" using assms(6) by simp
  show ?case
  proof (cases "registry_key ustr ctx path = key_of s p")
    case True
    then have "path = p" using key_of_inj [OF nul assms(5)] by (simp add: registry_key_def)
    with register.hyps assms(6) have "taint_ord (classify_source (tf_sensitive_sources flt) p) \<le> taint_ord level"
      by auto
    then show ?thesis
      unfolding tainted_since_def True
      by (intro exI [of _ "\<lparr> te_level = level, te_registered_at = now \<rparr>"])
        (simp add: assoc_insert_same assms(3))
  next
    case False
    obtain e where e: "(key_of s p, e) \<in> set reg'" "t0 \<le> te_registered_at e"
      "taint_ord (classify_source (tf_sensitive_sources flt) p) \<le> taint_ord (te_level e)"
      using register.IH by (auto simp: tainted_since_def)
    from assoc_insert_other [OF e(1) False [symmetric]] e(2,3) show ?thesis
      unfolding tainted_since_def by blast
  qed
qed

lemma tainted_since_evict:
  assumes "tainted_since t0 (key_of s p) l (ts_registry st)" and "CHR 0x00 \<notin> set s"
    and "uuid_text_ok ustr" and "''ses:'' @ ustr (as_uuid sc) \<noteq> s"
  shows "tainted_since t0 (key_of s p) l (ts_registry (snd (taint_evict_session_state ustr sc st)))"
proof -
  have "CHR 0x00 \<notin> set (''ses:'' @ ustr (as_uuid sc))" using assms(3) by (simp add: uuid_text_ok_def)
  then have "\<not> prefix ((''ses:'' @ ustr (as_uuid sc)) @ [CHR 0x00]) (key_of s p)"
    using assms(2,4) prefix_sep_eq unfolding key_of_def by metis
  with assms(1) show ?thesis
    by (auto simp: tainted_since_def taint_evict_session_state_def Let_def)
qed

lemma tainted_since_run:
  assumes "tainted_since t0 (key_of s p) (classify_source (tf_sensitive_sources flt) p) (ts_registry st)"
    and "uuid_text_ok ustr" and "CHR 0x00 \<notin> set s"
    and "\<forall>ev \<in> set evs. harmless ustr s p ev"
    and "\<forall>t \<in> set (event_times evs). t0 \<le> t \<and> t \<le> t0 + int (tf_taint_ttl flt)"
  shows "tainted_since t0 (key_of s p) (classify_source (tf_sensitive_sources flt) p)
           (ts_registry (taint_run ustr flt st evs))"
  using assms
proof (induction evs arbitrary: st)
  case (Cons ev evs)
  have "tainted_since t0 (key_of s p) (classify_source (tf_sensitive_sources flt) p)
          (ts_registry (taint_step ustr flt st ev))"
  proof (cases ev)
    case (TaintCall env ctx)
    from Cons.prems TaintCall show ?thesis
      using tainted_since_moves [OF moves_evaluate [of "env_at ustr env" flt ctx st]] by simp
  next
    case (TaintEvict sc)
    with Cons.prems show ?thesis by (simp add: tainted_since_evict)
  qed
  then show ?case using Cons by (cases ev) simp_all
qed simp

lemma tainted_since_effective:
  assumes "tainted_since t0 (key_of (scope_prefix (tn_uuid_text env) ctx) p) l (ts_registry st)"
    and "source_taint ctx = TaintNone" and "tn_now env \<le> t0 + int (tf_taint_ttl flt)"
  shows "taint_ord l \<le> taint_ord (fst (get_effective_taint env flt ctx st))"
proof -
  obtain e where e: "(key_of (scope_prefix (tn_uuid_text env) ctx) p, e) \<in> set (ts_registry st)"
    "t0 \<le> te_registered_at e" "taint_ord l \<le> taint_ord (te_level e)"
    using assms(1) by (auto simp: tainted_since_def)
  then have "(key_of (scope_prefix (tn_uuid_text env) ctx) p, e)
      \<in> set (evict_stale_entries (tn_now env) (tf_taint_ttl flt) (ts_registry st))"
    using assms(3) by (simp add: evict_stale_elems)
  with e(3) assms(2) show ?thesis
    by (simp add: get_effective_taint_def Let_def highest_level_ge)
      (intro disjI2 exI conjI; (assumption | rule key_matches_key_of)?)
qed

lemma tainted_since_read:
  assumes "call_type ctx = FileRead p" and "classify_source (tf_sensitive_sources flt) p \<noteq> TaintNone"
  shows "tainted_since (tn_now env) (key_of (scope_prefix (tn_uuid_text env) ctx) p)
     (classify_source (tf_sensitive_sources flt) p) (ts_registry (snd (taint_evaluate env flt ctx st)))"
  using assms
  by (auto simp: taint_evaluate_def evaluate_read_def Let_def tainted_since_def registry_key_def
      intro!: exI assoc_insert_same)

text \<open>What a connection costs at least, by the effective taint.\<close>

lemma connect_score:
  assumes "call_type ctx = NetConnect a port" and "\<not> is_loopback_bind_address a"
    and "ctx_unix_socket_class ctx \<noteq> Some Control"
    and "fst (get_effective_taint env flt ctx st) = l" and "l \<noteq> TaintNone"
  shows "fr_score (fst (taint_evaluate env flt ctx st)) = (if l = TaintHigh then 5 else 3)"
proof -
  obtain st1 where e: "get_effective_taint env flt ctx st = (l, st1)" using assms(4) by (metis prod.collapse)
  have "fr_score (fst (with_sources env flt ctx r st1)) = fr_score r" for r
    by (simp add: with_sources_def split: prod.split)
  then have "fr_score (fst (proximity env ctx l m (with_sources env flt ctx r st1))) = fr_score r" for r m
    using assms(5) by (simp add: proximity_def case_prod_beta)
  then show ?thesis
    using assms(1,2,3,5) e by (cases l) (simp_all add: taint_evaluate_def evaluate_connect_def Let_def net_verdict_def)
qed

text \<open>
  C8. A secret that was read is remembered: for the whole time to live, whatever calls of whatever
  scopes come in between, a connection of the same scope to another machine is scored by the
  level of the path that was read, 5 for keys and 3 for every other sensitive file. Only the end
  of the session or a mount onto that very path can take the entry away or lower it.
\<close>

theorem sensitive_read_scores_connections:
  assumes "call_type rd = FileRead p" and "classify_source (tf_sensitive_sources flt) p \<noteq> TaintNone"
    and "scope_prefix ustr ctx = scope_prefix ustr rd" and "CHR 0x00 \<notin> set (scope_prefix ustr rd)"
    and "uuid_text_ok ustr" and "\<forall>ev \<in> set evs. harmless ustr (scope_prefix ustr rd) p ev"
    and "\<forall>t \<in> set (event_times evs @ [tn_now env]). tn_now env0 \<le> t \<and> t \<le> tn_now env0 + int (tf_taint_ttl flt)"
    and "call_type ctx = NetConnect a port" and "\<not> is_loopback_bind_address a"
    and "ctx_unix_socket_class ctx \<noteq> Some Control" and "source_taint ctx = TaintNone"
  shows "fr_score (fst (taint_evaluate (env_at ustr env) flt ctx
           (taint_run ustr flt st (TaintCall env0 rd # evs))))
         \<ge> (if classify_source (tf_sensitive_sources flt) p = TaintHigh then 5 else 3)"
proof -
  let ?L = "classify_source (tf_sensitive_sources flt) p"
  let ?st = "taint_run ustr flt st (TaintCall env0 rd # evs)"
  have "tainted_since (tn_now env0) (key_of (scope_prefix ustr rd) p) ?L
      (ts_registry (taint_step ustr flt st (TaintCall env0 rd)))"
    using tainted_since_read [OF assms(1,2), of "env_at ustr env0" st] by simp
  then have "tainted_since (tn_now env0) (key_of (scope_prefix ustr ctx) p) ?L (ts_registry ?st)"
    using tainted_since_run [OF _ assms(5,4,6)] assms(3,7) by simp
  then have "taint_ord ?L \<le> taint_ord (fst (get_effective_taint (env_at ustr env) flt ctx ?st))" (is "_ \<le> taint_ord ?E")
    using tainted_since_effective [of _ "env_at ustr env"] assms(7,11) by simp
  moreover from this have "?E \<noteq> TaintNone" using assms(2) by (metis bot_nat_0.extremum_uniqueI taint_ord_zero)
  moreover have "?E = TaintHigh" if "?L = TaintHigh"
    using calculation(1) that by (cases ?E) simp_all
  ultimately show ?thesis
    using connect_score [OF assms(8,9,10) refl, of "env_at ustr env" flt ?st] by auto
qed

definition sample_taint_env :: "instant \<Rightarrow> taint_env" where
  "sample_taint_env now =
     \<lparr> tn_now = now, tn_uuid_text = unary_uuid, tn_current_dir = None, tn_read_link = (\<lambda>_. None),
       tn_canonicalize = Some \<rparr>"

definition flow_call :: "uuid \<Rightarrow> tool_call_type \<Rightarrow> tool_call_context" where
  "flow_call sid ct = context_new 0 0 ''supervisor:claude'' ct sid"

lemma flow_call_simps [simp]:
  "call_type (flow_call sid ct) = ct" "source_taint (flow_call sid ct) = TaintNone"
  "conversation_id (flow_call sid ct) = None" "scope_of (flow_call sid ct) = SessionScopeKey sid"
  "arguments (flow_call sid ct) = JNull" "tn_now (sample_taint_env t) = t"
  by (simp_all add: flow_call_def context_new_def scope_of_def from_session_id_def sample_taint_env_def)

lemma sample_scope [simp]: "scope_prefix ustr (flow_call sid ct) = ''ses:'' @ ustr sid"
  by (simp add: scope_prefix_def)

lemma sample_no_nul [simp]: "CHR 0x00 \<notin> set (unary_uuid u)"
  by (simp add: unary_uuid_def)

lemma sample_key_is_high [simp]:
  "classify_source (tf_sensitive_sources taint_with_defaults) ''/home/u/.ssh/id_rsa'' = TaintHigh"
  by (simp add: classify_source_def taint_with_defaults_def taint_filter_new_def DEFAULT_SENSITIVE_SOURCES_def
      HIGH_PATTERNS_def contains_any_def to_lowercase_def ascii_lower_def Let_def)

lemma sample_ttl [simp]: "tf_taint_ttl taint_with_defaults = 3600000000000"
  by (simp add: taint_with_defaults_def taint_filter_new_def DEFAULT_TAINT_TTL_def secs_def)

lemma sample_class [simp]: "ctx_unix_socket_class (flow_call sid ct) = None"
  by (simp add: ctx_unix_socket_class_def)

theorem sensitive_read_scores_connections_witness:
  "fr_score (fst (taint_evaluate (env_at unary_uuid (sample_taint_env 1000)) taint_with_defaults
     (flow_call 1 (NetConnect ''203.0.113.9'' 443))
     (taint_run unary_uuid taint_with_defaults (taint_state_new registry_fresh)
        (TaintCall (sample_taint_env 0) (flow_call 1 (FileRead ''/home/u/.ssh/id_rsa'')) #
         [TaintCall (sample_taint_env 500) (flow_call 1 (FileWrite ''/tmp/x'' [])), TaintEvict (SessionScopeKey 2)]))))
   \<ge> 5"
proof -
  have "\<not> is_loopback_bind_address ''203.0.113.9''" by code_simp
  moreover have "unary_uuid 2 \<noteq> unary_uuid 1" using unary_uuid_ok by (simp add: uuid_text_ok_def inj_eq)
  ultimately show ?thesis
    using sensitive_read_scores_connections
      [of "flow_call 1 (FileRead ''/home/u/.ssh/id_rsa'')" "''/home/u/.ssh/id_rsa''" taint_with_defaults
        unary_uuid "flow_call 1 (NetConnect ''203.0.113.9'' 443)"
        "[TaintCall (sample_taint_env 500) (flow_call 1 (FileWrite ''/tmp/x'' [])), TaintEvict (SessionScopeKey 2)]"
        "sample_taint_env 1000" "sample_taint_env 0" "''203.0.113.9''" 443 "taint_state_new registry_fresh"]
      unary_uuid_ok
    by (simp del: taint_run_simps)
qed

subsection \<open>High access contains the session\<close>

text \<open>The paths a call touches as far as the filter classifies them.\<close>

fun classified_paths :: "tool_call_type \<Rightarrow> string list" where
  "classified_paths (FileRead p) = [p]"
| "classified_paths (FileWrite p _) = [p]"
| "classified_paths (FileAppend p) = [p]"
| "classified_paths (FileDelete p) = [p]"
| "classified_paths (FileChmod p _) = [p]"
| "classified_paths (DirCreate p) = [p]"
| "classified_paths (DirList p) = [p]"
| "classified_paths (FileRename a b) = [a, b]"
| "classified_paths (FilesystemMutation _ (Some src) _ _) = [src]"
| "classified_paths _ = []"

lemma sessions_register_taint:
  "ts_sessions (register_taint env ctx path level st) =
     (if level = TaintHigh then
        registry_activate (scope_of ctx) (SensitiveAccessOutsideScope path ''high'') (tn_now env) (ts_sessions st)
      else ts_sessions st)"
  by (simp add: register_taint_def Let_def)

lemma sessions_unchanged [simp]:
  "ts_sessions (snd (get_effective_taint env flt ctx st)) = ts_sessions st"
  "ts_sessions (snd (with_sources env flt ctx r st)) = ts_sessions st"
  "ts_sessions (mark_pid_tainted env ctx l st) = ts_sessions st"
  "ts_sessions (foldl (observe_assignment env ctx) st xs) = ts_sessions st"
  "ts_sessions (observe_shell_command env ctx t st) = ts_sessions st"
proof -
  show 1: "ts_sessions (foldl (observe_assignment env ctx) st xs) = ts_sessions st" for st xs
    by (induction xs arbitrary: st) (auto simp: observe_assignment_def mark_env_var_tainted_def Let_def)
  show "ts_sessions (observe_shell_command env ctx t st) = ts_sessions st"
    by (simp add: observe_shell_command_def mark_pipe_observed_def Let_def 1)
qed (simp_all add: get_effective_taint_def with_sources_def active_source_categories_def mark_pid_tainted_def Let_def
    split: option.split)

lemma sessions_effective: "get_effective_taint env flt ctx st = (eff, st') \<Longrightarrow> ts_sessions st' = ts_sessions st"
  by (metis sessions_unchanged(1) snd_conv)

lemma containment_iff:
  "is_containment_active sc reg \<longleftrightarrow>
   (\<exists>a s. map_of (sessions reg) sc = Some a \<and> state_store reg a = Some s \<and> containment_active s)"
  by (auto simp: is_containment_active_def state_of_def registry_get_def bind_eq_Some_conv split: option.splits)

lemma activate_contains:
  assumes "registry_wf reg"
  shows "is_containment_active sc (registry_activate sc r now reg)"
proof -
  let ?g = "get_or_create sc now reg"
  have "map_of (sessions (snd ?g)) sc = Some (fst ?g)" by (simp add: get_or_create_maps)
  moreover obtain s where "state_store (snd ?g) (fst ?g) = Some s"
    using registry_wf_get_or_create [OF assms] calculation unfolding registry_wf_def by blast
  ultimately show ?thesis
    by (auto simp: containment_iff registry_activate_eq update_at_def activate_containment_def)
qed

lemma run_keeps_containment:
  assumes "registry_wf reg" and "is_containment_active sc reg" and "OpEvict sc \<notin> set ops"
  shows "is_containment_active sc (registry_run reg ops)"
proof -
  obtain a s where s: "map_of (sessions reg) sc = Some a" "state_store reg a = Some s" "containment_active s"
    using assms(2) by (auto simp: containment_iff)
  from registry_run_extends [OF assms(1) s(1,2) assms(3)] s(3) show ?thesis
    by (auto simp: containment_iff state_extends_def)
qed

definition only_activates :: "registry \<Rightarrow> registry \<Rightarrow> bool" where
  "only_activates reg reg' \<longleftrightarrow>
     (\<exists>ops. reg' = registry_run reg ops \<and> (\<forall>op \<in> set ops. \<exists>sc r now. op = OpActivateScope sc r now))"

lemma only_activates_refl [simp]: "only_activates reg reg"
  unfolding only_activates_def by (intro exI [of _ "[]"]) simp

lemma registry_run_append: "registry_run reg (a @ b) = registry_run (registry_run reg a) b"
  by (simp add: registry_run_def)

lemma only_activates_trans: "only_activates a b \<Longrightarrow> only_activates b c \<Longrightarrow> only_activates a c"
  unfolding only_activates_def by (metis Un_iff registry_run_append set_append)

lemma only_activates_register: "only_activates reg (ts_sessions st) \<Longrightarrow> only_activates reg (ts_sessions (register_taint env ctx p l st))"
proof (rule only_activates_trans, assumption)
  show "only_activates (ts_sessions st) (ts_sessions (register_taint env ctx p l st))"
  proof (cases "l = TaintHigh")
    case True
    then show ?thesis
      unfolding only_activates_def sessions_register_taint
      by (intro exI [of _ "[OpActivateScope (scope_of ctx) (SensitiveAccessOutsideScope p ''high'') (tn_now env)]"]) simp
  qed (simp add: sessions_register_taint)
qed

lemma sessions_spawn: "ts_sessions (snd (evaluate_spawn env flt ctx st)) = ts_sessions st"
proof -
  have "ts_sessions (snd (taint_on_spawn_data_flow env flt ctx s)) = ts_sessions s" for s
    using data_flow_state [of env flt ctx s] by auto
  then show ?thesis
    by (auto simp: evaluate_spawn_def Let_def split: prod.split option.split)
      (metis sessions_unchanged snd_conv)+
qed

lemma evaluate_only_activates: "only_activates (ts_sessions st) (ts_sessions (snd (taint_evaluate env flt ctx st)))"
proof (cases "call_type ctx")
  case (HttpRequest m u)
  then show ?thesis
    by (auto simp: taint_evaluate_def evaluate_http_def sessions_effective split: prod.split)
next
  case (NetConnect a p)
  then show ?thesis
    by (auto simp: taint_evaluate_def evaluate_connect_def sessions_effective Let_def split: prod.split)
next
  case (FileRead p)
  then show ?thesis
    by (simp add: taint_evaluate_def evaluate_read_def Let_def only_activates_register)
next
  case (FilesystemMutation k s t fl)
  then show ?thesis
    by (auto simp: taint_evaluate_def Let_def only_activates_register split: option.split)
qed (simp_all add: taint_evaluate_def write_taint_def rename_taint_def sessions_spawn Let_def only_activates_register)

lemma run_only_activates: "only_activates (ts_sessions st) (ts_sessions (taint_run ustr flt st evs))"
proof (induction evs arbitrary: st)
  case (Cons ev evs)
  have "only_activates (ts_sessions st) (ts_sessions (taint_step ustr flt st ev))"
    by (cases ev) (simp_all add: evaluate_only_activates taint_evict_session_state_def Let_def)
  with Cons show ?case by (auto intro: only_activates_trans)
qed simp

lemma only_activates_keeps:
  "only_activates reg reg' \<Longrightarrow> registry_wf reg \<Longrightarrow>
   registry_wf reg' \<and> (is_containment_active sc reg \<longrightarrow> is_containment_active sc reg')"
  unfolding only_activates_def using run_keeps_containment registry_wf_run by blast

lemma high_register_contains:
  "registry_wf (ts_sessions st) \<Longrightarrow> is_containment_active (scope_of ctx) (ts_sessions (register_taint env ctx p TaintHigh st))"
  by (simp add: sessions_register_taint activate_contains)

lemma register_keeps_containment:
  "registry_wf (ts_sessions st) \<Longrightarrow> is_containment_active sc (ts_sessions st) \<Longrightarrow>
   is_containment_active sc (ts_sessions (register_taint env ctx p l st))"
  using only_activates_keeps [OF only_activates_register [OF only_activates_refl]] by blast

lemma register_wf: "registry_wf (ts_sessions st) \<Longrightarrow> registry_wf (ts_sessions (register_taint env ctx p l st))"
  using only_activates_keeps [OF only_activates_register [OF only_activates_refl]] by blast

lemma combine_high: "a = TaintHigh \<or> b = TaintHigh \<Longrightarrow> combine_taint a b = TaintHigh"
  by (cases a; cases b) (simp_all add: combine_taint_def)

lemma high_call_contains:
  assumes "registry_wf (ts_sessions st)" and "p \<in> set (classified_paths (call_type ctx))"
    and "classify_source (tf_sensitive_sources flt) p = TaintHigh"
  shows "is_containment_active (scope_of ctx) (ts_sessions (snd (taint_evaluate env flt ctx st)))"
proof (cases "call_type ctx")
  case (FileRename a b)
  with assms(2) consider "p = a" | "p = b" by auto
  then show ?thesis
  proof cases
    case 1
    with FileRename assms show ?thesis
      by (simp add: taint_evaluate_def rename_taint_def Let_def high_register_contains register_keeps_containment register_wf)
  next
    case 2
    with FileRename assms show ?thesis
      by (simp add: taint_evaluate_def rename_taint_def Let_def combine_high high_register_contains register_wf)
  qed
next
  case (FilesystemMutation k s t fl)
  with assms show ?thesis by (cases s) (simp_all add: taint_evaluate_def Let_def high_register_contains)
qed (use assms in \<open>simp_all add: taint_evaluate_def evaluate_read_def write_taint_def Let_def combine_high high_register_contains\<close>)

text \<open>
  C9. Touching key material contains the session for good: once a call of a session reads, writes,
  appends to, deletes, renames, changes the mode of, lists, creates or mounts a path of the
  highest class, the session is contained, and no sequence of further calls of any session, nor the
  eviction of the filter's own state, lifts the containment.
\<close>

theorem key_access_contains_session:
  assumes "registry_wf (ts_sessions st)" and "p \<in> set (classified_paths (call_type ctx))"
    and "classify_source (tf_sensitive_sources flt) p = TaintHigh"
  shows "is_containment_active (scope_of ctx) (ts_sessions (taint_run ustr flt st (TaintCall env ctx # evs)))"
proof -
  have "is_containment_active (scope_of ctx) (ts_sessions (taint_step ustr flt st (TaintCall env ctx)))"
    using high_call_contains [OF assms] by simp
  moreover have "registry_wf (ts_sessions (taint_step ustr flt st (TaintCall env ctx)))"
    using only_activates_keeps [OF evaluate_only_activates assms(1)] by simp
  ultimately show ?thesis
    using only_activates_keeps [OF run_only_activates] by simp
qed

theorem key_access_contains_session_witness:
  "is_containment_active (SessionScopeKey 1)
     (ts_sessions (taint_run unary_uuid taint_with_defaults (taint_state_new registry_fresh)
        [TaintCall (sample_taint_env 0) (flow_call 1 (FileRename ''/home/u/.ssh/id_rsa'' ''/tmp/k'')),
         TaintEvict (SessionScopeKey 1)]))"
  using key_access_contains_session
    [of "taint_state_new registry_fresh" "''/home/u/.ssh/id_rsa''" "flow_call 1 (FileRename ''/home/u/.ssh/id_rsa'' ''/tmp/k'')"
      taint_with_defaults unary_uuid "sample_taint_env 0" "[TaintEvict (SessionScopeKey 1)]"]
  by (simp add: taint_state_new_def registry_wf_fresh del: taint_run_simps)

end
