(* ===== verification/Taint_Limits.thy ===== *)
theory Taint_Limits
  imports Taint_Flow
begin

section \<open>What taint tracking does not do\<close>

text \<open>
  The other half of the properties of \<open>crates/grith-proxy/src/filters/taint.rs\<close>: which rule can
  never fire, what the end of a session leaves behind, and what the rule on spawned processes needs
  before it fires.
\<close>

subsection \<open>The map of recent reads\<close>

lemma recent_unchanged [simp]:
  "ts_recent_read (snd (get_effective_taint env flt ctx st)) = ts_recent_read st"
  "ts_recent_read (snd (with_sources env flt ctx r st)) = ts_recent_read st"
  "ts_recent_read (mark_pid_tainted env ctx l st) = ts_recent_read st"
  "ts_recent_read (register_taint env ctx p l st) = ts_recent_read st"
  "ts_recent_read (foldl (observe_assignment env ctx) st xs) = ts_recent_read st"
  "ts_recent_read (observe_shell_command env ctx t st) = ts_recent_read st"
proof -
  show 1: "ts_recent_read (foldl (observe_assignment env ctx) st xs) = ts_recent_read st" for st xs
    by (induction xs arbitrary: st) (auto simp: observe_assignment_def mark_env_var_tainted_def Let_def)
  show "ts_recent_read (observe_shell_command env ctx t st) = ts_recent_read st"
    by (simp add: observe_shell_command_def mark_pipe_observed_def Let_def 1)
qed (simp_all add: get_effective_taint_def with_sources_def active_source_categories_def mark_pid_tainted_def
    register_taint_def Let_def split: option.split)

lemma recent_effective: "get_effective_taint env flt ctx st = (eff, st') \<Longrightarrow> ts_recent_read st' = ts_recent_read st"
  by (metis recent_unchanged(1) snd_conv)

lemma recent_spawn [simp]: "ts_recent_read (snd (evaluate_spawn env flt ctx st)) = ts_recent_read st"
proof -
  have "ts_recent_read (snd (taint_on_spawn_data_flow env flt ctx s)) = ts_recent_read s" for s
    using data_flow_state [of env flt ctx s] by auto
  then show ?thesis
    by (auto simp: evaluate_spawn_def Let_def split: prod.split option.split)
      (metis recent_unchanged snd_conv)+
qed

lemma recent_evaluate:
  "ts_recent_read (snd (taint_evaluate env flt ctx st)) = ts_recent_read st \<or>
   (\<exists>p e. ts_recent_read (snd (taint_evaluate env flt ctx st)) =
            assoc_insert (scope_prefix (tn_uuid_text env) ctx) (tn_now env) (ts_recent_read st) \<and>
          (registry_key (tn_uuid_text env) ctx p, e) \<in> set (ts_registry (snd (taint_evaluate env flt ctx st))) \<and>
          te_registered_at e = tn_now env)"
proof (cases "call_type ctx")
  case (FileRead p)
  let ?L = "classify_source (tf_sensitive_sources flt) p"
  show ?thesis
  proof (cases "?L = TaintNone")
    case False
    with FileRead show ?thesis
      by (intro disjI2 exI [of _ p] exI [of _ "\<lparr> te_level = ?L, te_registered_at = tn_now env \<rparr>"])
        (simp add: taint_evaluate_def evaluate_read_def Let_def assoc_insert_same)
  qed (use FileRead in \<open>simp add: taint_evaluate_def evaluate_read_def Let_def\<close>)
next
  case (HttpRequest m u)
  then show ?thesis
    by (auto simp: taint_evaluate_def evaluate_http_def recent_effective split: prod.split)
next
  case (NetConnect a p)
  then show ?thesis
    by (auto simp: taint_evaluate_def evaluate_connect_def recent_effective Let_def split: prod.split)
next
  case (FilesystemMutation k s t fl)
  then show ?thesis by (auto simp: taint_evaluate_def Let_def split: option.split)
qed (simp_all add: taint_evaluate_def write_taint_def rename_taint_def Let_def)

subsection \<open>The proximity rule never fires\<close>

definition scope_text :: "(uuid \<Rightarrow> string) \<Rightarrow> string \<Rightarrow> bool" where
  "scope_text ustr s \<longleftrightarrow> (\<exists>c. s = ''conv:'' @ c) \<or> (\<exists>u. s = ''ses:'' @ ustr u)"

lemma scope_text_prefix [simp]: "scope_text ustr (scope_prefix ustr ctx)"
  by (auto simp: scope_text_def scope_prefix_def split: option.split)

definition covered :: "duration \<Rightarrow> instant \<Rightarrow> (string \<times> taint_entry) list \<Rightarrow> string \<Rightarrow> instant \<Rightarrow> bool" where
  "covered ttl now reg s t \<longleftrightarrow>
     t + int ttl < now \<or> (\<exists>k e. (k, e) \<in> set reg \<and> prefix (s @ [CHR 0x00]) k \<and> t \<le> te_registered_at e)"

definition recent_inv :: "(uuid \<Rightarrow> string) \<Rightarrow> duration \<Rightarrow> instant \<Rightarrow> taint_state \<Rightarrow> bool" where
  "recent_inv ustr ttl now st \<longleftrightarrow>
     (\<forall>k e. (k, e) \<in> set (ts_registry st) \<longrightarrow> te_level e \<noteq> TaintNone) \<and>
     (\<forall>s t. (s, t) \<in> set (ts_recent_read st) \<longrightarrow>
        t \<le> now \<and> scope_text ustr s \<and> covered ttl now (ts_registry st) s t)"

lemma covered_moves:
  assumes "registry_moves ustr flt now ctx reg reg'" and "covered (tf_taint_ttl flt) now reg s t" and "t \<le> now"
  shows "covered (tf_taint_ttl flt) now reg' s t"
  using assms(1)
proof induction
  case stay
  show ?case by (rule assms(2))
next
  case (evict reg')
  then show ?case unfolding covered_def by (force simp: evict_stale_elems)
next
  case (register reg' level path)
  show ?case
  proof (cases "t + int (tf_taint_ttl flt) < now")
    case False
    then obtain k e where e: "(k, e) \<in> set reg'" "prefix (s @ [CHR 0x00]) k" "t \<le> te_registered_at e"
      using register.IH by (auto simp: covered_def)
    let ?new = "\<lparr> te_level = level, te_registered_at = now \<rparr>"
    show ?thesis
    proof (cases "k = registry_key ustr ctx path")
      case True
      then show ?thesis
        unfolding covered_def using e(2) assms(3) assoc_insert_same [of "registry_key ustr ctx path" ?new reg']
        by (intro disjI2 exI [of _ k] exI [of _ ?new]) simp
    next
      case False
      from assoc_insert_other [OF e(1) False] e(2,3) show ?thesis unfolding covered_def by blast
    qed
  qed (simp add: covered_def)
qed

lemma levels_moves:
  assumes "registry_moves ustr flt now ctx reg reg'" and "\<forall>k e. (k, e) \<in> set reg \<longrightarrow> te_level e \<noteq> TaintNone"
  shows "\<forall>k e. (k, e) \<in> set reg' \<longrightarrow> te_level e \<noteq> TaintNone"
  using assms(1)
proof induction
  case (evict reg')
  then show ?case unfolding evict_stale_elems by blast
next
  case (register reg' level path)
  then show ?case by (auto dest!: assoc_insert_elems)
qed (rule assms(2))

lemma covered_later: "covered ttl now reg s t \<Longrightarrow> now \<le> now' \<Longrightarrow> covered ttl now' reg s t"
  by (auto simp: covered_def)

lemma recent_inv_later: "recent_inv ustr ttl now st \<Longrightarrow> now \<le> now' \<Longrightarrow> recent_inv ustr ttl now' st"
  unfolding recent_inv_def by (meson covered_later order_trans)

lemma recent_inv_call:
  assumes "recent_inv ustr (tf_taint_ttl flt) now0 st" and "now0 \<le> tn_now env" and "tn_uuid_text env = ustr"
  shows "recent_inv ustr (tf_taint_ttl flt) (tn_now env) (snd (taint_evaluate env flt ctx st))"
proof -
  let ?st = "snd (taint_evaluate env flt ctx st)"
  note moves = moves_evaluate [of env flt ctx st]
  have "\<forall>k e. (k, e) \<in> set (ts_registry ?st) \<longrightarrow> te_level e \<noteq> TaintNone"
    using levels_moves [OF moves] assms(1) by (simp add: recent_inv_def)
  moreover have old: "t \<le> tn_now env \<and> scope_text ustr s \<and> covered (tf_taint_ttl flt) (tn_now env) (ts_registry ?st) s t"
    if "(s, t) \<in> set (ts_recent_read st)" for s t
  proof -
    have "t \<le> now0" "scope_text ustr s" "covered (tf_taint_ttl flt) now0 (ts_registry st) s t"
      using assms(1) that by (auto simp: recent_inv_def)
    then show ?thesis
      using covered_moves [OF moves covered_later [OF _ assms(2)]] assms(2) by simp
  qed
  moreover have "t \<le> tn_now env \<and> scope_text ustr s \<and> covered (tf_taint_ttl flt) (tn_now env) (ts_registry ?st) s t"
    if new: "(s, t) \<in> set (ts_recent_read ?st)" for s t
    using recent_evaluate [of env flt ctx st]
  proof (elim disjE exE conjE)
    assume "ts_recent_read ?st = ts_recent_read st"
    with new old show ?thesis by simp
  next
    fix p e
    assume r: "ts_recent_read ?st = assoc_insert (scope_prefix (tn_uuid_text env) ctx) (tn_now env) (ts_recent_read st)"
      and e: "(registry_key (tn_uuid_text env) ctx p, e) \<in> set (ts_registry ?st)" "te_registered_at e = tn_now env"
    have "prefix (scope_prefix ustr ctx @ [CHR 0x00]) (registry_key ustr ctx p)"
      by (simp add: registry_key_def key_of_def prefix_def)
    then have "covered (tf_taint_ttl flt) (tn_now env) (ts_registry ?st) (scope_prefix ustr ctx) (tn_now env)"
      using e assms(3) unfolding covered_def by (metis order_refl)
    with new old show ?thesis unfolding r using assms(3) by (auto dest!: assoc_insert_elems)
  qed
  ultimately show ?thesis by (simp add: recent_inv_def)
qed

lemma scope_text_not_prefix:
  assumes "uuid_text_ok ustr" and "scope_text ustr s" and "s \<noteq> ''ses:'' @ ustr u" and "prefix (s @ [CHR 0x00]) k"
  shows "\<not> prefix (''ses:'' @ ustr u @ [CHR 0x00]) k"
proof
  assume "prefix (''ses:'' @ ustr u @ [CHR 0x00]) k"
  then obtain a b where ab: "k = s @ CHR 0x00 # a" "k = ''ses:'' @ ustr u @ CHR 0x00 # b"
    using assms(4) by (auto simp: prefix_def)
  from assms(2) show False
    unfolding scope_text_def
  proof (elim disjE exE)
    fix c assume "s = ''conv:'' @ c"
    with ab show False by simp
  next
    fix v assume s: "s = ''ses:'' @ ustr v"
    have "ustr v = ustr u"
      using ab assms(1) by (intro append_sep_inj [of "CHR 0x00" "ustr v" "ustr u" a b]) (auto simp: s uuid_text_ok_def)
    with s assms(3) show False by simp
  qed
qed

lemma recent_inv_evict:
  assumes "uuid_text_ok ustr" and "recent_inv ustr ttl now st"
  shows "recent_inv ustr ttl now (snd (taint_evict_session_state ustr sc st))"
proof -
  have "covered ttl now (filter (\<lambda>(k, _). \<not> prefix (''ses:'' @ ustr (as_uuid sc) @ [CHR 0x00]) k) (ts_registry st)) s t"
    if "covered ttl now (ts_registry st) s t" "scope_text ustr s" "s \<noteq> ''ses:'' @ ustr (as_uuid sc)" for s t
    using that scope_text_not_prefix [OF assms(1) that(2,3)] unfolding covered_def by fastforce
  with assms(2) show ?thesis
    by (auto simp: recent_inv_def taint_evict_session_state_def Let_def)
qed

lemma recent_inv_run:
  assumes "uuid_text_ok ustr" and "recent_inv ustr (tf_taint_ttl flt) now0 st"
    and "sorted (now0 # event_times evs @ [now])"
  shows "recent_inv ustr (tf_taint_ttl flt) now (taint_run ustr flt st evs)"
  using assms(2,3)
proof (induction evs arbitrary: st now0)
  case Nil
  then show ?case by (auto intro: recent_inv_later)
next
  case (Cons ev evs)
  show ?case
  proof (cases ev)
    case (TaintCall env ctx)
    have "recent_inv ustr (tf_taint_ttl flt) (tn_now env) (taint_step ustr flt st ev)"
      using recent_inv_call [OF Cons.prems(1), of "env_at ustr env" ctx] Cons.prems(2) TaintCall by simp
    from Cons.IH [OF this] Cons.prems(2) TaintCall show ?thesis by simp
  next
    case (TaintEvict sc)
    from Cons.IH [OF recent_inv_evict [OF assms(1) Cons.prems(1)]] Cons.prems(2) TaintEvict
    show ?thesis by simp
  qed
qed

lemma no_recent_read_in_window:
  assumes "recent_inv (tn_uuid_text env) (tf_taint_ttl flt) (tn_now env) st"
    and "fst (get_effective_taint env flt ctx st) = TaintNone"
    and "PROXIMITY_WINDOW \<le> tf_taint_ttl flt"
    and "map_of (ts_recent_read st) (scope_prefix (tn_uuid_text env) ctx) = Some t"
  shows "\<not> tn_now env - t < int PROXIMITY_WINDOW"
proof -
  let ?s = "scope_prefix (tn_uuid_text env) ctx"
  have "covered (tf_taint_ttl flt) (tn_now env) (ts_registry st) ?s t"
    using assms(1) map_of_SomeD [OF assms(4)] by (auto simp: recent_inv_def)
  moreover have "te_registered_at e < tn_now env - int (tf_taint_ttl flt)"
    if e: "(k, e) \<in> set (ts_registry st)" "prefix (?s @ [CHR 0x00]) k" for k e
  proof (rule ccontr)
    assume "\<not> ?thesis"
    with e(1) have "(k, e) \<in> set (evict_stale_entries (tn_now env) (tf_taint_ttl flt) (ts_registry st))"
      by (simp add: evict_stale_elems)
    then have "te_level e = TaintNone"
      using assms(2) e(2)
      by (auto simp: get_effective_taint_def Let_def highest_level_none key_matches_context_def split: if_splits)
    with assms(1) e(1) show False by (auto simp: recent_inv_def)
  qed
  ultimately have "t + int (tf_taint_ttl flt) < tn_now env" by (force simp: covered_def)
  with assms(3) show ?thesis by linarith
qed

lemma proximity_unchanged:
  assumes "recent_inv (tn_uuid_text env) (tf_taint_ttl flt) (tn_now env) st"
    and "PROXIMITY_WINDOW \<le> tf_taint_ttl flt" and "get_effective_taint env flt ctx st = (eff, st1)"
    and "ts_recent_read (snd p) = ts_recent_read st"
  shows "proximity env ctx eff msg p = p"
  using no_recent_read_in_window [OF assms(1) _ assms(2), of ctx] assms(3,4)
  by (cases p) (auto simp: proximity_def Let_def split: option.split)

definition PROXIMITY_RULE :: string where
  "PROXIMITY_RULE = ''proximity-sensitive-read''"

lemma empty_rule [simp]: "[] \<noteq> PROXIMITY_RULE" "PROXIMITY_RULE \<noteq> []"
  by (simp_all add: PROXIMITY_RULE_def)

lemma rule_with_sources [simp]: "rule_id (fst (with_sources env flt ctx r st)) = rule_id r"
  by (simp add: with_sources_def split: prod.split)

lemma other_rules [simp]:
  "rule_id (http_verdict eff m u) \<noteq> PROXIMITY_RULE" "rule_id (net_verdict eff a p) \<noteq> PROXIMITY_RULE"
  "rule_id (legacy_spawn_verdict ctx eff) \<noteq> PROXIMITY_RULE"
  "rule_id (local_sink_verdict b c a p l) \<noteq> PROXIMITY_RULE" "rule_id (no_match n) \<noteq> PROXIMITY_RULE"
  by (simp_all add: http_verdict_def net_verdict_def legacy_spawn_verdict_def local_sink_verdict_def PROXIMITY_RULE_def
      Let_def split: taint_level.split option.split)

lemma outbound_hit_rule [simp]: "outbound_binary_hit env c argv = Some r \<Longrightarrow> rule_id r \<noteq> PROXIMITY_RULE"
  by (auto simp: outbound_binary_hit_def spawn_taint_match_def PROXIMITY_RULE_def
      split: option.splits classification.splits if_splits)

lemma spawn_rule_other [simp]: "spawn_rule env flt ctx c argv b st = Some r \<Longrightarrow> rule_id r \<noteq> PROXIMITY_RULE"
  by (auto simp: spawn_rule_def simp: spawn_taint_match_def PROXIMITY_RULE_def dest: outbound_hit_rule
      split: list.splits option.splits if_splits)

lemma evaluate_spawn_other: "rule_id (fst (evaluate_spawn env flt ctx st)) \<noteq> PROXIMITY_RULE"
  by (auto simp: evaluate_spawn_def taint_on_spawn_data_flow_def Let_def split: prod.split option.split)

lemma evaluate_not_proximity:
  assumes "recent_inv (tn_uuid_text env) (tf_taint_ttl flt) (tn_now env) st"
    and "PROXIMITY_WINDOW \<le> tf_taint_ttl flt"
  shows "rule_id (fst (taint_evaluate env flt ctx st)) \<noteq> PROXIMITY_RULE"
proof -
  obtain eff st1 where eff: "get_effective_taint env flt ctx st = (eff, st1)" by fastforce
  have keep: "proximity env ctx eff msg (with_sources env flt ctx r st1) = with_sources env flt ctx r st1" for msg r
    by (rule proximity_unchanged [OF assms eff]) (simp add: recent_effective [OF eff])
  show ?thesis
    by (cases "call_type ctx")
      (simp_all add: taint_evaluate_def evaluate_http_def evaluate_connect_def evaluate_read_def eff keep
        evaluate_spawn_other Let_def split: option.split)
qed



subsection \<open>Where the propagation stops\<close>

text \<open>Reading a path that is tainted only by propagation marks no reader.\<close>

lemma propagated_read_marks_nobody:
  "call_type ctx = FileRead p \<Longrightarrow> classify_source (tf_sensitive_sources flt) p = TaintNone \<Longrightarrow>
   taint_evaluate env flt ctx st = (no_match ''taint'', st)"
  by (simp add: taint_evaluate_def evaluate_read_def register_taint_def Let_def)

text \<open>A rename carries the class of the old name, not the taint the registry holds for it.\<close>

lemma rename_drops_registered_taint:
  "call_type ctx = FileRename a b \<Longrightarrow> classify_source (tf_sensitive_sources flt) a = TaintNone \<Longrightarrow>
   classify_source (tf_sensitive_sources flt) b = TaintNone \<Longrightarrow> propagated_taint env ctx st = TaintNone \<Longrightarrow>
   snd (taint_evaluate env flt ctx st) = st"
  by (simp add: taint_evaluate_def rename_taint_def register_taint_def combine_taint_def Let_def)

text \<open>A later access replaces the level of a path, also by a lower one.\<close>

lemma later_access_lowers_level:
  "call_type ctx = FileChmod p m \<Longrightarrow> classify_source (tf_sensitive_sources flt) p = TaintLow \<Longrightarrow>
   map_option te_level (map_of (ts_registry (snd (taint_evaluate env flt ctx st)))
     (registry_key (tn_uuid_text env) ctx p)) = Some TaintLow"
  by (simp add: taint_evaluate_def register_taint_def Let_def)

end
