(* ===== verification/Taint_Scopes.thy ===== *)
theory Taint_Scopes
  imports Taint_Limits
begin

section \<open>Scopes do not interfere\<close>

text \<open>
  The taint filter of \<open>crates/grith-proxy/src/filters/taint.rs\<close> serves all sessions and
  conversations of a daemon from one set of maps. What a call of one scope is told does not depend
  on the calls of the others.
\<close>

subsection \<open>What a scope sees of the state\<close>

definition aux_view ::
    "string \<Rightarrow> taint_state \<Rightarrow> instant option \<times> (nat \<Rightarrow> taint_level option) \<times> string list option \<times> bool" where
  "aux_view s st =
     (map_of (ts_recent_read st) s, \<lambda>pid. map_of (ts_tainted_pids st) (s, pid),
      map_of (ts_derived_vars st) s, s \<in> set (ts_pipe_observed st))"

definition alike :: "taint_filter \<Rightarrow> instant \<Rightarrow> string \<Rightarrow> taint_state \<Rightarrow> taint_state \<Rightarrow> bool" where
  "alike flt now s st st' \<longleftrightarrow>
     aux_view s st = aux_view s st' \<and>
     distinct (map fst (ts_registry st)) \<and> distinct (map fst (ts_registry st')) \<and>
     (\<forall>p e. now - int (tf_taint_ttl flt) \<le> te_registered_at e \<longrightarrow>
        ((key_of s p, e) \<in> set (ts_registry st) \<longleftrightarrow> (key_of s p, e) \<in> set (ts_registry st')))"

lemma alike_later: "alike flt now s st st' \<Longrightarrow> now \<le> now' \<Longrightarrow> alike flt now' s st st'"
  unfolding alike_def by auto

lemma in_distinct_insert:
  assumes "distinct (map fst xs)"
  shows "(k, e) \<in> set (assoc_insert j v xs) \<longleftrightarrow> (if k = j then e = v else (k, e) \<in> set xs)"
  unfolding map_of_eq_Some_iff [OF distinct_assoc_insert [OF assms], symmetric]
    map_of_eq_Some_iff [OF assms, symmetric]
  by auto

lemma aux_view_eq:
  "aux_view s st = aux_view s st' \<longleftrightarrow>
     map_of (ts_recent_read st) s = map_of (ts_recent_read st') s \<and>
     (\<forall>pid. map_of (ts_tainted_pids st) (s, pid) = map_of (ts_tainted_pids st') (s, pid)) \<and>
     map_of (ts_derived_vars st) s = map_of (ts_derived_vars st') s \<and>
     (s \<in> set (ts_pipe_observed st) \<longleftrightarrow> s \<in> set (ts_pipe_observed st'))"
  by (auto simp: aux_view_def fun_eq_iff)

subsection \<open>Dropping stale entries\<close>

definition evicted :: "taint_env \<Rightarrow> taint_filter \<Rightarrow> taint_state \<Rightarrow> taint_state \<Rightarrow> bool" where
  "evicted env flt st st2 \<longleftrightarrow>
     st2 = st \<or> st2 = st\<lparr>ts_registry := evict_stale_entries (tn_now env) (tf_taint_ttl flt) (ts_registry st)\<rparr>"

lemma evict_stale_idem [simp]: "evict_stale_entries now ttl (evict_stale_entries now ttl reg) = evict_stale_entries now ttl reg"
  by (simp add: evict_stale_entries_def)

lemma evicted_refl [simp]: "evicted env flt st st"
  by (simp add: evicted_def)

lemma evicted_trans: "evicted env flt a b \<Longrightarrow> evicted env flt b c \<Longrightarrow> evicted env flt a c"
  by (auto simp: evicted_def)

lemma evicted_effective [simp]: "evicted env flt st (snd (get_effective_taint env flt ctx st))"
  by (simp add: evicted_def get_effective_taint_def Let_def)

lemma evicted_with_sources [simp]: "evicted env flt st (snd (with_sources env flt ctx r st))"
  by (simp add: evicted_def with_sources_def active_source_categories_def Let_def)

lemma evicted_data_flow [simp]: "evicted env flt st (snd (taint_on_spawn_data_flow env flt ctx st))"
  using data_flow_state [of env flt ctx st] by auto

lemma evicted_aux: "evicted env flt st st2 \<Longrightarrow> aux_view s st2 = aux_view s st"
  by (auto simp: evicted_def aux_view_def)

lemma evicted_distinct: "evicted env flt st st2 \<Longrightarrow> distinct (map fst (ts_registry st)) \<Longrightarrow> distinct (map fst (ts_registry st2))"
  by (auto simp: evicted_def evict_stale_entries_def)

lemma evicted_fresh:
  "evicted env flt st st2 \<Longrightarrow> tn_now env - int (tf_taint_ttl flt) \<le> te_registered_at e \<Longrightarrow>
   (k, e) \<in> set (ts_registry st2) \<longleftrightarrow> (k, e) \<in> set (ts_registry st)"
  by (auto simp: evicted_def evict_stale_elems)

lemma alike_evicted:
  assumes "alike flt (tn_now env) s st st'" and "evicted env flt st st2" and "evicted env flt st' st2'"
  shows "alike flt (tn_now env) s st2 st2'"
  using assms(1) evicted_aux [OF assms(2), of s] evicted_aux [OF assms(3), of s]
    evicted_distinct [OF assms(2)] evicted_distinct [OF assms(3)]
    evicted_fresh [OF assms(2)] evicted_fresh [OF assms(3)]
  by (simp add: alike_def)

subsection \<open>Updates of the scope itself\<close>

lemma alike_register:
  "alike flt now s st st' \<Longrightarrow> alike flt now s (register_taint env ctx p l st) (register_taint env ctx p l st')"
  by (auto simp: alike_def in_distinct_insert aux_view_eq register_taint_def Let_def)

lemma alike_aux:
  "alike flt now s st st' \<Longrightarrow> ts_registry (f st) = ts_registry st \<Longrightarrow> ts_registry (f st') = ts_registry st' \<Longrightarrow>
   aux_view s (f st) = aux_view s (f st') \<Longrightarrow> alike flt now s (f st) (f st')"
  by (simp add: alike_def)

lemma aux_recent:
  "aux_view s st = aux_view s st' \<Longrightarrow>
   aux_view s (st\<lparr>ts_recent_read := assoc_insert k t (ts_recent_read st)\<rparr>) =
   aux_view s (st'\<lparr>ts_recent_read := assoc_insert k t (ts_recent_read st')\<rparr>)"
  by (simp add: aux_view_eq)

lemma aux_mark_pid:
  "scope_prefix (tn_uuid_text env) ctx = s \<Longrightarrow> aux_view s st = aux_view s st' \<Longrightarrow>
   aux_view s (mark_pid_tainted env ctx l st) = aux_view s (mark_pid_tainted env ctx l st')"
  by (auto simp: aux_view_eq mark_pid_tainted_def pid_key_def Let_def split: option.split)

lemma aux_env_var:
  "scope_prefix (tn_uuid_text env) ctx = s \<Longrightarrow> aux_view s st = aux_view s st' \<Longrightarrow>
   is_env_var_tainted env ctx v st = is_env_var_tainted env ctx v st'"
  by (simp add: aux_view_eq is_env_var_tainted_def)

lemma aux_assignment:
  assumes "scope_prefix (tn_uuid_text env) ctx = s" and "aux_view s st = aux_view s st'"
  shows "aux_view s (observe_assignment env ctx st a) = aux_view s (observe_assignment env ctx st' a)"
proof -
  have "aux_view s (mark_env_var_tainted env ctx v st) = aux_view s (mark_env_var_tainted env ctx v st')" for v
    using assms(2) unfolding mark_env_var_tainted_def assms(1) Let_def aux_view_eq by simp
  then show ?thesis
    using assms(2) aux_env_var [OF assms] by (simp add: observe_assignment_def split: prod.split)
qed

lemma aux_assignments:
  "scope_prefix (tn_uuid_text env) ctx = s \<Longrightarrow> aux_view s st = aux_view s st' \<Longrightarrow>
   aux_view s (foldl (observe_assignment env ctx) st xs) = aux_view s (foldl (observe_assignment env ctx) st' xs)"
proof (induction xs arbitrary: st st')
  case (Cons a xs)
  show ?case unfolding foldl_Cons by (intro Cons.IH Cons.prems(1) aux_assignment Cons.prems(2))
qed simp

lemma aux_observe_shell:
  assumes "scope_prefix (tn_uuid_text env) ctx = s" and "aux_view s st = aux_view s st'"
  shows "aux_view s (observe_shell_command env ctx t st) = aux_view s (observe_shell_command env ctx t st')"
proof -
  have pipe: "aux_view s (mark_pipe_observed env ctx a) = aux_view s (mark_pipe_observed env ctx b)"
    if "aux_view s a = aux_view s b" for a b
    using that unfolding mark_pipe_observed_def assms(1) aux_view_eq by simp
  note vars = aux_assignments [OF assms, of "extract_var_assignments t"]
  show ?thesis
    using pipe [OF vars] vars by (auto simp: observe_shell_command_def Let_def)
qed

definition observed :: "taint_env \<Rightarrow> tool_call_context \<Rightarrow> taint_state \<Rightarrow> taint_state" where
  "observed env ctx st =
     (case shell_command_text (call_type ctx) of Some t \<Rightarrow> observe_shell_command env ctx t st | None \<Rightarrow> st)"

lemma alike_observed:
  assumes "scope_prefix (tn_uuid_text env) ctx = s" and "alike flt now s st st'"
  shows "alike flt now s (observed env ctx st) (observed env ctx st')"
proof (cases "shell_command_text (call_type ctx)")
  case (Some t)
  have "aux_view s st = aux_view s st'" using assms(2) by (simp add: alike_def)
  from alike_aux [OF assms(2) _ _ aux_observe_shell [OF assms(1) this, of t]] Some
  show ?thesis by (simp add: observed_def)
qed (use assms in \<open>simp add: observed_def\<close>)

lemma evicted_spawn: "evicted env flt (observed env ctx st) (snd (evaluate_spawn env flt ctx st))"
proof -
  let ?o = "observed env ctx st"
  have "evicted env flt ?o (snd (with_sources env flt ctx r (snd (taint_on_spawn_data_flow env flt ctx ?o))))"
    "evicted env flt ?o (snd (with_sources env flt ctx r (snd (get_effective_taint env flt ctx (snd (taint_on_spawn_data_flow env flt ctx ?o))))))"
    "evicted env flt ?o (snd (with_sources env flt ctx r (snd (get_effective_taint env flt ctx ?o))))" for r
    by (meson evicted_data_flow evicted_effective evicted_trans evicted_with_sources)+
  then show ?thesis
    unfolding evaluate_spawn_def Let_def observed_def [symmetric]
    by (auto split: prod.split option.split; metis snd_conv)
qed

lemma evicted_http: "evicted env flt st (snd (evaluate_http env flt ctx m u st))"
proof -
  have "evicted env flt st (snd (with_sources env flt ctx r (snd (get_effective_taint env flt ctx st))))" for r
    by (meson evicted_effective evicted_trans evicted_with_sources)
  then show ?thesis by (auto simp: evaluate_http_def split: prod.split; metis snd_conv)
qed

lemma evicted_connect: "evicted env flt st (snd (evaluate_connect env flt ctx a p st))"
proof -
  have "evicted env flt st (snd (with_sources env flt ctx r (snd (get_effective_taint env flt ctx st))))" for r
    by (meson evicted_effective evicted_trans evicted_with_sources)
  then show ?thesis by (auto simp: evaluate_connect_def Let_def split: prod.split; metis snd_conv)
qed

subsection \<open>Steps of the scope, and of the others\<close>

lemma aux_pid_level:
  "scope_prefix (tn_uuid_text env) ctx = s \<Longrightarrow> aux_view s st = aux_view s st' \<Longrightarrow>
   pid_taint_level env ctx st = pid_taint_level env ctx st'"
  by (auto simp: aux_view_eq pid_taint_level_def pid_key_def split: option.split)

lemma aux_register [simp]: "aux_view s (register_taint env ctx p l st) = aux_view s st"
  by (simp add: aux_view_def register_taint_def Let_def)

lemma register_none [simp]: "register_taint env ctx p TaintNone st = st"
  by (simp add: register_taint_def)

lemma own_step:
  assumes "alike flt (tn_now env) s st st'" and "scope_prefix (tn_uuid_text env) ctx = s"
  shows "alike flt (tn_now env) s (snd (taint_evaluate env flt ctx st)) (snd (taint_evaluate env flt ctx st'))"
proof -
  have aux: "aux_view s st = aux_view s st'" using assms(1) by (simp add: alike_def)
  note pids = aux_pid_level [OF assms(2) aux]
  show ?thesis
  proof (cases "call_type ctx")
    case (FileRead p)
    let ?l = "classify_source (tf_sensitive_sources flt) p"
    let ?f = "\<lambda>st. mark_pid_tainted env ctx ?l (st\<lparr>ts_recent_read := assoc_insert (scope_prefix (tn_uuid_text env) ctx) (tn_now env) (ts_recent_read st)\<rparr>)"
    have reg: "alike flt (tn_now env) s (register_taint env ctx p ?l st) (register_taint env ctx p ?l st')"
      by (rule alike_register [OF assms(1)])
    have "alike flt (tn_now env) s (?f (register_taint env ctx p ?l st)) (?f (register_taint env ctx p ?l st'))"
    proof (rule alike_aux [OF reg, where f = ?f])
      have "aux_view s (register_taint env ctx p ?l st) = aux_view s (register_taint env ctx p ?l st')"
        by (simp add: aux)
      from aux_mark_pid [OF assms(2) aux_recent [OF this]]
      show "aux_view s (?f (register_taint env ctx p ?l st)) = aux_view s (?f (register_taint env ctx p ?l st'))" .
    qed simp_all
    with FileRead assms(1) show ?thesis by (simp add: taint_evaluate_def evaluate_read_def Let_def)
  next
    case (HttpRequest m u)
    then show ?thesis
      using alike_evicted [OF assms(1) evicted_http evicted_http] by (simp add: taint_evaluate_def)
  next
    case (NetConnect a p)
    then show ?thesis
      using alike_evicted [OF assms(1) evicted_connect evicted_connect] by (simp add: taint_evaluate_def)
  next
    case (ShellExec c a)
    then show ?thesis
      using alike_evicted [OF alike_observed [OF assms(2,1)] evicted_spawn evicted_spawn] by (simp add: taint_evaluate_def)
  next
    case (ProcessSpawn c a)
    then show ?thesis
      using alike_evicted [OF alike_observed [OF assms(2,1)] evicted_spawn evicted_spawn] by (simp add: taint_evaluate_def)
  next
    case (FileRename a b)
    have "pid_taint_level env ctx (register_taint env ctx a l st) = pid_taint_level env ctx (register_taint env ctx a l st')" for l
      by (rule aux_pid_level [OF assms(2)]) (simp add: aux)
    with FileRename assms(1) show ?thesis
      by (simp add: taint_evaluate_def rename_taint_def propagated_taint_def Let_def alike_register)
  next
    case (FilesystemMutation k s t fl)
    with assms(1) show ?thesis by (auto simp: taint_evaluate_def Let_def alike_register split: option.split)
  qed (use assms(1) in \<open>simp_all add: taint_evaluate_def write_taint_def propagated_taint_def pids Let_def alike_register\<close>)
qed

lemma aux_observe_other:
  assumes "scope_prefix (tn_uuid_text env) ctx \<noteq> s"
  shows "aux_view s (observed env ctx st) = aux_view s st"
proof -
  have step: "aux_view s (observe_assignment env ctx st a) = aux_view s st" for st a
    using assms by (auto simp: aux_view_def observe_assignment_def mark_env_var_tainted_def Let_def split: prod.split)
  have "aux_view s (foldl (observe_assignment env ctx) st xs) = aux_view s st" for st xs
    by (induction xs arbitrary: st) (simp_all add: step)
  then show ?thesis
    using assms by (auto simp: observed_def observe_shell_command_def mark_pipe_observed_def aux_view_def Let_def
        split: option.split)
qed

lemma aux_other:
  assumes "scope_prefix (tn_uuid_text env) ctx \<noteq> s"
  shows "aux_view s (snd (taint_evaluate env flt ctx st)) = aux_view s st"
proof -
  have mark: "aux_view s (mark_pid_tainted env ctx l st) = aux_view s st" for l st
    using assms by (auto simp: aux_view_def mark_pid_tainted_def pid_key_def Let_def split: option.split)
  have recent: "ts_recent_read st0 = ts_recent_read st \<Longrightarrow>
      aux_view s (st\<lparr>ts_recent_read := assoc_insert (scope_prefix (tn_uuid_text env) ctx) t (ts_recent_read st0)\<rparr>) =
      aux_view s st" for t st st0
    using assms by (simp add: aux_view_def)
  show ?thesis
  proof (cases "call_type ctx")
    case (FilesystemMutation k s t fl)
    then show ?thesis by (auto simp: taint_evaluate_def Let_def split: option.split)
  qed (simp_all add: taint_evaluate_def evaluate_read_def write_taint_def rename_taint_def mark recent
      evicted_aux [OF evicted_spawn] evicted_aux [OF evicted_http] evicted_aux [OF evicted_connect]
      aux_observe_other [OF assms] Let_def)
qed

lemma moves_other:
  assumes "registry_moves ustr flt now ctx reg reg'" and "distinct (map fst reg)"
    and "CHR 0x00 \<notin> set s" and "CHR 0x00 \<notin> set (scope_prefix ustr ctx)" and "scope_prefix ustr ctx \<noteq> s"
  shows "distinct (map fst reg') \<and>
    (\<forall>p e. now - int (tf_taint_ttl flt) \<le> te_registered_at e \<longrightarrow>
       ((key_of s p, e) \<in> set reg' \<longleftrightarrow> (key_of s p, e) \<in> set reg))"
  using assms(1)
proof induction
  case stay
  show ?case using assms(2) by simp
next
  case (evict reg')
  then show ?case by (simp add: evict_stale_elems) (simp add: evict_stale_entries_def)
next
  case (register reg' level path)
  have "key_of s p \<noteq> registry_key ustr ctx path" for p
    using key_of_inj [OF assms(3,4)] assms(5) by (auto simp: registry_key_def)
  with register.IH show ?case by (auto simp: in_distinct_insert)
qed

lemma other_step:
  assumes "alike flt (tn_now env) s st st'" and "CHR 0x00 \<notin> set s"
    and "CHR 0x00 \<notin> set (scope_prefix (tn_uuid_text env) ctx)" and "scope_prefix (tn_uuid_text env) ctx \<noteq> s"
  shows "alike flt (tn_now env) s (snd (taint_evaluate env flt ctx st)) st'"
  using moves_other [OF moves_evaluate [of env flt ctx st] _ assms(2,3,4)] assms(1) aux_other [OF assms(4)]
  by (simp add: alike_def)

lemma evict_view:
  assumes "uuid_text_ok ustr" and "CHR 0x00 \<notin> set s"
  shows "aux_view s (snd (taint_evict_session_state ustr sc st)) =
      (if s = ''ses:'' @ ustr (as_uuid sc) then (None, \<lambda>_. None, None, False) else aux_view s st)"
    and "(key_of s p, e) \<in> set (ts_registry (snd (taint_evict_session_state ustr sc st))) \<longleftrightarrow>
      s \<noteq> ''ses:'' @ ustr (as_uuid sc) \<and> (key_of s p, e) \<in> set (ts_registry st)"
proof -
  let ?e = "''ses:'' @ ustr (as_uuid sc)"
  have "CHR 0x00 \<notin> set ?e" using assms(1) by (simp add: uuid_text_ok_def)
  then have pre: "prefix (?e @ [CHR 0x00]) (key_of s p) \<longleftrightarrow> ?e = s" for p
    unfolding key_of_def by (rule prefix_sep_eq) (rule assms(2))
  have pairs: "map_of (filter (\<lambda>((s, _), _). s \<noteq> t) ps) (s, pid) = (if s = t then None else map_of ps (s, pid))"
    for ps :: "((string \<times> nat) \<times> taint_level) list" and t pid
    by (induction ps) auto
  have single: "map_of (filter (\<lambda>(k, _). k \<noteq> t) ps) s = (if s = t then None else map_of ps s)"
    for ps :: "(string \<times> instant) list" and t
    by (induction ps) auto
  show "aux_view s (snd (taint_evict_session_state ustr sc st)) =
      (if s = ?e then (None, \<lambda>_. None, None, False) else aux_view s st)"
    by (simp add: aux_view_def taint_evict_session_state_def Let_def pairs single)
  show "(key_of s p, e) \<in> set (ts_registry (snd (taint_evict_session_state ustr sc st))) \<longleftrightarrow>
      s \<noteq> ?e \<and> (key_of s p, e) \<in> set (ts_registry st)"
    using pre [of p] by (auto simp: taint_evict_session_state_def Let_def)
qed

lemma distinct_evict [simp]:
  "distinct (map fst (ts_registry st)) \<Longrightarrow> distinct (map fst (ts_registry (snd (taint_evict_session_state ustr sc st))))"
  by (simp add: taint_evict_session_state_def Let_def)

subsection \<open>The verdict\<close>

text \<open>A verdict without its message, whose first tainted path depends on the order of a hash map.\<close>

definition blank :: "filter_result \<Rightarrow> filter_result" where
  "blank r = r\<lparr>fr_message := []\<rparr>"

lemma highest_level_cong:
  assumes "\<And>k e. mine k \<Longrightarrow> (k, e) \<in> set reg \<longleftrightarrow> (k, e) \<in> set reg'"
  shows "highest_level reg mine = highest_level reg' mine"
proof -
  have "taint_ord (highest_level reg mine) \<ge> n \<longleftrightarrow> taint_ord (highest_level reg' mine) \<ge> n" for n
    using assms by (auto simp: highest_level_ge)
  then have "taint_ord (highest_level reg mine) = taint_ord (highest_level reg' mine)"
    by (meson order_antisym order_refl)
  then show ?thesis by (simp add: taint_ord_inj)
qed

lemma key_matches_iff: "key_matches_context ustr k ctx \<longleftrightarrow> (\<exists>p. k = key_of (scope_prefix ustr ctx) p)"
  by (auto simp: key_matches_context_def key_of_def prefix_def)

lemma alike_evict_set:
  "alike flt now s st st' \<Longrightarrow>
   (key_of s p, e) \<in> set (evict_stale_entries now (tf_taint_ttl flt) (ts_registry st)) \<longleftrightarrow>
   (key_of s p, e) \<in> set (evict_stale_entries now (tf_taint_ttl flt) (ts_registry st'))"
  by (auto simp: alike_def evict_stale_elems)

definition same_paths :: "string \<Rightarrow> taint_state \<Rightarrow> taint_state \<Rightarrow> bool" where
  "same_paths s st st' \<longleftrightarrow>
     (\<forall>p. (\<exists>e. (key_of s p, e) \<in> set (ts_registry st)) \<longleftrightarrow> (\<exists>e. (key_of s p, e) \<in> set (ts_registry st')))"

lemma effective_alike:
  assumes "alike flt (tn_now env) s st st'" and "scope_prefix (tn_uuid_text env) ctx = s" and "source_taint ctx = TaintNone"
  shows "fst (get_effective_taint env flt ctx st) = fst (get_effective_taint env flt ctx st')"
    and "same_paths s (snd (get_effective_taint env flt ctx st)) (snd (get_effective_taint env flt ctx st'))"
proof -
  note evict = alike_evict_set [OF assms(1)]
  show "fst (get_effective_taint env flt ctx st) = fst (get_effective_taint env flt ctx st')"
    using assms(2,3) evict
    by (auto simp: get_effective_taint_def Let_def key_matches_iff intro!: highest_level_cong)
  show "same_paths s (snd (get_effective_taint env flt ctx st)) (snd (get_effective_taint env flt ctx st'))"
    using assms(3) evict by (simp add: get_effective_taint_def Let_def same_paths_def)
qed

lemma set_map_filter: "set (List.map_filter f xs) = {y. \<exists>x \<in> set xs. f x = Some y}"
  by (induction xs) (auto simp: List.map_filter_simps split: option.splits)

lemma map_filter_set_cong: "set xs = set ys \<Longrightarrow> set (List.map_filter f xs) = set (List.map_filter f ys)"
  by (simp add: set_map_filter)

lemma distinct_remdups_adj_sorted: "sorted xs \<Longrightarrow> distinct (remdups_adj (xs :: string list))"
proof (induction xs rule: remdups_adj.induct)
  case (3 x y xs)
  then show ?case by (auto simp: order_antisym)
qed simp_all

lemma sort_dedup_cong:
  "set xs = set ys \<Longrightarrow> remdups_adj (sort xs) = remdups_adj (sort (ys :: string list))"
  by (intro sorted_distinct_set_unique) (simp_all add: distinct_remdups_adj_sorted)

lemma set_tainted_paths:
  "scope_prefix (tn_uuid_text env) ctx = s \<Longrightarrow>
   set (tainted_paths_for_scope env ctx st) = {p. \<exists>e. (key_of s p, e) \<in> set (ts_registry st)}"
  by (force simp: tainted_paths_for_scope_def set_map_filter strip_prefix_def key_of_def prefix_def
      split: if_splits)

lemma categories_alike:
  assumes "alike flt (tn_now env) s st st'" and "scope_prefix (tn_uuid_text env) ctx = s"
  shows "fst (active_source_categories env flt ctx st) = fst (active_source_categories env flt ctx st')"
proof -
  let ?keys = "\<lambda>st. filter (\<lambda>k. key_matches_context (tn_uuid_text env) k ctx)
    (map fst (evict_stale_entries (tn_now env) (tf_taint_ttl flt) (ts_registry st)))"
  let ?cats = "\<lambda>st. List.map_filter (\<lambda>k. classify_source_category (path_from_key k)) (?keys st)"
  have keys: "set (filter (\<lambda>k. key_matches_context (tn_uuid_text env) k ctx) (map fst reg)) =
      {k. \<exists>p e. k = key_of s p \<and> (key_of s p, e) \<in> set reg}" for reg :: "(string \<times> taint_entry) list"
    by (auto simp: key_matches_iff assms(2) image_iff; force)
  have "set (?keys st) = set (?keys st')"
    unfolding keys by (simp only: alike_evict_set [OF assms(1)])
  then have "set (?cats st) = set (?cats st')" by (rule map_filter_set_cong)
  then show ?thesis unfolding active_source_categories_def Let_def fst_conv by (rule sort_dedup_cong)
qed

lemma blank_with_sources:
  assumes "alike flt (tn_now env) s st st'" and "scope_prefix (tn_uuid_text env) ctx = s" and "blank r = blank r'"
  shows "blank (fst (with_sources env flt ctx r st)) = blank (fst (with_sources env flt ctx r' st'))"
proof -
  have fields: "fr_matched r = fr_matched r'" "metadata r = metadata r'"
    using assms(3) by (simp_all add: blank_def) (metis filter_result.select_convs filter_result.update_convs filter_result.surjective)+
  have up: "blank (r\<lparr>metadata := m\<rparr>) = (blank r)\<lparr>metadata := m\<rparr>" for m and r :: filter_result
    by (simp add: blank_def)
  show ?thesis
    using categories_alike [OF assms(1,2)] assms(3) fields
    by (auto simp: with_sources_def up split: prod.split)
qed

lemma blank_proximity:
  assumes "aux_view s (snd p) = aux_view s (snd q)" and "scope_prefix (tn_uuid_text env) ctx = s"
    and "blank (fst p) = blank (fst q)"
  shows "blank (fst (proximity env ctx eff msg p)) = blank (fst (proximity env ctx eff msg q))"
proof -
  have up: "blank (r\<lparr>fr_matched := True, fr_score := c, rule_id := i, fr_severity := v, fr_message := m\<rparr>) =
      (blank r)\<lparr>fr_matched := True, fr_score := c, rule_id := i, fr_severity := v\<rparr>" for c i v m and r :: filter_result
    by (simp add: blank_def)
  have "map_of (ts_recent_read (snd p)) s = map_of (ts_recent_read (snd q)) s"
    using assms(1) by (simp add: aux_view_eq)
  then show ?thesis
    using assms(2,3) by (auto simp: proximity_def case_prod_beta Let_def up split: option.split)
qed

lemma hits_empty_iff:
  "argv_path_hits env flt ctx argv st = [] \<longleftrightarrow>
   (\<forall>c \<in> set (concat (map argv_path_candidates argv)). \<forall>p \<in> set (tainted_paths_for_scope env ctx st).
      \<not> argv_arg_matches_tainted_path c p (resolve_argv_token c (caller_cwd env ctx))
           (tainted_basename_is_sensitive (tf_sensitive_sources flt) p))"
  by (auto simp: argv_path_hits_def Let_def filter_empty_conv)

lemma spawn_rule_alike:
  assumes "same_paths s st st'" and "aux_view s st = aux_view s st'" and "scope_prefix (tn_uuid_text env) ctx = s"
  shows "map_option blank (spawn_rule env flt ctx c argv b st) = map_option blank (spawn_rule env flt ctx c argv b st')"
proof -
  have paths: "set (tainted_paths_for_scope env ctx st) = set (tainted_paths_for_scope env ctx st')"
    using assms(1) by (simp add: set_tainted_paths [OF assms(3)] same_paths_def)
  then have hits: "argv_path_hits env flt ctx argv st = [] \<longleftrightarrow> argv_path_hits env flt ctx argv st' = []"
    by (simp add: hits_empty_iff)
  have envs: "argv_env_hits env ctx argv st = argv_env_hits env ctx argv st'"
    using aux_env_var [OF assms(3,2)] by (simp add: argv_env_hits_def)
  have pipe: "is_pipe_observed env ctx st = is_pipe_observed env ctx st'"
    using assms(2,3) by (simp add: is_pipe_observed_def aux_view_eq)
  have pattern: "command_text_matches_exfil_pattern t (tainted_paths_for_scope env ctx st) =
      command_text_matches_exfil_pattern t (tainted_paths_for_scope env ctx st')" for t
    using paths by (simp add: command_text_matches_exfil_pattern_def list_ex_iff)
  have blank_match: "blank (spawn_taint_match i m) = blank (spawn_taint_match i m')" for i m m'
    by (simp add: blank_def spawn_taint_match_def matched_def)
  show ?thesis
  proof (cases "(if b then argv_path_hits env flt ctx argv st else []) = []")
    case True
    then have True': "(if b then argv_path_hits env flt ctx argv st' else []) = []" using hits by (auto split: if_splits)
    show ?thesis by (simp only: spawn_rule_def True True' envs pipe pattern list.case)
  next
    case False
    then obtain p ps q qs where "argv_path_hits env flt ctx argv st = p # ps" "argv_path_hits env flt ctx argv st' = q # qs" b
      using hits by (metis list.exhaust)
    then show ?thesis by (simp add: spawn_rule_def blank_match)
  qed
qed

lemma effective_evicted:
  "get_effective_taint env flt ctx st = (eff, st1) \<Longrightarrow> evicted env flt st st1"
  by (metis evicted_effective snd_conv)

lemma some_map_optionE: "Some y = map_option f x \<Longrightarrow> (\<And>z. x = Some z \<Longrightarrow> y = f z \<Longrightarrow> P) \<Longrightarrow> P"
  by (cases x) auto

lemma spawn_alike:
  assumes "alike flt (tn_now env) s st st'" and "scope_prefix (tn_uuid_text env) ctx = s" and "source_taint ctx = TaintNone"
  shows "blank (fst (evaluate_spawn env flt ctx st)) = blank (fst (evaluate_spawn env flt ctx st'))"
proof -
  have o: "alike flt (tn_now env) s (observed env ctx st) (observed env ctx st')"
    by (rule alike_observed [OF assms(2,1)])
  obtain e a where e: "get_effective_taint env flt ctx (observed env ctx st) = (e, a)" by fastforce
  obtain e' a' where e': "get_effective_taint env flt ctx (observed env ctx st') = (e', a')" by fastforce
  have "e = e'" and paths: "same_paths s a a'" using effective_alike [OF o assms(2,3)] e e' by simp_all
  have al: "alike flt (tn_now env) s a a'"
    by (rule alike_evicted [OF o effective_evicted [OF e] effective_evicted [OF e']])
  then have aux: "aux_view s a = aux_view s a'" by (simp add: alike_def)
  show ?thesis
  proof (cases "tf_spawn_data_flow_only flt")
    case False
    then show ?thesis
      using blank_with_sources [OF al assms(2) refl] \<open>e = e'\<close> e e'
      by (simp add: evaluate_spawn_def observed_def [symmetric] Let_def)
  next
    case True
    show ?thesis
    proof (cases "spawn_parts (call_type ctx)")
      case None
      have "alike flt (tn_now env) s (snd (get_effective_taint env flt ctx (observed env ctx st)))
          (snd (get_effective_taint env flt ctx (observed env ctx st')))" using al e e' by simp
      from blank_with_sources [OF this assms(2) refl] None True show ?thesis
        by (simp add: evaluate_spawn_def observed_def [symmetric] taint_on_spawn_data_flow_def Let_def)
    next
      case (Some ca)
      obtain c argv where ca: "ca = (c, argv)" by fastforce
      let ?b = "e' \<noteq> TaintNone \<or> pid_taint_level env ctx a' \<noteq> None"
      have b: "(e \<noteq> TaintNone \<or> pid_taint_level env ctx a \<noteq> None) = ?b"
        using aux_pid_level [OF assms(2) aux] \<open>e = e'\<close> by simp
      have flow: "taint_on_spawn_data_flow env flt ctx (observed env ctx st) = (spawn_rule env flt ctx c argv ?b a, a)"
        "taint_on_spawn_data_flow env flt ctx (observed env ctx st') = (spawn_rule env flt ctx c argv ?b a', a')"
        using Some ca e e' b by (simp_all add: taint_on_spawn_data_flow_def)
      have again: "alike flt (tn_now env) s (snd (get_effective_taint env flt ctx a)) (snd (get_effective_taint env flt ctx a'))"
        by (rule alike_evicted [OF al]) simp_all
      note rule = spawn_rule_alike [OF paths aux assms(2), of flt c argv ?b]
      show ?thesis
      proof (cases "spawn_rule env flt ctx c argv ?b a")
        case None
        with rule have "spawn_rule env flt ctx c argv ?b a' = None" by simp
        with None flow True blank_with_sources [OF again assms(2) refl] show ?thesis
          by (simp add: evaluate_spawn_def observed_def [symmetric] Let_def)
      next
        case (Some r)
        with rule have "Some (blank r) = map_option blank (spawn_rule env flt ctx c argv ?b a')" by simp
        then obtain r' where "spawn_rule env flt ctx c argv ?b a' = Some r'" "blank r = blank r'"
          by (rule some_map_optionE)
        from blank_with_sources [OF al assms(2) this(2)] this(1) Some flow True show ?thesis
          by (simp add: evaluate_spawn_def observed_def [symmetric] Let_def)
      qed
    qed
  qed
qed

lemma verdict_alike:
  assumes "alike flt (tn_now env) s st st'" and "scope_prefix (tn_uuid_text env) ctx = s" and "source_taint ctx = TaintNone"
  shows "blank (fst (taint_evaluate env flt ctx st)) = blank (fst (taint_evaluate env flt ctx st'))"
proof -
  obtain e a where e: "get_effective_taint env flt ctx st = (e, a)" by fastforce
  obtain e' a' where e': "get_effective_taint env flt ctx st' = (e', a')" by fastforce
  have "e = e'" using effective_alike [OF assms] e e' by simp
  have al: "alike flt (tn_now env) s a a'"
    by (rule alike_evicted [OF assms(1) effective_evicted [OF e] effective_evicted [OF e']])
  then have aux: "aux_view s a = aux_view s a'" by (simp add: alike_def)
  have sources: "aux_view s (snd (with_sources env flt ctx r x)) = aux_view s x" for r x
    by (rule evicted_aux [OF evicted_with_sources])
  have net: "blank (fst (proximity env ctx e m (with_sources env flt ctx r a))) =
      blank (fst (proximity env ctx e m (with_sources env flt ctx r a')))" for m r
    by (rule blank_proximity [OF _ assms(2)]) (simp_all add: sources aux blank_with_sources [OF al assms(2) refl])
  have pids: "pid_taint_level env ctx a = pid_taint_level env ctx a'" by (rule aux_pid_level [OF assms(2) aux])
  show ?thesis
    by (cases "call_type ctx")
      (simp_all add: taint_evaluate_def evaluate_http_def evaluate_connect_def evaluate_read_def spawn_alike [OF assms]
        e e' \<open>e = e'\<close> [symmetric] net pids Let_def)
qed

subsection \<open>Purging the other scopes\<close>

fun event_scope :: "(uuid \<Rightarrow> string) \<Rightarrow> taint_event \<Rightarrow> string" where
  "event_scope ustr (TaintCall env ctx) = scope_prefix ustr ctx"
| "event_scope ustr (TaintEvict sc) = ''ses:'' @ ustr (as_uuid sc)"

definition purge :: "(uuid \<Rightarrow> string) \<Rightarrow> string \<Rightarrow> taint_event list \<Rightarrow> taint_event list" where
  "purge ustr s evs = filter (\<lambda>ev. event_scope ustr ev = s) evs"

lemma alike_step:
  assumes "alike flt now s st st'" and "uuid_text_ok ustr" and "CHR 0x00 \<notin> set s"
    and "CHR 0x00 \<notin> set (event_scope ustr ev)" and "\<forall>t \<in> set (event_times [ev]). now \<le> t"
  shows "alike flt (case ev of TaintCall env _ \<Rightarrow> tn_now env | _ \<Rightarrow> now) s
           (taint_step ustr flt st ev) (if event_scope ustr ev = s then taint_step ustr flt st' ev else st')"
proof (cases ev)
  case (TaintCall env ctx)
  have "alike flt (tn_now (env_at ustr env)) s st st'"
    using alike_later [OF assms(1)] assms(5) TaintCall by simp
  from own_step [OF this] other_step [OF this assms(3)] assms(4) TaintCall show ?thesis by simp
next
  case (TaintEvict sc)
  have "distinct (map fst (ts_registry st))" "distinct (map fst (ts_registry st'))"
    and rest: "aux_view s st = aux_view s st'"
      "\<And>p e. now - int (tf_taint_ttl flt) \<le> te_registered_at e \<Longrightarrow>
         (key_of s p, e) \<in> set (ts_registry st) \<longleftrightarrow> (key_of s p, e) \<in> set (ts_registry st')"
    using assms(1) by (auto simp: alike_def)
  define own where "own \<longleftrightarrow> s = ''ses:'' @ ustr (as_uuid sc)"
  have own: "event_scope ustr ev = s \<longleftrightarrow> own" using TaintEvict by (auto simp: own_def)
  show ?thesis
    using rest \<open>distinct (map fst (ts_registry st))\<close> \<open>distinct (map fst (ts_registry st'))\<close>
    unfolding own unfolding alike_def TaintEvict taint_step.simps
    by (cases own) (simp_all add: evict_view [OF assms(2,3), where sc = sc, folded own_def])
qed

lemma alike_run:
  assumes "alike flt now0 s st st'" and "uuid_text_ok ustr" and "CHR 0x00 \<notin> set s"
    and "\<forall>ev \<in> set evs. CHR 0x00 \<notin> set (event_scope ustr ev)" and "sorted (now0 # event_times evs @ [now])"
  shows "alike flt now s (taint_run ustr flt st evs) (taint_run ustr flt st' (purge ustr s evs))"
  using assms(1,4,5)
proof (induction evs arbitrary: st st' now0)
  case Nil
  then show ?case by (simp add: purge_def alike_later)
next
  case (Cons ev evs)
  let ?t = "case ev of TaintCall env _ \<Rightarrow> tn_now env | _ \<Rightarrow> now0"
  have "\<forall>t \<in> set (event_times [ev]). now0 \<le> t" using Cons.prems(3) by (cases ev) auto
  from alike_step [OF Cons.prems(1) assms(2,3) _ this] Cons.prems(2)
  have "alike flt ?t s (taint_step ustr flt st ev) (if event_scope ustr ev = s then taint_step ustr flt st' ev else st')"
    by simp
  moreover have "sorted (?t # event_times evs @ [now])" using Cons.prems(3) by (cases ev) auto
  ultimately show ?case using Cons.IH Cons.prems(2) by (fastforce simp: purge_def)
qed

text \<open>
  C7. Scopes do not interfere: whatever other conversations and sessions do in between, reading
  secrets, spawning shells, ending, the verdict on a call is the one it would get if only the events
  of its own scope had happened. Only the wording of the message may differ, which names the first
  of several tainted paths in the order of a hash map.
\<close>

theorem scopes_do_not_interfere:
  assumes "uuid_text_ok ustr" and "source_taint ctx = TaintNone"
    and "\<forall>ev \<in> set (TaintCall env ctx # evs). CHR 0x00 \<notin> set (event_scope ustr ev)"
    and "sorted (event_times evs @ [tn_now env])"
  shows "blank (fst (taint_evaluate (env_at ustr env) flt ctx (taint_run ustr flt (taint_state_new reg) evs))) =
         blank (fst (taint_evaluate (env_at ustr env) flt ctx
           (taint_run ustr flt (taint_state_new reg) (purge ustr (scope_prefix ustr ctx) evs))))"
proof -
  let ?t0 = "hd (event_times evs @ [tn_now env])"
  have "sorted (?t0 # event_times evs @ [tn_now env])"
    using assms(4) by (cases "event_times evs") auto
  moreover have "alike flt ?t0 (scope_prefix ustr ctx) (taint_state_new reg) (taint_state_new reg)"
    by (simp add: alike_def taint_state_new_def)
  ultimately have "alike flt (tn_now (env_at ustr env)) (scope_prefix ustr ctx)
      (taint_run ustr flt (taint_state_new reg) evs)
      (taint_run ustr flt (taint_state_new reg) (purge ustr (scope_prefix ustr ctx) evs))"
    using alike_run [of flt ?t0 _ _ _ ustr evs "tn_now env"] assms(1,3) by simp
  from verdict_alike [OF this] assms(2) show ?thesis by simp
qed

theorem scopes_do_not_interfere_witness:
  "blank (fst (taint_evaluate (env_at unary_uuid (sample_taint_env 1000)) taint_with_defaults
     (flow_call 1 (NetConnect ''203.0.113.9'' 443))
     (taint_run unary_uuid taint_with_defaults (taint_state_new registry_fresh)
        [TaintCall (sample_taint_env 0) (flow_call 2 (FileRead ''/home/u/.ssh/id_rsa''))]))) =
   blank (fst (taint_evaluate (env_at unary_uuid (sample_taint_env 1000)) taint_with_defaults
     (flow_call 1 (NetConnect ''203.0.113.9'' 443)) (taint_state_new registry_fresh)))"
proof -
  have "unary_uuid 2 \<noteq> unary_uuid 1" using unary_uuid_ok by (simp add: uuid_text_ok_def inj_eq)
  then show ?thesis
    using scopes_do_not_interfere
      [of unary_uuid "flow_call 1 (NetConnect ''203.0.113.9'' 443)" "sample_taint_env 1000"
        "[TaintCall (sample_taint_env 0) (flow_call 2 (FileRead ''/home/u/.ssh/id_rsa''))]" taint_with_defaults
        registry_fresh]
    by (simp add: unary_uuid_ok purge_def del: taint_run_simps(2) taint_step.simps)
qed

subsection \<open>The end of a session\<close>

text \<open>
  C26. The end of a session takes exactly its own taint: afterwards the session's scope looks as it
  did before the first call, and every other scope, session or conversation, sees what it saw.
\<close>

theorem session_end_takes_its_own_taint:
  assumes "uuid_text_ok ustr" and "CHR 0x00 \<notin> set s" and "distinct (map fst (ts_registry st))"
  shows "alike flt now s (snd (taint_evict_session_state ustr sc st))
           (if s = ''ses:'' @ ustr (as_uuid sc) then taint_state_new (ts_sessions st) else st)"
proof -
  have "aux_view s (taint_state_new reg) = (None, \<lambda>_. None, None, False)" for reg
    by (simp add: aux_view_def taint_state_new_def)
  moreover define own where "own \<longleftrightarrow> s = ''ses:'' @ ustr (as_uuid sc)"
  moreover have "ts_registry (taint_state_new reg) = []" for reg by (simp add: taint_state_new_def)
  ultimately show ?thesis
    using assms(3) unfolding alike_def own_def [symmetric]
    by (cases own) (simp_all add: evict_view [OF assms(1,2), where sc = sc, folded own_def])
qed

theorem session_end_takes_its_own_taint_witness:
  "alike taint_with_defaults 1000 (''ses:'' @ unary_uuid 1)
     (snd (taint_evict_session_state unary_uuid (SessionScopeKey 1)
        (taint_run unary_uuid taint_with_defaults (taint_state_new registry_fresh)
           [TaintCall (sample_taint_env 0) (flow_call 1 (FileDelete ''/home/u/.ssh/id_rsa''))])))
     (taint_state_new (ts_sessions (taint_run unary_uuid taint_with_defaults (taint_state_new registry_fresh)
           [TaintCall (sample_taint_env 0) (flow_call 1 (FileDelete ''/home/u/.ssh/id_rsa''))])))"
  using session_end_takes_its_own_taint
    [of unary_uuid "''ses:'' @ unary_uuid 1"
      "taint_run unary_uuid taint_with_defaults (taint_state_new registry_fresh)
         [TaintCall (sample_taint_env 0) (flow_call 1 (FileDelete ''/home/u/.ssh/id_rsa''))]"
      taint_with_defaults 1000 "SessionScopeKey 1"]
  by (simp add: unary_uuid_ok taint_evaluate_def Let_def taint_state_new_def)

subsection \<open>The rule on spawned processes\<close>

definition spawn_evidence ::
    "taint_env \<Rightarrow> taint_filter \<Rightarrow> tool_call_context \<Rightarrow> string \<Rightarrow> string list \<Rightarrow> taint_state \<Rightarrow> bool" where
  "spawn_evidence env flt ctx command argv st \<longleftrightarrow>
     argv_path_hits env flt ctx argv st \<noteq> [] \<or> is_pipe_observed env ctx st \<or>
     (\<not> tf_outbound_requires_data_flow flt \<and> outbound_binary_hit env command argv \<noteq> None) \<or>
     command_text_matches_exfil_pattern (exfil_text ctx argv) (tainted_paths_for_scope env ctx st)"

lemma spawn_rule_fires_iff:
  "spawn_rule env flt ctx command argv tainted st \<noteq> None \<longleftrightarrow>
   argv_env_hits env ctx argv st \<noteq> [] \<or> (tainted \<and> spawn_evidence env flt ctx command argv st)"
  by (auto simp: spawn_rule_def spawn_evidence_def split: list.split option.split)

lemma with_spawn_simps [simp]:
  "tf_spawn_data_flow_only (with_spawn_data_flow_only b flt) = b"
  "tf_outbound_requires_data_flow (with_spawn_data_flow_only b flt) = tf_outbound_requires_data_flow flt"
  "get_effective_taint env (with_spawn_data_flow_only b flt) = get_effective_taint env flt"
  "argv_path_hits env (with_spawn_data_flow_only b flt) = argv_path_hits env flt"
  by (simp_all add: with_spawn_data_flow_only_def get_effective_taint_def argv_path_hits_def fun_eq_iff)

lemma score_with_sources [simp]: "fr_score (fst (with_sources env flt ctx r st)) = fr_score r"
  by (simp add: with_sources_def split: prod.split)

lemma legacy_score:
  assumes "get_effective_taint env flt ctx (observed env ctx st) = (eff, st2)"
  shows "fr_score (fst (evaluate_spawn env (with_spawn_data_flow_only False flt) ctx st)) =
     (case eff of TaintHigh \<Rightarrow> 5 | TaintNone \<Rightarrow> 0 | _ \<Rightarrow> 3)"
  using assms by (simp add: evaluate_spawn_def observed_def [symmetric] legacy_spawn_verdict_def Let_def
      split: taint_level.split)

lemma data_flow_score:
  assumes "spawn_parts (call_type ctx) = Some (command, argv)"
    and "get_effective_taint env flt ctx (observed env ctx st) = (eff, st2)"
  shows "fr_score (fst (evaluate_spawn env (with_spawn_data_flow_only True flt) ctx st)) =
     (if argv_env_hits env ctx argv st2 \<noteq> [] \<or>
         ((eff \<noteq> TaintNone \<or> pid_taint_level env ctx st2 \<noteq> None) \<and> spawn_evidence env flt ctx command argv st2)
      then 3 else 0)"
proof -
  let ?on = "with_spawn_data_flow_only True flt"
  let ?has = "eff \<noteq> TaintNone \<or> pid_taint_level env ctx st2 \<noteq> None"
  have flow: "taint_on_spawn_data_flow env ?on ctx (observed env ctx st) = (spawn_rule env ?on ctx command argv ?has st2, st2)"
    using assms by (simp add: taint_on_spawn_data_flow_def)
  have ev: "spawn_evidence env ?on ctx command argv st2 = spawn_evidence env flt ctx command argv st2"
    by (simp add: spawn_evidence_def)
  show ?thesis
  proof (cases "spawn_rule env ?on ctx command argv ?has st2")
    case None
    with spawn_rule_fires_iff [of env ?on ctx command argv ?has st2] flow ev show ?thesis
      by (simp add: evaluate_spawn_def observed_def [symmetric] Let_def)
  next
    case (Some r)
    then have "fr_score r = 3" using spawn_rule_rule by (fastforce simp: spawn_taint_match_def)
    with Some spawn_rule_fires_iff [of env ?on ctx command argv ?has st2] flow ev show ?thesis
      by (simp add: evaluate_spawn_def observed_def [symmetric] Let_def)
  qed
qed



end
