(* ===== verification/Session_Registry.thy ===== *)
theory Session_Registry
  imports Prelude
begin

section \<open>Admission of supervised sessions\<close>

text \<open>
  \<open>SupervisorRegistry\<close> of \<open>crates/grith-supervisor/src/supervisor/session_state.rs\<close>: live
  sessions, capacity reservations held between the request for a seat and the registration of the
  spawned process, the seat cap, and the two conditions under which nobody is admitted. The two
  hash maps are association lists. A session carries here what the registry and its summaries
  read; the rest of \<open>SupervisorSession\<close> belongs to the event handler. The clock, the fresh
  identifier of a lease and the liveness of a process are arguments.
\<close>

record registered_session =
  rs_id :: uuid
  rs_tool_name :: string
  rs_project_name :: "string option"
  rs_cwd :: "string option"
  rs_tty :: "string option"
  rs_root_pid :: u32
  rs_started_at :: instant
  rs_last_synced_at :: instant
  rs_last_activity_at :: instant

record session_summary =
  sm_id :: uuid
  sm_tool_name :: string
  sm_project_name :: "string option"
  sm_cwd :: "string option"
  sm_tty :: "string option"
  sm_root_pid :: u32
  sm_uptime_seconds :: nat
  sm_last_activity_seconds :: nat

record session_reservation =
  rv_id :: uuid
  rv_tool_name :: string
  rv_profile_name :: "string option"
  rv_created_at :: instant

record supervisor_registry =
  sr_sessions :: "(uuid \<times> registered_session) list"
  sr_reservations :: "(uuid \<times> session_reservation) list"
  sr_max_sessions :: nat
  sr_audit_quarantine :: "string option"
  sr_audit_read_only :: "string option"

datatype admission_error =
    SessionLimitReached nat
  | AuditQuarantined string
  | AuditReadOnly string

definition RESERVATION_TTL :: duration where
  "RESERVATION_TTL = secs 30"

definition STALE_THRESHOLD :: duration where
  "STALE_THRESHOLD = secs 30"

text \<open>\<open>Instant::elapsed\<close> saturates at zero.\<close>

definition elapsed :: "instant \<Rightarrow> instant \<Rightarrow> duration" where
  "elapsed now t = nat (now - t)"

definition session_new :: "instant \<Rightarrow> uuid \<Rightarrow> string \<Rightarrow> u32 \<Rightarrow> registered_session" where
  "session_new now fresh tool pid =
     \<lparr> rs_id = fresh, rs_tool_name = tool, rs_project_name = None, rs_cwd = None, rs_tty = None,
       rs_root_pid = pid, rs_started_at = now, rs_last_synced_at = now, rs_last_activity_at = now \<rparr>"

definition session_summary_of :: "instant \<Rightarrow> registered_session \<Rightarrow> session_summary" where
  "session_summary_of now s =
     \<lparr> sm_id = rs_id s, sm_tool_name = rs_tool_name s, sm_project_name = rs_project_name s, sm_cwd = rs_cwd s,
       sm_tty = rs_tty s, sm_root_pid = rs_root_pid s,
       sm_uptime_seconds = elapsed now (rs_started_at s) div 1000000000,
       sm_last_activity_seconds = elapsed now (rs_last_activity_at s) div 1000000000 \<rparr>"

definition supervisor_registry_new :: "nat \<Rightarrow> supervisor_registry" where
  "supervisor_registry_new max_concurrent =
     \<lparr> sr_sessions = [], sr_reservations = [], sr_max_sessions = max_concurrent,
       sr_audit_quarantine = None, sr_audit_read_only = None \<rparr>"

definition set_audit_quarantine :: "string option \<Rightarrow> supervisor_registry \<Rightarrow> supervisor_registry" where
  "set_audit_quarantine reason reg = reg\<lparr>sr_audit_quarantine := reason\<rparr>"

definition set_audit_read_only :: "string option \<Rightarrow> supervisor_registry \<Rightarrow> supervisor_registry" where
  "set_audit_read_only reason reg = reg\<lparr>sr_audit_read_only := reason\<rparr>"

definition set_max_sessions :: "nat \<Rightarrow> supervisor_registry \<Rightarrow> supervisor_registry" where
  "set_max_sessions n reg = reg\<lparr>sr_max_sessions := n\<rparr>"

definition check_audit_admissible :: "supervisor_registry \<Rightarrow> admission_error option" where
  "check_audit_admissible reg =
     (case sr_audit_quarantine reg of
        Some reason \<Rightarrow> Some (AuditQuarantined reason)
      | None \<Rightarrow> (case sr_audit_read_only reg of
                   Some reason \<Rightarrow> Some (AuditReadOnly reason)
                 | None \<Rightarrow> None))"

definition occupancy :: "supervisor_registry \<Rightarrow> nat" where
  "occupancy reg = length (sr_sessions reg) + length (sr_reservations reg)"

definition reservation_count :: "supervisor_registry \<Rightarrow> nat" where
  "reservation_count reg = length (sr_reservations reg)"

definition session_count :: "supervisor_registry \<Rightarrow> nat" where
  "session_count reg = length (sr_sessions reg)"

definition reap_expired_reservations :: "instant \<Rightarrow> supervisor_registry \<Rightarrow> nat \<times> supervisor_registry" where
  "reap_expired_reservations now reg =
     (let kept = filter (\<lambda>(_, r). elapsed now (rv_created_at r) < RESERVATION_TTL) (sr_reservations reg)
      in (length (sr_reservations reg) - length kept, reg\<lparr>sr_reservations := kept\<rparr>))"

definition session_dead :: "(u32 \<Rightarrow> bool) \<Rightarrow> instant \<Rightarrow> registered_session \<Rightarrow> bool" where
  "session_dead alive now s \<longleftrightarrow> elapsed now (rs_last_synced_at s) > STALE_THRESHOLD \<and> \<not> alive (rs_root_pid s)"

definition reap_dead :: "(u32 \<Rightarrow> bool) \<Rightarrow> instant \<Rightarrow> supervisor_registry \<Rightarrow> nat \<times> supervisor_registry" where
  "reap_dead alive now reg =
     (let dead = map fst (filter (\<lambda>(_, s). session_dead alive now s) (sr_sessions reg))
      in (length dead, reg\<lparr>sr_sessions := fold assoc_remove dead (sr_sessions reg)\<rparr>))"

definition register_session ::
    "instant \<Rightarrow> registered_session \<Rightarrow> supervisor_registry \<Rightarrow> (admission_error + unit) \<times> supervisor_registry" where
  "register_session now s reg =
     (case check_audit_admissible reg of
        Some e \<Rightarrow> (Inl e, reg)
      | None \<Rightarrow>
          (let reg' = snd (reap_expired_reservations now reg)
           in if occupancy reg' \<ge> sr_max_sessions reg' then (Inl (SessionLimitReached (sr_max_sessions reg')), reg')
              else (Inr (), reg'\<lparr>sr_sessions := assoc_insert (rs_id s) s (sr_sessions reg')\<rparr>)))"

definition reserve ::
    "(u32 \<Rightarrow> bool) \<Rightarrow> instant \<Rightarrow> uuid \<Rightarrow> string \<Rightarrow> string option \<Rightarrow> supervisor_registry \<Rightarrow>
     (admission_error + uuid) \<times> supervisor_registry" where
  "reserve alive now fresh tool profile reg =
     (case check_audit_admissible reg of
        Some e \<Rightarrow> (Inl e, reg)
      | None \<Rightarrow>
          (let reg1 = snd (reap_expired_reservations now reg);
               reg2 = (if occupancy reg1 \<ge> sr_max_sessions reg1 then snd (reap_dead alive now reg1) else reg1)
           in if occupancy reg2 \<ge> sr_max_sessions reg2 then (Inl (SessionLimitReached (sr_max_sessions reg2)), reg2)
              else (Inr fresh,
                    reg2\<lparr>sr_reservations :=
                      assoc_insert fresh
                        \<lparr> rv_id = fresh, rv_tool_name = tool, rv_profile_name = profile, rv_created_at = now \<rparr>
                        (sr_reservations reg2)\<rparr>)))"

definition activate ::
    "instant \<Rightarrow> uuid \<Rightarrow> registered_session \<Rightarrow> supervisor_registry \<Rightarrow> (admission_error + unit) \<times> supervisor_registry" where
  "activate now lease s reg =
     (case check_audit_admissible reg of
        Some e \<Rightarrow> (Inl e, reg)
      | None \<Rightarrow>
          (let released = reg\<lparr>sr_reservations := assoc_remove lease (sr_reservations reg)\<rparr>;
               insert_session = (\<lambda>r. r\<lparr>sr_sessions := assoc_insert (rs_id s) s (sr_sessions r)\<rparr>)
           in if map_of (sr_sessions reg) (rs_id s) \<noteq> None then (Inr (), released)
              else if map_of (sr_reservations reg) lease \<noteq> None then (Inr (), insert_session released)
              else (let reg' = snd (reap_expired_reservations now released)
                    in if occupancy reg' \<ge> sr_max_sessions reg'
                       then (Inl (SessionLimitReached (sr_max_sessions reg')), reg')
                       else (Inr (), insert_session reg'))))"

definition cancel :: "uuid \<Rightarrow> supervisor_registry \<Rightarrow> bool \<times> supervisor_registry" where
  "cancel lease reg =
     (map_of (sr_reservations reg) lease \<noteq> None,
      reg\<lparr>sr_reservations := assoc_remove lease (sr_reservations reg)\<rparr>)"

definition get_session :: "uuid \<Rightarrow> supervisor_registry \<Rightarrow> registered_session option" where
  "get_session i reg = map_of (sr_sessions reg) i"

definition remove_session :: "uuid \<Rightarrow> supervisor_registry \<Rightarrow> registered_session option \<times> supervisor_registry" where
  "remove_session i reg = (map_of (sr_sessions reg) i, reg\<lparr>sr_sessions := assoc_remove i (sr_sessions reg)\<rparr>)"

definition list_sessions :: "instant \<Rightarrow> supervisor_registry \<Rightarrow> session_summary list" where
  "list_sessions now reg = map (\<lambda>(_, s). session_summary_of now s) (sr_sessions reg)"

text \<open>\<open>get_mut\<close> hands out the stored session for an update in place, which keeps its key.\<close>

definition update_session :: "uuid \<Rightarrow> (registered_session \<Rightarrow> registered_session) \<Rightarrow> supervisor_registry \<Rightarrow> supervisor_registry" where
  "update_session i f reg =
     (case map_of (sr_sessions reg) i of
        None \<Rightarrow> reg
      | Some s \<Rightarrow> reg\<lparr>sr_sessions := assoc_insert i (f s) (sr_sessions reg)\<rparr>)"

subsection \<open>Throttled audit of foreign system calls\<close>

fun is_power_of_two_fuel :: "nat \<Rightarrow> nat \<Rightarrow> bool" where
  "is_power_of_two_fuel 0 n = (n = 1)"
| "is_power_of_two_fuel (Suc k) n = (n = 1 \<or> (n > 1 \<and> even n \<and> is_power_of_two_fuel k (n div 2)))"

text \<open>\<open>u64::is_power_of_two\<close>: at most 63 halvings.\<close>

definition is_power_of_two :: "nat \<Rightarrow> bool" where
  "is_power_of_two n = is_power_of_two_fuel 63 n"

definition record_foreign_abi_denial :: "nat \<Rightarrow> bool \<times> nat" where
  "record_foreign_abi_denial denied = (let n = denied + 1 in (n \<le> 8 \<or> is_power_of_two n, n))"

subsection \<open>Requests to the registry\<close>

datatype registry_request =
    RqRegister registered_session
  | RqReserve uuid string "string option"
  | RqActivate uuid registered_session
  | RqCancel uuid
  | RqRemove uuid
  | RqReapExpired
  | RqReapDead
  | RqTouch uuid "registered_session \<Rightarrow> registered_session"
  | RqSetMax nat
  | RqQuarantine "string option"
  | RqReadOnly "string option"

fun request_step :: "(u32 \<Rightarrow> bool) \<Rightarrow> supervisor_registry \<Rightarrow> instant \<times> registry_request \<Rightarrow> supervisor_registry" where
  "request_step alive reg (now, RqRegister s) = snd (register_session now s reg)"
| "request_step alive reg (now, RqReserve fresh tool prof) = snd (reserve alive now fresh tool prof reg)"
| "request_step alive reg (now, RqActivate lease s) = snd (activate now lease s reg)"
| "request_step alive reg (now, RqCancel lease) = snd (cancel lease reg)"
| "request_step alive reg (now, RqRemove i) = snd (remove_session i reg)"
| "request_step alive reg (now, RqReapExpired) = snd (reap_expired_reservations now reg)"
| "request_step alive reg (now, RqReapDead) = snd (reap_dead alive now reg)"
| "request_step alive reg (now, RqTouch i f) = update_session i f reg"
| "request_step alive reg (now, RqSetMax n) = set_max_sessions n reg"
| "request_step alive reg (now, RqQuarantine r) = set_audit_quarantine r reg"
| "request_step alive reg (now, RqReadOnly r) = set_audit_read_only r reg"

definition request_run ::
    "(u32 \<Rightarrow> bool) \<Rightarrow> supervisor_registry \<Rightarrow> (instant \<times> registry_request) list \<Rightarrow> supervisor_registry" where
  "request_run alive = foldl (request_step alive)"

lemma request_run_simps [simp]:
  "request_run alive reg [] = reg"
  "request_run alive reg (q # qs) = request_run alive (request_step alive reg q) qs"
  by (simp_all add: request_run_def)

lemmas registry_ops =
  register_session_def reserve_def activate_def cancel_def remove_session_def reap_expired_reservations_def
  reap_dead_def update_session_def set_max_sessions_def set_audit_quarantine_def set_audit_read_only_def

subsection \<open>The cap\<close>

lemma length_assoc_insert_le: "length (assoc_insert k v xs) \<le> Suc (length xs)"
  by (simp add: length_assoc_insert)

lemma length_assoc_remove_le: "length (assoc_remove k xs) \<le> length xs"
  by (simp add: assoc_remove_def)

lemma length_assoc_remove_less: "map_of xs k \<noteq> None \<Longrightarrow> length (assoc_remove k xs) < length xs"
  by (induction xs) (auto simp: assoc_remove_def less_Suc_eq_le le_imp_less_Suc split: if_splits)

lemma length_fold_remove_le: "length (fold assoc_remove ks xs) \<le> length xs"
  by (induction ks arbitrary: xs) (auto intro: order_trans length_assoc_remove_le)

lemma insert_known: "map_of xs k \<noteq> None \<Longrightarrow> length (assoc_insert k v xs) = length xs"
  by (auto simp: length_assoc_insert map_of_eq_None_iff)

lemma reap_expired_occupancy: "occupancy (snd (reap_expired_reservations now reg)) \<le> occupancy reg"
  by (simp add: occupancy_def reap_expired_reservations_def Let_def)

lemma reap_dead_occupancy: "occupancy (snd (reap_dead alive now reg)) \<le> occupancy reg"
  by (simp add: occupancy_def reap_dead_def Let_def length_fold_remove_le)

lemma reap_fields [simp]:
  "sr_max_sessions (snd (reap_expired_reservations now reg)) = sr_max_sessions reg"
  "sr_sessions (snd (reap_expired_reservations now reg)) = sr_sessions reg"
  "sr_max_sessions (snd (reap_dead alive now reg)) = sr_max_sessions reg"
  "sr_reservations (snd (reap_dead alive now reg)) = sr_reservations reg"
  by (simp_all add: reap_expired_reservations_def reap_dead_def Let_def)

lemma register_occupancy:
  "occupancy (snd (register_session now s reg)) \<le> max (occupancy reg) (sr_max_sessions reg)"
proof -
  let ?r = "snd (reap_expired_reservations now reg)"
  have "occupancy (?r\<lparr>sr_sessions := assoc_insert (rs_id s) s (sr_sessions ?r)\<rparr>) \<le> Suc (occupancy ?r)"
    using length_assoc_insert_le [of "rs_id s" s "sr_sessions ?r"] by (simp add: occupancy_def)
  with reap_expired_occupancy [of now reg] show ?thesis
    by (auto simp: register_session_def Let_def le_max_iff_disj split: option.split)
qed

lemma reserve_occupancy:
  "occupancy (snd (reserve alive now fresh tool prof reg)) \<le> max (occupancy reg) (sr_max_sessions reg)"
proof -
  let ?r1 = "snd (reap_expired_reservations now reg)"
  define r2 where "r2 = (if occupancy ?r1 \<ge> sr_max_sessions ?r1 then snd (reap_dead alive now ?r1) else ?r1)"
  have le: "occupancy r2 \<le> occupancy reg" "sr_max_sessions r2 = sr_max_sessions reg"
    using reap_expired_occupancy [of now reg] reap_dead_occupancy [of alive now ?r1] by (auto simp: r2_def)
  have "occupancy (r2\<lparr>sr_reservations := assoc_insert fresh v (sr_reservations r2)\<rparr>) \<le> Suc (occupancy r2)" for v
    using length_assoc_insert_le [of fresh v "sr_reservations r2"] by (simp add: occupancy_def)
  then have "occupancy (r2\<lparr>sr_reservations := assoc_insert fresh v (sr_reservations r2)\<rparr>) \<le> sr_max_sessions reg"
    if "occupancy r2 < sr_max_sessions reg" for v
    using that by (meson Suc_leI order_trans)
  then show ?thesis
    using le unfolding reserve_def Let_def r2_def [symmetric]
    by (simp add: le_max_iff_disj split: option.split)
qed

lemma activate_occupancy:
  "occupancy (snd (activate now lease s reg)) \<le> max (occupancy reg) (sr_max_sessions reg)"
proof -
  let ?rel = "reg\<lparr>sr_reservations := assoc_remove lease (sr_reservations reg)\<rparr>"
  let ?ins = "\<lambda>r. r\<lparr>sr_sessions := assoc_insert (rs_id s) s (sr_sessions r)\<rparr>"
  let ?r = "snd (reap_expired_reservations now ?rel)"
  have rel: "occupancy ?rel \<le> occupancy reg"
    by (simp add: occupancy_def length_assoc_remove_le)
  have ins: "occupancy (?ins r) \<le> Suc (occupancy r)" for r
    using length_assoc_insert_le [of "rs_id s" s "sr_sessions r"] by (simp add: occupancy_def)
  have "occupancy ?rel < occupancy reg" if "map_of (sr_reservations reg) lease \<noteq> None"
    using length_assoc_remove_less [OF that] by (simp add: occupancy_def)
  then have held: "occupancy (?ins ?rel) \<le> occupancy reg" if "map_of (sr_reservations reg) lease \<noteq> None"
    using that ins [of ?rel] by linarith
  have r: "occupancy ?r \<le> occupancy reg" using reap_expired_occupancy [of now ?rel] rel by simp
  show ?thesis
    using held rel r ins [of ?r]
    by (auto simp: activate_def Let_def le_max_iff_disj not_le split: option.split)
qed

lemma update_occupancy [simp]: "occupancy (update_session i f reg) = occupancy reg"
  by (auto simp: update_session_def occupancy_def insert_known split: option.split)

lemma cancel_occupancy: "occupancy (snd (cancel lease reg)) \<le> occupancy reg"
  by (simp add: cancel_def occupancy_def length_assoc_remove_le)

lemma remove_occupancy: "occupancy (snd (remove_session i reg)) \<le> occupancy reg"
  by (simp add: remove_session_def occupancy_def length_assoc_remove_le)

lemma set_occupancy [simp]:
  "occupancy (set_max_sessions n reg) = occupancy reg" "occupancy (set_audit_quarantine r reg) = occupancy reg"
  "occupancy (set_audit_read_only r reg) = occupancy reg"
  by (simp_all add: set_max_sessions_def set_audit_quarantine_def set_audit_read_only_def occupancy_def)

lemma step_occupancy: "occupancy (request_step alive reg q) \<le> max (occupancy reg) (sr_max_sessions reg)"
proof (cases q)
  case (Pair now rq)
  then show ?thesis
    by (cases rq) (simp_all add: register_occupancy reserve_occupancy activate_occupancy reap_expired_occupancy
        reap_dead_occupancy cancel_occupancy remove_occupancy max.coboundedI1)
qed

lemma step_cap: "sr_max_sessions (request_step alive reg q) = (case snd q of RqSetMax n \<Rightarrow> n | _ \<Rightarrow> sr_max_sessions reg)"
proof (cases q)
  case (Pair now rq)
  then show ?thesis
    by (cases rq) (simp_all add: registry_ops Let_def split: option.split)
qed

text \<open>
  C14. The seat cap holds at every moment: whatever requests arrive in whatever order, with leases
  that expire, are cancelled or activated late and sessions that die, live sessions and outstanding
  leases together never exceed the cap; and after the cap was lowered below the present occupancy,
  no request raises the occupancy any further.
\<close>

theorem admission_never_overshoots:
  assumes "\<forall>(now, rq) \<in> set qs. \<forall>n. rq \<noteq> RqSetMax n"
  shows "occupancy (request_run alive reg qs) \<le> max (occupancy reg) (sr_max_sessions reg) \<and>
         sr_max_sessions (request_run alive reg qs) = sr_max_sessions reg"
  using assms
proof (induction qs arbitrary: reg)
  case (Cons q qs)
  have "sr_max_sessions (request_step alive reg q) = sr_max_sessions reg"
  proof -
    have "\<forall>n. snd q \<noteq> RqSetMax n" using Cons.prems by (cases q) auto
    with step_cap [of alive reg q] show ?thesis by (cases "snd q") simp_all
  qed
  with Cons.IH [of "request_step alive reg q"] step_occupancy [of alive reg q] Cons.prems
  show ?case by (auto intro: order_trans)
qed simp

theorem admission_never_overshoots_witness:
  "occupancy (request_run (\<lambda>_. True) (supervisor_registry_new 1)
     [(0, RqReserve 7 ''claude'' None), (1, RqRegister (session_new 1 5 ''codex'' 42)),
      (2, RqActivate 7 (session_new 2 6 ''claude'' 43))]) \<le> 1"
  using admission_never_overshoots
    [of "[(0, RqReserve 7 ''claude'' None), (1, RqRegister (session_new 1 5 ''codex'' 42)),
      (2, RqActivate 7 (session_new 2 6 ''claude'' 43))]" "\<lambda>_. True" "supervisor_registry_new 1"]
  by (simp add: supervisor_registry_new_def occupancy_def del: request_run_simps)

subsection \<open>Nobody is admitted without an audit trail\<close>

lemma dom_fold_remove: "fst ` set (fold assoc_remove ks xs) \<subseteq> fst ` set xs"
proof (induction ks arbitrary: xs)
  case (Cons k ks)
  have "fst ` set (assoc_remove k xs) \<subseteq> fst ` set xs" by (auto simp: assoc_remove_def)
  with Cons.IH [of "assoc_remove k xs"] show ?case by simp
qed simp

definition unrecorded :: "supervisor_registry \<Rightarrow> bool" where
  "unrecorded reg \<longleftrightarrow> check_audit_admissible reg \<noteq> None"

definition seats :: "supervisor_registry \<Rightarrow> uuid set \<times> uuid set" where
  "seats reg = (fst ` set (sr_sessions reg), fst ` set (sr_reservations reg))"

definition seats_le :: "supervisor_registry \<Rightarrow> supervisor_registry \<Rightarrow> bool" where
  "seats_le a b \<longleftrightarrow> fst (seats a) \<subseteq> fst (seats b) \<and> snd (seats a) \<subseteq> snd (seats b)"

lemma unrecorded_iff: "unrecorded reg \<longleftrightarrow> sr_audit_quarantine reg \<noteq> None \<or> sr_audit_read_only reg \<noteq> None"
  by (auto simp: unrecorded_def check_audit_admissible_def split: option.split)

lemma unrecorded_step:
  assumes "unrecorded reg" and "\<forall>r. snd q \<noteq> RqQuarantine r \<and> snd q \<noteq> RqReadOnly r"
  shows "unrecorded (request_step alive reg q) \<and> seats_le (request_step alive reg q) reg"
proof (cases q)
  case (Pair now rq)
  obtain e where e: "check_audit_admissible reg = Some e" using assms(1) by (auto simp: unrecorded_def)
  have audit: "sr_audit_quarantine reg' = sr_audit_quarantine reg \<Longrightarrow> sr_audit_read_only reg' = sr_audit_read_only reg \<Longrightarrow>
      unrecorded reg'" for reg'
    using assms(1) by (simp add: unrecorded_iff)
  have known: "map_of xs k \<noteq> None \<Longrightarrow> insert k (fst ` set xs) = fst ` set xs" for xs :: "(uuid \<times> registered_session) list" and k
    by (auto simp: map_of_eq_None_iff)
  have "unrecorded (request_step alive reg q)"
    by (rule audit; cases rq) (use Pair e assms(2) in \<open>simp_all add: registry_ops Let_def split: option.split\<close>)
  moreover have "seats_le (request_step alive reg q) reg"
  proof (cases rq)
    case RqReapDead
    with Pair dom_fold_remove show ?thesis by (simp add: reap_dead_def seats_le_def seats_def Let_def)
  qed (use Pair e assms(2) in
      \<open>auto simp: registry_ops seats_le_def seats_def Let_def assoc_remove_def known split: option.split\<close>)
  ultimately show ?thesis ..
qed

text \<open>
  C27. While the audit chain is quarantined or the database is read-only, nobody gets in: requests of
  every kind may release seats, but no identifier becomes a session and none becomes a lease.
\<close>

theorem no_admission_without_audit:
  assumes "check_audit_admissible reg \<noteq> None"
    and "\<forall>(now, rq) \<in> set qs. \<forall>r. rq \<noteq> RqQuarantine r \<and> rq \<noteq> RqReadOnly r"
  shows "fst ` set (sr_sessions (request_run alive reg qs)) \<subseteq> fst ` set (sr_sessions reg) \<and>
         fst ` set (sr_reservations (request_run alive reg qs)) \<subseteq> fst ` set (sr_reservations reg)"
proof -
  have "unrecorded reg \<Longrightarrow> seats_le (request_run alive reg qs) reg"
    using assms(2)
  proof (induction qs arbitrary: reg)
    case (Cons q qs)
    have "\<forall>r. snd q \<noteq> RqQuarantine r \<and> snd q \<noteq> RqReadOnly r" using Cons.prems(2) by (cases q) auto
    from unrecorded_step [OF Cons.prems(1) this, of alive] Cons.IH [of "request_step alive reg q"] Cons.prems(2)
    show ?case unfolding seats_le_def by auto
  qed (simp add: seats_le_def)
  with assms(1) show ?thesis by (simp add: unrecorded_def seats_le_def seats_def)
qed

theorem no_admission_without_audit_witness:
  "sr_sessions (request_run (\<lambda>_. True) (set_audit_quarantine (Some ''chain broken'') (supervisor_registry_new 4))
     [(0, RqReserve 7 ''claude'' None), (1, RqRegister (session_new 1 5 ''codex'' 42))]) = []"
  using no_admission_without_audit
    [of "set_audit_quarantine (Some ''chain broken'') (supervisor_registry_new 4)"
      "[(0, RqReserve 7 ''claude'' None), (1, RqRegister (session_new 1 5 ''codex'' 42))]" "\<lambda>_. True"]
  by (simp add: set_audit_quarantine_def supervisor_registry_new_def check_audit_admissible_def del: request_run_simps)

subsection \<open>Leases\<close>

text \<open>
  Activation is safe to retry: once a request has turned a lease into a session, repeating it,
  because its answer was lost, succeeds and changes nothing.
\<close>

theorem activate_is_retry_safe:
  assumes "activate now lease s reg = (Inr (), reg')" and "now \<le> now'"
  shows "activate now' lease s reg' = (Inr (), reg')"
proof -
  have audit: "check_audit_admissible reg = None"
    using assms(1) by (auto simp: activate_def split: option.splits)
  have idem: "assoc_remove k (assoc_remove k xs) = assoc_remove k xs" "assoc_remove k (filter P (assoc_remove k xs)) = filter P (assoc_remove k xs)"
    for k and xs :: "(uuid \<times> session_reservation) list" and P
    by (auto simp: assoc_remove_def intro: filter_cong)
  show ?thesis
    using assms(1) audit idem
    by (auto simp: activate_def reap_expired_reservations_def check_audit_admissible_def Let_def
        split: if_splits option.splits)
qed

theorem activate_is_retry_safe_witness:
  "activate 9 7 (session_new 2 6 ''claude'' 43)
     (snd (activate 2 7 (session_new 2 6 ''claude'' 43) (supervisor_registry_new 1))) =
   (Inr (), snd (activate 2 7 (session_new 2 6 ''claude'' 43) (supervisor_registry_new 1)))"
proof (rule activate_is_retry_safe)
  show "activate 2 7 (session_new 2 6 ''claude'' 43) (supervisor_registry_new 1) =
      (Inr (), snd (activate 2 7 (session_new 2 6 ''claude'' 43) (supervisor_registry_new 1)))"
    by (simp add: activate_def supervisor_registry_new_def check_audit_admissible_def reap_expired_reservations_def
        occupancy_def assoc_remove_def)
qed simp

fun leaves_lease :: "uuid \<Rightarrow> registry_request \<Rightarrow> bool" where
  "leaves_lease lease (RqReserve fresh _ _) = (fresh \<noteq> lease)"
| "leaves_lease lease (RqActivate l _) = (l \<noteq> lease)"
| "leaves_lease lease (RqCancel l) = (l \<noteq> lease)"
| "leaves_lease lease _ = True"

lemma map_of_filter_keep:
  "map_of xs k = Some v \<Longrightarrow> P (k, v) \<Longrightarrow> \<forall>(k', v') \<in> set xs. k' = k \<longrightarrow> v' = v \<Longrightarrow> map_of (filter P xs) k = Some v"
  by (induction xs) auto

definition leases_wf :: "supervisor_registry \<Rightarrow> bool" where
  "leases_wf reg \<longleftrightarrow> distinct (map fst (sr_reservations reg))"

lemma leases_wf_step: "leases_wf reg \<Longrightarrow> leases_wf (request_step alive reg q)"
proof (cases q)
  case (Pair now rq)
  assume "leases_wf reg"
  with Pair show ?thesis
    by (cases rq) (auto simp: registry_ops leases_wf_def Let_def split: option.split)
qed

lemma reap_keeps_lease:
  assumes "leases_wf reg" and "map_of (sr_reservations reg) lease = Some r" and "elapsed now (rv_created_at r) < RESERVATION_TTL"
  shows "map_of (sr_reservations (snd (reap_expired_reservations now reg))) lease = Some r"
proof -
  have "\<forall>(k', v') \<in> set (sr_reservations reg). k' = lease \<longrightarrow> v' = r"
    using assms(1) map_of_SomeD [OF assms(2)] eq_key_imp_eq_value unfolding leases_wf_def by fastforce
  from map_of_filter_keep [OF assms(2) _ this] assms(3) show ?thesis
    by (simp add: reap_expired_reservations_def Let_def)
qed

lemma lease_step:
  assumes "leases_wf reg" and "map_of (sr_reservations reg) lease = Some r" and "leaves_lease lease (snd q)"
    and "elapsed (fst q) (rv_created_at r) < RESERVATION_TTL"
  shows "map_of (sr_reservations (request_step alive reg q)) lease = Some r"
proof (cases q)
  case (Pair now rq)
  note reap = reap_keeps_lease [OF assms(1,2), of now]
  have dead: "sr_reservations (snd (reap_dead alive now x)) = sr_reservations x" for x
    by (simp add: reap_dead_def Let_def)
  show ?thesis
  proof (cases rq)
    case (RqActivate l s)
    let ?rel = "reg\<lparr>sr_reservations := assoc_remove l (sr_reservations reg)\<rparr>"
    have "leases_wf ?rel" "map_of (sr_reservations ?rel) lease = Some r"
      using assms RqActivate Pair by (simp_all add: leases_wf_def)
    from reap_keeps_lease [OF this, of now] assms RqActivate Pair show ?thesis
      by (auto simp: activate_def Let_def split: option.split)
  qed (use Pair assms reap in
      \<open>auto simp: register_session_def reserve_def cancel_def remove_session_def update_session_def dead
        set_max_sessions_def set_audit_quarantine_def set_audit_read_only_def Let_def split: option.split\<close>)
qed

lemma lease_run:
  assumes "leases_wf reg" and "map_of (sr_reservations reg) lease = Some r"
    and "\<forall>(now, rq) \<in> set qs. leaves_lease lease rq \<and> elapsed now (rv_created_at r) < RESERVATION_TTL"
  shows "map_of (sr_reservations (request_run alive reg qs)) lease = Some r"
  using assms
proof (induction qs arbitrary: reg)
  case (Cons q qs)
  have "map_of (sr_reservations (request_step alive reg q)) lease = Some r"
    using lease_step [OF Cons.prems(1,2), of q alive] Cons.prems(3) by (cases q) auto
  with Cons.IH [OF leases_wf_step [OF Cons.prems(1)]] Cons.prems(3) show ?case by simp
qed simp



subsection \<open>How many foreign calls are written down\<close>

lemma power_of_two_fuel: "n < 2 ^ Suc k \<Longrightarrow> is_power_of_two_fuel k n \<longleftrightarrow> (\<exists>j. n = 2 ^ j)"
proof (induction k arbitrary: n)
  case 0
  then have "n = 0 \<or> n = 1" by auto
  then show ?case by (auto intro: exI [of _ "0 :: nat"])
next
  case (Suc k)
  show ?case
  proof (cases "n > 1 \<and> even n")
    case True
    then obtain m where m: "n = 2 * m" by (auto elim: evenE)
    have "(\<exists>j. n = 2 ^ j) \<longleftrightarrow> (\<exists>j. m = 2 ^ j)"
    proof
      assume "\<exists>j. n = 2 ^ j"
      then obtain j where j: "n = 2 ^ j" by blast
      with True m show "\<exists>j. m = 2 ^ j" by (cases j) auto
    next
      assume "\<exists>j. m = 2 ^ j"
      with m show "\<exists>j. n = 2 ^ j" by (metis power_Suc)
    qed
    with True m Suc.IH [of m] Suc.prems show ?thesis by simp
  next
    case False
    have "n = 1" if "n = 2 ^ j" for j
    proof (cases j)
      case (Suc i)
      have "(1 :: nat) \<le> 2 ^ i" by simp
      with that Suc False show ?thesis by simp
    qed (use that in simp)
    with False show ?thesis by (auto intro: exI [of _ 0])
  qed
qed

lemma is_power_of_two_iff: "n < 2 ^ 64 \<Longrightarrow> is_power_of_two n \<longleftrightarrow> (\<exists>j. n = 2 ^ j)"
  using power_of_two_fuel [of n 63] by (simp add: is_power_of_two_def)

fun denials_written :: "nat \<Rightarrow> nat" where
  "denials_written 0 = 0"
| "denials_written (Suc n) = denials_written n + (if fst (record_foreign_abi_denial n) then 1 else 0)"

lemma denials_between:
  assumes "8 \<le> (2 :: nat) ^ k" and "Suc k < 64" and "d \<le> 2 ^ k"
  shows "denials_written (2 ^ k + d) = denials_written (2 ^ k) + (if d = 2 ^ k then 1 else 0)"
  using assms(3)
proof (induction d)
  case (Suc d)
  let ?n = "2 ^ k + Suc d"
  have lt: "?n < 2 ^ 64"
  proof -
    have "?n \<le> 2 ^ Suc k" using Suc.prems by simp
    also have "\<dots> < 2 ^ 64" using assms(2) by (intro power_strict_increasing) auto
    finally show ?thesis .
  qed
  have "(\<exists>j. ?n = 2 ^ j) \<longleftrightarrow> Suc d = 2 ^ k"
  proof
    assume "\<exists>j. ?n = 2 ^ j"
    then obtain j where j: "?n = 2 ^ j" by blast
    then have "(2 :: nat) ^ k < 2 ^ j" by linarith
    then have "k < j" by (rule power_less_imp_less_exp [rotated]) simp
    then have "Suc k \<le> j" by (rule Suc_leI)
    then have "(2 :: nat) ^ Suc k \<le> 2 ^ j" by (intro power_increasing) auto
    with j Suc.prems show "Suc d = 2 ^ k" by simp
  next
    assume "Suc d = 2 ^ k"
    then have "?n = 2 ^ Suc k" by simp
    then show "\<exists>j. ?n = 2 ^ j" by blast
  qed
  with lt Suc assms(1) show ?case
    by (auto simp: record_foreign_abi_denial_def is_power_of_two_iff Let_def)
qed simp

text \<open>
  The audit of foreign system calls is logarithmic: of the first two to the power \<open>k\<close> denied
  calls of a session exactly \<open>k + 5\<close> are written down, for every \<open>k\<close> from 3 to 62, so a
  process that issues such calls in a loop cannot flood the log.
\<close>

theorem foreign_denials_are_logarithmic:
  assumes "3 \<le> k" and "k < 63"
  shows "denials_written (2 ^ k) = k + 5"
  using assms
proof (induction k rule: nat_induct_at_least)
  case base
  show ?case by (simp add: numeral_eq_Suc record_foreign_abi_denial_def)
next
  case (Suc k)
  have "(2 :: nat) ^ 3 \<le> 2 ^ k" using Suc.hyps by (intro power_increasing) auto
  then show ?case
    using denials_between [of k "2 ^ k"] Suc by (simp add: mult_2)
qed

theorem foreign_denials_are_logarithmic_witness: "denials_written 1048576 = 25"
  using foreign_denials_are_logarithmic [of 20] by simp

end
