(* ===== verification/Spec2Isabelle.thy ===== *)
theory Spec2Isabelle
  imports Engine Digest_Actions Digest_Scheduler Rate_Limit_Filter Session_Containment Allowlist Sliding_Window Process_Tree Dispatcher Dbus_Channel Dns_Route Event_Cascade Taint_Scopes Session_Registry
begin

text \<open>
  grith supervises AI coding agents: every system call of an agent becomes a \<^emph>\<open>tool call\<close> that a
  pipeline of filters scores; the composite score allows it, denies it, or queues it for human
  review. A review item lives in the digest queue until somebody decides it at the terminal, on the
  dashboard or through a notification channel.

  \<^bold>\<open>The parts and how they interact\<close>

  \<^item> The supervisor stops a thread at a system call and runs the cascade of
    \<open>handle_syscall_event\<close>: DNS inspection, fixed policies, the guard of its own configuration, local
    networking, attribution of addresses to names, the operator's refusals, the fast paths, the grants
    of the session, the evaluation by the proxy or by the daemon, escalations, trust, enforcement.
    Each event ends with one verdict on the thread (\<open>one_verdict_per_event\<close>).
  \<^item> The proxy runs the registered filters in three phases with early exits, applies the
    meta-rules and the ssh clamp, and routes the composite score. Filters keep state per session
    scope; the session-state registry holds the containment flag and the pinned binaries.
  \<^item> A queued call becomes a row of the digest table and the thread waits. Review actions update the
    row; the scheduler hands batches to the terminal, the dispatcher announces items on channels and
    accepts callbacks that carry a one-time nonce. An approval may grant rules to the session.
  \<^item> Beside system calls the supervisor reads two streams: messages on D-Bus sockets, judged before
    the bus sees them, and DNS queries, answered by a proxy that also fills the attribution cache.
  \<^item> The API server and the dispatcher limit traffic with sliding windows.

  \<^bold>\<open>The theories\<close> (sources are under \<open>src/crates/\<close>)

  \<^item> \<open>Prelude\<close>: the types that stand for Rust's (\<open>u32\<close> and \<open>u64\<close> as words, \<open>f64\<close> as rationals,
    \<open>Instant\<close> as integer nanoseconds, \<open>Duration\<close> as natural nanoseconds, \<open>Uuid\<close> as numbers), the
    string operations of the standard library, association lists, the collections of lemmas.
  \<^item> \<open>Proxy_Types\<close>, \<open>Call_Types\<close>: \<open>grith-proxy/src/types.rs\<close> and \<open>path_resolution.rs\<close>. Calls,
    contexts, results and decisions with every constructor and accessor.
  \<^item> \<open>Session_State\<close>: \<open>session_state.rs\<close>. The registry hands out shared references, so the model
    is a store of states with references into it; evicting drops the entry, not the state.
    Containment is sticky (\<open>containment_sticky\<close>).
  \<^item> \<open>Scoring\<close>, \<open>Meta_Rules\<close>, \<open>Ssh_Connect\<close>, \<open>Filters\<close>, \<open>Engine\<close>: \<open>scoring.rs\<close>, \<open>meta_rules.rs\<close>,
    \<open>ssh_connect.rs\<close>, \<open>filters/mod.rs\<close>, \<open>engine.rs\<close>. A filter is a record of functions on a state
    type that all filters of a proxy share; a failing filter is a value of \<open>error + result\<close>.
    \<open>evaluate_decision\<close> says what the pipeline decides, \<open>early_exit_sound\<close> when the early exits
    change nothing.
  \<^item> \<open>Rate_Limit_Filter\<close>, \<open>Session_Containment\<close>, \<open>Allowlist\<close>: three filters. Each is compared with
    a specification over the history of calls, and bounded in what it can contribute. \<open>Ip_Addr\<close>
    is \<open>std::net::IpAddr\<close>'s parser with the address classification of \<open>egress_policy.rs\<close>.
  \<^item> \<open>Outbound_Binaries\<close>: \<open>filters/outbound_binaries.rs\<close>, the table of programs that can send data
    away with the argument shapes that make them do so, and the scan for shell variables.
  \<^item> \<open>Taint_Text\<close>, \<open>Taint_Filter\<close>, \<open>Taint_Flow\<close>, \<open>Taint_Limits\<close>, \<open>Taint_Scopes\<close>: \<open>filters/taint.rs\<close>. The
    functions on text, then the filter with its five tables (\<open>taint_state\<close>; the session registry it
    shares is a component of the state), then what holds over histories of calls (\<open>taint_run\<close>):
    taint lasts for its time to live and contains the session, what the filter does not do, and
    that scopes do not interfere.
  \<^item> \<open>Digest_Queue\<close>, \<open>Digest_Actions\<close>, \<open>Digest_Scheduler\<close>: \<open>grith-digest/src/\<close> \<open>queue.rs\<close>,
    \<open>actions.rs\<close>, \<open>scheduler.rs\<close>. The SQLite table is a list of rows of text columns; each query is
    a function of it. The operations refine the lifecycle relation \<open>status_step\<close>, so settled items
    are final.
  \<^item> \<open>Notification\<close>, \<open>Notify_Parts\<close>, \<open>Dispatcher\<close>: \<open>grith-digest/src/notification.rs\<close> and
    \<open>grith-notify/src/\<close> \<open>batcher.rs\<close>, \<open>tracker.rs\<close>, \<open>routing.rs\<close>, \<open>registry.rs\<close>, \<open>dispatcher.rs\<close>.
    One tick of every background loop is a function on the dispatcher's state; the messages
    handed to channels are recorded in \<open>dp_wire\<close>.
  \<^item> \<open>Sliding_Window\<close>: \<open>grith-server/src/rate_limit.rs\<close> and \<open>grith-notify/src/rate_limiter.rs\<close>.
  \<^item> \<open>Process_Tree\<close>: \<open>grith-supervisor/src/process_tree.rs\<close> and \<open>freezer.rs\<close>. The worklist of
    \<open>descendants_of\<close> may run forever, so it is a \<open>partial_function\<close> into \<open>option\<close>; that it
    returns is proved for trees without parent cycles and for every tree built with fresh pids, and
    that it does not after a pid is reused.
  \<^item> \<open>Byte_Reader\<close>, \<open>Framing\<close>, \<open>Dbus_Wire\<close>, \<open>Dbus_Encoding\<close>, \<open>Dbus_Policy\<close>, \<open>Dbus_Channel\<close>:
    \<open>grith-supervisor/src/dbus/\<close> \<open>wire.rs\<close>, \<open>policy.rs\<close>, \<open>channel.rs\<close>. Bytes are characters. Messages
    laid out as the specification says are decoded to their fields; whatever the cut of the stream,
    a message the kernel accepted was judged before.
  \<^item> \<open>Dns_Wire\<close>, \<open>Dns_Cache\<close>, \<open>Dns_Route\<close>: \<open>dns_proxy.rs\<close>, \<open>dns_cache.rs\<close>, \<open>connected_dns_proxy.rs\<close>.
    Parsers, attribution by the history of answers, query tasks and routes.
  \<^item> \<open>Path_Names\<close>, \<open>Path_Rules\<close>: \<open>grith-proxy/src/paths.rs\<close> and the path predicates of
    \<open>syscall_map.rs\<close>.
  \<^item> \<open>Session_Grants\<close>, \<open>Scoped_Permissions\<close>, \<open>Learned_Rules\<close>: the allowlist and the refusals of a
    session (\<open>event_handler.rs\<close>, \<open>workspace_only.rs\<close>, \<open>provenance.rs\<close>), directory scopes
    (\<open>scoped_permissions.rs\<close>) and rules that outlive a session (\<open>learned_rules.rs\<close>).
  \<^item> \<open>Authority_Delegation\<close>, \<open>Mass_Destruction\<close>, \<open>Reputation\<close>: \<open>authority_delegation.rs\<close>,
    \<open>spawn_families.rs\<close>, \<open>mass_destruction.rs\<close> and \<open>grith-proxy/src/reputation.rs\<close>, the escalations
    after the evaluation and the trust that overrides a review.
  \<^item> \<open>Syscall_Events\<close>, \<open>Listener_Clamp\<close>, \<open>Remote_Eval\<close>: \<open>interceptor.rs\<close> and the translation of
    \<open>syscall_map.rs\<close>; \<open>platform/linux/clamp.rs\<close> on the memory of the traced thread as a map from
    addresses to bytes; \<open>remote_eval.rs\<close>, the evaluation by the daemon and the outbox of outcomes.
  \<^item> \<open>Review_Enforcement\<close>, \<open>Event_Cascade\<close>: the rest of \<open>supervisor/event_handler.rs\<close>. The record
    \<open>supervisor\<close> is the mutable part of \<open>SupervisorSession\<close> and \<open>SupervisorLoopContext\<close>, \<open>loop_env\<close>
    the fixed part; verdicts, kills and finished DNS queries are recorded in order. A handler
    returns \<open>Finished\<close>, \<open>StillWaiting\<close> when the ticks given do not settle the review, or \<open>Crashed\<close>
    where the code panics.
  \<^item> \<open>Session_Registry\<close>: \<open>SupervisorRegistry\<close> of \<open>supervisor/session_state.rs\<close>, the seats, leases
    and audit interlocks in front of every supervised session.
  \<^item> This theory: the proxy with two stateful filters registered, end to end.

  \<^bold>\<open>Interfaces\<close>

  \<^item> \<open>scoring_filter\<close> (in \<open>Filters\<close>): a filter answers under its name with a score between 0 and
    a bound. Interpreted on the rate limiter (\<open>rl\<close>), on session containment (\<open>sc\<close>) and on taint tracking
    (\<open>tf\<close>).
  \<^item> \<open>sliding_window\<close>: admission that prunes, compares and appends admits at most the limit in any
    window. Interpreted on the API buckets (\<open>bucket\<close>) and the channel windows (\<open>channel\<close>).
  \<^item> \<open>one_time_tokens\<close> (in \<open>Notification\<close>): redeeming spends a token and nothing revives it.
    Interpreted on the nonce store (\<open>nonces\<close>); the dispatcher's replay theorem rests on it.
  \<^item> \<open>stream_decoder\<close> (in \<open>Framing\<close>): a decoder whose result is stable when bytes follow takes the
    same messages from a stream however it is cut. Interpreted on the D-Bus decoder (\<open>bus\<close>).

  \<^bold>\<open>Parameters\<close>

  Code outside the repository is an argument: the file system and \<open>/proc\<close> (records \<open>fs\<close> and
  \<open>scope_env\<close>), environment variables, \<open>kill\<close>, SHA-256, the power function of the decay, the
  resolver of the operating system, the encodings of times, UUIDs, JSON and TOML (\<open>codecs\<close>, with
  the hypothesis that parsing inverts rendering and that rendered times sort as times do, which
  a concrete instance satisfies), random UUIDs, measured latencies, the replies of the daemon
  (\<open>remote_config\<close>), and the behaviour of a notification channel. What others answer while one event
  is handled is the record \<open>event_io\<close>, what happens during a review the list of \<open>tick\<close>s. Every
  operation takes the clock reading it uses.

  \<^bold>\<open>Bounds\<close>

  Scores are exact rationals: the constants of the sources are decimal fractions, and rounding of
  sums is not modelled. Counters of the proxy and of the limiters keep their width and wrap or
  saturate as the code does; ports, pids, addresses and socket bytes are words. The ancestor walk of
  a process has the eight steps of the code. Logging, audit rows, traces, broadcasts and metrics
  have no effect on the state and are dropped. Mutexes are assumed not to be poisoned; a method that
  holds one lock throughout is one step, and where a method releases it in between, the interleaving
  is stated (\<open>approve_overwrites_concurrent_deny\<close>). The exclusive files of learned rules and of the
  reputation table are values; an I/O failure leaves them as they were.

  \<^bold>\<open>Not modelled\<close>

  The kernel interfaces (seccomp, ptrace, Endpoint Security), network clients, terminals, the web
  dashboard and process start-up are input and output. The filters that rest on regular expressions
  (secret scan, data-loss gate, command patterns) call a third-party engine. The
  remaining filters of the proxy (sensitive paths, egress policy, behaviour statistics), the
  built-in profiles, the audit log with its analytics and the platform layer are listed in the
  manifest with what keeps them out: tables of patterns and prose, floating-point statistics,
  SQL, and code that is mostly calls into the operating system.
\<close>

section \<open>Properties across components\<close>

text \<open>
  The proxy of the engine with the two stateful filters of the model registered, on the pair of
  their states. \<open>on_fst\<close> and \<open>on_snd\<close> let a filter work on its part of the shared state.
\<close>

definition on_fst :: "'a security_filter \<Rightarrow> ('a \<times> 'b) security_filter" where
  "on_fst f =
     \<lparr> flt_name = flt_name f, flt_phase = flt_phase f, flt_ready = (\<lambda>(a, b). flt_ready f a),
       flt_evaluate = (\<lambda>ctx (a, b). case flt_evaluate f ctx a of (r, a') \<Rightarrow> (r, (a', b))),
       flt_evict = (\<lambda>sc (a, b). case flt_evict f sc a of (n, a') \<Rightarrow> (n, (a', b))),
       flt_observe = (\<lambda>ctx oc age (a, b). (flt_observe f ctx oc age a, b)) \<rparr>"

definition on_snd :: "'b security_filter \<Rightarrow> ('a \<times> 'b) security_filter" where
  "on_snd f =
     \<lparr> flt_name = flt_name f, flt_phase = flt_phase f, flt_ready = (\<lambda>(a, b). flt_ready f b),
       flt_evaluate = (\<lambda>ctx (a, b). case flt_evaluate f ctx b of (r, b') \<Rightarrow> (r, (a, b'))),
       flt_evict = (\<lambda>sc (a, b). case flt_evict f sc b of (n, b') \<Rightarrow> (n, (a, b'))),
       flt_observe = (\<lambda>ctx oc age (a, b). (a, flt_observe f ctx oc age b)) \<rparr>"

definition context_proxy ::
    "(uuid \<Rightarrow> string) \<Rightarrow> rate_limit_filter \<Rightarrow> instant \<Rightarrow> (rate_windows \<times> containment_tracker) security_proxy" where
  "context_proxy ustr flt now =
     proxy_new
       (register (on_snd (containment_security_filter (fst containment_with_defaults) now))
          (register (on_fst (rate_security_filter ustr flt now)) filter_registry_new))
       scoring_default []"

lemma context_proxy_filters:
  "filters_for_phase ph (proxy_registry (context_proxy ustr flt now)) st =
     (if ph = Context
      then [on_fst (rate_security_filter ustr flt now),
            on_snd (containment_security_filter (fst containment_with_defaults) now)]
      else [])"
  by (cases st) (simp add: filters_for_phase_def context_proxy_def proxy_new_def register_def
      filter_registry_new_def on_fst_def on_snd_def rate_security_filter_def containment_security_filter_def)

lemma context_proxy_no_early_phase:
  assumes "ph \<noteq> Context"
  shows "proxy_run_phase lat ph ctx (context_proxy ustr flt now) st = ([], context_proxy ustr flt now, st)"
  using assms by (simp add: proxy_run_phase_def run_phase_def context_proxy_filters)

lemma context_proxy_phase3:
  "\<exists>ws tr. fst (proxy_run_phase lat Context ctx (context_proxy ustr flt now) st) =
     [fst (rate_evaluate_at ustr flt now ctx ws),
      fst (containment_evaluate_at (fst containment_with_defaults) now ctx tr)]"
proof -
  obtain ws tr where st: "st = (ws, tr)" by (cases st)
  show ?thesis
    by (intro exI [of _ ws] exI [of _ tr])
       (simp add: proxy_run_phase_def run_phase_def context_proxy_filters st on_fst_def on_snd_def
          rate_security_filter_def containment_security_filter_def Let_def split: prod.split)
qed

text \<open>
  Volume and containment together never deny: a proxy with the rate-limit and the default
  session-containment filter, the default thresholds and no meta-rules gives every call, in every
  state of the two filters, a composite between 0 and 7, so it is allowed or queued for review.
\<close>

theorem volume_and_containment_never_deny:
  "\<not> is_denied (fst (evaluate exe sreg lat t ctx (context_proxy ustr flt now) st)) \<and>
   0 \<le> composite_score (fst (evaluate exe sreg lat t ctx (context_proxy ustr flt now) st)) \<and>
   composite_score (fst (evaluate exe sreg lat t ctx (context_proxy ustr flt now) st)) \<le> 7"
proof -
  let ?p = "context_proxy ustr flt now"
  have thr: "auto_allow_threshold (proxy_scoring ?p) = 3" "auto_deny_threshold (proxy_scoring ?p) = 8"
      "proxy_meta_rules ?p = []"
    by (simp_all add: context_proxy_def proxy_new_def scoring_default_def SCORE_QUEUE_THRESHOLD_def
        SCORE_DENY_THRESHOLD_def)
  have p1: "phase1 lat ctx ?p st = ([], ?p, st)" by (simp add: phase1_def context_proxy_no_early_phase)
  have p2: "phase2 lat ctx ?p st = ([], ?p, st)" by (simp add: phase2_def p1 context_proxy_no_early_phase)
  obtain ws tr where p3: "fst (phase3 lat ctx ?p st) =
      [fst (rate_evaluate_at ustr flt now ctx ws), fst (containment_evaluate_at (fst containment_with_defaults) now ctx tr)]"
    using context_proxy_phase3 [of lat ctx ustr flt now st] by (auto simp: phase3_def p2)
  let ?s = "aggregate (fst (phase3 lat ctx ?p st))"
  have "?s = aggregate [fst (rate_evaluate_at ustr flt now ctx ws)] +
      aggregate [fst (containment_evaluate_at (fst containment_with_defaults) now ctx tr)]"
    unfolding p3 by (simp add: aggregate_Cons)
  then have s: "0 \<le> ?s" "?s \<le> 7"
    using rl.contribution_bounds [of ustr flt now ctx ws] sc.contribution_bounds [of now ctx tr] by linarith+
  have "final_score exe sreg ?p (fst (phase3 lat ctx ?p st)) ctx = ?s"
    using s thr by (simp add: final_score_def thresholds_def meta_evaluate_def maybe_clamp_ssh_connect_def Let_def
        split: option.splits)
  with s show ?thesis
    by (simp add: evaluate_by_phases evaluate_all_eq p1 p2 thr Let_def)
qed

end
